(* ===== verification/Prelude.thy ===== *)
theory Prelude
  imports Main "HOL-Library.Code_Target_Nat" "HOL-Library.Char_ord" "HOL-Library.List_Lexorder"
begin

text \<open>
  Shared ground of the development: Go error values and the result type that every
  fallible function returns, sequencing of fallible steps, and the generic facts on
  lists used as SQL tables (rows selected by \<open>find\<close> and \<open>filter\<close>, updated by
  \<open>map\<close>, deleted by \<open>filter\<close>, inserted by append).

  Go strings are byte sequences; they are HOL strings, whose characters are bytes.
  \<open>List_Lexorder\<close> and \<open>Char_ord\<close> give them the bytewise order that Go and
  SQLite's BINARY collation use.
\<close>

section \<open>Collections\<close>

named_theorems res_simps \<open>equations of the result type\<close>
named_theorems table_simps \<open>facts on lists used as tables\<close>

section \<open>Go errors\<close>

text \<open>
  The extended result codes of SQLite that the code tells apart. The row of a violated
  primary key reports \<open>CPrimaryKey\<close>, any other unique index \<open>CUnique\<close>; a row that
  refers to a missing one \<open>CForeignKey\<close>, a delete that \<open>ON DELETE RESTRICT\<close> refuses
  \<open>CTrigger\<close>.
\<close>

datatype sql_constraint = CPrimaryKey | CUnique | CForeignKey | CTrigger | CCheck

text \<open>
  Error values. \<open>ServiceError code message resource status\<close> is \<open>*service.Error\<close>;
  \<open>Wrapf\<close> and \<open>Wrap2\<close> are \<open>fmt.Errorf\<close> with one and two \<open>%w\<close> verbs;
  \<open>Errorf\<close> is an error with a text and no identity, \<open>ErrSentinel\<close> another package's
  sentinel value or error type, by its name. \<open>APIError status method path detail\<close> is
  \<open>*podman.APIError\<close>. \<open>OutOfFuel\<close> is no Go error: it
  marks a loop of the model that spent its fuel, and the development proves that the
  loops never return it.
\<close>

datatype goerr =
    ServiceError string string string int
  | ErrNoRows
  | ErrStaleSnapshot
  | ErrAddressExhausted
  | ErrCanceled
  | ErrConstraint sql_constraint
  | ErrFull
  | ErrNotExist
  | ErrEOF
  | ErrSentinel string
  | Errorf string
  | Wrapf string goerr
  | Wrap2 string goerr goerr
  | APIError int string string string
  | OutOfFuel

type_synonym 'a res = "goerr + 'a"

text \<open>\<open>errors.Is\<close>: the target is somewhere in the chain of wrapped errors.\<close>

fun err_is :: "goerr \<Rightarrow> goerr \<Rightarrow> bool" where
  "err_is t (Wrapf m e) = err_is t e"
| "err_is t (Wrap2 m e e') = (err_is t e \<or> err_is t e')"
| "err_is t e = (e = t)"

text \<open>\<open>errors.As\<close> with a \<open>*service.Error\<close> target: the first one in the chain.\<close>

fun as_service_error :: "goerr \<Rightarrow> (string \<times> string \<times> string \<times> int) option" where
  "as_service_error (ServiceError c m r s) = Some (c, m, r, s)"
| "as_service_error (Wrapf t e) = as_service_error e"
| "as_service_error (Wrap2 t e e') =
     (case as_service_error e of Some x \<Rightarrow> Some x | None \<Rightarrow> as_service_error e')"
| "as_service_error e = None"

text \<open>\<open>errors.As\<close> with a \<open>*sqlite.Error\<close> target and its result code.\<close>

fun as_constraint :: "goerr \<Rightarrow> sql_constraint option" where
  "as_constraint (ErrConstraint c) = Some c"
| "as_constraint (Wrapf t e) = as_constraint e"
| "as_constraint (Wrap2 t e e') =
     (case as_constraint e of Some x \<Rightarrow> Some x | None \<Rightarrow> as_constraint e')"
| "as_constraint e = None"

section \<open>Sequencing\<close>

text \<open>\<open>x, err := m; if err != nil { return err }; f(x)\<close>.\<close>

definition res_bind :: "'a res \<Rightarrow> ('a \<Rightarrow> 'b res) \<Rightarrow> 'b res" where
  "res_bind m f = (case m of Inl e \<Rightarrow> Inl e | Inr x \<Rightarrow> f x)"

text \<open>\<open>if err != nil { return fmt.Errorf("p: %w", err) }\<close>.\<close>

definition res_wrap :: "string \<Rightarrow> 'a res \<Rightarrow> 'a res" where
  "res_wrap p m = (case m of Inl e \<Rightarrow> Inl (Wrapf p e) | Inr x \<Rightarrow> Inr x)"

text \<open>\<open>if bad { return err }\<close>.\<close>

definition res_guard :: "bool \<Rightarrow> goerr \<Rightarrow> unit res" where
  "res_guard ok e = (if ok then Inr () else Inl e)"

lemma res_bind_simps [simp, res_simps]:
  "res_bind (Inl e) f = Inl e"
  "res_bind (Inr x) f = f x"
  by (simp_all add: res_bind_def)

lemma res_wrap_simps [simp, res_simps]:
  "res_wrap p (Inl e) = Inl (Wrapf p e)"
  "res_wrap p (Inr x) = Inr x"
  by (simp_all add: res_wrap_def)

lemma res_bind_Inr [res_simps]: "res_bind m f = Inr y \<longleftrightarrow> (\<exists>x. m = Inr x \<and> f x = Inr y)"
  by (cases m) auto

lemma res_bind_Inl [res_simps]:
  "res_bind m f = Inl e \<longleftrightarrow> m = Inl e \<or> (\<exists>x. m = Inr x \<and> f x = Inl e)"
  by (cases m) auto

lemma res_wrap_Inr [simp, res_simps]: "res_wrap p m = Inr y \<longleftrightarrow> m = Inr y"
  by (cases m) auto

lemma res_wrap_Inl [res_simps]: "res_wrap p m = Inl e \<longleftrightarrow> (\<exists>e'. m = Inl e' \<and> e = Wrapf p e')"
  by (cases m) auto

lemma res_guard_Inr [simp, res_simps]: "res_guard b e = Inr u \<longleftrightarrow> b"
  by (simp add: res_guard_def)

lemma res_guard_Inl [simp, res_simps]: "res_guard b e = Inl e' \<longleftrightarrow> \<not> b \<and> e' = e"
  by (auto simp: res_guard_def)

lemma res_guard_True [simp]: "res_guard True e = Inr ()"
  by (simp add: res_guard_def)

lemma res_guard_False [simp]: "res_guard False e = Inl e"
  by (simp add: res_guard_def)

lemma res_bind_cong [fundef_cong]:
  "m = m' \<Longrightarrow> (\<And>x. m' = Inr x \<Longrightarrow> f x = g x) \<Longrightarrow> res_bind m f = res_bind m' g"
  by (cases m') auto

lemma res_bind_assoc: "res_bind (res_bind m f) g = res_bind m (\<lambda>x. res_bind (f x) g)"
  by (cases m) auto

text \<open>A loop over a slice that stops at the first error.\<close>

fun res_mapM :: "('a \<Rightarrow> 'b res) \<Rightarrow> 'a list \<Rightarrow> 'b list res" where
  "res_mapM f [] = Inr []"
| "res_mapM f (x # xs) =
     res_bind (f x) (\<lambda>y. res_bind (res_mapM f xs) (\<lambda>ys. Inr (y # ys)))"

lemma res_mapM_Inr_iff:
  "res_mapM f xs = Inr ys \<longleftrightarrow> list_all2 (\<lambda>x y. f x = Inr y) xs ys"
proof (induction xs arbitrary: ys)
  case Nil
  then show ?case by auto
next
  case (Cons x xs)
  then show ?case by (cases ys) (auto simp: res_simps)
qed

lemma res_mapM_map:
  assumes "\<And>x. x \<in> set xs \<Longrightarrow> f x = Inr (g x)"
  shows "res_mapM f xs = Inr (map g xs)"
  using assms by (induction xs) auto

lemma res_mapM_length: "res_mapM f xs = Inr ys \<Longrightarrow> length ys = length xs"
  by (auto simp: res_mapM_Inr_iff dest: list_all2_lengthD)

section \<open>Lists as tables\<close>

lemma find_Some_iff_distinct:
  assumes "distinct (map k xs)"
  shows "find (\<lambda>r. k r = a) xs = Some r \<longleftrightarrow> r \<in> set xs \<and> k r = a"
  using assms
proof (induction xs)
  case Nil
  then show ?case by simp
next
  case (Cons x xs)
  then show ?case by (auto simp: image_iff)
qed

lemma find_Some_in: "find P xs = Some r \<Longrightarrow> r \<in> set xs \<and> P r"
  by (induction xs) (auto split: if_splits)

lemma find_None_all: "find P xs = None \<longleftrightarrow> (\<forall>r \<in> set xs. \<not> P r)"
  by (induction xs) auto

lemma find_unique:
  assumes "r \<in> set xs" and "P r" and "\<And>s. s \<in> set xs \<Longrightarrow> P s \<Longrightarrow> s = r"
  shows "find P xs = Some r"
proof (cases "find P xs")
  case None
  with assms(1,2) show ?thesis by (auto simp: find_None_all)
next
  case (Some s)
  then have "s \<in> set xs" and "P s" by (auto dest: find_Some_in)
  then have "s = r" by (rule assms(3))
  with Some show ?thesis by simp
qed

lemma distinct_map_unique:
  "distinct (map k xs) \<Longrightarrow> x \<in> set xs \<Longrightarrow> y \<in> set xs \<Longrightarrow> k x = k y \<Longrightarrow> x = y"
  by (simp add: distinct_map inj_on_def)

lemma map_keeps_key [table_simps]:
  assumes "\<And>x. k (f x) = k x"
  shows "map k (map f xs) = map k xs"
  using assms by simp

lemma distinct_map_filter_key [table_simps]:
  "distinct (map k xs) \<Longrightarrow> distinct (map k (filter P xs))"
  by (induction xs) auto

lemma find_map_update:
  assumes "\<And>x. P (f x) \<longleftrightarrow> P x"
  shows "find P (map f xs) = map_option f (find P xs)"
  using assms by (induction xs) auto

text \<open>A page of a sorted listing is a prefix of what follows the cursor.\<close>

lemma sorted_filter_gt_split:
  fixes xs :: "'a :: linorder list"
  assumes "sorted_wrt (<) xs" and "n < length xs"
  shows "filter (\<lambda>x. xs ! n < x) xs = drop (Suc n) xs"
  using assms
proof (induction xs arbitrary: n)
  case Nil
  then show ?case by simp
next
  case (Cons y ys)
  show ?case
  proof (cases n)
    case 0
    with Cons.prems show ?thesis by simp
  next
    case (Suc m)
    with Cons.prems have m: "m < length ys" by simp
    with Cons.prems have "y < ys ! m" by simp
    then have "\<not> ys ! m < y" by simp
    with Suc Cons.IH [OF _ m] Cons.prems show ?thesis by simp
  qed
qed

end
