(* ===== verification/GoLib.thy ===== *)
theory GoLib
  imports Prelude
begin

text \<open>
  The parts of Go's standard library the program's own logic rests on: \<open>strings\<close>
  (prefixes, suffixes, trimming, fields), \<open>strconv\<close> (decimal integers, quoting),
  \<open>encoding/hex\<close>, \<open>encoding/base64\<close> (\<open>RawURLEncoding\<close>), and \<open>unicode/utf8\<close>.
  Byte slices and strings are both lists of bytes, so \<open>[]byte(s)\<close> is \<open>s\<close>.
\<close>

type_synonym bytes = string

abbreviation byte :: "char \<Rightarrow> nat" where
  "byte c \<equiv> of_char c"

lemma byte_less_256 [simp]: "byte c < 256"
proof -
  have "byte c mod 256 = byte c" by (rule of_char_mod_256)
  then show ?thesis by (metis mod_less_divisor zero_less_numeral)
qed

lemma byte_char_of [simp]: "n < 256 \<Longrightarrow> byte (char_of n) = n"
  by simp

section \<open>strings\<close>

definition HasPrefix :: "string \<Rightarrow> string \<Rightarrow> bool" where
  "HasPrefix s p \<longleftrightarrow> take (length p) s = p"

text \<open>\<open>strings.Contains\<close>.\<close>

fun has_substring :: "string \<Rightarrow> string \<Rightarrow> bool" where
  "has_substring [] sub = HasPrefix [] sub"
| "has_substring (c # s) sub = (HasPrefix (c # s) sub \<or> has_substring s sub)"

definition HasSuffix :: "string \<Rightarrow> string \<Rightarrow> bool" where
  "HasSuffix s p \<longleftrightarrow> length p \<le> length s \<and> drop (length s - length p) s = p"

definition CutPrefix :: "string \<Rightarrow> string \<Rightarrow> string option" where
  "CutPrefix s p = (if HasPrefix s p then Some (drop (length p) s) else None)"

definition TrimPrefix :: "string \<Rightarrow> string \<Rightarrow> string" where
  "TrimPrefix s p = (if HasPrefix s p then drop (length p) s else s)"

lemma HasPrefix_append [simp]: "HasPrefix (p @ s) p"
  by (simp add: HasPrefix_def)

lemma HasPrefix_iff: "HasPrefix s p \<longleftrightarrow> (\<exists>r. s = p @ r)"
  by (metis HasPrefix_def HasPrefix_append append_take_drop_id)

lemma CutPrefix_append [simp]: "CutPrefix (p @ s) p = Some s"
  by (simp add: CutPrefix_def)

lemma CutPrefix_Some: "CutPrefix s p = Some r \<longleftrightarrow> s = p @ r"
  by (auto simp: CutPrefix_def HasPrefix_iff)

lemma HasSuffix_append [simp]: "HasSuffix (s @ p) p"
  by (simp add: HasSuffix_def)

lemma HasSuffix_iff: "HasSuffix s p \<longleftrightarrow> (\<exists>r. s = r @ p)"
proof
  assume "HasSuffix s p"
  then have "s = take (length s - length p) s @ p"
    by (metis HasSuffix_def append_take_drop_id)
  then show "\<exists>r. s = r @ p" ..
qed (auto simp: HasSuffix_def)

text \<open>\<open>strings.Split\<close> on a one-byte separator.\<close>

fun split_at :: "char \<Rightarrow> string \<Rightarrow> string list" where
  "split_at d [] = [[]]"
| "split_at d (c # cs) =
     (if c = d then [] # split_at d cs
      else case split_at d cs of [] \<Rightarrow> [[c]] | w # ws \<Rightarrow> (c # w) # ws)"

text \<open>
  The encodings of Unicode's white space: the ASCII ones, U+0085, U+00A0, U+1680,
  U+2000 to U+200A, U+2028, U+2029, U+202F, U+205F and U+3000. A string starts (ends)
  with a space rune exactly when it starts (ends) with one of these byte sequences.
\<close>

definition space_encodings :: "string list" where
  "space_encodings =
     map (map char_of)
       ([[9], [10], [11], [12], [13], [32], [0xC2, 0x85], [0xC2, 0xA0], [0xE1, 0x9A, 0x80]]
        @ map (\<lambda>n. [0xE2, 0x80, n]) [0x80..<0x8B]
        @ [[0xE2, 0x80, 0xA8], [0xE2, 0x80, 0xA9], [0xE2, 0x80, 0xAF], [0xE2, 0x81, 0x9F],
           [0xE3, 0x80, 0x80 :: nat]])"

definition lead_space :: "string \<Rightarrow> string option" where
  "lead_space s = find (HasPrefix s) space_encodings"

definition trail_space :: "string \<Rightarrow> string option" where
  "trail_space s = find (HasSuffix s) space_encodings"

lemma space_encodings_nonempty: "e \<in> set space_encodings \<Longrightarrow> e \<noteq> []"
  by (auto simp: space_encodings_def)

function TrimLeftSpace :: "string \<Rightarrow> string" where
  "TrimLeftSpace s =
     (case lead_space s of None \<Rightarrow> s | Some e \<Rightarrow> TrimLeftSpace (drop (length e) s))"
  by pat_completeness auto
termination
proof (relation "measure length")
  fix s e
  assume "lead_space s = Some e"
  then have "e \<in> set space_encodings" and "HasPrefix s e"
    by (auto simp: lead_space_def dest: find_Some_in)
  then have "0 < length e" and "length e \<le> length s"
    using space_encodings_nonempty by (auto simp: HasPrefix_iff)
  then show "(drop (length e) s, s) \<in> measure length"
    unfolding in_measure length_drop by linarith
qed simp

function TrimRightSpace :: "string \<Rightarrow> string" where
  "TrimRightSpace s =
     (case trail_space s of None \<Rightarrow> s | Some e \<Rightarrow> TrimRightSpace (take (length s - length e) s))"
  by pat_completeness auto
termination
proof (relation "measure length")
  fix s e
  assume "trail_space s = Some e"
  then have "e \<in> set space_encodings" and "HasSuffix s e"
    by (auto simp: trail_space_def dest: find_Some_in)
  then have "0 < length e" and "length e \<le> length s"
    using space_encodings_nonempty by (auto simp: HasSuffix_iff)
  then show "(take (length s - length e) s, s) \<in> measure length"
    unfolding in_measure length_take by linarith
qed simp

declare TrimLeftSpace.simps [simp del] TrimRightSpace.simps [simp del]

definition TrimSpace :: "string \<Rightarrow> string" where
  "TrimSpace s = TrimRightSpace (TrimLeftSpace s)"

lemma TrimLeftSpace_no_lead: "lead_space (TrimLeftSpace s) = None"
proof (induction s rule: TrimLeftSpace.induct)
  case (1 s)
  then show ?case
    by (cases "lead_space s") (simp_all add: TrimLeftSpace.simps [of s])
qed

lemma TrimRightSpace_no_trail: "trail_space (TrimRightSpace s) = None"
proof (induction s rule: TrimRightSpace.induct)
  case (1 s)
  then show ?case
    by (cases "trail_space s") (simp_all add: TrimRightSpace.simps [of s])
qed

lemma TrimRightSpace_prefix: "\<exists>r. s = TrimRightSpace s @ r"
proof (induction s rule: TrimRightSpace.induct)
  case (1 s)
  show ?case
  proof (cases "trail_space s")
    case None
    then show ?thesis by (simp add: TrimRightSpace.simps [of s])
  next
    case (Some e)
    with 1 obtain r where
      "take (length s - length e) s = TrimRightSpace (take (length s - length e) s) @ r"
      by blast
    then have "s = TrimRightSpace (take (length s - length e) s) @ r @ drop (length s - length e) s"
      by (metis append.assoc append_take_drop_id)
    with Some show ?thesis by (auto simp: TrimRightSpace.simps [of s])
  qed
qed

lemma TrimSpace_no_lead: "lead_space (TrimSpace s) = None"
proof -
  obtain r where r: "TrimLeftSpace s = TrimSpace s @ r"
    using TrimRightSpace_prefix [of "TrimLeftSpace s"] by (auto simp: TrimSpace_def)
  have "\<not> HasPrefix (TrimSpace s) e" if "e \<in> set space_encodings" for e
  proof
    assume "HasPrefix (TrimSpace s) e"
    then have "HasPrefix (TrimLeftSpace s) e" by (auto simp: r HasPrefix_iff)
    with that TrimLeftSpace_no_lead [of s] show False
      by (auto simp: lead_space_def find_None_all)
  qed
  then show ?thesis by (auto simp: lead_space_def find_None_all)
qed

lemma TrimSpace_no_trail: "trail_space (TrimSpace s) = None"
  by (simp add: TrimSpace_def TrimRightSpace_no_trail)

lemma TrimSpace_id: "lead_space s = None \<Longrightarrow> trail_space s = None \<Longrightarrow> TrimSpace s = s"
  by (simp add: TrimSpace_def TrimLeftSpace.simps [of s] TrimRightSpace.simps [of s])

lemma TrimSpace_idem: "TrimSpace (TrimSpace s) = TrimSpace s"
  by (rule TrimSpace_id) (rule TrimSpace_no_lead, rule TrimSpace_no_trail)

section \<open>Bytes that are digits\<close>

definition is_digit :: "char \<Rightarrow> bool" where
  "is_digit c \<longleftrightarrow> 48 \<le> byte c \<and> byte c \<le> 57"

definition is_lower_hex :: "char \<Rightarrow> bool" where
  "is_lower_hex c \<longleftrightarrow> is_digit c \<or> (97 \<le> byte c \<and> byte c \<le> 102)"

definition digit :: "nat \<Rightarrow> char" where
  "digit n = char_of (48 + n)"

definition digit_val :: "char \<Rightarrow> nat" where
  "digit_val c = byte c - 48"

lemma byte_digit: "n < 10 \<Longrightarrow> byte (digit n) = 48 + n"
  by (simp add: digit_def)

lemma is_digit_digit [simp]: "n < 10 \<Longrightarrow> is_digit (digit n)"
  by (simp add: is_digit_def byte_digit)

lemma digit_val_digit [simp]: "n < 10 \<Longrightarrow> digit_val (digit n) = n"
  by (simp add: digit_val_def byte_digit)

lemma digit_digit_val: "is_digit c \<Longrightarrow> digit (digit_val c) = c"
  by (simp add: is_digit_def digit_def digit_val_def)

lemma digit_val_less: "is_digit c \<Longrightarrow> digit_val c < 10"
  unfolding is_digit_def digit_val_def by linarith

lemma digit_inject: "m < 10 \<Longrightarrow> n < 10 \<Longrightarrow> digit m = digit n \<longleftrightarrow> m = n"
  by (metis digit_val_digit)

section \<open>strconv\<close>

fun dec :: "nat \<Rightarrow> string" where
  "dec n = (if n < 10 then [digit n] else dec (n div 10) @ [digit (n mod 10)])"

declare dec.simps [simp del]

definition num :: "string \<Rightarrow> nat" where
  "num s = foldl (\<lambda>a c. 10 * a + digit_val c) 0 s"

definition FormatInt :: "int \<Rightarrow> string" where
  "FormatInt i = (if i < 0 then CHR ''-'' # dec (nat (- i)) else dec (nat i))"

text \<open>\<open>strconv.ParseUint(s, 10, bits)\<close>: digits only, at least one, in range.\<close>

definition ParseUint :: "nat \<Rightarrow> string \<Rightarrow> nat option" where
  "ParseUint bits s =
     (if s \<noteq> [] \<and> list_all is_digit s \<and> num s < 2 ^ bits then Some (num s) else None)"

text \<open>\<open>strconv.ParseInt(s, 10, 64)\<close> and, on 64-bit targets, \<open>strconv.Atoi\<close>: an optional
  sign, then digits, in the range of \<open>int64\<close>.\<close>

definition ParseInt :: "string \<Rightarrow> int option" where
  "ParseInt s =
     (case s of
        [] \<Rightarrow> None
      | c # cs \<Rightarrow>
          (let neg = (c = CHR ''-''); ds = (if c = CHR ''-'' \<or> c = CHR ''+'' then cs else s) in
           if ds = [] \<or> \<not> list_all is_digit ds then None
           else if \<not> neg \<and> num ds < 2 ^ 63 then Some (int (num ds))
           else if neg \<and> num ds \<le> 2 ^ 63 then Some (- int (num ds))
           else None))"

lemma num_Nil [simp]: "num [] = 0"
  by (simp add: num_def)

lemma num_snoc [simp]: "num (s @ [c]) = 10 * num s + digit_val c"
  by (simp add: num_def)

lemma num_dec [simp]: "num (dec n) = n"
proof (induction n rule: dec.induct)
  case (1 n)
  show ?case
  proof (cases "n < 10")
    case True
    then show ?thesis by (simp add: dec.simps [of n] num_def)
  next
    case False
    with 1 show ?thesis by (simp add: dec.simps [of n])
  qed
qed

lemma dec_digits [simp]: "list_all is_digit (dec n)"
proof (induction n rule: dec.induct)
  case (1 n)
  then show ?case by (cases "n < 10") (simp_all add: dec.simps [of n])
qed

lemma dec_nonempty [simp]: "dec n \<noteq> []"
  by (subst dec.simps) simp

lemma dec_inject [simp]: "dec m = dec n \<longleftrightarrow> m = n"
  by (metis num_dec)

text \<open>A numeral has no leading zero, and every numeral without one is printed by \<open>dec\<close>.\<close>

lemma dec_hd: "hd (dec n) = CHR ''0'' \<longleftrightarrow> n = 0"
proof (induction n rule: dec.induct)
  case (1 n)
  have z: "CHR ''0'' = digit 0" by code_simp
  show ?case
  proof (cases "n < 10")
    case True
    then show ?thesis by (simp add: dec.simps [of n] z digit_inject)
  next
    case False
    then have "n div 10 \<noteq> 0" by simp
    with False 1 show ?thesis by (simp add: dec.simps [of n])
  qed
qed

lemma dec_num:
  assumes "list_all is_digit s" and "s \<noteq> []" and "hd s \<noteq> CHR ''0''"
  shows "dec (num s) = s"
  using assms
proof (induction s rule: rev_induct)
  case Nil
  then show ?case by simp
next
  case (snoc c s)
  have c: "digit_val c < 10" "digit (digit_val c) = c"
    using snoc.prems by (auto intro: digit_val_less digit_digit_val)
  show ?case
  proof (cases "s = []")
    case True
    then show ?thesis using c by (simp add: dec.simps [of "digit_val c"] num_def)
  next
    case False
    with snoc.prems have s: "dec (num s) = s" "hd s \<noteq> CHR ''0''"
      using snoc.IH by auto
    then have "num s \<noteq> 0" using dec_hd [of "num s"] by auto
    then show ?thesis using s c by (simp add: dec.simps [of "10 * num s + digit_val c"])
  qed
qed

lemma dec_no_sign: "hd (dec n) \<noteq> CHR ''-''" "hd (dec n) \<noteq> CHR ''+''"
proof -
  have d: "is_digit (hd (dec n))"
    using dec_digits [of n] dec_nonempty [of n] by (cases "dec n") auto
  show "hd (dec n) \<noteq> CHR ''-''" "hd (dec n) \<noteq> CHR ''+''"
    using d by (auto simp: is_digit_def)
qed

lemma ParseInt_dec: "n < 2 ^ 63 \<Longrightarrow> ParseInt (dec n) = Some (int n)"
proof -
  assume n: "n < 2 ^ 63"
  obtain c cs where cs: "dec n = c # cs" by (cases "dec n") auto
  then have "c \<noteq> CHR ''-''" "c \<noteq> CHR ''+''" using dec_no_sign [of n] by auto
  moreover have "list_all is_digit (c # cs)" "num (c # cs) = n"
    using cs dec_digits [of n] num_dec [of n] by auto
  ultimately show ?thesis using n by (simp add: ParseInt_def cs Let_def)
qed

lemma ParseInt_FormatInt:
  assumes "- (2 ^ 63) \<le> i" and "i < 2 ^ 63"
  shows "ParseInt (FormatInt i) = Some i"
proof (cases "i < 0")
  case True
  with assms show ?thesis by (simp add: FormatInt_def ParseInt_def nat_le_iff)
next
  case False
  with assms have "nat i < 2 ^ 63" by (simp add: nat_less_iff)
  with False show ?thesis by (simp add: FormatInt_def ParseInt_dec)
qed

lemma FormatInt_inject: "FormatInt i = FormatInt j \<longleftrightarrow> i = j"
proof -
  have d: "dec m \<noteq> CHR ''-'' # s" for m s
    using dec_no_sign(1) [of m] by (metis list.sel(1))
  show ?thesis
    using d [of "nat i"] d [of "nat j"] d [of "nat i", symmetric] d [of "nat j", symmetric]
    by (auto simp: FormatInt_def)
qed

lemma ParseUint_dec: "n < 2 ^ b \<Longrightarrow> ParseUint b (dec n) = Some n"
  by (simp add: ParseUint_def)

lemma ParseUint_Some: "ParseUint b s = Some n \<Longrightarrow> n < 2 ^ b"
  by (auto simp: ParseUint_def split: if_splits)

end
