(* ===== verification/GoEncoding.thy ===== *)
theory GoEncoding
  imports GoLib
begin

text \<open>
  \<open>encoding/hex\<close>, \<open>encoding/base64\<close> (\<open>RawURLEncoding\<close>), \<open>unicode/utf8\<close>,
  \<open>strings.Fields\<close> and the \<open>%q\<close> verb. The round trip of the base64 codec, the facts on
  hexadecimal identifiers, and the splitting of lines into fields are what the page
  tokens, credentials, resource IDs and ownership markers rest on.
\<close>

section \<open>encoding/hex\<close>

definition hexdigit :: "nat \<Rightarrow> char" where
  "hexdigit n = (if n < 10 then char_of (48 + n) else char_of (87 + n))"

definition hexEncode :: "bytes \<Rightarrow> string" where
  "hexEncode bs = concat (map (\<lambda>b. [hexdigit (byte b div 16), hexdigit (byte b mod 16)]) bs)"

lemma is_lower_hex_hexdigit [simp]: "n < 16 \<Longrightarrow> is_lower_hex (hexdigit n)"
  by (auto simp: hexdigit_def is_lower_hex_def is_digit_def)

lemma hexEncode_lower: "list_all is_lower_hex (hexEncode bs)"
proof -
  have "byte b div 16 < 16" for b
    using byte_less_256 [of b] by linarith
  then show ?thesis
    by (induction bs) (auto simp: hexEncode_def)
qed

lemma length_hexEncode [simp]: "length (hexEncode bs) = 2 * length bs"
  by (induction bs) (auto simp: hexEncode_def)

section \<open>encoding/base64, RawURLEncoding\<close>

definition b64_char :: "nat \<Rightarrow> char" where
  "b64_char n =
     (if n < 26 then char_of (65 + n)
      else if n < 52 then char_of (71 + n)
      else if n < 62 then char_of (n - 4)
      else if n = 62 then CHR ''-'' else CHR ''_'')"

definition b64_val :: "char \<Rightarrow> nat option" where
  "b64_val c =
     (if 65 \<le> byte c \<and> byte c \<le> 90 then Some (byte c - 65)
      else if 97 \<le> byte c \<and> byte c \<le> 122 then Some (byte c - 71)
      else if 48 \<le> byte c \<and> byte c \<le> 57 then Some (byte c + 4)
      else if c = CHR ''-'' then Some 62
      else if c = CHR ''_'' then Some 63
      else None)"

fun b64_sextets :: "nat list \<Rightarrow> nat list" where
  "b64_sextets [] = []"
| "b64_sextets [a] = [a div 4, a mod 4 * 16]"
| "b64_sextets [a, b] = [a div 4, a mod 4 * 16 + b div 16, b mod 16 * 4]"
| "b64_sextets (a # b # c # r) =
     a div 4 # (a mod 4 * 16 + b div 16) # (b mod 16 * 4 + c div 64) # c mod 64 # b64_sextets r"

text \<open>
  Decoding is not strict: trailing bits of the last sextet are dropped. A final group of
  one character is an error.
\<close>

fun b64_unsextets :: "nat list \<Rightarrow> nat list option" where
  "b64_unsextets [] = Some []"
| "b64_unsextets [p] = None"
| "b64_unsextets [p, q] = Some [p * 4 + q div 16]"
| "b64_unsextets [p, q, r] = Some [p * 4 + q div 16, q mod 16 * 16 + r div 4]"
| "b64_unsextets (p # q # r # t # ss) =
     (case b64_unsextets ss of
        None \<Rightarrow> None
      | Some bs \<Rightarrow> Some ((p * 4 + q div 16) # (q mod 16 * 16 + r div 4) # (r mod 4 * 64 + t) # bs))"

definition b64Encode :: "bytes \<Rightarrow> string" where
  "b64Encode bs = map b64_char (b64_sextets (map of_char bs))"

text \<open>The decoder skips carriage returns and line feeds anywhere in its input.\<close>

definition b64Decode :: "string \<Rightarrow> bytes option" where
  "b64Decode s =
     (case those (map b64_val (filter (\<lambda>c. byte c \<noteq> 10 \<and> byte c \<noteq> 13) s)) of
        None \<Rightarrow> None
      | Some ss \<Rightarrow> map_option (map char_of) (b64_unsextets ss))"

lemma b64_val_char: "n < 64 \<Longrightarrow> b64_val (b64_char n) = Some n"
  by (auto simp: b64_val_def b64_char_def)

lemma b64_char_no_newline: "n < 64 \<Longrightarrow> byte (b64_char n) \<noteq> 10 \<and> byte (b64_char n) \<noteq> 13"
  by (auto simp: b64_char_def)

lemma b64_sextets_bound: "list_all (\<lambda>a. a < 256) xs \<Longrightarrow> list_all (\<lambda>n. n < 64) (b64_sextets xs)"
proof (induction xs rule: b64_sextets.induct)
  case (4 a b c r)
  then have "a div 4 < 64" "a mod 4 * 16 + b div 16 < 64" "b mod 16 * 4 + c div 64 < 64"
    by (auto; presburger)+
  with 4 show ?case by simp
next
  case (3 a b)
  then have "a div 4 < 64" "a mod 4 * 16 + b div 16 < 64" "b mod 16 * 4 < 64"
    by (auto; presburger)+
  then show ?case by simp
next
  case (2 a)
  then have "a div 4 < 64" "a mod 4 * 16 < 64" by (auto; presburger)+
  then show ?case by simp
qed simp

lemma b64_unsextets_sextets: "list_all (\<lambda>a. a < 256) xs \<Longrightarrow> b64_unsextets (b64_sextets xs) = Some xs"
proof (induction xs rule: b64_sextets.induct)
  case (4 a b c r)
  then have "b div 16 < 16" "c div 64 < 4" by (simp_all add: div_less_iff_less_mult)
  with 4 show ?case by simp
next
  case (3 a b)
  then have "b div 16 < 16" by (simp add: div_less_iff_less_mult)
  with 3 show ?case by simp
next
  case (2 a)
  then show ?case by simp
qed simp

lemma those_map_Some: "(\<And>x. x \<in> set xs \<Longrightarrow> f x = Some (g x)) \<Longrightarrow> those (map f xs) = Some (map g xs)"
  by (induction xs) auto

lemma b64Decode_Encode: "b64Decode (b64Encode bs) = Some bs"
proof -
  let ?ss = "b64_sextets (map of_char bs) :: nat list"
  have bytes: "list_all (\<lambda>a. a < 256) (map of_char bs :: nat list)"
    by (simp add: list_all_iff)
  then have ss: "\<And>n. n \<in> set ?ss \<Longrightarrow> n < 64"
    using b64_sextets_bound [OF bytes] by (simp add: list_all_iff)
  have "filter (\<lambda>c. byte c \<noteq> 10 \<and> byte c \<noteq> 13) (map b64_char ?ss) = map b64_char ?ss"
    by (rule filter_True) (use ss b64_char_no_newline in auto)
  moreover have "those (map b64_val (map b64_char ?ss)) = Some ?ss"
    using those_map_Some [of ?ss "\<lambda>n. b64_val (b64_char n)" id] ss
    by (simp add: b64_val_char comp_def)
  ultimately show ?thesis
    by (simp add: b64Decode_def b64Encode_def b64_unsextets_sextets [OF bytes] comp_def)
qed

lemma b64Encode_inject: "b64Encode a = b64Encode b \<longleftrightarrow> a = b"
  by (metis b64Decode_Encode option.inject)

section \<open>unicode/utf8\<close>

definition is_cont :: "nat \<Rightarrow> bool" where
  "is_cont b \<longleftrightarrow> 0x80 \<le> b \<and> b \<le> 0xBF"

text \<open>The rune that starts a byte sequence and the rest; \<open>None\<close> where it is not valid.\<close>

fun utf8_step :: "nat list \<Rightarrow> (nat \<times> nat list) option" where
  "utf8_step [] = None"
| "utf8_step (a # r) =
     (if a < 0x80 then Some (a, r)
      else if 0xC2 \<le> a \<and> a \<le> 0xDF then
        (case r of
           b # r' \<Rightarrow> if is_cont b then Some ((a - 0xC0) * 64 + (b - 0x80), r') else None
         | _ \<Rightarrow> None)
      else if 0xE0 \<le> a \<and> a \<le> 0xEF then
        (case r of
           b # c # r' \<Rightarrow>
             if is_cont b \<and> is_cont c \<and> (a = 0xE0 \<longrightarrow> 0xA0 \<le> b) \<and> (a = 0xED \<longrightarrow> b \<le> 0x9F)
             then Some (((a - 0xE0) * 64 + (b - 0x80)) * 64 + (c - 0x80), r') else None
         | _ \<Rightarrow> None)
      else if 0xF0 \<le> a \<and> a \<le> 0xF4 then
        (case r of
           b # c # d # r' \<Rightarrow>
             if is_cont b \<and> is_cont c \<and> is_cont d \<and> (a = 0xF0 \<longrightarrow> 0x90 \<le> b)
                \<and> (a = 0xF4 \<longrightarrow> b \<le> 0x8F)
             then Some ((((a - 0xF0) * 64 + (b - 0x80)) * 64 + (c - 0x80)) * 64 + (d - 0x80), r')
             else None
         | _ \<Rightarrow> None)
      else None)"

lemma utf8_step_length: "utf8_step bs = Some (r, rest) \<Longrightarrow> length rest < length bs"
proof (cases bs)
  case (Cons a cs)
  assume "utf8_step bs = Some (r, rest)"
  with Cons consider "rest = cs" | b where "cs = b # rest" | b c where "cs = b # c # rest"
    | b c d where "cs = b # c # d # rest"
    by (simp split: if_split_asm list.split_asm)
  then show ?thesis using Cons by cases auto
qed simp

lemma utf8_step_ascii: "a < 0x80 \<Longrightarrow> utf8_step (a # bs) = Some (a, bs)"
  by simp

lemma utf8_step_cases:
  "utf8_step (a # cs) = Some (r, rest) \<Longrightarrow>
   (a < 0x80 \<and> r = a \<and> rest = cs) \<or>
   (\<exists>b. 0xC2 \<le> a \<and> a \<le> 0xDF \<and> cs = b # rest \<and> is_cont b \<and> r = (a - 0xC0) * 64 + (b - 0x80)) \<or>
   (\<exists>b c. 0xE0 \<le> a \<and> a \<le> 0xEF \<and> cs = b # c # rest \<and> is_cont b \<and> is_cont c \<and>
      (a = 0xE0 \<longrightarrow> 0xA0 \<le> b) \<and> (a = 0xED \<longrightarrow> b \<le> 0x9F) \<and>
      r = ((a - 0xE0) * 64 + (b - 0x80)) * 64 + (c - 0x80)) \<or>
   (\<exists>b c d. 0xF0 \<le> a \<and> a \<le> 0xF4 \<and> cs = b # c # d # rest \<and> is_cont b \<and> is_cont c \<and> is_cont d \<and>
      (a = 0xF0 \<longrightarrow> 0x90 \<le> b) \<and> (a = 0xF4 \<longrightarrow> b \<le> 0x8F) \<and>
      r = (((a - 0xF0) * 64 + (b - 0x80)) * 64 + (c - 0x80)) * 64 + (d - 0x80))"
  by (simp split: if_split_asm list.split_asm)

lemma utf8_step_low:
  assumes "utf8_step (a # cs) = Some (r, rest)" and "r < 0x80"
  shows "r = a \<and> rest = cs"
proof -
  have "x * 64 + y < 0x80 \<Longrightarrow> x < 2" for x y :: nat by linarith
  then have big: "2 \<le> x \<Longrightarrow> \<not> x * 64 + y < 0x80" for x y :: nat by (meson not_less)
  have "2 \<le> (a - 0xE0) * 64 + (b - 0x80)" if "0xE0 \<le> a" "a = 0xE0 \<longrightarrow> 0xA0 \<le> b" for b
    using that by (cases "a = 0xE0") (simp, linarith)
  moreover have "2 \<le> (a - 0xF0) * 64 + (b - 0x80)" if "0xF0 \<le> a" "a = 0xF0 \<longrightarrow> 0x90 \<le> b" for b
    using that by (cases "a = 0xF0") (simp, linarith)
  moreover have "2 \<le> x * 64 + y" if "2 \<le> x" for x y :: nat using that by linarith
  ultimately show ?thesis
    using utf8_step_cases [OF assms(1)] assms(2) big
    by (elim disjE exE conjE) (simp, simp, blast, blast)
qed

declare utf8_step.simps [simp del]

text \<open>Iteration over a string: an invalid byte is the rune U+FFFD of width 1.\<close>

function utf8_runes :: "nat list \<Rightarrow> nat list" where
  "utf8_runes bs =
     (case bs of
        [] \<Rightarrow> []
      | b # bs' \<Rightarrow>
          (case utf8_step bs of
             Some (r, rest) \<Rightarrow> r # utf8_runes rest
           | None \<Rightarrow> 0xFFFD # utf8_runes bs'))"
  by pat_completeness auto
termination
  by (relation "measure length") (auto dest: utf8_step_length)

function utf8_valid :: "nat list \<Rightarrow> bool" where
  "utf8_valid bs =
     (case bs of
        [] \<Rightarrow> True
      | b # bs' \<Rightarrow>
          (case utf8_step bs of Some (r, rest) \<Rightarrow> utf8_valid rest | None \<Rightarrow> False))"
  by pat_completeness auto
termination
  by (relation "measure length") (auto dest: utf8_step_length)

declare utf8_runes.simps [simp del] utf8_valid.simps [simp del]

definition runes :: "string \<Rightarrow> nat list" where
  "runes s = utf8_runes (map of_char s)"

definition ValidString :: "string \<Rightarrow> bool" where
  "ValidString s \<longleftrightarrow> utf8_valid (map of_char s)"

definition RuneCountInString :: "string \<Rightarrow> nat" where
  "RuneCountInString s = length (runes s)"

text \<open>\<open>unicode.IsControl\<close>: the category Cc.\<close>

definition IsControl :: "nat \<Rightarrow> bool" where
  "IsControl r \<longleftrightarrow> r < 0x20 \<or> (0x7F \<le> r \<and> r \<le> 0x9F)"

definition is_ascii_print :: "char \<Rightarrow> bool" where
  "is_ascii_print c \<longleftrightarrow> 33 \<le> byte c \<and> byte c \<le> 126"

lemma runes_ascii: "list_all (\<lambda>c. byte c < 0x80) s \<Longrightarrow> runes s = map of_char s"
proof (induction s)
  case Nil
  then show ?case by (simp add: runes_def utf8_runes.simps)
next
  case (Cons c s)
  then show ?case
    by (simp add: runes_def utf8_runes.simps [of "of_char c # map of_char s"] utf8_step_ascii)
qed

lemma utf8_runes_low: "list_all (\<lambda>r. r < 0x80) (utf8_runes bs) \<Longrightarrow> utf8_runes bs = bs"
proof (induction bs rule: utf8_runes.induct)
  case (1 bs)
  show ?case
  proof (cases bs)
    case Nil
    then show ?thesis by (simp add: utf8_runes.simps)
  next
    case (Cons b cs)
    show ?thesis
    proof (cases "utf8_step bs")
      case None
      then show ?thesis using "1.prems" Cons by (simp add: utf8_runes.simps [of "b # cs"])
    next
      case (Some p)
      then obtain r rest where s: "utf8_step bs = Some (r, rest)" by (cases p) simp
      then have "r = b \<and> rest = cs"
        using "1.prems" Cons by (intro utf8_step_low) (simp_all add: utf8_runes.simps [of "b # cs"])
      then show ?thesis using "1.IH"(2) [OF Cons s refl] "1.prems" Cons s
        by (simp add: utf8_runes.simps [of "b # cs"])
    qed
  qed
qed

lemma ValidString_ascii: "list_all (\<lambda>c. byte c < 0x80) s \<Longrightarrow> ValidString s"
proof (induction s)
  case Nil
  then show ?case by (simp add: ValidString_def utf8_valid.simps)
next
  case (Cons c s)
  then show ?case
    by (simp add: ValidString_def utf8_valid.simps [of "of_char c # map of_char s"] utf8_step_ascii)
qed

lemma utf8_runes_nonempty: "bs \<noteq> [] \<Longrightarrow> utf8_runes bs \<noteq> []"
  by (subst utf8_runes.simps) (auto split: list.splits option.splits)

lemma RuneCountInString_0: "RuneCountInString s = 0 \<longleftrightarrow> s = []"
proof
  assume "RuneCountInString s = 0"
  then have "utf8_runes (map of_char s) = []" by (simp add: RuneCountInString_def runes_def)
  then have "map of_char s = ([] :: nat list)" using utf8_runes_nonempty by blast
  then show "s = []" by simp
qed (simp add: RuneCountInString_def runes_def utf8_runes.simps)

section \<open>strings.Fields\<close>

fun break_space :: "string \<Rightarrow> string \<times> string" where
  "break_space [] = ([], [])"
| "break_space (c # cs) =
     (if lead_space (c # cs) \<noteq> None then ([], c # cs)
      else (case break_space cs of (w, r) \<Rightarrow> (c # w, r)))"

lemma break_space_append: "break_space s = (w, r) \<Longrightarrow> s = w @ r"
  by (induction s arbitrary: w r) (auto split: if_splits prod.splits)

lemma TrimLeftSpace_length: "length (TrimLeftSpace s) \<le> length s"
proof (induction s rule: TrimLeftSpace.induct)
  case (1 s)
  then show ?case
    by (cases "lead_space s") (fastforce simp: TrimLeftSpace.simps [of s])+
qed

lemma break_space_shrinks:
  assumes t: "TrimLeftSpace s = c # cs" and p: "(w, r) = break_space (c # cs)"
  shows "length r < length s"
proof -
  have "lead_space (c # cs) = None" using TrimLeftSpace_no_lead [of s] t by simp
  with p have "w \<noteq> []" by (auto split: prod.splits)
  moreover have "c # cs = w @ r" using p break_space_append by metis
  ultimately have "length r < length (TrimLeftSpace s)" using t by (cases w) auto
  then show ?thesis using TrimLeftSpace_length [of s] by simp
qed

declare break_space.simps [simp del]

function Fields :: "string \<Rightarrow> string list" where
  "Fields s =
     (case TrimLeftSpace s of
        [] \<Rightarrow> []
      | c # cs \<Rightarrow> (case break_space (c # cs) of (w, r) \<Rightarrow> w # Fields r))"
  by pat_completeness auto
termination
  by (relation "measure length") (simp_all add: break_space_shrinks)

declare Fields.simps [simp del]

lemma lead_space_print: "is_ascii_print c \<Longrightarrow> lead_space (c # cs) = None"
  unfolding lead_space_def find_None_all
  by (auto simp: space_encodings_def HasPrefix_iff is_ascii_print_def)

lemma lead_space_blank: "lead_space (CHR '' '' # s) = Some '' ''"
proof -
  obtain es where
    e: "space_encodings = [CHR 0x09] # [CHR 0x0A] # [CHR 0x0B] # [CHR 0x0C] # [CHR 0x0D] # '' '' # es"
    by (simp add: space_encodings_def char_of_def bit_0)
  show ?thesis
    unfolding lead_space_def e by (simp add: HasPrefix_def)
qed

lemma break_space_word:
  "list_all is_ascii_print w \<Longrightarrow> break_space (w @ CHR '' '' # s) = (w, CHR '' '' # s)"
  by (induction w) (simp_all add: break_space.simps lead_space_print lead_space_blank)

lemma break_space_last: "list_all is_ascii_print w \<Longrightarrow> break_space w = (w, [])"
  by (induction w) (simp_all add: break_space.simps lead_space_print)

lemma TrimLeftSpace_print: "is_ascii_print c \<Longrightarrow> TrimLeftSpace (c # s) = c # s"
  by (simp add: TrimLeftSpace.simps [of "c # s"] lead_space_print)

lemma TrimLeftSpace_blank: "TrimLeftSpace (CHR '' '' # s) = TrimLeftSpace s"
  by (simp add: TrimLeftSpace.simps [of "CHR '' '' # s"] lead_space_blank)

lemma Fields_word:
  assumes "list_all is_ascii_print w" and "w \<noteq> []"
  shows "Fields (w @ CHR '' '' # s) = w # Fields s"
proof -
  obtain c cs where w: "w = c # cs" using assms by (cases w) auto
  have "Fields (CHR '' '' # s) = Fields s"
    by (simp add: Fields.simps [of "CHR '' '' # s"] Fields.simps [of s] TrimLeftSpace_blank)
  moreover have "TrimLeftSpace (w @ CHR '' '' # s) = w @ CHR '' '' # s"
    using assms w by (simp add: TrimLeftSpace_print)
  ultimately show ?thesis
    using break_space_word [OF assms(1), of s] w by (subst Fields.simps) simp
qed

lemma Fields_last:
  assumes "list_all is_ascii_print w" and "w \<noteq> []"
  shows "Fields w = [w]"
proof -
  obtain c cs where w: "w = c # cs" using assms by (cases w) auto
  have "Fields [] = []"
    by (simp add: Fields.simps [of "[]"] TrimLeftSpace.simps [of "[]"] lead_space_def
        find_None_all HasPrefix_def space_encodings_def split: option.splits)
  moreover have "TrimLeftSpace w = w"
    using assms w by (simp add: TrimLeftSpace_print)
  ultimately show ?thesis
    using break_space_last [OF assms(1)] w by (subst Fields.simps) simp
qed

section \<open>The verb \<open>%q\<close>\<close>

text \<open>
  \<open>strconv.Quote\<close>. The Unicode table of printable runes is cut at U+00FF: every valid
  rune above it is taken as printable. Quoting only ever appears in the text of messages.
\<close>

definition is_print_rune :: "nat \<Rightarrow> bool" where
  "is_print_rune r \<longleftrightarrow> (0x20 \<le> r \<and> r \<le> 0x7E) \<or> (0xA1 \<le> r \<and> r \<noteq> 0xAD)"

definition hex_fixed :: "nat \<Rightarrow> nat \<Rightarrow> string" where
  "hex_fixed w n = map (\<lambda>i. hexdigit (n div 16 ^ i mod 16)) (rev [0..<w])"

definition quote_rune :: "nat \<Rightarrow> nat list \<Rightarrow> string" where
  "quote_rune r enc =
     (if r = 34 \<or> r = 92 then map char_of [92, r]
      else if is_print_rune r then map char_of enc
      else (case map_of [(7, CHR ''a''), (8, CHR ''b''), (12, CHR ''f''), (10, CHR ''n''),
                         (13, CHR ''r''), (9, CHR ''t''), (11, CHR ''v'')] r of
              Some c \<Rightarrow> [char_of (92 :: nat), c]
            | None \<Rightarrow> char_of (92 :: nat) #
                (if r < 32 \<or> r = 127 then CHR ''x'' # hex_fixed 2 r
                 else if r < 0x10000 then CHR ''u'' # hex_fixed 4 r
                 else CHR ''U'' # hex_fixed 8 r)))"

function quote_body :: "nat list \<Rightarrow> string" where
  "quote_body bs =
     (case bs of
        [] \<Rightarrow> []
      | b # bs' \<Rightarrow>
          (case utf8_step bs of
             Some (r, rest) \<Rightarrow> quote_rune r (take (length bs - length rest) bs) @ quote_body rest
           | None \<Rightarrow> char_of (92 :: nat) # CHR ''x'' # hex_fixed 2 b @ quote_body bs'))"
  by pat_completeness auto
termination
  by (relation "measure length") (auto dest: utf8_step_length)

declare quote_body.simps [simp del]

definition Quote :: "string \<Rightarrow> string" where
  "Quote s = char_of (34 :: nat) # quote_body (map of_char s) @ [char_of (34 :: nat)]"

section \<open>Trimming keeps UTF-8 valid\<close>

text \<open>
  A byte that is no continuation byte starts a rune: what precedes it is decoded as if it
  stood alone.
\<close>

lemma utf8_step_before:
  assumes "utf8_step (a # cs @ h # e) = Some (r, rest)" and "\<not> is_cont h"
  shows "\<exists>rest'. rest = rest' @ h # e \<and> utf8_step (a # cs) = Some (r, rest')"
proof -
  have 1: "\<exists>u. cs = b # u \<and> q = u @ h # e" if "cs @ h # e = b # q" "is_cont b" for b q
    using that assms(2) by (cases cs) auto
  have 2: "\<exists>u. cs = b # c # u \<and> q = u @ h # e" if "cs @ h # e = b # c # q" "is_cont b" "is_cont c" for b c q
    using that assms(2) by (cases cs; cases "tl cs") auto
  have 3: "\<exists>u. cs = b # c # d # u \<and> q = u @ h # e"
    if "cs @ h # e = b # c # d # q" "is_cont b" "is_cont c" "is_cont d" for b c d q
    using that assms(2) by (cases cs; cases "tl cs"; cases "tl (tl cs)") auto
  from utf8_step_cases [OF assms(1)] show ?thesis
  proof (elim disjE exE conjE)
    assume "a < 0x80" "r = a" "rest = cs @ h # e"
    then show ?thesis by (simp add: utf8_step_ascii)
  next
    fix b assume "cs @ h # e = b # rest" "is_cont b" "0xC2 \<le> a" "a \<le> 0xDF" "r = (a - 0xC0) * 64 + (b - 0x80)"
    then show ?thesis using 1 [of b rest] by (auto simp: utf8_step.simps)
  next
    fix b c assume "cs @ h # e = b # c # rest" "is_cont b" "is_cont c" "0xE0 \<le> a" "a \<le> 0xEF"
      "a = 0xE0 \<longrightarrow> 0xA0 \<le> b" "a = 0xED \<longrightarrow> b \<le> 0x9F" "r = ((a - 0xE0) * 64 + (b - 0x80)) * 64 + (c - 0x80)"
    then show ?thesis using 2 [of b c rest] by (auto simp: utf8_step.simps)
  next
    fix b c d assume "cs @ h # e = b # c # d # rest" "is_cont b" "is_cont c" "is_cont d" "0xF0 \<le> a" "a \<le> 0xF4"
      "a = 0xF0 \<longrightarrow> 0x90 \<le> b" "a = 0xF4 \<longrightarrow> b \<le> 0x8F"
      "r = (((a - 0xF0) * 64 + (b - 0x80)) * 64 + (c - 0x80)) * 64 + (d - 0x80)"
    then show ?thesis using 3 [of b c d rest] by (auto simp: utf8_step.simps)
  qed
qed

lemma utf8_valid_before:
  assumes "utf8_valid (s @ h # e)" and "\<not> is_cont h"
  shows "utf8_valid s"
  using assms(1)
proof (induction s rule: utf8_valid.induct)
  case (1 s)
  show ?case
  proof (cases s)
    case Nil
    then show ?thesis by (simp add: utf8_valid.simps)
  next
    case (Cons a cs)
    obtain r rest where step: "utf8_step (a # cs @ h # e) = Some (r, rest)" "utf8_valid rest"
      using "1.prems" Cons by (auto simp: utf8_valid.simps [of "a # cs @ h # e"] split: option.splits)
    obtain rest' where "rest = rest' @ h # e" "utf8_step (a # cs) = Some (r, rest')"
      using utf8_step_before [OF step(1) assms(2)] by blast
    then show ?thesis using "1.IH" [OF Cons] Cons step(2) by (simp add: utf8_valid.simps [of "a # cs"])
  qed
qed

lemma utf8_valid_step: "utf8_step (a # s) = Some (r, rest) \<Longrightarrow> utf8_valid (a # s) = utf8_valid rest"
  by (simp add: utf8_valid.simps [of "a # s"])

definition one_rune :: "nat list \<Rightarrow> bool" where
  "one_rune bs \<longleftrightarrow>
     (case bs of
        [n] \<Rightarrow> n < 0x80
      | [a, b] \<Rightarrow> a = 0xC2 \<and> is_cont b
      | [a, b, c] \<Rightarrow> is_cont b \<and> is_cont c \<and> 0xE1 \<le> a \<and> a \<le> 0xE3
      | _ \<Rightarrow> False)"

lemma space_encodings_rune: "e \<in> set space_encodings \<Longrightarrow> one_rune (map of_char e)"
proof -
  have "list_all (\<lambda>e. one_rune (map of_char e)) space_encodings"
    by (simp add: space_encodings_def one_rune_def is_cont_def upt_rec)
  then show "e \<in> set space_encodings \<Longrightarrow> one_rune (map of_char e)" by (simp add: list_all_iff)
qed

lemma utf8_valid_after_rune:
  assumes "one_rune bs"
  shows "utf8_valid (bs @ s) = utf8_valid s"
proof -
  obtain a cs r where "bs = a # cs" "utf8_step (a # cs @ s) = Some (r, s)"
    using assms by (auto simp: one_rune_def utf8_step.simps split: list.split_asm)
  then show ?thesis by (simp add: utf8_valid_step)
qed

lemma utf8_valid_before_rune:
  assumes "utf8_valid (s @ bs)" and "one_rune bs"
  shows "utf8_valid s"
proof -
  obtain h e where "bs = h # e" "\<not> is_cont h"
    using assms(2) by (auto simp: one_rune_def is_cont_def split: list.splits)
  then show ?thesis using assms(1) utf8_valid_before by blast
qed

lemma ValidString_TrimLeftSpace: "ValidString s \<Longrightarrow> ValidString (TrimLeftSpace s)"
proof (induction s rule: TrimLeftSpace.induct)
  case (1 s)
  show ?case
  proof (cases "lead_space s")
    case None
    then show ?thesis using "1.prems" by (simp add: TrimLeftSpace.simps [of s])
  next
    case (Some e)
    then have "e \<in> set space_encodings" "HasPrefix s e" by (auto simp: lead_space_def dest: find_Some_in)
    moreover then obtain u where u: "s = e @ u" by (auto simp: HasPrefix_iff)
    ultimately have "ValidString u"
      using "1.prems" space_encodings_rune by (simp add: ValidString_def utf8_valid_after_rune)
    moreover have "TrimLeftSpace s = TrimLeftSpace u" using Some u by (subst TrimLeftSpace.simps) simp
    ultimately show ?thesis using "1.IH" [OF Some] u by simp
  qed
qed

lemma ValidString_TrimRightSpace: "ValidString s \<Longrightarrow> ValidString (TrimRightSpace s)"
proof (induction s rule: TrimRightSpace.induct)
  case (1 s)
  show ?case
  proof (cases "trail_space s")
    case None
    then show ?thesis using "1.prems" by (simp add: TrimRightSpace.simps [of s])
  next
    case (Some e)
    then have e: "e \<in> set space_encodings" "HasSuffix s e" by (auto simp: trail_space_def dest: find_Some_in)
    then obtain u where u: "s = u @ e" by (auto simp: HasSuffix_iff)
    then have "ValidString u"
      using "1.prems" space_encodings_rune [OF e(1)] by (auto simp: ValidString_def intro: utf8_valid_before_rune)
    moreover have "TrimRightSpace s = TrimRightSpace u" using Some u by (subst TrimRightSpace.simps) simp
    ultimately show ?thesis using "1.IH" [OF Some] u by simp
  qed
qed

lemma ValidString_TrimSpace: "ValidString s \<Longrightarrow> ValidString (TrimSpace s)"
  by (simp add: TrimSpace_def ValidString_TrimLeftSpace ValidString_TrimRightSpace)

end
