(* ===== verification/Netip.thy ===== *)
theory Netip
  imports GoEncoding "HOL-Library.Word"
begin

text \<open>
  The standard library's \<open>net/netip\<close>, as far as the program uses it: addresses and
  prefixes, their parsers and printers, masking, containment, succession and order. An
  IPv4 address is a 32-bit word, an IPv6 address a 128-bit word with its zone. The third
  constructor holds the zero \<open>Addr\<close> and the values \<open>Next\<close> makes of it. A prefix whose
  length is -1 is an invalid one, the zero \<open>Prefix\<close> among them.
\<close>

unbundle bit_operations_syntax

datatype addr = IP0 "128 word" | IP4 "32 word" | IP6 "128 word" string

datatype prefix = Prefix (Addr: addr) (Bits: int)

abbreviation AddrZero :: addr where
  "AddrZero \<equiv> IP0 0"

abbreviation PrefixZero :: prefix where
  "PrefixZero \<equiv> Prefix AddrZero (- 1)"

section \<open>Addresses\<close>

fun Is4 :: "addr \<Rightarrow> bool" where
  "Is4 (IP4 w) = True"
| "Is4 a = False"

fun BitLen :: "addr \<Rightarrow> int" where
  "BitLen (IP0 w) = 0"
| "BitLen (IP4 w) = 32"
| "BitLen (IP6 w z) = 128"

fun withoutZone :: "addr \<Rightarrow> addr" where
  "withoutZone (IP6 w z) = IP6 w []"
| "withoutZone a = a"

text \<open>\<open>Next\<close>: the zero address after the last one.\<close>

fun Next :: "addr \<Rightarrow> addr" where
  "Next (IP0 w) = (if w + 1 = 0 then AddrZero else IP0 (w + 1))"
| "Next (IP4 w) = (if w + 1 = 0 then AddrZero else IP4 (w + 1))"
| "Next (IP6 w z) = (if w + 1 = 0 then AddrZero else IP6 (w + 1) z)"

text \<open>\<open>As4\<close>: the four bytes; it panics on an address that is neither IPv4 nor IPv4-mapped.\<close>

fun bytes4 :: "32 word \<Rightarrow> 8 word list" where
  "bytes4 w = [ucast (drop_bit 24 w), ucast (drop_bit 16 w), ucast (drop_bit 8 w), ucast w]"

definition Is4In6 :: "128 word \<Rightarrow> bool" where
  "Is4In6 w \<longleftrightarrow> drop_bit 32 w = 0xFFFF"

fun As4 :: "addr \<Rightarrow> 8 word list option" where
  "As4 (IP4 w) = Some (bytes4 w)"
| "As4 (IP6 w z) = (if Is4In6 w then Some (bytes4 (ucast w)) else None)"
| "As4 (IP0 w) = None"

text \<open>\<open>AddrFrom4\<close> and \<open>binary.BigEndian.Uint32\<close>.\<close>

fun BigEndianUint32 :: "8 word list \<Rightarrow> 32 word" where
  "BigEndianUint32 (a # b # c # d # r) =
     push_bit 24 (ucast a) OR push_bit 16 (ucast b) OR push_bit 8 (ucast c) OR ucast d"
| "BigEndianUint32 r = 0"

definition AddrFrom4 :: "8 word list \<Rightarrow> addr" where
  "AddrFrom4 bs = IP4 (BigEndianUint32 bs)"

text \<open>\<open>Compare\<close>: by bit length, value, then zone; \<open>Less\<close> is a negative result.\<close>

fun addr_payload :: "addr \<Rightarrow> nat \<times> string" where
  "addr_payload (IP0 w) = (unat w, [])"
| "addr_payload (IP4 w) = (unat w, [])"
| "addr_payload (IP6 w z) = (unat w, z)"

definition addr_less :: "addr \<Rightarrow> addr \<Rightarrow> bool" where
  "addr_less a b \<longleftrightarrow>
     BitLen a < BitLen b \<or>
     (BitLen a = BitLen b \<and>
        (fst (addr_payload a) < fst (addr_payload b) \<or>
         (fst (addr_payload a) = fst (addr_payload b) \<and> snd (addr_payload a) < snd (addr_payload b))))"

section \<open>Parsing and printing addresses\<close>

text \<open>
  \<open>parseIPv4Fields\<close> over the rest of the text: the value and the number of digits of the
  current octet, and the octets before it. A byte before the current one is a dot exactly
  when the current octet has no digit.
\<close>

fun parseIPv4Fields :: "string \<Rightarrow> nat \<Rightarrow> nat \<Rightarrow> nat list \<Rightarrow> nat list option" where
  "parseIPv4Fields [] val digLen fields =
     (if length fields < 3 then None else Some (fields @ [val]))"
| "parseIPv4Fields (c # cs) val digLen fields =
     (if is_digit c then
        (if digLen = 1 \<and> val = 0 then None
         else if 255 < val * 10 + digit_val c then None
         else parseIPv4Fields cs (val * 10 + digit_val c) (digLen + 1) fields)
      else if c = CHR ''.'' then
        (if digLen = 0 \<or> cs = [] then None
         else if length fields = 3 then None
         else parseIPv4Fields cs 0 0 (fields @ [val]))
      else None)"

definition octets_word :: "nat list \<Rightarrow> 32 word" where
  "octets_word fs = of_nat (foldl (\<lambda>a b. a * 256 + b) 0 fs)"

definition is_hex :: "char \<Rightarrow> bool" where
  "is_hex c \<longleftrightarrow> is_lower_hex c \<or> (65 \<le> byte c \<and> byte c \<le> 70)"

definition hex_val :: "char \<Rightarrow> nat" where
  "hex_val c =
     (if is_digit c then byte c - 48 else if 97 \<le> byte c then byte c - 87 else byte c - 55)"

lemma dropWhile_rest_length: "c # d # r = dropWhile P s \<Longrightarrow> Suc (length r) < length s"
  by (metis Suc_le_eq length_Cons length_dropWhile_le)

text \<open>
  The main loop of \<open>parseIPv6\<close>: the 16-bit groups read so far and the position of the
  ellipsis among them.
\<close>

function parse6_loop :: "string \<Rightarrow> nat list \<Rightarrow> nat option \<Rightarrow> (nat list \<times> nat option) option" where
  "parse6_loop s gs e =
     (if 8 \<le> length gs then (if s = [] then Some (gs, e) else None)
      else
        (let ds = takeWhile is_hex s; r = dropWhile is_hex s;
             gs' = gs @ [foldl (\<lambda>a c. a * 16 + hex_val c) 0 ds] in
         if ds = [] \<or> 4 < length ds then None
         else (case r of
             [] \<Rightarrow> Some (gs', e)
           | c # r1 \<Rightarrow>
               if c = CHR ''.'' then
                 (if (e = None \<and> length gs \<noteq> 6) \<or> 6 < length gs then None
                  else (case parseIPv4Fields s 0 0 [] of
                      Some [x, y, z, w] \<Rightarrow> Some (gs @ [x * 256 + y, z * 256 + w], e)
                    | _ \<Rightarrow> None))
               else if c \<noteq> CHR '':'' then None
               else (case r1 of
                   [] \<Rightarrow> None
                 | c2 # r2 \<Rightarrow>
                     if c2 = CHR '':'' then
                       (if e \<noteq> None then None
                        else if r2 = [] then Some (gs', Some (length gs'))
                        else parse6_loop r2 gs' (Some (length gs')))
                     else parse6_loop (c2 # r2) gs' e))))"
  by pat_completeness auto
termination
  by (relation "measure (\<lambda>(s, gs, e). length s)") (auto dest: dropWhile_rest_length)

declare parse6_loop.simps [simp del]

definition groups_word :: "nat list \<Rightarrow> 128 word" where
  "groups_word gs = of_nat (foldl (\<lambda>a b. a * 65536 + b) 0 gs)"

definition parse6_expand :: "nat list \<times> nat option \<Rightarrow> nat list option" where
  "parse6_expand p =
     (case p of (gs, e) \<Rightarrow>
        if length gs < 8 then
          (case e of
             None \<Rightarrow> None
           | Some k \<Rightarrow> Some (take k gs @ replicate (8 - length gs) 0 @ drop k gs))
        else if e \<noteq> None then None else Some gs)"

definition parseIPv6 :: "string \<Rightarrow> addr option" where
  "parseIPv6 t =
     (let s = takeWhile (\<lambda>c. c \<noteq> CHR ''%'') t;
          zone = drop (Suc (length s)) t in
      if length s < length t \<and> zone = [] then None
      else if s = ''::'' then Some (IP6 0 zone)
      else
        (let (s', e) = (if HasPrefix s ''::'' then (drop 2 s, Some 0) else (s, None)) in
         case parse6_loop s' [] e of
           None \<Rightarrow> None
         | Some p \<Rightarrow> map_option (\<lambda>gs. IP6 (groups_word gs) zone) (parse6_expand p)))"

definition parseIPv4 :: "string \<Rightarrow> addr option" where
  "parseIPv4 s = map_option (\<lambda>fs. IP4 (octets_word fs)) (parseIPv4Fields s 0 0 [])"

definition ParseAddr :: "string \<Rightarrow> addr option" where
  "ParseAddr s =
     (case find (\<lambda>c. c = CHR ''.'' \<or> c = CHR '':'' \<or> c = CHR ''%'') s of
        None \<Rightarrow> None
      | Some c \<Rightarrow>
          if c = CHR ''.'' then parseIPv4 s else if c = CHR '':'' then parseIPv6 s else None)"

definition ip4_string :: "32 word \<Rightarrow> string" where
  "ip4_string w =
     dec (unat w div 2 ^ 24) @ ''.'' @ dec (unat w div 2 ^ 16 mod 256) @ ''.'' @
     dec (unat w div 2 ^ 8 mod 256) @ ''.'' @ dec (unat w mod 256)"

fun hex :: "nat \<Rightarrow> string" where
  "hex n = (if n < 16 then [hexdigit n] else hex (n div 16) @ [hexdigit (n mod 16)])"

declare hex.simps [simp del]

text \<open>The first longest run of at least two zero groups, as \<open>appendTo6\<close> finds it.\<close>

definition zero_run :: "nat list \<Rightarrow> (nat \<times> nat) option" where
  "zero_run gs =
     foldl (\<lambda>best i.
         let l = length (takeWhile (\<lambda>g. g = 0) (drop i gs)) in
         if 2 \<le> l \<and> (case best of None \<Rightarrow> True | Some (a, b) \<Rightarrow> b - a < l) then Some (i, i + l) else best)
       None [0..<8]"

definition groups :: "128 word \<Rightarrow> nat list" where
  "groups w = map (\<lambda>i. unat w div 65536 ^ (7 - i) mod 65536) [0..<8]"

definition join :: "string \<Rightarrow> string list \<Rightarrow> string" where
  "join sep ws = (case ws of [] \<Rightarrow> [] | v # vs \<Rightarrow> v @ concat (map (\<lambda>x. sep @ x) vs))"

definition ip6_string :: "128 word \<Rightarrow> string" where
  "ip6_string w =
     (if Is4In6 w then ''::ffff:'' @ ip4_string (ucast w)
      else (case zero_run (groups w) of
          None \<Rightarrow> join '':'' (map hex (groups w))
        | Some (a, b) \<Rightarrow> join '':'' (map hex (take a (groups w))) @ ''::'' @
            join '':'' (map hex (drop b (groups w)))))"

fun addr_string :: "addr \<Rightarrow> string" where
  "addr_string (IP0 w) = ''invalid IP''"
| "addr_string (IP4 w) = ip4_string w"
| "addr_string (IP6 w z) = ip6_string w @ (if z = [] then [] else CHR ''%'' # z)"

section \<open>Prefixes\<close>

definition PrefixFrom :: "addr \<Rightarrow> int \<Rightarrow> prefix" where
  "PrefixFrom a b =
     Prefix (withoutZone a) (if 0 < BitLen a \<and> 0 \<le> b \<and> b \<le> BitLen a then b else - 1)"

definition IsValid :: "prefix \<Rightarrow> bool" where
  "IsValid p \<longleftrightarrow> 0 \<le> Bits p"

text \<open>\<open>Masked\<close>: the zero prefix for an invalid one.\<close>

definition Masked :: "prefix \<Rightarrow> prefix" where
  "Masked p =
     (if Bits p < 0 \<or> BitLen (Addr p) < Bits p then PrefixZero
      else (case Addr p of
          IP0 w \<Rightarrow> PrefixZero
        | IP4 w \<Rightarrow> PrefixFrom (IP4 (w AND NOT (mask (32 - nat (Bits p))))) (Bits p)
        | IP6 w z \<Rightarrow> PrefixFrom (IP6 (w AND NOT (mask (128 - nat (Bits p)))) []) (Bits p)))"

definition Contains :: "prefix \<Rightarrow> addr \<Rightarrow> bool" where
  "Contains p a =
     (if \<not> IsValid p then False
      else (case (Addr p, a) of
          (IP4 v, IP4 w) \<Rightarrow> drop_bit (32 - nat (Bits p)) (w XOR v) = 0
        | (IP6 v y, IP6 w z) \<Rightarrow>
            z = [] \<and> (w XOR v) AND NOT (mask (128 - nat (Bits p))) = 0
        | _ \<Rightarrow> False))"

definition ParsePrefix :: "string \<Rightarrow> prefix option" where
  "ParsePrefix s =
     (if CHR ''/'' \<notin> set s then None
      else
        (let bits_str = rev (takeWhile (\<lambda>c. c \<noteq> CHR ''/'') (rev s));
             addr_str = take (length s - Suc (length bits_str)) s in
         case ParseAddr addr_str of
           None \<Rightarrow> None
         | Some ip \<Rightarrow>
             if ip \<noteq> withoutZone ip then None
             else if 1 < length bits_str \<and> (byte (hd bits_str) < 49 \<or> 57 < byte (hd bits_str)) then None
             else (case ParseInt bits_str of
                 None \<Rightarrow> None
               | Some b \<Rightarrow> if b < 0 \<or> BitLen ip < b then None else Some (PrefixFrom ip b))))"

definition prefix_string :: "prefix \<Rightarrow> string" where
  "prefix_string p =
     (if IsValid p then addr_string (Addr p) @ ''/'' @ FormatInt (Bits p) else ''invalid Prefix'')"

end
