(* ===== verification/NetipFacts.thy ===== *)
theory NetipFacts
  imports Netip
begin

text \<open>
  Facts on addresses and prefixes: masking and containment as arithmetic on the value of
  an address, the interval of addresses a prefix covers, and that the parsers and the
  printers of IPv4 addresses and prefixes are inverse to each other.
\<close>

section \<open>Words\<close>

lemma unat_drop: "unat (drop_bit n w) = unat w div 2 ^ n"
  unfolding unat_drop_bit_eq by (simp add: drop_bit_eq_div)

lemma unat_and_not_mask: "unat (w AND NOT (mask n)) = unat w div 2 ^ n * 2 ^ n"
  for w :: "'a :: len word"
proof -
  have "w AND NOT (mask n) = push_bit n (drop_bit n w)"
    by (rule bit_eqI) (auto simp: bit_simps)
  also have "\<dots> = of_nat (unat w div 2 ^ n * 2 ^ n)"
    by (simp add: push_bit_eq_mult flip: unat_drop)
  finally have "unat (w AND NOT (mask n)) = unat w div 2 ^ n * 2 ^ n mod 2 ^ LENGTH('a)"
    by (simp only: unat_of_nat)
  moreover have "unat w div 2 ^ n * 2 ^ n \<le> unat w" by simp
  moreover have "unat w < 2 ^ LENGTH('a)" by (rule unsigned_less)
  ultimately show ?thesis by simp
qed

lemma drop_bit_xor_0: "drop_bit n (v XOR w) = 0 \<longleftrightarrow> unat v div 2 ^ n = unat w div 2 ^ n"
  for v w :: "'a :: len word"
proof -
  have "drop_bit n (v XOR w) = 0 \<longleftrightarrow> drop_bit n v = drop_bit n w"
    unfolding drop_bit_xor by (auto simp: bit_eq_iff bit_xor_iff)
  also have "\<dots> \<longleftrightarrow> unat (drop_bit n v) = unat (drop_bit n w)"
    by (rule word_unat_eq_iff)
  finally show ?thesis by (simp only: unat_drop)
qed

lemma BigEndianUint32_bytes4 [simp]: "BigEndianUint32 (bytes4 w) = w"
proof (rule bit_word_eqI)
  fix n
  assume "n < LENGTH(32)"
  then consider "n < 8" | "8 \<le> n" "n < 16" | "16 \<le> n" "n < 24" | "24 \<le> n" "n < 32"
    by simp linarith
  then show "bit (BigEndianUint32 (bytes4 w)) n \<longleftrightarrow> bit w n"
    by cases (auto simp: bit_simps)
qed

lemma AddrFrom4_As4: "As4 (IP4 w) = Some bs \<Longrightarrow> AddrFrom4 bs = IP4 w"
  by (auto simp: AddrFrom4_def simp del: bytes4.simps)

lemma unat_inc: "w + 1 \<noteq> 0 \<Longrightarrow> unat (w + 1) = unat w + 1" for w :: "'a :: len word"
  using unatSuc [of w] by (simp add: add.commute)

lemma inc_nonzero: "unat w + 1 < 2 ^ LENGTH('a) \<Longrightarrow> w + 1 \<noteq> 0" for w :: "'a :: len word"
  by (auto dest: arg_cong [of _ _ unat] simp: unat_plus_if')

lemma Next_IP4: "unat w + 1 < 2 ^ 32 \<Longrightarrow> Next (IP4 w) = IP4 (w + 1) \<and> unat (w + 1) = unat w + 1"
  using inc_nonzero [of w] unat_inc [of w] by simp

section \<open>IPv4 prefixes\<close>

text \<open>A valid IPv4 prefix, and the number of addresses it covers.\<close>

definition prefix4 :: "prefix \<Rightarrow> bool" where
  "prefix4 p \<longleftrightarrow> Is4 (Addr p) \<and> 0 \<le> Bits p \<and> Bits p \<le> 32"

definition psize :: "prefix \<Rightarrow> nat" where
  "psize p = 2 ^ (32 - nat (Bits p))"

fun ip4 :: "addr \<Rightarrow> nat" where
  "ip4 (IP4 w) = unat w"
| "ip4 a = 0"

definition pbase :: "prefix \<Rightarrow> nat" where
  "pbase p = ip4 (Addr p) div psize p * psize p"

lemma prefix4_IsValid [simp]: "prefix4 p \<Longrightarrow> IsValid p"
  by (simp add: prefix4_def IsValid_def)

lemma prefix4_cases:
  assumes "prefix4 p"
  obtains w b where "p = Prefix (IP4 w) b" "0 \<le> b" "b \<le> 32"
  using assms by (cases p; cases "Addr p") (auto simp: prefix4_def)

lemma Is4_cases: "Is4 a \<Longrightarrow> (\<And>w. a = IP4 w \<Longrightarrow> P) \<Longrightarrow> P"
  by (cases a) auto

lemma ip4_inject: "Is4 a \<Longrightarrow> Is4 b \<Longrightarrow> ip4 a = ip4 b \<longleftrightarrow> a = b"
  by (cases a; cases b) (auto simp: word_unat_eq_iff)

lemma ip4_less: "ip4 a < 2 ^ 32"
  by (cases a) (use unsigned_less [where 'b = 32] in auto)

lemma psize_pos [simp]: "0 < psize p"
  by (simp add: psize_def)

lemma psize_dvd: "psize p dvd 2 ^ 32"
  unfolding psize_def by (rule le_imp_power_dvd) simp

lemma pbase_psize_le: "pbase p + psize p \<le> 2 ^ 32"
proof -
  obtain k where k: "2 ^ 32 = psize p * k" using psize_dvd by blast
  have "ip4 (Addr p) div psize p < k"
    using ip4_less [of "Addr p"] unfolding k
    by (simp add: less_mult_imp_div_less mult.commute)
  then have "(ip4 (Addr p) div psize p + 1) * psize p \<le> k * psize p"
    by (intro mult_le_mono1) simp
  then show ?thesis unfolding pbase_def k by (simp add: mult.commute)
qed

lemma Masked_IP4:
  "0 \<le> b \<Longrightarrow> b \<le> 32 \<Longrightarrow>
   Masked (Prefix (IP4 w) b) = Prefix (IP4 (w AND NOT (mask (32 - nat b)))) b"
  by (simp add: Masked_def PrefixFrom_def)

lemma Masked_prefix4 [simp]:
  assumes "prefix4 p"
  shows "prefix4 (Masked p)" and "Bits (Masked p) = Bits p" and "psize (Masked p) = psize p"
    and "ip4 (Addr (Masked p)) = pbase p"
proof -
  obtain w b where p: "p = Prefix (IP4 w) b" "0 \<le> b" "b \<le> 32" using assms by (rule prefix4_cases)
  show "prefix4 (Masked p)" "Bits (Masked p) = Bits p" "psize (Masked p) = psize p"
    "ip4 (Addr (Masked p)) = pbase p"
    using p by (simp_all add: Masked_IP4 prefix4_def psize_def pbase_def unat_and_not_mask)
qed

lemma Masked_pbase [simp]: "prefix4 p \<Longrightarrow> pbase (Masked p) = pbase p"
  unfolding pbase_def [of "Masked p"] by simp (simp add: pbase_def)

lemma Masked_idem: "prefix4 p \<Longrightarrow> Masked (Masked p) = Masked p"
proof -
  assume p: "prefix4 p"
  then have "ip4 (Addr (Masked (Masked p))) = ip4 (Addr (Masked p))" by simp
  then have "Addr (Masked (Masked p)) = Addr (Masked p)"
    using p Masked_prefix4(1) [of "Masked p"] Masked_prefix4(1) [of p]
    by (subst (asm) ip4_inject) (auto simp: prefix4_def)
  moreover have "Bits (Masked (Masked p)) = Bits (Masked p)" using p by simp
  ultimately show ?thesis by (metis prefix.exhaust_sel)
qed

lemma Contains_div:
  assumes "prefix4 p"
  shows "Contains p a \<longleftrightarrow> Is4 a \<and> ip4 a div psize p = ip4 (Addr p) div psize p"
  using assms
  by (cases a) (auto elim!: prefix4_cases simp: Contains_def IsValid_def drop_bit_xor_0 psize_def
      simp del: drop_bit_xor)

text \<open>A valid prefix covers exactly the addresses of an interval.\<close>

lemma div_eq_interval:
  "0 < n \<Longrightarrow> a div n = b div n \<longleftrightarrow> b div n * n \<le> a \<and> a < b div n * n + n" for a b n :: nat
proof
  assume "0 < n" and "a div n = b div n"
  then show "b div n * n \<le> a \<and> a < b div n * n + n"
    using div_times_less_eq_dividend [of a n] dividend_less_div_times [of n a] by simp
next
  assume "b div n * n \<le> a \<and> a < b div n * n + n"
  then show "a div n = b div n" by (intro div_nat_eqI) (simp_all add: mult.commute)
qed

lemma Contains_interval:
  assumes "prefix4 p"
  shows "Contains p a \<longleftrightarrow> Is4 a \<and> pbase p \<le> ip4 a \<and> ip4 a < pbase p + psize p"
  using Contains_div [OF assms] div_eq_interval [OF psize_pos] by (simp add: pbase_def)

lemma Contains_Masked: "prefix4 p \<Longrightarrow> Contains (Masked p) a \<longleftrightarrow> Contains p a"
  by (simp add: Contains_interval)

lemma Contains_Addr_Masked: "prefix4 p \<Longrightarrow> Contains p (Addr (Masked p))"
  using Masked_prefix4(1) [of p] by (simp add: Contains_interval prefix4_def)

lemma ip4_surj:
  assumes "n < 2 ^ 32"
  shows "\<exists>a. Is4 a \<and> ip4 a = n"
proof -
  have "ip4 (IP4 (of_nat n)) = n" using assms by (simp add: unat_of_nat)
  then show ?thesis by (metis Is4.simps(1))
qed

text \<open>Two aligned blocks are nested or disjoint.\<close>

lemma pbase_dvd: "psize p dvd pbase p"
  by (simp add: pbase_def)

lemma psize_dvd_psize: "Bits p \<le> Bits q \<Longrightarrow> psize q dvd psize p"
  unfolding psize_def by (intro le_imp_power_dvd diff_le_mono2 nat_mono)

lemma block_nested:
  assumes "prefix4 p" "prefix4 q" "Bits p \<le> Bits q" "pbase p < pbase q + psize q" "pbase q < pbase p + psize p"
  shows "pbase p \<le> pbase q \<and> pbase q + psize q \<le> pbase p + psize p"
proof -
  obtain k where k: "psize p = psize q * k" using psize_dvd_psize [OF assms(3)] by blast
  obtain i where i: "pbase q = psize q * i" using pbase_dvd by blast
  obtain j where j: "pbase p = psize p * j" using pbase_dvd by blast
  have p: "pbase p = psize q * (k * j)" by (simp add: j k)
  have "psize q * (k * j) < psize q * (i + 1)" using assms(4) by (simp add: p i)
  then have "k * j < i + 1" by (simp only: mult_less_cancel1)
  then have 1: "k * j \<le> i" by simp
  have "psize q * i < psize q * (k * j + k)" using assms(5) by (simp add: p i k algebra_simps)
  then have "i < k * j + k" by (simp only: mult_less_cancel1)
  then have "i + 1 \<le> k * j + k" by simp
  then have "psize q * (i + 1) \<le> psize q * (k * j + k)" by (rule mult_le_mono2)
  with 1 show ?thesis by (simp add: p i k algebra_simps)
qed

section \<open>Parsing what is printed\<close>

lemma dec_1: "n < 10 \<Longrightarrow> dec n = [digit n]"
  by (simp add: dec.simps)

lemma dec_2: "10 \<le> n \<Longrightarrow> n < 100 \<Longrightarrow> dec n = [digit (n div 10), digit (n mod 10)]"
  by (subst dec.simps) (simp add: dec_1)

lemma dec_3:
  "100 \<le> n \<Longrightarrow> n < 1000 \<Longrightarrow> dec n = [digit (n div 100), digit (n div 10 mod 10), digit (n mod 10)]"
  by (subst dec.simps) (simp add: dec_2 div_mult2_eq [symmetric])

lemma parseIPv4Fields_dec:
  assumes "n \<le> 255"
  shows "parseIPv4Fields (dec n @ r) 0 0 fs = parseIPv4Fields r n (length (dec n)) fs"
proof -
  consider "n < 10" | "10 \<le> n" "n < 100" | "100 \<le> n" "n < 1000" using assms by linarith
  then show ?thesis
  proof cases
    case 1
    then show ?thesis by (simp add: dec_1)
  next
    case 2
    then have "n div 10 \<noteq> 0" "n div 10 \<le> 255" by presburger+
    then show ?thesis using 2 assms by (simp add: dec_2)
  next
    case 3
    have d: "n div 100 = n div 10 div 10" by (simp flip: div_mult2_eq)
    have "n div 100 * 10 + n div 10 mod 10 = n div 10" unfolding d by (rule div_mult_mod_eq)
    moreover have "n div 100 < 10" "n div 100 \<noteq> 0" using 3 by (auto simp: div_less_iff_less_mult)
    moreover have "n div 10 \<le> 255" using assms by (meson div_le_dividend order_trans)
    ultimately show ?thesis using 3 assms by (simp add: dec_3)
  qed
qed

lemma dot_not_digit [simp]: "\<not> is_digit CHR ''.''"
  by (simp add: is_digit_def)

lemma octets_word_of:
  fixes w :: "32 word"
  shows "octets_word [unat w div 2 ^ 24, unat w div 2 ^ 16 mod 256, unat w div 2 ^ 8 mod 256, unat w mod 256] = w"
proof -
  have "((n div 2 ^ 24 * 256 + n div 2 ^ 16 mod 256) * 256 + n div 2 ^ 8 mod 256) * 256 + n mod 256 = n" for n :: nat
  proof -
    have "n div 2 ^ 16 = n div 2 ^ 8 div 256" "n div 2 ^ 24 = n div 2 ^ 16 div 256"
      by (simp_all flip: div_mult2_eq)
    then have "n div 2 ^ 24 * 256 + n div 2 ^ 16 mod 256 = n div 2 ^ 16"
      "n div 2 ^ 16 * 256 + n div 2 ^ 8 mod 256 = n div 2 ^ 8"
      by (simp_all only: div_mult_mod_eq)
    then show ?thesis using div_mult_mod_eq [of n 256] by simp
  qed
  then show ?thesis by (simp add: octets_word_def)
qed

lemma parseIPv4_string: "parseIPv4 (ip4_string w) = Some (IP4 w)"
proof -
  have lt: "unat w < 2 ^ 32" using unsigned_less [where 'b = 32] by simp
  have b: "unat w div 2 ^ 24 \<le> 255" "unat w div 2 ^ 16 mod 256 \<le> 255"
    "unat w div 2 ^ 8 mod 256 \<le> 255" "unat w mod 256 \<le> 255"
    using lt by (simp_all add: div_le_mono)
  have "parseIPv4Fields (ip4_string w) 0 0 [] =
      Some [unat w div 2 ^ 24, unat w div 2 ^ 16 mod 256, unat w div 2 ^ 8 mod 256, unat w mod 256]"
    unfolding ip4_string_def
    using b parseIPv4Fields_dec [of "unat w mod 256" "[]"]
    by (simp add: parseIPv4Fields_dec del: One_nat_def)
  then show ?thesis unfolding parseIPv4_def by (simp only: option.map octets_word_of)
qed

lemma find_first_dot:
  "list_all is_digit ds \<Longrightarrow>
   find (\<lambda>c. c = CHR ''.'' \<or> c = CHR '':'' \<or> c = CHR ''%'') (ds @ CHR ''.'' # r) = Some CHR ''.''"
  by (induction ds) (auto simp: is_digit_def)

lemma ParseAddr_string: "Is4 a \<Longrightarrow> ParseAddr (addr_string a) = Some a"
proof (erule Is4_cases)
  fix w
  have "find (\<lambda>c. c = CHR ''.'' \<or> c = CHR '':'' \<or> c = CHR ''%'') (ip4_string w) = Some CHR ''.''"
    by (simp add: ip4_string_def find_first_dot)
  then show "a = IP4 w \<Longrightarrow> ?thesis" by (simp add: ParseAddr_def parseIPv4_string)
qed

text \<open>What the IPv4 parser accepts is the text that the printer makes.\<close>

definition dotted :: "nat list \<Rightarrow> string" where
  "dotted fs = join ''.'' (map dec fs)"

lemma dec_snoc: "n \<noteq> 0 \<Longrightarrow> is_digit c \<Longrightarrow> dec (n * 10 + digit_val c) = dec n @ [c]"
  using digit_val_less [of c] by (subst dec.simps) (simp add: digit_digit_val)

lemma dotted_Cons: "hs \<noteq> [] \<Longrightarrow> dotted (x # hs) = dec x @ CHR ''.'' # dotted hs"
  by (cases hs) (simp_all add: dotted_def join_def)

text \<open>The digits of the current octet, as the loop has read them.\<close>

definition octet_text :: "string \<Rightarrow> nat \<Rightarrow> nat \<Rightarrow> bool" where
  "octet_text t val k \<longleftrightarrow> k = length t \<and> val \<le> 255 \<and> (if t = [] then val = 0 else t = dec val)"

lemma octet_text_snoc:
  assumes "octet_text t val k" "is_digit c" "\<not> (k = 1 \<and> val = 0)" "val * 10 + digit_val c \<le> 255"
  shows "octet_text (t @ [c]) (val * 10 + digit_val c) (k + 1)"
proof (cases "t = []")
  case True
  with assms show ?thesis by (simp add: octet_text_def dec_1 digit_val_less digit_digit_val)
next
  case False
  then have t: "t = dec val" "k = length t" using assms by (auto simp: octet_text_def)
  have "val \<noteq> 0"
  proof
    assume "val = 0"
    with t assms(3) show False by (simp add: dec_1)
  qed
  with t assms show ?thesis by (simp add: octet_text_def dec_snoc)
qed

lemma parseIPv4Fields_canonical:
  assumes "parseIPv4Fields s val k fs = Some gs" and "octet_text t val k" and "t = [] \<Longrightarrow> s \<noteq> []"
    and "length fs \<le> 3"
  shows "\<exists>hs. gs = fs @ hs \<and> t @ s = dotted hs \<and> length gs = 4 \<and> list_all (\<lambda>x. x \<le> 255) hs"
  using assms
proof (induction s val k fs arbitrary: t rule: parseIPv4Fields.induct)
  case (1 val k fs)
  then have "t = dec val" "gs = fs @ [val]" "length fs = 3" "val \<le> 255"
    by (auto simp: octet_text_def split: if_splits)
  then show ?case by (simp add: dotted_def join_def)
next
  case (2 c cs val k fs)
  show ?case
  proof (cases "is_digit c")
    case True
    then have nz: "\<not> (k = 1 \<and> val = 0)" "\<not> 255 < val * 10 + digit_val c"
      "parseIPv4Fields cs (val * 10 + digit_val c) (k + 1) fs = Some gs"
      using 2(3) by (simp_all split: if_splits)
    from 2(1) [OF True nz(1) nz(2) nz(3) octet_text_snoc [OF 2(4) True nz(1)]] nz(2) 2(6)
    show ?thesis by simp
  next
    case False
    then have c: "c = CHR ''.''" "\<not> (k = 0 \<or> cs = [])" "length fs \<noteq> 3"
      "parseIPv4Fields cs 0 0 (fs @ [val]) = Some gs"
      using 2(3) by (simp_all split: if_splits)
    then have t: "t = dec val" "val \<le> 255" using 2(4) by (auto simp: octet_text_def)
    from 2(2) [OF False c(1) c(2) c(3) c(4), of "[]"] c 2(6) obtain hs where
      hs: "gs = (fs @ [val]) @ hs" "cs = dotted hs" "length gs = 4" "list_all (\<lambda>x. x \<le> 255) hs"
      by (auto simp: octet_text_def)
    with c have "hs \<noteq> []" by (auto simp: dotted_def join_def)
    then show ?thesis using t c hs by (intro exI [of _ "val # hs"]) (simp add: dotted_Cons)
  qed
qed

lemma ip4_string_octets:
  assumes "length gs = 4" "list_all (\<lambda>x. x \<le> 255) gs"
  shows "ip4_string (octets_word gs) = dotted gs"
proof -
  obtain a b c d where gs: "gs = [a, b, c, d]"
    using assms(1) by (auto simp: numeral_eq_Suc length_Suc_conv)
  define n where "n = ((a * 256 + b) * 256 + c) * 256 + d"
  have lt: "a < 256" "b < 256" "c < 256" "d < 256" using assms(2) gs by auto
  then have "n < 2 ^ 32" by (simp add: n_def)
  moreover have "octets_word gs = of_nat n" by (simp add: octets_word_def gs n_def)
  ultimately have u: "unat (octets_word gs) = n" by (simp add: unat_of_nat)
  have q: "(x * 256 + y) div 256 = x" "(x * 256 + y) mod 256 = y" if "y < 256" for x y :: nat
    using that by simp_all
  have m: "n mod 256 = d" unfolding n_def by (rule q(2) [OF lt(4)])
  have "n div 256 = (a * 256 + b) * 256 + c" unfolding n_def by (rule q(1) [OF lt(4)])
  then have d1: "n div 2 ^ 8 = (a * 256 + b) * 256 + c" by simp
  have "n div 2 ^ 16 = n div 2 ^ 8 div 256" by (simp flip: div_mult2_eq)
  then have d2: "n div 2 ^ 16 = a * 256 + b" unfolding d1 q(1) [OF lt(3)] .
  have "n div 2 ^ 24 = n div 2 ^ 16 div 256" by (simp flip: div_mult2_eq)
  then have d3: "n div 2 ^ 24 = a" unfolding d2 q(1) [OF lt(2)] .
  show ?thesis
    unfolding ip4_string_def u d1 d2 d3 m q(2) [OF lt(3)] q(2) [OF lt(2)]
    by (simp add: gs dotted_def join_def)
qed

lemma ParseAddr_canonical:
  assumes "ParseAddr s = Some a" "Is4 a"
  shows "addr_string a = s"
proof -
  have "parseIPv6 s \<noteq> Some a"
    using assms(2) by (auto simp: parseIPv6_def Let_def split: if_splits option.splits prod.splits)
  then have p: "parseIPv4 s = Some a"
    using assms by (auto simp: ParseAddr_def split: option.splits if_splits)
  then obtain gs where gs: "parseIPv4Fields s 0 0 [] = Some gs" "a = IP4 (octets_word gs)"
    by (auto simp: parseIPv4_def)
  then have "s \<noteq> []" by auto
  with parseIPv4Fields_canonical [OF gs(1), of "[]"] gs(2) show ?thesis
    by (auto simp: octet_text_def ip4_string_octets)
qed

lemma rev_takeWhile_last:
  assumes "c \<notin> set t"
  shows "rev (takeWhile (\<lambda>x. x \<noteq> c) (rev (s @ c # t))) = t"
proof -
  have "takeWhile (\<lambda>x. x \<noteq> c) (rev t @ c # rev s) = rev t"
    using assms by (subst takeWhile_append2) auto
  then show ?thesis by simp
qed

lemma split_last:
  assumes "c \<in> set s"
  obtains u t where "s = u @ c # t" "c \<notin> set t"
  using split_list_last [OF assms] by blast

lemma slash_not_digit: "list_all is_digit s \<Longrightarrow> CHR ''/'' \<notin> set s"
  by (induction s) (auto simp: is_digit_def)

lemma ParsePrefix_split:
  assumes "CHR ''/'' \<notin> set t"
  shows "ParsePrefix (u @ CHR ''/'' # t) =
     (case ParseAddr u of
        None \<Rightarrow> None
      | Some ip \<Rightarrow>
          if ip \<noteq> withoutZone ip then None
          else if 1 < length t \<and> (byte (hd t) < 49 \<or> 57 < byte (hd t)) then None
          else (case ParseInt t of
              None \<Rightarrow> None
            | Some b \<Rightarrow> if b < 0 \<or> BitLen ip < b then None else Some (PrefixFrom ip b)))"
  unfolding ParsePrefix_def Let_def rev_takeWhile_last [OF assms] by simp

lemma dec_hd_digit: "48 \<le> byte (hd (dec n))" "byte (hd (dec n)) \<le> 57"
proof -
  have "is_digit (hd (dec n))"
    using dec_digits [of n] dec_nonempty [of n] by (cases "dec n") auto
  then show "48 \<le> byte (hd (dec n))" "byte (hd (dec n)) \<le> 57" by (auto simp: is_digit_def)
qed

lemma dec_long_hd:
  assumes "1 < length (dec n)"
  shows "49 \<le> byte (hd (dec n))"
proof -
  have "n \<noteq> 0"
  proof
    assume "n = 0"
    with assms show False by (simp add: dec_1)
  qed
  then have "hd (dec n) \<noteq> CHR ''0''" by (simp add: dec_hd)
  then have "byte (hd (dec n)) \<noteq> byte CHR ''0''" unfolding of_char_eq_iff .
  then show ?thesis using dec_hd_digit(1) [of n] by simp
qed

theorem ParsePrefix_string:
  assumes "prefix4 p"
  shows "ParsePrefix (prefix_string p) = Some p"
proof -
  obtain w b where p: "p = Prefix (IP4 w) b" "0 \<le> b" "b \<le> 32" using assms by (rule prefix4_cases)
  have "\<not> (1 < length (dec (nat b)) \<and> (byte (hd (dec (nat b))) < 49 \<or> 57 < byte (hd (dec (nat b)))))"
    using dec_long_hd [of "nat b"] dec_hd_digit(2) [of "nat b"] by auto
  moreover have "ParseAddr (ip4_string w) = Some (IP4 w)"
    using ParseAddr_string [of "IP4 w"] by simp
  moreover have "ParseInt (dec (nat b)) = Some b" using p ParseInt_dec [of "nat b"] by simp
  ultimately show ?thesis
    using p ParsePrefix_split [OF slash_not_digit [OF dec_digits], of "ip4_string w" "nat b"]
    by (auto simp: prefix_string_def IsValid_def FormatInt_def PrefixFrom_def)
qed

lemma ParseInt_unsigned:
  assumes "ParseInt t = Some b" "1 < length t \<longrightarrow> 49 \<le> byte (hd t) \<and> byte (hd t) \<le> 57"
  shows "0 \<le> b \<and> FormatInt b = t"
proof (cases t)
  case Nil
  then show ?thesis using assms by (simp add: ParseInt_def)
next
  case (Cons c cs)
  have "is_digit c"
  proof (cases cs)
    case Nil
    then show ?thesis using Cons assms by (auto simp: ParseInt_def Let_def split: if_splits)
  next
    case (Cons d ds)
    then show ?thesis using \<open>t = c # cs\<close> assms by (auto simp: is_digit_def)
  qed
  then have "c \<noteq> CHR ''-''" "c \<noteq> CHR ''+''" by (auto simp: is_digit_def)
  then have t: "list_all is_digit t" "b = int (num t)"
    using Cons assms by (auto simp: ParseInt_def Let_def split: if_splits)
  have "dec (num t) = t"
  proof (cases cs)
    case Nil
    then show ?thesis using Cons \<open>is_digit c\<close>
      by (simp add: num_def dec_1 digit_val_less digit_digit_val)
  next
    case (Cons d ds)
    then have "49 \<le> byte c" using \<open>t = c # cs\<close> assms by auto
    then have "hd t \<noteq> CHR ''0''" using \<open>t = c # cs\<close> by auto
    then show ?thesis using t \<open>t = c # cs\<close> by (intro dec_num) auto
  qed
  then show ?thesis using t by (simp add: FormatInt_def)
qed

theorem ParsePrefix_canonical:
  assumes "ParsePrefix s = Some p" "Is4 (Addr p)"
  shows "prefix4 p \<and> prefix_string p = s"
proof -
  have "CHR ''/'' \<in> set s" using assms by (auto simp: ParsePrefix_def split: if_splits)
  then obtain u t where s: "s = u @ CHR ''/'' # t" "CHR ''/'' \<notin> set t" by (rule split_last)
  then obtain ip b where ip: "ParseAddr u = Some ip" "ip = withoutZone ip" "ParseInt t = Some b"
      "1 < length t \<longrightarrow> 49 \<le> byte (hd t) \<and> byte (hd t) \<le> 57" "0 \<le> b" "b \<le> BitLen ip" "p = PrefixFrom ip b"
    using assms(1) by (auto simp: ParsePrefix_split split: option.splits if_splits)
  then have i4: "Is4 ip" using assms(2) by (cases ip) (auto simp: PrefixFrom_def)
  then have "p = Prefix ip b" using ip by (cases ip) (auto simp: PrefixFrom_def)
  moreover have "BitLen ip = 32" using i4 by (cases ip) auto
  ultimately show ?thesis
    using ip i4 s ParseAddr_canonical [OF ip(1) i4] ParseInt_unsigned [OF ip(3) ip(4)]
    by (simp add: prefix4_def prefix_string_def IsValid_def)
qed

end
