(* ===== verification/Json.thy ===== *)
theory Json
  imports GoEncoding
begin

text \<open>
  \<open>encoding/json\<close>: the text that \<open>Marshal\<close> writes for a value and the value that
  \<open>Unmarshal\<close> reads from a text. A lexer splits the text into tokens, and a machine with
  the stack of open arrays and objects reads them, one token a step, as the library's
  scanner does with its \<open>parseState\<close>; it refuses more than 10000 open levels. A number is
  kept as its literal. \<open>unmarshal_marshal\<close> is the round trip.
\<close>

datatype json =
    JNull
  | JBool bool
  | JNum string
  | JStr string
  | JArr "json list"
  | JObj "(string \<times> json) list"

abbreviation quote_char :: char where
  "quote_char \<equiv> CHR 0x22"

abbreviation backslash :: char where
  "backslash \<equiv> CHR 0x5C"

section \<open>Runes in strings\<close>

text \<open>\<open>utf8.DecodeRuneInString\<close>: the first rune and its width, none where it is not valid.\<close>

definition rune_at :: "string \<Rightarrow> (nat \<times> nat) option" where
  "rune_at s = map_option (\<lambda>(r, rest). (r, length s - length rest)) (utf8_step (map of_char s))"

definition enc_rune :: "nat \<Rightarrow> string" where
  "enc_rune r =
     map char_of
       (if r < 0x80 then [r]
        else if r < 0x800 then [0xC0 + r div 64, 0x80 + r mod 64]
        else if r < 0x10000 then [0xE0 + r div 4096, 0x80 + r div 64 mod 64, 0x80 + r mod 64]
        else [0xF0 + r div 262144, 0x80 + r div 4096 mod 64, 0x80 + r div 64 mod 64, 0x80 + r mod 64])"

abbreviation replacement :: string where
  "replacement \<equiv> enc_rune 0xFFFD"

lemma rune_at_width: "rune_at s = Some (r, w) \<Longrightarrow> 0 < w \<and> w \<le> length s"
  by (auto simp: rune_at_def dest: utf8_step_length)

lemma rune_at_shrinks: "rune_at s = Some (r, w) \<Longrightarrow> length s - w < length s"
  using rune_at_width [of s r w] by linarith

section \<open>Writing\<close>

definition jescape_ascii :: "char \<Rightarrow> string" where
  "jescape_ascii c =
     (if c = quote_char \<or> c = backslash then [backslash, c]
      else if byte c = 8 then [backslash, CHR ''b'']
      else if byte c = 12 then [backslash, CHR ''f'']
      else if byte c = 10 then [backslash, CHR ''n'']
      else if byte c = 13 then [backslash, CHR ''r'']
      else if byte c = 9 then [backslash, CHR ''t'']
      else if byte c < 32 \<or> c = CHR ''<'' \<or> c = CHR ''>'' \<or> c = CHR ''&''
      then backslash # CHR ''u'' # hex_fixed 4 (byte c)
      else [c])"

function jescape :: "string \<Rightarrow> string" where
  "jescape s =
     (case s of
        [] \<Rightarrow> []
      | c # cs \<Rightarrow>
          if byte c < 0x80 then jescape_ascii c @ jescape cs
          else (case rune_at s of
              None \<Rightarrow> backslash # ''ufffd'' @ jescape cs
            | Some (r, w) \<Rightarrow>
                (if r = 0x2028 \<or> r = 0x2029 then backslash # CHR ''u'' # hex_fixed 4 r else take w s)
                @ jescape (drop w s)))"
  by pat_completeness auto
termination
  by (relation "measure length") (auto dest: rune_at_shrinks)

declare jescape.simps [simp del]

fun marshal :: "json \<Rightarrow> string"
  and marshal_elems :: "json list \<Rightarrow> string"
  and marshal_members :: "(string \<times> json) list \<Rightarrow> string"
where
  "marshal JNull = ''null''"
| "marshal (JBool b) = (if b then ''true'' else ''false'')"
| "marshal (JNum n) = n"
| "marshal (JStr s) = quote_char # jescape s @ [quote_char]"
| "marshal (JArr vs) = CHR ''['' # marshal_elems vs @ '']''"
| "marshal (JObj kvs) = CHR ''{'' # marshal_members kvs @ ''}''"
| "marshal_elems [] = []"
| "marshal_elems (v # vs) = marshal v @ (if vs = [] then [] else CHR '','' # marshal_elems vs)"
| "marshal_members [] = []"
| "marshal_members ((k, v) # kvs) =
     quote_char # jescape k @ quote_char # CHR '':'' # marshal v @
     (if kvs = [] then [] else CHR '','' # marshal_members kvs)"

section \<open>Reading\<close>

definition hexnum :: "char \<Rightarrow> nat option" where
  "hexnum c =
     (if is_digit c then Some (byte c - 48)
      else if 97 \<le> byte c \<and> byte c \<le> 102 then Some (byte c - 87)
      else if 65 \<le> byte c \<and> byte c \<le> 70 then Some (byte c - 55)
      else None)"

text \<open>Four hexadecimal digits.\<close>

definition hex4 :: "string \<Rightarrow> nat option" where
  "hex4 s =
     (case s of
        a # b # c # d # r \<Rightarrow>
          (case (hexnum a, hexnum b, hexnum c, hexnum d) of
             (Some w, Some x, Some y, Some z) \<Rightarrow> Some (((w * 16 + x) * 16 + y) * 16 + z)
           | _ \<Rightarrow> None)
      | _ \<Rightarrow> None)"

text \<open>The second half of a surrogate pair, if the text goes on with one.\<close>

definition low_surrogate :: "string \<Rightarrow> nat option" where
  "low_surrogate s =
     (if HasPrefix s [backslash, CHR ''u'']
      then (case hex4 (drop 2 s) of
          Some u \<Rightarrow> if 0xDC00 \<le> u \<and> u \<le> 0xDFFF then Some u else None
        | None \<Rightarrow> None)
      else None)"

definition simple_escape :: "char \<Rightarrow> char option" where
  "simple_escape c =
     (if c = quote_char \<or> c = backslash \<or> c = CHR ''/'' then Some c
      else map_of [(CHR ''b'', CHR 0x08), (CHR ''f'', CHR 0x0C), (CHR ''n'', CHR 0x0A),
                   (CHR ''r'', CHR 0x0D), (CHR ''t'', CHR 0x09)] c)"

definition emit :: "string \<Rightarrow> (string \<times> string) option \<Rightarrow> (string \<times> string) option" where
  "emit x m = map_option (\<lambda>(t, r). (x @ t, r)) m"

text \<open>The body of a string literal, after its opening quote: its value and the rest.\<close>

function lex_str :: "string \<Rightarrow> (string \<times> string) option" where
  "lex_str s =
     (case s of
        [] \<Rightarrow> None
      | c # cs \<Rightarrow>
          if c = quote_char then Some ([], cs)
          else if c = backslash then
            (case cs of
               [] \<Rightarrow> None
             | e # es \<Rightarrow>
                 if e = CHR ''u'' then
                   (case hex4 es of
                      None \<Rightarrow> None
                    | Some u \<Rightarrow>
                        if 0xD800 \<le> u \<and> u \<le> 0xDFFF then
                          (case (if u \<le> 0xDBFF then low_surrogate (drop 4 es) else None) of
                             Some v \<Rightarrow>
                               emit (enc_rune (0x10000 + (u - 0xD800) * 1024 + (v - 0xDC00)))
                                 (lex_str (drop 10 es))
                           | None \<Rightarrow> emit replacement (lex_str (drop 4 es)))
                        else emit (enc_rune u) (lex_str (drop 4 es)))
                 else (case simple_escape e of
                     None \<Rightarrow> None
                   | Some x \<Rightarrow> emit [x] (lex_str es)))
          else if byte c < 32 then None
          else if byte c < 0x80 then emit [c] (lex_str cs)
          else (case rune_at s of
              None \<Rightarrow> emit replacement (lex_str cs)
            | Some (r, w) \<Rightarrow> emit (take w s) (lex_str (drop w s))))"
  by pat_completeness auto
termination
  by (relation "measure length") (auto dest: rune_at_shrinks)

declare lex_str.simps [simp del]

text \<open>A number by the JSON grammar: the longest literal at the start, and the rest.\<close>

definition lex_frac :: "string \<Rightarrow> string \<Rightarrow> (string \<times> string) option" where
  "lex_frac lit s =
     (case s of
        c # r \<Rightarrow>
          if c = CHR ''.'' then
            (let ds = takeWhile is_digit r in
             if ds = [] then None else Some (lit @ c # ds, dropWhile is_digit r))
          else Some (lit, s)
      | [] \<Rightarrow> Some (lit, s))"

definition lex_exp :: "string \<Rightarrow> string \<Rightarrow> (string \<times> string) option" where
  "lex_exp lit s =
     (case s of
        c # r \<Rightarrow>
          if c = CHR ''e'' \<or> c = CHR ''E'' then
            (let sg = takeWhile (\<lambda>x. x = CHR ''+'' \<or> x = CHR ''-'') (take 1 r);
                 t = drop (length sg) r; ds = takeWhile is_digit t in
             if ds = [] then None else Some (lit @ c # sg @ ds, dropWhile is_digit t))
          else Some (lit, s)
      | [] \<Rightarrow> Some (lit, s))"

definition lex_num :: "string \<Rightarrow> (string \<times> string) option" where
  "lex_num s =
     (let sg = (if HasPrefix s ''-'' then ''-'' else []);
          t = drop (length sg) s in
      case t of
        [] \<Rightarrow> None
      | c # r \<Rightarrow>
          if \<not> is_digit c then None
          else
            (let ds = (if c = CHR ''0'' then [] else takeWhile is_digit r) in
             case lex_frac (sg @ c # ds) (drop (length ds) r) of
               None \<Rightarrow> None
             | Some (l, u) \<Rightarrow> lex_exp l u))"

datatype token = TLBrace | TRBrace | TLBrack | TRBrack | TComma | TColon | TStr string | TNum string
  | TTrue | TFalse | TNull

definition punctuation :: "(char \<times> token) list" where
  "punctuation = [(CHR ''{'', TLBrace), (CHR ''}'', TRBrace), (CHR ''['', TLBrack), (CHR '']'', TRBrack),
     (CHR '','', TComma), (CHR '':'', TColon)]"

definition lex_one :: "string \<Rightarrow> (token \<times> string) option" where
  "lex_one s =
     (case s of
        [] \<Rightarrow> None
      | c # cs \<Rightarrow>
          (case map_of punctuation c of
             Some t \<Rightarrow> Some (t, cs)
           | None \<Rightarrow>
               if c = quote_char then map_option (\<lambda>(t, r). (TStr t, r)) (lex_str cs)
               else if c = CHR ''-'' \<or> is_digit c then map_option (\<lambda>(n, r). (TNum n, r)) (lex_num s)
               else if HasPrefix s ''true'' then Some (TTrue, drop 4 s)
               else if HasPrefix s ''false'' then Some (TFalse, drop 5 s)
               else if HasPrefix s ''null'' then Some (TNull, drop 4 s)
               else None))"

definition is_ws :: "char \<Rightarrow> bool" where
  "is_ws c \<longleftrightarrow> byte c \<in> {32, 9, 10, 13}"

lemma emit_Some: "emit x m = Some (t, r) \<longleftrightarrow> (\<exists>u. m = Some (u, r) \<and> t = x @ u)"
  by (auto simp: emit_def)

lemma lex_str_quote: "lex_str (quote_char # cs) = Some ([], cs)"
  by (subst lex_str.simps) simp

lemma lex_str_u:
  "lex_str (backslash # CHR ''u'' # es) =
     (case hex4 es of
        None \<Rightarrow> None
      | Some u \<Rightarrow>
          if 0xD800 \<le> u \<and> u \<le> 0xDFFF then
            (case (if u \<le> 0xDBFF then low_surrogate (drop 4 es) else None) of
               Some v \<Rightarrow>
                 emit (enc_rune (0x10000 + (u - 0xD800) * 1024 + (v - 0xDC00))) (lex_str (drop 10 es))
             | None \<Rightarrow> emit replacement (lex_str (drop 4 es)))
          else emit (enc_rune u) (lex_str (drop 4 es)))"
  by (subst lex_str.simps) simp

lemma lex_str_escape:
  "e \<noteq> CHR ''u'' \<Longrightarrow>
   lex_str (backslash # e # es) =
     (case simple_escape e of None \<Rightarrow> None | Some x \<Rightarrow> emit [x] (lex_str es))"
  by (subst lex_str.simps) simp

lemma lex_str_ascii:
  "c \<noteq> quote_char \<Longrightarrow> c \<noteq> backslash \<Longrightarrow> byte c < 0x80 \<Longrightarrow>
   lex_str (c # cs) = (if byte c < 32 then None else emit [c] (lex_str cs))"
  by (subst lex_str.simps) simp

lemma lex_str_multibyte:
  "0x80 \<le> byte c \<Longrightarrow>
   lex_str (c # cs) =
     (case rune_at (c # cs) of
        None \<Rightarrow> emit replacement (lex_str cs)
      | Some (r, w) \<Rightarrow> emit (take w (c # cs)) (lex_str (drop w (c # cs))))"
  by (subst lex_str.simps) auto

lemma lex_str_Cons:
  assumes "lex_str (c # cs) = Some (t, r)"
  shows "r = cs \<or> (\<exists>u n. lex_str (drop n cs) = Some (u, r))"
proof -
  consider "c = quote_char" | "c = backslash" "cs = []" | es where "c = backslash" "cs = CHR ''u'' # es"
    | e es where "c = backslash" "cs = e # es" "e \<noteq> CHR ''u''"
    | "c \<noteq> quote_char" "c \<noteq> backslash" "byte c < 0x80" | "0x80 \<le> byte c"
    by (cases cs) fastforce+
  then show ?thesis
  proof cases
    case 1
    then show ?thesis using assms by (simp add: lex_str_quote)
  next
    case 2
    then show ?thesis using assms by (simp add: lex_str.simps)
  next
    case 3
    then have "\<exists>u n. lex_str (drop n es) = Some (u, r)"
      using assms by (auto simp: lex_str_u emit_Some split: option.splits if_splits)
    then obtain u n where "lex_str (drop (Suc n) cs) = Some (u, r)" using 3 by auto
    then show ?thesis by blast
  next
    case 4
    then have "\<exists>u. lex_str (drop 1 cs) = Some (u, r)"
      using assms by (auto simp: lex_str_escape emit_Some split: option.splits)
    then show ?thesis by blast
  next
    case 5
    then have "\<exists>u. lex_str (drop 0 cs) = Some (u, r)"
      using assms by (auto simp: lex_str_ascii emit_Some split: if_splits)
    then show ?thesis by blast
  next
    case 6
    show ?thesis
    proof (cases "rune_at (c # cs)")
      case None
      then have "\<exists>u. lex_str (drop 0 cs) = Some (u, r)"
        using assms 6 by (auto simp: lex_str_multibyte emit_Some)
      then show ?thesis by blast
    next
      case (Some p)
      then obtain x w where p: "rune_at (c # cs) = Some (x, w)" by (cases p) simp
      then obtain k where "w = Suc k" using rune_at_width by (metis gr0_implies_Suc)
      then have "\<exists>u. lex_str (drop k cs) = Some (u, r)"
        using assms 6 p by (auto simp: lex_str_multibyte emit_Some)
      then show ?thesis by blast
    qed
  qed
qed

lemma lex_str_length: "lex_str s = Some (t, r) \<Longrightarrow> length r < length s"
proof (induction s arbitrary: t rule: measure_induct_rule [of length])
  case (less s)
  show ?case
  proof (cases s)
    case Nil
    then show ?thesis using less.prems by (simp add: lex_str.simps)
  next
    case (Cons c cs)
    with lex_str_Cons less.prems consider "r = cs" | u n where "lex_str (drop n cs) = Some (u, r)"
      by blast
    then show ?thesis
    proof cases
      case 1
      then show ?thesis using Cons by simp
    next
      case 2
      then have "length r < length (drop n cs)" using Cons by (intro less.IH) auto
      then show ?thesis using Cons by simp
    qed
  qed
qed

lemma lex_frac_length: "lex_frac l s = Some (l', r) \<Longrightarrow> length r \<le> length s"
  using length_dropWhile_le [of is_digit "tl s"]
  by (auto simp: lex_frac_def Let_def split: list.splits if_splits)

lemma lex_exp_length: "lex_exp l s = Some (l', r) \<Longrightarrow> length r \<le> length s"
proof -
  assume a: "lex_exp l s = Some (l', r)"
  define t where "t = drop (length (takeWhile (\<lambda>x. x = CHR ''+'' \<or> x = CHR ''-'') (take 1 (tl s)))) (tl s)"
  have "length (dropWhile is_digit t) \<le> length t" by (rule length_dropWhile_le)
  moreover have "length t \<le> length (tl s)" by (simp add: t_def)
  moreover have "r = s \<or> r = dropWhile is_digit t"
    using a by (auto simp: lex_exp_def Let_def t_def split: list.splits if_splits)
  ultimately show ?thesis by auto
qed

lemma lex_num_length:
  assumes "lex_num s = Some (n, r)"
  shows "length r < length s"
proof -
  define t where "t = drop (length (if HasPrefix s ''-'' then ''-'' else [])) s"
  obtain c cs where c: "t = c # cs"
    using assms unfolding lex_num_def Let_def t_def [symmetric] by (cases t) auto
  define v where "v = drop (length (if c = CHR ''0'' then [] else takeWhile is_digit cs)) cs"
  obtain l a b where "lex_frac l v = Some (a, b)" "lex_exp a b = Some (n, r)"
    using assms unfolding lex_num_def Let_def t_def [symmetric] c list.case v_def [symmetric]
    by (auto split: if_split_asm option.split_asm)
  moreover have "length v \<le> length cs" by (simp add: v_def)
  ultimately have t: "t = c # cs" "length v \<le> length cs" "lex_frac l v = Some (a, b)"
    "lex_exp a b = Some (n, r)" using c by simp_all
  have "length r \<le> length b" using lex_exp_length [OF t(4)] .
  also have "\<dots> \<le> length v" using lex_frac_length [OF t(3)] .
  also have "\<dots> < length t" using t(1,2) by simp
  also have "\<dots> \<le> length s" by (simp add: t_def)
  finally show ?thesis .
qed

lemma lex_one_length:
  assumes "lex_one s = Some (t, r)"
  shows "length r < length s"
proof (cases s)
  case Nil
  then show ?thesis using assms by (simp add: lex_one_def)
next
  case (Cons c cs)
  show ?thesis
  proof (cases "map_of punctuation c")
    case None
    then consider u where "lex_str cs = Some (u, r)" | n where "lex_num s = Some (n, r)"
      | n where "r = drop (Suc n) s"
      using assms Cons by (auto simp: lex_one_def split: if_split_asm)
    then show ?thesis using Cons by cases (auto dest: lex_str_length lex_num_length)
  next
    case (Some x)
    then show ?thesis using assms Cons by (simp add: lex_one_def)
  qed
qed

function tokenize :: "string \<Rightarrow> token list option" where
  "tokenize s =
     (case s of
        [] \<Rightarrow> Some []
      | c # cs \<Rightarrow>
          if is_ws c then tokenize cs
          else (case lex_one s of
              None \<Rightarrow> None
            | Some (t, r) \<Rightarrow> map_option (\<lambda>ts. t # ts) (tokenize r)))"
  by pat_completeness auto
termination
  by (relation "measure length") (auto dest: lex_one_length)

declare tokenize.simps [simp del]

datatype frame = FArr "json list" | FObj "(string \<times> json) list" | FKey "(string \<times> json) list" string

datatype pstate = PValue | PElem | PKey0 | PKey | PColon string | PNext | PDone json

fun close :: "json \<Rightarrow> frame list \<Rightarrow> (pstate \<times> frame list) option" where
  "close v [] = Some (PDone v, [])"
| "close v (FArr xs # st) = Some (PNext, FArr (xs @ [v]) # st)"
| "close v (FKey kvs k # st) = Some (PNext, FObj (kvs @ [(k, v)]) # st)"
| "close v (FObj kvs # st) = None"

definition step_value :: "frame list \<Rightarrow> token \<Rightarrow> (pstate \<times> frame list) option" where
  "step_value st t =
     (case t of
        TNull \<Rightarrow> close JNull st
      | TTrue \<Rightarrow> close (JBool True) st
      | TFalse \<Rightarrow> close (JBool False) st
      | TStr s \<Rightarrow> close (JStr s) st
      | TNum n \<Rightarrow> close (JNum n) st
      | TLBrack \<Rightarrow> if 10000 \<le> length st then None else Some (PElem, FArr [] # st)
      | TLBrace \<Rightarrow> if 10000 \<le> length st then None else Some (PKey0, FObj [] # st)
      | _ \<Rightarrow> None)"

definition step_next :: "frame list \<Rightarrow> token \<Rightarrow> (pstate \<times> frame list) option" where
  "step_next st t =
     (case st of
        FArr xs # st' \<Rightarrow>
          if t = TComma then Some (PValue, st) else if t = TRBrack then close (JArr xs) st' else None
      | FObj kvs # st' \<Rightarrow>
          if t = TComma then Some (PKey, st) else if t = TRBrace then close (JObj kvs) st' else None
      | _ \<Rightarrow> None)"

definition step_json :: "pstate \<Rightarrow> frame list \<Rightarrow> token \<Rightarrow> (pstate \<times> frame list) option" where
  "step_json p st t =
     (case p of
        PValue \<Rightarrow> step_value st t
      | PElem \<Rightarrow> if t = TRBrack then step_next st t else step_value st t
      | PKey0 \<Rightarrow> if t = TRBrace then step_next st t
                 else (case t of TStr k \<Rightarrow> Some (PColon k, st) | _ \<Rightarrow> None)
      | PKey \<Rightarrow> (case t of TStr k \<Rightarrow> Some (PColon k, st) | _ \<Rightarrow> None)
      | PColon k \<Rightarrow> (case st of
            FObj kvs # st' \<Rightarrow> if t = TColon then Some (PValue, FKey kvs k # st') else None
          | _ \<Rightarrow> None)
      | PNext \<Rightarrow> step_next st t
      | PDone v \<Rightarrow> None)"

fun run_json :: "pstate \<Rightarrow> frame list \<Rightarrow> token list \<Rightarrow> json option" where
  "run_json p st [] = (case p of PDone v \<Rightarrow> Some v | _ \<Rightarrow> None)"
| "run_json p st (t # ts) =
     (case step_json p st t of None \<Rightarrow> None | Some (p', st') \<Rightarrow> run_json p' st' ts)"

definition unmarshal :: "string \<Rightarrow> json option" where
  "unmarshal s = (case tokenize s of None \<Rightarrow> None | Some ts \<Rightarrow> run_json PValue [] ts)"

section \<open>Round trip\<close>

lemma utf8_step_prefix:
  assumes "utf8_step bs = Some (r, rest)"
  shows "\<exists>pre. bs = pre @ rest \<and> pre \<noteq> [] \<and> (\<forall>x. utf8_step (pre @ x) = Some (r, x)) \<and>
    (0x80 \<le> hd pre \<and> r < 0x10000 \<longrightarrow> map char_of pre = enc_rune r)"
proof (cases bs)
  case Nil
  then show ?thesis using assms by (simp add: utf8_step.simps)
next
  case (Cons a cs)
  have "utf8_step (a # cs) = Some (r, rest)" using assms Cons by simp
  from utf8_step_cases [OF this] consider
      "a < 0x80" "r = a" "rest = cs"
    | b where "0xC2 \<le> a" "a \<le> 0xDF" "cs = b # rest" "is_cont b" "r = (a - 0xC0) * 64 + (b - 0x80)"
    | b c where "0xE0 \<le> a" "a \<le> 0xEF" "cs = b # c # rest" "is_cont b" "is_cont c"
        "a = 0xE0 \<longrightarrow> 0xA0 \<le> b" "a = 0xED \<longrightarrow> b \<le> 0x9F"
        "r = ((a - 0xE0) * 64 + (b - 0x80)) * 64 + (c - 0x80)"
    | b c d where "0xF0 \<le> a" "a \<le> 0xF4" "cs = b # c # d # rest" "is_cont b" "is_cont c" "is_cont d"
        "a = 0xF0 \<longrightarrow> 0x90 \<le> b" "a = 0xF4 \<longrightarrow> b \<le> 0x8F"
        "r = (((a - 0xF0) * 64 + (b - 0x80)) * 64 + (c - 0x80)) * 64 + (d - 0x80)"
    by (elim disjE exE conjE) blast+
  then show ?thesis
  proof cases
    case 1
    then show ?thesis using Cons by (intro exI [of _ "[a]"]) (simp add: utf8_step.simps)
  next
    case 2
    then have m: "b - 0x80 < 64" unfolding is_cont_def by linarith
    with 2 have "r div 64 = a - 0xC0" "r mod 64 = b - 0x80" by simp_all
    moreover have "0x80 \<le> r" "r < 0x800" using 2 m by linarith+
    ultimately have "enc_rune r = map char_of [0xC0 + (a - 0xC0), 0x80 + (b - 0x80)]"
      by (simp add: enc_rune_def)
    moreover have "0xC0 + (a - 0xC0) = a" "0x80 + (b - 0x80) = b" using 2 unfolding is_cont_def by linarith+
    ultimately have "enc_rune r = map char_of [a, b]" by simp
    moreover have "utf8_step ([a, b] @ x) = Some (r, x)" for x using 2 by (simp add: utf8_step.simps)
    ultimately show ?thesis using Cons 2 by (intro exI [of _ "[a, b]"]) auto
  next
    case 3
    then have m: "b - 0x80 < 64" "c - 0x80 < 64" unfolding is_cont_def by linarith+
    have d: "(x * 64 + y) div 64 = x" "(x * 64 + y) mod 64 = y" if "y < 64" for x y :: nat
      using that by simp_all
    have q: "r div 64 = (a - 0xE0) * 64 + (b - 0x80)" "r mod 64 = c - 0x80"
      unfolding 3(8) by (rule d [OF m(2)])+
    have "r div 4096 = r div 64 div 64" by (simp flip: div_mult2_eq)
    with q m have "r div 4096 = a - 0xE0" "r div 64 mod 64 = b - 0x80" by simp_all
    moreover have "0x20 \<le> (a - 0xE0) * 64 + (b - 0x80)"
    proof (cases "a = 0xE0")
      case True
      then have "0xA0 \<le> b" using 3 by simp
      then show ?thesis by linarith
    qed (use 3 in linarith)
    moreover have "(a - 0xE0) * 64 + (b - 0x80) < 0x400" using 3(2) m(1) by linarith
    moreover have "0x800 \<le> x * 64 + y \<and> x * 64 + y < 0x10000"
      if "0x20 \<le> x" "x < 0x400" "y < 64" for x y :: nat
      using that by linarith
    ultimately have "0x800 \<le> r \<and> r < 0x10000" unfolding 3(8) using m(2) by blast
    moreover note \<open>r div 4096 = a - 0xE0\<close> \<open>r div 64 mod 64 = b - 0x80\<close>
    ultimately have "enc_rune r = map char_of [0xE0 + (a - 0xE0), 0x80 + (b - 0x80), 0x80 + (c - 0x80)]"
      using q by (simp add: enc_rune_def)
    moreover have "0xE0 + (a - 0xE0) = a" "0x80 + (b - 0x80) = b" "0x80 + (c - 0x80) = c"
      using 3 unfolding is_cont_def by linarith+
    ultimately have "enc_rune r = map char_of [a, b, c]" by simp
    moreover have "utf8_step ([a, b, c] @ x) = Some (r, x)" for x using 3 by (simp add: utf8_step.simps)
    ultimately show ?thesis using Cons 3 by (intro exI [of _ "[a, b, c]"]) auto
  next
    case 4
    then have "0x10 \<le> (a - 0xF0) * 64 + (b - 0x80)"
    proof (cases "a = 0xF0")
      case True
      then have "0x90 \<le> b" using 4 by simp
      then show ?thesis by linarith
    qed (use 4 in linarith)
    moreover have "0x10000 \<le> (x * 64 + y) * 64 + z" if "0x10 \<le> x" for x y z :: nat
      using that by presburger
    ultimately have "0x10000 \<le> r" unfolding 4(9) by blast
    then show ?thesis using Cons 4
      by (intro exI [of _ "[a, b, c, d]"]) (simp add: utf8_step.simps)
  qed
qed

lemma rune_at_valid:
  assumes "ValidString s" and "s \<noteq> []"
  obtains r w where "rune_at s = Some (r, w)" and "ValidString (drop w s)"
    and "\<And>x. rune_at (take w s @ x) = Some (r, w)" and "0 < w" and "w \<le> length s"
    and "0x80 \<le> byte (hd s) \<Longrightarrow> r < 0x10000 \<Longrightarrow> take w s = enc_rune r"
proof -
  obtain r rest where step: "utf8_step (map of_char s) = Some (r, rest)" and v: "utf8_valid rest"
    using assms by (auto simp: ValidString_def utf8_valid.simps [of "map of_char s"] split: list.splits option.splits)
  then obtain pre where pre: "map of_char s = pre @ rest" "pre \<noteq> []" "\<And>x. utf8_step (pre @ x) = Some (r, x)"
      "0x80 \<le> hd pre \<Longrightarrow> r < 0x10000 \<Longrightarrow> map char_of pre = enc_rune r"
    using utf8_step_prefix by metis
  define w where "w = length pre"
  have l: "length s = w + length rest" using pre(1) unfolding w_def by (metis length_append length_map)
  have t: "map of_char (take w s) = pre" "map of_char (drop w s) = rest"
    using pre(1) unfolding w_def by (simp_all add: take_map drop_map flip: take_map drop_map)
  show thesis
  proof
    show "rune_at s = Some (r, w)" using step l by (simp add: rune_at_def)
    show "ValidString (drop w s)" using v t by (simp add: ValidString_def)
    show "rune_at (take w s @ x) = Some (r, w)" for x
      using pre(3) [of "map of_char x"] t(1) l by (simp add: rune_at_def)
    show "0 < w" "w \<le> length s" using pre(2) l by (simp_all add: w_def)
    show "take w s = enc_rune r" if "0x80 \<le> byte (hd s)" "r < 0x10000"
    proof -
      have "hd pre = byte (hd s)" using pre(1,2) assms(2) by (metis hd_append2 hd_map)
      then have "map char_of (map of_char (take w s) :: nat list) = enc_rune r" using pre(4) that t by simp
      then show ?thesis by (simp add: comp_def)
    qed
  qed
qed

lemma hexnum_hexdigit: "k < 16 \<Longrightarrow> hexnum (hexdigit k) = Some k"
  by (simp add: hexnum_def hexdigit_def is_digit_def)

lemma hex4_hex_fixed:
  assumes "n < 65536"
  shows "hex4 (hex_fixed 4 n @ x) = Some n"
proof -
  have f: "hex_fixed 4 n = [hexdigit (n div 4096 mod 16), hexdigit (n div 256 mod 16), hexdigit (n div 16 mod 16), hexdigit (n mod 16)]"
  proof -
    have "rev [0..<4] = [3, 2, 1, 0 :: nat]" by (simp add: upt_rec)
    then show ?thesis by (simp add: hex_fixed_def)
  qed
  have "n div 256 = n div 16 div 16" "n div 4096 = n div 256 div 16" by (simp_all flip: div_mult2_eq)
  moreover have "n div 4096 < 16" using assms by (simp add: div_less_iff_less_mult)
  ultimately have "(((n div 4096 mod 16) * 16 + n div 256 mod 16) * 16 + n div 16 mod 16) * 16 + n mod 16 = n"
    by (metis div_mult_mod_eq mod_less)
  moreover have "n div 4096 mod 16 = n div 4096" using \<open>n div 4096 < 16\<close> by simp
  ultimately show ?thesis using \<open>n div 4096 < 16\<close> by (simp add: hex4_def f hexnum_hexdigit)
qed

lemma byte_eqD: "byte c = n \<Longrightarrow> c = char_of n"
  by auto

lemma hex_fixed_4_length: "length (hex_fixed 4 n) = 4"
  by (simp add: hex_fixed_def)

lemma lex_str_hex:
  assumes "n < 65536" and "\<not> (0xD800 \<le> n \<and> n \<le> 0xDFFF)"
  shows "lex_str (backslash # CHR ''u'' # hex_fixed 4 n @ x) = emit (enc_rune n) (lex_str x)"
  unfolding lex_str_u hex4_hex_fixed [OF assms(1)] option.case if_not_P [OF assms(2)]
  by (simp add: hex_fixed_4_length)

lemma control_chars:
  "byte c = 8 \<Longrightarrow> c = CHR 0x08" "byte c = 12 \<Longrightarrow> c = CHR 0x0C" "byte c = 10 \<Longrightarrow> c = CHR 0x0A"
  "byte c = 13 \<Longrightarrow> c = CHR 0x0D" "byte c = 9 \<Longrightarrow> c = CHR 0x09"
  by (drule byte_eqD, simp add: char_of_def bit_0)+

lemma jescape_control:
  "jescape_ascii CHR 0x08 = [backslash, CHR ''b'']" "jescape_ascii CHR 0x0C = [backslash, CHR ''f'']"
  "jescape_ascii CHR 0x0A = [backslash, CHR ''n'']" "jescape_ascii CHR 0x0D = [backslash, CHR ''r'']"
  "jescape_ascii CHR 0x09 = [backslash, CHR ''t'']"
  by code_simp+

lemma simple_escape_control:
  "simple_escape CHR ''b'' = Some CHR 0x08" "simple_escape CHR ''f'' = Some CHR 0x0C"
  "simple_escape CHR ''n'' = Some CHR 0x0A" "simple_escape CHR ''r'' = Some CHR 0x0D"
  "simple_escape CHR ''t'' = Some CHR 0x09"
  by code_simp+

lemma lex_str_control:
  "lex_str (backslash # CHR ''b'' # x) = emit [CHR 0x08] (lex_str x)"
  "lex_str (backslash # CHR ''f'' # x) = emit [CHR 0x0C] (lex_str x)"
  "lex_str (backslash # CHR ''n'' # x) = emit [CHR 0x0A] (lex_str x)"
  "lex_str (backslash # CHR ''r'' # x) = emit [CHR 0x0D] (lex_str x)"
  "lex_str (backslash # CHR ''t'' # x) = emit [CHR 0x09] (lex_str x)"
  by (subst lex_str_escape, simp, simp add: simple_escape_control)+

lemma lex_str_jescape_ascii:
  assumes "byte c < 0x80"
  shows "lex_str (jescape_ascii c @ x) = emit [c] (lex_str x)"
proof (cases "c = quote_char \<or> c = backslash")
  case True
  then show ?thesis by (auto simp: jescape_ascii_def lex_str_escape simple_escape_def)
next
  case q: False
  show ?thesis
  proof (cases "byte c \<in> {8, 12, 10, 13, 9}")
    case True
    then have "c \<in> {CHR 0x08, CHR 0x0C, CHR 0x0A, CHR 0x0D, CHR 0x09}" using control_chars by auto
    then show ?thesis by (elim insertE emptyE) (simp_all add: jescape_control lex_str_control)
  next
    case n: False
    show ?thesis
    proof (cases "byte c < 32 \<or> c = CHR ''<'' \<or> c = CHR ''>'' \<or> c = CHR ''&''")
      case True
      then have "jescape_ascii c = backslash # CHR ''u'' # hex_fixed 4 (byte c)"
        using q n by (auto simp: jescape_ascii_def)
      then show ?thesis using assms by (simp add: lex_str_hex enc_rune_def)
    next
      case False
      then have "jescape_ascii c = [c]" using q n by (auto simp: jescape_ascii_def)
      then show ?thesis using assms q False by (simp add: lex_str_ascii)
    qed
  qed
qed

lemma lex_str_jescape:
  assumes "ValidString s"
  shows "lex_str (jescape s @ quote_char # x) = Some (s, x)"
  using assms
proof (induction s rule: measure_induct_rule [of length])
  case (less s)
  show ?case
  proof (cases s)
    case Nil
    then show ?thesis by (simp add: jescape.simps lex_str_quote)
  next
    case (Cons c cs)
    obtain r w where w: "rune_at s = Some (r, w)" "ValidString (drop w s)"
        "\<And>x. rune_at (take w s @ x) = Some (r, w)" "0 < w" "w \<le> length s"
        "0x80 \<le> byte (hd s) \<Longrightarrow> r < 0x10000 \<Longrightarrow> take w s = enc_rune r"
      using rune_at_valid [OF less.prems] Cons by blast
    show ?thesis
    proof (cases "byte c < 0x80")
      case True
      then have "ValidString cs"
        using less.prems Cons
        by (simp add: ValidString_def utf8_valid.simps [of "byte c # _"] utf8_step_ascii)
      then have "lex_str (jescape cs @ quote_char # x) = Some (cs, x)"
        using Cons by (intro less.IH) auto
      then show ?thesis using True Cons
        by (simp add: jescape.simps [of "c # cs"] lex_str_jescape_ascii emit_def)
    next
      case False
      have IH: "lex_str (jescape (drop w s) @ quote_char # x) = Some (drop w s, x)"
        using w by (intro less.IH) auto
      show ?thesis
      proof (cases "r = 0x2028 \<or> r = 0x2029")
        case True
        then have "jescape s = (backslash # CHR ''u'' # hex_fixed 4 r) @ jescape (drop w s)"
          using False Cons w(1) by (auto simp: jescape.simps [of "c # cs"])
        moreover have "take w s = enc_rune r" using w(6) False Cons True by auto
        ultimately show ?thesis
          using True IH lex_str_hex [of r "jescape (drop w s) @ quote_char # x"]
          by (auto simp: emit_def) (metis append_take_drop_id)+
      next
        case nohex: False
        then have "jescape s = take w s @ jescape (drop w s)"
          using False Cons w(1) by (auto simp: jescape.simps [of "c # cs"])
        moreover obtain d ds where d: "take w s = d # ds" "d = c"
          using w(4) Cons by (cases w) auto
        then have "lex_str (take w s @ jescape (drop w s) @ quote_char # x)
            = emit (take w s) (lex_str (jescape (drop w s) @ quote_char # x))"
          using w(3) [of "jescape (drop w s) @ quote_char # x"] False w(5)
          by (simp add: lex_str_multibyte) (metis append_Cons append_eq_conv_conj length_take min.absorb2)
        ultimately show ?thesis using IH by (simp add: emit_def)
      qed
    qed
  qed
qed

fun toks :: "json \<Rightarrow> token list"
  and toks_elems :: "json list \<Rightarrow> token list"
  and toks_members :: "(string \<times> json) list \<Rightarrow> token list"
where
  "toks JNull = [TNull]"
| "toks (JBool b) = [if b then TTrue else TFalse]"
| "toks (JNum n) = [TNum n]"
| "toks (JStr s) = [TStr s]"
| "toks (JArr vs) = TLBrack # toks_elems vs @ [TRBrack]"
| "toks (JObj kvs) = TLBrace # toks_members kvs @ [TRBrace]"
| "toks_elems [] = []"
| "toks_elems (v # vs) = toks v @ (if vs = [] then [] else TComma # toks_elems vs)"
| "toks_members [] = []"
| "toks_members ((k, v) # kvs) =
     TStr k # TColon # toks v @ (if kvs = [] then [] else TComma # toks_members kvs)"

text \<open>
  The values whose text is read back: valid strings, integer literals, and no more than the
  scanner's limit of open levels.
\<close>

fun jwf :: "nat \<Rightarrow> json \<Rightarrow> bool" where
  "jwf n JNull = True"
| "jwf n (JBool b) = True"
| "jwf n (JNum l) = (l \<noteq> [] \<and> (\<exists>i. l = FormatInt i))"
| "jwf n (JStr s) = ValidString s"
| "jwf 0 (JArr vs) = False"
| "jwf 0 (JObj kvs) = False"
| "jwf (Suc n) (JArr vs) = (\<forall>v \<in> set vs. jwf n v)"
| "jwf (Suc n) (JObj kvs) = (\<forall>kv \<in> set kvs. ValidString (fst kv) \<and> jwf n (snd kv))"

definition delim :: "string \<Rightarrow> bool" where
  "delim x \<longleftrightarrow> x = [] \<or> hd x \<in> {CHR '','', CHR '']'', CHR ''}'', CHR '':''}"

lemma delim_simps [simp]:
  "delim []" "delim (CHR '','' # x)" "delim (CHR '']'' # x)" "delim (CHR ''}'' # x)" "delim (CHR '':'' # x)"
  by (simp_all add: delim_def)

definition ltok :: "token list \<Rightarrow> token list option \<Rightarrow> token list option" where
  "ltok ts m = map_option (\<lambda>us. ts @ us) m"

lemma ltok_ltok: "ltok ts (ltok us m) = ltok (ts @ us) m"
  by (cases m) (simp_all add: ltok_def)

lemma lex_token:
  assumes "lex_one (c # cs) = Some (t, r)" and "\<not> is_ws c"
  shows "tokenize (c # cs) = ltok [t] (tokenize r)"
  using assms by (simp add: tokenize.simps [of "c # cs"] ltok_def)

lemma lex_punctuation:
  "map_of punctuation c = Some t \<Longrightarrow> \<not> is_ws c \<Longrightarrow> tokenize (c # x) = ltok [t] (tokenize x)"
  by (rule lex_token) (simp_all add: lex_one_def)

lemma lex_punct [simp]:
  "tokenize (CHR ''['' # x) = ltok [TLBrack] (tokenize x)" "tokenize (CHR '']'' # x) = ltok [TRBrack] (tokenize x)"
  "tokenize (CHR ''{'' # x) = ltok [TLBrace] (tokenize x)" "tokenize (CHR ''}'' # x) = ltok [TRBrace] (tokenize x)"
  "tokenize (CHR '','' # x) = ltok [TComma] (tokenize x)" "tokenize (CHR '':'' # x) = ltok [TColon] (tokenize x)"
  by (rule lex_punctuation; simp add: punctuation_def is_ws_def)+

lemma lex_string: "ValidString s \<Longrightarrow> tokenize (quote_char # jescape s @ quote_char # x) = ltok [TStr s] (tokenize x)"
  by (rule lex_token) (simp_all add: lex_one_def punctuation_def is_ws_def lex_str_jescape)

lemma lex_const:
  "tokenize (''null'' @ x) = ltok [TNull] (tokenize x)" "tokenize (''true'' @ x) = ltok [TTrue] (tokenize x)"
  "tokenize (''false'' @ x) = ltok [TFalse] (tokenize x)"
  by (simp_all, (rule lex_token; simp add: lex_one_def punctuation_def is_ws_def HasPrefix_def is_digit_def)+)

lemma takeWhile_digits: "list_all is_digit ds \<Longrightarrow> delim x \<Longrightarrow> takeWhile is_digit (ds @ x) = ds"
proof -
  assume ds: "list_all is_digit ds" and x: "delim x"
  have "takeWhile is_digit x = []" using x by (cases x) (auto simp: delim_def is_digit_def)
  then show ?thesis using ds by (simp add: takeWhile_append list_all_iff)
qed

lemma lex_frac_exp_delim: "delim x \<Longrightarrow> lex_frac l x = Some (l, x)" "delim x \<Longrightarrow> lex_exp l x = Some (l, x)"
  by (cases x; force simp: lex_frac_def lex_exp_def delim_def)+

lemma lex_num_dec:
  assumes "delim x" and "sg = [] \<or> sg = ''-''"
  shows "lex_num (sg @ dec n @ x) = Some (sg @ dec n, x)"
proof -
  obtain c ds where c: "dec n = c # ds" by (cases "dec n") auto
  have d: "is_digit c" "list_all is_digit ds" using dec_digits [of n] c by simp_all
  have z: "ds = []" if "c = CHR ''0''"
  proof -
    have "n = 0" using dec_hd [of n] c that by simp
    then have "dec n = [digit 0]" by (simp add: dec.simps)
    then show ?thesis using c by simp
  qed
  have sg: "(if HasPrefix (sg @ dec n @ x) ''-'' then ''-'' else []) = sg"
    using assms(2) c d(1) by (auto simp: HasPrefix_def is_digit_def)
  have dr: "drop (length sg) (sg @ dec n @ x) = c # ds @ x" by (simp add: c)
  have tw: "(if c = CHR ''0'' then [] else takeWhile is_digit (ds @ x)) = ds"
    using z takeWhile_digits [OF d(2) assms(1)] by auto
  show ?thesis
    unfolding lex_num_def sg Let_def dr list.case tw
    using d(1) assms(1) by (simp add: lex_frac_exp_delim c)
qed

lemma lex_int:
  assumes "delim x"
  shows "tokenize (FormatInt i @ x) = ltok [TNum (FormatInt i)] (tokenize x)"
proof -
  obtain sg n where f: "FormatInt i = sg @ dec n" "sg = [] \<or> sg = ''-''"
  proof (cases "i < 0")
    case True
    then show ?thesis using that [of "''-''" "nat (- i)"] by (simp add: FormatInt_def)
  next
    case False
    then show ?thesis using that [of "[]" "nat i"] by (simp add: FormatInt_def)
  qed
  obtain c cs where c: "FormatInt i = c # cs" "c = CHR ''-'' \<or> is_digit c"
  proof (cases "sg = []")
    case True
    then show ?thesis using that f dec_nonempty [of n] dec_digits [of n] by (cases "dec n") auto
  next
    case False
    then show ?thesis using that f by auto
  qed
  then have "c \<noteq> quote_char" "map_of punctuation c = None" "\<not> is_ws c"
    by (auto simp: punctuation_def is_digit_def is_ws_def)
  moreover have "lex_num (c # cs @ x) = Some (FormatInt i, x)"
    using lex_num_dec [OF assms f(2), of n] f(1) c(1) by (metis append.assoc append_Cons)
  ultimately have "lex_one (c # cs @ x) = Some (TNum (FormatInt i), x)"
    using c(2) by (simp add: lex_one_def)
  then show ?thesis using lex_token \<open>\<not> is_ws c\<close> c(1) by simp
qed

lemma lex_marshal:
  "jwf n v \<Longrightarrow> delim x \<Longrightarrow> tokenize (marshal v @ x) = ltok (toks v) (tokenize x)"
  "list_all (jwf n) vs \<Longrightarrow> delim x \<Longrightarrow> tokenize (marshal_elems vs @ x) = ltok (toks_elems vs) (tokenize x)"
  "list_all (\<lambda>kv. ValidString (fst kv) \<and> jwf n (snd kv)) kvs \<Longrightarrow> delim x \<Longrightarrow>
   tokenize (marshal_members kvs @ x) = ltok (toks_members kvs) (tokenize x)"
proof (induction v and vs and kvs arbitrary: n x and n x and n x
    rule: marshal_marshal_elems_marshal_members.induct)
  case (1 n x)
  then show ?case using lex_const by simp
next
  case (2 b n x)
  then show ?case using lex_const by simp
next
  case (3 l n x)
  then show ?case by (auto simp: lex_int)
next
  case (4 s n x)
  then show ?case by (simp add: lex_string)
next
  case (5 vs n x)
  then obtain m where "list_all (jwf m) vs" by (cases n) (auto simp: list_all_iff)
  with 5 show ?case by (simp add: ltok_ltok)
next
  case (6 kvs n x)
  then obtain m where "list_all (\<lambda>kv. ValidString (fst kv) \<and> jwf m (snd kv)) kvs"
    by (cases n) (auto simp: list_all_iff)
  with 6 show ?case by (simp add: ltok_ltok)
next
  case (7 n x)
  then show ?case by (simp add: ltok_def map_option.identity)
next
  case (8 v vs n x)
  then show ?case using "8.IH" [of n] by (cases "vs = []") (simp_all add: ltok_ltok)
next
  case (9 n x)
  then show ?case by (simp add: ltok_def map_option.identity)
next
  case (10 k v kvs n x)
  then show ?case using "10.IH" [of n] by (cases "kvs = []") (simp_all add: ltok_ltok lex_string)
qed

text \<open>The machine reads the tokens of a value and goes on with the value closed.\<close>

definition resume :: "(pstate \<times> frame list) option \<Rightarrow> token list \<Rightarrow> json option" where
  "resume m ts = (case m of None \<Rightarrow> None | Some (p, st) \<Rightarrow> run_json p st ts)"

lemma run_json_Cons: "run_json p st (t # ts) = resume (step_json p st t) ts"
  by (simp add: resume_def)

lemma resume_Some [simp]: "resume (Some (p, st)) ts = run_json p st ts"
  by (simp add: resume_def)

declare run_json.simps(2) [simp del]

lemma step_simps [simp]:
  "step_json PValue st t = step_value st t"
  "step_json PNext (FArr xs # st) TComma = Some (PValue, FArr xs # st)"
  "step_json PNext (FArr xs # st) TRBrack = close (JArr xs) st"
  "step_json PNext (FObj kvs # st) TComma = Some (PKey, FObj kvs # st)"
  "step_json PNext (FObj kvs # st) TRBrace = close (JObj kvs) st"
  "step_json PElem (FArr xs # st) TRBrack = close (JArr xs) st"
  "step_json PKey0 (FObj kvs # st) TRBrace = close (JObj kvs) st"
  "step_json PKey st (TStr k) = Some (PColon k, st)"
  "step_json PKey0 st (TStr k) = Some (PColon k, st)"
  "step_json (PColon k) (FObj kvs # st) TColon = Some (PValue, FKey kvs k # st)"
  by (simp_all add: step_json_def step_next_def)

lemma toks_not_close: "toks v \<noteq> [] \<and> hd (toks v) \<noteq> TRBrack"
  by (cases v) auto

lemma run_PElem:
  "toks v @ us = t # ts \<Longrightarrow> run_json PElem st (t # ts) = run_json PValue st (t # ts)"
  using toks_not_close [of v] by (cases "toks v") (auto simp: run_json_Cons step_json_def)

text \<open>The elements after the first one, and the members after the first one.\<close>

lemma run_elems:
  assumes "\<And>v st ts. v \<in> set vs \<Longrightarrow> length st = m \<Longrightarrow>
      run_json PValue st (toks v @ ts) = resume (close v st) ts"
    and "length st + 1 = m" and "vs \<noteq> []"
  shows "run_json PValue (FArr xs # st) (toks_elems vs @ TRBrack # ts) = resume (close (JArr (xs @ vs)) st) ts"
  using assms
proof (induction vs arbitrary: xs)
  case Nil
  then show ?case by simp
next
  case (Cons v vs)
  have v: "run_json PValue (FArr xs # st) (toks v @ us) = run_json PNext (FArr (xs @ [v]) # st) us" for us
    using Cons.prems by simp
  show ?case
  proof (cases "vs = []")
    case True
    then show ?thesis by (simp add: v run_json_Cons)
  next
    case False
    then show ?thesis using Cons.IH [of "xs @ [v]"] Cons.prems by (simp add: v run_json_Cons)
  qed
qed

lemma run_members:
  assumes "\<And>k v st ts. (k, v) \<in> set kvs \<Longrightarrow> length st = m \<Longrightarrow>
      run_json PValue st (toks v @ ts) = resume (close v st) ts"
    and "length st + 1 = m" and "kvs \<noteq> []" and "p = PKey \<or> p = PKey0"
  shows "run_json p (FObj ys # st) (toks_members kvs @ TRBrace # ts) =
    resume (close (JObj (ys @ kvs)) st) ts"
  using assms
proof (induction kvs arbitrary: ys p)
  case Nil
  then show ?case by simp
next
  case (Cons kv kvs)
  obtain k v where kv: "kv = (k, v)" by (cases kv)
  have v: "run_json p (FObj ys # st) (TStr k # TColon # toks v @ us) =
      run_json PNext (FObj (ys @ [(k, v)]) # st) us" for us
  proof -
    have "run_json PValue (FKey ys k # st) (toks v @ us) = resume (close v (FKey ys k # st)) us"
      using Cons.prems(2) kv by (intro Cons.prems(1) [of k]) auto
    then show ?thesis using Cons.prems(4) by (auto simp: run_json_Cons)
  qed
  show ?case
  proof (cases "kvs = []")
    case True
    then show ?thesis by (simp add: kv v, simp add: run_json_Cons)
  next
    case False
    have "run_json PKey (FObj (ys @ [(k, v)]) # st) (toks_members kvs @ TRBrace # ts) =
        resume (close (JObj ((ys @ [(k, v)]) @ kvs)) st) ts"
      using False Cons.prems by (intro Cons.IH) auto
    then show ?thesis using False by (simp add: kv v, simp add: run_json_Cons)
  qed
qed

lemma run_toks:
  "jwf n v \<Longrightarrow> length st + n \<le> 10000 \<Longrightarrow> run_json PValue st (toks v @ ts) = resume (close v st) ts"
proof (induction n arbitrary: v st ts)
  case 0
  then show ?case by (cases v) (auto simp: run_json_Cons step_value_def)
next
  case (Suc n)
  show ?case
  proof (cases v)
    case (JArr vs)
    have push: "step_value st TLBrack = Some (PElem, FArr [] # st)"
      using Suc.prems by (simp add: step_value_def)
    show ?thesis
    proof (cases "vs = []")
      case True
      then show ?thesis using JArr push by (simp add: run_json_Cons)
    next
      case False
      have "run_json PValue (FArr [] # st) (toks_elems vs @ TRBrack # ts) =
          resume (close (JArr ([] @ vs)) st) ts"
        using False Suc JArr by (intro run_elems [where m = "length st + 1"]) auto
      moreover obtain w ws where "vs = w # ws" using False by (cases vs) auto
      then obtain t us where "toks_elems vs @ TRBrack # ts = t # us" "\<exists>x. toks w @ x = t # us"
        using toks_not_close [of w] by (cases "toks w") auto
      ultimately show ?thesis using JArr push run_PElem by (fastforce simp: run_json_Cons)
    qed
  next
    case (JObj kvs)
    have push: "step_value st TLBrace = Some (PKey0, FObj [] # st)"
      using Suc.prems by (simp add: step_value_def)
    show ?thesis
    proof (cases "kvs = []")
      case True
      then show ?thesis using JObj push by (simp add: run_json_Cons)
    next
      case False
      have "run_json PKey0 (FObj [] # st) (toks_members kvs @ TRBrace # ts) =
          resume (close (JObj ([] @ kvs)) st) ts"
        using False Suc JObj by (intro run_members [where m = "length st + 1"]) auto
      then show ?thesis using JObj push by (simp add: run_json_Cons)
    qed
  qed (use Suc.prems in \<open>auto simp: run_json_Cons step_value_def\<close>)
qed

theorem unmarshal_marshal:
  assumes "jwf 10000 v"
  shows "unmarshal (marshal v) = Some v"
proof -
  have "tokenize (marshal v) = Some (toks v)"
    using lex_marshal(1) [OF assms, of "[]"] by (simp add: ltok_def tokenize.simps)
  moreover have "run_json PValue [] (toks v) = Some v"
    using run_toks [OF assms, of "[]" "[]"] by (simp add: resume_def)
  ultimately show ?thesis by (simp add: unmarshal_def)
qed

end
