(* ===== verification/Model.thy ===== *)
theory Model
  imports NetipFacts Json
begin

text \<open>
  The resource snapshots of \<open>internal/model\<close> and their JSON form. \<open>encoding/json\<close> writes
  a struct's exported fields in order under their Go names; reading starts from the zero
  struct and sets one field per member, matched without regard to case, where a null
  changes nothing. Snapshots of create results are stored in this form.
\<close>

section \<open>Resources\<close>

type_synonym state = string

abbreviation StatePending :: state where "StatePending \<equiv> ''pending''"
abbreviation StateAvailable :: state where "StateAvailable \<equiv> ''available''"
abbreviation StateDeleting :: state where "StateDeleting \<equiv> ''deleting''"
abbreviation StateFailed :: state where "StateFailed \<equiv> ''failed''"

abbreviation InstancePending :: state where "InstancePending \<equiv> ''pending''"
abbreviation InstanceRunning :: state where "InstanceRunning \<equiv> ''running''"
abbreviation InstanceShuttingDown :: state where "InstanceShuttingDown \<equiv> ''shutting-down''"
abbreviation InstanceFailed :: state where "InstanceFailed \<equiv> ''failed''"

record VPC =
  vpc_ID :: string
  vpc_WorkspaceID :: string
  vpc_Name :: string
  vpc_CIDRBlock :: prefix
  vpc_ShortIndex :: int
  vpc_State :: state
  vpc_StateReason :: string
  vpc_DeletionRequested :: bool
  vpc_Generation :: int
  vpc_ObservedGeneration :: int

record Subnet =
  sub_ID :: string
  sub_WorkspaceID :: string
  sub_VPCID :: string
  sub_Name :: string
  sub_CIDRBlock :: prefix
  sub_AvailabilityZone :: string
  sub_ShortIndex :: int
  sub_State :: state
  sub_StateReason :: string
  sub_DeletionRequested :: bool
  sub_Generation :: int
  sub_ObservedGeneration :: int

record ENI =
  eni_ID :: string
  eni_WorkspaceID :: string
  eni_InstanceID :: string
  eni_SubnetID :: string
  eni_ShortIndex :: int
  eni_PrivateIP :: addr
  eni_MACAddress :: string
  eni_Generation :: int
  eni_ObservedGeneration :: int
  eni_State :: state
  eni_StateReason :: string

record Instance =
  inst_ID :: string
  inst_WorkspaceID :: string
  inst_SubnetID :: string
  inst_ShortIndex :: int
  inst_Name :: string
  inst_InstanceType :: string
  inst_State :: state
  inst_StateReason :: string
  inst_Generation :: int
  inst_ObservedGeneration :: int
  inst_DeletionRequested :: bool
  inst_RuntimeID :: string
  inst_ENI :: ENI

definition zero_VPC :: VPC where
  "zero_VPC = \<lparr>vpc_ID = [], vpc_WorkspaceID = [], vpc_Name = [], vpc_CIDRBlock = PrefixZero,
     vpc_ShortIndex = 0, vpc_State = [], vpc_StateReason = [], vpc_DeletionRequested = False,
     vpc_Generation = 0, vpc_ObservedGeneration = 0\<rparr>"

definition zero_Subnet :: Subnet where
  "zero_Subnet = \<lparr>sub_ID = [], sub_WorkspaceID = [], sub_VPCID = [], sub_Name = [],
     sub_CIDRBlock = PrefixZero, sub_AvailabilityZone = [], sub_ShortIndex = 0, sub_State = [],
     sub_StateReason = [], sub_DeletionRequested = False, sub_Generation = 0,
     sub_ObservedGeneration = 0\<rparr>"

definition zero_ENI :: ENI where
  "zero_ENI = \<lparr>eni_ID = [], eni_WorkspaceID = [], eni_InstanceID = [], eni_SubnetID = [],
     eni_ShortIndex = 0, eni_PrivateIP = AddrZero, eni_MACAddress = [], eni_Generation = 0,
     eni_ObservedGeneration = 0, eni_State = [], eni_StateReason = []\<rparr>"

definition zero_Instance :: Instance where
  "zero_Instance = \<lparr>inst_ID = [], inst_WorkspaceID = [], inst_SubnetID = [], inst_ShortIndex = 0,
     inst_Name = [], inst_InstanceType = [], inst_State = [], inst_StateReason = [],
     inst_Generation = 0, inst_ObservedGeneration = 0, inst_DeletionRequested = False,
     inst_RuntimeID = [], inst_ENI = zero_ENI\<rparr>"

section \<open>JSON form\<close>

text \<open>
  \<open>MarshalText\<close> of addresses and prefixes is \<open>String\<close>, except that a zero value is the
  empty text; \<open>UnmarshalText\<close> is its inverse.
\<close>

definition addr_text :: "addr \<Rightarrow> string" where
  "addr_text a = (case a of IP0 w \<Rightarrow> [] | _ \<Rightarrow> addr_string a)"

definition addr_of_text :: "string \<Rightarrow> addr option" where
  "addr_of_text s = (if s = [] then Some AddrZero else ParseAddr s)"

definition prefix_text :: "prefix \<Rightarrow> string" where
  "prefix_text p = (if p = PrefixZero then [] else prefix_string p)"

definition prefix_of_text :: "string \<Rightarrow> prefix option" where
  "prefix_of_text s = (if s = [] then Some PrefixZero else ParsePrefix s)"

abbreviation jint :: "int \<Rightarrow> json" where
  "jint i \<equiv> JNum (FormatInt i)"

definition vpc_to_json :: "VPC \<Rightarrow> json" where
  "vpc_to_json v = JObj
     [(''ID'', JStr (vpc_ID v)), (''WorkspaceID'', JStr (vpc_WorkspaceID v)), (''Name'', JStr (vpc_Name v)),
      (''CIDRBlock'', JStr (prefix_text (vpc_CIDRBlock v))), (''ShortIndex'', jint (vpc_ShortIndex v)),
      (''State'', JStr (vpc_State v)), (''StateReason'', JStr (vpc_StateReason v)),
      (''DeletionRequested'', JBool (vpc_DeletionRequested v)), (''Generation'', jint (vpc_Generation v)),
      (''ObservedGeneration'', jint (vpc_ObservedGeneration v))]"

definition subnet_to_json :: "Subnet \<Rightarrow> json" where
  "subnet_to_json v = JObj
     [(''ID'', JStr (sub_ID v)), (''WorkspaceID'', JStr (sub_WorkspaceID v)), (''VPCID'', JStr (sub_VPCID v)),
      (''Name'', JStr (sub_Name v)), (''CIDRBlock'', JStr (prefix_text (sub_CIDRBlock v))),
      (''AvailabilityZone'', JStr (sub_AvailabilityZone v)), (''ShortIndex'', jint (sub_ShortIndex v)),
      (''State'', JStr (sub_State v)), (''StateReason'', JStr (sub_StateReason v)),
      (''DeletionRequested'', JBool (sub_DeletionRequested v)), (''Generation'', jint (sub_Generation v)),
      (''ObservedGeneration'', jint (sub_ObservedGeneration v))]"

definition eni_to_json :: "ENI \<Rightarrow> json" where
  "eni_to_json v = JObj
     [(''ID'', JStr (eni_ID v)), (''WorkspaceID'', JStr (eni_WorkspaceID v)),
      (''InstanceID'', JStr (eni_InstanceID v)), (''SubnetID'', JStr (eni_SubnetID v)),
      (''ShortIndex'', jint (eni_ShortIndex v)), (''PrivateIP'', JStr (addr_text (eni_PrivateIP v))),
      (''MACAddress'', JStr (eni_MACAddress v)), (''Generation'', jint (eni_Generation v)),
      (''ObservedGeneration'', jint (eni_ObservedGeneration v)), (''State'', JStr (eni_State v)),
      (''StateReason'', JStr (eni_StateReason v))]"

definition instance_to_json :: "Instance \<Rightarrow> json" where
  "instance_to_json v = JObj
     [(''ID'', JStr (inst_ID v)), (''WorkspaceID'', JStr (inst_WorkspaceID v)),
      (''SubnetID'', JStr (inst_SubnetID v)), (''ShortIndex'', jint (inst_ShortIndex v)),
      (''Name'', JStr (inst_Name v)), (''InstanceType'', JStr (inst_InstanceType v)),
      (''State'', JStr (inst_State v)), (''StateReason'', JStr (inst_StateReason v)),
      (''Generation'', jint (inst_Generation v)), (''ObservedGeneration'', jint (inst_ObservedGeneration v)),
      (''DeletionRequested'', JBool (inst_DeletionRequested v)), (''RuntimeID'', JStr (inst_RuntimeID v)),
      (''ENI'', eni_to_json (inst_ENI v))]"

text \<open>
  Keys are compared after folding case: ASCII letters, and the two runes outside ASCII
  that fold to one, U+017F to s and U+212A to k.
\<close>

definition fold_ascii :: "char \<Rightarrow> char" where
  "fold_ascii c = (if 65 \<le> byte c \<and> byte c \<le> 90 then char_of (byte c + 32) else c)"

fun fold_key :: "string \<Rightarrow> string" where
  "fold_key (a # b # c # r) =
     (if [a, b, c] = enc_rune 0x212A then CHR ''k'' # fold_key r
      else if [a, b] = enc_rune 0x17F then CHR ''s'' # fold_key (c # r)
      else fold_ascii a # fold_key (b # c # r))"
| "fold_key [a, b] = (if [a, b] = enc_rune 0x17F then ''s'' else [fold_ascii a, fold_ascii b])"
| "fold_key [a] = [fold_ascii a]"
| "fold_key [] = []"

definition set_str :: "(string \<Rightarrow> 'a \<Rightarrow> 'a) \<Rightarrow> json \<Rightarrow> 'a \<Rightarrow> 'a option" where
  "set_str f j x = (case j of JNull \<Rightarrow> Some x | JStr s \<Rightarrow> Some (f s x) | _ \<Rightarrow> None)"

definition set_bool :: "(bool \<Rightarrow> 'a \<Rightarrow> 'a) \<Rightarrow> json \<Rightarrow> 'a \<Rightarrow> 'a option" where
  "set_bool f j x = (case j of JNull \<Rightarrow> Some x | JBool b \<Rightarrow> Some (f b x) | _ \<Rightarrow> None)"

definition set_int :: "(int \<Rightarrow> 'a \<Rightarrow> 'a) \<Rightarrow> json \<Rightarrow> 'a \<Rightarrow> 'a option" where
  "set_int f j x =
     (case j of JNull \<Rightarrow> Some x | JNum l \<Rightarrow> map_option (\<lambda>i. f i x) (ParseInt l) | _ \<Rightarrow> None)"

definition set_text :: "(string \<Rightarrow> 't option) \<Rightarrow> ('t \<Rightarrow> 'a \<Rightarrow> 'a) \<Rightarrow> json \<Rightarrow> 'a \<Rightarrow> 'a option" where
  "set_text p f j x =
     (case j of JNull \<Rightarrow> Some x | JStr s \<Rightarrow> map_option (\<lambda>t. f t x) (p s) | _ \<Rightarrow> None)"

text \<open>
  A struct's fields: names and setters. Members without a field are skipped.
\<close>

type_synonym 'a fields = "(string \<times> (json \<Rightarrow> 'a \<Rightarrow> 'a option)) list"

definition set_member :: "'a fields \<Rightarrow> string \<times> json \<Rightarrow> 'a \<Rightarrow> 'a option" where
  "set_member fs kv x =
     (case find (\<lambda>f. fold_key (fst f) = fold_key (fst kv)) fs of
        None \<Rightarrow> Some x
      | Some f \<Rightarrow> snd f (snd kv) x)"

fun set_members :: "'a fields \<Rightarrow> (string \<times> json) list \<Rightarrow> 'a \<Rightarrow> 'a option" where
  "set_members fs [] x = Some x"
| "set_members fs (kv # kvs) x =
     (case set_member fs kv x of None \<Rightarrow> None | Some y \<Rightarrow> set_members fs kvs y)"

definition set_struct :: "'a fields \<Rightarrow> json \<Rightarrow> 'a \<Rightarrow> 'a option" where
  "set_struct fs j x = (case j of JNull \<Rightarrow> Some x | JObj kvs \<Rightarrow> set_members fs kvs x | _ \<Rightarrow> None)"

definition vpc_fields :: "VPC fields" where
  "vpc_fields =
     [(''ID'', set_str (\<lambda>s x. x\<lparr>vpc_ID := s\<rparr>)), (''WorkspaceID'', set_str (\<lambda>s x. x\<lparr>vpc_WorkspaceID := s\<rparr>)),
      (''Name'', set_str (\<lambda>s x. x\<lparr>vpc_Name := s\<rparr>)),
      (''CIDRBlock'', set_text prefix_of_text (\<lambda>p x. x\<lparr>vpc_CIDRBlock := p\<rparr>)),
      (''ShortIndex'', set_int (\<lambda>i x. x\<lparr>vpc_ShortIndex := i\<rparr>)), (''State'', set_str (\<lambda>s x. x\<lparr>vpc_State := s\<rparr>)),
      (''StateReason'', set_str (\<lambda>s x. x\<lparr>vpc_StateReason := s\<rparr>)),
      (''DeletionRequested'', set_bool (\<lambda>b x. x\<lparr>vpc_DeletionRequested := b\<rparr>)),
      (''Generation'', set_int (\<lambda>i x. x\<lparr>vpc_Generation := i\<rparr>)),
      (''ObservedGeneration'', set_int (\<lambda>i x. x\<lparr>vpc_ObservedGeneration := i\<rparr>))]"

definition subnet_fields :: "Subnet fields" where
  "subnet_fields =
     [(''ID'', set_str (\<lambda>s x. x\<lparr>sub_ID := s\<rparr>)), (''WorkspaceID'', set_str (\<lambda>s x. x\<lparr>sub_WorkspaceID := s\<rparr>)),
      (''VPCID'', set_str (\<lambda>s x. x\<lparr>sub_VPCID := s\<rparr>)), (''Name'', set_str (\<lambda>s x. x\<lparr>sub_Name := s\<rparr>)),
      (''CIDRBlock'', set_text prefix_of_text (\<lambda>p x. x\<lparr>sub_CIDRBlock := p\<rparr>)),
      (''AvailabilityZone'', set_str (\<lambda>s x. x\<lparr>sub_AvailabilityZone := s\<rparr>)),
      (''ShortIndex'', set_int (\<lambda>i x. x\<lparr>sub_ShortIndex := i\<rparr>)), (''State'', set_str (\<lambda>s x. x\<lparr>sub_State := s\<rparr>)),
      (''StateReason'', set_str (\<lambda>s x. x\<lparr>sub_StateReason := s\<rparr>)),
      (''DeletionRequested'', set_bool (\<lambda>b x. x\<lparr>sub_DeletionRequested := b\<rparr>)),
      (''Generation'', set_int (\<lambda>i x. x\<lparr>sub_Generation := i\<rparr>)),
      (''ObservedGeneration'', set_int (\<lambda>i x. x\<lparr>sub_ObservedGeneration := i\<rparr>))]"

definition eni_fields :: "ENI fields" where
  "eni_fields =
     [(''ID'', set_str (\<lambda>s x. x\<lparr>eni_ID := s\<rparr>)), (''WorkspaceID'', set_str (\<lambda>s x. x\<lparr>eni_WorkspaceID := s\<rparr>)),
      (''InstanceID'', set_str (\<lambda>s x. x\<lparr>eni_InstanceID := s\<rparr>)), (''SubnetID'', set_str (\<lambda>s x. x\<lparr>eni_SubnetID := s\<rparr>)),
      (''ShortIndex'', set_int (\<lambda>i x. x\<lparr>eni_ShortIndex := i\<rparr>)),
      (''PrivateIP'', set_text addr_of_text (\<lambda>a x. x\<lparr>eni_PrivateIP := a\<rparr>)),
      (''MACAddress'', set_str (\<lambda>s x. x\<lparr>eni_MACAddress := s\<rparr>)), (''Generation'', set_int (\<lambda>i x. x\<lparr>eni_Generation := i\<rparr>)),
      (''ObservedGeneration'', set_int (\<lambda>i x. x\<lparr>eni_ObservedGeneration := i\<rparr>)),
      (''State'', set_str (\<lambda>s x. x\<lparr>eni_State := s\<rparr>)), (''StateReason'', set_str (\<lambda>s x. x\<lparr>eni_StateReason := s\<rparr>))]"

definition instance_fields :: "Instance fields" where
  "instance_fields =
     [(''ID'', set_str (\<lambda>s x. x\<lparr>inst_ID := s\<rparr>)), (''WorkspaceID'', set_str (\<lambda>s x. x\<lparr>inst_WorkspaceID := s\<rparr>)),
      (''SubnetID'', set_str (\<lambda>s x. x\<lparr>inst_SubnetID := s\<rparr>)), (''ShortIndex'', set_int (\<lambda>i x. x\<lparr>inst_ShortIndex := i\<rparr>)),
      (''Name'', set_str (\<lambda>s x. x\<lparr>inst_Name := s\<rparr>)), (''InstanceType'', set_str (\<lambda>s x. x\<lparr>inst_InstanceType := s\<rparr>)),
      (''State'', set_str (\<lambda>s x. x\<lparr>inst_State := s\<rparr>)), (''StateReason'', set_str (\<lambda>s x. x\<lparr>inst_StateReason := s\<rparr>)),
      (''Generation'', set_int (\<lambda>i x. x\<lparr>inst_Generation := i\<rparr>)),
      (''ObservedGeneration'', set_int (\<lambda>i x. x\<lparr>inst_ObservedGeneration := i\<rparr>)),
      (''DeletionRequested'', set_bool (\<lambda>b x. x\<lparr>inst_DeletionRequested := b\<rparr>)),
      (''RuntimeID'', set_str (\<lambda>s x. x\<lparr>inst_RuntimeID := s\<rparr>)),
      (''ENI'', (\<lambda>j x. map_option (\<lambda>e. x\<lparr>inst_ENI := e\<rparr>) (set_struct eni_fields j (inst_ENI x))))]"

text \<open>\<open>json.Marshal\<close> and \<open>json.Unmarshal\<close> of a snapshot.\<close>

definition vpc_marshal :: "VPC \<Rightarrow> string" where
  "vpc_marshal v = marshal (vpc_to_json v)"

definition vpc_unmarshal :: "string \<Rightarrow> VPC option" where
  "vpc_unmarshal s = Option.bind (unmarshal s) (\<lambda>j. set_struct vpc_fields j zero_VPC)"

definition subnet_marshal :: "Subnet \<Rightarrow> string" where
  "subnet_marshal v = marshal (subnet_to_json v)"

definition subnet_unmarshal :: "string \<Rightarrow> Subnet option" where
  "subnet_unmarshal s = Option.bind (unmarshal s) (\<lambda>j. set_struct subnet_fields j zero_Subnet)"

definition instance_marshal :: "Instance \<Rightarrow> string" where
  "instance_marshal v = marshal (instance_to_json v)"

definition instance_unmarshal :: "string \<Rightarrow> Instance option" where
  "instance_unmarshal s = Option.bind (unmarshal s) (\<lambda>j. set_struct instance_fields j zero_Instance)"

section \<open>Round trips\<close>

definition int64 :: "int \<Rightarrow> bool" where
  "int64 i \<longleftrightarrow> - (2 ^ 63) \<le> i \<and> i < 2 ^ 63"

lemma set_scalar [simp]:
  "set_str f (JStr s) x = Some (f s x)" "set_bool g (JBool b) y = Some (g b y)"
  "int64 i \<Longrightarrow> set_int h (jint i) z = Some (h i z)"
  by (simp_all add: set_str_def set_bool_def set_int_def int64_def ParseInt_FormatInt)

lemma addr_string_nonempty: "Is4 a \<Longrightarrow> addr_string a \<noteq> []"
  by (cases a) (simp_all add: ip4_string_def)

lemma set_addr [simp]: "Is4 a \<Longrightarrow> set_text addr_of_text f (JStr (addr_text a)) x = Some (f a x)"
  using addr_string_nonempty [of a] ParseAddr_string [of a]
  by (cases a) (simp_all add: set_text_def addr_text_def addr_of_text_def)

lemma set_prefix [simp]:
  assumes "prefix4 p"
  shows "set_text prefix_of_text f (JStr (prefix_text p)) x = Some (f p x)"
proof -
  have "p \<noteq> PrefixZero" using assms by (auto simp: prefix4_def)
  moreover have "prefix_string p \<noteq> []" using assms by (simp add: prefix_string_def)
  ultimately show ?thesis
    by (simp add: set_text_def prefix_text_def prefix_of_text_def ParsePrefix_string [OF assms])
qed

lemma find_fold_key:
  assumes "distinct (map (\<lambda>f. fold_key (fst f)) fs)" and "(k, g) \<in> set fs"
  shows "find (\<lambda>f. fold_key (fst f) = fold_key k) fs = Some (k, g)"
  using find_Some_iff_distinct [OF assms(1)] assms(2) by fastforce

lemma set_member_field:
  assumes "distinct (map fold_key (map fst fs))" and "(k, g) \<in> set fs"
  shows "set_member fs (k, j) x = g j x"
  using find_fold_key [of fs k g] assms by (simp add: set_member_def comp_def)

text \<open>No two fields of a struct have names that fold to the same key.\<close>

lemma distinct_fields:
  "distinct (map fold_key (map fst vpc_fields))" "distinct (map fold_key (map fst subnet_fields))"
  "distinct (map fold_key (map fst eni_fields))" "distinct (map fold_key (map fst instance_fields))"
proof -
  have "distinct (map fold_key [''ID'', ''WorkspaceID'', ''Name'', ''CIDRBlock'', ''ShortIndex'', ''State'',
      ''StateReason'', ''DeletionRequested'', ''Generation'', ''ObservedGeneration''])" by code_simp
  then show "distinct (map fold_key (map fst vpc_fields))" by (simp only: vpc_fields_def list.map fst_conv)
  have "distinct (map fold_key [''ID'', ''WorkspaceID'', ''VPCID'', ''Name'', ''CIDRBlock'',
      ''AvailabilityZone'', ''ShortIndex'', ''State'', ''StateReason'', ''DeletionRequested'', ''Generation'',
      ''ObservedGeneration''])" by code_simp
  then show "distinct (map fold_key (map fst subnet_fields))" by (simp only: subnet_fields_def list.map fst_conv)
  have "distinct (map fold_key [''ID'', ''WorkspaceID'', ''InstanceID'', ''SubnetID'', ''ShortIndex'',
      ''PrivateIP'', ''MACAddress'', ''Generation'', ''ObservedGeneration'', ''State'', ''StateReason''])" by code_simp
  then show "distinct (map fold_key (map fst eni_fields))" by (simp only: eni_fields_def list.map fst_conv)
  have "distinct (map fold_key [''ID'', ''WorkspaceID'', ''SubnetID'', ''ShortIndex'', ''Name'', ''InstanceType'',
      ''State'', ''StateReason'', ''Generation'', ''ObservedGeneration'', ''DeletionRequested'', ''RuntimeID'',
      ''ENI''])" by code_simp
  then show "distinct (map fold_key (map fst instance_fields))" by (simp only: instance_fields_def list.map fst_conv)
qed

lemma set_vpc_field [simp]:
  "set_member vpc_fields (''ID'', j) x = set_str (\<lambda>s x. x\<lparr>vpc_ID := s\<rparr>) j x"
  "set_member vpc_fields (''WorkspaceID'', j) x = set_str (\<lambda>s x. x\<lparr>vpc_WorkspaceID := s\<rparr>) j x"
  "set_member vpc_fields (''Name'', j) x = set_str (\<lambda>s x. x\<lparr>vpc_Name := s\<rparr>) j x"
  "set_member vpc_fields (''CIDRBlock'', j) x = set_text prefix_of_text (\<lambda>p x. x\<lparr>vpc_CIDRBlock := p\<rparr>) j x"
  "set_member vpc_fields (''ShortIndex'', j) x = set_int (\<lambda>i x. x\<lparr>vpc_ShortIndex := i\<rparr>) j x"
  "set_member vpc_fields (''State'', j) x = set_str (\<lambda>s x. x\<lparr>vpc_State := s\<rparr>) j x"
  "set_member vpc_fields (''StateReason'', j) x = set_str (\<lambda>s x. x\<lparr>vpc_StateReason := s\<rparr>) j x"
  "set_member vpc_fields (''DeletionRequested'', j) x = set_bool (\<lambda>b x. x\<lparr>vpc_DeletionRequested := b\<rparr>) j x"
  "set_member vpc_fields (''Generation'', j) x = set_int (\<lambda>i x. x\<lparr>vpc_Generation := i\<rparr>) j x"
  "set_member vpc_fields (''ObservedGeneration'', j) x = set_int (\<lambda>i x. x\<lparr>vpc_ObservedGeneration := i\<rparr>) j x"
  by (rule set_member_field [OF distinct_fields(1)], simp add: vpc_fields_def)+

lemma set_subnet_field [simp]:
  "set_member subnet_fields (''ID'', j) x = set_str (\<lambda>s x. x\<lparr>sub_ID := s\<rparr>) j x"
  "set_member subnet_fields (''WorkspaceID'', j) x = set_str (\<lambda>s x. x\<lparr>sub_WorkspaceID := s\<rparr>) j x"
  "set_member subnet_fields (''VPCID'', j) x = set_str (\<lambda>s x. x\<lparr>sub_VPCID := s\<rparr>) j x"
  "set_member subnet_fields (''Name'', j) x = set_str (\<lambda>s x. x\<lparr>sub_Name := s\<rparr>) j x"
  "set_member subnet_fields (''CIDRBlock'', j) x = set_text prefix_of_text (\<lambda>p x. x\<lparr>sub_CIDRBlock := p\<rparr>) j x"
  "set_member subnet_fields (''AvailabilityZone'', j) x = set_str (\<lambda>s x. x\<lparr>sub_AvailabilityZone := s\<rparr>) j x"
  "set_member subnet_fields (''ShortIndex'', j) x = set_int (\<lambda>i x. x\<lparr>sub_ShortIndex := i\<rparr>) j x"
  "set_member subnet_fields (''State'', j) x = set_str (\<lambda>s x. x\<lparr>sub_State := s\<rparr>) j x"
  "set_member subnet_fields (''StateReason'', j) x = set_str (\<lambda>s x. x\<lparr>sub_StateReason := s\<rparr>) j x"
  "set_member subnet_fields (''DeletionRequested'', j) x = set_bool (\<lambda>b x. x\<lparr>sub_DeletionRequested := b\<rparr>) j x"
  "set_member subnet_fields (''Generation'', j) x = set_int (\<lambda>i x. x\<lparr>sub_Generation := i\<rparr>) j x"
  "set_member subnet_fields (''ObservedGeneration'', j) x = set_int (\<lambda>i x. x\<lparr>sub_ObservedGeneration := i\<rparr>) j x"
  by (rule set_member_field [OF distinct_fields(2)], simp add: subnet_fields_def)+

lemma set_eni_field [simp]:
  "set_member eni_fields (''ID'', j) x = set_str (\<lambda>s x. x\<lparr>eni_ID := s\<rparr>) j x"
  "set_member eni_fields (''WorkspaceID'', j) x = set_str (\<lambda>s x. x\<lparr>eni_WorkspaceID := s\<rparr>) j x"
  "set_member eni_fields (''InstanceID'', j) x = set_str (\<lambda>s x. x\<lparr>eni_InstanceID := s\<rparr>) j x"
  "set_member eni_fields (''SubnetID'', j) x = set_str (\<lambda>s x. x\<lparr>eni_SubnetID := s\<rparr>) j x"
  "set_member eni_fields (''ShortIndex'', j) x = set_int (\<lambda>i x. x\<lparr>eni_ShortIndex := i\<rparr>) j x"
  "set_member eni_fields (''PrivateIP'', j) x = set_text addr_of_text (\<lambda>a x. x\<lparr>eni_PrivateIP := a\<rparr>) j x"
  "set_member eni_fields (''MACAddress'', j) x = set_str (\<lambda>s x. x\<lparr>eni_MACAddress := s\<rparr>) j x"
  "set_member eni_fields (''Generation'', j) x = set_int (\<lambda>i x. x\<lparr>eni_Generation := i\<rparr>) j x"
  "set_member eni_fields (''ObservedGeneration'', j) x = set_int (\<lambda>i x. x\<lparr>eni_ObservedGeneration := i\<rparr>) j x"
  "set_member eni_fields (''State'', j) x = set_str (\<lambda>s x. x\<lparr>eni_State := s\<rparr>) j x"
  "set_member eni_fields (''StateReason'', j) x = set_str (\<lambda>s x. x\<lparr>eni_StateReason := s\<rparr>) j x"
  by (rule set_member_field [OF distinct_fields(3)], simp add: eni_fields_def)+

lemma set_instance_field [simp]:
  "set_member instance_fields (''ID'', j) x = set_str (\<lambda>s x. x\<lparr>inst_ID := s\<rparr>) j x"
  "set_member instance_fields (''WorkspaceID'', j) x = set_str (\<lambda>s x. x\<lparr>inst_WorkspaceID := s\<rparr>) j x"
  "set_member instance_fields (''SubnetID'', j) x = set_str (\<lambda>s x. x\<lparr>inst_SubnetID := s\<rparr>) j x"
  "set_member instance_fields (''ShortIndex'', j) x = set_int (\<lambda>i x. x\<lparr>inst_ShortIndex := i\<rparr>) j x"
  "set_member instance_fields (''Name'', j) x = set_str (\<lambda>s x. x\<lparr>inst_Name := s\<rparr>) j x"
  "set_member instance_fields (''InstanceType'', j) x = set_str (\<lambda>s x. x\<lparr>inst_InstanceType := s\<rparr>) j x"
  "set_member instance_fields (''State'', j) x = set_str (\<lambda>s x. x\<lparr>inst_State := s\<rparr>) j x"
  "set_member instance_fields (''StateReason'', j) x = set_str (\<lambda>s x. x\<lparr>inst_StateReason := s\<rparr>) j x"
  "set_member instance_fields (''Generation'', j) x = set_int (\<lambda>i x. x\<lparr>inst_Generation := i\<rparr>) j x"
  "set_member instance_fields (''ObservedGeneration'', j) x = set_int (\<lambda>i x. x\<lparr>inst_ObservedGeneration := i\<rparr>) j x"
  "set_member instance_fields (''DeletionRequested'', j) x = set_bool (\<lambda>b x. x\<lparr>inst_DeletionRequested := b\<rparr>) j x"
  "set_member instance_fields (''RuntimeID'', j) x = set_str (\<lambda>s x. x\<lparr>inst_RuntimeID := s\<rparr>) j x"
  "set_member instance_fields (''ENI'', j) x = (\<lambda>j x. map_option (\<lambda>e. x\<lparr>inst_ENI := e\<rparr>) (set_struct eni_fields j (inst_ENI x))) j x"
  by (rule set_member_field [OF distinct_fields(4)], simp add: instance_fields_def)+

lemma jwf_JArr: "0 < n \<Longrightarrow> jwf n (JArr vs) = list_all (jwf (n - 1)) vs"
  by (cases n) (simp_all add: list_all_iff)

lemma jwf_JObj:
  "0 < n \<Longrightarrow> jwf n (JObj kvs) = list_all (\<lambda>kv. ValidString (fst kv) \<and> jwf (n - 1) (snd kv)) kvs"
  by (cases n) (simp_all add: list_all_iff)

lemma FormatInt_nonempty [simp]: "FormatInt i \<noteq> []"
  by (simp add: FormatInt_def)

lemma ex_FormatInt [simp]: "\<exists>i. FormatInt a = FormatInt i"
  by blast

lemma set_struct_JObj [simp]: "set_struct fs (JObj kvs) x = set_members fs kvs x"
  by (simp add: set_struct_def)

lemma jwf_jint [simp]: "jwf n (jint i)"
  by auto

text \<open>Snapshots that the store writes: valid strings, 64-bit integers, IPv4.\<close>

definition vpc_printable :: "VPC \<Rightarrow> bool" where
  "vpc_printable v \<longleftrightarrow>
     list_all ValidString [vpc_ID v, vpc_WorkspaceID v, vpc_Name v, vpc_State v, vpc_StateReason v] \<and>
     list_all int64 [vpc_ShortIndex v, vpc_Generation v, vpc_ObservedGeneration v] \<and> prefix4 (vpc_CIDRBlock v)"

definition subnet_printable :: "Subnet \<Rightarrow> bool" where
  "subnet_printable v \<longleftrightarrow>
     list_all ValidString [sub_ID v, sub_WorkspaceID v, sub_VPCID v, sub_Name v, sub_AvailabilityZone v,
       sub_State v, sub_StateReason v] \<and>
     list_all int64 [sub_ShortIndex v, sub_Generation v, sub_ObservedGeneration v] \<and> prefix4 (sub_CIDRBlock v)"

definition eni_printable :: "ENI \<Rightarrow> bool" where
  "eni_printable v \<longleftrightarrow>
     list_all ValidString [eni_ID v, eni_WorkspaceID v, eni_InstanceID v, eni_SubnetID v, eni_MACAddress v,
       eni_State v, eni_StateReason v] \<and>
     list_all int64 [eni_ShortIndex v, eni_Generation v, eni_ObservedGeneration v] \<and> Is4 (eni_PrivateIP v)"

definition instance_printable :: "Instance \<Rightarrow> bool" where
  "instance_printable v \<longleftrightarrow>
     list_all ValidString [inst_ID v, inst_WorkspaceID v, inst_SubnetID v, inst_Name v, inst_InstanceType v,
       inst_State v, inst_StateReason v, inst_RuntimeID v] \<and>
     list_all int64 [inst_ShortIndex v, inst_Generation v, inst_ObservedGeneration v] \<and>
     eni_printable (inst_ENI v)"

lemma ascii_addr: "Is4 a \<Longrightarrow> list_all (\<lambda>c. byte c < 0x80) (addr_string a)"
proof -
  have "list_all (\<lambda>c. byte c < 0x80) (dec n)" for n
    using dec_digits [of n] by (auto simp: list_all_iff is_digit_def)
  then show "Is4 a \<Longrightarrow> ?thesis" by (cases a) (simp_all add: ip4_string_def)
qed

lemma ValidString_addr: "Is4 a \<Longrightarrow> ValidString (addr_text a)"
  using ascii_addr [of a] by (cases a) (simp_all add: addr_text_def ValidString_ascii)

lemma ValidString_prefix:
  assumes "prefix4 p"
  shows "ValidString (prefix_text p)"
proof -
  have "list_all (\<lambda>c. byte c < 0x80) (FormatInt (Bits p))"
    using assms dec_digits [of "nat (Bits p)"] by (auto simp: FormatInt_def prefix4_def list_all_iff is_digit_def)
  then show ?thesis
    using assms ascii_addr [of "Addr p"]
    by (intro ValidString_ascii) (simp add: prefix_text_def prefix_string_def prefix4_def)
qed

lemma jwf_snapshot:
  "vpc_printable v \<Longrightarrow> jwf 10000 (vpc_to_json v)"
  "subnet_printable s \<Longrightarrow> jwf 10000 (subnet_to_json s)"
  "eni_printable e \<Longrightarrow> jwf 9999 (eni_to_json e)"
  "instance_printable i \<Longrightarrow> jwf 10000 (instance_to_json i)"
proof -
  show "vpc_printable v \<Longrightarrow> jwf 10000 (vpc_to_json v)"
    by (simp add: vpc_printable_def vpc_to_json_def jwf_JObj ValidString_prefix ValidString_ascii)
  show "subnet_printable s \<Longrightarrow> jwf 10000 (subnet_to_json s)"
    by (simp add: subnet_printable_def subnet_to_json_def jwf_JObj ValidString_prefix ValidString_ascii)
  show "eni_printable e \<Longrightarrow> jwf 9999 (eni_to_json e)" for e
    by (simp add: eni_printable_def eni_to_json_def jwf_JObj ValidString_addr ValidString_ascii)
  then show "instance_printable i \<Longrightarrow> jwf 10000 (instance_to_json i)"
    by (simp add: instance_printable_def instance_to_json_def jwf_JObj ValidString_ascii)
qed

lemma vpc_unmarshal_marshal:
  assumes "vpc_printable v"
  shows "vpc_unmarshal (vpc_marshal v) = Some v"
proof -
  have "unmarshal (vpc_marshal v) = Some (vpc_to_json v)"
    using assms by (simp add: vpc_marshal_def unmarshal_marshal jwf_snapshot)
  moreover have "set_struct vpc_fields (vpc_to_json v) zero_VPC = Some v"
    using assms
    by (simp add: vpc_printable_def vpc_to_json_def zero_VPC_def)
  ultimately show ?thesis by (simp add: vpc_unmarshal_def)
qed

lemma subnet_unmarshal_marshal:
  assumes "subnet_printable v"
  shows "subnet_unmarshal (subnet_marshal v) = Some v"
proof -
  have "unmarshal (subnet_marshal v) = Some (subnet_to_json v)"
    using assms by (simp add: subnet_marshal_def unmarshal_marshal jwf_snapshot)
  moreover have "set_struct subnet_fields (subnet_to_json v) zero_Subnet = Some v"
    using assms
    by (simp add: subnet_printable_def subnet_to_json_def zero_Subnet_def)
  ultimately show ?thesis by (simp add: subnet_unmarshal_def)
qed

lemma eni_set_struct:
  "eni_printable v \<Longrightarrow> set_struct eni_fields (eni_to_json v) zero_ENI = Some v"
  by (simp add: eni_printable_def eni_to_json_def zero_ENI_def)

lemma instance_unmarshal_marshal:
  assumes "instance_printable v"
  shows "instance_unmarshal (instance_marshal v) = Some v"
proof -
  have "unmarshal (instance_marshal v) = Some (instance_to_json v)"
    using assms by (simp add: instance_marshal_def unmarshal_marshal jwf_snapshot)
  moreover have "set_struct instance_fields (instance_to_json v) zero_Instance = Some v"
    using assms
    by (simp add: instance_printable_def instance_to_json_def zero_Instance_def eni_set_struct)
  ultimately show ?thesis by (simp add: instance_unmarshal_def)
qed

end
