(* ===== verification/Database.thy ===== *)
theory Database
  imports GoEncoding
begin

text \<open>
  The SQLite state: the tables of \<open>migrations/0001\<close> to \<open>0004\<close> and the statements of
  \<open>sqlc/queries.sql.go\<close>. A table is a list of rows. A one-row SELECT is \<open>find\<close>, a
  many-row SELECT a \<open>filter\<close> that is sorted and cut as the statement says, an UPDATE maps
  the rows its WHERE clause selects, a DELETE filters, an INSERT appends. A statement that
  breaks a constraint of the schema fails and changes nothing, which is SQLite's ABORT.
  Constraints are tried in SQLite's order: CHECK, keys and unique indexes, foreign keys.

  A statement runs in a transaction: it maps the tables the transaction sees to a result
  and the tables after it, or to an error.
\<close>

section \<open>Rows\<close>

record vpc_row =
  vr_id :: string
  vr_workspace_id :: string
  vr_short_index :: int
  vr_name :: string
  vr_cidr_block :: string
  vr_generation :: int
  vr_observed_generation :: int
  vr_state :: string
  vr_state_reason :: string
  vr_created_at :: int
  vr_updated_at :: int
  vr_deletion_requested :: int

record subnet_row =
  sr_id :: string
  sr_workspace_id :: string
  sr_vpc_id :: string
  sr_short_index :: int
  sr_name :: string
  sr_cidr_block :: string
  sr_availability_zone :: string
  sr_generation :: int
  sr_observed_generation :: int
  sr_state :: string
  sr_state_reason :: string
  sr_created_at :: int
  sr_updated_at :: int
  sr_deletion_requested :: int

record instance_row =
  ir_id :: string
  ir_workspace_id :: string
  ir_subnet_id :: string
  ir_short_index :: int
  ir_name :: string
  ir_generation :: int
  ir_observed_generation :: int
  ir_state :: string
  ir_state_reason :: string
  ir_created_at :: int
  ir_updated_at :: int
  ir_deletion_requested :: int
  ir_runtime_id :: "string option"

record eni_row =
  er_id :: string
  er_workspace_id :: string
  er_instance_id :: string
  er_subnet_id :: string
  er_short_index :: int
  er_private_ip :: string
  er_mac_address :: string
  er_generation :: int
  er_observed_generation :: int
  er_state :: string
  er_state_reason :: string
  er_created_at :: int
  er_updated_at :: int

record event_row =
  ev_id :: int
  ev_workspace_id :: string
  ev_resource_type :: string
  ev_resource_id :: string
  ev_action :: string
  ev_state :: string
  ev_generation :: int
  ev_message :: string
  ev_created_at :: int

record idem_row =
  id_workspace_id :: string
  id_operation :: string
  id_key :: string
  id_payload_hash :: string
  id_resource_id :: string
  id_created_at :: int
  id_expires_at :: int
  id_response_json :: string

record kernel_index_row =
  kr_id :: int
  kr_resource_kind :: string
  kr_resource_id :: string
  kr_allocated_at :: int

text \<open>
  \<open>kernel_seq\<close> and \<open>event_seq\<close> are the rows of \<open>sqlite_sequence\<close> behind the two
  AUTOINCREMENT keys: the largest key ever given out.
\<close>

record db =
  workspaces :: "string list"
  kernel_indexes :: "kernel_index_row list"
  kernel_seq :: int
  vpcs :: "vpc_row list"
  subnets :: "subnet_row list"
  instances :: "instance_row list"
  enis :: "eni_row list"
  events :: "event_row list"
  event_seq :: int
  idempotency_requests :: "idem_row list"

text \<open>The state after all migrations of an empty file.\<close>

definition empty_db :: db where
  "empty_db = \<lparr>workspaces = [''default''], kernel_indexes = [], kernel_seq = 0, vpcs = [], subnets = [],
     instances = [], enis = [], events = [], event_seq = 0, idempotency_requests = []\<rparr>"

section \<open>Transactions\<close>

type_synonym 'a tx = "db \<Rightarrow> ('a \<times> db) res"

definition tx_return :: "'a \<Rightarrow> 'a tx" where
  "tx_return x = (\<lambda>d. Inr (x, d))"

definition tx_fail :: "goerr \<Rightarrow> 'a tx" where
  "tx_fail e = (\<lambda>d. Inl e)"

definition tx_bind :: "'a tx \<Rightarrow> ('a \<Rightarrow> 'b tx) \<Rightarrow> 'b tx" where
  "tx_bind m f = (\<lambda>d. res_bind (m d) (\<lambda>(x, d'). f x d'))"

definition tx_wrap :: "string \<Rightarrow> 'a tx \<Rightarrow> 'a tx" where
  "tx_wrap p m = (\<lambda>d. res_wrap p (m d))"

definition tx_guard :: "bool \<Rightarrow> goerr \<Rightarrow> unit tx" where
  "tx_guard ok e = (\<lambda>d. if ok then Inr ((), d) else Inl e)"

text \<open>A read: the tables stay as they are.\<close>

definition tx_read :: "(db \<Rightarrow> 'a res) \<Rightarrow> 'a tx" where
  "tx_read f = (\<lambda>d. res_bind (f d) (\<lambda>x. Inr (x, d)))"

text \<open>A result that the caller inspects itself, \<open>if err == nil\<close> or \<open>errors.Is\<close>.\<close>

definition tx_try :: "(db \<Rightarrow> 'a res) \<Rightarrow> 'a res tx" where
  "tx_try f = (\<lambda>d. Inr (f d, d))"

definition tx_map_err :: "(goerr \<Rightarrow> goerr) \<Rightarrow> 'a tx \<Rightarrow> 'a tx" where
  "tx_map_err h m = (\<lambda>d. case m d of Inl e \<Rightarrow> Inl (h e) | Inr r \<Rightarrow> Inr r)"

definition res_map_err :: "(goerr \<Rightarrow> goerr) \<Rightarrow> 'a res \<Rightarrow> 'a res" where
  "res_map_err h m = (case m of Inl e \<Rightarrow> Inl (h e) | Inr r \<Rightarrow> Inr r)"

text \<open>A loop of statements over a slice.\<close>

fun tx_iter :: "('a \<Rightarrow> unit tx) \<Rightarrow> 'a list \<Rightarrow> unit tx" where
  "tx_iter f [] = tx_return ()"
| "tx_iter f (x # xs) = tx_bind (f x) (\<lambda>_. tx_iter f xs)"

lemma tx_bind_Inr [res_simps]:
  "tx_bind m f d = Inr r \<longleftrightarrow> (\<exists>x d'. m d = Inr (x, d') \<and> f x d' = Inr r)"
  by (auto simp: tx_bind_def res_bind_Inr)

lemma tx_bind_Inl [res_simps]:
  "tx_bind m f d = Inl e \<longleftrightarrow> m d = Inl e \<or> (\<exists>x d'. m d = Inr (x, d') \<and> f x d' = Inl e)"
  by (auto simp: tx_bind_def res_bind_Inl)

lemma tx_return_Inr [simp, res_simps]: "tx_return x d = Inr (y, d') \<longleftrightarrow> y = x \<and> d' = d"
  by (auto simp: tx_return_def)

lemma tx_return_Inl [simp, res_simps]: "tx_return x d \<noteq> Inl e"
  by (simp add: tx_return_def)

lemma tx_fail_simps [simp, res_simps]: "tx_fail e d = Inl e"
  by (simp add: tx_fail_def)

lemma tx_wrap_Inr [simp, res_simps]: "tx_wrap p m d = Inr r \<longleftrightarrow> m d = Inr r"
  by (simp add: tx_wrap_def)

lemma tx_wrap_Inl [res_simps]: "tx_wrap p m d = Inl e \<longleftrightarrow> (\<exists>e'. m d = Inl e' \<and> e = Wrapf p e')"
  by (simp add: tx_wrap_def res_wrap_Inl)

lemma tx_guard_Inr [simp, res_simps]: "tx_guard ok e d = Inr (u, d') \<longleftrightarrow> ok \<and> d' = d"
  by (auto simp: tx_guard_def)

lemma tx_guard_Inl [simp, res_simps]: "tx_guard ok e d = Inl e' \<longleftrightarrow> \<not> ok \<and> e' = e"
  by (auto simp: tx_guard_def)

lemma tx_read_Inr [simp, res_simps]: "tx_read f d = Inr (x, d') \<longleftrightarrow> f d = Inr x \<and> d' = d"
  by (auto simp: tx_read_def res_bind_Inr)

lemma tx_read_Inl [simp, res_simps]: "tx_read f d = Inl e \<longleftrightarrow> f d = Inl e"
  by (auto simp: tx_read_def res_bind_Inl)

lemma tx_try_Inr [simp, res_simps]: "tx_try f d = Inr (x, d') \<longleftrightarrow> x = f d \<and> d' = d"
  by (auto simp: tx_try_def)

lemma tx_try_Inl [simp, res_simps]: "tx_try f d \<noteq> Inl e"
  by (simp add: tx_try_def)

lemma tx_map_err_Inr [simp, res_simps]: "tx_map_err h m d = Inr r \<longleftrightarrow> m d = Inr r"
  by (simp add: tx_map_err_def split: sum.splits)

lemma tx_map_err_Inl [res_simps]: "tx_map_err h m d = Inl e \<longleftrightarrow> (\<exists>e'. m d = Inl e' \<and> e = h e')"
  by (auto simp: tx_map_err_def split: sum.splits)

lemma res_map_err_Inr [simp, res_simps]: "res_map_err h m = Inr r \<longleftrightarrow> m = Inr r"
  by (simp add: res_map_err_def split: sum.splits)

lemma res_map_err_Inl [res_simps]: "res_map_err h m = Inl e \<longleftrightarrow> (\<exists>e'. m = Inl e' \<and> e = h e')"
  by (auto simp: res_map_err_def split: sum.splits)

text \<open>An invariant that every step of a loop keeps holds after the loop.\<close>

lemma tx_iter_invariant:
  assumes "tx_iter f xs d = Inr (u, d')" and "P d"
    and "\<And>x d d' u. x \<in> set xs \<Longrightarrow> P d \<Longrightarrow> f x d = Inr (u, d') \<Longrightarrow> P d'"
  shows "P d'"
  using assms
proof (induction xs arbitrary: d)
  case Nil
  then show ?case by simp
next
  case (Cons x xs)
  then obtain d1 where "f x d = Inr ((), d1)" and "tx_iter f xs d1 = Inr (u, d')"
    by (auto simp: tx_bind_Inr)
  moreover have "P d1" using Cons.prems(3) [OF _ Cons.prems(2) calculation(1)] by simp
  ultimately show ?case using Cons.IH Cons.prems(3) by (meson list.set_intros(2))
qed

section \<open>Constraints of the schema\<close>

text \<open>
  SQLite's \<open>length\<close> of a text counts its characters up to the first NUL.
\<close>

definition sql_length :: "string \<Rightarrow> nat" where
  "sql_length s = RuneCountInString (takeWhile (\<lambda>c. byte c \<noteq> 0) s)"

definition name_check :: "string \<Rightarrow> bool" where
  "name_check s \<longleftrightarrow> 1 \<le> sql_length s \<and> sql_length s \<le> 255"

definition generation_check :: "int \<Rightarrow> int \<Rightarrow> bool" where
  "generation_check g og \<longleftrightarrow> 1 \<le> g \<and> 0 \<le> og \<and> og \<le> g"

definition vpc_check :: "vpc_row \<Rightarrow> bool" where
  "vpc_check r \<longleftrightarrow>
     name_check (vr_name r) \<and>
     vr_state r \<in> {''pending'', ''available'', ''deleting'', ''failed''} \<and>
     generation_check (vr_generation r) (vr_observed_generation r) \<and>
     vr_deletion_requested r \<in> {0, 1}"

definition subnet_check :: "subnet_row \<Rightarrow> bool" where
  "subnet_check r \<longleftrightarrow>
     name_check (sr_name r) \<and>
     sr_availability_zone r \<in> {''local-1a'', ''local-1b'', ''local-1c''} \<and>
     sr_state r \<in> {''pending'', ''available'', ''deleting'', ''failed''} \<and>
     generation_check (sr_generation r) (sr_observed_generation r) \<and>
     sr_deletion_requested r \<in> {0, 1}"

definition instance_check :: "instance_row \<Rightarrow> bool" where
  "instance_check r \<longleftrightarrow>
     name_check (ir_name r) \<and>
     ir_state r \<in> {''pending'', ''running'', ''stopping'', ''stopped'', ''shutting-down'',
                    ''terminated'', ''failed''} \<and>
     generation_check (ir_generation r) (ir_observed_generation r) \<and>
     ir_deletion_requested r \<in> {0, 1}"

definition eni_check :: "eni_row \<Rightarrow> bool" where
  "eni_check r \<longleftrightarrow> generation_check (er_generation r) (er_observed_generation r)"

definition max_int64 :: int where
  "max_int64 = 2 ^ 63 - 1"

text \<open>UPDATE: the rows the condition selects, and LIMIT, where a negative one is none.\<close>

definition upd :: "('r \<Rightarrow> bool) \<Rightarrow> ('r \<Rightarrow> 'r) \<Rightarrow> 'r list \<Rightarrow> 'r list" where
  "upd P f rs = map (\<lambda>r. if P r then f r else r) rs"

definition sql_limit :: "int \<Rightarrow> 'r list \<Rightarrow> 'r list" where
  "sql_limit n rs = (if n < 0 then rs else take (nat n) rs)"

definition one_row :: "('r \<Rightarrow> bool) \<Rightarrow> 'r list \<Rightarrow> 'r res" where
  "one_row P rs = (case find P rs of None \<Rightarrow> Inl ErrNoRows | Some r \<Rightarrow> Inr r)"

lemma one_row_Inr [res_simps]: "one_row P rs = Inr r \<Longrightarrow> r \<in> set rs \<and> P r"
  by (auto simp: one_row_def split: option.splits dest: find_Some_in)

lemma one_row_Inl: "one_row P rs = Inl e \<longleftrightarrow> e = ErrNoRows \<and> (\<forall>r \<in> set rs. \<not> P r)"
  by (auto simp: one_row_def find_None_all split: option.splits dest: find_Some_in)

lemma one_row_unique:
  assumes "r \<in> set rs" and "P r" and "\<And>s. s \<in> set rs \<Longrightarrow> P s \<Longrightarrow> s = r"
  shows "one_row P rs = Inr r"
proof -
  have "find P rs = Some r" using assms by (rule find_unique)
  then show ?thesis by (simp add: one_row_def)
qed

lemma upd_Nil [simp]: "upd P f [] = []"
  by (simp add: upd_def)

lemma set_upd: "set (upd P f rs) = (\<lambda>r. if P r then f r else r) ` set rs"
  by (simp add: upd_def)

lemma map_upd_key [simp]: "(\<And>r. k (f r) = k r) \<Longrightarrow> map k (upd P f rs) = map k rs"
  by (simp add: upd_def)

lemma list_all_upd:
  "list_all Q rs \<Longrightarrow> (\<And>r. r \<in> set rs \<Longrightarrow> P r \<Longrightarrow> Q r \<Longrightarrow> Q (f r)) \<Longrightarrow> list_all Q (upd P f rs)"
  by (auto simp: upd_def list_all_iff)

section \<open>Statements on VPCs and subnets\<close>

definition vpc_key :: "string \<Rightarrow> string \<Rightarrow> vpc_row \<Rightarrow> bool" where
  "vpc_key i ws r \<longleftrightarrow> vr_id r = i \<and> vr_workspace_id r = ws"

definition subnet_key :: "string \<Rightarrow> string \<Rightarrow> subnet_row \<Rightarrow> bool" where
  "subnet_key i ws r \<longleftrightarrow> sr_id r = i \<and> sr_workspace_id r = ws"

definition instance_key :: "string \<Rightarrow> string \<Rightarrow> instance_row \<Rightarrow> bool" where
  "instance_key i ws r \<longleftrightarrow> ir_id r = i \<and> ir_workspace_id r = ws"

definition eni_key :: "string \<Rightarrow> string \<Rightarrow> eni_row \<Rightarrow> bool" where
  "eni_key i ws r \<longleftrightarrow> er_id r = i \<and> er_workspace_id r = ws"

definition q_GetVPC :: "string \<Rightarrow> string \<Rightarrow> db \<Rightarrow> vpc_row res" where
  "q_GetVPC i ws d = one_row (vpc_key i ws) (vpcs d)"

definition q_GetVPCByName :: "string \<Rightarrow> string \<Rightarrow> db \<Rightarrow> vpc_row res" where
  "q_GetVPCByName ws name d = one_row (\<lambda>r. vr_workspace_id r = ws \<and> vr_name r = name) (vpcs d)"

definition q_ListVPCPage :: "string \<Rightarrow> string \<Rightarrow> int \<Rightarrow> db \<Rightarrow> vpc_row list" where
  "q_ListVPCPage ws i limit d =
     sql_limit limit (sort_key vr_id (filter (\<lambda>r. vr_workspace_id r = ws \<and> i < vr_id r) (vpcs d)))"

definition q_InsertVPC ::
  "string \<Rightarrow> string \<Rightarrow> int \<Rightarrow> string \<Rightarrow> string \<Rightarrow> int \<Rightarrow> int \<Rightarrow> unit tx" where
  "q_InsertVPC i ws idx name cidr created_at updated_at = (\<lambda>d.
     let r = \<lparr>vr_id = i, vr_workspace_id = ws, vr_short_index = idx, vr_name = name,
              vr_cidr_block = cidr, vr_generation = 1, vr_observed_generation = 0,
              vr_state = ''pending'', vr_state_reason = [], vr_created_at = created_at,
              vr_updated_at = updated_at, vr_deletion_requested = 0\<rparr> in
     if \<not> vpc_check r then Inl (ErrConstraint CCheck)
     else if \<exists>v \<in> set (vpcs d). vr_id v = i then Inl (ErrConstraint CPrimaryKey)
     else if \<exists>v \<in> set (vpcs d). vr_short_index v = idx \<or> (vr_workspace_id v = ws \<and> vr_name v = name)
     then Inl (ErrConstraint CUnique)
     else if ws \<notin> set (workspaces d) \<or> idx \<notin> kr_id ` set (kernel_indexes d)
     then Inl (ErrConstraint CForeignKey)
     else Inr ((), d\<lparr>vpcs := vpcs d @ [r]\<rparr>))"

definition q_MarkVPCDeleting :: "int \<Rightarrow> string \<Rightarrow> string \<Rightarrow> unit tx" where
  "q_MarkVPCDeleting updated_at i ws = (\<lambda>d.
     let vs = upd (\<lambda>r. vpc_key i ws r \<and> vr_deletion_requested r = 0)
                  (\<lambda>r. r\<lparr>vr_state := ''deleting'', vr_state_reason := [], vr_deletion_requested := 1,
                         vr_generation := vr_generation r + 1, vr_updated_at := updated_at\<rparr>) (vpcs d) in
     if list_all vpc_check vs then Inr ((), d\<lparr>vpcs := vs\<rparr>) else Inl (ErrConstraint CCheck))"

definition q_UpdateVPCStatus :: "string \<Rightarrow> string \<Rightarrow> int \<Rightarrow> int \<Rightarrow> string \<Rightarrow> string \<Rightarrow> unit tx" where
  "q_UpdateVPCStatus state reason og updated_at i ws = (\<lambda>d.
     let vs = upd (vpc_key i ws)
                  (\<lambda>r. r\<lparr>vr_state := state, vr_state_reason := reason,
                         vr_observed_generation := og, vr_updated_at := updated_at\<rparr>) (vpcs d) in
     if list_all vpc_check vs then Inr ((), d\<lparr>vpcs := vs\<rparr>) else Inl (ErrConstraint CCheck))"

definition q_DeleteVPC :: "string \<Rightarrow> string \<Rightarrow> unit tx" where
  "q_DeleteVPC i ws = (\<lambda>d.
     if \<exists>v \<in> set (vpcs d). vpc_key i ws v \<and>
          (\<exists>s \<in> set (subnets d). sr_vpc_id s = vr_id v \<and> sr_workspace_id s = vr_workspace_id v)
     then Inl (ErrConstraint CTrigger)
     else Inr ((), d\<lparr>vpcs := filter (\<lambda>r. \<not> vpc_key i ws r) (vpcs d)\<rparr>))"

definition q_GetSubnet :: "string \<Rightarrow> string \<Rightarrow> db \<Rightarrow> subnet_row res" where
  "q_GetSubnet i ws d = one_row (subnet_key i ws) (subnets d)"

definition q_GetSubnetByName :: "string \<Rightarrow> string \<Rightarrow> db \<Rightarrow> subnet_row res" where
  "q_GetSubnetByName ws name d = one_row (\<lambda>r. sr_workspace_id r = ws \<and> sr_name r = name) (subnets d)"

definition q_ListSubnetPage :: "string \<Rightarrow> string \<Rightarrow> int \<Rightarrow> db \<Rightarrow> subnet_row list" where
  "q_ListSubnetPage ws i limit d =
     sql_limit limit (sort_key sr_id (filter (\<lambda>r. sr_workspace_id r = ws \<and> i < sr_id r) (subnets d)))"

definition q_ListSubnetsByVPC :: "string \<Rightarrow> db \<Rightarrow> subnet_row list" where
  "q_ListSubnetsByVPC vid d = sort_key sr_id (filter (\<lambda>r. sr_vpc_id r = vid) (subnets d))"

definition q_InsertSubnet ::
  "string \<Rightarrow> string \<Rightarrow> string \<Rightarrow> int \<Rightarrow> string \<Rightarrow> string \<Rightarrow> string \<Rightarrow> int \<Rightarrow> int \<Rightarrow> unit tx" where
  "q_InsertSubnet i ws vid idx name cidr az created_at updated_at = (\<lambda>d.
     let r = \<lparr>sr_id = i, sr_workspace_id = ws, sr_vpc_id = vid, sr_short_index = idx, sr_name = name,
              sr_cidr_block = cidr, sr_availability_zone = az, sr_generation = 1,
              sr_observed_generation = 0, sr_state = ''pending'', sr_state_reason = [],
              sr_created_at = created_at, sr_updated_at = updated_at, sr_deletion_requested = 0\<rparr> in
     if \<not> subnet_check r then Inl (ErrConstraint CCheck)
     else if \<exists>s \<in> set (subnets d). sr_id s = i then Inl (ErrConstraint CPrimaryKey)
     else if \<exists>s \<in> set (subnets d). sr_short_index s = idx \<or> (sr_workspace_id s = ws \<and> sr_name s = name)
     then Inl (ErrConstraint CUnique)
     else if ws \<notin> set (workspaces d) \<or> idx \<notin> kr_id ` set (kernel_indexes d)
             \<or> \<not> (\<exists>v \<in> set (vpcs d). vpc_key vid ws v)
     then Inl (ErrConstraint CForeignKey)
     else Inr ((), d\<lparr>subnets := subnets d @ [r]\<rparr>))"

definition q_MarkSubnetDeleting :: "int \<Rightarrow> string \<Rightarrow> string \<Rightarrow> unit tx" where
  "q_MarkSubnetDeleting updated_at i ws = (\<lambda>d.
     let ss = upd (\<lambda>r. subnet_key i ws r \<and> sr_deletion_requested r = 0)
                  (\<lambda>r. r\<lparr>sr_state := ''deleting'', sr_state_reason := [], sr_deletion_requested := 1,
                         sr_generation := sr_generation r + 1, sr_updated_at := updated_at\<rparr>) (subnets d) in
     if list_all subnet_check ss then Inr ((), d\<lparr>subnets := ss\<rparr>) else Inl (ErrConstraint CCheck))"

definition q_UpdateSubnetStatus :: "string \<Rightarrow> string \<Rightarrow> int \<Rightarrow> int \<Rightarrow> string \<Rightarrow> string \<Rightarrow> unit tx" where
  "q_UpdateSubnetStatus state reason og updated_at i ws = (\<lambda>d.
     let ss = upd (subnet_key i ws)
                  (\<lambda>r. r\<lparr>sr_state := state, sr_state_reason := reason,
                         sr_observed_generation := og, sr_updated_at := updated_at\<rparr>) (subnets d) in
     if list_all subnet_check ss then Inr ((), d\<lparr>subnets := ss\<rparr>) else Inl (ErrConstraint CCheck))"

definition q_DeleteSubnet :: "string \<Rightarrow> string \<Rightarrow> unit tx" where
  "q_DeleteSubnet i ws = (\<lambda>d.
     if \<exists>s \<in> set (subnets d). subnet_key i ws s \<and>
          ((\<exists>n \<in> set (instances d). ir_subnet_id n = sr_id s \<and> ir_workspace_id n = sr_workspace_id s) \<or>
           (\<exists>e \<in> set (enis d). er_subnet_id e = sr_id s \<and> er_workspace_id e = sr_workspace_id s))
     then Inl (ErrConstraint CTrigger)
     else Inr ((), d\<lparr>subnets := filter (\<lambda>r. \<not> subnet_key i ws r) (subnets d)\<rparr>))"

definition q_CountInstancesInSubnet :: "string \<Rightarrow> db \<Rightarrow> int" where
  "q_CountInstancesInSubnet sid d = int (length (filter (\<lambda>r. ir_subnet_id r = sid) (instances d)))"

section \<open>Statements on instances and network interfaces\<close>

definition q_GetInstance :: "string \<Rightarrow> string \<Rightarrow> db \<Rightarrow> instance_row res" where
  "q_GetInstance i ws d = one_row (instance_key i ws) (instances d)"

definition q_GetInstanceByName :: "string \<Rightarrow> string \<Rightarrow> db \<Rightarrow> instance_row res" where
  "q_GetInstanceByName ws name d =
     one_row (\<lambda>r. ir_workspace_id r = ws \<and> ir_name r = name) (instances d)"

definition q_GetPrimaryENI :: "string \<Rightarrow> string \<Rightarrow> db \<Rightarrow> eni_row res" where
  "q_GetPrimaryENI iid ws d =
     one_row (\<lambda>r. er_instance_id r = iid \<and> er_workspace_id r = ws) (enis d)"

definition q_ListInstancePage :: "string \<Rightarrow> string \<Rightarrow> int \<Rightarrow> db \<Rightarrow> instance_row list" where
  "q_ListInstancePage ws i limit d =
     sql_limit limit (sort_key ir_id (filter (\<lambda>r. ir_workspace_id r = ws \<and> i < ir_id r) (instances d)))"

definition q_ListENIAddresses :: "string \<Rightarrow> db \<Rightarrow> string list" where
  "q_ListENIAddresses sid d = sort (map er_private_ip (filter (\<lambda>r. er_subnet_id r = sid) (enis d)))"

definition q_InsertInstance ::
  "string \<Rightarrow> string \<Rightarrow> string \<Rightarrow> int \<Rightarrow> string \<Rightarrow> int \<Rightarrow> int \<Rightarrow> unit tx" where
  "q_InsertInstance i ws sid idx name created_at updated_at = (\<lambda>d.
     let r = \<lparr>ir_id = i, ir_workspace_id = ws, ir_subnet_id = sid, ir_short_index = idx, ir_name = name,
              ir_generation = 1, ir_observed_generation = 0, ir_state = ''pending'',
              ir_state_reason = [], ir_created_at = created_at, ir_updated_at = updated_at,
              ir_deletion_requested = 0, ir_runtime_id = None\<rparr> in
     if \<not> instance_check r then Inl (ErrConstraint CCheck)
     else if \<exists>n \<in> set (instances d). ir_id n = i then Inl (ErrConstraint CPrimaryKey)
     else if \<exists>n \<in> set (instances d). ir_short_index n = idx \<or> (ir_workspace_id n = ws \<and> ir_name n = name)
     then Inl (ErrConstraint CUnique)
     else if ws \<notin> set (workspaces d) \<or> idx \<notin> kr_id ` set (kernel_indexes d)
             \<or> \<not> (\<exists>s \<in> set (subnets d). subnet_key sid ws s)
     then Inl (ErrConstraint CForeignKey)
     else Inr ((), d\<lparr>instances := instances d @ [r]\<rparr>))"

definition q_InsertENI ::
  "string \<Rightarrow> string \<Rightarrow> string \<Rightarrow> string \<Rightarrow> int \<Rightarrow> string \<Rightarrow> string \<Rightarrow> int \<Rightarrow> int \<Rightarrow> unit tx" where
  "q_InsertENI i ws iid sid idx ip mac created_at updated_at = (\<lambda>d.
     let r = \<lparr>er_id = i, er_workspace_id = ws, er_instance_id = iid, er_subnet_id = sid,
              er_short_index = idx, er_private_ip = ip, er_mac_address = mac, er_generation = 1,
              er_observed_generation = 0, er_state = ''pending'', er_state_reason = [],
              er_created_at = created_at, er_updated_at = updated_at\<rparr> in
     if \<not> eni_check r then Inl (ErrConstraint CCheck)
     else if \<exists>e \<in> set (enis d). er_id e = i then Inl (ErrConstraint CPrimaryKey)
     else if \<exists>e \<in> set (enis d). er_short_index e = idx \<or> er_mac_address e = mac
               \<or> (er_subnet_id e = sid \<and> er_private_ip e = ip) \<or> er_instance_id e = iid
     then Inl (ErrConstraint CUnique)
     else if ws \<notin> set (workspaces d) \<or> idx \<notin> kr_id ` set (kernel_indexes d)
             \<or> \<not> (\<exists>n \<in> set (instances d). instance_key iid ws n)
             \<or> \<not> (\<exists>s \<in> set (subnets d). subnet_key sid ws s)
     then Inl (ErrConstraint CForeignKey)
     else Inr ((), d\<lparr>enis := enis d @ [r]\<rparr>))"

definition q_MarkInstanceTerminating :: "int \<Rightarrow> string \<Rightarrow> string \<Rightarrow> unit tx" where
  "q_MarkInstanceTerminating updated_at i ws = (\<lambda>d.
     let ns = upd (\<lambda>r. instance_key i ws r \<and> ir_deletion_requested r = 0)
                  (\<lambda>r. r\<lparr>ir_state := ''shutting-down'', ir_state_reason := [], ir_deletion_requested := 1,
                         ir_generation := ir_generation r + 1, ir_updated_at := updated_at\<rparr>) (instances d) in
     if list_all instance_check ns then Inr ((), d\<lparr>instances := ns\<rparr>) else Inl (ErrConstraint CCheck))"

definition q_UpdateInstanceStatus :: "string \<Rightarrow> string \<Rightarrow> int \<Rightarrow> int \<Rightarrow> string \<Rightarrow> string \<Rightarrow> unit tx" where
  "q_UpdateInstanceStatus state reason og updated_at i ws = (\<lambda>d.
     let ns = upd (instance_key i ws)
                  (\<lambda>r. r\<lparr>ir_state := state, ir_state_reason := reason,
                         ir_observed_generation := og, ir_updated_at := updated_at\<rparr>) (instances d) in
     if list_all instance_check ns then Inr ((), d\<lparr>instances := ns\<rparr>) else Inl (ErrConstraint CCheck))"

definition q_UpdateInstanceENIStatus :: "string \<Rightarrow> string \<Rightarrow> int \<Rightarrow> int \<Rightarrow> string \<Rightarrow> string \<Rightarrow> unit tx" where
  "q_UpdateInstanceENIStatus state reason og updated_at i ws = (\<lambda>d.
     let es = upd (eni_key i ws)
                  (\<lambda>r. r\<lparr>er_state := state, er_state_reason := reason,
                         er_observed_generation := og, er_updated_at := updated_at\<rparr>) (enis d) in
     if list_all eni_check es then Inr ((), d\<lparr>enis := es\<rparr>) else Inl (ErrConstraint CCheck))"

text \<open>The two \<open>:execrows\<close> statements return the number of rows they changed.\<close>

definition runtime_free :: "string \<Rightarrow> instance_row \<Rightarrow> bool" where
  "runtime_free rid r \<longleftrightarrow> ir_runtime_id r = None \<or> ir_runtime_id r = Some rid"

definition q_RecordRuntimeID :: "string \<Rightarrow> string \<Rightarrow> int \<Rightarrow> int tx" where
  "q_RecordRuntimeID rid i g = (\<lambda>d.
     let P = (\<lambda>r. ir_id r = i \<and> ir_generation r = g \<and> ir_deletion_requested r = 0 \<and> runtime_free rid r) in
     Inr (int (length (filter P (instances d))),
          d\<lparr>instances := upd P (\<lambda>r. r\<lparr>ir_runtime_id := Some rid\<rparr>) (instances d)\<rparr>))"

definition q_RetainTerminatingRuntimeID :: "string \<Rightarrow> string \<Rightarrow> int tx" where
  "q_RetainTerminatingRuntimeID rid i = (\<lambda>d.
     let P = (\<lambda>r. ir_id r = i \<and> ir_deletion_requested r = 1 \<and> ir_runtime_id r = None) in
     Inr (int (length (filter P (instances d))),
          d\<lparr>instances := upd P (\<lambda>r. r\<lparr>ir_runtime_id := Some rid\<rparr>) (instances d)\<rparr>))"

definition q_DeleteInstance :: "string \<Rightarrow> string \<Rightarrow> unit tx" where
  "q_DeleteInstance i ws = (\<lambda>d.
     if \<exists>n \<in> set (instances d). instance_key i ws n \<and>
          (\<exists>e \<in> set (enis d). er_instance_id e = ir_id n \<and> er_workspace_id e = ir_workspace_id n)
     then Inl (ErrConstraint CTrigger)
     else Inr ((), d\<lparr>instances := filter (\<lambda>r. \<not> instance_key i ws r) (instances d)\<rparr>))"

definition q_DeleteInstanceENI :: "string \<Rightarrow> string \<Rightarrow> unit tx" where
  "q_DeleteInstanceENI i ws = (\<lambda>d. Inr ((), d\<lparr>enis := filter (\<lambda>r. \<not> eni_key i ws r) (enis d)\<rparr>))"

section \<open>Statements on events, idempotency records and kernel indexes\<close>

text \<open>An AUTOINCREMENT key past the largest 64-bit integer is SQLite's FULL error.\<close>

definition q_InsertEvent ::
  "string \<Rightarrow> string \<Rightarrow> string \<Rightarrow> string \<Rightarrow> string \<Rightarrow> int \<Rightarrow> string \<Rightarrow> int \<Rightarrow> unit tx" where
  "q_InsertEvent ws rtype rid act state g msg created_at = (\<lambda>d.
     if event_seq d = max_int64 then Inl ErrFull
     else if ws \<notin> set (workspaces d) then Inl (ErrConstraint CForeignKey)
     else Inr ((), d\<lparr>event_seq := event_seq d + 1,
        events := events d @ [\<lparr>ev_id = event_seq d + 1, ev_workspace_id = ws, ev_resource_type = rtype,
          ev_resource_id = rid, ev_action = act, ev_state = state, ev_generation = g,
          ev_message = msg, ev_created_at = created_at\<rparr>]\<rparr>))"

definition q_EventsAfter :: "int \<Rightarrow> int \<Rightarrow> db \<Rightarrow> event_row list" where
  "q_EventsAfter i limit d = sql_limit limit (sort_key ev_id (filter (\<lambda>r. i < ev_id r) (events d)))"

definition idem_key :: "string \<Rightarrow> string \<Rightarrow> string \<Rightarrow> idem_row \<Rightarrow> bool" where
  "idem_key ws op key r \<longleftrightarrow> id_workspace_id r = ws \<and> id_operation r = op \<and> id_key r = key"

definition q_GetIdempotency :: "string \<Rightarrow> string \<Rightarrow> string \<Rightarrow> db \<Rightarrow> idem_row res" where
  "q_GetIdempotency ws op key d = one_row (idem_key ws op key) (idempotency_requests d)"

definition q_PutIdempotency :: "idem_row \<Rightarrow> unit tx" where
  "q_PutIdempotency n = (\<lambda>d.
     let same = idem_key (id_workspace_id n) (id_operation n) (id_key n) in
     if \<exists>r \<in> set (idempotency_requests d). same r
     then Inr ((), d\<lparr>idempotency_requests :=
            upd same (\<lambda>r. r\<lparr>id_payload_hash := id_payload_hash n, id_resource_id := id_resource_id n,
                id_response_json := id_response_json n, id_created_at := id_created_at n,
                id_expires_at := id_expires_at n\<rparr>) (idempotency_requests d)\<rparr>)
     else if id_workspace_id n \<notin> set (workspaces d) then Inl (ErrConstraint CForeignKey)
     else Inr ((), d\<lparr>idempotency_requests := idempotency_requests d @ [n]\<rparr>))"

text \<open>The statement of \<open>AllocateIndex\<close>; \<open>unixepoch\<close> is the database's clock.\<close>

definition q_InsertKernelIndex :: "int \<Rightarrow> string \<Rightarrow> string \<Rightarrow> int tx" where
  "q_InsertKernelIndex unixepoch kind rid = (\<lambda>d.
     if kernel_seq d = max_int64 then Inl ErrFull
     else if \<exists>k \<in> set (kernel_indexes d). kr_resource_id k = rid then Inl (ErrConstraint CUnique)
     else Inr (kernel_seq d + 1, d\<lparr>kernel_seq := kernel_seq d + 1,
        kernel_indexes := kernel_indexes d @ [\<lparr>kr_id = kernel_seq d + 1, kr_resource_kind = kind,
          kr_resource_id = rid, kr_allocated_at = unixepoch\<rparr>]\<rparr>))"

end
