(* ===== verification/Hwaddr.thy ===== *)
theory Hwaddr
  imports Json
begin

text \<open>
  Hardware addresses of the standard library's \<open>net\<close>: \<open>ParseMAC\<close> and
  \<open>HardwareAddr.String\<close>. An address is its list of bytes.
\<close>

definition xtoi2 :: "string \<Rightarrow> char option \<Rightarrow> nat option" where
  "xtoi2 s e =
     (case s of
        a # b # r \<Rightarrow>
          if r \<noteq> [] \<and> Some (hd r) \<noteq> e then None
          else (case (hexnum a, hexnum b) of (Some x, Some y) \<Rightarrow> Some (x * 16 + y) | _ \<Rightarrow> None)
      | _ \<Rightarrow> None)"

fun mac_bytes :: "char \<Rightarrow> nat \<Rightarrow> string \<Rightarrow> nat list option" where
  "mac_bytes e 0 s = Some []"
| "mac_bytes e (Suc n) s =
     (case xtoi2 s (Some e) of
        None \<Rightarrow> None
      | Some b \<Rightarrow> map_option (\<lambda>bs. b # bs) (mac_bytes e n (drop 3 s)))"

fun mac_groups :: "nat \<Rightarrow> string \<Rightarrow> nat list option" where
  "mac_groups 0 s = Some []"
| "mac_groups (Suc n) s =
     (case (xtoi2 (take 2 s) None, xtoi2 (drop 2 s) (Some CHR ''.'')) of
        (Some a, Some b) \<Rightarrow> map_option (\<lambda>bs. a # b # bs) (mac_groups n (drop 5 s))
      | _ \<Rightarrow> None)"

definition ParseMAC :: "string \<Rightarrow> nat list option" where
  "ParseMAC s =
     (if length s < 14 then None
      else if s ! 2 = CHR '':'' \<or> s ! 2 = CHR ''-'' then
        (let n = (length s + 1) div 3 in
         if (length s + 1) mod 3 \<noteq> 0 \<or> n \<notin> {6, 8, 20} then None else mac_bytes (s ! 2) n s)
      else if s ! 4 = CHR ''.'' then
        (let n = 2 * (length s + 1) div 5 in
         if (length s + 1) mod 5 \<noteq> 0 \<or> n \<notin> {6, 8, 20} then None else mac_groups (n div 2) s)
      else None)"

definition hex2 :: "nat \<Rightarrow> string" where
  "hex2 b = [hexdigit (b div 16), hexdigit (b mod 16)]"

fun mac_string :: "nat list \<Rightarrow> string" where
  "mac_string [] = []"
| "mac_string [b] = hex2 b"
| "mac_string (b # bs) = hex2 b @ CHR '':'' # mac_string bs"

lemma xtoi2_hex2: "b < 256 \<Longrightarrow> r = [] \<or> Some (hd r) = e \<Longrightarrow> xtoi2 (hex2 b @ r) e = Some b"
  by (simp add: xtoi2_def hex2_def hexnum_hexdigit div_less_iff_less_mult)

lemma mac_string_Cons:
  "bs \<noteq> [] \<Longrightarrow> mac_string (b # bs) = hex2 b @ CHR '':'' # mac_string bs"
  by (cases bs) simp_all

lemma mac_string_length: "bs \<noteq> [] \<Longrightarrow> length (mac_string bs) + 1 = 3 * length bs"
  by (induction bs rule: mac_string.induct) (simp_all add: hex2_def)

lemma mac_bytes_string:
  assumes "list_all (\<lambda>b. b < 256) bs"
  shows "mac_bytes CHR '':'' (length bs) (mac_string bs) = Some bs"
  using assms
proof (induction bs rule: mac_string.induct)
  case (2 b)
  then show ?case using xtoi2_hex2 [of b "[]"] by (simp add: hex2_def)
next
  case (3 b c bs)
  have "xtoi2 (mac_string (b # c # bs)) (Some CHR '':'') = Some b"
    using 3 xtoi2_hex2 [of b "CHR '':'' # mac_string (c # bs)"] by simp
  moreover have "drop 3 (mac_string (b # c # bs)) = mac_string (c # bs)" by (simp add: hex2_def)
  ultimately show ?case using 3 by simp
qed simp

text \<open>A printed six-byte address is read back.\<close>

lemma ParseMAC_string:
  assumes "length bs = 6" and "list_all (\<lambda>b. b < 256) bs"
  shows "ParseMAC (mac_string bs) = Some bs"
proof -
  obtain b c bs' where b: "bs = b # c # bs'" using assms(1) by (cases bs; cases "tl bs") auto
  have l: "length (mac_string bs) = 17" using mac_string_length [of bs] assms(1) b by simp
  have "mac_string bs ! 2 = CHR '':''" by (simp add: b hex2_def)
  then show ?thesis
    using mac_bytes_string [OF assms(2)] l assms(1) by (simp add: ParseMAC_def)
qed

end
