(* ===== verification/Store.thy ===== *)
theory Store
  imports Model Database Hwaddr
begin

text \<open>
  \<open>internal/store\<close>: transactions and the typed operations on the tables. The methods of
  \<open>*Tx\<close> are reads (\<open>db \<Rightarrow> 'a res\<close>) or statements of a transaction (\<open>'a tx\<close>); the methods
  of \<open>*Store\<close> map the committed tables to a result and the committed tables after it.
  Begin and commit may fail, which the first argument of \<open>WithTx\<close> says; the clock is an
  argument too.
\<close>

section \<open>Transactions\<close>

datatype fault = NoFault | BeginFault goerr | CommitFault goerr

definition WithTx :: "fault \<Rightarrow> 'a tx \<Rightarrow> db \<Rightarrow> 'a res \<times> db" where
  "WithTx f fn d =
     (case f of
        BeginFault e \<Rightarrow> (Inl (Wrapf ''begin resource transaction'' e), d)
      | _ \<Rightarrow>
          (case fn d of
             Inl e \<Rightarrow> (Inl (Wrapf ''resource transaction'' e), d)
           | Inr (x, d') \<Rightarrow>
               (case f of
                  CommitFault e \<Rightarrow> (Inl (Wrapf ''commit resource transaction'' e), d)
                | _ \<Rightarrow> (Inr x, d'))))"

text \<open>A statement outside a transaction commits by itself.\<close>

definition autocommit :: "'a tx \<Rightarrow> db \<Rightarrow> 'a res \<times> db" where
  "autocommit fn d = (case fn d of Inl e \<Rightarrow> (Inl e, d) | Inr (x, d') \<Rightarrow> (Inr x, d'))"

definition IsUniqueViolation :: "goerr \<Rightarrow> bool" where
  "IsUniqueViolation e \<longleftrightarrow> as_constraint e = Some CUnique"

definition IsForeignKeyViolation :: "goerr \<Rightarrow> bool" where
  "IsForeignKeyViolation e \<longleftrightarrow> as_constraint e = Some CForeignKey"

section \<open>VPCs and subnets\<close>

definition vpcFromRow :: "vpc_row \<Rightarrow> VPC res" where
  "vpcFromRow r =
     (let bad = Inl (Errorf (''VPC '' @ vr_id r @ '' has corrupt CIDR block '' @ Quote (vr_cidr_block r))) in
      case ParsePrefix (vr_cidr_block r) of
        None \<Rightarrow> bad
      | Some p \<Rightarrow>
          if \<not> Is4 (Addr p) then bad
          else Inr \<lparr>vpc_ID = vr_id r, vpc_WorkspaceID = vr_workspace_id r, vpc_Name = vr_name r,
            vpc_CIDRBlock = p, vpc_ShortIndex = vr_short_index r, vpc_State = vr_state r,
            vpc_StateReason = vr_state_reason r, vpc_DeletionRequested = (vr_deletion_requested r \<noteq> 0),
            vpc_Generation = vr_generation r, vpc_ObservedGeneration = vr_observed_generation r\<rparr>)"

definition subnetFromRow :: "subnet_row \<Rightarrow> Subnet res" where
  "subnetFromRow r =
     (let bad = Inl (Errorf (''subnet '' @ sr_id r @ '' has corrupt CIDR block '' @ Quote (sr_cidr_block r))) in
      case ParsePrefix (sr_cidr_block r) of
        None \<Rightarrow> bad
      | Some p \<Rightarrow>
          if \<not> Is4 (Addr p) then bad
          else Inr \<lparr>sub_ID = sr_id r, sub_WorkspaceID = sr_workspace_id r, sub_VPCID = sr_vpc_id r,
            sub_Name = sr_name r, sub_CIDRBlock = p, sub_AvailabilityZone = sr_availability_zone r,
            sub_ShortIndex = sr_short_index r, sub_State = sr_state r, sub_StateReason = sr_state_reason r,
            sub_DeletionRequested = (sr_deletion_requested r \<noteq> 0), sub_Generation = sr_generation r,
            sub_ObservedGeneration = sr_observed_generation r\<rparr>)"

definition tx_AllocateIndex :: "int \<Rightarrow> string \<Rightarrow> string \<Rightarrow> int tx" where
  "tx_AllocateIndex unixepoch kind rid =
     tx_wrap (''allocate '' @ kind @ '' kernel index'') (q_InsertKernelIndex unixepoch kind rid)"

definition tx_InsertVPC :: "VPC \<Rightarrow> int \<Rightarrow> unit tx" where
  "tx_InsertVPC v now =
     tx_wrap (''insert VPC '' @ vpc_ID v)
       (q_InsertVPC (vpc_ID v) (vpc_WorkspaceID v) (vpc_ShortIndex v) (vpc_Name v)
          (prefix_string (vpc_CIDRBlock v)) now now)"

definition tx_InsertSubnet :: "Subnet \<Rightarrow> int \<Rightarrow> unit tx" where
  "tx_InsertSubnet s now =
     tx_wrap (''insert subnet '' @ sub_ID s)
       (q_InsertSubnet (sub_ID s) (sub_WorkspaceID s) (sub_VPCID s) (sub_ShortIndex s) (sub_Name s)
          (prefix_string (sub_CIDRBlock s)) (sub_AvailabilityZone s) now now)"

definition store_GetVPC :: "string \<Rightarrow> string \<Rightarrow> db \<Rightarrow> VPC res" where
  "store_GetVPC ws i d = res_bind (res_wrap (''get VPC '' @ i) (q_GetVPC i ws d)) vpcFromRow"

definition tx_GetVPC :: "string \<Rightarrow> string \<Rightarrow> db \<Rightarrow> VPC res" where
  "tx_GetVPC ws i d = res_bind (res_wrap (''get VPC '' @ i) (q_GetVPC i ws d)) vpcFromRow"

definition tx_GetVPCByName :: "string \<Rightarrow> string \<Rightarrow> db \<Rightarrow> VPC res" where
  "tx_GetVPCByName ws name d =
     res_bind (res_wrap (''get VPC name '' @ Quote name) (q_GetVPCByName ws name d)) vpcFromRow"

definition store_ListVPCPage :: "string \<Rightarrow> string \<Rightarrow> int \<Rightarrow> db \<Rightarrow> VPC list res" where
  "store_ListVPCPage ws after limit d = res_mapM vpcFromRow (q_ListVPCPage ws after limit d)"

definition store_GetSubnet :: "string \<Rightarrow> string \<Rightarrow> db \<Rightarrow> Subnet res" where
  "store_GetSubnet ws i d = res_bind (res_wrap (''get subnet '' @ i) (q_GetSubnet i ws d)) subnetFromRow"

definition tx_GetSubnet :: "string \<Rightarrow> string \<Rightarrow> db \<Rightarrow> Subnet res" where
  "tx_GetSubnet ws i d = res_bind (res_wrap (''get subnet '' @ i) (q_GetSubnet i ws d)) subnetFromRow"

definition tx_GetSubnetByName :: "string \<Rightarrow> string \<Rightarrow> db \<Rightarrow> Subnet res" where
  "tx_GetSubnetByName ws name d =
     res_bind (res_wrap (''get subnet name '' @ Quote name) (q_GetSubnetByName ws name d)) subnetFromRow"

definition store_ListSubnetPage :: "string \<Rightarrow> string \<Rightarrow> int \<Rightarrow> db \<Rightarrow> Subnet list res" where
  "store_ListSubnetPage ws after limit d = res_mapM subnetFromRow (q_ListSubnetPage ws after limit d)"

definition tx_ListSubnetsByVPC :: "string \<Rightarrow> db \<Rightarrow> Subnet list res" where
  "tx_ListSubnetsByVPC vid d = res_mapM subnetFromRow (q_ListSubnetsByVPC vid d)"

definition store_ListSubnetsByVPC :: "string \<Rightarrow> db \<Rightarrow> Subnet list res" where
  "store_ListSubnetsByVPC vid d = res_mapM subnetFromRow (q_ListSubnetsByVPC vid d)"

definition tx_CountInstancesInSubnet :: "string \<Rightarrow> db \<Rightarrow> int" where
  "tx_CountInstancesInSubnet sid d = q_CountInstancesInSubnet sid d"

definition tx_MarkVPCDeleting :: "string \<Rightarrow> string \<Rightarrow> int \<Rightarrow> VPC tx" where
  "tx_MarkVPCDeleting ws i now =
     tx_bind (tx_wrap (''mark VPC '' @ i @ '' deleting'') (q_MarkVPCDeleting now i ws))
       (\<lambda>_. tx_read (tx_GetVPC ws i))"

definition tx_MarkSubnetDeleting :: "string \<Rightarrow> string \<Rightarrow> int \<Rightarrow> Subnet tx" where
  "tx_MarkSubnetDeleting ws i now =
     tx_bind (tx_wrap (''mark subnet '' @ i @ '' deleting'') (q_MarkSubnetDeleting now i ws))
       (\<lambda>_. tx_read (tx_GetSubnet ws i))"

section \<open>Idempotency records\<close>

definition tx_GetIdempotency :: "string \<Rightarrow> string \<Rightarrow> string \<Rightarrow> db \<Rightarrow> idem_row res" where
  "tx_GetIdempotency ws op key d = res_wrap ''get idempotency key'' (q_GetIdempotency ws op key d)"

definition tx_PutIdempotency :: "idem_row \<Rightarrow> unit tx" where
  "tx_PutIdempotency r = tx_wrap ''put idempotency key'' (q_PutIdempotency r)"

section \<open>Events\<close>

definition tx_AppendEvent ::
  "string \<Rightarrow> string \<Rightarrow> string \<Rightarrow> string \<Rightarrow> string \<Rightarrow> int \<Rightarrow> string \<Rightarrow> int \<Rightarrow> unit tx" where
  "tx_AppendEvent ws rtype rid act state g msg created_at =
     tx_wrap (''append '' @ act @ '' event for '' @ rid)
       (q_InsertEvent ws rtype rid act state g msg created_at)"

definition store_EventsAfter :: "int \<Rightarrow> int \<Rightarrow> db \<Rightarrow> event_row list res" where
  "store_EventsAfter i limit d =
     (if i < 0 \<or> limit < 1 \<or> 100 < limit then Inl (Errorf ''invalid event cursor or limit'')
      else Inr (q_EventsAfter i limit d))"

section \<open>Instances\<close>

definition validENIMAC :: "string \<Rightarrow> nat list res" where
  "validENIMAC raw =
     (case ParseMAC raw of
        None \<Rightarrow> Inl (Wrapf (''decode ENI MAC '' @ Quote raw) (Errorf ''invalid MAC address''))
      | Some mac \<Rightarrow>
          if length mac \<noteq> 6 \<or> hd mac mod 4 \<noteq> 2
          then Inl (Errorf (''ENI MAC '' @ Quote raw @ '' must be locally administered unicast''))
          else Inr mac)"

definition tx_InsertInstanceWithENI :: "Instance \<Rightarrow> ENI \<Rightarrow> int \<Rightarrow> unit tx" where
  "tx_InsertInstanceWithENI n e now =
     tx_bind (tx_guard (eni_InstanceID e = inst_ID n \<and> eni_SubnetID e = inst_SubnetID n
                        \<and> eni_WorkspaceID e = inst_WorkspaceID n)
                (Errorf (''insert instance '' @ inst_ID n @ '': primary ENI identity mismatch''))) (\<lambda>_.
     tx_bind (tx_guard (Is4 (eni_PrivateIP e))
                (Errorf (''insert ENI '' @ eni_ID e @ '': invalid IPv4 address''))) (\<lambda>_.
     tx_bind (tx_read (\<lambda>d. validENIMAC (eni_MACAddress e))) (\<lambda>_.
     tx_bind (tx_wrap (''insert instance '' @ inst_ID n)
                (q_InsertInstance (inst_ID n) (inst_WorkspaceID n) (inst_SubnetID n) (inst_ShortIndex n)
                   (inst_Name n) now now)) (\<lambda>_.
     tx_wrap (''insert ENI '' @ eni_ID e)
       (q_InsertENI (eni_ID e) (eni_WorkspaceID e) (eni_InstanceID e) (eni_SubnetID e)
          (eni_ShortIndex e) (addr_string (eni_PrivateIP e)) (eni_MACAddress e) now now)))))"

definition tx_instanceFromRow :: "instance_row \<Rightarrow> db \<Rightarrow> Instance res" where
  "tx_instanceFromRow r d =
     res_bind (res_wrap (''get primary ENI for '' @ ir_id r)
                 (q_GetPrimaryENI (ir_id r) (ir_workspace_id r) d)) (\<lambda>e.
     res_bind (case ParseAddr (er_private_ip e) of
                 None \<Rightarrow> Inl (Wrapf (''decode ENI '' @ er_id e @ '' private address'') (Errorf ''ParseAddr''))
               | Some a \<Rightarrow> Inr a) (\<lambda>address.
     res_bind (res_guard (Is4 address) (Errorf (''decode ENI '' @ er_id e @ '': not IPv4''))) (\<lambda>_.
     res_bind (validENIMAC (er_mac_address e)) (\<lambda>_.
     Inr \<lparr>inst_ID = ir_id r, inst_WorkspaceID = ir_workspace_id r, inst_SubnetID = ir_subnet_id r,
       inst_ShortIndex = ir_short_index r, inst_Name = ir_name r, inst_InstanceType = ''t3.micro'',
       inst_State = ir_state r, inst_StateReason = ir_state_reason r, inst_Generation = ir_generation r,
       inst_ObservedGeneration = ir_observed_generation r,
       inst_DeletionRequested = (ir_deletion_requested r \<noteq> 0),
       inst_RuntimeID = (case ir_runtime_id r of None \<Rightarrow> [] | Some x \<Rightarrow> x),
       inst_ENI = \<lparr>eni_ID = er_id e, eni_WorkspaceID = er_workspace_id e, eni_InstanceID = er_instance_id e,
         eni_SubnetID = er_subnet_id e, eni_ShortIndex = er_short_index e, eni_PrivateIP = address,
         eni_MACAddress = er_mac_address e, eni_Generation = er_generation e,
         eni_ObservedGeneration = er_observed_generation e, eni_State = er_state e,
         eni_StateReason = er_state_reason e\<rparr>\<rparr>))))"

definition tx_GetInstance :: "string \<Rightarrow> string \<Rightarrow> db \<Rightarrow> Instance res" where
  "tx_GetInstance ws i d =
     res_bind (res_wrap (''get instance '' @ i) (q_GetInstance i ws d)) (\<lambda>r. tx_instanceFromRow r d)"

definition store_GetInstance :: "fault \<Rightarrow> string \<Rightarrow> string \<Rightarrow> db \<Rightarrow> Instance res" where
  "store_GetInstance f ws i d = fst (WithTx f (tx_read (tx_GetInstance ws i)) d)"

definition tx_GetInstanceByName :: "string \<Rightarrow> string \<Rightarrow> db \<Rightarrow> Instance res" where
  "tx_GetInstanceByName ws name d =
     res_bind (res_wrap (''get instance name '' @ Quote name) (q_GetInstanceByName ws name d))
       (\<lambda>r. tx_instanceFromRow r d)"

definition store_ListInstancePage :: "fault \<Rightarrow> string \<Rightarrow> string \<Rightarrow> int \<Rightarrow> db \<Rightarrow> Instance list res" where
  "store_ListInstancePage f ws after limit d =
     fst (WithTx f (tx_read (\<lambda>d. res_mapM (\<lambda>r. tx_instanceFromRow r d) (q_ListInstancePage ws after limit d))) d)"

definition tx_ENIAddresses :: "string \<Rightarrow> db \<Rightarrow> addr list res" where
  "tx_ENIAddresses sid d =
     res_mapM (\<lambda>raw.
         case ParseAddr raw of
           None \<Rightarrow> Inl (Wrapf (''decode ENI private address '' @ Quote raw) (Errorf ''ParseAddr''))
         | Some a \<Rightarrow>
             if Is4 a then Inr a
             else Inl (Errorf (''decode ENI private address '' @ Quote raw @ '': not IPv4'')))
       (q_ListENIAddresses sid d)"

definition tx_MarkInstanceTerminating :: "string \<Rightarrow> string \<Rightarrow> int \<Rightarrow> unit tx" where
  "tx_MarkInstanceTerminating ws i now =
     tx_wrap (''mark instance '' @ i @ '' terminating'') (q_MarkInstanceTerminating now i ws)"

definition store_RecordRuntimeID :: "string \<Rightarrow> int \<Rightarrow> string \<Rightarrow> db \<Rightarrow> unit res \<times> db" where
  "store_RecordRuntimeID i g rid d =
     (if rid = [] then (Inl (Errorf (''record instance '' @ i @ '' runtime: empty ID'')), d)
      else (case autocommit (tx_wrap (''record instance '' @ i @ '' runtime'') (q_RecordRuntimeID rid i g)) d of
          (Inl e, d') \<Rightarrow> (Inl e, d')
        | (Inr count, d') \<Rightarrow> (if count \<noteq> 1 then Inl ErrStaleSnapshot else Inr (), d')))"

definition store_RetainTerminatingRuntimeID :: "string \<Rightarrow> string \<Rightarrow> db \<Rightarrow> unit res \<times> db" where
  "store_RetainTerminatingRuntimeID i rid d =
     (if rid = [] then (Inl (Errorf ''cannot retain an empty runtime ID''), d)
      else (case autocommit (tx_wrap (''retain terminating runtime '' @ i) (q_RetainTerminatingRuntimeID rid i)) d of
          (Inl e, d') \<Rightarrow> (Inl e, d')
        | (Inr count, d') \<Rightarrow> (if count \<noteq> 1 then Inl ErrStaleSnapshot else Inr (), d')))"

section \<open>Recording what was observed\<close>

definition tx_recordVPCStatus :: "VPC \<Rightarrow> state \<Rightarrow> string \<Rightarrow> bool \<Rightarrow> int \<Rightarrow> unit tx" where
  "tx_recordVPCStatus v state reason observed now =
     (let g = (if observed then vpc_Generation v else vpc_ObservedGeneration v) in
      if vpc_State v = state \<and> vpc_StateReason v = reason \<and> vpc_ObservedGeneration v = g then tx_return ()
      else tx_bind (tx_wrap (''update VPC '' @ vpc_ID v @ '' status'')
                      (q_UpdateVPCStatus state reason g now (vpc_ID v) (vpc_WorkspaceID v))) (\<lambda>_.
           tx_AppendEvent (vpc_WorkspaceID v) ''vpc'' (vpc_ID v) ''status'' state (vpc_Generation v) reason now))"

definition tx_recordSubnetStatus :: "Subnet \<Rightarrow> state \<Rightarrow> string \<Rightarrow> bool \<Rightarrow> int \<Rightarrow> unit tx" where
  "tx_recordSubnetStatus s state reason observed now =
     (let g = (if observed then sub_Generation s else sub_ObservedGeneration s) in
      if sub_State s = state \<and> sub_StateReason s = reason \<and> sub_ObservedGeneration s = g then tx_return ()
      else tx_bind (tx_wrap (''update subnet '' @ sub_ID s @ '' status'')
                      (q_UpdateSubnetStatus state reason g now (sub_ID s) (sub_WorkspaceID s))) (\<lambda>_.
           tx_AppendEvent (sub_WorkspaceID s) ''subnet'' (sub_ID s) ''status'' state (sub_Generation s) reason now))"

definition sameDesiredChildren :: "Subnet list \<Rightarrow> Subnet list \<Rightarrow> bool" where
  "sameDesiredChildren current applied \<longleftrightarrow>
     length current = length applied \<and>
     list_all2 (\<lambda>c a. sub_ID c = sub_ID a \<and> sub_Generation c = sub_Generation a \<and>
                      sub_DeletionRequested c = sub_DeletionRequested a \<and> sub_ShortIndex c = sub_ShortIndex a)
       current applied"

text \<open>The error of the engine call is the text of \<open>effectErr.Error()\<close>, none for nil.\<close>

definition recordChild :: "state \<Rightarrow> string \<Rightarrow> string option \<Rightarrow> int \<Rightarrow> Subnet \<Rightarrow> unit tx" where
  "recordChild state reason effect now c =
     (if sub_DeletionRequested c \<and> effect = None
      then tx_bind (tx_wrap (''delete subnet row '' @ sub_ID c) (q_DeleteSubnet (sub_ID c) (sub_WorkspaceID c))) (\<lambda>_.
           tx_AppendEvent (sub_WorkspaceID c) ''subnet'' (sub_ID c) ''deleted'' ''deleted'' (sub_Generation c) [] now)
      else tx_recordSubnetStatus c state reason (effect = None) now)"

definition tx_RecordTopology :: "int \<Rightarrow> VPC \<Rightarrow> Subnet list \<Rightarrow> string option \<Rightarrow> unit tx" where
  "tx_RecordTopology now vpc applied effect =
     tx_bind (tx_try (tx_GetVPC (vpc_WorkspaceID vpc) (vpc_ID vpc))) (\<lambda>got.
     case got of
       Inl e \<Rightarrow> tx_fail (if err_is ErrNoRows e then ErrStaleSnapshot else e)
     | Inr current \<Rightarrow>
         tx_bind (tx_guard (vpc_Generation current = vpc_Generation vpc
                            \<and> vpc_DeletionRequested current = vpc_DeletionRequested vpc
                            \<and> vpc_ShortIndex current = vpc_ShortIndex vpc) ErrStaleSnapshot) (\<lambda>_.
         tx_bind (tx_read (tx_ListSubnetsByVPC (vpc_ID vpc))) (\<lambda>children.
         tx_bind (tx_guard (sameDesiredChildren children applied) ErrStaleSnapshot) (\<lambda>_.
         if vpc_DeletionRequested vpc \<and> effect = None
         then tx_bind (tx_guard (children = [])
                         (Errorf (''cannot delete VPC '' @ vpc_ID vpc @ '' with subnets''))) (\<lambda>_.
              tx_bind (tx_wrap (''delete VPC row '' @ vpc_ID vpc) (q_DeleteVPC (vpc_ID vpc) (vpc_WorkspaceID vpc))) (\<lambda>_.
              tx_AppendEvent (vpc_WorkspaceID vpc) ''vpc'' (vpc_ID vpc) ''deleted'' ''deleted'' (vpc_Generation vpc) [] now))
         else
           (let state = (case effect of None \<Rightarrow> StateAvailable | Some _ \<Rightarrow> StateFailed);
                reason = (case effect of None \<Rightarrow> [] | Some t \<Rightarrow> t) in
            tx_bind (tx_recordVPCStatus current state reason (effect = None) now) (\<lambda>_.
            tx_iter (recordChild state reason effect now) children))))))"

definition store_RecordTopology ::
  "goerr option \<Rightarrow> fault \<Rightarrow> int \<Rightarrow> VPC \<Rightarrow> Subnet list \<Rightarrow> string option \<Rightarrow> db \<Rightarrow> unit res \<times> db" where
  "store_RecordTopology ctx_err f now vpc applied effect d =
     (case ctx_err of
        Some e \<Rightarrow> (Inl e, d)
      | None \<Rightarrow> WithTx f (tx_RecordTopology now vpc applied effect) d)"

definition sameInstanceDecision :: "Instance \<Rightarrow> Instance \<Rightarrow> bool" where
  "sameInstanceDecision c s \<longleftrightarrow>
     inst_ID c = inst_ID s \<and> inst_WorkspaceID c = inst_WorkspaceID s \<and>
     inst_Generation c = inst_Generation s \<and> inst_DeletionRequested c = inst_DeletionRequested s \<and>
     inst_SubnetID c = inst_SubnetID s \<and> inst_ShortIndex c = inst_ShortIndex s \<and>
     inst_RuntimeID c = inst_RuntimeID s \<and> eni_ID (inst_ENI c) = eni_ID (inst_ENI s) \<and>
     eni_ShortIndex (inst_ENI c) = eni_ShortIndex (inst_ENI s) \<and>
     eni_PrivateIP (inst_ENI c) = eni_PrivateIP (inst_ENI s)"

definition tx_RecordInstance :: "int \<Rightarrow> Instance \<Rightarrow> state \<Rightarrow> string \<Rightarrow> bool \<Rightarrow> unit tx" where
  "tx_RecordInstance now snapshot status reason observed =
     tx_bind (tx_try (tx_GetInstance (inst_WorkspaceID snapshot) (inst_ID snapshot))) (\<lambda>got.
     case got of
       Inl e \<Rightarrow> tx_fail (if err_is ErrNoRows e then ErrStaleSnapshot else e)
     | Inr current \<Rightarrow>
         tx_bind (tx_guard (sameInstanceDecision current snapshot) ErrStaleSnapshot) (\<lambda>_.
         let g = (if observed then inst_Generation current else inst_ObservedGeneration current) in
         if inst_State current = status \<and> inst_StateReason current = reason
            \<and> inst_ObservedGeneration current = g
         then tx_return ()
         else
           tx_bind (tx_wrap (''record instance '' @ inst_ID current @ '' status'')
                      (q_UpdateInstanceStatus status reason g now (inst_ID current) (inst_WorkspaceID current))) (\<lambda>_.
           tx_bind (if inst_DeletionRequested current then tx_return ()
                    else tx_wrap (''record ENI '' @ eni_ID (inst_ENI current) @ '' status'')
                           (q_UpdateInstanceENIStatus (if observed then StateAvailable else StateFailed) reason
                              (if observed then eni_Generation (inst_ENI current)
                               else eni_ObservedGeneration (inst_ENI current))
                              now (eni_ID (inst_ENI current)) (inst_WorkspaceID current))) (\<lambda>_.
           tx_AppendEvent (inst_WorkspaceID current) ''instance'' (inst_ID current) ''status'' status
             (inst_Generation current) reason now))))"

definition store_RecordInstance ::
  "fault \<Rightarrow> int \<Rightarrow> Instance \<Rightarrow> state \<Rightarrow> string \<Rightarrow> bool \<Rightarrow> db \<Rightarrow> unit res \<times> db" where
  "store_RecordInstance f now snapshot status reason observed d =
     (if status \<noteq> InstanceRunning \<and> status \<noteq> InstanceFailed
      then (Inl (Errorf (''invalid reconciled instance status '' @ Quote status)), d)
      else if observed \<and> (status \<noteq> InstanceRunning \<or> inst_RuntimeID snapshot = [] \<or> inst_DeletionRequested snapshot)
      then (Inl (Errorf (''cannot observe instance '' @ inst_ID snapshot @ '' as '' @ status)), d)
      else WithTx f (tx_RecordInstance now snapshot status reason observed) d)"

definition tx_FinishInstanceTermination :: "int \<Rightarrow> Instance \<Rightarrow> unit tx" where
  "tx_FinishInstanceTermination now snapshot =
     tx_bind (tx_try (tx_GetInstance (inst_WorkspaceID snapshot) (inst_ID snapshot))) (\<lambda>got.
     case got of
       Inl e \<Rightarrow> tx_fail (if err_is ErrNoRows e then ErrStaleSnapshot else e)
     | Inr current \<Rightarrow>
         tx_bind (tx_guard (sameInstanceDecision current snapshot \<and> inst_DeletionRequested current)
                    ErrStaleSnapshot) (\<lambda>_.
         tx_bind (tx_wrap (''delete ENI '' @ eni_ID (inst_ENI current) @ '' row'')
                    (q_DeleteInstanceENI (eni_ID (inst_ENI current)) (inst_WorkspaceID current))) (\<lambda>_.
         tx_bind (tx_wrap (''delete instance '' @ inst_ID current @ '' row'')
                    (q_DeleteInstance (inst_ID current) (inst_WorkspaceID current))) (\<lambda>_.
         tx_AppendEvent (inst_WorkspaceID current) ''instance'' (inst_ID current) ''deleted'' ''deleted''
           (inst_Generation current) [] now))))"

definition store_FinishInstanceTermination :: "fault \<Rightarrow> int \<Rightarrow> Instance \<Rightarrow> db \<Rightarrow> unit res \<times> db" where
  "store_FinishInstanceTermination f now snapshot d = WithTx f (tx_FinishInstanceTermination now snapshot) d"

end
