(* ===== verification/Validate.thy ===== *)
theory Validate
  imports NetipFacts
begin

text \<open>
  \<open>internal/service\<close>: \<open>errors.go\<close>, \<open>validate.go\<close>, \<open>ipam.go\<close>, \<open>ids.go\<close> and
  \<open>pagination.go\<close>. The lemmas say what the checks decide in terms of sets of addresses,
  that \<open>nextPrivateIP\<close> returns the lowest free address, and that page tokens and
  identifiers are read back.
\<close>

unbundle bit_operations_syntax

section \<open>errors.go\<close>

definition Error_string :: "string \<Rightarrow> string \<Rightarrow> string \<Rightarrow> string" where
  "Error_string code message rid =
     (if rid \<noteq> [] then code @ '': '' @ message @ '' ('' @ rid @ '')'' else code @ '': '' @ message)"

definition invalidParameter :: "string \<Rightarrow> goerr" where
  "invalidParameter message = ServiceError ''InvalidParameterValue'' message [] 400"

section \<open>validate.go\<close>

definition ParseCIDR :: "string \<Rightarrow> prefix res" where
  "ParseCIDR raw =
     (case ParsePrefix raw of
        None \<Rightarrow> Inl (invalidParameter (''invalid CIDR block '' @ Quote raw))
      | Some p \<Rightarrow>
          if \<not> Is4 (Addr p) \<or> Bits p < 16 \<or> Bits p > 28
          then Inl (invalidParameter ''CIDR block must be IPv4 with a prefix length from /16 to /28'')
          else Inr (Masked p))"

definition ValidateName :: "string \<Rightarrow> string res" where
  "ValidateName raw =
     (if \<not> ValidString raw then Inl (invalidParameter ''name must be valid UTF-8'')
      else
        (let name = TrimSpace raw; count = RuneCountInString name in
         if count < 1 \<or> count > 255 then Inl (invalidParameter ''name must have 1 to 255 Unicode characters'')
         else if list_ex IsControl (runes name)
         then Inl (invalidParameter ''name must not contain control characters'')
         else Inr name))"

definition ValidateSubnetRange :: "prefix \<Rightarrow> prefix \<Rightarrow> unit res" where
  "ValidateSubnetRange vpc subnet =
     (if \<not> IsValid vpc \<or> \<not> IsValid subnet \<or> \<not> Is4 (Addr vpc) \<or> \<not> Is4 (Addr subnet)
         \<or> Bits vpc > Bits subnet \<or> \<not> Contains (Masked vpc) (Addr (Masked subnet))
      then Inl (ServiceError ''InvalidSubnet.Range'' ''subnet CIDR must be contained in the VPC CIDR'' [] 400)
      else Inr ())"

definition Overlaps :: "prefix \<Rightarrow> prefix \<Rightarrow> bool" where
  "Overlaps a b =
     (if \<not> IsValid a \<or> \<not> IsValid b \<or> \<not> Is4 (Addr a) \<or> \<not> Is4 (Addr b) then False
      else Contains (Masked a) (Addr (Masked b)) \<or> Contains (Masked b) (Addr (Masked a)))"

fun ValidateSubnetDisjoint :: "prefix \<Rightarrow> prefix list \<Rightarrow> unit res" where
  "ValidateSubnetDisjoint subnet [] = Inr ()"
| "ValidateSubnetDisjoint subnet (sibling # siblings) =
     (if Overlaps subnet sibling
      then Inl (ServiceError ''InvalidSubnet.Conflict'' ''subnet CIDR overlaps an existing subnet'' [] 409)
      else ValidateSubnetDisjoint subnet siblings)"

definition Gateway :: "prefix \<Rightarrow> addr" where
  "Gateway p = (if \<not> IsValid p \<or> \<not> Is4 (Addr p) then AddrZero else Next (Addr (Masked p)))"

definition firstAssignable :: "prefix \<Rightarrow> addr" where
  "firstAssignable p =
     (if \<not> IsValid p \<or> \<not> Is4 (Addr p) then AddrZero else (Next ^^ 4) (Addr (Masked p)))"

text \<open>\<open>As4\<close> does not panic here: both addresses are IPv4.\<close>

definition reservedAddress :: "prefix \<Rightarrow> addr \<Rightarrow> bool" where
  "reservedAddress p a =
     (if \<not> IsValid p \<or> \<not> Is4 (Addr p) \<or> Bits p < 16 \<or> Bits p > 28 \<or> \<not> Is4 a \<or> \<not> Contains p a then False
      else (case (As4 (Addr (Masked p)), As4 a) of
          (Some base, Some ip) \<Rightarrow>
            (let offset = BigEndianUint32 ip - BigEndianUint32 base;
                 last = push_bit (32 - nat (Bits p)) 1 - 1 in
             offset \<le> 3 \<or> offset = last)
        | _ \<Rightarrow> False))"

section \<open>ipam.go\<close>

text \<open>The loop of \<open>nextPrivateIP\<close>; its fuel is the size of the largest subnet.\<close>

fun ipam_loop :: "nat \<Rightarrow> addr \<Rightarrow> addr \<Rightarrow> addr list \<Rightarrow> addr res" where
  "ipam_loop 0 ip broadcast used = Inl OutOfFuel"
| "ipam_loop (Suc n) ip broadcast used =
     (if ip = broadcast then Inl ErrAddressExhausted
      else if ip \<notin> set used then Inr ip
      else ipam_loop n (Next ip) broadcast used)"

definition nextPrivateIP :: "prefix \<Rightarrow> addr list \<Rightarrow> addr res" where
  "nextPrivateIP p used =
     (if \<not> IsValid p \<or> \<not> Is4 (Addr p) \<or> Bits p < 16 \<or> Bits p > 28 \<or> p \<noteq> Masked p
      then Inl (Errorf ''IPAM requires a canonical IPv4 /16 through /28 subnet'')
      else
        (let base = Addr p;
             first = Next (Next (Next (Next base))) in
         case As4 base of
           None \<Rightarrow> Inl (Errorf ''As4 called on IP zero value'')
         | Some octets \<Rightarrow>
             (let last = BigEndianUint32 octets OR (push_bit (32 - nat (Bits p)) 1 - 1);
                  broadcast = AddrFrom4 (bytes4 last) in
              ipam_loop (2 ^ 16) first broadcast used)))"

section \<open>ids.go\<close>

definition validIDPrefix :: "string \<Rightarrow> bool" where
  "validIDPrefix p =
     (if length p < 2 \<or> \<not> HasSuffix p ''-'' then False
      else if \<not> list_all (\<lambda>c. (97 \<le> byte c \<and> byte c \<le> 122) \<or> is_digit c \<or> c = CHR ''-'') (butlast p)
      then False
      else 97 \<le> byte (hd p) \<and> byte (hd p) \<le> 122)"

text \<open>
  The source of random bytes fails, or gives the bytes it has; \<open>io.ReadFull\<close> of too few
  is \<open>EOF\<close> or \<open>ErrUnexpectedEOF\<close>.
\<close>

definition ReadFull :: "nat \<Rightarrow> bytes res \<Rightarrow> bytes res" where
  "ReadFull n reader =
     res_bind reader (\<lambda>bs.
       if n \<le> length bs then Inr (take n bs)
       else if bs = [] then Inl ErrEOF else Inl (Errorf ''unexpected EOF''))"

definition NewID :: "string \<Rightarrow> bytes res \<Rightarrow> string res" where
  "NewID p random =
     (if \<not> validIDPrefix p then Inl (invalidParameter ''invalid resource ID prefix'')
      else res_bind (res_wrap (''generate '' @ p @ '' ID'') (ReadFull 9 random)) (\<lambda>entropy.
             Inr (p @ take 17 (hexEncode entropy))))"

section \<open>pagination.go\<close>

definition pageSize :: "int \<Rightarrow> int res" where
  "pageSize limit =
     (if limit = 0 then Inr 50
      else if limit < 1 \<or> limit > 100 then Inl (invalidParameter ''limit must be from 1 to 100'')
      else Inr limit)"

definition encodePageToken :: "string \<Rightarrow> string \<Rightarrow> string" where
  "encodePageToken kind lastID = b64Encode (kind @ '':'' @ lastID)"

definition validPageID :: "string \<Rightarrow> string \<Rightarrow> bool" where
  "validPageID kind i =
     (let p = (if kind = ''instance'' then ''i-'' else kind @ ''-'') in
      if \<not> HasPrefix i p \<or> length i \<noteq> length p + 17 then False
      else list_all (\<lambda>r. (48 \<le> r \<and> r \<le> 57) \<or> (97 \<le> r \<and> r \<le> 102)) (runes (drop (length p) i)))"

definition decodePageToken :: "string \<Rightarrow> string \<Rightarrow> string res" where
  "decodePageToken kind token =
     (if token = [] then Inr []
      else (case b64Decode token of
          None \<Rightarrow> Inl (invalidParameter ''invalid page_token'')
        | Some value \<Rightarrow>
            (let p = kind @ '':'' in
             if \<not> HasPrefix value p
             then Inl (invalidParameter ''page_token belongs to a different resource type'')
             else
               (let i = TrimPrefix value p in
                if \<not> validPageID kind i then Inl (invalidParameter ''invalid page_token'') else Inr i))))"

section \<open>What the range checks decide\<close>

text \<open>The CIDR blocks that \<open>ParseCIDR\<close> returns.\<close>

definition cidr_ok :: "prefix \<Rightarrow> bool" where
  "cidr_ok p \<longleftrightarrow> prefix4 p \<and> 16 \<le> Bits p \<and> Bits p \<le> 28 \<and> Masked p = p"

lemma cidr_ok_prefix4 [simp, intro]: "cidr_ok p \<Longrightarrow> prefix4 p"
  by (simp add: cidr_ok_def)

lemma ParsePrefix_prefix4: "ParsePrefix s = Some p \<Longrightarrow> Is4 (Addr p) \<Longrightarrow> prefix4 p"
  using ParsePrefix_canonical by blast

lemma ParseCIDR_ok: "ParseCIDR raw = Inr p \<Longrightarrow> cidr_ok p"
  by (auto simp: ParseCIDR_def cidr_ok_def Masked_idem ParsePrefix_prefix4 split: option.splits if_splits)

lemma blocks_meet:
  assumes "prefix4 a" and "prefix4 b"
  shows "(\<exists>x. Contains a x \<and> Contains b x) \<longleftrightarrow> pbase a < pbase b + psize b \<and> pbase b < pbase a + psize a"
proof
  assume "\<exists>x. Contains a x \<and> Contains b x"
  then show "pbase a < pbase b + psize b \<and> pbase b < pbase a + psize a"
    using assms by (auto simp: Contains_interval)
next
  assume h: "pbase a < pbase b + psize b \<and> pbase b < pbase a + psize a"
  have "max (pbase a) (pbase b) < 2 ^ 32"
    using h pbase_psize_le [of a] pbase_psize_le [of b] by (simp add: max_def)
  then obtain x where "Is4 x" "ip4 x = max (pbase a) (pbase b)" using ip4_surj by blast
  then have "Contains a x \<and> Contains b x"
    using assms h psize_pos [of a] psize_pos [of b] by (simp add: Contains_interval)
  then show "\<exists>x. Contains a x \<and> Contains b x" by blast
qed

lemma Overlaps_iff:
  assumes "prefix4 a" and "prefix4 b"
  shows "Overlaps a b \<longleftrightarrow> (\<exists>x. Contains a x \<and> Contains b x)"
proof -
  have 4: "Is4 (Addr a)" "Is4 (Addr b)" "Is4 (Addr (Masked a))" "Is4 (Addr (Masked b))"
    using assms Masked_prefix4(1) [of a] Masked_prefix4(1) [of b] by (simp_all add: prefix4_def)
  have "Overlaps a b \<longleftrightarrow> (pbase a \<le> pbase b \<and> pbase b < pbase a + psize a) \<or>
      (pbase b \<le> pbase a \<and> pbase a < pbase b + psize b)"
    using assms 4 by (auto simp: Overlaps_def Contains_interval)
  then show ?thesis unfolding blocks_meet [OF assms] using psize_pos [of a] psize_pos [of b] by linarith
qed

lemma ValidateSubnetDisjoint_ok:
  "ValidateSubnetDisjoint s sibs = Inr () \<longleftrightarrow> (\<forall>t \<in> set sibs. \<not> Overlaps s t)"
  by (induction sibs) auto

lemma ValidateSubnetDisjoint_error:
  "ValidateSubnetDisjoint s sibs \<in> {Inr (), Inl (ServiceError ''InvalidSubnet.Conflict'' ''subnet CIDR overlaps an existing subnet'' [] 409)}"
  by (induction sibs) auto

lemma psize_le_iff: "prefix4 a \<Longrightarrow> prefix4 b \<Longrightarrow> psize b \<le> psize a \<longleftrightarrow> Bits a \<le> Bits b"
  by (auto simp: psize_def prefix4_def)

lemma ValidateSubnetRange_ok:
  assumes "prefix4 v" and "prefix4 s"
  shows "ValidateSubnetRange v s = Inr () \<longleftrightarrow> (\<forall>x. Contains s x \<longrightarrow> Contains v x)"
proof -
  have 4: "Is4 (Addr v)" "Is4 (Addr s)" "Is4 (Addr (Masked s))"
    using assms Masked_prefix4(1) [of s] by (simp_all add: prefix4_def)
  have 1: "ValidateSubnetRange v s = Inr () \<longleftrightarrow>
      Bits v \<le> Bits s \<and> pbase v \<le> pbase s \<and> pbase s < pbase v + psize v"
    using assms 4 by (auto simp: ValidateSubnetRange_def Contains_interval)
  show ?thesis
  proof
    assume "ValidateSubnetRange v s = Inr ()"
    then have "pbase v \<le> pbase s \<and> pbase s + psize s \<le> pbase v + psize v"
      using block_nested [OF assms] psize_pos [of s] 1 by linarith
    then show "\<forall>x. Contains s x \<longrightarrow> Contains v x" using assms by (auto simp: Contains_interval)
  next
    assume h: "\<forall>x. Contains s x \<longrightarrow> Contains v x"
    have "pbase v \<le> n \<and> n < pbase v + psize v" if "pbase s \<le> n" "n < pbase s + psize s" for n
    proof -
      have "n < 2 ^ 32" using that pbase_psize_le [of s] by simp
      then obtain x where "Is4 x" "ip4 x = n" using ip4_surj by blast
      then show ?thesis using h assms that by (auto simp: Contains_interval)
    qed
    from this [of "pbase s"] this [of "pbase s + psize s - 1"]
    have b: "pbase v \<le> pbase s" "pbase s + psize s \<le> pbase v + psize v"
      using psize_pos [of s] by simp_all linarith
    then have "psize s \<le> psize v" by linarith
    then show "ValidateSubnetRange v s = Inr ()"
      unfolding 1 using b psize_le_iff [OF assms] psize_pos [of s] by linarith
  qed
qed

section \<open>Reserved addresses and allocation\<close>

lemma psize_range: "cidr_ok p \<Longrightarrow> 16 \<le> psize p \<and> psize p \<le> 2 ^ 16"
proof -
  assume p: "cidr_ok p"
  have "4 \<le> 32 - nat (Bits p)" "32 - nat (Bits p) \<le> 16" using p by (auto simp: cidr_ok_def)
  then have "(2::nat) ^ 4 \<le> psize p \<and> psize p \<le> 2 ^ 16"
    unfolding psize_def by (intro conjI power_increasing) simp_all
  then show ?thesis by simp
qed

lemma cidr_ok_base: "cidr_ok p \<Longrightarrow> ip4 (Addr p) = pbase p"
  using Masked_prefix4(4) [of p] by (simp add: cidr_ok_def)

lemma unat_host_mask: "k \<le> 16 \<Longrightarrow> unat (push_bit k 1 - 1 :: 32 word) = 2 ^ k - 1"
proof -
  assume "k \<le> 16"
  then have k: "(2::nat) ^ k \<le> 2 ^ 16" by (intro power_increasing) simp_all
  have "push_bit k 1 - 1 = (of_nat (2 ^ k - 1) :: 32 word)"
    by (simp add: push_bit_eq_mult of_nat_diff)
  then show ?thesis using k by (simp add: unat_of_nat del: of_nat_diff of_nat_power)
qed

lemma reservedAddress_iff:
  assumes "cidr_ok p" and "Contains p a"
  shows "reservedAddress p a \<longleftrightarrow> ip4 a < pbase p + 4 \<or> ip4 a = pbase p + psize p - 1"
proof -
  obtain v b where p: "p = Prefix (IP4 v) b" "16 \<le> b" "b \<le> 28"
    using assms(1) by (auto simp: cidr_ok_def elim: prefix4_cases)
  obtain w where a: "a = IP4 w"
    using assms Contains_interval [of p a] by (auto elim: Is4_cases)
  have in_p: "pbase p \<le> unat w" "unat w < pbase p + psize p"
    using assms a by (auto simp: Contains_interval)
  have base: "Masked p = p" "unat v = pbase p"
    using assms(1) cidr_ok_base [OF assms(1)] p by (auto simp: cidr_ok_def)
  have off: "unat (w - v) = unat w - pbase p"
    using in_p base by (simp add: unat_sub word_le_nat_alt)
  have last: "unat (push_bit (32 - nat b) 1 - 1 :: 32 word) = psize p - 1"
    using p by (subst unat_host_mask) (simp_all add: psize_def)
  have "reservedAddress p a \<longleftrightarrow> w - v \<le> 3 \<or> w - v = push_bit (32 - nat b) 1 - 1"
    using assms p a base by (simp add: reservedAddress_def Let_def IsValid_def del: bytes4.simps)
  also have "\<dots> \<longleftrightarrow> unat w - pbase p \<le> 3 \<or> unat w - pbase p = psize p - 1"
    unfolding word_le_nat_alt word_unat_eq_iff off last by simp
  also have "\<dots> \<longleftrightarrow> unat w < pbase p + 4 \<or> unat w = pbase p + psize p - 1"
    using in_p psize_pos [of p] by linarith
  finally show ?thesis by (simp add: a)
qed

lemma Next_ip4:
  assumes "Is4 a" and "ip4 a + 1 < 2 ^ 32"
  shows "Is4 (Next a) \<and> ip4 (Next a) = ip4 a + 1"
proof -
  obtain w where "a = IP4 w" using assms(1) by (rule Is4_cases)
  then show ?thesis using Next_IP4 [of w] assms(2) by simp
qed

lemma ipam_loop_spec:
  assumes "Is4 ip" and "Is4 bc" and "ip4 ip \<le> ip4 bc" and "ip4 bc - ip4 ip < n"
  shows "case ipam_loop n ip bc used of
      Inr a \<Rightarrow> Is4 a \<and> ip4 ip \<le> ip4 a \<and> ip4 a < ip4 bc \<and> a \<notin> set used \<and>
        (\<forall>b. Is4 b \<and> ip4 ip \<le> ip4 b \<and> ip4 b < ip4 a \<longrightarrow> b \<in> set used)
    | Inl e \<Rightarrow> e = ErrAddressExhausted \<and>
        (\<forall>b. Is4 b \<and> ip4 ip \<le> ip4 b \<and> ip4 b < ip4 bc \<longrightarrow> b \<in> set used)"
  using assms
proof (induction n arbitrary: ip)
  case 0
  then show ?case by simp
next
  case (Suc n)
  show ?case
  proof (cases "ip = bc \<or> ip \<notin> set used")
    case True
    then show ?thesis using Suc.prems ip4_inject [of ip bc] by auto
  next
    case False
    then have lt: "ip4 ip < ip4 bc" using Suc.prems ip4_inject [of ip bc] by (simp add: le_neq_implies_less)
    then have nx: "Is4 (Next ip)" "ip4 (Next ip) = ip4 ip + 1"
      using Next_ip4 [OF Suc.prems(1)] ip4_less [of bc] by simp_all
    have step: "b \<in> set used" if "Is4 b" "ip4 ip \<le> ip4 b" "ip4 (Next ip) \<le> ip4 b \<longrightarrow> b \<in> set used" for b
      using that nx False ip4_inject [of ip b] Suc.prems(1) by (cases "ip4 b = ip4 ip") auto
    have "case ipam_loop n (Next ip) bc used of
      Inr a \<Rightarrow> Is4 a \<and> ip4 (Next ip) \<le> ip4 a \<and> ip4 a < ip4 bc \<and> a \<notin> set used \<and>
        (\<forall>b. Is4 b \<and> ip4 (Next ip) \<le> ip4 b \<and> ip4 b < ip4 a \<longrightarrow> b \<in> set used)
    | Inl e \<Rightarrow> e = ErrAddressExhausted \<and>
        (\<forall>b. Is4 b \<and> ip4 (Next ip) \<le> ip4 b \<and> ip4 b < ip4 bc \<longrightarrow> b \<in> set used)"
      using nx lt Suc.prems by (intro Suc.IH) auto
    moreover have "ipam_loop (Suc n) ip bc used = ipam_loop n (Next ip) bc used" using False by simp
    ultimately show ?thesis using step nx by (cases "ipam_loop n (Next ip) bc used") auto
  qed
qed

lemma broadcast_value:
  assumes "cidr_ok p" and "Addr p = IP4 w"
  shows "unat (w OR (push_bit (32 - nat (Bits p)) 1 - 1)) = pbase p + psize p - 1"
proof -
  define k where "k = 32 - nat (Bits p)"
  have k: "k \<le> 16" "psize p = 2 ^ k" using assms by (auto simp: cidr_ok_def k_def psize_def)
  have m: "(push_bit k 1 - 1 :: 32 word) = mask k" by (simp add: mask_eq_decr_exp push_bit_eq_mult)
  have w: "unat w = pbase p" using cidr_ok_base [OF assms(1)] assms(2) by simp
  then have "2 ^ k dvd unat w" using pbase_dvd [of p] k by simp
  then have z: "w AND mask k = 0" by (simp add: and_mask_dvd_nat)
  then have "w OR mask k = w + mask k" using word_plus_and_or [of w "mask k"] by simp
  moreover have "unat (mask k :: 32 word) = 2 ^ k - 1" using unat_host_mask [OF k(1)] m by simp
  moreover have "unat w + (2 ^ k - 1) < 2 ^ 32" using pbase_psize_le [of p] k w by simp
  ultimately have "unat (w OR mask k) = unat w + (2 ^ k - 1)" by (simp add: unat_plus_if')
  then show ?thesis unfolding m [symmetric] using k w by (simp add: k_def)
qed

lemma nextPrivateIP_spec:
  assumes "cidr_ok p"
  shows "case nextPrivateIP p used of
      Inr a \<Rightarrow> Contains p a \<and> \<not> reservedAddress p a \<and> a \<notin> set used \<and>
        (\<forall>b. Contains p b \<and> \<not> reservedAddress p b \<and> b \<notin> set used \<longrightarrow> ip4 a \<le> ip4 b)
    | Inl e \<Rightarrow> e = ErrAddressExhausted \<and> (\<forall>b. Contains p b \<and> \<not> reservedAddress p b \<longrightarrow> b \<in> set used)"
proof -
  obtain w b where p: "p = Prefix (IP4 w) b" "16 \<le> b" "b \<le> 28"
    using assms by (auto simp: cidr_ok_def elim: prefix4_cases)
  have w: "unat w = pbase p" using cidr_ok_base [OF assms] p by simp
  note sz = psize_range [OF assms] pbase_psize_le [of p]
  define first where "first = Next (Next (Next (Next (IP4 w))))"
  define bc where "bc = IP4 (w OR (push_bit (32 - nat b) 1 - 1))"
  have n: "ip4 (IP4 w) = pbase p" using w by simp
  have f1: "Is4 (Next (IP4 w))" "ip4 (Next (IP4 w)) = pbase p + 1"
    using Next_ip4 [of "IP4 w"] n sz by simp_all
  have f2: "Is4 (Next (Next (IP4 w)))" "ip4 (Next (Next (IP4 w))) = pbase p + 2"
    using Next_ip4 [OF f1(1)] f1 sz by simp_all
  have f3: "Is4 (Next (Next (Next (IP4 w))))" "ip4 (Next (Next (Next (IP4 w)))) = pbase p + 3"
    using Next_ip4 [OF f2(1)] f2 sz by simp_all
  have f4: "Is4 first" "ip4 first = pbase p + 4"
    using Next_ip4 [OF f3(1)] f3 sz by (simp_all add: first_def)
  have bcv: "ip4 bc = pbase p + psize p - 1" "Is4 bc"
    using broadcast_value [OF assms, of w] p by (simp_all add: bc_def)
  have eq: "nextPrivateIP p used = ipam_loop (2 ^ 16) first bc used"
    using assms p
    by (simp add: nextPrivateIP_def Let_def first_def bc_def IsValid_def cidr_ok_def AddrFrom4_def
        del: bytes4.simps power_numeral power_Suc Next.simps ipam_loop.simps)
  have free: "Contains p x \<and> \<not> reservedAddress p x \<longleftrightarrow> Is4 x \<and> ip4 first \<le> ip4 x \<and> ip4 x < ip4 bc" for x
  proof -
    have "Contains p x \<longleftrightarrow> Is4 x \<and> pbase p \<le> ip4 x \<and> ip4 x < pbase p + psize p"
      using assms by (simp add: Contains_interval)
    then show ?thesis using reservedAddress_iff [OF assms, of x] f4 bcv sz by auto
  qed
  have "ip4 first \<le> ip4 bc" "ip4 bc - ip4 first < 2 ^ 16" using f4 bcv sz by linarith+
  from ipam_loop_spec [OF f4(1) bcv(2) this, of used] show ?thesis
    unfolding eq [symmetric] using free by (cases "nextPrivateIP p used") (auto, metis not_less)
qed

section \<open>Identifiers and page tokens\<close>

lemma NewID_shape:
  assumes "NewID p random = Inr i"
  shows "\<exists>h. i = p @ h \<and> length h = 17 \<and> list_all is_lower_hex h"
proof -
  obtain e where "i = p @ take 17 (hexEncode e)" "length e = 9"
    using assms by (auto simp: NewID_def ReadFull_def res_bind_Inr split: if_splits)
  moreover have "list_all is_lower_hex (take 17 (hexEncode e))"
    using hexEncode_lower [of e] by (auto simp: list_all_iff dest: in_set_takeD)
  ultimately show ?thesis by auto
qed

definition id_prefix :: "string \<Rightarrow> string" where
  "id_prefix kind = (if kind = ''instance'' then ''i-'' else kind @ ''-'')"

lemma lower_hex_ascii: "list_all is_lower_hex s \<Longrightarrow> list_all (\<lambda>c. byte c < 0x80) s"
  by (auto simp: list_all_iff is_lower_hex_def is_digit_def)

lemma validPageID_iff:
  "validPageID kind i \<longleftrightarrow>
   (\<exists>h. i = id_prefix kind @ h \<and> length h = 17 \<and> list_all is_lower_hex h)"
proof -
  let ?p = "id_prefix kind"
  have hex: "list_all (\<lambda>r. (48 \<le> r \<and> r \<le> 57) \<or> (97 \<le> r \<and> r \<le> 102)) (runes h) \<longleftrightarrow> list_all is_lower_hex h"
    for h
  proof
    assume "list_all (\<lambda>r. (48 \<le> r \<and> r \<le> 57) \<or> (97 \<le> r \<and> r \<le> 102)) (runes h)"
    moreover from this have "runes h = map of_char h"
      unfolding runes_def by (intro utf8_runes_low) (auto simp: list_all_iff)
    ultimately show "list_all is_lower_hex h"
      by (simp add: list_all_iff is_lower_hex_def is_digit_def)
  next
    assume "list_all is_lower_hex h"
    then show "list_all (\<lambda>r. (48 \<le> r \<and> r \<le> 57) \<or> (97 \<le> r \<and> r \<le> 102)) (runes h)"
      using runes_ascii [OF lower_hex_ascii, of h]
      by (simp add: list_all_iff is_lower_hex_def is_digit_def)
  qed
  show ?thesis
    unfolding validPageID_def Let_def id_prefix_def [symmetric]
    by (auto simp: HasPrefix_iff hex)
qed

lemma NewID_validPageID: "NewID (id_prefix kind) random = Inr i \<Longrightarrow> validPageID kind i"
  unfolding validPageID_iff by (rule NewID_shape)

lemma validPageID_ValidString:
  assumes "validPageID kind i" and "list_all (\<lambda>c. byte c < 0x80) (id_prefix kind)"
  shows "ValidString i"
  using assms by (intro ValidString_ascii) (auto simp: validPageID_iff lower_hex_ascii)

lemma encodePageToken_nonempty: "encodePageToken kind i \<noteq> []"
  unfolding encodePageToken_def
  by (metis append_is_Nil_conv b64Encode_inject b64Encode_def b64_sextets.simps(1) list.distinct(1) list.map(1))

lemma decode_encodePageToken:
  assumes "validPageID kind i"
  shows "decodePageToken kind (encodePageToken kind i) = Inr i"
proof -
  have "b64Encode (kind @ '':'' @ i) \<noteq> []"
    using encodePageToken_nonempty [of kind i] by (simp add: encodePageToken_def)
  then show ?thesis
    using assms HasPrefix_append [of "kind @ '':''" i]
    by (simp add: decodePageToken_def encodePageToken_def b64Decode_Encode Let_def TrimPrefix_def)
qed

end
