(* ===== verification/Idempotency.thy ===== *)
theory Idempotency
  imports Store Validate SHA256
begin

text \<open>
  \<open>internal/service/idempotency.go\<close>: keyed creates. A record of the workspace, the
  operation and the key keeps the hash of the request and the JSON snapshot of the first
  result for 24 hours. Times are Unix seconds. The generic functions take the snapshot's
  \<open>json.Marshal\<close> or \<open>json.Unmarshal\<close> as their first argument.
\<close>

definition validateIdempotencyKey :: "string \<Rightarrow> unit res" where
  "validateIdempotencyKey key =
     (if key = [] then Inr ()
      else if length key > 255 \<or> \<not> ValidString key
      then Inl (invalidParameter ''Idempotency-Key must be valid UTF-8 and at most 255 bytes'')
      else if list_ex IsControl (runes key)
      then Inl (invalidParameter ''Idempotency-Key must not contain control characters'')
      else Inr ())"

text \<open>\<open>json.Marshal\<close> of a slice of strings does not fail.\<close>

definition canonicalJSON :: "string list \<Rightarrow> string" where
  "canonicalJSON payload = marshal (JArr (map JStr payload))"

definition hashPayload :: "string list \<Rightarrow> string" where
  "hashPayload payload = hexEncode (Sum256 (canonicalJSON payload))"

definition loadReplay ::
  "(string \<Rightarrow> 'a option) \<Rightarrow> string \<Rightarrow> string \<Rightarrow> string \<Rightarrow> int \<Rightarrow> db \<Rightarrow> 'a option res" where
  "loadReplay decode op key hash now d =
     (if key = [] then Inr None
      else (case tx_GetIdempotency ''default'' op key d of
          Inl e \<Rightarrow> if err_is ErrNoRows e then Inr None else Inl e
        | Inr r \<Rightarrow>
            if id_expires_at r \<le> now then Inr None
            else if id_payload_hash r \<noteq> hash
            then Inl (ServiceError ''IdempotentParameterMismatch''
                        ''Idempotency-Key was already used for different parameters'' [] 409)
            else (case decode (id_response_json r) of
                None \<Rightarrow> Inl (Wrapf (''decode original '' @ op @ '' result'') (Errorf ''json''))
              | Some x \<Rightarrow> Inr (Some x))))"

definition saveReplay ::
  "('a \<Rightarrow> string) \<Rightarrow> string \<Rightarrow> string \<Rightarrow> string \<Rightarrow> string \<Rightarrow> 'a \<Rightarrow> int \<Rightarrow> unit tx" where
  "saveReplay encode op key hash rid x now =
     (if key = [] then tx_return ()
      else tx_PutIdempotency \<lparr>id_workspace_id = ''default'', id_operation = op, id_key = key,
             id_payload_hash = hash, id_resource_id = rid, id_created_at = now,
             id_expires_at = now + 24 * 60 * 60, id_response_json = encode x\<rparr>)"

section \<open>What a record stands for\<close>

text \<open>Distinct requests with valid strings have distinct canonical texts.\<close>

lemma canonicalJSON_inject:
  assumes "list_all ValidString xs" and "list_all ValidString ys"
  shows "canonicalJSON xs = canonicalJSON ys \<longleftrightarrow> xs = ys"
proof
  assume eq: "canonicalJSON xs = canonicalJSON ys"
  have "jwf 10000 (JArr (map JStr zs))" if "list_all ValidString zs" for zs
    using that by (auto simp: jwf_JArr list_all_iff)
  then have "Some (JArr (map JStr xs)) = Some (JArr (map JStr ys))"
    using unmarshal_marshal assms eq unfolding canonicalJSON_def by metis
  then show "xs = ys" by (simp add: inj_map_eq_map inj_def)
qed simp

lemma one_row_upd:
  assumes "\<And>r. P (f r) = P r" and "\<And>r. Q r \<Longrightarrow> P r"
  shows "one_row P (upd Q f rs) =
    (case one_row P rs of Inl e \<Rightarrow> Inl e | Inr r \<Rightarrow> Inr (if Q r then f r else r))"
proof -
  have "find P (upd Q f rs) = map_option (\<lambda>r. if Q r then f r else r) (find P rs)"
    unfolding upd_def using assms(1) by (intro find_map_update) simp
  then show ?thesis by (simp add: one_row_def split: option.splits)
qed

lemma find_append_absent:
  "\<not> (\<exists>r \<in> set rs. P r) \<Longrightarrow> P x \<Longrightarrow> find P (rs @ [x]) = Some x"
  by (induction rs) auto

text \<open>After a put, the record of the key is the one that was put.\<close>

lemma GetIdempotency_PutIdempotency:
  assumes "q_PutIdempotency n d = Inr (u, d')"
  shows "\<exists>r. q_GetIdempotency (id_workspace_id n) (id_operation n) (id_key n) d' = Inr r \<and>
    id_payload_hash r = id_payload_hash n \<and> id_response_json r = id_response_json n \<and>
    id_expires_at r = id_expires_at n \<and> id_resource_id r = id_resource_id n"
proof -
  let ?P = "idem_key (id_workspace_id n) (id_operation n) (id_key n)"
  show ?thesis
  proof (cases "\<exists>r \<in> set (idempotency_requests d). ?P r")
    case True
    define f :: "idem_row \<Rightarrow> idem_row" where "f = (\<lambda>r. r\<lparr>id_payload_hash := id_payload_hash n, id_resource_id := id_resource_id n,
      id_response_json := id_response_json n, id_created_at := id_created_at n,
      id_expires_at := id_expires_at n\<rparr>)"
    have d': "idempotency_requests d' = upd ?P f (idempotency_requests d)"
      using True assms by (auto simp: q_PutIdempotency_def f_def)
    have "?P (f r) = ?P r" for r by (simp add: f_def idem_key_def)
    then have "one_row ?P (idempotency_requests d') =
        (case one_row ?P (idempotency_requests d) of Inl e \<Rightarrow> Inl e | Inr r \<Rightarrow> Inr (if ?P r then f r else r))"
      unfolding d' by (rule one_row_upd)
    moreover obtain r where "one_row ?P (idempotency_requests d) = Inr r" "?P r"
      using True by (cases "one_row ?P (idempotency_requests d)") (auto simp: one_row_Inl dest: one_row_Inr)
    ultimately show ?thesis by (simp add: q_GetIdempotency_def f_def)
  next
    case False
    then have "idempotency_requests d' = idempotency_requests d @ [n]"
      using assms by (auto simp: q_PutIdempotency_def split: if_splits)
    moreover have "?P n" by (simp add: idem_key_def)
    ultimately show ?thesis
      using find_append_absent [OF False] by (simp add: q_GetIdempotency_def one_row_def)
  qed
qed

text \<open>
  A saved result is replayed for the same hash until it expires, refused for another hash,
  and forgotten after that.
\<close>

lemma loadReplay_saveReplay:
  assumes "saveReplay encode op key hash rid x now d = Inr (u, d')" and "key \<noteq> []"
    and "decode (encode x) = Some x"
  shows "loadReplay decode op key h later d' =
    (if now + 86400 \<le> later then Inr None
     else if h = hash then Inr (Some x)
     else Inl (ServiceError ''IdempotentParameterMismatch''
                 ''Idempotency-Key was already used for different parameters'' [] 409))"
proof -
  let ?n = "\<lparr>id_workspace_id = ''default'', id_operation = op, id_key = key,
             id_payload_hash = hash, id_resource_id = rid, id_created_at = now,
             id_expires_at = now + 24 * 60 * 60, id_response_json = encode x\<rparr>"
  have "q_PutIdempotency ?n d = Inr (u, d')"
    using assms(1,2) by (simp add: saveReplay_def tx_PutIdempotency_def)
  from GetIdempotency_PutIdempotency [OF this] obtain r where
    "tx_GetIdempotency ''default'' op key d' = Inr r" "id_payload_hash r = hash"
    "id_response_json r = encode x" "id_expires_at r = now + 86400"
    by (auto simp: tx_GetIdempotency_def)
  then show ?thesis using assms(2,3) by (simp add: loadReplay_def)
qed

lemma loadReplay_no_key [simp]: "loadReplay decode op [] hash now d = Inr None"
  by (simp add: loadReplay_def)

end
