(* ===== verification/NetworkService.thy ===== *)
theory NetworkService
  imports Idempotency
begin

text \<open>
  \<open>internal/service/network.go\<close>: the requests on VPCs and subnets. Each takes what the
  environment decides first: a fault of the transaction, the random bytes of the new
  identifier, the database's clock and the service's clock. A request maps the tables to
  its result, the tables after it, and the identifiers handed to \<open>enqueue\<close>.
\<close>

type_synonym 'a reply = "'a res \<times> db \<times> string list"

abbreviation defaultWorkspace :: string where
  "defaultWorkspace \<equiv> ''default''"

definition nameConflict :: "string \<Rightarrow> string \<Rightarrow> goerr" where
  "nameConflict kind name =
     ServiceError ''InvalidParameterValue'' (kind @ '' name '' @ Quote name @ '' already exists'') [] 409"

definition dependencyViolation :: "string \<Rightarrow> string \<Rightarrow> goerr" where
  "dependencyViolation i message = ServiceError ''DependencyViolation'' message i 409"

definition vpcNotFound :: "string \<Rightarrow> goerr" where
  "vpcNotFound i = ServiceError ''InvalidVpcID.NotFound'' ''VPC does not exist'' i 404"

definition subnetNotFound :: "string \<Rightarrow> goerr" where
  "subnetNotFound i = ServiceError ''InvalidSubnetID.NotFound'' ''subnet does not exist'' i 404"

record CreateVPCInput =
  cvi_Name :: string
  cvi_CIDRBlock :: string

record CreateSubnetInput =
  csi_Name :: string
  csi_VPCID :: string
  csi_CIDRBlock :: string
  csi_AvailabilityZone :: string

text \<open>A transaction that may enqueue, and its reply.\<close>

definition reply :: "('a \<times> string list) res \<times> db \<Rightarrow> 'a reply" where
  "reply r = (case r of (Inl e, d) \<Rightarrow> (Inl e, d, []) | (Inr (x, q), d) \<Rightarrow> (Inr x, d, q))"

text \<open>A lookup by name that must find nothing.\<close>

definition name_free :: "(db \<Rightarrow> 'a res) \<Rightarrow> goerr \<Rightarrow> unit tx" where
  "name_free look conflict =
     tx_bind (tx_try look) (\<lambda>got.
     case got of
       Inr _ \<Rightarrow> tx_fail conflict
     | Inl e \<Rightarrow> if err_is ErrNoRows e then tx_return () else tx_fail e)"

text \<open>A lookup whose missing row is an error of the service.\<close>

definition or_missing :: "goerr \<Rightarrow> 'a res \<Rightarrow> 'a res" where
  "or_missing missing = res_map_err (\<lambda>e. if err_is ErrNoRows e then missing else e)"

section \<open>VPCs\<close>

definition tx_CreateVPC ::
  "int \<Rightarrow> string \<Rightarrow> prefix \<Rightarrow> string \<Rightarrow> string \<Rightarrow> string \<Rightarrow> int \<Rightarrow> (VPC \<times> string list) tx" where
  "tx_CreateVPC unixepoch name cidr key hash i now =
     tx_bind (tx_read (loadReplay vpc_unmarshal ''create-vpc'' key hash now)) (\<lambda>replay.
     case replay of
       Some v \<Rightarrow> tx_return (v, [])
     | None \<Rightarrow>
         tx_bind (name_free (tx_GetVPCByName defaultWorkspace name) (nameConflict ''VPC'' name)) (\<lambda>_.
         tx_bind (tx_AllocateIndex unixepoch ''vpc'' i) (\<lambda>idx.
         let v = zero_VPC\<lparr>vpc_ID := i, vpc_WorkspaceID := defaultWorkspace, vpc_Name := name,
                   vpc_CIDRBlock := cidr, vpc_ShortIndex := idx, vpc_State := StatePending,
                   vpc_Generation := 1\<rparr> in
         tx_bind (tx_map_err (\<lambda>e. if IsUniqueViolation e then nameConflict ''VPC'' name else e)
                    (tx_InsertVPC v now)) (\<lambda>_.
         tx_bind (tx_AppendEvent defaultWorkspace ''vpc'' i ''created'' (vpc_State v) 1 [] now) (\<lambda>_.
         tx_bind (saveReplay vpc_marshal ''create-vpc'' key hash i v now) (\<lambda>_.
         tx_return (v, [vpc_ID v])))))))"

definition svc_CreateVPC ::
  "fault \<Rightarrow> bytes res \<Rightarrow> int \<Rightarrow> int \<Rightarrow> CreateVPCInput \<Rightarrow> string \<Rightarrow> db \<Rightarrow> VPC reply" where
  "svc_CreateVPC f entropy unixepoch now input key d =
     (let pre = res_bind (ValidateName (cvi_Name input)) (\<lambda>name.
                res_bind (ParseCIDR (cvi_CIDRBlock input)) (\<lambda>cidr.
                res_bind (validateIdempotencyKey key) (\<lambda>_.
                res_bind (NewID ''vpc-'' entropy) (\<lambda>i.
                Inr (name, cidr, hashPayload [name, prefix_string cidr], i))))) in
      case pre of
        Inl e \<Rightarrow> (Inl e, d, [])
      | Inr (name, cidr, hash, i) \<Rightarrow>
          reply (WithTx f (tx_CreateVPC unixepoch name cidr key hash i now) d))"

definition svc_GetVPC :: "string \<Rightarrow> db \<Rightarrow> VPC res" where
  "svc_GetVPC i d = or_missing (vpcNotFound i) (store_GetVPC defaultWorkspace i d)"

text \<open>Slicing never panics: the page holds more than \<open>size\<close> items there, and \<open>size\<close> is positive.\<close>

definition svc_ListVPCs :: "int \<Rightarrow> string \<Rightarrow> db \<Rightarrow> (VPC list \<times> string) res" where
  "svc_ListVPCs limit token d =
     res_bind (pageSize limit) (\<lambda>size.
     res_bind (decodePageToken ''vpc'' token) (\<lambda>after.
     res_bind (store_ListVPCPage defaultWorkspace after (size + 1) d) (\<lambda>items.
     if int (length items) \<le> size then Inr (items, [])
     else Inr (take (nat size) items, encodePageToken ''vpc'' (vpc_ID (items ! nat (size - 1)))))))"

definition tx_DeleteVPC :: "string \<Rightarrow> int \<Rightarrow> (VPC \<times> string list) tx" where
  "tx_DeleteVPC i now =
     tx_bind (tx_read (\<lambda>d. or_missing (vpcNotFound i) (tx_GetVPC defaultWorkspace i d))) (\<lambda>v.
     tx_bind (tx_read (tx_ListSubnetsByVPC i)) (\<lambda>children.
     tx_bind (tx_guard (children = []) (dependencyViolation i ''VPC still has subnets'')) (\<lambda>_.
     if vpc_DeletionRequested v then tx_return (v, [])
     else
       tx_bind (tx_MarkVPCDeleting defaultWorkspace i now) (\<lambda>r.
       tx_bind (tx_AppendEvent defaultWorkspace ''vpc'' i ''deleting'' (vpc_State r) (vpc_Generation r) [] now) (\<lambda>_.
       tx_return (r, [i]))))))"

definition svc_DeleteVPC :: "fault \<Rightarrow> int \<Rightarrow> string \<Rightarrow> db \<Rightarrow> VPC reply" where
  "svc_DeleteVPC f now i d = reply (WithTx f (tx_DeleteVPC i now) d)"

section \<open>Subnets\<close>

definition tx_CreateSubnet ::
  "int \<Rightarrow> string \<Rightarrow> string \<Rightarrow> prefix \<Rightarrow> string \<Rightarrow> string \<Rightarrow> string \<Rightarrow> string \<Rightarrow> int \<Rightarrow> (Subnet \<times> string list) tx"
where
  "tx_CreateSubnet unixepoch name vpcid cidr az key hash i now =
     tx_bind (tx_read (loadReplay subnet_unmarshal ''create-subnet'' key hash now)) (\<lambda>replay.
     case replay of
       Some s \<Rightarrow> tx_return (s, [])
     | None \<Rightarrow>
         tx_bind (tx_read (\<lambda>d. or_missing (vpcNotFound vpcid) (tx_GetVPC defaultWorkspace vpcid d))) (\<lambda>vpc.
         tx_bind (tx_guard (\<not> vpc_DeletionRequested vpc)
                    (dependencyViolation (vpc_ID vpc) ''VPC is deleting'')) (\<lambda>_.
         tx_bind (tx_read (\<lambda>d. ValidateSubnetRange (vpc_CIDRBlock vpc) cidr)) (\<lambda>_.
         tx_bind (tx_read (tx_ListSubnetsByVPC (vpc_ID vpc))) (\<lambda>siblings.
         tx_bind (tx_read (\<lambda>d. ValidateSubnetDisjoint cidr (map sub_CIDRBlock siblings))) (\<lambda>_.
         tx_bind (name_free (tx_GetSubnetByName defaultWorkspace name) (nameConflict ''subnet'' name)) (\<lambda>_.
         tx_bind (tx_AllocateIndex unixepoch ''subnet'' i) (\<lambda>idx.
         let s = zero_Subnet\<lparr>sub_ID := i, sub_WorkspaceID := defaultWorkspace, sub_VPCID := vpc_ID vpc,
                   sub_Name := name, sub_CIDRBlock := cidr, sub_AvailabilityZone := az,
                   sub_ShortIndex := idx, sub_State := StatePending, sub_Generation := 1\<rparr> in
         tx_bind (tx_map_err (\<lambda>e. if IsUniqueViolation e then nameConflict ''subnet'' name
                                    else if IsForeignKeyViolation e then vpcNotFound vpcid else e)
                    (tx_InsertSubnet s now)) (\<lambda>_.
         tx_bind (tx_AppendEvent defaultWorkspace ''subnet'' i ''created'' (sub_State s) 1 [] now) (\<lambda>_.
         tx_bind (saveReplay subnet_marshal ''create-subnet'' key hash i s now) (\<lambda>_.
         tx_return (s, [sub_VPCID s]))))))))))))"

definition svc_CreateSubnet ::
  "fault \<Rightarrow> bytes res \<Rightarrow> int \<Rightarrow> int \<Rightarrow> CreateSubnetInput \<Rightarrow> string \<Rightarrow> db \<Rightarrow> Subnet reply" where
  "svc_CreateSubnet f entropy unixepoch now input key d =
     (let az = csi_AvailabilityZone input;
          pre = res_bind (ValidateName (csi_Name input)) (\<lambda>name.
                res_bind (ParseCIDR (csi_CIDRBlock input)) (\<lambda>cidr.
                res_bind (res_guard (az = ''local-1a'' \<or> az = ''local-1b'' \<or> az = ''local-1c'')
                   (invalidParameter ''availability_zone must be local-1a, local-1b, or local-1c'')) (\<lambda>_.
                res_bind (validateIdempotencyKey key) (\<lambda>_.
                res_bind (NewID ''subnet-'' entropy) (\<lambda>i.
                Inr (name, cidr, hashPayload [name, csi_VPCID input, prefix_string cidr, az], i)))))) in
      case pre of
        Inl e \<Rightarrow> (Inl e, d, [])
      | Inr (name, cidr, hash, i) \<Rightarrow>
          reply (WithTx f (tx_CreateSubnet unixepoch name (csi_VPCID input) cidr az key hash i now) d))"

definition svc_GetSubnet :: "string \<Rightarrow> db \<Rightarrow> Subnet res" where
  "svc_GetSubnet i d = or_missing (subnetNotFound i) (store_GetSubnet defaultWorkspace i d)"

definition svc_ListSubnets :: "int \<Rightarrow> string \<Rightarrow> db \<Rightarrow> (Subnet list \<times> string) res" where
  "svc_ListSubnets limit token d =
     res_bind (pageSize limit) (\<lambda>size.
     res_bind (decodePageToken ''subnet'' token) (\<lambda>after.
     res_bind (store_ListSubnetPage defaultWorkspace after (size + 1) d) (\<lambda>items.
     if int (length items) \<le> size then Inr (items, [])
     else Inr (take (nat size) items, encodePageToken ''subnet'' (sub_ID (items ! nat (size - 1)))))))"

definition tx_DeleteSubnet :: "string \<Rightarrow> int \<Rightarrow> (Subnet \<times> string list) tx" where
  "tx_DeleteSubnet i now =
     tx_bind (tx_read (\<lambda>d. or_missing (subnetNotFound i) (tx_GetSubnet defaultWorkspace i d))) (\<lambda>s.
     tx_bind (tx_read (\<lambda>d. Inr (tx_CountInstancesInSubnet i d))) (\<lambda>n.
     tx_bind (tx_guard (n = 0) (dependencyViolation i ''subnet still has instances'')) (\<lambda>_.
     if sub_DeletionRequested s then tx_return (s, [])
     else
       tx_bind (tx_MarkSubnetDeleting defaultWorkspace i now) (\<lambda>r.
       tx_bind (tx_AppendEvent defaultWorkspace ''subnet'' i ''deleting'' (sub_State r) (sub_Generation r) [] now) (\<lambda>_.
       tx_return (r, [sub_VPCID r]))))))"

definition svc_DeleteSubnet :: "fault \<Rightarrow> int \<Rightarrow> string \<Rightarrow> db \<Rightarrow> Subnet reply" where
  "svc_DeleteSubnet f now i d = reply (WithTx f (tx_DeleteSubnet i now) d)"

end
