(* ===== verification/InstanceService.thy ===== *)
theory InstanceService
  imports NetworkService
begin

text \<open>
  \<open>internal/service/instance.go\<close>: launching and terminating instances. A launch reserves
  the instance's kernel indexes, its interface, a private address and a hardware address
  in one transaction.
\<close>

definition instanceNotFound :: "string \<Rightarrow> goerr" where
  "instanceNotFound i = ServiceError ''InvalidInstanceID.NotFound'' ''instance does not exist'' i 404"

definition incorrectInstanceState :: "string \<Rightarrow> string \<Rightarrow> goerr" where
  "incorrectInstanceState i message = ServiceError ''IncorrectState'' message i 409"

record RunInstanceInput =
  rii_Name :: string
  rii_SubnetID :: string

record InstancePage =
  page_Items :: "Instance list"
  page_NextPageToken :: string

text \<open>
  The first six bytes of the digest of the interface's identifier, made a locally
  administered unicast address: \<open>(mac[0] & 0xfc) | 0x02\<close>.
\<close>

definition eniMAC :: "string \<Rightarrow> nat list" where
  "eniMAC eniID =
     (let mac = map of_char (take 6 (Sum256 eniID)) in (hd mac div 4 * 4 + 2) # tl mac)"

definition tx_Run ::
  "int \<Rightarrow> string \<Rightarrow> string \<Rightarrow> string \<Rightarrow> string \<Rightarrow> string \<Rightarrow> string \<Rightarrow> int \<Rightarrow> (Instance \<times> string list) tx" where
  "tx_Run unixepoch name subnetID key hash i eniID now =
     tx_bind (tx_read (loadReplay instance_unmarshal ''run-instance'' key hash now)) (\<lambda>replay.
     case replay of
       Some n \<Rightarrow> tx_return (n, [])
     | None \<Rightarrow>
         tx_bind (tx_read (\<lambda>d. or_missing (subnetNotFound subnetID) (tx_GetSubnet defaultWorkspace subnetID d))) (\<lambda>subnet.
         tx_bind (tx_guard (\<not> sub_DeletionRequested subnet)
                    (incorrectInstanceState (sub_ID subnet) ''subnet is being deleted'')) (\<lambda>_.
         tx_bind (name_free (tx_GetInstanceByName defaultWorkspace name) (nameConflict ''instance'' name)) (\<lambda>_.
         tx_bind (tx_read (tx_ENIAddresses (sub_ID subnet))) (\<lambda>used.
         tx_bind (tx_map_err (\<lambda>e. if err_is ErrAddressExhausted e
                                    then ServiceError ''AddressLimitExceeded''
                                           ''subnet has no free private addresses'' (sub_ID subnet) 409
                                    else e)
                    (tx_read (\<lambda>d. nextPrivateIP (sub_CIDRBlock subnet) used))) (\<lambda>address.
         tx_bind (tx_AllocateIndex unixepoch ''instance'' i) (\<lambda>idx.
         tx_bind (tx_AllocateIndex unixepoch ''eni'' eniID) (\<lambda>eniIndex.
         let e = zero_ENI\<lparr>eni_ID := eniID, eni_WorkspaceID := defaultWorkspace, eni_InstanceID := i,
                   eni_SubnetID := sub_ID subnet, eni_ShortIndex := eniIndex, eni_PrivateIP := address,
                   eni_MACAddress := mac_string (eniMAC eniID), eni_Generation := 1, eni_State := StatePending\<rparr>;
             n = zero_Instance\<lparr>inst_ID := i, inst_WorkspaceID := defaultWorkspace,
                   inst_SubnetID := sub_ID subnet, inst_Name := name, inst_ShortIndex := idx,
                   inst_InstanceType := ''t3.micro'', inst_State := InstancePending,
                   inst_Generation := 1, inst_ENI := e\<rparr> in
         tx_bind (tx_InsertInstanceWithENI n e now) (\<lambda>_.
         tx_bind (tx_AppendEvent defaultWorkspace ''instance'' i ''created'' (inst_State n) 1 [] now) (\<lambda>_.
         tx_bind (saveReplay instance_marshal ''run-instance'' key hash i n now) (\<lambda>_.
         tx_return (n, [inst_ID n]))))))))))))"

definition svc_Run ::
  "fault \<Rightarrow> bytes res \<Rightarrow> bytes res \<Rightarrow> int \<Rightarrow> int \<Rightarrow> RunInstanceInput \<Rightarrow> string \<Rightarrow> db \<Rightarrow> Instance reply" where
  "svc_Run f entropy entropy' unixepoch now input key d =
     (let pre = res_bind (ValidateName (rii_Name input)) (\<lambda>name.
                res_bind (validateIdempotencyKey key) (\<lambda>_.
                res_bind (NewID ''i-'' entropy) (\<lambda>i.
                res_bind (NewID ''eni-'' entropy') (\<lambda>eniID.
                Inr (name, hashPayload [name, rii_SubnetID input], i, eniID))))) in
      case pre of
        Inl e \<Rightarrow> (Inl e, d, [])
      | Inr (name, hash, i, eniID) \<Rightarrow>
          reply (WithTx f (tx_Run unixepoch name (rii_SubnetID input) key hash i eniID now) d))"

definition svc_Get :: "fault \<Rightarrow> string \<Rightarrow> db \<Rightarrow> Instance res" where
  "svc_Get f i d = or_missing (instanceNotFound i) (store_GetInstance f defaultWorkspace i d)"

definition svc_List :: "fault \<Rightarrow> int \<Rightarrow> string \<Rightarrow> db \<Rightarrow> InstancePage res" where
  "svc_List f limit token d =
     res_bind (pageSize limit) (\<lambda>size.
     res_bind (decodePageToken ''instance'' token) (\<lambda>after.
     res_bind (store_ListInstancePage f defaultWorkspace after (size + 1) d) (\<lambda>items.
     if int (length items) > size
     then Inr \<lparr>page_Items = take (nat size) items,
               page_NextPageToken = encodePageToken ''instance'' (inst_ID (items ! nat (size - 1)))\<rparr>
     else Inr \<lparr>page_Items = items, page_NextPageToken = []\<rparr>)))"

definition tx_TerminateSnapshot :: "string \<Rightarrow> int \<Rightarrow> (Instance \<times> string list) tx" where
  "tx_TerminateSnapshot i now =
     tx_bind (tx_read (\<lambda>d. or_missing (instanceNotFound i) (tx_GetInstance defaultWorkspace i d))) (\<lambda>current.
     if inst_DeletionRequested current then tx_return (current, [])
     else
       tx_bind (tx_MarkInstanceTerminating defaultWorkspace i now) (\<lambda>_.
       tx_bind (tx_AppendEvent defaultWorkspace ''instance'' i ''terminating'' InstanceShuttingDown
                  (inst_Generation current + 1) [] now) (\<lambda>_.
       tx_return (current\<lparr>inst_DeletionRequested := True, inst_Generation := inst_Generation current + 1,
                    inst_State := InstanceShuttingDown, inst_StateReason := []\<rparr>, [i]))))"

definition svc_TerminateSnapshot :: "fault \<Rightarrow> int \<Rightarrow> string \<Rightarrow> db \<Rightarrow> Instance reply" where
  "svc_TerminateSnapshot f now i d = reply (WithTx f (tx_TerminateSnapshot i now) d)"

definition svc_Terminate :: "fault \<Rightarrow> int \<Rightarrow> string \<Rightarrow> db \<Rightarrow> unit reply" where
  "svc_Terminate f now i d =
     (case svc_TerminateSnapshot f now i d of
        (Inl e, d', q) \<Rightarrow> (Inl e, d', q)
      | (Inr _, d', q) \<Rightarrow> (Inr (), d', q))"

end
