(* ===== verification/Invariant.thy ===== *)
theory Invariant
  imports InstanceService
begin

text \<open>
  The invariant of the tables and that every statement the program runs keeps it: keys and
  names are unique, every reference leads to a live row, CIDR blocks are canonical and
  nested, siblings are disjoint, every instance has one interface whose address lies in
  its subnet and is not reserved, every generation is 1 or, after a deletion request, 2,
  a VPC under deletion has no subnets and a subnet under deletion no instances. The
  predicate is executable.
\<close>

section \<open>The invariant\<close>

definition index_of :: "kernel_index_row list \<Rightarrow> string \<Rightarrow> int \<Rightarrow> string \<Rightarrow> bool" where
  "index_of K kind idx rid \<longleftrightarrow>
     (\<exists>k \<in> set K. kr_id k = idx \<and> kr_resource_kind k = kind \<and> kr_resource_id k = rid)"

definition kernel_ok :: "kernel_index_row list \<Rightarrow> int \<Rightarrow> bool" where
  "kernel_ok K s \<longleftrightarrow>
     distinct (map kr_id K) \<and> distinct (map kr_resource_id K) \<and>
     list_all (\<lambda>k. 1 \<le> kr_id k \<and> kr_id k \<le> s) K \<and> 0 \<le> s \<and> s \<le> max_int64"

definition cidr_of :: "string \<Rightarrow> prefix" where
  "cidr_of s = (case ParsePrefix s of Some p \<Rightarrow> p | None \<Rightarrow> PrefixZero)"

definition cidr_text :: "string \<Rightarrow> bool" where
  "cidr_text s \<longleftrightarrow> (case ParsePrefix s of Some p \<Rightarrow> cidr_ok p | None \<Rightarrow> False)"

definition vrow_ok :: "kernel_index_row list \<Rightarrow> vpc_row \<Rightarrow> bool" where
  "vrow_ok K r \<longleftrightarrow>
     vpc_check r \<and> vr_workspace_id r = defaultWorkspace \<and> cidr_text (vr_cidr_block r) \<and>
     vr_generation r = 1 + vr_deletion_requested r \<and> validPageID ''vpc'' (vr_id r) \<and>
     index_of K ''vpc'' (vr_short_index r) (vr_id r)"

definition vpcs_ok :: "kernel_index_row list \<Rightarrow> vpc_row list \<Rightarrow> bool" where
  "vpcs_ok K V \<longleftrightarrow>
     distinct (map vr_id V) \<and> distinct (map vr_name V) \<and> list_all (vrow_ok K) V"

text \<open>A live VPC whose block contains the subnet's.\<close>

definition parent_ok :: "vpc_row list \<Rightarrow> subnet_row \<Rightarrow> bool" where
  "parent_ok V s \<longleftrightarrow>
     (\<exists>v \<in> set V. vr_id v = sr_vpc_id s \<and> vr_deletion_requested v = 0 \<and>
        ValidateSubnetRange (cidr_of (vr_cidr_block v)) (cidr_of (sr_cidr_block s)) = Inr ())"

definition srow_ok :: "kernel_index_row list \<Rightarrow> subnet_row \<Rightarrow> bool" where
  "srow_ok K r \<longleftrightarrow>
     subnet_check r \<and> sr_workspace_id r = defaultWorkspace \<and> cidr_text (sr_cidr_block r) \<and>
     sr_generation r = 1 + sr_deletion_requested r \<and> validPageID ''subnet'' (sr_id r) \<and>
     index_of K ''subnet'' (sr_short_index r) (sr_id r)"

definition siblings_ok :: "subnet_row list \<Rightarrow> bool" where
  "siblings_ok S \<longleftrightarrow>
     (\<forall>s \<in> set S. \<forall>t \<in> set S. sr_vpc_id s = sr_vpc_id t \<and> sr_id s \<noteq> sr_id t \<longrightarrow>
        \<not> Overlaps (cidr_of (sr_cidr_block s)) (cidr_of (sr_cidr_block t)))"

definition subnets_ok :: "kernel_index_row list \<Rightarrow> vpc_row list \<Rightarrow> subnet_row list \<Rightarrow> bool" where
  "subnets_ok K V S \<longleftrightarrow>
     distinct (map sr_id S) \<and> distinct (map sr_name S) \<and> list_all (srow_ok K) S \<and>
     list_all (parent_ok V) S \<and> siblings_ok S"

definition irow_ok :: "kernel_index_row list \<Rightarrow> instance_row \<Rightarrow> bool" where
  "irow_ok K r \<longleftrightarrow>
     instance_check r \<and> ir_workspace_id r = defaultWorkspace \<and>
     ir_generation r = 1 + ir_deletion_requested r \<and> ir_runtime_id r \<noteq> Some [] \<and>
     validPageID ''instance'' (ir_id r) \<and>
     index_of K ''instance'' (ir_short_index r) (ir_id r)"

definition subnet_live :: "subnet_row list \<Rightarrow> instance_row \<Rightarrow> bool" where
  "subnet_live S r \<longleftrightarrow> (\<exists>s \<in> set S. sr_id s = ir_subnet_id r \<and> sr_deletion_requested s = 0)"

definition has_eni :: "eni_row list \<Rightarrow> instance_row \<Rightarrow> bool" where
  "has_eni E r \<longleftrightarrow> (\<exists>e \<in> set E. er_instance_id e = ir_id r)"

definition instances_ok ::
  "kernel_index_row list \<Rightarrow> subnet_row list \<Rightarrow> eni_row list \<Rightarrow> instance_row list \<Rightarrow> bool" where
  "instances_ok K S E I \<longleftrightarrow>
     distinct (map ir_id I) \<and> distinct (map ir_name I) \<and> list_all (irow_ok K) I \<and>
     list_all (subnet_live S) I \<and> list_all (has_eni E) I"

definition erow_ok :: "kernel_index_row list \<Rightarrow> eni_row \<Rightarrow> bool" where
  "erow_ok K e \<longleftrightarrow>
     eni_check e \<and> er_workspace_id e = defaultWorkspace \<and> er_generation e = 1 \<and> validPageID ''eni'' (er_id e) \<and>
     (case validENIMAC (er_mac_address e) of Inr m \<Rightarrow> mac_string m = er_mac_address e | Inl x \<Rightarrow> False) \<and>
     index_of K ''eni'' (er_short_index e) (er_id e)"

text \<open>The interface's address: canonical text, inside the subnet, not reserved.\<close>

definition address_ok :: "subnet_row list \<Rightarrow> eni_row \<Rightarrow> bool" where
  "address_ok S e \<longleftrightarrow>
     (\<exists>s \<in> set S. sr_id s = er_subnet_id e \<and>
        (case ParseAddr (er_private_ip e) of
           None \<Rightarrow> False
         | Some a \<Rightarrow> addr_string a = er_private_ip e \<and> Contains (cidr_of (sr_cidr_block s)) a \<and>
             \<not> reservedAddress (cidr_of (sr_cidr_block s)) a))"

definition owner_ok :: "instance_row list \<Rightarrow> eni_row \<Rightarrow> bool" where
  "owner_ok I e \<longleftrightarrow> (\<exists>n \<in> set I. ir_id n = er_instance_id e \<and> ir_subnet_id n = er_subnet_id e)"

definition enis_ok ::
  "kernel_index_row list \<Rightarrow> subnet_row list \<Rightarrow> instance_row list \<Rightarrow> eni_row list \<Rightarrow> bool" where
  "enis_ok K S I E \<longleftrightarrow>
     distinct (map er_id E) \<and> distinct (map er_instance_id E) \<and> distinct (map er_mac_address E) \<and>
     distinct (map (\<lambda>e. (er_subnet_id e, er_private_ip e)) E) \<and> list_all (erow_ok K) E \<and>
     list_all (address_ok S) E \<and> list_all (owner_ok I) E"

definition events_ok :: "event_row list \<Rightarrow> int \<Rightarrow> bool" where
  "events_ok L s \<longleftrightarrow>
     sorted_wrt (<) (map ev_id L) \<and> list_all (\<lambda>e. 1 \<le> ev_id e \<and> ev_id e \<le> s) L \<and> 0 \<le> s \<and> s \<le> max_int64"

definition replay_ok :: "idem_row \<Rightarrow> bool" where
  "replay_ok r \<longleftrightarrow>
     (id_operation r = ''create-vpc'' \<longrightarrow> vpc_unmarshal (id_response_json r) \<noteq> None) \<and>
     (id_operation r = ''create-subnet'' \<longrightarrow> subnet_unmarshal (id_response_json r) \<noteq> None) \<and>
     (id_operation r = ''run-instance'' \<longrightarrow> instance_unmarshal (id_response_json r) \<noteq> None)"

definition idem_ok :: "idem_row list \<Rightarrow> bool" where
  "idem_ok R \<longleftrightarrow>
     distinct (map (\<lambda>r. (id_workspace_id r, id_operation r, id_key r)) R) \<and> list_all replay_ok R"

definition db_inv :: "db \<Rightarrow> bool" where
  "db_inv d \<longleftrightarrow>
     workspaces d = [defaultWorkspace] \<and> kernel_ok (kernel_indexes d) (kernel_seq d) \<and>
     vpcs_ok (kernel_indexes d) (vpcs d) \<and> subnets_ok (kernel_indexes d) (vpcs d) (subnets d) \<and>
     instances_ok (kernel_indexes d) (subnets d) (enis d) (instances d) \<and>
     enis_ok (kernel_indexes d) (subnets d) (instances d) (enis d) \<and>
     events_ok (events d) (event_seq d) \<and> idem_ok (idempotency_requests d)"

lemmas inv_defs = vpcs_ok_def subnets_ok_def instances_ok_def enis_ok_def

lemma db_inv_empty: "db_inv empty_db"
  by (simp add: db_inv_def empty_db_def kernel_ok_def inv_defs siblings_ok_def events_ok_def
      idem_ok_def max_int64_def)

section \<open>Rows and snapshots\<close>

lemma cidr_text_of: "cidr_text s \<Longrightarrow> ParsePrefix s = Some (cidr_of s) \<and> cidr_ok (cidr_of s)"
  by (auto simp: cidr_text_def cidr_of_def split: option.splits)

lemma cidr_text_string: "cidr_ok p \<Longrightarrow> cidr_text (prefix_string p) \<and> cidr_of (prefix_string p) = p"
  by (simp add: cidr_text_def cidr_of_def ParsePrefix_string)

lemma cidr_ok_Is4: "cidr_ok p \<Longrightarrow> Is4 (Addr p)"
  by (simp add: cidr_ok_def prefix4_def)

definition vpc_of_row :: "vpc_row \<Rightarrow> VPC" where
  "vpc_of_row r = \<lparr>vpc_ID = vr_id r, vpc_WorkspaceID = vr_workspace_id r, vpc_Name = vr_name r,
     vpc_CIDRBlock = cidr_of (vr_cidr_block r), vpc_ShortIndex = vr_short_index r, vpc_State = vr_state r,
     vpc_StateReason = vr_state_reason r, vpc_DeletionRequested = (vr_deletion_requested r \<noteq> 0),
     vpc_Generation = vr_generation r, vpc_ObservedGeneration = vr_observed_generation r\<rparr>"

definition subnet_of_row :: "subnet_row \<Rightarrow> Subnet" where
  "subnet_of_row r = \<lparr>sub_ID = sr_id r, sub_WorkspaceID = sr_workspace_id r, sub_VPCID = sr_vpc_id r,
     sub_Name = sr_name r, sub_CIDRBlock = cidr_of (sr_cidr_block r),
     sub_AvailabilityZone = sr_availability_zone r, sub_ShortIndex = sr_short_index r,
     sub_State = sr_state r, sub_StateReason = sr_state_reason r,
     sub_DeletionRequested = (sr_deletion_requested r \<noteq> 0), sub_Generation = sr_generation r,
     sub_ObservedGeneration = sr_observed_generation r\<rparr>"

lemma vpcFromRow_ok: "vrow_ok K r \<Longrightarrow> vpcFromRow r = Inr (vpc_of_row r)"
  using cidr_text_of [of "vr_cidr_block r"]
  by (simp add: vrow_ok_def vpcFromRow_def vpc_of_row_def cidr_ok_Is4)

lemma subnetFromRow_ok: "srow_ok K r \<Longrightarrow> subnetFromRow r = Inr (subnet_of_row r)"
  using cidr_text_of [of "sr_cidr_block r"]
  by (simp add: srow_ok_def subnetFromRow_def subnet_of_row_def cidr_ok_Is4)

lemma vpcs_row: "vpcs_ok K V \<Longrightarrow> r \<in> set V \<Longrightarrow> vrow_ok K r"
  by (simp add: vpcs_ok_def list_all_iff)

lemma subnets_row: "subnets_ok K V S \<Longrightarrow> r \<in> set S \<Longrightarrow> srow_ok K r \<and> parent_ok V r"
  by (simp add: subnets_ok_def list_all_iff)

lemma vpcs_unique: "vpcs_ok K V \<Longrightarrow> r \<in> set V \<Longrightarrow> s \<in> set V \<Longrightarrow> vr_id r = vr_id s \<Longrightarrow> r = s"
  by (auto simp: vpcs_ok_def dest: distinct_map_unique)

lemma subnets_unique:
  "subnets_ok K V S \<Longrightarrow> r \<in> set S \<Longrightarrow> s \<in> set S \<Longrightarrow> sr_id r = sr_id s \<Longrightarrow> r = s"
  by (auto simp: subnets_ok_def dest: distinct_map_unique)

lemma instances_unique:
  "instances_ok K S E I \<Longrightarrow> r \<in> set I \<Longrightarrow> s \<in> set I \<Longrightarrow> ir_id r = ir_id s \<Longrightarrow> r = s"
  by (auto simp: instances_ok_def dest: distinct_map_unique)

text \<open>Lookups of VPCs and subnets return the row, or fail for the missing row only.\<close>

lemma tx_GetVPC_cases:
  assumes "vpcs_ok K (vpcs d)"
  shows "(\<exists>r \<in> set (vpcs d). vpc_key i ws r \<and> tx_GetVPC ws i d = Inr (vpc_of_row r)) \<or>
    ((\<forall>r \<in> set (vpcs d). \<not> vpc_key i ws r) \<and> tx_GetVPC ws i d = Inl (Wrapf (''get VPC '' @ i) ErrNoRows))"
proof (cases "q_GetVPC i ws d")
  case (Inl e)
  then have "e = ErrNoRows" "\<forall>r \<in> set (vpcs d). \<not> vpc_key i ws r"
    by (simp_all add: q_GetVPC_def one_row_Inl)
  then show ?thesis using Inl by (simp add: tx_GetVPC_def)
next
  case (Inr r)
  then have r: "r \<in> set (vpcs d)" "vpc_key i ws r" by (auto simp: q_GetVPC_def dest: one_row_Inr)
  have "tx_GetVPC ws i d = Inr (vpc_of_row r)"
    using Inr vpcFromRow_ok [OF vpcs_row [OF assms r(1)]] by (simp add: tx_GetVPC_def)
  then show ?thesis using r by blast
qed

lemma tx_GetSubnet_cases:
  assumes "subnets_ok K V (subnets d)"
  shows "(\<exists>r \<in> set (subnets d). subnet_key i ws r \<and> tx_GetSubnet ws i d = Inr (subnet_of_row r)) \<or>
    ((\<forall>r \<in> set (subnets d). \<not> subnet_key i ws r) \<and>
     tx_GetSubnet ws i d = Inl (Wrapf (''get subnet '' @ i) ErrNoRows))"
proof (cases "q_GetSubnet i ws d")
  case (Inl e)
  then have "e = ErrNoRows" "\<forall>r \<in> set (subnets d). \<not> subnet_key i ws r"
    by (simp_all add: q_GetSubnet_def one_row_Inl)
  then show ?thesis using Inl by (simp add: tx_GetSubnet_def)
next
  case (Inr r)
  then have r: "r \<in> set (subnets d)" "subnet_key i ws r" by (auto simp: q_GetSubnet_def dest: one_row_Inr)
  have "srow_ok K r" using subnets_row [OF assms r(1)] by simp
  then have "tx_GetSubnet ws i d = Inr (subnet_of_row r)"
    using Inr subnetFromRow_ok by (simp add: tx_GetSubnet_def)
  then show ?thesis using r by blast
qed

lemma set_q_ListSubnetsByVPC: "set (q_ListSubnetsByVPC i d) = {r \<in> set (subnets d). sr_vpc_id r = i}"
  by (simp add: q_ListSubnetsByVPC_def)

lemma tx_ListSubnetsByVPC_ok:
  assumes "subnets_ok K V (subnets d)"
  shows "tx_ListSubnetsByVPC i d = Inr (map subnet_of_row (q_ListSubnetsByVPC i d))"
  unfolding tx_ListSubnetsByVPC_def
proof (rule res_mapM_map)
  fix r
  assume "r \<in> set (q_ListSubnetsByVPC i d)"
  then have "srow_ok K r" using subnets_row [OF assms] by (simp add: set_q_ListSubnetsByVPC)
  then show "subnetFromRow r = Inr (subnet_of_row r)" by (rule subnetFromRow_ok)
qed


text \<open>An instance row and its interface give the snapshot.\<close>

definition instance_of_rows :: "instance_row \<Rightarrow> eni_row \<Rightarrow> Instance" where
  "instance_of_rows r e =
     \<lparr>inst_ID = ir_id r, inst_WorkspaceID = ir_workspace_id r, inst_SubnetID = ir_subnet_id r,
       inst_ShortIndex = ir_short_index r, inst_Name = ir_name r, inst_InstanceType = ''t3.micro'',
       inst_State = ir_state r, inst_StateReason = ir_state_reason r, inst_Generation = ir_generation r,
       inst_ObservedGeneration = ir_observed_generation r,
       inst_DeletionRequested = (ir_deletion_requested r \<noteq> 0),
       inst_RuntimeID = (case ir_runtime_id r of None \<Rightarrow> [] | Some x \<Rightarrow> x),
       inst_ENI = \<lparr>eni_ID = er_id e, eni_WorkspaceID = er_workspace_id e, eni_InstanceID = er_instance_id e,
         eni_SubnetID = er_subnet_id e, eni_ShortIndex = er_short_index e,
         eni_PrivateIP = (case ParseAddr (er_private_ip e) of Some a \<Rightarrow> a | None \<Rightarrow> AddrZero),
         eni_MACAddress = er_mac_address e, eni_Generation = er_generation e,
         eni_ObservedGeneration = er_observed_generation e, eni_State = er_state e,
         eni_StateReason = er_state_reason e\<rparr>\<rparr>"

lemma address_ok_parse:
  assumes "address_ok S e" and "subnets_ok K V S"
  shows "\<exists>s a. s \<in> set S \<and> sr_id s = er_subnet_id e \<and> ParseAddr (er_private_ip e) = Some a \<and>
    addr_string a = er_private_ip e \<and> Is4 a \<and> Contains (cidr_of (sr_cidr_block s)) a \<and>
    \<not> reservedAddress (cidr_of (sr_cidr_block s)) a"
proof -
  obtain s a where s: "s \<in> set S" "sr_id s = er_subnet_id e" "ParseAddr (er_private_ip e) = Some a"
      "addr_string a = er_private_ip e" "Contains (cidr_of (sr_cidr_block s)) a"
      "\<not> reservedAddress (cidr_of (sr_cidr_block s)) a"
    using assms(1) by (auto simp: address_ok_def split: option.splits)
  have "prefix4 (cidr_of (sr_cidr_block s))"
    using subnets_row [OF assms(2) s(1)] cidr_text_of by (auto simp: srow_ok_def)
  then have "Is4 a" using s(5) by (simp add: Contains_interval)
  then show ?thesis using s by blast
qed

lemma tx_instanceFromRow_ok:
  assumes "instances_ok K S (enis d) I" and "enis_ok K S I (enis d)" and "subnets_ok K V S" and "r \<in> set I"
  obtains e where "e \<in> set (enis d)" and "er_instance_id e = ir_id r" and "er_subnet_id e = ir_subnet_id r"
    and "tx_instanceFromRow r d = Inr (instance_of_rows r e)"
proof -
  have r: "ir_workspace_id r = defaultWorkspace" "has_eni (enis d) r"
    using assms(1,4) by (auto simp: instances_ok_def list_all_iff irow_ok_def)
  then obtain e where e: "e \<in> set (enis d)" "er_instance_id e = ir_id r" by (auto simp: has_eni_def)
  have eok: "erow_ok K e" "address_ok S e" "owner_ok I e"
    using assms(2) e(1) by (auto simp: enis_ok_def list_all_iff)
  have one: "q_GetPrimaryENI (ir_id r) (ir_workspace_id r) d = Inr e"
    unfolding q_GetPrimaryENI_def
  proof (rule one_row_unique)
    fix x assume "x \<in> set (enis d)" "er_instance_id x = ir_id r \<and> er_workspace_id x = ir_workspace_id r"
    then show "x = e" using assms(2) e by (auto simp: enis_ok_def dest: distinct_map_unique)
  qed (use e eok r in \<open>auto simp: erow_ok_def\<close>)
  obtain n where n: "n \<in> set I" "ir_id n = er_instance_id e" "ir_subnet_id n = er_subnet_id e"
    using eok(3) by (auto simp: owner_ok_def)
  then have "n = r" using instances_unique [OF assms(1) n(1) assms(4)] e by simp
  moreover obtain m where "validENIMAC (er_mac_address e) = Inr m"
    using eok(1) by (auto simp: erow_ok_def split: sum.splits)
  moreover obtain a where "ParseAddr (er_private_ip e) = Some a" "Is4 a"
    using address_ok_parse [OF eok(2) assms(3)] by blast
  ultimately have "tx_instanceFromRow r d = Inr (instance_of_rows r e)"
    using one by (simp add: tx_instanceFromRow_def instance_of_rows_def)
  then show ?thesis using that e n \<open>n = r\<close> by simp
qed

lemma tx_GetInstance_cases:
  assumes "instances_ok K S (enis d) (instances d)" and "enis_ok K S (instances d) (enis d)"
    and "subnets_ok K V S"
  shows "(\<exists>r e. r \<in> set (instances d) \<and> instance_key i ws r \<and> e \<in> set (enis d) \<and> er_instance_id e = ir_id r \<and>
      er_subnet_id e = ir_subnet_id r \<and> tx_GetInstance ws i d = Inr (instance_of_rows r e)) \<or>
    ((\<forall>r \<in> set (instances d). \<not> instance_key i ws r) \<and>
     tx_GetInstance ws i d = Inl (Wrapf (''get instance '' @ i) ErrNoRows))"
proof (cases "q_GetInstance i ws d")
  case (Inl x)
  then have "x = ErrNoRows" "\<forall>r \<in> set (instances d). \<not> instance_key i ws r"
    by (simp_all add: q_GetInstance_def one_row_Inl)
  then show ?thesis using Inl by (simp add: tx_GetInstance_def)
next
  case (Inr r)
  then have r: "r \<in> set (instances d)" "instance_key i ws r" by (auto simp: q_GetInstance_def dest: one_row_Inr)
  obtain e where "e \<in> set (enis d)" "er_instance_id e = ir_id r" "er_subnet_id e = ir_subnet_id r"
      "tx_instanceFromRow r d = Inr (instance_of_rows r e)"
    using tx_instanceFromRow_ok [OF assms r(1)] by blast
  then show ?thesis using r Inr by (auto simp: tx_GetInstance_def)
qed

end
