(* ===== verification/Preservation.thy ===== *)
theory Preservation
  imports Invariant
begin

text \<open>
  Every statement of the program keeps the invariant: what a statement needs beside it (a
  live parent for a new row, no children under a deletion mark) is what its callers check
  before they run it.
\<close>

section \<open>Growing and rewriting tables\<close>

lemma index_of_append: "index_of K kind idx rid \<Longrightarrow> index_of (K @ [k]) kind idx rid"
  by (auto simp: index_of_def)

lemma row_ok_append:
  "vrow_ok K v \<Longrightarrow> vrow_ok (K @ [k]) v" "srow_ok K s \<Longrightarrow> srow_ok (K @ [k]) s"
  "irow_ok K n \<Longrightarrow> irow_ok (K @ [k]) n" "erow_ok K e \<Longrightarrow> erow_ok (K @ [k]) e"
  by (auto simp: vrow_ok_def srow_ok_def irow_ok_def erow_ok_def index_of_append)

lemma tables_ok_append:
  "vpcs_ok K V \<Longrightarrow> vpcs_ok (K @ [k]) V" "subnets_ok K V S \<Longrightarrow> subnets_ok (K @ [k]) V S"
  "instances_ok K S E I \<Longrightarrow> instances_ok (K @ [k]) S E I" "enis_ok K S I E \<Longrightarrow> enis_ok (K @ [k]) S I E"
  by (auto simp: inv_defs list_all_iff intro: row_ok_append)

text \<open>
  Updates that keep what other tables look at: a row's identity, its block, its parent and
  its deletion mark.
\<close>

lemma distinct_map_upd: "distinct (map k rs) \<Longrightarrow> (\<And>r. k (f r) = k r) \<Longrightarrow> distinct (map k (upd P f rs))"
  by simp

lemma upd_exI:
  assumes "r \<in> set rs" and "Q r" and "\<And>r. P r \<Longrightarrow> Q r \<Longrightarrow> Q (f r)"
  shows "\<exists>r \<in> set (upd P f rs). Q r"
  using assms by (auto simp: set_upd)

lemma upd_ex:
  assumes "\<exists>r \<in> set rs. Q r" and "\<And>r. r \<in> set rs \<Longrightarrow> P r \<Longrightarrow> Q r \<Longrightarrow> Q (f r)"
  shows "\<exists>r \<in> set (upd P f rs). Q r"
  using assms by (auto simp: set_upd)

lemma parent_ok_upd:
  assumes "parent_ok V s"
    and "\<And>r. r \<in> set V \<Longrightarrow> P r \<Longrightarrow> vr_id r = sr_vpc_id s \<Longrightarrow>
      vr_id (f r) = vr_id r \<and> vr_cidr_block (f r) = vr_cidr_block r \<and>
      vr_deletion_requested (f r) = vr_deletion_requested r"
  shows "parent_ok (upd P f V) s"
  using assms unfolding parent_ok_def by (intro upd_ex) auto

lemma subnet_live_upd:
  assumes "subnet_live S n"
    and "\<And>r. r \<in> set S \<Longrightarrow> P r \<Longrightarrow> sr_id r = ir_subnet_id n \<Longrightarrow>
      sr_id (f r) = sr_id r \<and> sr_deletion_requested (f r) = sr_deletion_requested r"
  shows "subnet_live (upd P f S) n"
  using assms unfolding subnet_live_def by (intro upd_ex) auto

lemma address_ok_upd:
  assumes "address_ok S e" and "\<And>r. sr_id (f r) = sr_id r \<and> sr_cidr_block (f r) = sr_cidr_block r"
  shows "address_ok (upd P f S) e"
  using assms unfolding address_ok_def by (intro upd_ex) (auto split: option.splits)

lemma owner_ok_upd:
  assumes "owner_ok I e" and "\<And>r. ir_id (f r) = ir_id r \<and> ir_subnet_id (f r) = ir_subnet_id r"
  shows "owner_ok (upd P f I) e"
  using assms unfolding owner_ok_def by (intro upd_ex) auto

lemma has_eni_upd:
  assumes "has_eni E n" and "\<And>r. er_instance_id (f r) = er_instance_id r"
  shows "has_eni (upd P f E) n"
  using assms unfolding has_eni_def by (intro upd_ex) auto

lemma siblings_ok_upd:
  assumes "siblings_ok S"
    and f: "\<And>r. sr_id (f r) = sr_id r" "\<And>r. sr_vpc_id (f r) = sr_vpc_id r" "\<And>r. sr_cidr_block (f r) = sr_cidr_block r"
  shows "siblings_ok (upd P f S)"
  using assms(1) by (auto simp: siblings_ok_def set_upd f)

section \<open>Statements keep the invariant\<close>

lemma inv_AllocateIndex:
  assumes "db_inv d" and "tx_AllocateIndex t kind rid d = Inr (idx, d')"
  shows "db_inv d'" and "index_of (kernel_indexes d') kind idx rid"
    and "vpcs d' = vpcs d" "subnets d' = subnets d" "instances d' = instances d" "enis d' = enis d"
    and "events d' = events d" "idempotency_requests d' = idempotency_requests d" "event_seq d' = event_seq d"
    and "1 \<le> idx" "idx \<le> max_int64"
    and "\<And>k x y. index_of (kernel_indexes d) k x y \<Longrightarrow> x \<noteq> idx \<and> y \<noteq> rid \<and> index_of (kernel_indexes d') k x y"
proof -
  let ?k = "\<lparr>kr_id = kernel_seq d + 1, kr_resource_kind = kind, kr_resource_id = rid, kr_allocated_at = t\<rparr>"
  have step: "d' = d\<lparr>kernel_seq := kernel_seq d + 1, kernel_indexes := kernel_indexes d @ [?k]\<rparr>"
      "idx = kernel_seq d + 1" "kernel_seq d \<noteq> max_int64"
      "\<not> (\<exists>k \<in> set (kernel_indexes d). kr_resource_id k = rid)"
    using assms(2) by (auto simp: tx_AllocateIndex_def q_InsertKernelIndex_def split: if_splits)
  have K: "kernel_ok (kernel_indexes d) (kernel_seq d)" using assms(1) by (simp add: db_inv_def)
  have "kernel_seq d + 1 \<notin> kr_id ` set (kernel_indexes d)"
    using K by (fastforce simp: kernel_ok_def list_all_iff)
  then have K': "kernel_ok (kernel_indexes d @ [?k]) (kernel_seq d + 1)"
    using K step(3,4) by (force simp: kernel_ok_def list_all_iff)
  show "db_inv d'" using assms(1) K' by (simp add: step(1) db_inv_def tables_ok_append)
  show "index_of (kernel_indexes d') kind idx rid" by (simp add: step index_of_def)
  show "vpcs d' = vpcs d" "subnets d' = subnets d" "instances d' = instances d" "enis d' = enis d"
    "events d' = events d" "idempotency_requests d' = idempotency_requests d" "event_seq d' = event_seq d"
    by (simp_all add: step(1))
  show "1 \<le> idx" "idx \<le> max_int64" using K step(2,3) by (auto simp: kernel_ok_def)
  show "x \<noteq> idx \<and> y \<noteq> rid \<and> index_of (kernel_indexes d') k x y" if "index_of (kernel_indexes d) k x y" for k x y
    using that step \<open>kernel_seq d + 1 \<notin> kr_id ` set (kernel_indexes d)\<close>
    by (force simp: index_of_def image_iff)
qed

lemma inv_AppendEvent:
  assumes "db_inv d" and "tx_AppendEvent ws rt rid act st g msg t d = Inr (u, d')"
  shows "db_inv d'" and "vpcs d' = vpcs d" "subnets d' = subnets d" "instances d' = instances d" "enis d' = enis d"
    "kernel_indexes d' = kernel_indexes d" "idempotency_requests d' = idempotency_requests d"
proof -
  define e where "e = \<lparr>ev_id = event_seq d + 1, ev_workspace_id = ws, ev_resource_type = rt,
    ev_resource_id = rid, ev_action = act, ev_state = st, ev_generation = g, ev_message = msg, ev_created_at = t\<rparr>"
  have step: "d' = d\<lparr>event_seq := event_seq d + 1, events := events d @ [e]\<rparr>"
      "event_seq d \<noteq> max_int64"
    using assms(2) by (auto simp: tx_AppendEvent_def q_InsertEvent_def e_def split: if_splits)
  have L: "events_ok (events d) (event_seq d)" using assms(1) by (simp add: db_inv_def)
  moreover have "ev_id e = event_seq d + 1" by (simp add: e_def)
  ultimately have "events_ok (events d @ [e]) (event_seq d + 1)"
    using step(2) by (fastforce simp: events_ok_def sorted_wrt_append list_all_iff)
  then show "db_inv d'" using assms(1) step(1) by (auto simp: db_inv_def)
  show "vpcs d' = vpcs d" "subnets d' = subnets d" "instances d' = instances d" "enis d' = enis d"
    "kernel_indexes d' = kernel_indexes d" "idempotency_requests d' = idempotency_requests d"
    using step(1) by auto
qed

lemma inv_saveReplay:
  assumes "db_inv d" and "saveReplay encode op key hash rid x t d = Inr (u, d')"
    and "\<And>r. id_operation r = op \<Longrightarrow> id_response_json r = encode x \<Longrightarrow> replay_ok r"
  shows "db_inv d'" and "vpcs d' = vpcs d" "subnets d' = subnets d" "instances d' = instances d" "enis d' = enis d"
    "kernel_indexes d' = kernel_indexes d"
proof -
  have R: "idem_ok (idempotency_requests d)" using assms(1) by (simp add: db_inv_def)
  have step: "\<exists>R. d' = d\<lparr>idempotency_requests := R\<rparr> \<and> idem_ok R"
  proof (cases "key = []")
    case True
    then have "d' = d\<lparr>idempotency_requests := idempotency_requests d\<rparr>" using assms(2) by (simp add: saveReplay_def)
    then show ?thesis using R by blast
  next
    case False
    define n where "n = \<lparr>id_workspace_id = ''default'', id_operation = op, id_key = key,
             id_payload_hash = hash, id_resource_id = rid, id_created_at = t,
             id_expires_at = t + 24 * 60 * 60, id_response_json = encode x\<rparr>"
    define f :: "idem_row \<Rightarrow> idem_row" where
      "f = (\<lambda>r. r\<lparr>id_payload_hash := id_payload_hash n, id_resource_id := id_resource_id n,
         id_response_json := id_response_json n, id_created_at := id_created_at n,
         id_expires_at := id_expires_at n\<rparr>)"
    let ?P = "idem_key (id_workspace_id n) (id_operation n) (id_key n)"
    have put: "q_PutIdempotency n d = Inr (u, d')"
      using False assms(2) by (simp add: saveReplay_def tx_PutIdempotency_def n_def)
    show ?thesis
    proof (cases "\<exists>r \<in> set (idempotency_requests d). ?P r")
      case True
      then have "d' = d\<lparr>idempotency_requests := upd ?P f (idempotency_requests d)\<rparr>"
        using put by (simp add: q_PutIdempotency_def f_def)
      moreover have "replay_ok (f r)" if "?P r" for r
        using that by (intro assms(3)) (auto simp: f_def n_def idem_key_def)
      then have "idem_ok (upd ?P f (idempotency_requests d))"
        using R unfolding idem_ok_def by (auto intro!: distinct_map_upd list_all_upd simp: f_def)
      ultimately show ?thesis by blast
    next
      case False
      then have "d' = d\<lparr>idempotency_requests := idempotency_requests d @ [n]\<rparr>"
        using put by (auto simp: q_PutIdempotency_def split: if_splits)
      moreover have "replay_ok n" by (intro assms(3)) (simp_all add: n_def)
      then have "idem_ok (idempotency_requests d @ [n])"
        using R False unfolding idem_ok_def by (auto simp: idem_key_def)
      ultimately show ?thesis by blast
    qed
  qed
  then show "db_inv d'" "vpcs d' = vpcs d" "subnets d' = subnets d" "instances d' = instances d" "enis d' = enis d"
    "kernel_indexes d' = kernel_indexes d"
    using assms(1) by (auto simp: db_inv_def)
qed


lemma vpc_check_new: "name_check name \<Longrightarrow>
  vpc_check \<lparr>vr_id = i, vr_workspace_id = ws, vr_short_index = idx, vr_name = name,
              vr_cidr_block = cidr, vr_generation = 1, vr_observed_generation = 0,
              vr_state = ''pending'', vr_state_reason = [], vr_created_at = t,
              vr_updated_at = t', vr_deletion_requested = 0\<rparr>"
  by (simp add: vpc_check_def generation_check_def)

lemma parent_ok_append: "parent_ok V s \<Longrightarrow> parent_ok (V @ [v]) s"
  by (auto simp: parent_ok_def)

lemma inv_InsertVPC:
  assumes "db_inv d" and "tx_InsertVPC v t d = Inr (u, d')" and "cidr_ok (vpc_CIDRBlock v)"
    and "vpc_WorkspaceID v = defaultWorkspace" and "validPageID ''vpc'' (vpc_ID v)"
    and "index_of (kernel_indexes d) ''vpc'' (vpc_ShortIndex v) (vpc_ID v)"
  shows "db_inv d'"
proof -
  define r where "r = \<lparr>vr_id = vpc_ID v, vr_workspace_id = vpc_WorkspaceID v, vr_short_index = vpc_ShortIndex v,
    vr_name = vpc_Name v, vr_cidr_block = prefix_string (vpc_CIDRBlock v), vr_generation = 1,
    vr_observed_generation = 0, vr_state = ''pending'', vr_state_reason = [], vr_created_at = t,
    vr_updated_at = t, vr_deletion_requested = 0\<rparr>"
  have step: "d' = d\<lparr>vpcs := vpcs d @ [r]\<rparr>" "vpc_check r"
      "\<not> (\<exists>x \<in> set (vpcs d). vr_id x = vr_id r)"
      "\<not> (\<exists>x \<in> set (vpcs d). vr_short_index x = vr_short_index r \<or>
          (vr_workspace_id x = vr_workspace_id r \<and> vr_name x = vr_name r))"
    using assms(2) by (auto simp: tx_InsertVPC_def q_InsertVPC_def r_def Let_def split: if_splits)
  have V: "vpcs_ok (kernel_indexes d) (vpcs d)" using assms(1) by (simp add: db_inv_def)
  have "vrow_ok (kernel_indexes d) r"
    using step(2) assms(3-6) cidr_text_string [OF assms(3)] by (simp add: vrow_ok_def r_def)
  moreover have "vr_name x \<noteq> vr_name r" if "x \<in> set (vpcs d)" for x
    using step(4) that vpcs_row [OF V that] assms(4) by (auto simp: vrow_ok_def r_def)
  ultimately have "vpcs_ok (kernel_indexes d) (vpcs d @ [r])"
    using V step(3) by (fastforce simp: vpcs_ok_def)
  then show ?thesis
    using assms(1) by (auto simp: step(1) db_inv_def subnets_ok_def list_all_iff intro: parent_ok_append)
qed

text \<open>A parent, a subnet or an instance other than the one that changes stays as it is.\<close>

lemma inv_UpdateVPC:
  assumes "db_inv d" and "d' = d\<lparr>vpcs := upd P f (vpcs d)\<rparr>"
    and keep: "\<And>r. vr_id (f r) = vr_id r" "\<And>r. vr_name (f r) = vr_name r"
      "\<And>r. vr_cidr_block (f r) = vr_cidr_block r"
    and row: "\<And>r. r \<in> set (vpcs d) \<Longrightarrow> P r \<Longrightarrow> vrow_ok (kernel_indexes d) r \<Longrightarrow> vrow_ok (kernel_indexes d) (f r)"
    and del: "\<And>r s. r \<in> set (vpcs d) \<Longrightarrow> P r \<Longrightarrow> s \<in> set (subnets d) \<Longrightarrow> sr_vpc_id s = vr_id r \<Longrightarrow>
      vr_deletion_requested (f r) = vr_deletion_requested r"
  shows "db_inv d'"
proof -
  have V: "vpcs_ok (kernel_indexes d) (vpcs d)" and S: "subnets_ok (kernel_indexes d) (vpcs d) (subnets d)"
    using assms(1) by (simp_all add: db_inv_def)
  have "vpcs_ok (kernel_indexes d) (upd P f (vpcs d))"
    using V keep row unfolding vpcs_ok_def by (auto intro!: list_all_upd)
  moreover have "parent_ok (upd P f (vpcs d)) s" if "s \<in> set (subnets d)" for s
    using subnets_row [OF S that] keep del that by (intro parent_ok_upd) auto
  then have "subnets_ok (kernel_indexes d) (upd P f (vpcs d)) (subnets d)"
    using S by (simp add: subnets_ok_def list_all_iff)
  ultimately show ?thesis using assms(1) by (simp add: assms(2) db_inv_def)
qed

lemma inv_MarkVPCDeleting:
  assumes "db_inv d" and "q_MarkVPCDeleting t i ws d = Inr (u, d')"
    and "\<forall>s \<in> set (subnets d). sr_vpc_id s \<noteq> i"
  shows "db_inv d'"
proof -
  let ?f = "\<lambda>r. r\<lparr>vr_state := ''deleting'', vr_state_reason := [], vr_deletion_requested := 1,
                   vr_generation := vr_generation r + 1, vr_updated_at := t\<rparr>"
  let ?P = "\<lambda>r. vpc_key i ws r \<and> vr_deletion_requested r = 0"
  have step: "d' = d\<lparr>vpcs := upd ?P ?f (vpcs d)\<rparr>" "list_all vpc_check (upd ?P ?f (vpcs d))"
    using assms(2) by (auto simp: q_MarkVPCDeleting_def Let_def split: if_splits)
  show ?thesis
  proof (rule inv_UpdateVPC [OF assms(1) step(1)])
    fix r assume r: "r \<in> set (vpcs d)" "?P r" "vrow_ok (kernel_indexes d) r"
    then have "vpc_check (?f r)" using step(2) by (force simp: list_all_iff set_upd)
    then show "vrow_ok (kernel_indexes d) (?f r)" using r by (simp add: vrow_ok_def)
  qed (use assms(3) in \<open>auto simp: vpc_key_def\<close>)
qed

lemma inv_UpdateVPCStatus:
  assumes "db_inv d" and "q_UpdateVPCStatus st reason og t i ws d = Inr (u, d')"
  shows "db_inv d'"
proof -
  let ?f = "\<lambda>r. r\<lparr>vr_state := st, vr_state_reason := reason, vr_observed_generation := og, vr_updated_at := t\<rparr>"
  have step: "d' = d\<lparr>vpcs := upd (vpc_key i ws) ?f (vpcs d)\<rparr>" "list_all vpc_check (upd (vpc_key i ws) ?f (vpcs d))"
    using assms(2) by (auto simp: q_UpdateVPCStatus_def Let_def split: if_splits)
  show ?thesis
  proof (rule inv_UpdateVPC [OF assms(1) step(1)])
    fix r assume r: "r \<in> set (vpcs d)" "vpc_key i ws r" "vrow_ok (kernel_indexes d) r"
    then have "vpc_check (?f r)" using step(2) by (force simp: list_all_iff set_upd)
    then show "vrow_ok (kernel_indexes d) (?f r)" using r by (simp add: vrow_ok_def)
  qed simp_all
qed

lemma inv_DeleteVPC:
  assumes "db_inv d" and "q_DeleteVPC i ws d = Inr (u, d')"
  shows "db_inv d'"
proof -
  have step: "d' = d\<lparr>vpcs := filter (\<lambda>r. \<not> vpc_key i ws r) (vpcs d)\<rparr>"
      "\<not> (\<exists>v \<in> set (vpcs d). vpc_key i ws v \<and>
          (\<exists>s \<in> set (subnets d). sr_vpc_id s = vr_id v \<and> sr_workspace_id s = vr_workspace_id v))"
    using assms(2) by (auto simp: q_DeleteVPC_def split: if_splits)
  have V: "vpcs_ok (kernel_indexes d) (vpcs d)" and S: "subnets_ok (kernel_indexes d) (vpcs d) (subnets d)"
    using assms(1) by (simp_all add: db_inv_def)
  have "vpcs_ok (kernel_indexes d) (filter (\<lambda>r. \<not> vpc_key i ws r) (vpcs d))"
    using assms(1) by (auto simp: db_inv_def vpcs_ok_def list_all_iff distinct_map_filter_key)
  moreover have "parent_ok (filter (\<lambda>r. \<not> vpc_key i ws r) (vpcs d)) s" if s: "s \<in> set (subnets d)" for s
  proof -
    obtain v where v: "v \<in> set (vpcs d)" "vr_id v = sr_vpc_id s" "vr_deletion_requested v = 0"
        "ValidateSubnetRange (cidr_of (vr_cidr_block v)) (cidr_of (sr_cidr_block s)) = Inr ()"
      using subnets_row [OF S s] by (auto simp: parent_ok_def)
    have "sr_workspace_id s = vr_workspace_id v"
      using subnets_row [OF S s] vpcs_row [OF V v(1)] by (simp add: srow_ok_def vrow_ok_def)
    then have "\<not> vpc_key i ws v" using step(2) v s by auto
    then show ?thesis using v by (auto simp: parent_ok_def)
  qed
  then have "subnets_ok (kernel_indexes d) (filter (\<lambda>r. \<not> vpc_key i ws r) (vpcs d)) (subnets d)"
    using assms(1) by (auto simp: db_inv_def subnets_ok_def list_all_iff)
  ultimately show ?thesis using assms(1) by (simp add: step(1) db_inv_def)
qed

lemma Overlaps_sym: "Overlaps a b = Overlaps b a"
  by (auto simp: Overlaps_def)

lemma inv_InsertSubnet:
  assumes "db_inv d" and "tx_InsertSubnet s t d = Inr (u, d')" and "cidr_ok (sub_CIDRBlock s)"
    and "sub_WorkspaceID s = defaultWorkspace" and "validPageID ''subnet'' (sub_ID s)"
    and "index_of (kernel_indexes d) ''subnet'' (sub_ShortIndex s) (sub_ID s)"
    and v: "v \<in> set (vpcs d)" "vr_id v = sub_VPCID s" "vr_deletion_requested v = 0"
    and range: "ValidateSubnetRange (cidr_of (vr_cidr_block v)) (sub_CIDRBlock s) = Inr ()"
    and disjoint: "\<forall>x \<in> set (subnets d). sr_vpc_id x = sub_VPCID s \<longrightarrow>
      \<not> Overlaps (sub_CIDRBlock s) (cidr_of (sr_cidr_block x))"
  shows "db_inv d'"
proof -
  define r where "r = \<lparr>sr_id = sub_ID s, sr_workspace_id = sub_WorkspaceID s, sr_vpc_id = sub_VPCID s,
    sr_short_index = sub_ShortIndex s, sr_name = sub_Name s, sr_cidr_block = prefix_string (sub_CIDRBlock s),
    sr_availability_zone = sub_AvailabilityZone s, sr_generation = 1, sr_observed_generation = 0,
    sr_state = ''pending'', sr_state_reason = [], sr_created_at = t, sr_updated_at = t,
    sr_deletion_requested = 0\<rparr>"
  have step: "d' = d\<lparr>subnets := subnets d @ [r]\<rparr>" "subnet_check r"
      "\<not> (\<exists>x \<in> set (subnets d). sr_id x = sr_id r)"
      "\<not> (\<exists>x \<in> set (subnets d). sr_short_index x = sr_short_index r \<or>
          (sr_workspace_id x = sr_workspace_id r \<and> sr_name x = sr_name r))"
    using assms(2) by (auto simp: tx_InsertSubnet_def q_InsertSubnet_def r_def Let_def split: if_splits)
  have S: "subnets_ok (kernel_indexes d) (vpcs d) (subnets d)" using assms(1) by (simp add: db_inv_def)
  have block: "cidr_text (sr_cidr_block r)" "cidr_of (sr_cidr_block r) = sub_CIDRBlock s"
    using cidr_text_string [OF assms(3)] by (simp_all add: r_def)
  have "srow_ok (kernel_indexes d) r"
    using step(2) assms(4-6) block(1) by (simp add: srow_ok_def r_def)
  moreover have "parent_ok (vpcs d) r"
    using v range unfolding parent_ok_def block(2) by (auto simp: r_def)
  moreover have "sr_name x \<noteq> sr_name r" if "x \<in> set (subnets d)" for x
    using step(4) that subnets_row [OF S that] assms(4) by (auto simp: srow_ok_def r_def)
  moreover have "siblings_ok (subnets d @ [r])"
    using S disjoint unfolding subnets_ok_def siblings_ok_def
    by (auto simp: block(2) Overlaps_sym) (auto simp: r_def)
  ultimately have "subnets_ok (kernel_indexes d) (vpcs d) (subnets d @ [r])"
    using S step(3) by (fastforce simp: subnets_ok_def)
  then show ?thesis
    using assms(1)
    by (auto simp: step(1) db_inv_def instances_ok_def enis_ok_def list_all_iff subnet_live_def address_ok_def)
qed

lemma inv_UpdateSubnet:
  assumes "db_inv d" and "d' = d\<lparr>subnets := upd P f (subnets d)\<rparr>"
    and keep: "\<And>r. sr_id (f r) = sr_id r" "\<And>r. sr_name (f r) = sr_name r"
      "\<And>r. sr_cidr_block (f r) = sr_cidr_block r" "\<And>r. sr_vpc_id (f r) = sr_vpc_id r"
    and row: "\<And>r. r \<in> set (subnets d) \<Longrightarrow> P r \<Longrightarrow> srow_ok (kernel_indexes d) r \<Longrightarrow> srow_ok (kernel_indexes d) (f r)"
    and del: "\<And>r n. r \<in> set (subnets d) \<Longrightarrow> P r \<Longrightarrow> n \<in> set (instances d) \<Longrightarrow> ir_subnet_id n = sr_id r \<Longrightarrow>
      sr_deletion_requested (f r) = sr_deletion_requested r"
  shows "db_inv d'"
proof -
  have S: "subnets_ok (kernel_indexes d) (vpcs d) (subnets d)"
    and I: "instances_ok (kernel_indexes d) (subnets d) (enis d) (instances d)"
    and E: "enis_ok (kernel_indexes d) (subnets d) (instances d) (enis d)"
    using assms(1) by (simp_all add: db_inv_def)
  have "parent_ok (vpcs d) (f r) = parent_ok (vpcs d) r" for r by (simp add: parent_ok_def keep)
  then have "subnets_ok (kernel_indexes d) (vpcs d) (upd P f (subnets d))"
    using S keep row unfolding subnets_ok_def by (auto intro!: list_all_upd siblings_ok_upd)
  moreover have "subnet_live (upd P f (subnets d)) n" if "n \<in> set (instances d)" for n
    using I keep(1) del that by (intro subnet_live_upd) (auto simp: instances_ok_def list_all_iff)
  then have "instances_ok (kernel_indexes d) (upd P f (subnets d)) (enis d) (instances d)"
    using I by (simp add: instances_ok_def list_all_iff)
  moreover have "enis_ok (kernel_indexes d) (upd P f (subnets d)) (instances d) (enis d)"
    using E keep by (auto simp: enis_ok_def list_all_iff intro!: address_ok_upd)
  ultimately show ?thesis using assms(1) by (simp add: assms(2) db_inv_def)
qed

lemma inv_MarkSubnetDeleting:
  assumes "db_inv d" and "q_MarkSubnetDeleting t i ws d = Inr (u, d')"
    and "\<forall>n \<in> set (instances d). ir_subnet_id n \<noteq> i"
  shows "db_inv d'"
proof -
  let ?f = "\<lambda>r. r\<lparr>sr_state := ''deleting'', sr_state_reason := [], sr_deletion_requested := 1,
                   sr_generation := sr_generation r + 1, sr_updated_at := t\<rparr>"
  let ?P = "\<lambda>r. subnet_key i ws r \<and> sr_deletion_requested r = 0"
  have step: "d' = d\<lparr>subnets := upd ?P ?f (subnets d)\<rparr>" "list_all subnet_check (upd ?P ?f (subnets d))"
    using assms(2) by (auto simp: q_MarkSubnetDeleting_def Let_def split: if_splits)
  show ?thesis
  proof (rule inv_UpdateSubnet [OF assms(1) step(1)])
    fix r assume r: "r \<in> set (subnets d)" "?P r" "srow_ok (kernel_indexes d) r"
    then have "subnet_check (?f r)" using step(2) by (force simp: list_all_iff set_upd)
    then show "srow_ok (kernel_indexes d) (?f r)" using r by (simp add: srow_ok_def)
  qed (use assms(3) in \<open>auto simp: subnet_key_def\<close>)
qed

lemma inv_UpdateSubnetStatus:
  assumes "db_inv d" and "q_UpdateSubnetStatus st reason og t i ws d = Inr (u, d')"
  shows "db_inv d'"
proof -
  let ?f = "\<lambda>r. r\<lparr>sr_state := st, sr_state_reason := reason, sr_observed_generation := og, sr_updated_at := t\<rparr>"
  have step: "d' = d\<lparr>subnets := upd (subnet_key i ws) ?f (subnets d)\<rparr>"
      "list_all subnet_check (upd (subnet_key i ws) ?f (subnets d))"
    using assms(2) by (auto simp: q_UpdateSubnetStatus_def Let_def split: if_splits)
  show ?thesis
  proof (rule inv_UpdateSubnet [OF assms(1) step(1)])
    fix r assume r: "r \<in> set (subnets d)" "subnet_key i ws r" "srow_ok (kernel_indexes d) r"
    then have "subnet_check (?f r)" using step(2) by (force simp: list_all_iff set_upd)
    then show "srow_ok (kernel_indexes d) (?f r)" using r by (simp add: srow_ok_def)
  qed simp_all
qed

lemma inv_DeleteSubnet:
  assumes "db_inv d" and "q_DeleteSubnet i ws d = Inr (u, d')"
  shows "db_inv d'"
proof -
  let ?S = "filter (\<lambda>r. \<not> subnet_key i ws r) (subnets d)"
  have step: "d' = d\<lparr>subnets := ?S\<rparr>"
      "\<not> (\<exists>s \<in> set (subnets d). subnet_key i ws s \<and>
          ((\<exists>n \<in> set (instances d). ir_subnet_id n = sr_id s \<and> ir_workspace_id n = sr_workspace_id s) \<or>
           (\<exists>e \<in> set (enis d). er_subnet_id e = sr_id s \<and> er_workspace_id e = sr_workspace_id s)))"
    using assms(2) by (auto simp: q_DeleteSubnet_def split: if_splits)
  have S: "subnets_ok (kernel_indexes d) (vpcs d) (subnets d)"
    and I: "instances_ok (kernel_indexes d) (subnets d) (enis d) (instances d)"
    and E: "enis_ok (kernel_indexes d) (subnets d) (instances d) (enis d)"
    using assms(1) by (simp_all add: db_inv_def)
  have ws: "sr_workspace_id s = defaultWorkspace" if "s \<in> set (subnets d)" for s
    using subnets_row [OF S that] by (simp add: srow_ok_def)
  have "subnets_ok (kernel_indexes d) (vpcs d) ?S"
    using S by (auto simp: subnets_ok_def list_all_iff siblings_ok_def distinct_map_filter_key)
  moreover have "subnet_live ?S n" if n: "n \<in> set (instances d)" for n
  proof -
    have "subnet_live (subnets d) n" "ir_workspace_id n = defaultWorkspace"
      using I n by (auto simp: instances_ok_def list_all_iff irow_ok_def)
    then show ?thesis using step(2) n ws by (fastforce simp: subnet_live_def)
  qed
  then have "instances_ok (kernel_indexes d) ?S (enis d) (instances d)"
    using I by (simp add: instances_ok_def list_all_iff)
  moreover have "address_ok ?S e" if e: "e \<in> set (enis d)" for e
  proof -
    have "address_ok (subnets d) e" "er_workspace_id e = defaultWorkspace"
      using E e by (auto simp: enis_ok_def list_all_iff erow_ok_def)
    then show ?thesis using step(2) e ws by (fastforce simp: address_ok_def)
  qed
  then have "enis_ok (kernel_indexes d) ?S (instances d) (enis d)"
    using E by (simp add: enis_ok_def list_all_iff)
  ultimately show ?thesis using assms(1) by (simp add: step(1) db_inv_def)
qed

lemma inv_InsertInstanceWithENI:
  assumes "db_inv d" and "tx_InsertInstanceWithENI n e t d = Inr (u, d')"
    and "inst_WorkspaceID n = defaultWorkspace" and "validPageID ''instance'' (inst_ID n)"
    and idx: "index_of (kernel_indexes d) ''instance'' (inst_ShortIndex n) (inst_ID n)"
      "index_of (kernel_indexes d) ''eni'' (eni_ShortIndex e) (eni_ID e)"
    and s: "s \<in> set (subnets d)" "sr_id s = inst_SubnetID n" "sr_deletion_requested s = 0"
    and addr: "Contains (cidr_of (sr_cidr_block s)) (eni_PrivateIP e)"
      "\<not> reservedAddress (cidr_of (sr_cidr_block s)) (eni_PrivateIP e)"
    and eni: "validPageID ''eni'' (eni_ID e)" "\<And>m. validENIMAC (eni_MACAddress e) = Inr m \<Longrightarrow> mac_string m = eni_MACAddress e"
  shows "db_inv d'"
proof -
  define r where "r = \<lparr>ir_id = inst_ID n, ir_workspace_id = inst_WorkspaceID n, ir_subnet_id = inst_SubnetID n,
    ir_short_index = inst_ShortIndex n, ir_name = inst_Name n, ir_generation = 1, ir_observed_generation = 0,
    ir_state = ''pending'', ir_state_reason = [], ir_created_at = t, ir_updated_at = t,
    ir_deletion_requested = 0, ir_runtime_id = None\<rparr>"
  define q where "q = \<lparr>er_id = eni_ID e, er_workspace_id = eni_WorkspaceID e, er_instance_id = eni_InstanceID e,
    er_subnet_id = eni_SubnetID e, er_short_index = eni_ShortIndex e, er_private_ip = addr_string (eni_PrivateIP e),
    er_mac_address = eni_MACAddress e, er_generation = 1, er_observed_generation = 0, er_state = ''pending'',
    er_state_reason = [], er_created_at = t, er_updated_at = t\<rparr>"
  obtain m where guards: "eni_InstanceID e = inst_ID n" "eni_SubnetID e = inst_SubnetID n"
      "eni_WorkspaceID e = inst_WorkspaceID n" "Is4 (eni_PrivateIP e)" "validENIMAC (eni_MACAddress e) = Inr m"
    using assms(2) by (auto simp: tx_InsertInstanceWithENI_def tx_bind_Inr)
  have step: "d' = d\<lparr>instances := instances d @ [r], enis := enis d @ [q]\<rparr>" "instance_check r" "eni_check q"
      "\<not> (\<exists>x \<in> set (instances d). ir_id x = ir_id r)"
      "\<not> (\<exists>x \<in> set (instances d). ir_short_index x = ir_short_index r \<or>
          (ir_workspace_id x = ir_workspace_id r \<and> ir_name x = ir_name r))"
      "\<not> (\<exists>x \<in> set (enis d). er_id x = er_id q)"
      "\<not> (\<exists>x \<in> set (enis d). er_short_index x = er_short_index q \<or> er_mac_address x = er_mac_address q
           \<or> (er_subnet_id x = er_subnet_id q \<and> er_private_ip x = er_private_ip q) \<or> er_instance_id x = er_instance_id q)"
    using assms(2)
    by (auto simp: tx_InsertInstanceWithENI_def q_InsertInstance_def q_InsertENI_def r_def q_def Let_def
        tx_bind_Inr split: if_splits)
  have I: "instances_ok (kernel_indexes d) (subnets d) (enis d) (instances d)"
    and E: "enis_ok (kernel_indexes d) (subnets d) (instances d) (enis d)"
    using assms(1) by (simp_all add: db_inv_def)
  have "irow_ok (kernel_indexes d) r" using step(2) assms(3,4) idx(1) by (simp add: irow_ok_def r_def)
  moreover have "subnet_live (subnets d) r" using s by (auto simp: subnet_live_def r_def)
  moreover have "has_eni (enis d @ [q]) r" using guards(1) by (simp add: has_eni_def q_def r_def)
  moreover have "ir_name x \<noteq> ir_name r" if "x \<in> set (instances d)" for x
    using step(5) that I assms(3) by (auto simp: irow_ok_def r_def instances_ok_def list_all_iff)
  ultimately have I': "instances_ok (kernel_indexes d) (subnets d) (enis d @ [q]) (instances d @ [r])"
    using I step(4) by (fastforce simp: instances_ok_def list_all_iff has_eni_def)
  have "erow_ok (kernel_indexes d) q" using step(3) assms(3) guards idx(2) eni by (simp add: erow_ok_def q_def)
  moreover have "address_ok (subnets d) q"
    using s guards addr unfolding address_ok_def by (auto simp: q_def ParseAddr_string)
  moreover have "owner_ok (instances d @ [r]) q" using guards by (simp add: owner_ok_def r_def q_def)
  ultimately have "enis_ok (kernel_indexes d) (subnets d) (instances d @ [r]) (enis d @ [q])"
    using E step(6,7) by (auto simp: enis_ok_def list_all_iff owner_ok_def)
  then show ?thesis using assms(1) I' by (simp add: step(1) db_inv_def)
qed

lemma inv_UpdateInstance:
  assumes "db_inv d" and "d' = d\<lparr>instances := upd P f (instances d)\<rparr>"
    and keep: "\<And>r. ir_id (f r) = ir_id r" "\<And>r. ir_name (f r) = ir_name r" "\<And>r. ir_subnet_id (f r) = ir_subnet_id r"
    and row: "\<And>r. r \<in> set (instances d) \<Longrightarrow> P r \<Longrightarrow> irow_ok (kernel_indexes d) r \<Longrightarrow> irow_ok (kernel_indexes d) (f r)"
  shows "db_inv d'"
proof -
  have I: "instances_ok (kernel_indexes d) (subnets d) (enis d) (instances d)"
    and E: "enis_ok (kernel_indexes d) (subnets d) (instances d) (enis d)"
    using assms(1) by (simp_all add: db_inv_def)
  have "subnet_live (subnets d) (f r) = subnet_live (subnets d) r" "has_eni (enis d) (f r) = has_eni (enis d) r" for r
    by (simp_all add: subnet_live_def has_eni_def keep)
  then have "instances_ok (kernel_indexes d) (subnets d) (enis d) (upd P f (instances d))"
    using I keep row unfolding instances_ok_def by (auto intro!: list_all_upd)
  moreover have "enis_ok (kernel_indexes d) (subnets d) (upd P f (instances d)) (enis d)"
    using E keep by (auto simp: enis_ok_def list_all_iff intro!: owner_ok_upd)
  ultimately show ?thesis using assms(1) by (simp add: assms(2) db_inv_def)
qed

lemma inv_MarkInstanceTerminating:
  assumes "db_inv d" and "q_MarkInstanceTerminating t i ws d = Inr (u, d')"
  shows "db_inv d'"
proof -
  let ?f = "\<lambda>r. r\<lparr>ir_state := ''shutting-down'', ir_state_reason := [], ir_deletion_requested := 1,
                   ir_generation := ir_generation r + 1, ir_updated_at := t\<rparr>"
  let ?P = "\<lambda>r. instance_key i ws r \<and> ir_deletion_requested r = 0"
  have step: "d' = d\<lparr>instances := upd ?P ?f (instances d)\<rparr>" "list_all instance_check (upd ?P ?f (instances d))"
    using assms(2) by (auto simp: q_MarkInstanceTerminating_def Let_def split: if_splits)
  show ?thesis
  proof (rule inv_UpdateInstance [OF assms(1) step(1)])
    fix r assume r: "r \<in> set (instances d)" "?P r" "irow_ok (kernel_indexes d) r"
    then have "instance_check (?f r)" using step(2) by (force simp: list_all_iff set_upd)
    then show "irow_ok (kernel_indexes d) (?f r)" using r by (simp add: irow_ok_def)
  qed simp_all
qed

lemma inv_UpdateInstanceStatus:
  assumes "db_inv d" and "q_UpdateInstanceStatus st reason og t i ws d = Inr (u, d')"
  shows "db_inv d'"
proof -
  let ?f = "\<lambda>r. r\<lparr>ir_state := st, ir_state_reason := reason, ir_observed_generation := og, ir_updated_at := t\<rparr>"
  have step: "d' = d\<lparr>instances := upd (instance_key i ws) ?f (instances d)\<rparr>"
      "list_all instance_check (upd (instance_key i ws) ?f (instances d))"
    using assms(2) by (auto simp: q_UpdateInstanceStatus_def Let_def split: if_splits)
  show ?thesis
  proof (rule inv_UpdateInstance [OF assms(1) step(1)])
    fix r assume r: "r \<in> set (instances d)" "instance_key i ws r" "irow_ok (kernel_indexes d) r"
    then have "instance_check (?f r)" using step(2) by (force simp: list_all_iff set_upd)
    then show "irow_ok (kernel_indexes d) (?f r)" using r by (simp add: irow_ok_def)
  qed simp_all
qed

text \<open>Both statements that set a runtime identifier write a non-empty one.\<close>

lemma inv_set_runtime:
  assumes "db_inv d" and "rid \<noteq> []"
  shows "db_inv (d\<lparr>instances := upd P (\<lambda>r. r\<lparr>ir_runtime_id := Some rid\<rparr>) (instances d)\<rparr>)"
  using assms(2) by (intro inv_UpdateInstance [OF assms(1) refl]) (auto simp: irow_ok_def instance_check_def)

lemma inv_UpdateInstanceENIStatus:
  assumes "db_inv d" and "q_UpdateInstanceENIStatus st reason og t i ws d = Inr (u, d')"
  shows "db_inv d'"
proof -
  let ?f = "\<lambda>r. r\<lparr>er_state := st, er_state_reason := reason, er_observed_generation := og, er_updated_at := t\<rparr>"
  let ?E = "upd (eni_key i ws) ?f (enis d)"
  have step: "d' = d\<lparr>enis := ?E\<rparr>" "list_all eni_check ?E"
    using assms(2) by (auto simp: q_UpdateInstanceENIStatus_def Let_def split: if_splits)
  have I: "instances_ok (kernel_indexes d) (subnets d) (enis d) (instances d)"
    and E: "enis_ok (kernel_indexes d) (subnets d) (instances d) (enis d)"
    using assms(1) by (simp_all add: db_inv_def)
  have "erow_ok (kernel_indexes d) (?f e)" if "e \<in> set (enis d)" "eni_key i ws e" for e
  proof -
    have "eni_check (?f e)" using step(2) that by (force simp: list_all_iff set_upd)
    then show ?thesis using E that by (auto simp: enis_ok_def list_all_iff erow_ok_def cong: sum.case_cong)
  qed
  moreover have "address_ok (subnets d) (?f e) = address_ok (subnets d) e"
    "owner_ok (instances d) (?f e) = owner_ok (instances d) e" for e
    by (simp_all add: address_ok_def owner_ok_def cong: option.case_cong)
  ultimately have "enis_ok (kernel_indexes d) (subnets d) (instances d) ?E"
    using E unfolding enis_ok_def by (auto intro!: list_all_upd)
  moreover have "instances_ok (kernel_indexes d) (subnets d) ?E (instances d)"
    using I by (auto simp: instances_ok_def list_all_iff intro!: has_eni_upd)
  ultimately show ?thesis using assms(1) by (simp add: step(1) db_inv_def)
qed

text \<open>An instance leaves together with its interface.\<close>

lemma inv_DeleteInstanceWithENI:
  assumes "db_inv d" and n: "n \<in> set (instances d)" "ir_id n = i" and e: "e \<in> set (enis d)" "er_instance_id e = i"
    and "q_DeleteInstanceENI (er_id e) defaultWorkspace d = Inr (u, d1)"
    and "q_DeleteInstance i defaultWorkspace d1 = Inr (u', d')"
  shows "db_inv d'"
proof -
  let ?E = "filter (\<lambda>r. \<not> eni_key (er_id e) defaultWorkspace r) (enis d)"
  let ?I = "filter (\<lambda>r. \<not> instance_key i defaultWorkspace r) (instances d)"
  have step: "d' = d\<lparr>enis := ?E, instances := ?I\<rparr>"
    using assms(6,7) by (auto simp: q_DeleteInstanceENI_def q_DeleteInstance_def split: if_splits)
  have I: "instances_ok (kernel_indexes d) (subnets d) (enis d) (instances d)"
    and E: "enis_ok (kernel_indexes d) (subnets d) (instances d) (enis d)"
    using assms(1) by (simp_all add: db_inv_def)
  have ws: "x \<in> set (enis d) \<Longrightarrow> er_workspace_id x = defaultWorkspace"
    "y \<in> set (instances d) \<Longrightarrow> ir_workspace_id y = defaultWorkspace" for x y
    using I E by (auto simp: instances_ok_def enis_ok_def list_all_iff irow_ok_def erow_ok_def)
  have same: "er_id x = er_id e \<longleftrightarrow> er_instance_id x = i" if "x \<in> set (enis d)" for x
    using E e that by (auto simp: enis_ok_def dest: distinct_map_unique)
  have "has_eni ?E y" if "y \<in> set (instances d)" "ir_id y \<noteq> i" for y
    using I that same by (fastforce simp: instances_ok_def list_all_iff has_eni_def eni_key_def)
  then have I': "instances_ok (kernel_indexes d) (subnets d) ?E ?I"
    using I ws by (auto simp: instances_ok_def list_all_iff instance_key_def distinct_map_filter_key)
  have "owner_ok ?I x" if "x \<in> set (enis d)" "er_id x \<noteq> er_id e" for x
    using E that same by (fastforce simp: enis_ok_def list_all_iff owner_ok_def instance_key_def)
  then have "enis_ok (kernel_indexes d) (subnets d) ?I ?E"
    using E ws by (auto simp: enis_ok_def list_all_iff eni_key_def distinct_map_filter_key)
  then show ?thesis using assms(1) I' by (simp add: step db_inv_def)
qed

end
