(* ===== verification/Operations.thy ===== *)
theory Operations
  imports Preservation
begin

text \<open>
  Every operation of the store and of the services keeps the invariant, whatever its
  input, its environment and its outcome, so it holds after any sequence of requests and
  controller writes in any order.
\<close>

section \<open>Transactions\<close>

definition tx_keeps :: "(db \<Rightarrow> bool) \<Rightarrow> 'a tx \<Rightarrow> bool" where
  "tx_keeps P m \<longleftrightarrow> (\<forall>d x d'. P d \<longrightarrow> m d = Inr (x, d') \<longrightarrow> P d')"

lemma tx_keepsI: "(\<And>d x d'. P d \<Longrightarrow> m d = Inr (x, d') \<Longrightarrow> P d') \<Longrightarrow> tx_keeps P m"
  by (auto simp: tx_keeps_def)

text \<open>A transaction made of statements that keep the invariant keeps it.\<close>

named_theorems keeps \<open>statements and combinators that keep the invariant\<close>

lemma keeps_bind [keeps]: "tx_keeps P m \<Longrightarrow> (\<And>x. tx_keeps P (f x)) \<Longrightarrow> tx_keeps P (tx_bind m f)"
  unfolding tx_keeps_def tx_bind_Inr by blast

lemma keeps_reads [keeps]:
  "tx_keeps P (tx_return x)" "tx_keeps P (tx_fail e)" "tx_keeps P (tx_guard b e)" "tx_keeps P (tx_read g)" "tx_keeps P (tx_try g)"
  by (auto simp: tx_keeps_def)

lemma keeps_wrap [keeps]: "tx_keeps P m \<Longrightarrow> tx_keeps P (tx_wrap p m)"
  by (auto simp: tx_keeps_def)

lemma keeps_iter [keeps]: "(\<And>x. tx_keeps P (f x)) \<Longrightarrow> tx_keeps P (tx_iter f xs)"
  by (induction xs) (auto intro!: keeps)

lemma keeps_cases [keeps]:
  "(b \<Longrightarrow> tx_keeps P m) \<Longrightarrow> (\<not> b \<Longrightarrow> tx_keeps P n) \<Longrightarrow> tx_keeps P (if b then m else n)"
  "(\<And>e. tx_keeps P (g e)) \<Longrightarrow> (\<And>x. tx_keeps P (h x)) \<Longrightarrow> tx_keeps P (case y of Inl e \<Rightarrow> g e | Inr x \<Rightarrow> h x)"
  by (auto split: sum.split)

lemma keeps_statements [keeps]:
  "tx_keeps db_inv (tx_AppendEvent ws rt rid act st g msg t)" "tx_keeps db_inv (q_UpdateVPCStatus st reason og t i ws)"
  "tx_keeps db_inv (q_UpdateSubnetStatus st reason og t i ws)" "tx_keeps db_inv (q_UpdateInstanceStatus st reason og t i ws)"
  "tx_keeps db_inv (q_UpdateInstanceENIStatus st reason og t i ws)" "tx_keeps db_inv (q_DeleteVPC i ws)"
  "tx_keeps db_inv (q_DeleteSubnet i ws)" "tx_keeps db_inv (q_MarkInstanceTerminating t i ws)"
  by (rule tx_keepsI, erule (1) inv_AppendEvent(1) inv_UpdateVPCStatus inv_UpdateSubnetStatus
      inv_UpdateInstanceStatus inv_UpdateInstanceENIStatus inv_DeleteVPC inv_DeleteSubnet inv_MarkInstanceTerminating)+

lemma WithTx_cases:
  obtains (failed) e where "WithTx f m d = (Inl e, d)"
  | (committed) x d' where "f = NoFault" "m d = Inr (x, d')" "WithTx f m d = (Inr x, d')"
  by (cases f; cases "m d") (auto simp: WithTx_def)

lemma WithTx_keeps: "tx_keeps P m \<Longrightarrow> P d \<Longrightarrow> P (snd (WithTx f m d))"
  by (rule WithTx_cases [of f m d]) (auto simp: tx_keeps_def)

lemma autocommit_keeps: "tx_keeps P m \<Longrightarrow> P d \<Longrightarrow> P (snd (autocommit m d))"
  by (auto simp: autocommit_def tx_keeps_def split: sum.splits)

lemmas WithTx_inv = WithTx_keeps [of db_inv]

lemma reply_keeps: "fst (snd (reply (WithTx f m d))) = snd (WithTx f m d)"
  by (auto simp: reply_def split: prod.splits sum.splits)

lemma name_free_Inr [simp]: "name_free look e d = Inr (u, d') \<longleftrightarrow> (\<exists>x. look d = Inl x \<and> err_is ErrNoRows x) \<and> d' = d"
  by (auto simp: name_free_def tx_bind_Inr split: sum.splits if_splits)

lemma or_missing_Inr [simp]: "or_missing e m = Inr x \<longleftrightarrow> m = Inr x"
  by (simp add: or_missing_def)

text \<open>The snapshots that the three create requests build.\<close>

abbreviation pending_VPC :: "string \<Rightarrow> string \<Rightarrow> prefix \<Rightarrow> int \<Rightarrow> VPC" where
  "pending_VPC i name cidr idx \<equiv>
     zero_VPC\<lparr>vpc_ID := i, vpc_WorkspaceID := defaultWorkspace, vpc_Name := name, vpc_CIDRBlock := cidr,
       vpc_ShortIndex := idx, vpc_State := StatePending, vpc_Generation := 1\<rparr>"

abbreviation pending_Subnet :: "string \<Rightarrow> string \<Rightarrow> string \<Rightarrow> prefix \<Rightarrow> string \<Rightarrow> int \<Rightarrow> Subnet" where
  "pending_Subnet i vid name cidr az idx \<equiv>
     zero_Subnet\<lparr>sub_ID := i, sub_WorkspaceID := defaultWorkspace, sub_VPCID := vid, sub_Name := name,
       sub_CIDRBlock := cidr, sub_AvailabilityZone := az, sub_ShortIndex := idx, sub_State := StatePending,
       sub_Generation := 1\<rparr>"

abbreviation pending_ENI :: "string \<Rightarrow> string \<Rightarrow> string \<Rightarrow> addr \<Rightarrow> int \<Rightarrow> ENI" where
  "pending_ENI eniID i sid a idx \<equiv>
     zero_ENI\<lparr>eni_ID := eniID, eni_WorkspaceID := defaultWorkspace, eni_InstanceID := i, eni_SubnetID := sid,
       eni_ShortIndex := idx, eni_PrivateIP := a, eni_MACAddress := mac_string (eniMAC eniID),
       eni_Generation := 1, eni_State := StatePending\<rparr>"

abbreviation pending_Instance :: "string \<Rightarrow> string \<Rightarrow> string \<Rightarrow> int \<Rightarrow> ENI \<Rightarrow> Instance" where
  "pending_Instance i sid name idx e \<equiv>
     zero_Instance\<lparr>inst_ID := i, inst_WorkspaceID := defaultWorkspace, inst_SubnetID := sid, inst_Name := name,
       inst_ShortIndex := idx, inst_InstanceType := ''t3.micro'', inst_State := InstancePending,
       inst_Generation := 1, inst_ENI := e\<rparr>"

section \<open>VPC requests\<close>

lemma tables_inv:
  assumes "db_inv d"
  shows "vpcs_ok (kernel_indexes d) (vpcs d)" "subnets_ok (kernel_indexes d) (vpcs d) (subnets d)"
    "instances_ok (kernel_indexes d) (subnets d) (enis d) (instances d)"
    "enis_ok (kernel_indexes d) (subnets d) (instances d) (enis d)"
  using assms by (simp_all add: db_inv_def)

lemma ValidateName_valid: "ValidateName raw = Inr name \<Longrightarrow> ValidString name"
  by (auto simp: ValidateName_def Let_def ValidString_TrimSpace split: if_splits)

lemma ValidString_page:
  "validPageID ''vpc'' i \<Longrightarrow> ValidString i" "validPageID ''subnet'' i \<Longrightarrow> ValidString i"
  "validPageID ''instance'' i \<Longrightarrow> ValidString i" "validPageID ''eni'' i \<Longrightarrow> ValidString i"
  by (erule validPageID_ValidString, simp add: id_prefix_def)+

lemma ValidString_literals [simp]:
  "ValidString []" "ValidString ''default''" "ValidString ''pending''" "ValidString ''t3.micro''"
  by (simp_all add: ValidString_ascii)

lemma int64_index: "1 \<le> idx \<Longrightarrow> idx \<le> max_int64 \<Longrightarrow> int64 idx" "int64 0" "int64 1"
  by (simp_all add: int64_def max_int64_def)

lemma saved_tables:
  assumes "saveReplay encode op key hash rid x t d = Inr (u, d')"
  shows "vpcs d' = vpcs d" "subnets d' = subnets d" "instances d' = instances d" "enis d' = enis d"
  using assms
  by (auto simp: saveReplay_def tx_PutIdempotency_def q_PutIdempotency_def Let_def split: if_splits option.splits)

lemma appended_tables:
  assumes "tx_AppendEvent ws rt rid act st g msg t d = Inr (u, d')"
  shows "vpcs d' = vpcs d" "subnets d' = subnets d" "instances d' = instances d" "enis d' = enis d"
  using assms by (auto simp: tx_AppendEvent_def q_InsertEvent_def Let_def split: if_splits)

lemma indexed_tables:
  assumes "tx_AllocateIndex t kind rid d = Inr (idx, d')"
  shows "vpcs d' = vpcs d" "subnets d' = subnets d" "instances d' = instances d" "enis d' = enis d"
  using assms by (auto simp: tx_AllocateIndex_def q_InsertKernelIndex_def Let_def split: if_splits)

lemma CreateVPC_run:
  assumes "tx_CreateVPC unixepoch name cidr key hash i now d = Inr (x, d')"
  obtains (replayed) v where "loadReplay vpc_unmarshal ''create-vpc'' key hash now d = Inr (Some v)" "x = (v, [])" "d' = d"
  | (created) idx d1 d2 d3 where "tx_AllocateIndex unixepoch ''vpc'' i d = Inr (idx, d1)"
      "tx_InsertVPC (pending_VPC i name cidr idx) now d1 = Inr ((), d2)"
      "tx_AppendEvent defaultWorkspace ''vpc'' i ''created'' StatePending 1 [] now d2 = Inr ((), d3)"
      "saveReplay vpc_marshal ''create-vpc'' key hash i (pending_VPC i name cidr idx) now d3 = Inr ((), d')"
      "x = (pending_VPC i name cidr idx, [i])"
proof (cases "loadReplay vpc_unmarshal ''create-vpc'' key hash now d = Inr None")
  case False
  then show ?thesis using assms replayed by (auto simp: tx_CreateVPC_def tx_bind_Inr split: option.splits)
next
  case True
  then show ?thesis using assms created by (auto simp: tx_CreateVPC_def tx_bind_Inr Let_def)
qed

lemma CreateVPC_keeps:
  assumes "validPageID ''vpc'' i" and "cidr_ok cidr" and "ValidString name"
  shows "tx_keeps db_inv (tx_CreateVPC unixepoch name cidr key hash i now)"
proof (rule tx_keepsI)
  fix d :: db and x d'
  assume inv: "db_inv d" and run: "tx_CreateVPC unixepoch name cidr key hash i now d = Inr (x, d')"
  from run show "db_inv d'"
  proof (cases rule: CreateVPC_run)
    case (created idx d1 d2 d3)
    note a = inv_AllocateIndex [OF inv created(1)]
    have "db_inv d2" by (rule inv_InsertVPC [OF a(1) created(2)]) (use assms a in simp_all)
    then have "db_inv d3" by (rule inv_AppendEvent(1) [OF _ created(3)])
    then show ?thesis
    proof (rule inv_saveReplay(1) [OF _ created(4)])
      fix r :: idem_row
      assume "id_operation r = ''create-vpc''"
        "id_response_json r = vpc_marshal (pending_VPC i name cidr idx)"
      then show "replay_ok r"
        using assms a(10,11) ValidString_page
        by (simp add: replay_ok_def vpc_unmarshal_marshal vpc_printable_def zero_VPC_def int64_index)
    qed
  qed (use inv in simp)
qed

lemma svc_CreateVPC_keeps: "db_inv d \<Longrightarrow> db_inv (fst (snd (svc_CreateVPC f entropy unixepoch now input key d)))"
  using NewID_validPageID [of "''vpc''"]
  by (auto simp: svc_CreateVPC_def Let_def res_bind_Inr id_prefix_def reply_keeps ParseCIDR_ok
      intro!: WithTx_inv CreateVPC_keeps dest: ValidateName_valid split: sum.splits)

lemma MarkVPCDeleting_keeps:
  assumes "db_inv d" and "tx_MarkVPCDeleting ws i now d = Inr (v, d')" and "tx_ListSubnetsByVPC i d = Inr []"
  shows "db_inv d'"
proof -
  have "\<forall>s \<in> set (subnets d). sr_vpc_id s \<noteq> i"
    using assms(1,3) tx_ListSubnetsByVPC_ok [of "kernel_indexes d" "vpcs d" d i] set_q_ListSubnetsByVPC [of i d]
    by (auto simp: db_inv_def)
  then show ?thesis using assms(1,2) inv_MarkVPCDeleting by (auto simp: tx_MarkVPCDeleting_def tx_bind_Inr)
qed

lemma DeleteVPC_keeps: "tx_keeps db_inv (tx_DeleteVPC i now)"
  by (rule tx_keepsI)
    (auto simp: tx_DeleteVPC_def tx_bind_Inr dest: MarkVPCDeleting_keeps inv_AppendEvent(1) split: if_splits)

lemma svc_DeleteVPC_keeps: "db_inv d \<Longrightarrow> db_inv (fst (snd (svc_DeleteVPC f now i d)))"
  by (simp add: svc_DeleteVPC_def reply_keeps WithTx_inv DeleteVPC_keeps)


section \<open>Subnet requests\<close>

lemma CreateSubnet_run:
  assumes "tx_CreateSubnet unixepoch name vpcid cidr az key hash i now d = Inr (x, d')"
  obtains (replayed) v where "loadReplay subnet_unmarshal ''create-subnet'' key hash now d = Inr (Some v)" "x = (v, [])" "d' = d"
  | (created) vpc siblings idx d1 d2 d3 where "tx_GetVPC defaultWorkspace vpcid d = Inr vpc"
      "\<not> vpc_DeletionRequested vpc" "ValidateSubnetRange (vpc_CIDRBlock vpc) cidr = Inr ()"
      "tx_ListSubnetsByVPC (vpc_ID vpc) d = Inr siblings"
      "ValidateSubnetDisjoint cidr (map sub_CIDRBlock siblings) = Inr ()"
      "tx_AllocateIndex unixepoch ''subnet'' i d = Inr (idx, d1)"
      "tx_InsertSubnet (pending_Subnet i (vpc_ID vpc) name cidr az idx) now d1 = Inr ((), d2)"
      "tx_AppendEvent defaultWorkspace ''subnet'' i ''created'' StatePending 1 [] now d2 = Inr ((), d3)"
      "saveReplay subnet_marshal ''create-subnet'' key hash i (pending_Subnet i (vpc_ID vpc) name cidr az idx) now d3 = Inr ((), d')"
      "x = (pending_Subnet i (vpc_ID vpc) name cidr az idx, [vpc_ID vpc])"
proof (cases "loadReplay subnet_unmarshal ''create-subnet'' key hash now d = Inr None")
  case False
  then show ?thesis using assms replayed by (auto simp: tx_CreateSubnet_def tx_bind_Inr split: option.splits)
next
  case True
  then show ?thesis using assms created by (auto simp: tx_CreateSubnet_def tx_bind_Inr Let_def)
qed

lemma siblings_disjoint:
  assumes "db_inv d" and "tx_ListSubnetsByVPC i d = Inr siblings"
    and "ValidateSubnetDisjoint cidr (map sub_CIDRBlock siblings) = Inr ()"
  shows "\<forall>y \<in> set (subnets d). sr_vpc_id y = i \<longrightarrow> \<not> Overlaps cidr (cidr_of (sr_cidr_block y))"
proof -
  have "siblings = map subnet_of_row (q_ListSubnetsByVPC i d)"
    using assms(2) tx_ListSubnetsByVPC_ok [OF tables_inv(2) [OF assms(1)], of i] by simp
  then show ?thesis
    using assms(3) by (auto simp: ValidateSubnetDisjoint_ok set_q_ListSubnetsByVPC subnet_of_row_def)
qed

lemma CreateSubnet_keeps:
  assumes "validPageID ''subnet'' i" and "cidr_ok cidr" and "ValidString name"
    and "az = ''local-1a'' \<or> az = ''local-1b'' \<or> az = ''local-1c''"
  shows "tx_keeps db_inv (tx_CreateSubnet unixepoch name vpcid cidr az key hash i now)"
proof (rule tx_keepsI)
  fix d :: db and x d'
  assume inv: "db_inv d" and run: "tx_CreateSubnet unixepoch name vpcid cidr az key hash i now d = Inr (x, d')"
  from run show "db_inv d'"
  proof (cases rule: CreateSubnet_run)
    case (created vpc siblings idx d1 d2 d3)
    note V = tables_inv(1) [OF inv]
    obtain v where v: "v \<in> set (vpcs d)" "vpc = vpc_of_row v"
      using tx_GetVPC_cases [OF V, of vpcid defaultWorkspace] created(1) by auto
    have vok: "validPageID ''vpc'' (vr_id v)" using vpcs_row [OF V v(1)] by (simp add: vrow_ok_def)
    note disjoint = siblings_disjoint [OF inv created(4,5)]
    note a = inv_AllocateIndex [OF inv created(6)]
    have "db_inv d2"
      by (rule inv_InsertSubnet [OF a(1) created(7), of v])
        (use assms a created(2,3) v disjoint in \<open>simp_all add: vpc_of_row_def\<close>)
    then have "db_inv d3" by (rule inv_AppendEvent(1) [OF _ created(8)])
    then show ?thesis
    proof (rule inv_saveReplay(1) [OF _ created(9)])
      fix r :: idem_row
      assume "id_operation r = ''create-subnet''"
        "id_response_json r = subnet_marshal (pending_Subnet i (vpc_ID vpc) name cidr az idx)"
      moreover have "ValidString az" using assms(4) by (auto simp: ValidString_ascii)
      ultimately show "replay_ok r"
        using assms(1-3) a(10,11) v(2) vok ValidString_page
        by (simp add: replay_ok_def subnet_unmarshal_marshal subnet_printable_def zero_Subnet_def int64_index
            vpc_of_row_def)
    qed
  qed (use inv in simp)
qed

lemma svc_CreateSubnet_keeps:
  "db_inv d \<Longrightarrow> db_inv (fst (snd (svc_CreateSubnet f entropy unixepoch now input key d)))"
  using NewID_validPageID [of "''subnet''"]
  by (auto simp: svc_CreateSubnet_def Let_def res_bind_Inr id_prefix_def reply_keeps ParseCIDR_ok
      intro!: WithTx_inv CreateSubnet_keeps dest: ValidateName_valid split: sum.splits)

lemma MarkSubnetDeleting_keeps:
  assumes "db_inv d" and "tx_MarkSubnetDeleting ws i now d = Inr (v, d')" and "tx_CountInstancesInSubnet i d = 0"
  shows "db_inv d'"
proof -
  have "\<forall>n \<in> set (instances d). ir_subnet_id n \<noteq> i"
    using assms(3) by (auto simp: tx_CountInstancesInSubnet_def q_CountInstancesInSubnet_def filter_empty_conv)
  then show ?thesis
    using assms(1,2) inv_MarkSubnetDeleting by (auto simp: tx_MarkSubnetDeleting_def tx_bind_Inr)
qed

lemma DeleteSubnet_keeps: "tx_keeps db_inv (tx_DeleteSubnet i now)"
  by (rule tx_keepsI)
    (auto simp: tx_DeleteSubnet_def tx_bind_Inr dest: MarkSubnetDeleting_keeps inv_AppendEvent(1) split: if_splits)

lemma svc_DeleteSubnet_keeps: "db_inv d \<Longrightarrow> db_inv (fst (snd (svc_DeleteSubnet f now i d)))"
  by (simp add: svc_DeleteSubnet_def reply_keeps WithTx_inv DeleteSubnet_keeps)

section \<open>Instance requests\<close>

lemma eniMAC_shape: "length (eniMAC eid) = 6 \<and> hd (eniMAC eid) mod 4 = 2 \<and> list_all (\<lambda>b. b < 256) (eniMAC eid)"
proof -
  obtain b bs where s: "take 6 (Sum256 eid) = b # bs" "length bs = 5"
    using Sum256_length [of eid] by (cases "take 6 (Sum256 eid)") (auto simp: min_def dest: arg_cong [of _ _ length])
  have "of_char b div 4 * 4 + 2 < (256 :: nat)"
  proof -
    have "of_char b < (256 :: nat)" by simp
    then show ?thesis by presburger
  qed
  moreover have "(n * 4 + 2) mod 4 = 2" for n :: nat by presburger
  ultimately show ?thesis using s by (simp add: eniMAC_def list_all_iff del: add_2_eq_Suc add_2_eq_Suc')
qed

lemma validENIMAC_eniMAC: "validENIMAC (mac_string (eniMAC eid)) = Inr (eniMAC eid)"
  using eniMAC_shape [of eid] by (simp add: validENIMAC_def ParseMAC_string)


lemma mac_string_ascii: "list_all (\<lambda>b. b < 256) bs \<Longrightarrow> ValidString (mac_string bs)"
proof (rule ValidString_ascii)
  show "list_all (\<lambda>b. b < 256) bs \<Longrightarrow> list_all (\<lambda>c. byte c < 0x80) (mac_string bs)"
  proof (induction bs rule: mac_string.induct)
    case (2 b)
    then show ?case by (auto simp: hex2_def hexdigit_def)
  next
    case (3 b c bs)
    then show ?case by (auto simp: hex2_def hexdigit_def)
  qed simp
qed

lemma Run_run:
  assumes "tx_Run unixepoch name subnetID key hash i eniID now d = Inr (x, d')"
  obtains (replayed) v where "loadReplay instance_unmarshal ''run-instance'' key hash now d = Inr (Some v)" "x = (v, [])" "d' = d"
  | (created) subnet used address idx eidx d1 d2 d3 d4 where
      "tx_GetSubnet defaultWorkspace subnetID d = Inr subnet" "\<not> sub_DeletionRequested subnet"
      "tx_ENIAddresses (sub_ID subnet) d = Inr used" "nextPrivateIP (sub_CIDRBlock subnet) used = Inr address"
      "tx_AllocateIndex unixepoch ''instance'' i d = Inr (idx, d1)" "tx_AllocateIndex unixepoch ''eni'' eniID d1 = Inr (eidx, d2)"
      "tx_InsertInstanceWithENI
          (pending_Instance i (sub_ID subnet) name idx (pending_ENI eniID i (sub_ID subnet) address eidx))
          (pending_ENI eniID i (sub_ID subnet) address eidx) now d2 = Inr ((), d3)"
      "tx_AppendEvent defaultWorkspace ''instance'' i ''created'' InstancePending 1 [] now d3 = Inr ((), d4)"
      "saveReplay instance_marshal ''run-instance'' key hash i
          (pending_Instance i (sub_ID subnet) name idx (pending_ENI eniID i (sub_ID subnet) address eidx)) now d4
          = Inr ((), d')"
      "x = (pending_Instance i (sub_ID subnet) name idx (pending_ENI eniID i (sub_ID subnet) address eidx), [i])"
proof (cases "loadReplay instance_unmarshal ''run-instance'' key hash now d = Inr None")
  case False
  then show ?thesis using assms replayed by (auto simp: tx_Run_def tx_bind_Inr split: option.splits)
next
  case True
  then show ?thesis using assms created by (auto simp: tx_Run_def tx_bind_Inr Let_def)
qed

lemma Run_keeps:
  assumes "validPageID ''instance'' i" and "validPageID ''eni'' eniID" and "ValidString name"
  shows "tx_keeps db_inv (tx_Run unixepoch name subnetID key hash i eniID now)"
proof (rule tx_keepsI)
  fix d :: db and x d'
  assume inv: "db_inv d" and run: "tx_Run unixepoch name subnetID key hash i eniID now d = Inr (x, d')"
  from run show "db_inv d'"
  proof (cases rule: Run_run)
    case (created subnet used address idx eidx d1 d2 d3 d4)
    note S = tables_inv(2) [OF inv]
    obtain s where s: "s \<in> set (subnets d)" "subnet = subnet_of_row s"
      using tx_GetSubnet_cases [OF S, of subnetID defaultWorkspace] created(1) by auto
    have sok: "validPageID ''subnet'' (sr_id s)" "cidr_ok (cidr_of (sr_cidr_block s))"
      using subnets_row [OF S s(1)] cidr_text_of by (auto simp: srow_ok_def)
    have a: "Contains (cidr_of (sr_cidr_block s)) address" "\<not> reservedAddress (cidr_of (sr_cidr_block s)) address"
      using nextPrivateIP_spec [OF sok(2), of used] created(4) s(2) by (simp_all add: subnet_of_row_def)
    then have "Is4 address" using sok(2) by (simp add: Contains_interval)
    note i1 = inv_AllocateIndex [OF inv created(5)]
    note i2 = inv_AllocateIndex [OF i1(1) created(6)]
    have "db_inv d3"
      by (rule inv_InsertInstanceWithENI [OF i2(1) created(7), of s])
        (use assms i1 i2 created(2) s a in \<open>simp_all add: subnet_of_row_def validENIMAC_eniMAC\<close>)
    then have "db_inv d4" by (rule inv_AppendEvent(1) [OF _ created(8)])
    then show ?thesis
    proof (rule inv_saveReplay(1) [OF _ created(9)])
      fix r :: idem_row
      assume "id_operation r = ''run-instance''" "id_response_json r = instance_marshal
          (pending_Instance i (sub_ID subnet) name idx (pending_ENI eniID i (sub_ID subnet) address eidx))"
      then show "replay_ok r"
        using assms(1-3) i1(10,11) i2(10,11) s(2) sok(1) \<open>Is4 address\<close> ValidString_page eniMAC_shape [of eniID]
        by (simp add: replay_ok_def instance_unmarshal_marshal instance_printable_def eni_printable_def
            zero_Instance_def zero_ENI_def int64_index subnet_of_row_def mac_string_ascii)
    qed
  qed (use inv in simp)
qed

lemma svc_Run_keeps: "db_inv d \<Longrightarrow> db_inv (fst (snd (svc_Run f entropy entropy' unixepoch now input key d)))"
  using NewID_validPageID [of "''instance''"] NewID_validPageID [of "''eni''"]
  by (auto simp: svc_Run_def Let_def res_bind_Inr id_prefix_def reply_keeps
      intro!: WithTx_inv Run_keeps dest: ValidateName_valid split: sum.splits)

lemma TerminateSnapshot_keeps: "tx_keeps db_inv (tx_TerminateSnapshot i now)"
  unfolding tx_TerminateSnapshot_def tx_MarkInstanceTerminating_def by (intro keeps)

lemma svc_TerminateSnapshot_keeps: "db_inv d \<Longrightarrow> db_inv (fst (snd (svc_TerminateSnapshot f now i d)))"
  by (simp add: svc_TerminateSnapshot_def reply_keeps WithTx_inv TerminateSnapshot_keeps)

lemma svc_Terminate_keeps: "db_inv d \<Longrightarrow> db_inv (fst (snd (svc_Terminate f now i d)))"
  using svc_TerminateSnapshot_keeps [of d f now i]
  by (auto simp: svc_Terminate_def split: prod.splits sum.splits)

text \<open>A request that returns an error has changed nothing.\<close>

lemma refused_clean: "case reply (WithTx f m d) of (Inl e, d', q) \<Rightarrow> d' = d \<and> q = [] | (Inr x, d', q) \<Rightarrow> True"
  by (rule WithTx_cases [of f m d]) (auto simp: reply_def split: prod.splits)

lemma requests_fail_clean:
  "case svc_CreateVPC f r t now vin key d of (Inl e, d', q) \<Rightarrow> d' = d \<and> q = [] | (Inr x, d', q) \<Rightarrow> True"
  "case svc_DeleteVPC f now i d of (Inl e, d', q) \<Rightarrow> d' = d \<and> q = [] | (Inr x, d', q) \<Rightarrow> True"
  "case svc_CreateSubnet f r t now sin key d of (Inl e, d', q) \<Rightarrow> d' = d \<and> q = [] | (Inr x, d', q) \<Rightarrow> True"
  "case svc_DeleteSubnet f now i d of (Inl e, d', q) \<Rightarrow> d' = d \<and> q = [] | (Inr x, d', q) \<Rightarrow> True"
  "case svc_Run f r r' t now rin key d of (Inl e, d', q) \<Rightarrow> d' = d \<and> q = [] | (Inr x, d', q) \<Rightarrow> True"
  "case svc_TerminateSnapshot f now i d of (Inl e, d', q) \<Rightarrow> d' = d \<and> q = [] | (Inr x, d', q) \<Rightarrow> True"
  unfolding svc_CreateVPC_def svc_DeleteVPC_def svc_CreateSubnet_def svc_DeleteSubnet_def svc_Run_def svc_TerminateSnapshot_def Let_def
  by (auto simp: refused_clean split: sum.split)

lemma reply_success: "reply (WithTx f m d) = (Inr x, d', q) \<Longrightarrow> m d = Inr ((x, q), d')"
  by (rule WithTx_cases [of f m d]) (auto simp: reply_def split: prod.splits)

section \<open>Controller writes\<close>

lemma RecordTopology_keeps: "tx_keeps db_inv (tx_RecordTopology now vpc applied effect)"
  unfolding tx_RecordTopology_def tx_recordVPCStatus_def recordChild_def tx_recordSubnetStatus_def Let_def
  by (intro keeps)

lemma store_RecordTopology_keeps: "db_inv d \<Longrightarrow> db_inv (snd (store_RecordTopology c f now vpc applied effect d))"
  by (simp add: store_RecordTopology_def WithTx_inv RecordTopology_keeps split: option.splits)

lemma RecordInstance_keeps: "tx_keeps db_inv (tx_RecordInstance now snapshot status reason observed)"
  unfolding tx_RecordInstance_def Let_def by (intro keeps)

lemma store_RecordInstance_keeps:
  "db_inv d \<Longrightarrow> db_inv (snd (store_RecordInstance f now snapshot status reason observed d))"
  by (simp add: store_RecordInstance_def WithTx_inv RecordInstance_keeps)

lemma FinishInstanceTermination_keeps: "tx_keeps db_inv (tx_FinishInstanceTermination now snapshot)"
proof (rule tx_keepsI)
  fix d :: db and x d'
  assume inv: "db_inv d" and run: "tx_FinishInstanceTermination now snapshot d = Inr (x, d')"
  obtain current d1 d2 where get: "tx_GetInstance (inst_WorkspaceID snapshot) (inst_ID snapshot) d = Inr current" and
    del: "q_DeleteInstanceENI (eni_ID (inst_ENI current)) (inst_WorkspaceID current) d = Inr ((), d1)"
      "q_DeleteInstance (inst_ID current) (inst_WorkspaceID current) d1 = Inr ((), d2)"
      "tx_AppendEvent (inst_WorkspaceID current) ''instance'' (inst_ID current) ''deleted'' ''deleted''
         (inst_Generation current) [] now d2 = Inr (x, d')"
    using run by (auto simp: tx_FinishInstanceTermination_def tx_bind_Inr split: sum.splits)
  have I: "instances_ok (kernel_indexes d) (subnets d) (enis d) (instances d)"
    and E: "enis_ok (kernel_indexes d) (subnets d) (instances d) (enis d)"
    and S: "subnets_ok (kernel_indexes d) (vpcs d) (subnets d)"
    using inv by (simp_all add: db_inv_def)
  obtain r e where r: "r \<in> set (instances d)" "e \<in> set (enis d)" "er_instance_id e = ir_id r"
      "current = instance_of_rows r e"
    using tx_GetInstance_cases [OF I E S, of "inst_ID snapshot" "inst_WorkspaceID snapshot"] get by auto
  have "ir_workspace_id r = defaultWorkspace" using I r(1) by (auto simp: instances_ok_def list_all_iff irow_ok_def)
  then have "db_inv d2"
    using inv_DeleteInstanceWithENI [OF inv r(1) refl r(2,3)] del(1,2) r(4) by (simp add: instance_of_rows_def)
  then show "db_inv d'" using del(3) by (rule inv_AppendEvent(1))
qed

lemma store_FinishInstanceTermination_keeps: "db_inv d \<Longrightarrow> db_inv (snd (store_FinishInstanceTermination f now s d))"
  by (simp add: store_FinishInstanceTermination_def WithTx_inv FinishInstanceTermination_keeps)

lemma store_RecordRuntimeID_keeps: "db_inv d \<Longrightarrow> db_inv (snd (store_RecordRuntimeID i g rid d))"
  by (simp add: store_RecordRuntimeID_def autocommit_def tx_wrap_def q_RecordRuntimeID_def Let_def inv_set_runtime)

lemma store_RetainTerminatingRuntimeID_keeps: "db_inv d \<Longrightarrow> db_inv (snd (store_RetainTerminatingRuntimeID i rid d))"
  by (simp add: store_RetainTerminatingRuntimeID_def autocommit_def tx_wrap_def q_RetainTerminatingRuntimeID_def
      Let_def inv_set_runtime)


section \<open>Reachable states\<close>

text \<open>
  One step is one request or one write of a controller, with any input, any clock, any
  source of random bytes and any fault of the transaction. Transactions are serialised by
  SQLite's single writer, so that any interleaving of requests and controllers is a
  sequence of such steps.
\<close>

inductive db_step :: "db \<Rightarrow> db \<Rightarrow> bool" where
  create_vpc: "db_step d (fst (snd (svc_CreateVPC f entropy epoch now vin key d)))"
| delete_vpc: "db_step d (fst (snd (svc_DeleteVPC f now i d)))"
| create_subnet: "db_step d (fst (snd (svc_CreateSubnet f entropy epoch now sin key d)))"
| delete_subnet: "db_step d (fst (snd (svc_DeleteSubnet f now i d)))"
| run_instance: "db_step d (fst (snd (svc_Run f entropy entropy' epoch now rin key d)))"
| terminate_instance: "db_step d (fst (snd (svc_Terminate f now i d)))"
| record_topology: "db_step d (snd (store_RecordTopology c f now vpc applied effect d))"
| record_instance: "db_step d (snd (store_RecordInstance f now snapshot status reason observed d))"
| finish_termination: "db_step d (snd (store_FinishInstanceTermination f now snapshot d))"
| record_runtime: "db_step d (snd (store_RecordRuntimeID i g rid d))"
| retain_runtime: "db_step d (snd (store_RetainTerminatingRuntimeID i rid d))"

inductive reachable :: "db \<Rightarrow> bool" where
  initial: "reachable empty_db"
| step: "reachable d \<Longrightarrow> db_step d d' \<Longrightarrow> reachable d'"

lemmas operations_keep = svc_CreateVPC_keeps svc_DeleteVPC_keeps svc_CreateSubnet_keeps svc_DeleteSubnet_keeps
  svc_Run_keeps svc_Terminate_keeps store_RecordTopology_keeps store_RecordInstance_keeps
  store_FinishInstanceTermination_keeps store_RecordRuntimeID_keeps store_RetainTerminatingRuntimeID_keeps

lemma db_step_keeps: "db_step d d' \<Longrightarrow> db_inv d \<Longrightarrow> db_inv d'"
  by (induction rule: db_step.induct) (erule operations_keep)+

lemma reachable_inv: "reachable d \<Longrightarrow> db_inv d"
  by (induction rule: reachable.induct) (auto intro: db_inv_empty db_step_keeps)

end
