(* ===== verification/Samples.thy ===== *)
theory Samples
  imports Operations
begin

text \<open>
  Concrete states at which the properties are applied: a VPC, two subnets of it and an
  instance, each made by the request that makes it, from the empty database. Strings that
  the requests only compare and copy are named, so that evaluation does not open them.
\<close>

section \<open>A VPC\<close>

definition vpc_id :: string where "vpc_id = ''vpc-5a5a5a5a5a5a5a5a5''"

definition vpc_in :: CreateVPCInput where
  "vpc_in = \<lparr>cvi_Name = ''main'', cvi_CIDRBlock = ''10.0.0.0/16''\<rparr>"

definition index_row :: "int \<Rightarrow> string \<Rightarrow> string \<Rightarrow> kernel_index_row" where
  "index_row n kind i = \<lparr>kr_id = n, kr_resource_kind = kind, kr_resource_id = i, kr_allocated_at = 100\<rparr>"

definition created_event :: "int \<Rightarrow> string \<Rightarrow> string \<Rightarrow> event_row" where
  "created_event n kind i = \<lparr>ev_id = n, ev_workspace_id = defaultWorkspace, ev_resource_type = kind, ev_resource_id = i,
     ev_action = ''created'', ev_state = StatePending, ev_generation = 1, ev_message = [], ev_created_at = 200\<rparr>"

definition vpc_row1 :: vpc_row where
  "vpc_row1 = \<lparr>vr_id = vpc_id, vr_workspace_id = defaultWorkspace, vr_short_index = 1, vr_name = ''main'',
     vr_cidr_block = ''10.0.0.0/16'', vr_generation = 1, vr_observed_generation = 0, vr_state = StatePending,
     vr_state_reason = [], vr_created_at = 200, vr_updated_at = 200, vr_deletion_requested = 0\<rparr>"

definition db1 :: db where
  "db1 = empty_db\<lparr>kernel_indexes := [index_row 1 ''vpc'' vpc_id], kernel_seq := 1, vpcs := [vpc_row1],
     events := [created_event 1 ''vpc'' vpc_id], event_seq := 1\<rparr>"

lemma vpc_checks:
  "ValidateName ''main'' = Inr ''main''" "ParseCIDR ''10.0.0.0/16'' = Inr (Prefix (IP4 0x0A000000) 16)"
  "NewID ''vpc-'' (Inr (replicate 9 CHR 0x5A)) = Inr vpc_id"
  "name_check ''main''" "prefix_string (Prefix (IP4 0x0A000000) 16) = ''10.0.0.0/16''"
  by code_simp+

lemmas run_request = svc_CreateVPC_def svc_CreateSubnet_def svc_Run_def validateIdempotencyKey_def WithTx_def
  tx_CreateVPC_def tx_CreateSubnet_def tx_Run_def tx_bind_def tx_read_def tx_return_def tx_wrap_def tx_map_err_def
  tx_guard_def name_free_def tx_try_def tx_GetVPCByName_def q_GetVPCByName_def one_row_def tx_AllocateIndex_def
  q_InsertKernelIndex_def tx_InsertVPC_def q_InsertVPC_def vpc_check_def generation_check_def zero_VPC_def
  tx_AppendEvent_def q_InsertEvent_def saveReplay_def reply_def Let_def max_int64_def

lemma create_db1:
  "svc_CreateVPC NoFault (Inr (replicate 9 CHR 0x5A)) 100 200 vpc_in [] empty_db =
     (Inr (pending_VPC vpc_id ''main'' (Prefix (IP4 0x0A000000) 16) 1), db1, [vpc_id])"
  by (simp add: vpc_in_def run_request vpc_checks empty_db_def db1_def index_row_def created_event_def vpc_row1_def)

section \<open>Two subnets\<close>

definition subnet_a :: string where "subnet_a = ''subnet-1a1a1a1a1a1a1a1a1''"

definition subnet_b :: string where "subnet_b = ''subnet-2b2b2b2b2b2b2b2b2''"

definition subnet_in :: "string \<Rightarrow> string \<Rightarrow> CreateSubnetInput" where
  "subnet_in name cidr = \<lparr>csi_Name = name, csi_VPCID = vpc_id, csi_CIDRBlock = cidr, csi_AvailabilityZone = ''local-1a''\<rparr>"

definition subnet_row1 :: "string \<Rightarrow> int \<Rightarrow> string \<Rightarrow> string \<Rightarrow> subnet_row" where
  "subnet_row1 i idx name cidr = \<lparr>sr_id = i, sr_workspace_id = defaultWorkspace, sr_vpc_id = vpc_id, sr_short_index = idx,
     sr_name = name, sr_cidr_block = cidr, sr_availability_zone = ''local-1a'', sr_generation = 1, sr_observed_generation = 0,
     sr_state = StatePending, sr_state_reason = [], sr_created_at = 200, sr_updated_at = 200, sr_deletion_requested = 0\<rparr>"

definition db2 :: db where
  "db2 = db1\<lparr>kernel_indexes := kernel_indexes db1 @ [index_row 2 ''subnet'' subnet_a], kernel_seq := 2,
     subnets := [subnet_row1 subnet_a 2 ''a'' ''10.0.1.0/24''],
     events := events db1 @ [created_event 2 ''subnet'' subnet_a], event_seq := 2\<rparr>"

definition db3 :: db where
  "db3 = db2\<lparr>kernel_indexes := kernel_indexes db2 @ [index_row 3 ''subnet'' subnet_b], kernel_seq := 3,
     subnets := subnets db2 @ [subnet_row1 subnet_b 3 ''b'' ''10.0.2.0/24''],
     events := events db2 @ [created_event 3 ''subnet'' subnet_b], event_seq := 3\<rparr>"

lemma subnet_checks:
  "ValidateName ''a'' = Inr ''a''" "ParseCIDR ''10.0.1.0/24'' = Inr (Prefix (IP4 0x0A000100) 24)"
  "NewID ''subnet-'' (Inr (replicate 9 CHR 0x1A)) = Inr subnet_a" "name_check ''a''"
  "prefix_string (Prefix (IP4 0x0A000100) 24) = ''10.0.1.0/24''"
  "ValidateName ''b'' = Inr ''b''" "ParseCIDR ''10.0.2.0/24'' = Inr (Prefix (IP4 0x0A000200) 24)"
  "NewID ''subnet-'' (Inr (replicate 9 CHR 0x2B)) = Inr subnet_b" "name_check ''b''"
  "prefix_string (Prefix (IP4 0x0A000200) 24) = ''10.0.2.0/24''"
  "ParsePrefix ''10.0.0.0/16'' = Some (Prefix (IP4 0x0A000000) 16)" "ParsePrefix ''10.0.1.0/24'' = Some (Prefix (IP4 0x0A000100) 24)"
  "ValidateSubnetRange (Prefix (IP4 0x0A000000) 16) (Prefix (IP4 0x0A000100) 24) = Inr ()"
  "ValidateSubnetRange (Prefix (IP4 0x0A000000) 16) (Prefix (IP4 0x0A000200) 24) = Inr ()"
  "\<not> Overlaps (Prefix (IP4 0x0A000200) 24) (Prefix (IP4 0x0A000100) 24)" "subnet_a \<noteq> subnet_b" "subnet_b \<noteq> subnet_a" "vpc_id \<noteq> subnet_a" "vpc_id \<noteq> subnet_b"
  by code_simp+

lemmas run_subnet = run_request tx_GetVPC_def q_GetVPC_def vpcFromRow_def vpc_key_def tx_ListSubnetsByVPC_def q_ListSubnetsByVPC_def
  tx_GetSubnetByName_def q_GetSubnetByName_def tx_InsertSubnet_def q_InsertSubnet_def subnet_check_def zero_Subnet_def
  subnetFromRow_def or_missing_def res_map_err_def

lemma create_db2:
  "svc_CreateSubnet NoFault (Inr (replicate 9 CHR 0x1A)) 100 200 (subnet_in ''a'' ''10.0.1.0/24'') [] db1 =
     (Inr (pending_Subnet subnet_a vpc_id ''a'' (Prefix (IP4 0x0A000100) 24) ''local-1a'' 2), db2, [vpc_id])"
  by (simp add: subnet_in_def run_subnet vpc_checks subnet_checks empty_db_def db1_def db2_def index_row_def created_event_def
      vpc_row1_def subnet_row1_def)

lemma create_db3:
  "svc_CreateSubnet NoFault (Inr (replicate 9 CHR 0x2B)) 100 200 (subnet_in ''b'' ''10.0.2.0/24'') [] db2 =
     (Inr (pending_Subnet subnet_b vpc_id ''b'' (Prefix (IP4 0x0A000200) 24) ''local-1a'' 3), db3, [vpc_id])"
  by (simp add: subnet_in_def run_subnet vpc_checks subnet_checks empty_db_def db1_def db2_def db3_def index_row_def
      created_event_def vpc_row1_def subnet_row1_def)

section \<open>An instance\<close>

definition inst_id :: string where "inst_id = ''i-3c3c3c3c3c3c3c3c3''"

definition eni_id :: string where "eni_id = ''eni-4d4d4d4d4d4d4d4d4''"

definition inst_row1 :: instance_row where
  "inst_row1 = \<lparr>ir_id = inst_id, ir_workspace_id = defaultWorkspace, ir_subnet_id = subnet_a, ir_short_index = 4, ir_name = ''web'',
     ir_generation = 1, ir_observed_generation = 0, ir_state = InstancePending, ir_state_reason = [], ir_created_at = 200,
     ir_updated_at = 200, ir_deletion_requested = 0, ir_runtime_id = None\<rparr>"

definition eni_row1 :: eni_row where
  "eni_row1 = \<lparr>er_id = eni_id, er_workspace_id = defaultWorkspace, er_instance_id = inst_id, er_subnet_id = subnet_a,
     er_short_index = 5, er_private_ip = ''10.0.1.4'', er_mac_address = mac_string (eniMAC eni_id), er_generation = 1,
     er_observed_generation = 0, er_state = StatePending, er_state_reason = [], er_created_at = 200, er_updated_at = 200\<rparr>"

definition db4 :: db where
  "db4 = db3\<lparr>kernel_indexes := kernel_indexes db3 @ [index_row 4 ''instance'' inst_id, index_row 5 ''eni'' eni_id], kernel_seq := 5,
     instances := [inst_row1], enis := [eni_row1],
     events := events db3 @ [created_event 4 ''instance'' inst_id], event_seq := 4\<rparr>"

lemma instance_checks:
  "ValidateName ''web'' = Inr ''web''" "name_check ''web''"
  "NewID ''i-'' (Inr (replicate 9 CHR 0x3C)) = Inr inst_id" "NewID ''eni-'' (Inr (replicate 9 CHR 0x4D)) = Inr eni_id"
  "ip4_string 0x0A000104 = ''10.0.1.4''"
  "subnet_a \<noteq> inst_id" "subnet_b \<noteq> inst_id" "vpc_id \<noteq> inst_id" "subnet_a \<noteq> eni_id" "subnet_b \<noteq> eni_id"
  "vpc_id \<noteq> eni_id" "inst_id \<noteq> eni_id"
  by code_simp+

lemma first_address: "nextPrivateIP (Prefix (IP4 0x0A000100) 24) [] = Inr (IP4 0x0A000104)"
proof -
  let ?p = "Prefix (IP4 0x0A000100) 24"
  have c: "cidr_ok ?p" and a: "Contains ?p (IP4 0x0A000104)" "\<not> reservedAddress ?p (IP4 0x0A000104)" by code_simp+
  have base: "pbase ?p = 0x0A000100" by code_simp
  show ?thesis
  proof (cases "nextPrivateIP ?p []")
    case (Inl e)
    then show ?thesis using nextPrivateIP_spec [OF c, of "[]"] a by auto
  next
    case (Inr x)
    then have x: "Contains ?p x" "\<not> reservedAddress ?p x" "ip4 x \<le> ip4 (IP4 0x0A000104)"
      using nextPrivateIP_spec [OF c, of "[]"] a by auto
    then have "ip4 x = 0x0A000104" "Is4 x"
      using reservedAddress_iff [OF c x(1)] base c by (simp_all add: Contains_interval)
    then have "x = IP4 0x0A000104" by (auto simp: word_unat_eq_iff elim!: Is4_cases)
    then show ?thesis using Inr by simp
  qed
qed

lemmas run_instance = run_subnet tx_GetSubnet_def q_GetSubnet_def subnet_key_def tx_GetInstanceByName_def q_GetInstanceByName_def
  tx_ENIAddresses_def q_ListENIAddresses_def tx_InsertInstanceWithENI_def q_InsertInstance_def q_InsertENI_def instance_check_def
  eni_check_def zero_Instance_def zero_ENI_def validENIMAC_eniMAC instance_key_def first_address

lemma create_db4:
  "svc_Run NoFault (Inr (replicate 9 CHR 0x3C)) (Inr (replicate 9 CHR 0x4D)) 100 200 \<lparr>rii_Name = ''web'', rii_SubnetID = subnet_a\<rparr> [] db3 =
     (Inr (pending_Instance inst_id subnet_a ''web'' 4 (pending_ENI eni_id inst_id subnet_a (IP4 0x0A000104) 5)), db4, [inst_id])"
  by (simp add: subnet_in_def run_instance vpc_checks subnet_checks instance_checks empty_db_def db1_def db2_def db3_def db4_def index_row_def
      created_event_def vpc_row1_def subnet_row1_def inst_row1_def eni_row1_def)

lemma db_reachable: "reachable db1" "reachable db2" "reachable db3" "reachable db4"
proof -
  show 1: "reachable db1"
    using reachable.step [OF reachable.initial db_step.create_vpc] create_db1 by (metis fst_conv snd_conv)
  show 2: "reachable db2" using reachable.step [OF 1 db_step.create_subnet] create_db2 by (metis fst_conv snd_conv)
  show 3: "reachable db3" using reachable.step [OF 2 db_step.create_subnet] create_db3 by (metis fst_conv snd_conv)
  show 4: "reachable db4" using reachable.step [OF 3 db_step.run_instance] create_db4 by (metis fst_conv snd_conv)
qed

lemmas db_samples = db_reachable [THEN reachable_inv]

end
