(* ===== verification/Pager.thy ===== *)
theory Pager
  imports Invariant
begin

text \<open>
  Listings by pages. The store gives the rows that follow a cursor in the order of their
  identifiers, at most as many as asked for; the services turn that into pages with an
  opaque token for the next one. The locale \<open>pager\<close> is the contract of the store's page
  and of the handler above it; following the tokens from the first page gives every row
  exactly once, in order. It holds of VPCs, subnets and instances.
\<close>

text \<open>A client that follows the tokens; \<open>n\<close> bounds the number of pages.\<close>

fun follow_pages :: "(string \<Rightarrow> ('a list \<times> string) res) \<Rightarrow> nat \<Rightarrow> string \<Rightarrow> 'a list res" where
  "follow_pages get 0 token = Inl OutOfFuel"
| "follow_pages get (Suc n) token =
     res_bind (get token) (\<lambda>(items, next).
     if next = [] then Inr items
     else res_bind (follow_pages get n next) (\<lambda>rest. Inr (items @ rest)))"

locale pager =
  fixes kind :: string
    and ident :: "'a \<Rightarrow> string"
    and listing :: "db \<Rightarrow> 'a list"
    and page :: "string \<Rightarrow> int \<Rightarrow> db \<Rightarrow> 'a list res"
    and handler :: "int \<Rightarrow> string \<Rightarrow> db \<Rightarrow> ('a list \<times> string) res"
  assumes page_rows: "db_inv d \<Longrightarrow> 0 \<le> n \<Longrightarrow>
      page after n d = Inr (take (nat n) (filter (\<lambda>x. after < ident x) (listing d)))"
    and listing_sorted: "db_inv d \<Longrightarrow> sorted_wrt (<) (map ident (listing d))"
    and listing_ids: "db_inv d \<Longrightarrow> x \<in> set (listing d) \<Longrightarrow> validPageID kind (ident x)"
    and handler_page: "handler limit token d =
      res_bind (pageSize limit) (\<lambda>size.
      res_bind (decodePageToken kind token) (\<lambda>after.
      res_bind (page after (size + 1) d) (\<lambda>items.
      if int (length items) \<le> size then Inr (items, [])
      else Inr (take (nat size) items, encodePageToken kind (ident (items ! nat (size - 1)))))))"
begin

definition after_cursor :: "string \<Rightarrow> db \<Rightarrow> 'a list" where
  "after_cursor after d = filter (\<lambda>x. after < ident x) (listing d)"

lemma after_sorted: "db_inv d \<Longrightarrow> sorted_wrt (<) (map ident (after_cursor after d))"
  using listing_sorted [of d] by (auto simp: after_cursor_def sorted_wrt_map sorted_wrt_filter)

lemma after_start: "db_inv d \<Longrightarrow> after_cursor [] d = listing d"
proof -
  assume inv: "db_inv d"
  have "[] < ident x" if "x \<in> set (listing d)" for x
    using listing_ids [OF inv that] by (cases "ident x") (auto simp: validPageID_iff id_prefix_def split: if_splits)
  then show ?thesis by (simp add: after_cursor_def)
qed

text \<open>The rows after the n-th of the rest are what is left of it.\<close>

lemma after_nth:
  assumes "db_inv d" and "n < length (after_cursor after d)"
  shows "after_cursor (ident (after_cursor after d ! n)) d = drop (Suc n) (after_cursor after d)"
proof -
  let ?r = "after_cursor after d"
  have "map ident ?r ! n \<in> set (map ident ?r)" using assms(2) by (intro nth_mem) simp
  then have above: "after < ident (?r ! n)" using assms(2) by (auto simp: after_cursor_def)
  have "after_cursor (ident (?r ! n)) d = filter (\<lambda>x. ident (?r ! n) < ident x) ?r"
    using above by (auto simp: after_cursor_def intro!: filter_cong)
  also have "\<dots> = drop (Suc n) ?r"
  proof -
    have split: "?r = take n ?r @ ?r ! n # drop (Suc n) ?r" by (rule id_take_nth_drop [OF assms(2)])
    have "sorted_wrt (\<lambda>x y. ident x < ident y) (take n ?r @ ?r ! n # drop (Suc n) ?r)"
      using after_sorted [OF assms(1), of after] split by (simp add: sorted_wrt_map)
    then have "\<forall>x \<in> set (take n ?r). ident x < ident (?r ! n)" "\<forall>x \<in> set (drop (Suc n) ?r). ident (?r ! n) < ident x"
      by (auto simp: sorted_wrt_append)
    then have "filter (\<lambda>x. ident (?r ! n) < ident x) (take n ?r @ ?r ! n # drop (Suc n) ?r) = drop (Suc n) ?r"
      by (auto simp: filter_empty_conv dest: less_asym)
    then show ?thesis using split by simp
  qed
  finally show ?thesis .
qed

lemma follow_from:
  assumes inv: "db_inv d" and sz: "pageSize limit = Inr sz"
    and tok: "decodePageToken kind token = Inr after"
    and "length (after_cursor after d) < n"
  shows "follow_pages (\<lambda>t. handler limit t d) n token = Inr (after_cursor after d)"
  using tok assms(4)
proof (induction n arbitrary: token after)
  case 0
  then show ?case by simp
next
  case (Suc n)
  let ?r = "after_cursor after d"
  have s: "1 \<le> sz" using sz by (auto simp: pageSize_def split: if_splits)
  have p: "page after (sz + 1) d = Inr (take (nat (sz + 1)) ?r)"
    using page_rows [OF inv, of "sz + 1" after] s by (simp add: after_cursor_def)
  show ?case
  proof (cases "int (length ?r) \<le> sz")
    case True
    then have "handler limit token d = Inr (?r, [])"
      using p by (simp add: handler_page sz Suc.prems(1))
    then show ?thesis by simp
  next
    case False
    let ?k = "nat (sz - 1)"
    have k: "?k < length ?r" "nat sz = Suc ?k" "nat (sz + 1) = Suc (Suc ?k)" using False s by auto
    have ident_ok: "validPageID kind (ident (?r ! ?k))"
      using nth_mem [OF k(1)] listing_ids [OF inv] by (simp add: after_cursor_def)
    have "\<not> int (length (take (nat (sz + 1)) ?r)) \<le> sz" using False s by auto
    then have h: "handler limit token d = Inr (take (nat sz) ?r, encodePageToken kind (ident (?r ! ?k)))"
      using p k by (simp add: handler_page sz Suc.prems(1) min_def)
    have "decodePageToken kind (encodePageToken kind (ident (?r ! ?k))) = Inr (ident (?r ! ?k))"
      by (rule decode_encodePageToken [OF ident_ok])
    moreover have rest: "after_cursor (ident (?r ! ?k)) d = drop (nat sz) ?r"
      using after_nth [OF inv k(1)] k(2) by simp
    moreover have "length (drop (nat sz) ?r) < n" using Suc.prems(2) k by simp
    ultimately have "follow_pages (\<lambda>t. handler limit t d) n (encodePageToken kind (ident (?r ! ?k))) =
        Inr (drop (nat sz) ?r)"
      using Suc.IH by simp
    moreover have "encodePageToken kind (ident (?r ! ?k)) \<noteq> []" by (rule encodePageToken_nonempty)
    ultimately show ?thesis using h by simp
  qed
qed

theorem follow_all:
  assumes "db_inv d" and "limit = 0 \<or> 1 \<le> limit \<and> limit \<le> 100"
  shows "follow_pages (\<lambda>t. handler limit t d) (Suc (length (listing d))) [] = Inr (listing d)"
proof -
  obtain sz where "pageSize limit = Inr sz" using assms(2) by (auto simp: pageSize_def)
  moreover have "decodePageToken kind [] = Inr []" by (simp add: decodePageToken_def)
  ultimately show ?thesis
    using follow_from [OF assms(1), of limit sz "[]" "[]"] after_start [OF assms(1)]
    by (simp del: follow_pages.simps)
qed

text \<open>A page and what follows its last row are the rest of the listing.\<close>

lemma page_split:
  assumes "db_inv d" and "0 \<le> n" and "page after n d = Inr xs" and "xs \<noteq> []"
  shows "after_cursor after d = xs @ after_cursor (ident (last xs)) d"
proof -
  let ?r = "after_cursor after d"
  have xs: "xs = take (nat n) ?r" using assms(1-3) page_rows by (simp add: after_cursor_def)
  let ?k = "length xs - 1"
  have k: "?k < length ?r" "?r ! ?k = last xs" "xs = take (Suc ?k) ?r"
    using assms(4) xs by (auto simp: last_conv_nth min_def)
  have "after_cursor (ident (last xs)) d = drop (Suc ?k) ?r" using after_nth [OF assms(1) k(1)] k(2) by simp
  then show ?thesis using k(3) by (metis append_take_drop_id)
qed

lemma page_empty:
  assumes "db_inv d" and "0 < n" and "page after n d = Inr []"
  shows "after_cursor after d = []"
  using assms page_rows [OF assms(1), of n after] by (simp add: after_cursor_def)

end


section \<open>The three listings\<close>

definition vpc_listing :: "db \<Rightarrow> VPC list" where
  "vpc_listing d = map vpc_of_row (sort_key vr_id (vpcs d))"

definition subnet_listing :: "db \<Rightarrow> Subnet list" where
  "subnet_listing d = map subnet_of_row (sort_key sr_id (subnets d))"

definition primary_eni :: "instance_row \<Rightarrow> db \<Rightarrow> eni_row" where
  "primary_eni r d = hd (filter (\<lambda>e. er_instance_id e = ir_id r) (enis d))"

definition instance_listing :: "db \<Rightarrow> Instance list" where
  "instance_listing d = map (\<lambda>r. instance_of_rows r (primary_eni r d)) (sort_key ir_id (instances d))"

definition instance_pages :: "fault \<Rightarrow> int \<Rightarrow> string \<Rightarrow> db \<Rightarrow> (Instance list \<times> string) res" where
  "instance_pages f limit token d =
     res_bind (svc_List f limit token d) (\<lambda>p. Inr (page_Items p, page_NextPageToken p))"

lemma sorted_keys: "distinct (map k xs) \<Longrightarrow> sorted_wrt (<) (map k (sort_key k xs))"
proof -
  assume "distinct (map k xs)"
  then have "distinct (map k (sort_key k xs))" by (simp add: distinct_map)
  then show ?thesis using strict_sorted_iff [of "map k (sort_key k xs)"] by simp
qed

text \<open>A page of rows in the only workspace, decoded row by row.\<close>

lemma page_of_rows:
  assumes "\<And>r. r \<in> set rs \<Longrightarrow> ws r = w" and "\<And>r. r \<in> set rs \<Longrightarrow> decode r = Inr (f r)"
    and "\<And>r. ident (f r) = k r" and "0 \<le> n"
  shows "res_mapM decode (sql_limit n (sort_key k (filter (\<lambda>r. ws r = w \<and> after < k r) rs))) =
    Inr (take (nat n) (filter (\<lambda>x. after < ident x) (map f (sort_key k rs))))"
proof -
  have "filter (\<lambda>r. ws r = w \<and> after < k r) rs = filter (\<lambda>r. after < k r) rs"
    using assms(1) by (auto intro: filter_cong)
  then have rows: "sql_limit n (sort_key k (filter (\<lambda>r. ws r = w \<and> after < k r) rs)) =
      take (nat n) (filter (\<lambda>r. after < k r) (sort_key k rs))"
    using assms(4) by (simp add: sql_limit_def filter_sort)
  have "res_mapM decode (take (nat n) (filter (\<lambda>r. after < k r) (sort_key k rs))) =
      Inr (map f (take (nat n) (filter (\<lambda>r. after < k r) (sort_key k rs))))"
    using assms(2) by (intro res_mapM_map) (auto dest!: in_set_takeD)
  moreover have "map f (filter (\<lambda>r. after < k r) xs) = filter (\<lambda>x. after < ident x) (map f xs)" for xs
    using assms(3) by (simp add: filter_map comp_def)
  ultimately show ?thesis using rows by (simp flip: take_map)
qed

lemma instanceFromRow_primary:
  assumes "db_inv d" and "r \<in> set (instances d)"
  shows "tx_instanceFromRow r d = Inr (instance_of_rows r (primary_eni r d))"
proof -
  have I: "instances_ok (kernel_indexes d) (subnets d) (enis d) (instances d)"
    and E: "enis_ok (kernel_indexes d) (subnets d) (instances d) (enis d)"
    and S: "subnets_ok (kernel_indexes d) (vpcs d) (subnets d)"
    using assms(1) by (simp_all add: db_inv_def)
  obtain e where e: "e \<in> set (enis d)" "er_instance_id e = ir_id r" "tx_instanceFromRow r d = Inr (instance_of_rows r e)"
    using tx_instanceFromRow_ok [OF I E S assms(2)] by blast
  let ?f = "filter (\<lambda>e. er_instance_id e = ir_id r) (enis d)"
  have "?f \<noteq> []" using e(1,2) by (auto simp: filter_empty_conv)
  then have "primary_eni r d \<in> set ?f" unfolding primary_eni_def by (rule hd_in_set)
  then have p: "primary_eni r d \<in> set (enis d)" "er_instance_id (primary_eni r d) = ir_id r" by simp_all
  have "distinct (map er_instance_id (enis d))" using E by (simp add: enis_ok_def)
  then have "primary_eni r d = e" by (rule distinct_map_unique [OF _ p(1) e(1)]) (simp add: p(2) e(2))
  then show ?thesis using e(3) by simp
qed

interpretation vpages: pager "''vpc''" vpc_ID vpc_listing "store_ListVPCPage defaultWorkspace" svc_ListVPCs
proof
  fix d n after limit token and x :: VPC
  assume inv: "db_inv d"
  have row: "vrow_ok (kernel_indexes d) r" if "r \<in> set (vpcs d)" for r
    using inv that vpcs_row by (auto simp: db_inv_def)
  show "store_ListVPCPage defaultWorkspace after n d = Inr (take (nat n) (filter (\<lambda>x. after < vpc_ID x) (vpc_listing d)))"
    if "0 \<le> n"
    unfolding store_ListVPCPage_def q_ListVPCPage_def vpc_listing_def
    by (rule page_of_rows) (use row vpcFromRow_ok that in \<open>auto simp: vrow_ok_def vpc_of_row_def\<close>)
  show "sorted_wrt (<) (map vpc_ID (vpc_listing d))"
    using sorted_keys [of vr_id "vpcs d"] inv
    by (simp add: vpc_listing_def comp_def vpc_of_row_def db_inv_def vpcs_ok_def)
  show "validPageID ''vpc'' (vpc_ID x)" if "x \<in> set (vpc_listing d)"
    using that row by (auto simp: vpc_listing_def vpc_of_row_def vrow_ok_def)
next
  fix limit token d
  show "svc_ListVPCs limit token d =
      res_bind (pageSize limit) (\<lambda>size.
      res_bind (decodePageToken ''vpc'' token) (\<lambda>after.
      res_bind (store_ListVPCPage defaultWorkspace after (size + 1) d) (\<lambda>items.
      if int (length items) \<le> size then Inr (items, [])
      else Inr (take (nat size) items, encodePageToken ''vpc'' (vpc_ID (items ! nat (size - 1)))))))"
    by (simp add: svc_ListVPCs_def)
qed

interpretation spages: pager "''subnet''" sub_ID subnet_listing "store_ListSubnetPage defaultWorkspace" svc_ListSubnets
proof
  fix d n after limit token and x :: Subnet
  assume inv: "db_inv d"
  have row: "srow_ok (kernel_indexes d) r" if "r \<in> set (subnets d)" for r
    using inv that subnets_row by (auto simp: db_inv_def)
  show "store_ListSubnetPage defaultWorkspace after n d = Inr (take (nat n) (filter (\<lambda>x. after < sub_ID x) (subnet_listing d)))"
    if "0 \<le> n"
    unfolding store_ListSubnetPage_def q_ListSubnetPage_def subnet_listing_def
    by (rule page_of_rows) (use row subnetFromRow_ok that in \<open>auto simp: srow_ok_def subnet_of_row_def\<close>)
  show "sorted_wrt (<) (map sub_ID (subnet_listing d))"
    using sorted_keys [of sr_id "subnets d"] inv
    by (simp add: subnet_listing_def comp_def subnet_of_row_def db_inv_def subnets_ok_def)
  show "validPageID ''subnet'' (sub_ID x)" if "x \<in> set (subnet_listing d)"
    using that row by (auto simp: subnet_listing_def subnet_of_row_def srow_ok_def)
next
  fix limit token d
  show "svc_ListSubnets limit token d =
      res_bind (pageSize limit) (\<lambda>size.
      res_bind (decodePageToken ''subnet'' token) (\<lambda>after.
      res_bind (store_ListSubnetPage defaultWorkspace after (size + 1) d) (\<lambda>items.
      if int (length items) \<le> size then Inr (items, [])
      else Inr (take (nat size) items, encodePageToken ''subnet'' (sub_ID (items ! nat (size - 1)))))))"
    by (simp add: svc_ListSubnets_def)
qed

interpretation ipages: pager "''instance''" inst_ID instance_listing "store_ListInstancePage NoFault defaultWorkspace"
  "instance_pages NoFault"
proof
  fix d n after limit token and x :: Instance
  assume inv: "db_inv d"
  have row: "irow_ok (kernel_indexes d) r" if "r \<in> set (instances d)" for r
    using inv that by (auto simp: db_inv_def instances_ok_def list_all_iff)
  show "store_ListInstancePage NoFault defaultWorkspace after n d =
      Inr (take (nat n) (filter (\<lambda>x. after < inst_ID x) (instance_listing d)))" if "0 \<le> n"
  proof -
    have "res_mapM (\<lambda>r. tx_instanceFromRow r d) (q_ListInstancePage defaultWorkspace after n d) =
        Inr (take (nat n) (filter (\<lambda>x. after < inst_ID x) (instance_listing d)))"
      unfolding q_ListInstancePage_def instance_listing_def
      by (rule page_of_rows)
        (use row instanceFromRow_primary [OF inv] that in \<open>auto simp: irow_ok_def instance_of_rows_def\<close>)
    then show ?thesis by (simp add: store_ListInstancePage_def WithTx_def tx_read_def)
  qed
  show "sorted_wrt (<) (map inst_ID (instance_listing d))"
    using sorted_keys [of ir_id "instances d"] inv
    by (simp add: instance_listing_def comp_def instance_of_rows_def db_inv_def instances_ok_def)
  show "validPageID ''instance'' (inst_ID x)" if "x \<in> set (instance_listing d)"
    using that row by (auto simp: instance_listing_def instance_of_rows_def irow_ok_def)
next
  fix limit token d
  show "instance_pages NoFault limit token d =
      res_bind (pageSize limit) (\<lambda>size.
      res_bind (decodePageToken ''instance'' token) (\<lambda>after.
      res_bind (store_ListInstancePage NoFault defaultWorkspace after (size + 1) d) (\<lambda>items.
      if int (length items) \<le> size then Inr (items, [])
      else Inr (take (nat size) items, encodePageToken ''instance'' (inst_ID (items ! nat (size - 1)))))))"
    by (auto simp: instance_pages_def svc_List_def res_bind_assoc intro!: res_bind_cong)
qed

end
