(* ===== verification/ServiceProps.thy ===== *)
theory ServiceProps
  imports Samples Pager
begin

text \<open>
  What a client of the services can rely on: addresses are handed out once, errors change
  nothing, a repeated request with the same key is answered from its record, and listings
  are complete.
\<close>

section \<open>Addresses\<close>

lemma subnet_cidr: "db_inv d \<Longrightarrow> s \<in> set (subnets d) \<Longrightarrow> cidr_ok (cidr_of (sr_cidr_block s))"
  using cidr_text_of by (auto simp: db_inv_def srow_ok_def dest: subnets_row)

lemma sibling_blocks:
  assumes "db_inv d" and "s \<in> set (subnets d)" and "t \<in> set (subnets d)" and "sr_vpc_id s = sr_vpc_id t"
    and "Contains (cidr_of (sr_cidr_block s)) a" and "Contains (cidr_of (sr_cidr_block t)) a"
  shows "s = t"
proof (rule ccontr)
  assume "s \<noteq> t"
  have S: "subnets_ok (kernel_indexes d) (vpcs d) (subnets d)" using assms(1) by (simp add: db_inv_def)
  have "sr_id s \<noteq> sr_id t" using subnets_unique [OF S assms(2,3)] \<open>s \<noteq> t\<close> by blast
  then have "\<not> Overlaps (cidr_of (sr_cidr_block s)) (cidr_of (sr_cidr_block t))"
    using S assms(2-4) unfolding subnets_ok_def siblings_ok_def by blast
  then show False
    using assms(5,6) Overlaps_iff subnet_cidr [OF assms(1,2)] subnet_cidr [OF assms(1,3)] by blast
qed

text \<open>
  C3: In every reachable state an address belongs to at most one subnet of a VPC, and every
  address of a subnet belongs to its VPC, which is not being deleted.
\<close>

theorem subnets_partition:
  assumes "reachable d" and "s \<in> set (subnets d)" and "t \<in> set (subnets d)" and "sr_vpc_id s = sr_vpc_id t"
    and "Contains (cidr_of (sr_cidr_block s)) a"
  shows "(Contains (cidr_of (sr_cidr_block t)) a \<longleftrightarrow> s = t) \<and>
    (\<exists>v. v \<in> set (vpcs d) \<and> vr_id v = sr_vpc_id s \<and> vr_deletion_requested v = 0 \<and> Contains (cidr_of (vr_cidr_block v)) a)"
proof -
  have inv: "db_inv d" by (rule reachable_inv [OF assms(1)])
  then obtain v where v: "v \<in> set (vpcs d)" "vr_id v = sr_vpc_id s" "vr_deletion_requested v = 0"
      "ValidateSubnetRange (cidr_of (vr_cidr_block v)) (cidr_of (sr_cidr_block s)) = Inr ()"
    using assms(2) by (auto simp: db_inv_def parent_ok_def dest!: subnets_row)
  have "cidr_ok (cidr_of (vr_cidr_block v))"
    using inv v(1) cidr_text_of by (auto simp: db_inv_def vrow_ok_def dest: vpcs_row)
  then have "Contains (cidr_of (vr_cidr_block v)) a"
    using ValidateSubnetRange_ok subnet_cidr [OF inv assms(2)] v(4) assms(5) by blast
  then show ?thesis using v sibling_blocks [OF inv assms(2-5)] assms(5) by blast
qed

lemma cidr_samples:
  "cidr_of ''10.0.1.0/24'' = Prefix (IP4 0x0A000100) 24" "cidr_of ''10.0.2.0/24'' = Prefix (IP4 0x0A000200) 24"
  "cidr_of ''10.0.0.0/16'' = Prefix (IP4 0x0A000000) 16" "Contains (Prefix (IP4 0x0A000100) 24) (IP4 0x0A000107)"
  by code_simp+

lemma db3_subnets: "subnets db3 = [subnet_row1 subnet_a 2 ''a'' ''10.0.1.0/24'', subnet_row1 subnet_b 3 ''b'' ''10.0.2.0/24'']"
  by (simp add: db3_def db2_def)

theorem subnets_partition_witness:
  "\<not> Contains (cidr_of ''10.0.2.0/24'') (IP4 0x0A000107) \<and>
   (\<exists>v. v \<in> set (vpcs db3) \<and> vr_id v = vpc_id \<and> Contains (cidr_of (vr_cidr_block v)) (IP4 0x0A000107))"
  using subnets_partition [OF db_reachable(3), of "subnet_row1 subnet_a 2 ''a'' ''10.0.1.0/24''"
      "subnet_row1 subnet_b 3 ''b'' ''10.0.2.0/24''" "IP4 0x0A000107"]
  by (auto simp: db3_subnets subnet_row1_def cidr_samples subnet_checks)



text \<open>
  C29: The address given to a new interface is the lowest of the subnet that is neither
  reserved nor in use; the subnet is exhausted only when every other address is in use.
\<close>

theorem next_address_lowest_free:
  assumes "cidr_ok p"
  shows "case nextPrivateIP p used of
      Inr a \<Rightarrow> Contains p a \<and> \<not> reservedAddress p a \<and> a \<notin> set used \<and>
        {b. Contains p b \<and> \<not> reservedAddress p b \<and> ip4 b < ip4 a} \<subseteq> set used
    | Inl e \<Rightarrow> e = ErrAddressExhausted \<and> {b. Contains p b \<and> \<not> reservedAddress p b} \<subseteq> set used"
  using nextPrivateIP_spec [OF assms, of used] by (force split: sum.splits)

theorem next_address_lowest_free_witness:
  "nextPrivateIP (Prefix (IP4 0x0A000100) 24) [] = Inr (IP4 0x0A000104) \<and>
   {b. Contains (Prefix (IP4 0x0A000100) 24) b \<and> \<not> reservedAddress (Prefix (IP4 0x0A000100) 24) b \<and> ip4 b < 0x0A000104} = {}"
proof -
  have "cidr_ok (Prefix (IP4 0x0A000100) 24)" by code_simp
  from next_address_lowest_free [OF this, of "[]"] show ?thesis by (simp add: first_address)
qed



section \<open>Requests\<close>

text \<open>
  A request that returns an error changes no table and enqueues nothing, whatever
  failed: the input, a guard of the transaction, a constraint or the commit.
\<close>

theorem failed_request_changes_nothing:
  "(case svc_CreateVPC f r t now vin key d of (Inl e, d', q) \<Rightarrow> d' = d \<and> q = [] | (Inr x, d', q) \<Rightarrow> True) \<and>
   (case svc_DeleteVPC f now i d of (Inl e, d', q) \<Rightarrow> d' = d \<and> q = [] | (Inr x, d', q) \<Rightarrow> True) \<and>
   (case svc_CreateSubnet f r t now sin key d of (Inl e, d', q) \<Rightarrow> d' = d \<and> q = [] | (Inr x, d', q) \<Rightarrow> True) \<and>
   (case svc_DeleteSubnet f now i d of (Inl e, d', q) \<Rightarrow> d' = d \<and> q = [] | (Inr x, d', q) \<Rightarrow> True) \<and>
   (case svc_Run f r r' t now rin key d of (Inl e, d', q) \<Rightarrow> d' = d \<and> q = [] | (Inr x, d', q) \<Rightarrow> True) \<and>
   (case svc_TerminateSnapshot f now i d of (Inl e, d', q) \<Rightarrow> d' = d \<and> q = [] | (Inr x, d', q) \<Rightarrow> True)"
  by (intro conjI requests_fail_clean)

text \<open>The replay of a create request, seen from the tables its first run left.\<close>

lemma create_vpc_saved:
  assumes inv: "db_inv d" and run: "svc_CreateVPC NoFault r t now vin key d = (Inr v, d', q)" and fresh: "q \<noteq> []"
  obtains name cidr d3 i where "ValidateName (cvi_Name vin) = Inr name" and "ParseCIDR (cvi_CIDRBlock vin) = Inr cidr"
    and "validateIdempotencyKey key = Inr ()" and "vpc_unmarshal (vpc_marshal v) = Some v"
    and "saveReplay vpc_marshal ''create-vpc'' key (hashPayload [name, prefix_string cidr]) i v now d3 = Inr ((), d')"
proof -
  obtain name cidr i where pre: "ValidateName (cvi_Name vin) = Inr name" "ParseCIDR (cvi_CIDRBlock vin) = Inr cidr"
      "validateIdempotencyKey key = Inr ()" "NewID ''vpc-'' r = Inr i"
    and tx: "reply (WithTx NoFault (tx_CreateVPC t name cidr key (hashPayload [name, prefix_string cidr]) i now) d) = (Inr v, d', q)"
    using run by (auto simp: svc_CreateVPC_def Let_def res_bind_Inr split: sum.splits)
  then have "tx_CreateVPC t name cidr key (hashPayload [name, prefix_string cidr]) i now d = Inr ((v, q), d')"
    by (auto simp: reply_def WithTx_def split: sum.splits prod.splits)
  then obtain idx d1 d2 d3 where idx: "tx_AllocateIndex t ''vpc'' i d = Inr (idx, d1)" and v: "v = pending_VPC i name cidr idx"
    and save: "saveReplay vpc_marshal ''create-vpc'' key (hashPayload [name, prefix_string cidr]) i v now d3 = Inr ((), d')"
    using fresh by (auto simp: tx_CreateVPC_def tx_bind_Inr Let_def split: option.splits)
  have "validPageID ''vpc'' i" using NewID_validPageID [of "''vpc''" r i] pre(4) by (simp add: id_prefix_def)
  then have "vpc_unmarshal (vpc_marshal v) = Some v"
    using inv_AllocateIndex(10,11) [OF inv idx] ValidString_page ValidateName_valid [OF pre(1)] ParseCIDR_ok [OF pre(2)]
    by (simp add: v vpc_unmarshal_marshal vpc_printable_def zero_VPC_def int64_index)
  then show ?thesis using that pre save by blast
qed

text \<open>
  C13: A create-VPC request repeated with its idempotency key within a day returns the
  original result and changes nothing, with whatever random bytes; the same key with a
  payload that hashes differently is refused.
\<close>

theorem create_vpc_idempotent:
  assumes "reachable d" and "svc_CreateVPC NoFault r t now vin key d = (Inr v, d', q)" and "q \<noteq> []" and "key \<noteq> []"
    and "later < now + 86400" and "NewID ''vpc-'' r' = Inr i'"
    and "ValidateName (cvi_Name vin) = Inr name" and "ParseCIDR (cvi_CIDRBlock vin) = Inr cidr"
    and "ValidateName (cvi_Name win) = Inr name'" and "ParseCIDR (cvi_CIDRBlock win) = Inr cidr'"
  shows "svc_CreateVPC NoFault r' t' later win key d' =
    (if hashPayload [name', prefix_string cidr'] = hashPayload [name, prefix_string cidr] then (Inr v, d', [])
     else (Inl (Wrapf ''resource transaction'' (ServiceError ''IdempotentParameterMismatch''
                  ''Idempotency-Key was already used for different parameters'' [] 409)), d', []))"
proof -
  obtain d3 i where k: "validateIdempotencyKey key = Inr ()" "vpc_unmarshal (vpc_marshal v) = Some v"
      "saveReplay vpc_marshal ''create-vpc'' key (hashPayload [name, prefix_string cidr]) i v now d3 = Inr ((), d')"
    using create_vpc_saved [OF reachable_inv [OF assms(1)] assms(2,3)] assms(7,8) by (metis Inr_inject)
  have l: "loadReplay vpc_unmarshal ''create-vpc'' key h later d' =
      (if h = hashPayload [name, prefix_string cidr] then Inr (Some v)
       else Inl (ServiceError ''IdempotentParameterMismatch''
                   ''Idempotency-Key was already used for different parameters'' [] 409))" for h
    using loadReplay_saveReplay [where decode = vpc_unmarshal, OF k(3) assms(4) k(2), of h later] assms(5) by simp
  show ?thesis
    using k(1) assms(6,9,10)
    by (simp add: svc_CreateVPC_def Let_def WithTx_def tx_CreateVPC_def tx_bind_def tx_read_def tx_return_def l reply_def)
qed

definition keyed :: "VPC reply" where
  "keyed = svc_CreateVPC NoFault (Inr (replicate 9 CHR 0x5A)) 100 200 vpc_in ''k1'' empty_db"

lemma keyed_run: "fst keyed = Inr (pending_VPC vpc_id ''main'' (Prefix (IP4 0x0A000000) 16) 1) \<and> snd (snd keyed) = [vpc_id]"
proof -
  have "validateIdempotencyKey ''k1'' = Inr ()" by code_simp
  then show ?thesis
    by (simp add: keyed_def vpc_in_def run_request vpc_checks empty_db_def loadReplay_def tx_GetIdempotency_def q_GetIdempotency_def
        tx_PutIdempotency_def q_PutIdempotency_def idem_key_def)
qed

theorem create_vpc_idempotent_witness:
  "svc_CreateVPC NoFault (Inr (replicate 9 CHR 0x1A)) 7 300 vpc_in ''k1'' (fst (snd keyed)) =
     (Inr (pending_VPC vpc_id ''main'' (Prefix (IP4 0x0A000000) 16) 1), fst (snd keyed), [])"
proof -
  have k: "svc_CreateVPC NoFault (Inr (replicate 9 CHR 0x5A)) 100 200 vpc_in ''k1'' empty_db =
      (Inr (pending_VPC vpc_id ''main'' (Prefix (IP4 0x0A000000) 16) 1), fst (snd keyed), [vpc_id])"
    using keyed_run unfolding keyed_def [symmetric] by (metis prod.collapse)
  obtain i where i: "NewID ''vpc-'' (Inr (replicate 9 CHR 0x1A)) = Inr i" 
  proof -
    have "NewID ''vpc-'' (Inr (replicate 9 CHR 0x1A)) = Inr ''vpc-1a1a1a1a1a1a1a1a1''" by code_simp
    then show ?thesis using that by blast
  qed
  have n: "ValidateName (cvi_Name vpc_in) = Inr ''main''" "ParseCIDR (cvi_CIDRBlock vpc_in) = Inr (Prefix (IP4 0x0A000000) 16)"
    by (simp_all add: vpc_in_def vpc_checks)
  show ?thesis using create_vpc_idempotent [OF reachable.initial k _ _ _ i n n, of 300 7] by simp
qed

text \<open>
  C39: A VPC that still has a subnet is not deleted: the request is refused with a dependency
  violation and changes nothing.
\<close>

theorem delete_vpc_with_subnet_refused:
  assumes "reachable d" and "v \<in> set (vpcs d)" and "s \<in> set (subnets d)" and "sr_vpc_id s = vr_id v"
  shows "svc_DeleteVPC NoFault now (vr_id v) d =
    (Inl (Wrapf ''resource transaction'' (dependencyViolation (vr_id v) ''VPC still has subnets'')), d, [])"
proof -
  have inv: "db_inv d" by (rule reachable_inv [OF assms(1)])
  have V: "vpcs_ok (kernel_indexes d) (vpcs d)" and S: "subnets_ok (kernel_indexes d) (vpcs d) (subnets d)"
    using inv by (simp_all add: db_inv_def)
  have "vpc_key (vr_id v) defaultWorkspace v" using vpcs_row [OF V assms(2)] by (simp add: vpc_key_def vrow_ok_def)
  then obtain x where "tx_GetVPC defaultWorkspace (vr_id v) d = Inr x"
    using tx_GetVPC_cases [OF V, of "vr_id v" defaultWorkspace] assms(2) by blast
  moreover have "tx_ListSubnetsByVPC (vr_id v) d = Inr (map subnet_of_row (q_ListSubnetsByVPC (vr_id v) d))"
    by (rule tx_ListSubnetsByVPC_ok [OF S])
  moreover have "q_ListSubnetsByVPC (vr_id v) d \<noteq> []"
    using set_q_ListSubnetsByVPC [of "vr_id v" d] assms(3,4) by auto
  ultimately show ?thesis
    by (simp add: svc_DeleteVPC_def tx_DeleteVPC_def WithTx_def tx_bind_def tx_read_def tx_guard_def reply_def
        or_missing_def res_map_err_def)
qed

theorem delete_vpc_with_subnet_refused_witness:
  "svc_DeleteVPC NoFault 300 vpc_id db2 =
     (Inl (Wrapf ''resource transaction'' (dependencyViolation vpc_id ''VPC still has subnets'')), db2, [])"
  using delete_vpc_with_subnet_refused [OF db_reachable(2), of vpc_row1 "subnet_row1 subnet_a 2 ''a'' ''10.0.1.0/24''" 300]
  by (simp add: db2_def db1_def vpc_row1_def subnet_row1_def)

section \<open>Listings\<close>

text \<open>
  C24: A client that follows the page tokens of a listing, with any page size the services
  accept, receives every row exactly once, in the order of the identifiers.
\<close>

theorem listings_complete:
  assumes "reachable d" and "limit = 0 \<or> 1 \<le> limit \<and> limit \<le> 100"
  shows "follow_pages (\<lambda>t. svc_ListVPCs limit t d) (Suc (length (vpcs d))) [] = Inr (vpc_listing d) \<and>
    follow_pages (\<lambda>t. svc_ListSubnets limit t d) (Suc (length (subnets d))) [] = Inr (subnet_listing d) \<and>
    follow_pages (\<lambda>t. instance_pages NoFault limit t d) (Suc (length (instances d))) [] = Inr (instance_listing d)"
  using vpages.follow_all [OF reachable_inv [OF assms(1)] assms(2)] spages.follow_all [OF reachable_inv [OF assms(1)] assms(2)]
    ipages.follow_all [OF reachable_inv [OF assms(1)] assms(2)]
  by (simp add: vpc_listing_def subnet_listing_def instance_listing_def del: follow_pages.simps)

theorem listings_complete_witness:
  "follow_pages (\<lambda>t. svc_ListSubnets 1 t db3) 3 [] = Inr (subnet_listing db3) \<and> length (subnet_listing db3) = 2"
proof -
  have l: "length (subnets db3) = 2" by (simp add: db3_subnets)
  have "(1::int) = 0 \<or> 1 \<le> (1::int) \<and> (1::int) \<le> 100" by simp
  from listings_complete [OF db_reachable(3) this] show ?thesis using l
    by (simp add: subnet_listing_def numeral_3_eq_3 del: follow_pages.simps)
qed

text \<open>
  A page token is read back as the identifier it was made from.
\<close>

theorem page_token_round_trip:
  assumes "validPageID kind i"
  shows "decodePageToken kind (encodePageToken kind i) = Inr i"
  using assms by (rule decode_encodePageToken)

theorem page_token_round_trip_witness: "decodePageToken ''vpc'' (encodePageToken ''vpc'' vpc_id) = Inr vpc_id"
proof -
  have "validPageID ''vpc'' vpc_id" by code_simp
  then show ?thesis by (rule page_token_round_trip)
qed

text \<open>
  C38: The snapshots that are stored as the answers of create requests are read back as they
  were, for every value the services build: valid text, 64-bit integers, IPv4.
\<close>

theorem snapshots_read_back:
  assumes "vpc_printable v" and "subnet_printable s" and "instance_printable n"
  shows "vpc_unmarshal (vpc_marshal v) = Some v \<and> subnet_unmarshal (subnet_marshal s) = Some s \<and>
    instance_unmarshal (instance_marshal n) = Some n"
  using assms by (simp add: vpc_unmarshal_marshal subnet_unmarshal_marshal instance_unmarshal_marshal)

definition sample_ENI :: ENI where
  "sample_ENI = zero_ENI\<lparr>eni_ID := eni_id, eni_WorkspaceID := ''default'', eni_InstanceID := inst_id, eni_SubnetID := subnet_a,
     eni_ShortIndex := 5, eni_PrivateIP := IP4 0x0A000104, eni_MACAddress := ''02:00:00:00:00:01'', eni_Generation := 1,
     eni_State := ''pending''\<rparr>"

theorem snapshots_read_back_witness:
  "vpc_unmarshal (vpc_marshal (pending_VPC vpc_id ''main'' (Prefix (IP4 0x0A000000) 16) 1)) =
     Some (pending_VPC vpc_id ''main'' (Prefix (IP4 0x0A000000) 16) 1) \<and>
   instance_unmarshal (instance_marshal (pending_Instance inst_id subnet_a ''web'' 4 sample_ENI)) =
     Some (pending_Instance inst_id subnet_a ''web'' 4 sample_ENI)"
proof -
  have "vpc_printable (pending_VPC vpc_id ''main'' (Prefix (IP4 0x0A000000) 16) 1)"
    "subnet_printable (pending_Subnet subnet_a vpc_id ''a'' (Prefix (IP4 0x0A000100) 24) ''local-1a'' 2)"
    "instance_printable (pending_Instance inst_id subnet_a ''web'' 4 sample_ENI)"
    by code_simp+
  from snapshots_read_back [OF this] show ?thesis by simp
qed

end
