(* ===== verification/Effects.thy ===== *)
theory Effects
  imports Prelude
begin

text \<open>
  Calls that act on a state outside the tables: the kernel, the container engine, a file
  system. A call returns a result and the state it leaves; what it did before an error
  stays done, unlike in a transaction.
\<close>

type_synonym ('s, 'a) eff = "'s \<Rightarrow> 'a res \<times> 's"

definition eff_return :: "'a \<Rightarrow> ('s, 'a) eff" where
  "eff_return x s = (Inr x, s)"

definition eff_bind :: "('s, 'a) eff \<Rightarrow> ('a \<Rightarrow> ('s, 'b) eff) \<Rightarrow> ('s, 'b) eff" where
  "eff_bind m f s = (case m s of (Inl e, s') \<Rightarrow> (Inl e, s') | (Inr x, s') \<Rightarrow> f x s')"

text \<open>A computed result, a read of the state, an error with context, a guard.\<close>

definition eff_res :: "'a res \<Rightarrow> ('s, 'a) eff" where
  "eff_res r s = (r, s)"

definition eff_read :: "('s \<Rightarrow> 'a res) \<Rightarrow> ('s, 'a) eff" where
  "eff_read g s = (g s, s)"

definition eff_wrap :: "string \<Rightarrow> ('s, 'a) eff \<Rightarrow> ('s, 'a) eff" where
  "eff_wrap p m s = (case m s of (r, s') \<Rightarrow> (res_wrap p r, s'))"

definition eff_guard :: "bool \<Rightarrow> goerr \<Rightarrow> ('s, unit) eff" where
  "eff_guard b e s = (res_guard b e, s)"

text \<open>The result with its error as a value: \<open>x, err := m\<close>.\<close>

definition eff_try :: "('s, 'a) eff \<Rightarrow> ('s, 'a res) eff" where
  "eff_try m s = (case m s of (r, s') \<Rightarrow> (Inr r, s'))"

text \<open>A loop that stops at the first error.\<close>

fun eff_iter :: "('a \<Rightarrow> ('s, unit) eff) \<Rightarrow> 'a list \<Rightarrow> ('s, unit) eff" where
  "eff_iter f [] = eff_return ()"
| "eff_iter f (x # xs) = eff_bind (f x) (\<lambda>_. eff_iter f xs)"

text \<open>A call on the first part of the state.\<close>

definition eff_fst :: "('s, 'a) eff \<Rightarrow> ('s \<times> 't, 'a) eff" where
  "eff_fst m st = (case st of (s, t) \<Rightarrow> (case m s of (r, s') \<Rightarrow> (r, (s', t))))"

lemma eff_bind_Inr:
  "eff_bind m f s = (Inr y, t) \<longleftrightarrow> (\<exists>x s'. m s = (Inr x, s') \<and> f x s' = (Inr y, t))"
  by (auto simp: eff_bind_def split: prod.splits sum.splits)

lemma eff_simps [simp]:
  "eff_return x s = (Inr x, s)" "eff_res r s = (r, s)" "eff_read g s = (g s, s)"
  "eff_guard b e s = (res_guard b e, s)"
  by (simp_all add: eff_return_def eff_res_def eff_read_def eff_guard_def)

lemma eff_wrap_Inr [simp]: "eff_wrap p m s = (Inr x, t) \<longleftrightarrow> m s = (Inr x, t)"
  by (auto simp: eff_wrap_def split: prod.splits)

lemma eff_try_Inr [simp]: "eff_try m s = (Inr r, t) \<longleftrightarrow> m s = (r, t)"
  by (auto simp: eff_try_def split: prod.splits)

lemma eff_fst_Inr [simp]: "eff_fst m (s, t) = (r, (s', t')) \<longleftrightarrow> m s = (r, s') \<and> t' = t"
  by (auto simp: eff_fst_def split: prod.splits)

lemma eff_bind_step [simp]:
  "m s = (Inr x, s') \<Longrightarrow> eff_bind m f s = f x s'" "m s = (Inl e, s') \<Longrightarrow> eff_bind m f s = (Inl e, s')"
  by (simp_all add: eff_bind_def)

lemma eff_bind_cong:
  assumes "m w = m' w" "\<And>x w'. m w = (Inr x, w') \<Longrightarrow> f x w' = g x w'"
  shows "eff_bind m f w = eff_bind m' g w"
  using assms by (auto simp: eff_bind_def split: prod.splits sum.splits)

section \<open>What calls keep\<close>

text \<open>Whatever the outcome, a call made of calls that keep a property keeps it.\<close>

definition eff_keeps :: "('s \<Rightarrow> bool) \<Rightarrow> ('s, 'a) eff \<Rightarrow> bool" where
  "eff_keeps P m \<longleftrightarrow> (\<forall>s. P s \<longrightarrow> P (snd (m s)))"

named_theorems eff_keep \<open>calls that keep a property of the state\<close>

lemma eff_keepsD: "eff_keeps P m \<Longrightarrow> P s \<Longrightarrow> m s = (r, s') \<Longrightarrow> P s'"
  by (metis eff_keeps_def snd_conv)

lemma eff_keeps_bind [eff_keep]: "eff_keeps P m \<Longrightarrow> (\<And>x. eff_keeps P (f x)) \<Longrightarrow> eff_keeps P (eff_bind m f)"
  unfolding eff_keeps_def eff_bind_def by (fastforce split: prod.split sum.split)

lemma eff_keeps_pure [eff_keep]:
  "eff_keeps P (eff_return x)" "eff_keeps P (eff_res r)" "eff_keeps P (eff_read g)" "eff_keeps P (eff_guard b e)"
  by (auto simp: eff_keeps_def)

lemma eff_keeps_wrap [eff_keep]:
  "eff_keeps P m \<Longrightarrow> eff_keeps P (eff_wrap p m)" "eff_keeps P m \<Longrightarrow> eff_keeps P (eff_try m)"
  by (auto simp: eff_keeps_def eff_wrap_def eff_try_def split: prod.splits)

lemma eff_keeps_iter [eff_keep]: "(\<And>x. eff_keeps P (f x)) \<Longrightarrow> eff_keeps P (eff_iter f xs)"
  by (induction xs) (auto intro!: eff_keep)

lemma eff_keeps_cases [eff_keep]:
  "(b \<Longrightarrow> eff_keeps P m) \<Longrightarrow> (\<not> b \<Longrightarrow> eff_keeps P n) \<Longrightarrow> eff_keeps P (if b then m else n)"
  "(\<And>e. eff_keeps P (g e)) \<Longrightarrow> (\<And>x. eff_keeps P (h x)) \<Longrightarrow> eff_keeps P (case y of Inl e \<Rightarrow> g e | Inr x \<Rightarrow> h x)"
  "eff_keeps P k \<Longrightarrow> (\<And>x. eff_keeps P (f x)) \<Longrightarrow> eff_keeps P (case z of None \<Rightarrow> k | Some x \<Rightarrow> f x)"
  by (auto split: sum.split option.split)

end
