(* ===== verification/Netns.thy ===== *)
theory Netns
  imports GoEncoding Effects
begin

text \<open>
  \<open>internal/network/netns\<close>. The first part is \<open>netns_linux.go\<close>: names of VPC namespaces
  and the directory \<open>/run/netns\<close> of their bind mounts, where a namespace lives as long as
  its mount. What the operating system answers beside the directory (errors of single
  calls, cancellation at each check of the context) is the argument \<open>os_env\<close>; the contents
  of a namespace are the type \<open>'n\<close>. The second part is the proof of identity of
  \<open>instance_linux.go\<close>: what a process must show before its network namespace is touched.
\<close>

section \<open>Names\<close>

definition maxIndex :: int where
  "maxIndex = 99999999"

definition ns_prefix :: string where
  "ns_prefix = ''nx-vpc-''"

definition Name :: "int \<Rightarrow> string res" where
  "Name index =
     (if index < 1 \<or> index > maxIndex
      then Inl (Errorf (''VPC namespace index '' @ FormatInt index @ '' is outside 1..'' @ FormatInt maxIndex))
      else Inr (ns_prefix @ FormatInt index))"

definition validateName :: "string \<Rightarrow> unit res" where
  "validateName name =
     (if \<not> HasPrefix name ns_prefix \<or> length name > 15
      then Inl (Errorf (''refusing foreign or oversized network namespace '' @ Quote name))
      else
        (case ParseInt (TrimPrefix name ns_prefix) of
           None \<Rightarrow> Inl (Wrapf (''invalid VPC namespace '' @ Quote name) (Errorf ''ParseInt''))
         | Some index \<Rightarrow>
             res_bind (Name index) (\<lambda>canonical.
             res_guard (canonical = name) (Errorf (''noncanonical VPC namespace '' @ Quote name)))))"

definition namespacePath :: "string \<Rightarrow> string" where
  "namespacePath name = ''/run/netns/'' @ name"

section \<open>The directory of namespace mounts\<close>

text \<open>
  An entry is a symbolic link, a file on another file system (its \<open>statfs\<close> type), or the
  bind mount of a network namespace.
\<close>

datatype 'n ns_entry = SymlinkEntry | FileEntry nat | NamespaceEntry 'n

record 'n ns_dir =
  nd_exists :: bool
  nd_entries :: "(string \<times> 'n ns_entry) list"

definition NSFS_MAGIC :: nat where
  "NSFS_MAGIC = 0x6E736673"

record os_env =
  ctx_Err :: "nat \<Rightarrow> goerr option"
  os_MkdirAll :: "goerr option"
  os_Lstat :: "goerr option"
  os_LstatMount :: "goerr option"
  os_Statfs :: "goerr option"
  os_OpenFile :: "goerr option"
  os_Close :: "goerr option"
  os_Unshare :: "goerr option"
  os_Mount :: "goerr option"
  os_Remove :: "goerr option"
  os_Unmount :: "goerr option"
  os_ReadDir :: "goerr option"
  os_GetFromPath :: "goerr option"
  os_Setns :: "goerr option"
  os_GetNs :: "goerr option"
  os_NewHandle :: "goerr option"

definition no_faults :: os_env where
  "no_faults = \<lparr>ctx_Err = (\<lambda>_. None), os_MkdirAll = None, os_Lstat = None, os_LstatMount = None,
     os_Statfs = None, os_OpenFile = None, os_Close = None, os_Unshare = None, os_Mount = None,
     os_Remove = None, os_Unmount = None, os_ReadDir = None, os_GetFromPath = None, os_Setns = None,
     os_GetNs = None, os_NewHandle = None\<rparr>"

definition os_check :: "goerr option \<Rightarrow> unit res" where
  "os_check e = (case e of None \<Rightarrow> Inr () | Some x \<Rightarrow> Inl x)"

definition nd_lookup :: "string \<Rightarrow> 'n ns_dir \<Rightarrow> 'n ns_entry option" where
  "nd_lookup name d = map_of (nd_entries d) name"

definition nd_remove :: "string \<Rightarrow> 'n ns_dir \<Rightarrow> 'n ns_dir" where
  "nd_remove name d = d\<lparr>nd_entries := filter (\<lambda>(k, e). k \<noteq> name) (nd_entries d)\<rparr>"

definition nd_put :: "string \<Rightarrow> 'n ns_entry \<Rightarrow> 'n ns_dir \<Rightarrow> 'n ns_dir" where
  "nd_put name e d = d\<lparr>nd_entries := (name, e) # filter (\<lambda>(k, e). k \<noteq> name) (nd_entries d)\<rparr>"

definition requireNamespaceMount :: "os_env \<Rightarrow> string \<Rightarrow> 'n ns_dir \<Rightarrow> unit res" where
  "requireNamespaceMount os name d =
     res_bind (res_wrap (''inspect namespace mount '' @ namespacePath name)
        (res_bind (os_check (os_LstatMount os)) (\<lambda>_.
         case nd_lookup name d of None \<Rightarrow> Inl ErrNotExist | Some e \<Rightarrow> Inr e))) (\<lambda>e.
     case e of
       SymlinkEntry \<Rightarrow> Inl (Errorf (''refusing symlink namespace mount '' @ namespacePath name))
     | _ \<Rightarrow>
         res_bind (res_wrap (''stat namespace filesystem '' @ namespacePath name) (os_check (os_Statfs os))) (\<lambda>_.
         res_guard ((case e of FileEntry magic \<Rightarrow> magic | _ \<Rightarrow> NSFS_MAGIC) = NSFS_MAGIC)
           (Errorf (''refusing non-namespace mount '' @ namespacePath name))))"

text \<open>
  The goroutine on the locked thread: cancellation, \<open>unshare\<close>, bind mount. The file made for
  the mount is removed again when it fails.
\<close>

definition bind_namespace :: "os_env \<Rightarrow> string \<Rightarrow> unit res" where
  "bind_namespace os name =
     res_bind (os_check (ctx_Err os 2)) (\<lambda>_.
     res_bind (res_wrap (''unshare VPC namespace '' @ name) (os_check (os_Unshare os))) (\<lambda>_.
     res_wrap (''bind VPC namespace '' @ name) (os_check (os_Mount os))))"

definition Ensure :: "os_env \<Rightarrow> 'n \<Rightarrow> string \<Rightarrow> 'n ns_dir \<Rightarrow> unit res \<times> 'n ns_dir" where
  "Ensure os fresh name d =
     (case res_bind (validateName name) (\<lambda>_. os_check (ctx_Err os 0)) of
        Inl e \<Rightarrow> (Inl e, d)
      | Inr _ \<Rightarrow>
     (case res_wrap ''create network namespace directory'' (os_check (os_MkdirAll os)) of
        Inl e \<Rightarrow> (Inl e, d)
      | Inr _ \<Rightarrow>
          (let d = d\<lparr>nd_exists := True\<rparr> in
           case res_wrap (''inspect VPC namespace '' @ name) (os_check (os_Lstat os)) of
             Inl e \<Rightarrow> (Inl e, d)
           | Inr _ \<Rightarrow>
          if nd_lookup name d \<noteq> None then (requireNamespaceMount os name d, d)
          else (case os_check (ctx_Err os 1) of
             Inl e \<Rightarrow> (Inl e, d)
           | Inr _ \<Rightarrow>
          (case res_wrap (''create namespace mount point '' @ name) (os_check (os_OpenFile os)) of
             Inl e \<Rightarrow> (Inl e, d)
           | Inr _ \<Rightarrow>
               (let d' = nd_put name (FileEntry 0) d in
                case res_wrap (''close namespace mount point '' @ name) (os_check (os_Close os)) of
                  Inl e \<Rightarrow> (Inl e, if os_Remove os = None then nd_remove name d' else d')
                | Inr _ \<Rightarrow>
                    (case bind_namespace os name of
                       Inl e \<Rightarrow>
                         (case os_check (os_Remove os) of
                            Inl r \<Rightarrow> (Inl (Wrap2 [] e (Wrapf (''remove failed namespace mount point '' @ name) r)), d')
                          | Inr _ \<Rightarrow> (Inl e, nd_remove name d'))
                     | Inr _ \<Rightarrow>
                         (let d'' = nd_put name (NamespaceEntry fresh) d' in
                          (requireNamespaceMount os name d'', d'')))))))))"

text \<open>
  Running a function inside a namespace; \<open>'x\<close> is the rest of the kernel it may act on. A
  mount of another kind of namespace passes the check of its file system and fails to be
  entered.
\<close>

definition Do :: "os_env \<Rightarrow> string \<Rightarrow> ('n \<times> 'x, unit) eff \<Rightarrow> ('n ns_dir \<times> 'x, unit) eff" where
  "Do os name fn = (\<lambda>(d, x).
     (case res_bind (validateName name) (\<lambda>_.
           res_bind (os_check (ctx_Err os 0)) (\<lambda>_.
           res_bind (requireNamespaceMount os name d) (\<lambda>_.
           res_bind (res_wrap (''open VPC namespace '' @ name) (os_check (os_GetFromPath os))) (\<lambda>_.
           res_bind (os_check (ctx_Err os 1)) (\<lambda>_.
           res_wrap (''enter VPC namespace '' @ name)
             (res_bind (os_check (os_Setns os)) (\<lambda>_.
              case nd_lookup name d of
                Some (NamespaceEntry n) \<Rightarrow> Inr n
              | _ \<Rightarrow> Inl (Errorf ''invalid argument'')))))))) of
        Inl e \<Rightarrow> (Inl e, (d, x))
      | Inr n \<Rightarrow> (case fn (n, x) of (r, (n', x')) \<Rightarrow> (r, (nd_put name (NamespaceEntry n') d, x')))))"

definition WithHandle :: "os_env \<Rightarrow> string \<Rightarrow> ('n \<times> 'x, unit) eff \<Rightarrow> ('n ns_dir \<times> 'x, unit) eff" where
  "WithHandle os name fn =
     Do os name
       (eff_bind (eff_wrap (''capture entered namespace '' @ name) (eff_res (os_check (os_GetNs os)))) (\<lambda>_.
        eff_bind (eff_wrap (''open bound netlink handle for '' @ name) (eff_res (os_check (os_NewHandle os)))) (\<lambda>_.
        fn)))"

definition Delete :: "os_env \<Rightarrow> string \<Rightarrow> 'n ns_dir \<Rightarrow> unit res \<times> 'n ns_dir" where
  "Delete os name d =
     (case res_bind (validateName name) (\<lambda>_. os_check (ctx_Err os 0)) of
        Inl e \<Rightarrow> (Inl e, d)
      | Inr _ \<Rightarrow>
     (case res_wrap (''inspect VPC namespace '' @ name) (os_check (os_Lstat os)) of
        Inl e \<Rightarrow> (Inl e, d)
      | Inr _ \<Rightarrow>
          if nd_lookup name d = None then (Inr (), d)
          else (case requireNamespaceMount os name d of
             Inl e \<Rightarrow> (Inl e, d)
           | Inr _ \<Rightarrow>
          (case res_wrap (''unmount VPC namespace '' @ name) (os_check (os_Unmount os)) of
             Inl e \<Rightarrow> (Inl e, d)
           | Inr _ \<Rightarrow>
               (let d' = nd_put name (FileEntry 0) d in
                case res_wrap (''remove VPC namespace mount point '' @ name) (os_check (os_Remove os)) of
                  Inl e \<Rightarrow> (Inl e, d')
                | Inr _ \<Rightarrow> (Inr (), nd_remove name d'))))))"

text \<open>\<open>os.ReadDir\<close> gives the entries in the order of their names.\<close>

fun list_names :: "os_env \<Rightarrow> 'n ns_dir \<Rightarrow> string list \<Rightarrow> string list res" where
  "list_names os d [] = Inr []"
| "list_names os d (name # names) =
     res_bind (os_check (ctx_Err os 1)) (\<lambda>_.
     case validateName name of
       Inl _ \<Rightarrow> list_names os d names
     | Inr _ \<Rightarrow>
         res_bind (requireNamespaceMount os name d) (\<lambda>_.
         res_bind (list_names os d names) (\<lambda>rest. Inr (name # rest))))"

definition List :: "os_env \<Rightarrow> 'n ns_dir \<Rightarrow> string list res" where
  "List os d =
     res_bind (os_check (ctx_Err os 0)) (\<lambda>_.
     if \<not> nd_exists d then Inr []
     else
       res_bind (res_wrap ''list VPC namespaces'' (os_check (os_ReadDir os))) (\<lambda>_.
       res_bind (list_names os d (sort (map fst (nd_entries d)))) (\<lambda>names.
       Inr (sort names))))"


section \<open>Proof of an instance's identity\<close>

definition validRuntimeID :: "string \<Rightarrow> bool" where
  "validRuntimeID i \<longleftrightarrow>
     length i = 64 \<and> list_all (\<lambda>r. (48 \<le> r \<and> r \<le> 57) \<or> (97 \<le> r \<and> r \<le> 102)) (runes i)"

definition runtimeCgroupMatches :: "string \<Rightarrow> string \<Rightarrow> bool" where
  "runtimeCgroupMatches raw i =
     (case split_at (char_of (10 :: nat)) (TrimSpace raw) of
        [line] \<Rightarrow>
          (case CutPrefix line ''0::/'' of
             None \<Rightarrow> False
           | Some path \<Rightarrow>
               list_ex (\<lambda>part. part = ''libpod-'' @ i \<or> part = ''libpod-'' @ i @ ''.scope'')
                 (split_at (CHR ''/'') path))
      | _ \<Rightarrow> False)"

fun root_mapping :: "string list \<Rightarrow> unit res" where
  "root_mapping [] = Inl (Errorf ''instance root has no nonzero appliance UID mapping'')"
| "root_mapping (line # lines) =
     (case Fields line of
        [a, b, c] \<Rightarrow>
          (case ParseUint 32 a of
             None \<Rightarrow> Inl (Wrapf ''decode mapped UID'' (Errorf ''ParseUint''))
           | Some inside \<Rightarrow>
          (case ParseUint 32 b of
             None \<Rightarrow> Inl (Wrapf ''decode appliance UID'' (Errorf ''ParseUint''))
           | Some outside \<Rightarrow>
          (case ParseUint 32 c of
             None \<Rightarrow> Inl (Wrapf ''decode UID range'' (Errorf ''ParseUint''))
           | Some count \<Rightarrow>
               if count = 0 \<or> outside + count > 2 ^ 32 \<or> inside + count > 2 ^ 32
               then Inl (Errorf ''invalid instance UID range'')
               else if inside = 0
               then (if outside = 0 then Inl (Errorf ''instance root maps to appliance root'') else Inr ())
               else root_mapping lines)))
      | _ \<Rightarrow> Inl (Errorf ''invalid instance UID mapping''))"

definition validateRootMapping :: "string \<Rightarrow> unit res" where
  "validateRootMapping raw = root_mapping (split_at (char_of (10 :: nat)) (TrimSpace raw))"

text \<open>
  What the kernel answers about one process: each field is the result of one call of
  \<open>OpenInstance\<close>, an error or the inode and device it reads.
\<close>

type_synonym file_id = "nat \<times> nat"

record proc_view =
  pv_ctx0 :: "goerr option"
  pv_Open :: "unit res"
  pv_OpenNet :: "unit res"
  pv_Fstatfs :: "nat res"
  pv_Net :: "file_id res"
  pv_ApplianceNet :: "file_id res"
  pv_OpenCgroup :: "unit res"
  pv_Cgroup :: "string res"
  pv_OpenUidMap :: "unit res"
  pv_UidMap :: "string res"
  pv_OpenUser :: "unit res"
  pv_User :: "file_id res"
  pv_ApplianceUser :: "file_id res"
  pv_OwnerFD :: "unit res"
  pv_Owner :: "file_id res"
  pv_ctx1 :: "goerr option"

text \<open>A target pins its namespace until it is closed; \<open>None\<close> is the nil pointer.\<close>

record InstanceTarget =
  it_open :: bool
  it_inode :: nat

definition read_identity :: "string \<Rightarrow> unit res \<Rightarrow> string res \<Rightarrow> string res" where
  "read_identity path opened content =
     res_bind (res_wrap (''open process '' @ path) opened) (\<lambda>_.
     res_bind (res_wrap (''read process '' @ path) content) (\<lambda>data.
     res_bind (res_guard (length data \<le> 65536) (Errorf (''process '' @ path @ '' exceeds identity limit''))) (\<lambda>_.
     Inr data)))"

definition OpenInstance :: "proc_view \<Rightarrow> int \<Rightarrow> string \<Rightarrow> InstanceTarget res" where
  "OpenInstance pv pid runtimeID =
     res_bind (os_check (pv_ctx0 pv)) (\<lambda>_.
     res_bind (res_guard (pid > 0 \<and> validRuntimeID runtimeID) (Errorf ''invalid instance PID or full runtime ID'')) (\<lambda>_.
     res_bind (res_wrap ''open instance process'' (pv_Open pv)) (\<lambda>_.
     res_bind (res_wrap ''open process ns/net'' (pv_OpenNet pv)) (\<lambda>_.
     res_bind (res_wrap ''inspect instance namespace filesystem'' (pv_Fstatfs pv)) (\<lambda>fs.
     res_bind (res_guard (fs = NSFS_MAGIC) (Errorf ''instance target is not a namespace'')) (\<lambda>_.
     res_bind (res_wrap ''inspect instance netns'' (pv_Net pv)) (\<lambda>target.
     res_bind (res_wrap ''inspect appliance netns'' (pv_ApplianceNet pv)) (\<lambda>root.
     res_bind (res_guard (target \<noteq> root) (Errorf ''refusing appliance network namespace'')) (\<lambda>_.
     res_bind (read_identity ''cgroup'' (pv_OpenCgroup pv) (pv_Cgroup pv)) (\<lambda>cgroup.
     res_bind (res_guard (runtimeCgroupMatches cgroup runtimeID)
        (Errorf (''PID '' @ FormatInt pid @ '' does not belong to runtime '' @ runtimeID))) (\<lambda>_.
     res_bind (read_identity ''uid_map'' (pv_OpenUidMap pv) (pv_UidMap pv)) (\<lambda>mapping.
     res_bind (validateRootMapping mapping) (\<lambda>_.
     res_bind (res_wrap ''open process ns/user'' (pv_OpenUser pv)) (\<lambda>_.
     res_bind (res_wrap ''inspect instance user namespace'' (pv_User pv)) (\<lambda>user.
     res_bind (res_wrap ''inspect appliance user namespace'' (pv_ApplianceUser pv)) (\<lambda>root'.
     res_bind (res_guard (user \<noteq> root') (Errorf ''instance shares appliance user namespace'')) (\<lambda>_.
     res_bind (res_wrap ''inspect network namespace owner'' (pv_OwnerFD pv)) (\<lambda>_.
     res_bind (res_wrap ''inspect owning user namespace'' (pv_Owner pv)) (\<lambda>owner.
     res_bind (res_guard (owner = user)
        (Errorf ''network namespace is not owned by instance user namespace'')) (\<lambda>_.
     res_bind (os_check (pv_ctx1 pv)) (\<lambda>_.
     Inr \<lparr>it_open = True, it_inode = fst target\<rparr>)))))))))))))))))))))"

definition target_Close :: "unit res \<Rightarrow> InstanceTarget option \<Rightarrow> unit res \<times> InstanceTarget option" where
  "target_Close os_close t =
     (case t of
        None \<Rightarrow> (Inr (), None)
      | Some x \<Rightarrow>
          if \<not> it_open x then (Inr (), Some x)
          else (res_wrap ''close instance namespace'' os_close, Some (x\<lparr>it_open := False\<rparr>)))"

definition target_Inode :: "InstanceTarget option \<Rightarrow> nat" where
  "target_Inode t = (case t of None \<Rightarrow> 0 | Some x \<Rightarrow> it_inode x)"

text \<open>The function gets a duplicate of the pinned descriptor: it names the namespace's inode.\<close>

definition WithFD ::
  "goerr option \<Rightarrow> unit res \<Rightarrow> InstanceTarget option \<Rightarrow> (nat \<Rightarrow> ('s, 'a) eff) \<Rightarrow> ('s, 'a) eff" where
  "WithFD ctx dup t fn =
     eff_bind (eff_res (os_check ctx)) (\<lambda>_.
     case t of
       None \<Rightarrow> eff_res (Inl (Errorf ''missing instance namespace target''))
     | Some x \<Rightarrow>
         eff_bind (eff_guard (it_open x) (Errorf ''instance namespace target is closed'')) (\<lambda>_.
         eff_bind (eff_wrap ''duplicate instance namespace'' (eff_res dup)) (\<lambda>_. fn (it_inode x))))"

text \<open>The environment of one entry into the target.\<close>

record enter_env =
  en_ctx :: "goerr option"
  en_Dup :: "unit res"
  en_ctx1 :: "goerr option"
  en_Setns :: "goerr option"
  en_NewHandle :: "goerr option"

definition WithInstanceHandle :: "enter_env \<Rightarrow> InstanceTarget option \<Rightarrow> (nat \<Rightarrow> ('s, 'a) eff) \<Rightarrow> ('s, 'a) eff" where
  "WithInstanceHandle en t fn =
     WithFD (en_ctx en) (en_Dup en) t (\<lambda>fd.
       eff_bind (eff_res (os_check (en_ctx1 en))) (\<lambda>_.
       eff_bind (eff_wrap ''enter pinned instance namespace'' (eff_res (os_check (en_Setns en)))) (\<lambda>_.
       eff_bind (eff_wrap ''bind instance netlink handle'' (eff_res (os_check (en_NewHandle en)))) (\<lambda>_.
       fn fd))))"


section \<open>What the names decide\<close>

lemma Name_Inr: "Name i = Inr s \<longleftrightarrow> 1 \<le> i \<and> i \<le> maxIndex \<and> s = ns_prefix @ FormatInt i"
  by (auto simp: Name_def)

lemma Name_inject: "Name i = Inr s \<Longrightarrow> Name j = Inr s \<Longrightarrow> i = j"
  by (simp add: Name_Inr FormatInt_inject)

lemma dec_length: "0 < k \<Longrightarrow> n < 10 ^ k \<Longrightarrow> length (dec n) \<le> k"
proof (induction n arbitrary: k rule: dec.induct)
  case (1 n)
  show ?case
  proof (cases "n < 10")
    case True
    then show ?thesis using "1.prems"(1) by (simp add: dec.simps [of n])
  next
    case False
    obtain j where k: "k = Suc j" using "1.prems"(1) by (cases k) auto
    have "j \<noteq> 0" using False "1.prems"(2) k by (intro notI) simp
    moreover have "n div 10 < 10 ^ j" using "1.prems"(2) k by (simp add: less_mult_imp_div_less)
    ultimately have "length (dec (n div 10)) \<le> j" using "1.IH" [OF False] by simp
    then show ?thesis using False k by (simp add: dec.simps [of n])
  qed
qed

lemma Name_length: "Name i = Inr s \<Longrightarrow> length s \<le> 15"
  using dec_length [of 8 "nat i"] by (auto simp: Name_Inr FormatInt_def ns_prefix_def maxIndex_def)

lemma ParseInt_index: "1 \<le> i \<Longrightarrow> i \<le> maxIndex \<Longrightarrow> ParseInt (FormatInt i) = Some i"
  by (rule ParseInt_FormatInt) (simp_all add: maxIndex_def)

lemma validateName_iff: "validateName s = Inr () \<longleftrightarrow> (\<exists>i. Name i = Inr s)"
proof
  assume "validateName s = Inr ()"
  then show "\<exists>i. Name i = Inr s"
    by (auto simp: validateName_def res_bind_Inr split: if_splits option.splits)
next
  assume "\<exists>i. Name i = Inr s"
  then obtain i where i: "Name i = Inr s" by blast
  then have s: "s = ns_prefix @ FormatInt i" "1 \<le> i" "i \<le> maxIndex" by (simp_all add: Name_Inr)
  then have "ParseInt (TrimPrefix s ns_prefix) = Some i" by (simp add: TrimPrefix_def ParseInt_index)
  then show "validateName s = Inr ()"
    using i s Name_length [OF i] by (simp add: validateName_def)
qed

section \<open>What happens to the directory\<close>

lemma map_of_filter_key: "map_of (filter (\<lambda>(k, e). k \<noteq> n) xs) m = (if m = n then None else map_of xs m)"
  by (induction xs) auto

lemma nd_lookup_put [simp]: "nd_lookup m (nd_put n e d) = (if m = n then Some e else nd_lookup m d)"
  by (simp add: nd_lookup_def nd_put_def map_of_filter_key)

lemma nd_lookup_remove [simp]: "nd_lookup m (nd_remove n d) = (if m = n then None else nd_lookup m d)"
  by (simp add: nd_lookup_def nd_remove_def map_of_filter_key)

lemma nd_lookup_exists [simp]: "nd_lookup m (d\<lparr>nd_exists := b\<rparr>) = nd_lookup m d"
  by (simp add: nd_lookup_def)

lemma nd_exists_put [simp]: "nd_exists (nd_put n e d) = nd_exists d" "nd_exists (nd_remove n d) = nd_exists d"
  by (simp_all add: nd_put_def nd_remove_def)

lemma os_check_None [simp]: "os_check None = Inr ()"
  by (simp add: os_check_def)

lemma requireNamespaceMount_Inr:
  "requireNamespaceMount os name d = Inr () \<Longrightarrow>
   (\<exists>n. nd_lookup name d = Some (NamespaceEntry n)) \<or> nd_lookup name d = Some (FileEntry NSFS_MAGIC)"
  by (auto simp: requireNamespaceMount_def res_bind_Inr split: option.splits ns_entry.splits)

text \<open>Only the entry of the name itself changes, and never one that was there.\<close>

lemma Ensure_frame:
  assumes "Ensure os fresh name d = (r, d')"
  shows "m \<noteq> name \<Longrightarrow> nd_lookup m d' = nd_lookup m d"
    and "nd_lookup name d \<noteq> None \<Longrightarrow> nd_lookup name d' = nd_lookup name d"
  using assms
  by (auto simp: Ensure_def Let_def split: sum.splits if_splits)

lemma Ensure_ok:
  assumes "Ensure os fresh name d = (Inr (), d')"
  shows "validateName name = Inr () \<and> requireNamespaceMount os name d' = Inr () \<and> nd_exists d' \<and>
    (nd_lookup name d = None \<longrightarrow> nd_lookup name d' = Some (NamespaceEntry fresh))"
  using assms
  by (auto simp: Ensure_def Let_def res_bind_Inr split: sum.splits if_splits)

lemma Delete_frame: "Delete os name d = (r, d') \<Longrightarrow> m \<noteq> name \<Longrightarrow> nd_lookup m d' = nd_lookup m d"
  by (auto simp: Delete_def Let_def split: sum.splits if_splits)

lemma Delete_ok: "Delete os name d = (Inr (), d') \<Longrightarrow> nd_lookup name d' = None"
  by (auto simp: Delete_def Let_def split: sum.splits if_splits)

lemma Delete_foreign:
  assumes "nd_lookup name d = Some SymlinkEntry \<or> (\<exists>m. nd_lookup name d = Some (FileEntry m) \<and> m \<noteq> NSFS_MAGIC)"
  shows "\<exists>e. Delete os name d = (Inl e, d)"
proof -
  have "requireNamespaceMount os name d \<noteq> Inr ()" using assms by (auto dest: requireNamespaceMount_Inr)
  then obtain e where "requireNamespaceMount os name d = Inl e" by (cases "requireNamespaceMount os name d") auto
  then show ?thesis using assms by (auto simp: Delete_def split: sum.splits)
qed

lemma list_names_Inr:
  "list_names os d names = Inr xs \<Longrightarrow>
   xs = filter (\<lambda>n. validateName n = Inr ()) names \<and> (\<forall>n \<in> set xs. requireNamespaceMount os n d = Inr ())"
  by (induction names arbitrary: xs) (auto simp: res_bind_Inr split: sum.splits)

lemma List_Inr:
  assumes "List os d = Inr xs" and "nd_exists d"
  shows "sorted xs \<and> set xs = {n. validateName n = Inr () \<and> nd_lookup n d \<noteq> None} \<and>
    (\<forall>n \<in> set xs. requireNamespaceMount os n d = Inr ())"
proof -
  obtain ys where ys: "list_names os d (sort (map fst (nd_entries d))) = Inr ys" "xs = sort ys"
    using assms by (auto simp: List_def res_bind_Inr)
  have "nd_lookup n d \<noteq> None \<longleftrightarrow> n \<in> fst ` set (nd_entries d)" for n
    by (simp add: nd_lookup_def map_of_eq_None_iff)
  then show ?thesis using list_names_Inr [OF ys(1)] ys(2) by auto
qed

section \<open>What a pinned target proves\<close>

lemma OpenInstance_Inr:
  assumes "OpenInstance pv pid rid = Inr t"
  shows "\<exists>net cgroup mapping user. pid > 0 \<and> validRuntimeID rid \<and> pv_Fstatfs pv = Inr NSFS_MAGIC \<and>
    pv_Net pv = Inr net \<and> pv_ApplianceNet pv \<noteq> Inr net \<and> pv_Cgroup pv = Inr cgroup \<and>
    runtimeCgroupMatches cgroup rid \<and> pv_UidMap pv = Inr mapping \<and> validateRootMapping mapping = Inr () \<and>
    pv_User pv = Inr user \<and> pv_ApplianceUser pv \<noteq> Inr user \<and> pv_Owner pv = Inr user \<and>
    t = \<lparr>it_open = True, it_inode = fst net\<rparr>"
  using assms by (auto simp: OpenInstance_def read_identity_def res_bind_Inr)

lemma root_mapping_Inr:
  "root_mapping lines = Inr () \<Longrightarrow>
   \<exists>line \<in> set lines. \<exists>a b c outside. Fields line = [a, b, c] \<and> ParseUint 32 a = Some 0 \<and>
     ParseUint 32 b = Some outside \<and> outside \<noteq> 0"
  by (induction lines rule: root_mapping.induct) (auto split: list.splits option.splits if_splits)

end
