(* ===== verification/Topology.thy ===== *)
theory Topology
  imports Netns Validate Model
begin

text \<open>
  \<open>internal/network/topology\<close>: \<open>vpc_linux.go\<close> and \<open>policy_linux.go\<close>, the router of a VPC.
  The package \<open>netlink\<close> and the kernel behind it are not part of the repository: the
  record \<open>Handle\<close> holds their calls, functions on the state \<open>'s\<close> of the entered namespace
  and of what it can reach.
\<close>

unbundle bit_operations_syntax

section \<open>Addresses of package net\<close>

record ipnet =
  n_IP :: "nat list"
  n_Mask :: "nat list"

definition octets :: "32 word \<Rightarrow> nat list" where
  "octets w = map unat (bytes4 w)"

definition AddrFromSlice :: "nat list \<Rightarrow> addr option" where
  "AddrFromSlice bs =
     (if length bs = 4 then Some (IP4 (octets_word bs))
      else if length bs = 16 then Some (IP6 (foldl (\<lambda>w b. w * 256 + of_nat b) 0 bs) [])
      else None)"

fun Unmap :: "addr \<Rightarrow> addr" where
  "Unmap (IP6 w z) = (if Is4In6 w then IP4 (ucast w) else IP6 w z)"
| "Unmap a = a"

text \<open>\<open>net.CIDRMask\<close>, and \<open>IPMask.Size\<close>: the number of leading ones, when only zeros follow.\<close>

definition CIDRMask :: "nat \<Rightarrow> nat \<Rightarrow> nat list" where
  "CIDRMask ones bits =
     (if bits < ones then [] else map (\<lambda>i. 256 - 2 ^ (8 - min 8 (ones - 8 * i))) [0..<bits div 8])"

definition byte_bits :: "nat \<Rightarrow> bool list" where
  "byte_bits b = map (\<lambda>i. odd (b div 2 ^ (7 - i))) [0..<8]"

definition simpleMaskLength :: "nat list \<Rightarrow> nat option" where
  "simpleMaskLength bs =
     (let bits = concat (map byte_bits bs); ones = length (takeWhile (\<lambda>b. b) bits) in
      if list_ex (\<lambda>b. b) (drop ones bits) then None else Some ones)"

definition mask_Size :: "nat list \<Rightarrow> nat \<times> nat" where
  "mask_Size bs = (case simpleMaskLength bs of None \<Rightarrow> (0, 0) | Some n \<Rightarrow> (n, 8 * length bs))"

text \<open>\<open>IPNet.String\<close>; a mask that is no prefix is printed in hexadecimal.\<close>

definition To4 :: "nat list \<Rightarrow> nat list option" where
  "To4 ip =
     (if length ip = 4 then Some ip
      else if length ip = 16 \<and> take 12 ip = replicate 10 0 @ [255, 255] then Some (drop 12 ip)
      else None)"

definition ip_string :: "nat list \<Rightarrow> string" where
  "ip_string ip = (case AddrFromSlice ip of Some a \<Rightarrow> addr_string (Unmap a) | None \<Rightarrow> ''?'' @ hexEncode (map char_of ip))"

definition ipnet_string :: "ipnet \<Rightarrow> string" where
  "ipnet_string n =
     (case (case To4 (n_IP n) of Some ip \<Rightarrow> Some ip | None \<Rightarrow> if length (n_IP n) = 16 then Some (n_IP n) else None) of
        None \<Rightarrow> ''<nil>''
      | Some ip \<Rightarrow>
          (case (if length (n_Mask n) = length ip then Some (n_Mask n)
                 else if length (n_Mask n) = 16 \<and> length ip = 4 then Some (drop 12 (n_Mask n)) else None) of
             None \<Rightarrow> ''<nil>''
           | Some m \<Rightarrow>
               (case simpleMaskLength m of
                  None \<Rightarrow> ip_string ip @ ''/'' @ hexEncode (map char_of m)
                | Some l \<Rightarrow> ip_string ip @ ''/'' @ dec l)))"

text \<open>\<open>net.ParseCIDR\<close>: the network it returns.\<close>

definition bytes16 :: "128 word \<Rightarrow> nat list" where
  "bytes16 w = map (\<lambda>i. unat (drop_bit (8 * (15 - i)) w AND 255)) [0..<16]"

definition and_mask :: "nat list \<Rightarrow> nat list \<Rightarrow> nat list" where
  "and_mask ip bs = map2 (\<lambda>b m. unat (of_nat b AND (of_nat m :: 8 word))) ip bs"

definition net_ParseCIDR :: "string \<Rightarrow> ipnet option" where
  "net_ParseCIDR s =
     (let a = takeWhile (\<lambda>c. c \<noteq> CHR ''/'') s; m = drop (Suc (length a)) s in
      if CHR ''/'' \<notin> set s then None
      else (case ParseAddr a of
          None \<Rightarrow> None
        | Some ip \<Rightarrow>
            if m = [] \<or> \<not> list_all is_digit m \<or> num m \<ge> 0xFFFFFF \<or> int (num m) > BitLen ip then None
            else (case ip of
                IP0 w \<Rightarrow> None
              | IP4 w \<Rightarrow> (let k = CIDRMask (num m) 32 in Some \<lparr>n_IP = and_mask (octets w) k, n_Mask = k\<rparr>)
              | IP6 w z \<Rightarrow>
                  if z \<noteq> [] then None
                  else (let k = CIDRMask (num m) 128 in Some \<lparr>n_IP = and_mask (bytes16 w) k, n_Mask = k\<rparr>))))"

section \<open>Netlink\<close>

record Link =
  lk_Name :: string
  lk_Index :: int
  lk_Type :: string
  lk_Alias :: string
  lk_ParentIndex :: int
  lk_NetNsID :: int

record Address =
  ad_IPNet :: "ipnet option"
  ad_Label :: string

record Rule =
  ru_Priority :: int
  ru_Table :: int
  ru_Type :: nat
  ru_Dst :: "ipnet option"

record Route =
  ro_LinkIndex :: int
  ro_Dst :: "ipnet option"
  ro_Gw :: "nat list"
  ro_Scope :: nat
  ro_Table :: int

text \<open>The links the code adds: a dummy, or a pair whose peer goes to the namespace of a descriptor.\<close>

datatype new_link = Dummy string | Veth string string string nat

record RtMsg =
  rt_Dst_len :: nat
  rt_Table :: nat
  rt_Type :: nat

record 's Handle =
  LinkByName :: "string \<Rightarrow> 's \<Rightarrow> Link res"
  LinkList :: "'s \<Rightarrow> Link list res"
  LinkAdd :: "new_link \<Rightarrow> ('s, unit) eff"
  LinkDel :: "Link \<Rightarrow> ('s, unit) eff"
  LinkSetUp :: "Link \<Rightarrow> ('s, unit) eff"
  LinkSetDown :: "Link \<Rightarrow> ('s, unit) eff"
  LinkSetAlias :: "Link \<Rightarrow> string \<Rightarrow> ('s, unit) eff"
  LinkSetName :: "Link \<Rightarrow> string \<Rightarrow> ('s, unit) eff"
  LinkSetHardwareAddr :: "Link \<Rightarrow> nat list \<Rightarrow> ('s, unit) eff"
  GetNetNsIdByFd :: "nat \<Rightarrow> 's \<Rightarrow> int res"
  AddrList :: "Link \<Rightarrow> 's \<Rightarrow> Address list res"
  AddrAdd :: "Link \<Rightarrow> Address \<Rightarrow> ('s, unit) eff"
  AddrDel :: "Link \<Rightarrow> Address \<Rightarrow> ('s, unit) eff"
  AddrReplace :: "Link \<Rightarrow> Address \<Rightarrow> ('s, unit) eff"
  RouteReplace :: "Route \<Rightarrow> ('s, unit) eff"
  RuleAdd :: "Rule \<Rightarrow> ('s, unit) eff"
  RuleDump :: "'s \<Rightarrow> bytes list res"
  DeserializeRtMsg :: "bytes \<Rightarrow> RtMsg"
  ParseRouteAttr :: "bytes \<Rightarrow> (nat \<times> bytes) list res"
  NativeUint32 :: "bytes \<Rightarrow> nat"
  WriteFile :: "string \<Rightarrow> string \<Rightarrow> ('s, unit) eff"
  nft_list :: "'s \<Rightarrow> bytes res"
  nft_apply :: "string \<Rightarrow> ('s, unit) eff"

fun as_link_missing :: "goerr \<Rightarrow> bool" where
  "as_link_missing (ErrSentinel n) = (n = ''netlink.LinkNotFoundError'')"
| "as_link_missing (Wrapf m e) = as_link_missing e"
| "as_link_missing (Wrap2 m e e') = (as_link_missing e \<or> as_link_missing e')"
| "as_link_missing e = False"

section \<open>vpc\_linux.go\<close>

definition routerLinkName :: string where
  "routerLinkName = ''nxr0''"

definition gatewayLabel :: string where
  "gatewayLabel = ''nxr0:gw''"

definition localPriority :: int where
  "localPriority = 100"

definition dropPriority :: int where
  "dropPriority = 32000"

definition mainRouteTable :: int where
  "mainRouteTable = 254"

definition RTN_UNICAST :: nat where
  "RTN_UNICAST = 1"

definition RTN_BLACKHOLE :: nat where
  "RTN_BLACKHOLE = 6"

text \<open>\<open>netip.Prefix.Overlaps\<close>.\<close>

definition prefix_Overlaps :: "prefix \<Rightarrow> prefix \<Rightarrow> bool" where
  "prefix_Overlaps p q =
     (if \<not> IsValid p \<or> \<not> IsValid q then False
      else if p = q then True
      else if Is4 (Addr p) \<noteq> Is4 (Addr q) then False
      else
        (let m = min (Bits p) (Bits q) in
         if m = 0 then True
         else Addr (Masked (Prefix (withoutZone (Addr p)) m)) = Addr (Masked (Prefix (withoutZone (Addr q)) m))))"

fun gateway_list :: "VPC \<Rightarrow> prefix list \<Rightarrow> Subnet list \<Rightarrow> addr list res" where
  "gateway_list vpc seen [] = Inr []"
| "gateway_list vpc seen (s # ss) =
     (let p = vpc_CIDRBlock vpc; cidr = sub_CIDRBlock s in
      if sub_VPCID s \<noteq> vpc_ID vpc \<or> \<not> IsValid cidr \<or> \<not> Is4 (Addr cidr) \<or> Masked cidr \<noteq> cidr
         \<or> Bits cidr < Bits p \<or> Bits cidr > 28 \<or> \<not> Contains p (Addr cidr)
      then Inl (Errorf (''subnet '' @ sub_ID s @ '' is not a valid range inside VPC '' @ vpc_ID vpc))
      else
        (case find (\<lambda>prior. prefix_Overlaps cidr prior) seen of
           Some prior \<Rightarrow>
             Inl (Errorf (''subnet '' @ sub_ID s @ '' overlaps '' @ prefix_string prior @ '' in VPC '' @ vpc_ID vpc))
         | None \<Rightarrow>
             res_bind (gateway_list vpc (seen @ [cidr]) ss) (\<lambda>rest. Inr (Next (Addr cidr) # rest))))"

definition desiredGateways :: "VPC \<Rightarrow> Subnet list \<Rightarrow> addr list res" where
  "desiredGateways vpc children =
     (let p = vpc_CIDRBlock vpc in
      if \<not> IsValid p \<or> \<not> Is4 (Addr p) \<or> Masked p \<noteq> p \<or> Bits p < 16 \<or> Bits p > 28
      then Inl (Errorf (''VPC '' @ vpc_ID vpc @ '' has invalid IPv4 CIDR '' @ prefix_string p))
      else res_bind (gateway_list vpc [] children) (\<lambda>gateways. Inr (sort_key ip4 gateways)))"

definition ensureRouterLinks :: "'s Handle \<Rightarrow> ('s, unit) eff" where
  "ensureRouterLinks h =
     eff_bind (eff_wrap ''find loopback'' (eff_read (LinkByName h ''lo''))) (\<lambda>lo.
     eff_bind (eff_wrap ''bring up loopback'' (LinkSetUp h lo)) (\<lambda>_.
     eff_bind (eff_try (eff_read (LinkByName h routerLinkName))) (\<lambda>got.
     eff_bind (case got of
                 Inl e \<Rightarrow>
                   if as_link_missing e
                   then eff_bind (eff_wrap ''create router dummy'' (LinkAdd h (Dummy routerLinkName))) (\<lambda>_.
                        eff_try (eff_read (LinkByName h routerLinkName)))
                   else eff_return (Inl e)
               | Inr l \<Rightarrow> eff_return (Inr l)) (\<lambda>got.
     eff_bind (eff_wrap ''find router dummy'' (eff_res got)) (\<lambda>link.
     eff_bind (eff_guard (lk_Type link = ''dummy'')
                 (Errorf (''refusing non-dummy router link '' @ routerLinkName @ '' ('' @ lk_Type link @ '')''))) (\<lambda>_.
     eff_wrap ''bring up router dummy'' (LinkSetUp h link)))))))"

definition setNamespaceSysctl :: "'s Handle \<Rightarrow> string \<Rightarrow> string \<Rightarrow> ('s, unit) eff" where
  "setNamespaceSysctl h key v =
     (if HasPrefix key ''net/ipv4/conf/all/'' \<or> has_substring key ''..''
      then eff_res (Inl (Errorf (''refusing non-local sysctl '' @ Quote key)))
      else if key \<notin> {''net/ipv4/ip_forward'', ''net/ipv4/conf/default/send_redirects'', ''net/ipv4/conf/nxr0/send_redirects''}
      then eff_res (Inl (Errorf (''sysctl '' @ Quote key @ '' is not permitted by the VPC engine'')))
      else eff_wrap (''set VPC sysctl '' @ key @ ''='' @ v) (WriteFile h (''/proc/sys/'' @ key) v))"

text \<open>
  The first loop of \<open>reconcileGateways\<close> over the addresses the router has; the wanted
  addresses found so far are the map's entries that are true.
\<close>

fun gateway_sweep :: "'s Handle \<Rightarrow> Link \<Rightarrow> string list \<Rightarrow> string list \<Rightarrow> Address list \<Rightarrow> ('s, string list) eff" where
  "gateway_sweep h link wanted found [] = eff_return found"
| "gateway_sweep h link wanted found (a # as) =
     (case ad_IPNet a of
        None \<Rightarrow> gateway_sweep h link wanted found as
      | Some n \<Rightarrow>
          (case AddrFromSlice (n_IP n) of
             None \<Rightarrow> eff_res (Inl (Errorf (''router has unparsable IPv4 address '' @ ipnet_string n)))
           | Some addr \<Rightarrow>
               (let key = addr_string (Unmap addr) in
                if key \<in> set wanted \<and> ad_Label a \<noteq> gatewayLabel
                then eff_res (Inl (Errorf (''gateway address '' @ key @ '' is owned by label '' @ Quote (ad_Label a))))
                else if ad_Label a \<noteq> gatewayLabel
                then eff_res (Inl (Errorf (''unmanaged router address '' @ key @ '' with label '' @ Quote (ad_Label a))))
                else if key \<in> set wanted
                then
                  (if mask_Size (n_Mask n) \<noteq> (32, 32)
                   then eff_res (Inl (Errorf (''gateway '' @ key @ '' has unexpected prefix length '' @ dec (fst (mask_Size (n_Mask n))))))
                   else gateway_sweep h link wanted (key # found) as)
                else
                  eff_bind (eff_wrap (''remove stale gateway '' @ key) (AddrDel h link a)) (\<lambda>_.
                  gateway_sweep h link wanted found as))))"

fun addr_bytes :: "addr \<Rightarrow> nat list" where
  "addr_bytes (IP4 w) = octets w"
| "addr_bytes (IP6 w z) = bytes16 w"
| "addr_bytes (IP0 w) = []"

definition gateway_address :: "addr \<Rightarrow> Address" where
  "gateway_address a = \<lparr>ad_IPNet = Some \<lparr>n_IP = addr_bytes a, n_Mask = CIDRMask 32 32\<rparr>, ad_Label = gatewayLabel\<rparr>"

definition reconcileGateways :: "'s Handle \<Rightarrow> addr list \<Rightarrow> ('s, unit) eff" where
  "reconcileGateways h desired =
     eff_bind (eff_wrap ''find router dummy'' (eff_read (LinkByName h routerLinkName))) (\<lambda>link.
     eff_bind (eff_wrap ''list router addresses'' (eff_read (AddrList h link))) (\<lambda>existing.
     eff_bind (gateway_sweep h link (map addr_string desired) [] existing) (\<lambda>found.
     eff_iter (\<lambda>a. if addr_string a \<in> set found then eff_return ()
                   else eff_wrap (''add gateway '' @ addr_string a) (AddrAdd h link (gateway_address a))) desired)))"

section \<open>policy\_linux.go\<close>

record kernelPolicyRule =
  kp_priority :: int
  kp_table :: int
  kp_action :: nat
  kp_dst :: "ipnet option"
  kp_extra :: "string list"

definition FRA_DST :: nat where "FRA_DST = 1"

definition FRA_PRIORITY :: nat where "FRA_PRIORITY = 6"

definition FRA_SUPPRESS_PREFIXLEN :: nat where "FRA_SUPPRESS_PREFIXLEN = 14"

definition FRA_TABLE :: nat where "FRA_TABLE = 15"

definition FRA_PROTOCOL :: nat where "FRA_PROTOCOL = 21"

definition RTPROT_BOOT :: nat where "RTPROT_BOOT = 3"

text \<open>One attribute of a rule; the native \<open>int\<close> holds every \<open>uint32\<close>.\<close>

definition rule_attr ::
  "'s Handle \<Rightarrow> RtMsg \<Rightarrow> nat \<times> bytes \<Rightarrow> kernelPolicyRule \<Rightarrow> kernelPolicyRule res" where
  "rule_attr h msg attr rule =
     (case attr of (ty, v) \<Rightarrow>
      (let extra = rule\<lparr>kp_extra := kp_extra rule @ [dec ty @ '':'' @ hexEncode v]\<rparr> in
       if ty = FRA_PRIORITY
       then (if length v \<noteq> 4 then Inl (Errorf (''invalid policy-rule priority length '' @ dec (length v)))
             else Inr (rule\<lparr>kp_priority := int (NativeUint32 h v)\<rparr>))
       else if ty = FRA_TABLE
       then (if length v \<noteq> 4 then Inl (Errorf (''invalid policy-rule table length '' @ dec (length v)))
             else Inr (rule\<lparr>kp_table := int (NativeUint32 h v)\<rparr>))
       else if ty = FRA_DST
       then (if length v \<noteq> 4 then Inl (Errorf (''invalid IPv4 policy-rule destination length '' @ dec (length v)))
             else Inr (rule\<lparr>kp_dst := Some \<lparr>n_IP = map of_char v, n_Mask = CIDRMask (rt_Dst_len msg) 32\<rparr>\<rparr>))
       else if ty = FRA_SUPPRESS_PREFIXLEN
       then Inr (if length v \<noteq> 4 \<or> NativeUint32 h v \<noteq> 0xFFFFFFFF then extra else rule)
       else if ty = FRA_PROTOCOL
       then Inr (if length v \<noteq> 1 \<or> (byte (hd v) \<noteq> 0 \<and> byte (hd v) \<noteq> RTPROT_BOOT) then extra else rule)
       else Inr extra))"

fun rule_attrs ::
  "'s Handle \<Rightarrow> RtMsg \<Rightarrow> (nat \<times> bytes) list \<Rightarrow> kernelPolicyRule \<Rightarrow> kernelPolicyRule res" where
  "rule_attrs h msg [] rule = Inr rule"
| "rule_attrs h msg (a # as) rule = res_bind (rule_attr h msg a rule) (rule_attrs h msg as)"

definition decode_rule :: "'s Handle \<Rightarrow> bytes \<Rightarrow> kernelPolicyRule res" where
  "decode_rule h raw =
     (if length raw < 12 then Inl (Errorf ''short kernel policy-rule reply'')
      else
        (let msg = DeserializeRtMsg h raw in
         res_bind (res_wrap ''decode kernel policy-rule attributes'' (ParseRouteAttr h (drop 12 raw))) (\<lambda>attrs.
         rule_attrs h msg attrs
           \<lparr>kp_priority = 0, kp_table = int (rt_Table msg), kp_action = rt_Type msg, kp_dst = None, kp_extra = []\<rparr>)))"

definition listKernelPolicyRules :: "'s Handle \<Rightarrow> 's \<Rightarrow> kernelPolicyRule list res" where
  "listKernelPolicyRules h s =
     res_bind (res_wrap ''query IPv4 policy rules'' (RuleDump h s)) (res_mapM (decode_rule h))"

section \<open>The rules of a router\<close>

definition sameDestination :: "ipnet option \<Rightarrow> ipnet option \<Rightarrow> bool" where
  "sameDestination a b =
     (case (a, b) of
        (Some x, Some y) \<Rightarrow> ipnet_string x = ipnet_string y
      | (None, None) \<Rightarrow> True
      | _ \<Rightarrow> False)"

text \<open>A destination as \<open>%v\<close> prints it.\<close>

definition net_text :: "ipnet option \<Rightarrow> string" where
  "net_text n = (case n of None \<Rightarrow> ''<nil>'' | Some x \<Rightarrow> ipnet_string x)"

text \<open>Whether a rule of the wanted priority was found; an error for any other rule there.\<close>

fun find_rule :: "Rule \<Rightarrow> bool \<Rightarrow> kernelPolicyRule list \<Rightarrow> bool res" where
  "find_rule want found [] = Inr found"
| "find_rule want found (r # rs) =
     (if kp_priority r \<noteq> ru_Priority want then find_rule want found rs
      else if found \<or> kp_table r \<noteq> ru_Table want \<or> kp_action r \<noteq> ru_Type want \<or> kp_extra r \<noteq> []
              \<or> \<not> sameDestination (kp_dst r) (ru_Dst want)
      then Inl (Errorf (''priority '' @ FormatInt (ru_Priority want) @ '' has unexpected or duplicate policy rule: table='' @
                  FormatInt (kp_table r) @ '' action='' @ dec (kp_action r) @ '' destination='' @ net_text (kp_dst r) @
                  '' extra=['' @ join '' '' (kp_extra r) @ '']; want table='' @ FormatInt (ru_Table want) @ '' action='' @
                  dec (ru_Type want) @ '' destination='' @ net_text (ru_Dst want)))
      else find_rule want True rs)"

definition ensureRule :: "'s Handle \<Rightarrow> Rule \<Rightarrow> ('s, unit) eff" where
  "ensureRule h want =
     eff_bind (eff_read (listKernelPolicyRules h)) (\<lambda>rules.
     eff_bind (eff_res (find_rule want False rules)) (\<lambda>found.
     if found then eff_return ()
     else eff_wrap (''add priority '' @ FormatInt (ru_Priority want) @ '' policy rule'') (RuleAdd h want)))"

definition local_rule :: "ipnet \<Rightarrow> Rule" where
  "local_rule destination =
     \<lparr>ru_Priority = localPriority, ru_Table = mainRouteTable, ru_Type = RTN_UNICAST, ru_Dst = Some destination\<rparr>"

definition drop_rule :: Rule where
  "drop_rule = \<lparr>ru_Priority = dropPriority, ru_Table = mainRouteTable, ru_Type = RTN_BLACKHOLE, ru_Dst = None\<rparr>"

definition ensurePolicyRules :: "'s Handle \<Rightarrow> prefix \<Rightarrow> ('s, unit) eff" where
  "ensurePolicyRules h cidr =
     (case net_ParseCIDR (prefix_string cidr) of
        None \<Rightarrow> eff_res (Inl (Wrapf (''parse VPC policy CIDR '' @ prefix_string cidr) (Errorf (''invalid CIDR address: '' @ prefix_string cidr))))
      | Some destination \<Rightarrow>
          eff_bind (eff_wrap ''local VPC rule'' (ensureRule h (local_rule destination))) (\<lambda>_.
          eff_wrap ''unmatched blackhole rule'' (ensureRule h drop_rule)))"

section \<open>The engine\<close>

text \<open>
  The kernel as the engine sees it: the directory of namespaces, each with its own state,
  and the rest. The two system environments are those of \<open>netns.Ensure\<close> and of
  \<open>netns.WithHandle\<close>.
\<close>

type_synonym ('n, 'x) kernel = "'n ns_dir \<times> 'x"

record engine_env =
  ee_ensure :: os_env
  ee_enter :: os_env
  ee_ctx0 :: "goerr option"
  ee_ctx1 :: "goerr option"

definition ensure_router :: "engine_env \<Rightarrow> 's Handle \<Rightarrow> VPC \<Rightarrow> addr list \<Rightarrow> ('s, unit) eff" where
  "ensure_router ee h vpc gateways =
     eff_bind (eff_res (os_check (ee_ctx0 ee))) (\<lambda>_.
     eff_bind (eff_wrap (''VPC '' @ vpc_ID vpc @ '' router links'') (ensureRouterLinks h)) (\<lambda>_.
     eff_bind (setNamespaceSysctl h ''net/ipv4/ip_forward'' ''1'') (\<lambda>_.
     eff_bind (setNamespaceSysctl h ''net/ipv4/conf/default/send_redirects'' ''0'') (\<lambda>_.
     eff_bind (setNamespaceSysctl h ''net/ipv4/conf/nxr0/send_redirects'' ''0'') (\<lambda>_.
     eff_bind (eff_wrap (''VPC '' @ vpc_ID vpc @ '' gateways'') (reconcileGateways h gateways)) (\<lambda>_.
     eff_bind (eff_wrap (''VPC '' @ vpc_ID vpc @ '' policy rules'') (ensurePolicyRules h (vpc_CIDRBlock vpc))) (\<lambda>_.
     eff_res (os_check (ee_ctx1 ee)))))))))"

definition EnsureVPC ::
  "engine_env \<Rightarrow> 'n \<Rightarrow> ('n \<times> 'x) Handle \<Rightarrow> VPC \<Rightarrow> Subnet list \<Rightarrow> (('n, 'x) kernel, unit) eff" where
  "EnsureVPC ee fresh h vpc children =
     eff_bind (eff_res (Name (vpc_ShortIndex vpc))) (\<lambda>name.
     eff_bind (eff_res (desiredGateways vpc children)) (\<lambda>gateways.
     eff_bind (eff_wrap (''ensure VPC '' @ vpc_ID vpc @ '' namespace '' @ name)
                 (eff_fst (Ensure (ee_ensure ee) fresh name))) (\<lambda>_.
     WithHandle (ee_enter ee) name (ensure_router ee h vpc gateways))))"

definition DeleteVPC :: "os_env \<Rightarrow> VPC \<Rightarrow> (('n, 'x) kernel, unit) eff" where
  "DeleteVPC os vpc =
     eff_bind (eff_res (Name (vpc_ShortIndex vpc))) (\<lambda>name.
     eff_wrap (''delete VPC '' @ vpc_ID vpc @ '' namespace '' @ name) (eff_fst (Delete os name)))"

definition ListVPCNames :: "os_env \<Rightarrow> ('n, 'x) kernel \<Rightarrow> string list res" where
  "ListVPCNames os k = List os (fst k)"

end
