(* ===== verification/JsonDecoder.thy ===== *)
theory JsonDecoder
  imports Model
begin

text \<open>
  \<open>json.Decoder\<close>: one value read from the front of a stream. \<open>eof\<close> tells how the bytes at
  hand end, with the end of the input or with a failing read: a value that only its following
  byte ends is not complete before a failing read. Strict decoding
  (\<open>DisallowUnknownFields\<close>), pointers, slices and maps as targets. The pattern \<open>Decode\<close>,
  then \<open>Decode\<close> again until the end of the input, accepts exactly the texts \<open>Unmarshal\<close> reads.
\<close>

section \<open>One value\<close>

definition scalar_token :: "token \<Rightarrow> bool" where
  "scalar_token t = (case t of TStr s \<Rightarrow> True | TNum n \<Rightarrow> True | TNull \<Rightarrow> True | TTrue \<Rightarrow> True | TFalse \<Rightarrow> True | _ \<Rightarrow> False)"

function decode_from :: "bool \<Rightarrow> pstate \<Rightarrow> frame list \<Rightarrow> string \<Rightarrow> (json \<times> string) option" where
  "decode_from eof p st s =
     (case p of
        PDone v \<Rightarrow> Some (v, s)
      | _ \<Rightarrow>
          (case s of
             [] \<Rightarrow> None
           | c # cs \<Rightarrow>
               if is_ws c then decode_from eof p st cs
               else
                 (case lex_one s of
                    None \<Rightarrow> None
                  | Some (t, r) \<Rightarrow>
                      if st = [] \<and> scalar_token t \<and> r = [] \<and> \<not> eof then None
                      else (case step_json p st t of
                              None \<Rightarrow> None
                            | Some (p', st') \<Rightarrow> decode_from eof p' st' r))))"
  by pat_completeness auto
termination
  by (relation "measure (\<lambda>(eof, p, st, s). length s)") (auto dest: lex_one_length)

declare decode_from.simps [simp del]

definition decode_one :: "bool \<Rightarrow> string \<Rightarrow> (json \<times> string) option" where
  "decode_one eof s = decode_from eof PValue [] s"

lemma tokenize_ws: "tokenize s = Some [] \<longleftrightarrow> list_all is_ws s"
proof (induction s)
  case (Cons c cs)
  then show ?case by (subst tokenize.simps) (auto split: option.splits prod.splits)
qed (simp add: tokenize.simps)

lemma decode_from_all:
  "(\<exists>ts. tokenize s = Some ts \<and> run_json p st ts = Some v) \<longleftrightarrow>
   (\<exists>rest. decode_from True p st s = Some (v, rest) \<and> list_all is_ws rest)"
proof (induction True p st s rule: decode_from.induct)
  case (1 p st s)
  show ?case
  proof (cases "\<exists>w. p = PDone w")
    case True
    then obtain w where p: "p = PDone w" by blast
    have "run_json (PDone w) st ts = Some v \<longleftrightarrow> ts = [] \<and> w = v" for ts
      by (cases ts) (auto simp: run_json.simps step_json_def)
    then show ?thesis by (auto simp: p decode_from.simps [of _ "PDone w"] tokenize_ws)
  next
    case False
    then have nd: "(case p of PDone w \<Rightarrow> f w | _ \<Rightarrow> y) = y" for f and y :: "(json \<times> string) option" by (cases p) auto
    have nil: "run_json p st [] = None" using False by (cases p) auto
    show ?thesis
    proof (cases s)
      case Nil
      then show ?thesis using nil by (auto simp: decode_from.simps [of True p] nd tokenize.simps)
    next
      case (Cons c cs)
      show ?thesis
      proof (cases "is_ws c")
        case True
        have "tokenize s = tokenize cs" using Cons True by (subst tokenize.simps) simp
        moreover have "decode_from True p st s = decode_from True p st cs" 
          using Cons True by (subst decode_from.simps) (simp add: nd)
        moreover have "(\<exists>ts. tokenize cs = Some ts \<and> run_json p st ts = Some v) \<longleftrightarrow>
            (\<exists>rest. decode_from True p st cs = Some (v, rest) \<and> list_all is_ws rest)"
          using 1 False Cons True by (cases p) auto
        ultimately show ?thesis by simp
      next
        case ws: False
        show ?thesis
        proof (cases "lex_one s")
          case None
          then have "decode_from True p st s = None" using Cons ws by (subst decode_from.simps) (simp add: nd)
          moreover have "tokenize s = None" using None Cons ws by (subst tokenize.simps) simp
          ultimately show ?thesis by simp
        next
          case (Some x)
          obtain t r where x: "lex_one s = Some (t, r)" using Some by (cases x) auto
          have tok: "tokenize s = map_option (\<lambda>ts. t # ts) (tokenize r)"
            using Cons ws x by (subst tokenize.simps) simp
          have dec: "decode_from True p st s = (case step_json p st t of None \<Rightarrow> None | Some (p', st') \<Rightarrow> decode_from True p' st' r)"
            using Cons ws x by (subst decode_from.simps) (simp add: nd)
          show ?thesis
          proof (cases "step_json p st t")
            case None
            then show ?thesis unfolding tok dec by (auto simp: run_json.simps)
          next
            case (Some y)
            obtain p' st' where y: "step_json p st t = Some (p', st')" using Some by (cases y) auto
            have "(\<exists>ts. tokenize r = Some ts \<and> run_json p' st' ts = Some v) \<longleftrightarrow>
                (\<exists>rest. decode_from True p' st' r = Some (v, rest) \<and> list_all is_ws rest)"
              using 1 False Cons ws x y by (cases p) auto
            then show ?thesis unfolding tok dec using y by (auto simp: run_json.simps)
          qed
        qed
      qed
    qed
  qed
qed

lemma decode_one_unmarshal:
  "unmarshal s = Some v \<longleftrightarrow> (\<exists>rest. decode_one True s = Some (v, rest) \<and> list_all is_ws rest)"
  using decode_from_all [of s PValue "[]" v] by (auto simp: unmarshal_def decode_one_def split: option.splits)

section \<open>A stream with one value\<close>

text \<open>\<open>Decode\<close> into a target, then \<open>Decode\<close> again, which must report the end of the input.\<close>

definition decode_single :: "bool \<Rightarrow> (json \<Rightarrow> 'a option) \<Rightarrow> 'e \<Rightarrow> 'e \<Rightarrow> string \<Rightarrow> 'e + 'a" where
  "decode_single eof target bad trailing s =
     (case decode_one eof s of
        None \<Rightarrow> Inl bad
      | Some (j, rest) \<Rightarrow>
          (case target j of
             None \<Rightarrow> Inl bad
           | Some x \<Rightarrow> if eof \<and> list_all is_ws rest then Inr x else Inl trailing))"

lemma decode_single_Inr:
  "decode_single eof target bad trailing s = Inr x \<longleftrightarrow> eof \<and> (\<exists>j. unmarshal s = Some j \<and> target j = Some x)"
  by (auto simp: decode_single_def decode_one_unmarshal split: option.splits prod.splits)

lemma decode_single_Inl: "decode_single eof target bad trailing s = Inl e \<Longrightarrow> e = bad \<or> e = trailing"
  by (auto simp: decode_single_def split: option.splits prod.splits if_splits)

section \<open>Targets\<close>

text \<open>A struct with \<open>DisallowUnknownFields\<close>.\<close>

fun set_known :: "'a fields \<Rightarrow> (string \<times> json) list \<Rightarrow> 'a \<Rightarrow> 'a option" where
  "set_known fs [] x = Some x"
| "set_known fs (kv # kvs) x =
     (if \<exists>f \<in> set fs. fold_key (fst f) = fold_key (fst kv)
      then (case set_member fs kv x of None \<Rightarrow> None | Some y \<Rightarrow> set_known fs kvs y)
      else None)"

definition set_strict :: "'a fields \<Rightarrow> json \<Rightarrow> 'a \<Rightarrow> 'a option" where
  "set_strict fs j x = (case j of JNull \<Rightarrow> Some x | JObj kvs \<Rightarrow> set_known fs kvs x | _ \<Rightarrow> None)"

lemma set_known_members: "set_known fs kvs x = Some y \<Longrightarrow> set_members fs kvs x = Some y"
  by (induction kvs arbitrary: x) (auto split: option.splits if_splits)

lemma set_known_field:
  assumes "distinct (map fold_key (map fst fs))" and "(k, g) \<in> set fs"
  shows "set_known fs ((k, j) # kvs) x = (case g j x of None \<Rightarrow> None | Some y \<Rightarrow> set_known fs kvs y)"
proof -
  have "\<exists>f \<in> set fs. fold_key (fst f) = fold_key (fst (k, j))" using assms(2) by force
  then show ?thesis using set_member_field [OF assms] by simp
qed

text \<open>A field keeps a property that all setters keep.\<close>

lemma set_members_keep:
  assumes "\<And>k g j x y. (k, g) \<in> set fs \<Longrightarrow> P x \<Longrightarrow> g j x = Some y \<Longrightarrow> P y"
  shows "P x \<Longrightarrow> set_members fs kvs x = Some y \<Longrightarrow> P y"
proof (induction kvs arbitrary: x)
  case (Cons kv kvs)
  obtain z where z: "set_member fs kv x = Some z" "set_members fs kvs z = Some y" using Cons.prems(2) by (auto split: option.splits)
  have "P z"
  proof (cases "find (\<lambda>f. fold_key (fst f) = fold_key (fst kv)) fs")
    case None
    then show ?thesis using z(1) Cons.prems(1) by (simp add: set_member_def)
  next
    case (Some f)
    then have "f \<in> set fs" by (auto simp: find_Some_iff)
    then show ?thesis using Some z(1) Cons.prems(1) assms [of "fst f" "snd f"] by (simp add: set_member_def)
  qed
  then show ?case using Cons.IH z(2) by blast
qed simp

lemma ParseInt_int64: "ParseInt s = Some i \<Longrightarrow> int64 i"
  by (auto simp: ParseInt_def int64_def Let_def split: list.splits if_splits)

text \<open>A pointer to a scalar: null makes it nil, any other value is allocated.\<close>

definition set_ptr :: "(json \<Rightarrow> 'b option) \<Rightarrow> ('b option \<Rightarrow> 'a \<Rightarrow> 'a) \<Rightarrow> json \<Rightarrow> 'a \<Rightarrow> 'a option" where
  "set_ptr read f j x = (if j = JNull then Some (f None x) else map_option (\<lambda>b. f (Some b) x) (read j))"

definition read_bool :: "json \<Rightarrow> bool option" where
  "read_bool j = (case j of JBool b \<Rightarrow> Some b | _ \<Rightarrow> None)"

definition read_int :: "json \<Rightarrow> int option" where
  "read_int j = (case j of JNum l \<Rightarrow> ParseInt l | _ \<Rightarrow> None)"

definition read_uint :: "nat \<Rightarrow> json \<Rightarrow> nat option" where
  "read_uint w j = (case j of JNum l \<Rightarrow> ParseUint w l | _ \<Rightarrow> None)"

text \<open>
  A slice: its elements and what its array still holds behind them. An array decodes element
  by element into what is there, so that null leaves an element as an earlier member of the
  same name had set it.
\<close>

definition set_slice :: "'b \<Rightarrow> (json \<Rightarrow> 'b \<Rightarrow> 'b option) \<Rightarrow> json \<Rightarrow> 'b list \<times> 'b list \<Rightarrow> ('b list \<times> 'b list) option" where
  "set_slice zero elem j s =
     (case j of
        JNull \<Rightarrow> Some ([], [])
      | JArr [] \<Rightarrow> Some ([], [])
      | JArr js \<Rightarrow>
          (let old = fst s @ snd s in
           map_option (\<lambda>xs. (xs, drop (length js) old))
             (those (map (\<lambda>(j, x). elem j x) (zip js (old @ replicate (length js) zero)))))
      | _ \<Rightarrow> None)"

definition set_elem_str :: "json \<Rightarrow> string \<Rightarrow> string option" where
  "set_elem_str = set_str (\<lambda>s x. s)"

lemma set_slice_strs:
  "set_slice [] set_elem_str (JArr (map JStr ss)) ([], []) = Some (ss, [])"
proof (cases ss)
  case (Cons s ss')
  have "those (map (\<lambda>(j, x). set_elem_str j x) (zip (map JStr ss) (replicate (length ss) []))) = Some ss"
    by (induction ss) (auto simp: set_elem_str_def)
  then show ?thesis using Cons by (simp add: set_slice_def cong: option.case_cong)
qed (simp add: set_slice_def)

text \<open>A map of strings: the members are put into the map that is there; null makes it nil.\<close>

fun map_members :: "(string \<times> json) list \<Rightarrow> (string \<times> string) list \<Rightarrow> (string \<times> string) list option" where
  "map_members [] m = Some m"
| "map_members ((k, j) # kvs) m =
     (case set_str (\<lambda>s x. s) j [] of None \<Rightarrow> None | Some v \<Rightarrow> map_members kvs ((k, v) # filter (\<lambda>kv. fst kv \<noteq> k) m))"

definition set_map :: "json \<Rightarrow> (string \<times> string) list \<Rightarrow> (string \<times> string) list option" where
  "set_map j m = (case j of JNull \<Rightarrow> Some [] | JObj kvs \<Rightarrow> map_members kvs m | _ \<Rightarrow> None)"

text \<open>The value of a key that is not in a map is the empty string.\<close>

definition map_get :: "string \<Rightarrow> (string \<times> string) list \<Rightarrow> string" where
  "map_get k m = (case map_of m k of None \<Rightarrow> [] | Some v \<Rightarrow> v)"

end
