(* ===== verification/EniPolicy.thy ===== *)
theory EniPolicy
  imports Topology Hwaddr JsonDecoder
begin

text \<open>
  \<open>internal/network/topology\<close>: \<open>eni_policy_linux.go\<close> and \<open>eni_linux.go\<close>, the links between
  a router and the instances of its VPC and the source checks on them.
\<close>

section \<open>eni\_policy\_linux.go\<close>

definition eniPolicyComment :: string where
  "eniPolicyComment = ''nephos:m1''"

record eniIdentity =
  ei_ID :: string
  ei_IP :: addr
  ei_MAC :: string
  ei_Namespace :: nat

definition eniLinkName :: "int \<Rightarrow> string res" where
  "eniLinkName index =
     (if index < 1 \<or> index > 9999999999999
      then Inl (Errorf (''ENI index '' @ FormatInt index @ '' exceeds the kernel name budget''))
      else Inr (''ve'' @ FormatInt index))"

definition canonicalENILink :: "string \<Rightarrow> bool" where
  "canonicalENILink name =
     (case CutPrefix name ''ve'' of
        None \<Rightarrow> False
      | Some digits \<Rightarrow>
          (case ParseInt digits of
             None \<Rightarrow> False
           | Some index \<Rightarrow> (case eniLinkName index of Inl _ \<Rightarrow> False | Inr canonical \<Rightarrow> canonical = name)))"

definition eniAlias :: "ENI \<Rightarrow> nat \<Rightarrow> string" where
  "eniAlias eni inode =
     ''nephos:eni:'' @ eni_ID eni @ '' '' @ addr_string (eni_PrivateIP eni) @ '' '' @ eni_MACAddress eni @ '' '' @ dec inode"

definition parseENIAlias :: "string \<Rightarrow> eniIdentity res" where
  "parseENIAlias al =
     (case Fields al of
        [f0, f1, f2, f3] \<Rightarrow>
          (case CutPrefix f0 ''nephos:eni:'' of
             None \<Rightarrow> Inl (Errorf ''invalid ENI ownership ID'')
           | Some i \<Rightarrow>
               if length i \<noteq> 21 \<or> \<not> HasPrefix i ''eni-'' then Inl (Errorf ''invalid ENI ownership ID'')
               else if \<not> list_all (\<lambda>r. (48 \<le> r \<and> r \<le> 57) \<or> (97 \<le> r \<and> r \<le> 102)) (runes (drop 4 i))
               then Inl (Errorf ''invalid ENI ownership ID'')
               else
                 (case ParseAddr f1 of
                    None \<Rightarrow> Inl (Wrapf ''decode ENI marker IP'' (Errorf ''ParseAddr''))
                  | Some ip \<Rightarrow>
                      if \<not> Is4 ip then Inl (Errorf ''ENI marker IP is not IPv4'')
                      else
                        (case ParseMAC f2 of
                           None \<Rightarrow> Inl (Wrapf ''decode ENI marker MAC'' (Errorf ''invalid MAC address''))
                         | Some mac \<Rightarrow>
                             if length mac \<noteq> 6 \<or> hd mac mod 4 \<noteq> 2 then Inl (Errorf ''invalid ENI marker MAC'')
                             else
                               (case ParseUint 64 f3 of
                                  None \<Rightarrow> Inl (Wrapf ''decode ENI namespace inode'' (Errorf ''ParseUint''))
                                | Some inode \<Rightarrow>
                                    if inode = 0 then Inl (Errorf ''invalid ENI namespace inode'')
                                    else Inr \<lparr>ei_ID = i, ei_IP = ip, ei_MAC = mac_string mac, ei_Namespace = inode\<rparr>))))
      | _ \<Rightarrow> Inl (Errorf (''foreign ENI ownership marker '' @ Quote al)))"

text \<open>The map of records is an association list, in the order in which the map is ranged over.\<close>

definition eni_element :: "(string \<times> eniIdentity) list \<Rightarrow> string \<Rightarrow> string" where
  "eni_element records name =
     Quote name @ '' . '' @ (case map_of records name of None \<Rightarrow> addr_string (IP0 0) | Some r \<Rightarrow> addr_string (ei_IP r))"

definition newline :: string where
  "newline = [CHR 0x0A]"

definition quoted :: "string \<Rightarrow> string" where
  "quoted s = [CHR 0x22] @ s @ [CHR 0x22]"

definition renderENISourceChecks :: "(string \<times> eniIdentity) list \<Rightarrow> bool \<Rightarrow> string res" where
  "renderENISourceChecks records exists =
     (case find (\<lambda>(name, record). \<not> canonicalENILink name \<or> \<not> Is4 (ei_IP record)) records of
        Some (name, _) \<Rightarrow> Inl (Errorf (''invalid source-check interface or address '' @ Quote name))
      | None \<Rightarrow>
          (let names = sort (map fst records) in
           Inr ((if exists then ''delete table inet nephos'' @ newline else []) @
                ''table inet nephos {'' @ newline @ '' comment '' @ quoted eniPolicyComment @ newline @
                '' set eni_sources {'' @ newline @ '' type ifname . ipv4_addr'' @ newline @
                (if names \<noteq> [] then '' elements = { '' @ join '', '' (map (eni_element records) names) @ '' }'' @ newline else []) @
                '' }'' @ newline @ '' chain source_check {'' @ newline @
                '' type filter hook prerouting priority -300; policy accept;'' @ newline @
                '' iifname . ip saddr @eni_sources return'' @ newline @
                '' iifname '' @ quoted ''ve*'' @ '' counter drop comment '' @ quoted ''nephos:anti-spoof'' @ newline @
                '' }'' @ newline @ ''}'' @ newline)))"

text \<open>\<open>json.Unmarshal\<close> of what \<open>nft -j list ruleset\<close> prints: the tables it lists.\<close>

record nft_table =
  tb_Family :: string
  tb_Name :: string
  tb_Comment :: string

definition table_fields :: "nft_table fields" where
  "table_fields = [(''Family'', set_str (\<lambda>s t. t\<lparr>tb_Family := s\<rparr>)), (''Name'', set_str (\<lambda>s t. t\<lparr>tb_Name := s\<rparr>)),
     (''Comment'', set_str (\<lambda>s t. t\<lparr>tb_Comment := s\<rparr>))]"

definition entry_fields :: "nft_table option fields" where
  "entry_fields = [(''Table'', (\<lambda>j t. if j = JNull then Some None
     else map_option Some (set_struct table_fields j (case t of Some x \<Rightarrow> x | None \<Rightarrow> \<lparr>tb_Family = [], tb_Name = [], tb_Comment = []\<rparr>))))]"

definition ruleset_fields :: "(nft_table option list \<times> nft_table option list) fields" where
  "ruleset_fields = [(''Nftables'', set_slice None (set_struct entry_fields))]"

definition ruleset_unmarshal :: "string \<Rightarrow> nft_table option list option" where
  "ruleset_unmarshal s = map_option fst (Option.bind (unmarshal s) (\<lambda>j. set_struct ruleset_fields j ([], [])))"

fun owned_table :: "bool \<Rightarrow> nft_table option list \<Rightarrow> bool res" where
  "owned_table exists [] = Inr exists"
| "owned_table exists (None # es) = owned_table exists es"
| "owned_table exists (Some t # es) =
     (if tb_Family t = ''inet'' \<and> tb_Name t = ''nephos''
      then (if tb_Comment t \<noteq> eniPolicyComment then Inl (Errorf ''refusing foreign nftables table inet nephos'')
            else owned_table True es)
      else owned_table exists es)"

definition record_put :: "'k \<Rightarrow> 'v \<Rightarrow> ('k \<times> 'v) list \<Rightarrow> ('k \<times> 'v) list" where
  "record_put k v kvs = filter (\<lambda>kv. fst kv \<noteq> k) kvs @ [(k, v)]"

fun eni_records :: "(string \<times> eniIdentity) list \<Rightarrow> Link list \<Rightarrow> (string \<times> eniIdentity) list res" where
  "eni_records records [] = Inr records"
| "eni_records records (l # ls) =
     (if \<not> HasPrefix (lk_Name l) ''ve'' then eni_records records ls
      else if \<not> canonicalENILink (lk_Name l) \<or> lk_Type l \<noteq> ''veth''
      then Inl (Errorf (''refusing foreign ENI link '' @ Quote (lk_Name l)))
      else res_bind (parseENIAlias (lk_Alias l)) (\<lambda>record. eni_records (record_put (lk_Name l) record records) ls))"

definition applyENISourceChecks :: "'s Handle \<Rightarrow> ('s, unit) eff" where
  "applyENISourceChecks h =
     eff_bind (eff_wrap ''list router ENIs'' (eff_read (LinkList h))) (\<lambda>links.
     eff_bind (eff_res (eni_records [] links)) (\<lambda>records.
     eff_bind (eff_wrap ''inspect VPC nftables'' (eff_read (nft_list h))) (\<lambda>output.
     eff_bind (eff_res (case ruleset_unmarshal output of
                          None \<Rightarrow> Inl (Wrapf ''decode VPC nftables'' (Errorf ''json''))
                        | Some entries \<Rightarrow> owned_table False entries)) (\<lambda>exists.
     eff_bind (eff_res (renderENISourceChecks records exists)) (\<lambda>script.
     eff_wrap ''apply ENI source checks'' (nft_apply h script))))))"

section \<open>eni\_linux.go\<close>

text \<open>\<open>net.IP.Equal\<close>: an IPv4 address equals its form of 16 bytes.\<close>

definition ip_Equal :: "nat list \<Rightarrow> nat list \<Rightarrow> bool" where
  "ip_Equal a b =
     (if length a = length b then a = b
      else (length a = 4 \<and> length b = 16 \<or> length a = 16 \<and> length b = 4) \<and> To4 a = To4 b \<and> To4 a \<noteq> None)"

text \<open>The map of sysctls is ranged over in any order.\<close>

definition eni_sysctls :: "(string \<times> string) list" where
  "eni_sysctls = [(''proxy_arp'', ''1''), (''send_redirects'', ''0''), (''rp_filter'', ''0'')]"

definition setENISysctls :: "(string \<times> string) list \<Rightarrow> 's Handle \<Rightarrow> string \<Rightarrow> ('s, unit) eff" where
  "setENISysctls order h name =
     (if \<not> canonicalENILink name then eff_res (Inl (Errorf (''invalid ENI sysctl target '' @ Quote name)))
      else eff_iter (\<lambda>(key, v). eff_wrap (''set router ENI '' @ name @ '' '' @ key)
             (WriteFile h (''/proc/sys/net/ipv4/conf/'' @ name @ ''/'' @ key) v)) order)"

text \<open>
  The environment of one call: cancellation, the entries into the two namespaces, the
  order of the sysctls and \<open>netlink.ParseAddr\<close>. The handle of an instance's namespace is
  bound to its inode.
\<close>

record eni_env =
  ev_ctx :: "goerr option"
  ev_Dup :: "unit res"
  ev_os :: os_env
  ev_ctx0 :: "goerr option"
  ev_enter :: "nat \<Rightarrow> enter_env"
  ev_order :: "(string \<times> string) list"
  ev_ParseAddr :: "string \<Rightarrow> Address res"

definition panic :: goerr where
  "panic = ErrSentinel ''runtime error: invalid memory address or nil pointer dereference''"

text \<open>The loop over the router's addresses; an address without a network has no \<open>IP\<close> to read.\<close>

fun gateway_ready :: "addr \<Rightarrow> bool \<Rightarrow> Address list \<Rightarrow> bool res" where
  "gateway_ready gateway ready [] = Inr ready"
| "gateway_ready gateway ready (a # as) =
     (case ad_IPNet a of
        None \<Rightarrow> Inl panic
      | Some n \<Rightarrow>
          gateway_ready gateway (ready \<or> (ip_Equal (n_IP n) (addr_bytes gateway) \<and> ad_Label a = gatewayLabel)) as)"

definition peer_name :: "ENI \<Rightarrow> string" where
  "peer_name eni = ''vp'' @ FormatInt (eni_ShortIndex eni)"

text \<open>The three functions that run in the instance's namespace.\<close>

definition no_eth0 :: "'s Handle \<Rightarrow> ('s, unit) eff" where
  "no_eth0 p =
     eff_bind (eff_try (eff_read (LinkByName p ''eth0''))) (\<lambda>got.
     case got of
       Inr _ \<Rightarrow> eff_res (Inl (Errorf ''refusing pre-existing foreign eth0''))
     | Inl e \<Rightarrow> if as_link_missing e then eff_return () else eff_res (Inl e))"

definition configure_peer ::
  "eni_env \<Rightarrow> Subnet \<Rightarrow> ENI \<Rightarrow> string \<Rightarrow> bool \<Rightarrow> Link \<Rightarrow> 's Handle \<Rightarrow> ('s, unit) eff" where
  "configure_peer ev subnet eni al created router p =
     eff_bind (eff_try (eff_read (LinkByName p ''eth0''))) (\<lambda>got.
     eff_bind (case got of
                 Inl e \<Rightarrow> if as_link_missing e then eff_try (eff_read (LinkByName p (peer_name eni))) else eff_return (Inl e)
               | Inr l \<Rightarrow> eff_return (Inr l)) (\<lambda>got.
     eff_bind (eff_wrap ''find instance ENI'' (eff_res got)) (\<lambda>peer.
     eff_bind (eff_guard (lk_Type peer = ''veth'' \<and> lk_ParentIndex peer = lk_Index router \<and> lk_ParentIndex router = lk_Index peer)
                 (Errorf ''refusing unrelated instance link'')) (\<lambda>_.
     eff_bind (eff_guard (lk_Alias peer = al \<or> (created \<and> lk_Alias peer = []))
                 (Errorf ''refusing foreign instance ENI'')) (\<lambda>_.
     eff_bind (LinkSetDown p peer) (\<lambda>_.
     eff_bind (eff_wrap ''mark instance ENI'' (LinkSetAlias p peer al)) (\<lambda>_.
     eff_bind (if lk_Name peer \<noteq> ''eth0''
               then eff_bind (eff_wrap ''rename instance ENI'' (LinkSetName p peer ''eth0'')) (\<lambda>_.
                    eff_read (LinkByName p ''eth0''))
               else eff_return peer) (\<lambda>peer.
     eff_bind (eff_res (case ParseMAC (eni_MACAddress eni) of None \<Rightarrow> Inl (Errorf ''invalid MAC address'') | Some mac \<Rightarrow> Inr mac)) (\<lambda>mac.
     eff_bind (eff_wrap ''set instance MAC'' (LinkSetHardwareAddr p peer mac)) (\<lambda>_.
     eff_bind (eff_res (ev_ParseAddr ev (addr_string (eni_PrivateIP eni) @ ''/'' @ FormatInt (Bits (sub_CIDRBlock subnet))))) (\<lambda>address.
     eff_bind (eff_wrap ''set instance address'' (AddrReplace p peer address)) (\<lambda>_.
     eff_bind (eff_read (LinkByName p ''lo'')) (\<lambda>lo.
     LinkSetUp p lo)))))))))))))"

definition host_route :: "addr \<Rightarrow> ipnet res" where
  "host_route a = (case net_ParseCIDR (addr_string a @ ''/32'') of
     None \<Rightarrow> Inl (Errorf (''invalid CIDR address: '' @ addr_string a @ ''/32'')) | Some n \<Rightarrow> Inr n)"

definition SCOPE_LINK :: nat where "SCOPE_LINK = 253"

definition activate_peer :: "addr \<Rightarrow> 's Handle \<Rightarrow> ('s, unit) eff" where
  "activate_peer gateway p =
     eff_bind (eff_read (LinkByName p ''eth0'')) (\<lambda>peer.
     eff_bind (LinkSetUp p peer) (\<lambda>_.
     eff_bind (eff_res (host_route gateway)) (\<lambda>n.
     eff_bind (eff_wrap ''set on-link gateway route''
                 (RouteReplace p \<lparr>ro_LinkIndex = lk_Index peer, ro_Dst = Some n, ro_Gw = [], ro_Scope = SCOPE_LINK, ro_Table = 0\<rparr>)) (\<lambda>_.
     eff_wrap ''set instance default route''
       (RouteReplace p \<lparr>ro_LinkIndex = lk_Index peer, ro_Dst = None, ro_Gw = addr_bytes gateway, ro_Scope = 0, ro_Table = 0\<rparr>)))))"

text \<open>
  The router's link of the pair. A new link is marked and looked up again; the deferred
  function deletes whatever the variable \<open>router\<close> holds when the call fails, which is nil
  after a failed second look; a method call on a nil interface value panics.
\<close>

definition deferred_delete :: "'s Handle \<Rightarrow> bool \<Rightarrow> Link option \<Rightarrow> ('s, 'a) eff \<Rightarrow> ('s, 'a) eff" where
  "deferred_delete h created router m s =
     (case m s of
        (Inr x, s') \<Rightarrow> (Inr x, s')
      | (Inl e, s') \<Rightarrow>
          if \<not> created then (Inl e, s')
          else (case router of None \<Rightarrow> (Inl panic, s') | Some l \<Rightarrow> (Inl e, snd (LinkDel h l s'))))"

definition find_pair :: "'s Handle \<Rightarrow> string \<Rightarrow> string \<Rightarrow> ('s, Link option) eff" where
  "find_pair h name al =
     eff_bind (eff_try (eff_read (LinkByName h name))) (\<lambda>got.
     case got of
       Inl e \<Rightarrow>
         if as_link_missing e then eff_return None
         else eff_res (Inl (Wrapf (''find router ENI '' @ name) e))
     | Inr router \<Rightarrow>
         if lk_Type router \<noteq> ''veth'' \<or> lk_Alias router \<noteq> al
         then eff_res (Inl (Errorf (''refusing foreign or mismatched router link '' @ name)))
         else eff_return (Some router))"

definition connect_pair ::
  "eni_env \<Rightarrow> 's Handle \<Rightarrow> (nat \<Rightarrow> 's Handle) \<Rightarrow> Subnet \<Rightarrow> ENI \<Rightarrow> InstanceTarget option \<Rightarrow> nat \<Rightarrow>
     string \<Rightarrow> string \<Rightarrow> addr \<Rightarrow> bool \<Rightarrow> Link \<Rightarrow> ('s, unit) eff" where
  "connect_pair ev h peer subnet eni target fd name al gateway created router =
     eff_bind (eff_wrap (''quiesce ENI '' @ name) (LinkSetDown h router)) (\<lambda>_.
     eff_bind (setENISysctls (ev_order ev) h name) (\<lambda>_.
     eff_bind (eff_wrap ''verify ENI peer namespace'' (eff_read (GetNetNsIdByFd h fd))) (\<lambda>nsID.
     eff_bind (eff_guard (nsID \<ge> 0 \<and> lk_NetNsID router = nsID)
                 (Errorf (''ENI '' @ name @ '' peer is not in pinned instance namespace''))) (\<lambda>_.
     eff_bind (WithInstanceHandle (ev_enter ev 1) target (\<lambda>i. configure_peer ev subnet eni al created router (peer i))) (\<lambda>_.
     eff_bind (applyENISourceChecks h) (\<lambda>_.
     eff_bind (WithInstanceHandle (ev_enter ev 2) target (\<lambda>i. activate_peer gateway (peer i))) (\<lambda>_.
     eff_bind (eff_wrap (''activate ENI '' @ name) (LinkSetUp h router)) (\<lambda>_.
     eff_bind (eff_res (host_route (eni_PrivateIP eni))) (\<lambda>n.
     eff_wrap ''set ENI host route''
       (RouteReplace h \<lparr>ro_LinkIndex = lk_Index router, ro_Dst = Some n, ro_Gw = [], ro_Scope = SCOPE_LINK,
                        ro_Table = mainRouteTable\<rparr>))))))))))"

definition create_pair ::
  "eni_env \<Rightarrow> 's Handle \<Rightarrow> (nat \<Rightarrow> 's Handle) \<Rightarrow> ENI \<Rightarrow> InstanceTarget option \<Rightarrow> nat \<Rightarrow> string \<Rightarrow> string \<Rightarrow> ('s, Link) eff" where
  "create_pair ev h peer eni target fd name al =
     eff_bind (WithInstanceHandle (ev_enter ev 0) target (\<lambda>i. no_eth0 (peer i))) (\<lambda>_.
     eff_bind (eff_wrap (''create ENI pair '' @ name) (LinkAdd h (Veth name al (peer_name eni) fd))) (\<lambda>_.
     eff_wrap (''find created ENI '' @ name) (eff_read (LinkByName h name))))"

text \<open>The marking of a new link: on an error before the second look the old value is deleted.\<close>

definition mark_pair :: "'s Handle \<Rightarrow> string \<Rightarrow> string \<Rightarrow> Link \<Rightarrow> ('s, Link) eff" where
  "mark_pair h name al router =
     eff_bind (deferred_delete h True (Some router)
                 (eff_wrap (''mark router ENI '' @ name) (LinkSetAlias h router al))) (\<lambda>_.
     eff_bind (deferred_delete h True None (eff_read (LinkByName h name))) (\<lambda>router.
     eff_bind (deferred_delete h True (Some router)
                 (eff_guard (lk_Alias router = al) (Errorf (''router ENI '' @ name @ '' ownership marker did not persist'')))) (\<lambda>_.
     eff_return router)))"

definition ensure_pair ::
  "eni_env \<Rightarrow> 's Handle \<Rightarrow> (nat \<Rightarrow> 's Handle) \<Rightarrow> Subnet \<Rightarrow> ENI \<Rightarrow> InstanceTarget option \<Rightarrow> nat \<Rightarrow>
     string \<Rightarrow> string \<Rightarrow> ('s, unit) eff" where
  "ensure_pair ev h peer subnet eni target fd name al =
     eff_bind (eff_res (os_check (ev_ctx0 ev))) (\<lambda>_.
     let gateway = Next (Addr (sub_CIDRBlock subnet)) in
     eff_bind (eff_wrap ''find converged router'' (eff_read (LinkByName h routerLinkName))) (\<lambda>dummy.
     eff_bind (eff_read (AddrList h dummy)) (\<lambda>addresses.
     eff_bind (eff_res (gateway_ready gateway False addresses)) (\<lambda>ready.
     eff_bind (eff_guard ready (Errorf (''subnet '' @ sub_ID subnet @ '' gateway is not ready''))) (\<lambda>_.
     eff_bind (find_pair h name al) (\<lambda>found.
     case found of
       Some router \<Rightarrow> connect_pair ev h peer subnet eni target fd name al gateway False router
     | None \<Rightarrow>
         eff_bind (create_pair ev h peer eni target fd name al) (\<lambda>router.
         eff_bind (mark_pair h name al router) (\<lambda>router.
         deferred_delete h True (Some router)
           (connect_pair ev h peer subnet eni target fd name al gateway True router)))))))))"

definition EnsureENI ::
  "eni_env \<Rightarrow> ('n \<times> 'x) Handle \<Rightarrow> (nat \<Rightarrow> ('n \<times> 'x) Handle) \<Rightarrow> VPC \<Rightarrow> Subnet \<Rightarrow> ENI \<Rightarrow> InstanceTarget option \<Rightarrow>
     (('n, 'x) kernel, unit) eff" where
  "EnsureENI ev h peer vpc subnet eni target =
     (let cidr = sub_CIDRBlock subnet; first = Next (Next (Next (Next (Addr cidr)))) in
      eff_bind (eff_guard (target \<noteq> None \<and> target_Inode target \<noteq> 0) (Errorf ''missing verified instance namespace'')) (\<lambda>_.
      eff_bind (eff_res (desiredGateways vpc [subnet])) (\<lambda>_.
      eff_bind (eff_guard (eni_SubnetID eni = sub_ID subnet \<and> eni_WorkspaceID eni = sub_WorkspaceID subnet \<and>
                           sub_WorkspaceID subnet = vpc_WorkspaceID vpc \<and> Contains cidr (eni_PrivateIP eni))
                  (Errorf (''ENI '' @ eni_ID eni @ '' does not belong to subnet '' @ sub_ID subnet @ '' in VPC '' @ vpc_ID vpc))) (\<lambda>_.
      eff_bind (eff_guard (\<not> addr_less (eni_PrivateIP eni) first \<and> Contains cidr (Next (eni_PrivateIP eni)))
                  (Errorf (''ENI '' @ eni_ID eni @ '' uses a reserved subnet address''))) (\<lambda>_.
      eff_bind (eff_res (eniLinkName (eni_ShortIndex eni))) (\<lambda>name.
      eff_bind (eff_res (Name (vpc_ShortIndex vpc))) (\<lambda>namespace.
      let al = eniAlias eni (target_Inode target) in
      eff_bind (eff_res (parseENIAlias al)) (\<lambda>_.
      WithFD (ev_ctx ev) (ev_Dup ev) target (\<lambda>fd.
        WithHandle (ev_os ev) namespace (ensure_pair ev h peer subnet eni target fd name al))))))))))"

definition remove_pair :: "'s Handle \<Rightarrow> ENI \<Rightarrow> string \<Rightarrow> ('s, unit) eff" where
  "remove_pair h eni name =
     eff_bind (eff_try (eff_read (LinkByName h name))) (\<lambda>got.
     eff_bind (case got of
         Inl e \<Rightarrow> if as_link_missing e then eff_return () else eff_res (Inl e)
       | Inr link \<Rightarrow>
           eff_bind (eff_res (parseENIAlias (lk_Alias link))) (\<lambda>record.
           eff_bind (eff_guard (lk_Type link = ''veth'' \<and> ei_ID record = eni_ID eni \<and> ei_IP record = eni_PrivateIP eni \<and>
                                ei_MAC record = eni_MACAddress eni)
                       (Errorf (''refusing foreign router ENI '' @ name))) (\<lambda>_.
           eff_wrap (''delete ENI '' @ name) (LinkDel h link)))) (\<lambda>_.
     applyENISourceChecks h))"

definition DeleteENI :: "os_env \<Rightarrow> ('n \<times> 'x) Handle \<Rightarrow> VPC \<Rightarrow> ENI \<Rightarrow> (('n, 'x) kernel, unit) eff" where
  "DeleteENI os h vpc eni =
     eff_bind (eff_res (eniLinkName (eni_ShortIndex eni))) (\<lambda>name.
     eff_bind (eff_res (Name (vpc_ShortIndex vpc))) (\<lambda>namespace.
     eff_bind (eff_try (WithHandle os namespace (remove_pair h eni name))) (\<lambda>r.
     case r of
       Inl e \<Rightarrow> if err_is ErrNotExist e then eff_return () else eff_res (Inl e)
     | Inr _ \<Rightarrow> eff_return ())))"

end
