(* ===== verification/TopologyFacts.thy ===== *)
theory TopologyFacts
  imports Topology
begin

text \<open>
  What the VPC engine decides and what it leaves behind: the gateways it wants, the
  addresses of the router after it ran, the policy rules, and which files it touches.
\<close>

section \<open>Wanted gateways\<close>

lemma Contains_Addr: "prefix4 q \<Longrightarrow> Contains q (Addr q)"
  by (simp add: Contains_div) (simp add: prefix4_def)

lemma blocks_meet_base:
  assumes "prefix4 p" and "prefix4 q" and "Bits p \<le> Bits q"
  shows "(\<exists>x. Contains p x \<and> Contains q x) \<longleftrightarrow> Contains p (Addr q)"
proof
  assume "\<exists>x. Contains p x \<and> Contains q x"
  then have "pbase p < pbase q + psize q" "pbase q < pbase p + psize p" using blocks_meet [OF assms(1,2)] by simp_all
  then have "pbase p \<le> pbase q \<and> pbase q + psize q \<le> pbase p + psize p" by (rule block_nested [OF assms])
  then show "Contains p (Addr q)" using Contains_Addr [OF assms(2)] assms by (simp add: Contains_interval)
next
  assume "Contains p (Addr q)"
  then show "\<exists>x. Contains p x \<and> Contains q x" using Contains_Addr [OF assms(2)] by blast
qed

lemma prefix_Overlaps_comm: "prefix_Overlaps p q \<longleftrightarrow> prefix_Overlaps q p"
  by (auto simp: prefix_Overlaps_def Let_def min.commute)

lemma prefix_Overlaps_le:
  assumes "prefix4 p" and "prefix4 q" and "Bits p \<le> Bits q"
  shows "prefix_Overlaps p q \<longleftrightarrow> Contains p (Addr q)"
proof (cases "p = q")
  case True
  then show ?thesis using assms by (simp add: prefix_Overlaps_def Contains_Addr)
next
  case False
  obtain v b where p: "p = Prefix (IP4 v) b" "0 \<le> b" "b \<le> 32" using assms(1) by (rule prefix4_cases)
  obtain w c where q: "q = Prefix (IP4 w) c" "0 \<le> c" "c \<le> 32" using assms(2) by (rule prefix4_cases)
  let ?n = "2 ^ (32 - nat b) :: nat"
  have "Addr (Masked (Prefix (IP4 v) b)) = Addr (Masked (Prefix (IP4 w) b)) \<longleftrightarrow> unat v div ?n * ?n = unat w div ?n * ?n"
    using p by (simp add: Masked_IP4 word_unat_eq_iff unat_and_not_mask)
  also have "\<dots> \<longleftrightarrow> unat w div ?n = unat v div ?n" by auto
  also have "\<dots> \<longleftrightarrow> Contains p (Addr q)" using Contains_div [OF assms(1)] p q by (simp add: psize_def)
  finally have "Addr (Masked (Prefix (IP4 v) b)) = Addr (Masked (Prefix (IP4 w) b)) \<longleftrightarrow> Contains p (Addr q)" .
  moreover have "b = 0 \<Longrightarrow> Contains p (Addr q)"
    using Contains_div [OF assms(1)] p q ip4_less [of "IP4 v"] ip4_less [of "IP4 w"] by (simp add: psize_def)
  ultimately show ?thesis
    using False p q assms(3) by (auto simp: prefix_Overlaps_def Let_def IsValid_def min_def)
qed

lemma prefix_Overlaps_iff:
  assumes "prefix4 p" and "prefix4 q"
  shows "prefix_Overlaps p q \<longleftrightarrow> Overlaps p q"
proof (cases "Bits p \<le> Bits q")
  case True
  then show ?thesis
    using assms by (simp add: prefix_Overlaps_le Overlaps_iff blocks_meet_base)
next
  case False
  then show ?thesis
    using assms blocks_meet_base [OF assms(2,1)]
    by (simp add: prefix_Overlaps_comm [of p] prefix_Overlaps_le Overlaps_iff) blast
qed

text \<open>A subnet the engine accepts in a VPC.\<close>

definition child_ok :: "VPC \<Rightarrow> Subnet \<Rightarrow> bool" where
  "child_ok vpc s \<longleftrightarrow>
     sub_VPCID s = vpc_ID vpc \<and> cidr_ok (sub_CIDRBlock s) \<and>
     ValidateSubnetRange (vpc_CIDRBlock vpc) (sub_CIDRBlock s) = Inr ()"

lemma child_ok_iff:
  assumes "cidr_ok (vpc_CIDRBlock vpc)"
  shows "child_ok vpc s \<longleftrightarrow>
    \<not> (sub_VPCID s \<noteq> vpc_ID vpc \<or> \<not> IsValid (sub_CIDRBlock s) \<or> \<not> Is4 (Addr (sub_CIDRBlock s)) \<or>
       Masked (sub_CIDRBlock s) \<noteq> sub_CIDRBlock s \<or> Bits (sub_CIDRBlock s) < Bits (vpc_CIDRBlock vpc) \<or>
       Bits (sub_CIDRBlock s) > 28 \<or> \<not> Contains (vpc_CIDRBlock vpc) (Addr (sub_CIDRBlock s)))"
  using assms
  by (auto simp: child_ok_def cidr_ok_def prefix4_def IsValid_def ValidateSubnetRange_def split: if_splits)

lemma gateway_list_Inr:
  assumes "cidr_ok (vpc_CIDRBlock vpc)" and "list_all cidr_ok seen"
  shows "gateway_list vpc seen ss = Inr gs \<longleftrightarrow>
    list_all (child_ok vpc) ss \<and> (\<forall>s \<in> set ss. \<forall>p \<in> set seen. \<not> Overlaps (sub_CIDRBlock s) p) \<and>
    sorted_wrt (\<lambda>s t. \<not> Overlaps (sub_CIDRBlock t) (sub_CIDRBlock s)) ss \<and>
    gs = map (\<lambda>s. Gateway (sub_CIDRBlock s)) ss"
  using assms(2)
proof (induction ss arbitrary: seen gs)
  case Nil
  then show ?case by auto
next
  case (Cons s ss)
  show ?case
  proof (cases "child_ok vpc s")
    case False
    then have "\<exists>e. gateway_list vpc seen (s # ss) = Inl e"
      using child_ok_iff [OF assms(1), of s] by (simp add: Let_def)
    then show ?thesis using False by auto
  next
    case True
    then have c: "cidr_ok (sub_CIDRBlock s)" by (simp add: child_ok_def)
    then have g: "Gateway (sub_CIDRBlock s) = Next (Addr (sub_CIDRBlock s))"
      by (simp add: Gateway_def cidr_ok_def prefix4_def IsValid_def)
    have o: "prefix_Overlaps (sub_CIDRBlock s) p \<longleftrightarrow> Overlaps (sub_CIDRBlock s) p" if "p \<in> set seen" for p
      using prefix_Overlaps_iff [of "sub_CIDRBlock s" p] c Cons.prems that by (auto simp: list_all_iff)
    have step: "gateway_list vpc seen (s # ss) =
        (case find (\<lambda>prior. prefix_Overlaps (sub_CIDRBlock s) prior) seen of
           Some prior \<Rightarrow> Inl (Errorf (''subnet '' @ sub_ID s @ '' overlaps '' @ prefix_string prior @ '' in VPC '' @ vpc_ID vpc))
         | None \<Rightarrow> res_bind (gateway_list vpc (seen @ [sub_CIDRBlock s]) ss) (\<lambda>rest. Inr (Next (Addr (sub_CIDRBlock s)) # rest)))"
      using True child_ok_iff [OF assms(1), of s] by (simp add: Let_def)
    show ?thesis
    proof (cases "find (\<lambda>prior. prefix_Overlaps (sub_CIDRBlock s) prior) seen")
      case (Some p)
      then have "p \<in> set seen" "Overlaps (sub_CIDRBlock s) p" using find_Some_in [OF Some] o by auto
      then show ?thesis using step Some by auto
    next
      case None
      then have "\<forall>p \<in> set seen. \<not> Overlaps (sub_CIDRBlock s) p" using o by (auto simp: find_None_all)
      moreover have "gateway_list vpc seen (s # ss) = Inr gs \<longleftrightarrow>
          (\<exists>rest. gateway_list vpc (seen @ [sub_CIDRBlock s]) ss = Inr rest \<and> gs = Gateway (sub_CIDRBlock s) # rest)"
        using step None g by (auto simp: res_bind_Inr)
      moreover have "list_all cidr_ok (seen @ [sub_CIDRBlock s])" using Cons.prems c by simp
      ultimately show ?thesis using Cons.IH [of "seen @ [sub_CIDRBlock s]"] True by auto
    qed
  qed
qed

lemma desiredGateways_Inr:
  "desiredGateways vpc ss = Inr gs \<longleftrightarrow>
    cidr_ok (vpc_CIDRBlock vpc) \<and> list_all (child_ok vpc) ss \<and>
    sorted_wrt (\<lambda>s t. \<not> Overlaps (sub_CIDRBlock t) (sub_CIDRBlock s)) ss \<and>
    gs = sort_key ip4 (map (\<lambda>s. Gateway (sub_CIDRBlock s)) ss)"
proof (cases "cidr_ok (vpc_CIDRBlock vpc)")
  case False
  then have "\<exists>e. desiredGateways vpc ss = Inl e"
    by (auto simp: desiredGateways_def Let_def cidr_ok_def prefix4_def IsValid_def)
  then show ?thesis using False by auto
next
  case True
  then have "desiredGateways vpc ss = res_bind (gateway_list vpc [] ss) (\<lambda>gateways. Inr (sort_key ip4 gateways))"
    by (auto simp: desiredGateways_def Let_def cidr_ok_def prefix4_def IsValid_def)
  then show ?thesis using gateway_list_Inr [OF True, of "[]" ss] True by (auto simp: res_bind_Inr)
qed


section \<open>Addresses of the router\<close>

text \<open>
  What is relied on of the kernel: deleting an address removes it and no other address of a
  single host (the kernel removes secondaries of the same, wider network with it); adding
  one adds it.
\<close>

definition host_mask :: "Address \<Rightarrow> bool" where
  "host_mask a \<longleftrightarrow> (case ad_IPNet a of Some n \<Rightarrow> mask_Size (n_Mask n) = (32, 32) | None \<Rightarrow> False)"

definition addr_laws :: "'s Handle \<Rightarrow> bool" where
  "addr_laws h \<longleftrightarrow>
     (\<forall>link a s s' xs. AddrList h link s = Inr xs \<longrightarrow>
        (AddrDel h link a s = (Inr (), s') \<longrightarrow>
           (\<exists>ys. AddrList h link s' = Inr ys \<and> set ys \<subseteq> set xs - {a} \<and>
              (\<forall>b \<in> set xs. b \<noteq> a \<and> host_mask b \<longrightarrow> b \<in> set ys))) \<and>
        (AddrAdd h link a s = (Inr (), s') \<longrightarrow>
           (\<exists>ys. AddrList h link s' = Inr ys \<and> set ys = insert a (set xs))))"

definition address_key :: "Address \<Rightarrow> string option" where
  "address_key a =
     (case ad_IPNet a of
        None \<Rightarrow> None
      | Some n \<Rightarrow> map_option (\<lambda>x. addr_string (Unmap x)) (AddrFromSlice (n_IP n)))"

text \<open>An address of the router that serves a gateway.\<close>

definition serves :: "string \<Rightarrow> Address \<Rightarrow> bool" where
  "serves key a \<longleftrightarrow> address_key a = Some key \<and> host_mask a \<and> ad_Label a = gatewayLabel"

lemma gateway_sweep_ok:
  assumes "addr_laws h" and "AddrList h link s = Inr ys"
    and "gateway_sweep h link wanted found as s = (Inr found', s')"
  shows "\<exists>ys'. AddrList h link s' = Inr ys' \<and> set ys' \<subseteq> set ys \<and>
    (\<forall>b \<in> set ys. \<forall>k \<in> set wanted. serves k b \<longrightarrow> b \<in> set ys') \<and>
    (\<forall>a \<in> set as. a \<in> set ys' \<longrightarrow> ad_IPNet a = None \<or> (\<exists>k \<in> set wanted. serves k a)) \<and>
    (\<forall>k. k \<in> set found' \<longleftrightarrow> k \<in> set found \<or> (k \<in> set wanted \<and> (\<exists>a \<in> set as. serves k a)))"
  using assms(2,3)
proof (induction as arbitrary: s ys found)
  case Nil
  then show ?case by auto
next
  case (Cons a as)
  show ?case
  proof (cases "ad_IPNet a")
    case None
    then have "gateway_sweep h link wanted found as s = (Inr found', s')" using Cons.prems(2) by simp
    from Cons.IH [OF Cons.prems(1) this] show ?thesis using None by (auto simp: serves_def address_key_def)
  next
    case (Some n)
    obtain x where x: "AddrFromSlice (n_IP n) = Some x"
      using Some Cons.prems(2) by (cases "AddrFromSlice (n_IP n)") auto
    let ?k = "addr_string (Unmap x)"
    have key: "address_key a = Some ?k" using Some x by (simp add: address_key_def)
    have label: "ad_Label a = gatewayLabel"
      using Cons.prems(2) Some x by (auto simp: Let_def split: if_splits)
    show ?thesis
    proof (cases "?k \<in> set wanted")
      case True
      then have m: "mask_Size (n_Mask n) = (32, 32)"
        and run: "gateway_sweep h link wanted (?k # found) as s = (Inr found', s')"
        using Cons.prems(2) Some x label by (auto simp: Let_def split: if_splits)
      have sv: "serves ?k a" using key label m Some by (simp add: serves_def host_mask_def)
      have uniq: "serves k a \<longleftrightarrow> k = ?k" for k using key sv by (auto simp: serves_def)
      obtain ys' where ys': "AddrList h link s' = Inr ys'" "set ys' \<subseteq> set ys"
          "\<forall>b \<in> set ys. \<forall>k \<in> set wanted. serves k b \<longrightarrow> b \<in> set ys'"
          "\<forall>a \<in> set as. a \<in> set ys' \<longrightarrow> ad_IPNet a = None \<or> (\<exists>k \<in> set wanted. serves k a)"
          "\<forall>k. k \<in> set found' \<longleftrightarrow> k \<in> set (?k # found) \<or> (k \<in> set wanted \<and> (\<exists>a \<in> set as. serves k a))"
        using Cons.IH [OF Cons.prems(1) run] by blast
      have "k \<in> set found' \<longleftrightarrow> k \<in> set found \<or> (k \<in> set wanted \<and> (\<exists>x \<in> set (a # as). serves k x))" for k
        using ys'(5) True uniq by (cases "k = ?k") simp_all
      moreover have "\<forall>x \<in> set (a # as). x \<in> set ys' \<longrightarrow> ad_IPNet x = None \<or> (\<exists>k \<in> set wanted. serves k x)"
        using ys'(4) True sv by auto
      ultimately show ?thesis using ys'(1-3) by blast
    next
      case False
      then obtain s1 where del: "AddrDel h link a s = (Inr (), s1)"
        and run: "gateway_sweep h link wanted found as s1 = (Inr found', s')"
        using Cons.prems(2) Some x label by (auto simp: Let_def eff_bind_Inr)
      obtain zs where zs: "AddrList h link s1 = Inr zs" "set zs \<subseteq> set ys - {a}"
          "\<forall>b \<in> set ys. b \<noteq> a \<and> host_mask b \<longrightarrow> b \<in> set zs"
        using assms(1) Cons.prems(1) del unfolding addr_laws_def by blast
      have no: "\<not> serves k a" if "k \<in> set wanted" for k using key False that by (auto simp: serves_def)
      have stay: "b \<in> set zs" if "b \<in> set ys" "k \<in> set wanted" "serves k b" for b k
        using zs(3) that no [OF that(2)] by (metis serves_def)
      obtain ys' where ys': "AddrList h link s' = Inr ys'" "set ys' \<subseteq> set zs"
          "\<forall>b \<in> set zs. \<forall>k \<in> set wanted. serves k b \<longrightarrow> b \<in> set ys'"
          "\<forall>a \<in> set as. a \<in> set ys' \<longrightarrow> ad_IPNet a = None \<or> (\<exists>k \<in> set wanted. serves k a)"
          "\<forall>k. k \<in> set found' \<longleftrightarrow> k \<in> set found \<or> (k \<in> set wanted \<and> (\<exists>a \<in> set as. serves k a))"
        using Cons.IH [OF zs(1) run] by blast
      have "k \<in> set found' \<longleftrightarrow> k \<in> set found \<or> (k \<in> set wanted \<and> (\<exists>x \<in> set (a # as). serves k x))" for k
        using ys'(5) no [of k] by auto
      moreover have "set ys' \<subseteq> set ys" "a \<notin> set ys'" using ys'(2) zs(2) by blast+
      moreover have "\<forall>b \<in> set ys. \<forall>k \<in> set wanted. serves k b \<longrightarrow> b \<in> set ys'" using stay ys'(3) by blast
      moreover have "\<forall>x \<in> set (a # as). x \<in> set ys' \<longrightarrow> ad_IPNet x = None \<or> (\<exists>k \<in> set wanted. serves k x)"
        using ys'(4) \<open>a \<notin> set ys'\<close> by simp
      ultimately show ?thesis using ys'(1) by blast
    qed
  qed
qed

lemma gateway_adds_ok:
  assumes "addr_laws h" and "AddrList h link s = Inr ys"
    and "eff_iter (\<lambda>a. if addr_string a \<in> set found then eff_return ()
          else eff_wrap (''add gateway '' @ addr_string a) (AddrAdd h link (gateway_address a))) gs s = (Inr (), s')"
  shows "\<exists>ys'. AddrList h link s' = Inr ys' \<and>
    set ys' = set ys \<union> gateway_address ` {g \<in> set gs. addr_string g \<notin> set found}"
  using assms(2,3)
proof (induction gs arbitrary: s ys)
  case Nil
  then show ?case by auto
next
  case (Cons g gs)
  show ?case
  proof (cases "addr_string g \<in> set found")
    case True
    then have "eff_iter (\<lambda>a. if addr_string a \<in> set found then eff_return ()
          else eff_wrap (''add gateway '' @ addr_string a) (AddrAdd h link (gateway_address a))) gs s = (Inr (), s')"
      using Cons.prems(2) by (simp add: eff_bind_Inr)
    from Cons.IH [OF Cons.prems(1) this] show ?thesis using True by auto
  next
    case False
    then obtain s1 where add: "AddrAdd h link (gateway_address g) s = (Inr (), s1)"
      and run: "eff_iter (\<lambda>a. if addr_string a \<in> set found then eff_return ()
          else eff_wrap (''add gateway '' @ addr_string a) (AddrAdd h link (gateway_address a))) gs s1 = (Inr (), s')"
      using Cons.prems(2) by (auto simp: eff_bind_Inr)
    obtain zs where zs: "AddrList h link s1 = Inr zs" "set zs = insert (gateway_address g) (set ys)"
      using assms(1) Cons.prems(1) add unfolding addr_laws_def by blast
    from Cons.IH [OF zs(1) run] show ?thesis using zs(2) False by auto
  qed
qed

lemma octets_word_octets: "octets_word (octets w) = w"
proof -
  let ?n = "unat w"
  have b: "unat (ucast v :: 8 word) = unat v mod 256" for v :: "32 word"
    by (simp add: unsigned_ucast_eq take_bit_eq_mod)
  have small: "?n div 2 ^ 24 < 256" using ip4_less [of "IP4 w"] by (simp add: less_mult_imp_div_less)
  have d: "?n div 2 ^ 16 = ?n div 2 ^ 8 div 256" "?n div 2 ^ 24 = ?n div 2 ^ 16 div 256"
    by (simp_all flip: div_mult2_eq)
  have "?n div 2 ^ 24 * 256 + ?n div 2 ^ 16 mod 256 = ?n div 2 ^ 16"
    "?n div 2 ^ 16 * 256 + ?n div 2 ^ 8 mod 256 = ?n div 2 ^ 8" "?n div 2 ^ 8 * 256 + ?n mod 256 = ?n"
    unfolding d by (simp_all add: div_mult_mod_eq del: power_numeral) simp
  then have "((?n div 2 ^ 24 * 256 + ?n div 2 ^ 16 mod 256) * 256 + ?n div 2 ^ 8 mod 256) * 256 + ?n mod 256 = ?n"
    by (simp only:)
  then have "foldl (\<lambda>a b. a * 256 + b) 0 (octets w) = ?n" using small by (simp add: octets_def b unat_drop)
  then show ?thesis by (simp only: octets_word_def of_nat_unat ucast_id)
qed

lemma serves_gateway_address: "Is4 g \<Longrightarrow> serves (addr_string g) (gateway_address g)"
proof -
  assume "Is4 g"
  then obtain w where g: "g = IP4 w" by (rule Is4_cases)
  have "mask_Size (CIDRMask 32 32) = (32, 32)" by code_simp
  moreover have "length (octets w) = 4" by (simp add: octets_def)
  ultimately show ?thesis using g octets_word_octets [of w]
    by (simp add: serves_def address_key_def gateway_address_def host_mask_def AddrFromSlice_def)
qed

text \<open>After a success the router has the wanted gateways and no other address.\<close>

lemma reconcileGateways_ok:
  assumes "addr_laws h" and "list_all Is4 gs" and "reconcileGateways h gs s = (Inr (), s')"
  shows "\<exists>link ys. LinkByName h routerLinkName s = Inr link \<and> AddrList h link s' = Inr ys \<and>
    (\<forall>a \<in> set ys. ad_IPNet a = None \<or> (\<exists>g \<in> set gs. serves (addr_string g) a)) \<and>
    (\<forall>g \<in> set gs. \<exists>a \<in> set ys. serves (addr_string g) a)"
proof -
  obtain link xs found s1 where link: "LinkByName h routerLinkName s = Inr link" "AddrList h link s = Inr xs"
    and sweep: "gateway_sweep h link (map addr_string gs) [] xs s = (Inr found, s1)"
    and add: "eff_iter (\<lambda>a. if addr_string a \<in> set found then eff_return ()
          else eff_wrap (''add gateway '' @ addr_string a) (AddrAdd h link (gateway_address a))) gs s1 = (Inr (), s')"
    using assms(3) by (auto simp: reconcileGateways_def eff_bind_Inr)
  obtain ys where ys: "AddrList h link s1 = Inr ys" "set ys \<subseteq> set xs"
      "\<forall>b \<in> set xs. \<forall>k \<in> addr_string ` set gs. serves k b \<longrightarrow> b \<in> set ys"
      "\<forall>a \<in> set xs. a \<in> set ys \<longrightarrow> ad_IPNet a = None \<or> (\<exists>k \<in> addr_string ` set gs. serves k a)"
      "\<forall>k. k \<in> set found \<longleftrightarrow> k \<in> addr_string ` set gs \<and> (\<exists>a \<in> set xs. serves k a)"
    using gateway_sweep_ok [OF assms(1) link(2) sweep] by auto
  obtain zs where zs: "AddrList h link s' = Inr zs"
      "set zs = set ys \<union> gateway_address ` {g \<in> set gs. addr_string g \<notin> set found}"
    using gateway_adds_ok [OF assms(1) ys(1) add] by blast
  have served: "serves (addr_string g) (gateway_address g)" if "g \<in> set gs" for g
    using assms(2) that by (simp add: list_all_iff serves_gateway_address)
  have "ad_IPNet a = None \<or> (\<exists>g \<in> set gs. serves (addr_string g) a)" if "a \<in> set zs" for a
    using that zs(2) ys(2,4) served by (auto; blast)
  moreover have "\<exists>a \<in> set zs. serves (addr_string g) a" if g: "g \<in> set gs" for g
  proof (cases "addr_string g \<in> set found")
    case True
    then obtain b where "b \<in> set xs" "serves (addr_string g) b" using ys(5) by blast
    then show ?thesis using ys(3) zs(2) g by blast
  next
    case False
    then show ?thesis using zs(2) served [OF g] g by blast
  qed
  ultimately show ?thesis using link(1) zs(1) by blast
qed


section \<open>Policy rules\<close>

definition matches :: "Rule \<Rightarrow> kernelPolicyRule \<Rightarrow> bool" where
  "matches want r \<longleftrightarrow>
     kp_priority r = ru_Priority want \<and> kp_table r = ru_Table want \<and> kp_action r = ru_Type want \<and>
     kp_extra r = [] \<and> sameDestination (kp_dst r) (ru_Dst want)"

abbreviation rules_at :: "int \<Rightarrow> kernelPolicyRule list \<Rightarrow> kernelPolicyRule list" where
  "rules_at p rs \<equiv> filter (\<lambda>r. kp_priority r = p) rs"

lemma find_rule_found: "find_rule want True rs = Inr b \<longleftrightarrow> rules_at (ru_Priority want) rs = [] \<and> b"
  by (induction rs) auto

lemma find_rule_Inr:
  "find_rule want False rs = Inr b \<longleftrightarrow>
   (if b then \<exists>r. rules_at (ru_Priority want) rs = [r] \<and> matches want r else rules_at (ru_Priority want) rs = [])"
proof (induction rs)
  case (Cons r rs)
  show ?case
  proof (cases "kp_priority r = ru_Priority want")
    case True
    then show ?thesis by (auto simp: find_rule_found matches_def)
  next
    case False
    then show ?thesis using Cons by simp
  qed
qed auto

text \<open>What is relied on of the kernel: a rule that was added is listed, once, as it was asked for.\<close>

definition rule_laws :: "'s Handle \<Rightarrow> bool" where
  "rule_laws h \<longleftrightarrow>
     (\<forall>want s s' rs. listKernelPolicyRules h s = Inr rs \<longrightarrow> RuleAdd h want s = (Inr (), s') \<longrightarrow>
        (\<exists>rs' r. listKernelPolicyRules h s' = Inr rs' \<and> matches want r \<and>
           rules_at (ru_Priority want) rs' = rules_at (ru_Priority want) rs @ [r] \<and>
           (\<forall>p. p \<noteq> ru_Priority want \<longrightarrow> rules_at p rs' = rules_at p rs)))"

lemma ensureRule_ok:
  assumes "rule_laws h" and "ensureRule h want s = (Inr (), s')"
  shows "\<exists>rs rs' r. listKernelPolicyRules h s = Inr rs \<and> listKernelPolicyRules h s' = Inr rs' \<and>
    rules_at (ru_Priority want) rs' = [r] \<and> matches want r \<and>
    (\<forall>p. p \<noteq> ru_Priority want \<longrightarrow> rules_at p rs' = rules_at p rs)"
proof -
  obtain rs b where rs: "listKernelPolicyRules h s = Inr rs" and b: "find_rule want False rs = Inr b"
    and run: "(if b then eff_return () else eff_wrap (''add priority '' @ FormatInt (ru_Priority want) @ '' policy rule'') (RuleAdd h want)) s = (Inr (), s')"
    using assms(2) by (auto simp: ensureRule_def eff_bind_Inr)
  show ?thesis
  proof (cases b)
    case True
    then show ?thesis using rs b run by (auto simp: find_rule_Inr)
  next
    case False
    then have "RuleAdd h want s = (Inr (), s')" "rules_at (ru_Priority want) rs = []" using b run by (auto simp: find_rule_Inr)
    then show ?thesis using assms(1) rs unfolding rule_laws_def by fastforce
  qed
qed

text \<open>The text of a CIDR block gives the destination of the rule, and reads the same again.\<close>

lemma octets_string: "ip_string (octets w) = ip4_string w"
proof -
  have "length (octets w) = 4" by (simp add: octets_def)
  then show ?thesis by (simp add: ip_string_def AddrFromSlice_def octets_word_octets)
qed

lemma mask_of_length:
  assumes "16 \<le> b" and "b \<le> (28 :: nat)"
  shows "simpleMaskLength (CIDRMask b 32) = Some b \<and> length (CIDRMask b 32) = 4"
proof -
  have "\<forall>b \<in> set [16..<29]. simpleMaskLength (CIDRMask b 32) = Some b \<and> length (CIDRMask b 32) = 4"
    by code_simp
  moreover have "b \<in> set [16..<29]" unfolding set_upt using assms by simp
  ultimately show ?thesis by blast
qed


lemma and_mask_byte:
  fixes v :: "8 word"
  assumes "n \<le> 8" and "2 ^ n dvd unat v"
  shows "unat (of_nat (unat v) AND (of_nat (256 - 2 ^ n) :: 8 word)) = unat v"
proof -
  have "\<forall>n \<in> set [0..<9]. (of_nat (256 - 2 ^ n) :: 8 word) = NOT (mask n)" by code_simp
  moreover have "n \<in> set [0..<9]" unfolding set_upt using assms(1) by simp
  ultimately have "(of_nat (256 - 2 ^ n) :: 8 word) = NOT (mask n)" by blast
  then have "unat (of_nat (unat v) AND (of_nat (256 - 2 ^ n) :: 8 word)) = unat v div 2 ^ n * 2 ^ n"
    using unat_and_not_mask [of v n] by simp
  then show ?thesis using assms(2) by simp
qed

lemma octets_nat:
  "octets w = [unat w div 2 ^ 24 mod 256, unat w div 2 ^ 16 mod 256, unat w div 2 ^ 8 mod 256, unat w mod 256]"
  by (simp add: octets_def unsigned_ucast_eq take_bit_eq_mod unat_drop)

lemma and_mask_octets:
  assumes "16 \<le> b" and "b \<le> 28" and "2 ^ (32 - b) dvd unat w"
  shows "and_mask (octets w) (CIDRMask b 32) = octets w"
proof -
  let ?n = "\<lambda>i. 8 - min 8 (b - 8 * i) :: nat"
  have m: "CIDRMask b 32 = map (\<lambda>i. 256 - 2 ^ ?n i) [0, 1, 2, 3]"
    using assms(2) by (simp add: CIDRMask_def upt_rec)
  have n: "?n 0 = 0" "?n 1 = 0" using assms(1) by simp_all
  have b: "unat (ucast v :: 8 word) = unat v mod 256" for v :: "32 word"
    by (simp add: unsigned_ucast_eq take_bit_eq_mod)
  have low: "2 ^ ?n 3 dvd unat w mod 256"
  proof -
    have "(2::nat) ^ ?n 3 dvd 2 ^ (32 - b)" using assms(2) by (intro le_imp_power_dvd) auto
    moreover have "(2::nat) ^ ?n 3 dvd 2 ^ 8" by (intro le_imp_power_dvd) simp
    ultimately show ?thesis using assms(3) by (simp add: dvd_mod dvd_trans)
  qed
  have mid: "2 ^ ?n 2 dvd unat w div 2 ^ 8 mod 256"
  proof (cases "b < 24")
    case False
    then show ?thesis by simp
  next
    case True
    then have "32 - b = 8 + ?n 2" using assms(1) by simp
    then have "(2::nat) ^ (32 - b) = 2 ^ 8 * 2 ^ ?n 2" by (simp only: power_add)
    then have "2 ^ ?n 2 dvd unat w div 2 ^ 8" using assms(3) by (auto simp: mult.assoc elim!: dvdE)
    moreover have "(2::nat) ^ ?n 2 dvd 2 ^ 8" by (intro le_imp_power_dvd) simp
    ultimately show ?thesis by (simp add: dvd_mod)
  qed
  have "and_mask (octets w) (CIDRMask b 32) =
      [unat (of_nat (unat (ucast (drop_bit 24 w) :: 8 word)) AND (of_nat (256 - 2 ^ ?n 0) :: 8 word)),
       unat (of_nat (unat (ucast (drop_bit 16 w) :: 8 word)) AND (of_nat (256 - 2 ^ ?n 1) :: 8 word)),
       unat (of_nat (unat (ucast (drop_bit 8 w) :: 8 word)) AND (of_nat (256 - 2 ^ ?n 2) :: 8 word)),
       unat (of_nat (unat (ucast w :: 8 word)) AND (of_nat (256 - 2 ^ ?n 3) :: 8 word))]"
    unfolding m and_mask_def octets_def by simp
  also have "\<dots> = octets w"
    unfolding octets_def using low mid n
    by (subst (1 2 3 4) and_mask_byte) (simp_all add: b unat_drop)
  finally show ?thesis .
qed

lemma takeWhile_to: "c \<notin> set s \<Longrightarrow> takeWhile (\<lambda>x. x \<noteq> c) (s @ c # r) = s"
  by (induction s) auto

lemma net_ParseCIDR_string:
  assumes "cidr_ok p"
  obtains n where "net_ParseCIDR (prefix_string p) = Some n" and "ipnet_string n = prefix_string p"
proof -
  obtain w b where p: "p = Prefix (IP4 w) b" "16 \<le> b" "b \<le> 28"
    using assms by (auto simp: cidr_ok_def elim: prefix4_cases)
  have base: "unat w = pbase p" using cidr_ok_base [OF assms] p by simp
  have b: "16 \<le> nat b" "nat b \<le> 28" using p by auto
  have str: "prefix_string p = ip4_string w @ CHR ''/'' # dec (nat b)"
    using p by (simp add: prefix_string_def IsValid_def FormatInt_def)
  have noslash: "CHR ''/'' \<notin> set (ip4_string w)"
    using slash_not_digit [OF dec_digits] by (simp add: ip4_string_def)
  have "2 ^ (32 - nat b) dvd unat w" using pbase_dvd [of p] base p by (simp add: psize_def)
  then have m: "and_mask (octets w) (CIDRMask (nat b) 32) = octets w" by (rule and_mask_octets [OF b])
  have parse: "ParseAddr (ip4_string w) = Some (IP4 w)" using ParseAddr_string [of "IP4 w"] by simp
  let ?n = "\<lparr>n_IP = octets w, n_Mask = CIDRMask (nat b) 32\<rparr>"
  have l: "length (octets w) = 4" by (simp add: octets_def)
  have "net_ParseCIDR (prefix_string p) = Some ?n"
    using p parse m unfolding str
    by (simp add: net_ParseCIDR_def Let_def takeWhile_to [OF noslash])
  moreover have "ipnet_string ?n = prefix_string p"
    using mask_of_length [OF b] l unfolding str by (simp add: ipnet_string_def To4_def octets_string)
  ultimately show ?thesis by (rule that)
qed

text \<open>
  After a success exactly one rule stands at each of the two priorities: the lookup in the
  main table for the VPC's own block, and the blackhole for everything else.
\<close>

lemma ensurePolicyRules_ok:
  assumes "rule_laws h" and "cidr_ok cidr" and "ensurePolicyRules h cidr s = (Inr (), s')"
  shows "\<exists>rs local blackhole dst. listKernelPolicyRules h s' = Inr rs \<and>
    rules_at localPriority rs = [local] \<and> kp_table local = mainRouteTable \<and> kp_action local = RTN_UNICAST \<and>
    kp_dst local = Some dst \<and> ipnet_string dst = prefix_string cidr \<and> kp_extra local = [] \<and>
    rules_at dropPriority rs = [blackhole] \<and> kp_action blackhole = RTN_BLACKHOLE \<and> kp_dst blackhole = None \<and>
    kp_extra blackhole = []"
proof -
  obtain n where n: "net_ParseCIDR (prefix_string cidr) = Some n" "ipnet_string n = prefix_string cidr"
    by (rule net_ParseCIDR_string [OF assms(2)])
  obtain s1 where run: "ensureRule h (local_rule n) s = (Inr (), s1)" "ensureRule h drop_rule s1 = (Inr (), s')"
    using assms(3) n(1) by (auto simp: ensurePolicyRules_def eff_bind_Inr)
  obtain rs1 local where r1: "listKernelPolicyRules h s1 = Inr rs1" "rules_at localPriority rs1 = [local]"
      "matches (local_rule n) local"
    using ensureRule_ok [OF assms(1) run(1)] by (auto simp: local_rule_def)
  obtain rs blackhole where r2: "listKernelPolicyRules h s' = Inr rs" "rules_at dropPriority rs = [blackhole]"
      "matches drop_rule blackhole" "\<forall>p. p \<noteq> dropPriority \<longrightarrow> rules_at p rs = rules_at p rs1"
    using ensureRule_ok [OF assms(1) run(2)] r1(1) by (auto simp: drop_rule_def)
  have "rules_at localPriority rs = [local]" using r2(4) r1(2) by (simp add: localPriority_def dropPriority_def)
  moreover obtain dst where "kp_dst local = Some dst" "ipnet_string dst = prefix_string cidr"
    using r1(3) n(2) by (auto simp: matches_def local_rule_def sameDestination_def split: option.splits)
  ultimately show ?thesis using r1(3) r2(1-3)
    by (auto simp: matches_def local_rule_def drop_rule_def sameDestination_def split: option.splits)
qed

section \<open>Which namespaces are touched\<close>

lemma setNamespaceSysctl_refuses:
  "key \<notin> {''net/ipv4/ip_forward'', ''net/ipv4/conf/default/send_redirects'', ''net/ipv4/conf/nxr0/send_redirects''} \<Longrightarrow>
   \<exists>e. setNamespaceSysctl h key v s = (Inl e, s)"
  by (auto simp: setNamespaceSysctl_def)

lemma Do_frame:
  assumes "Do os name fn (d, x) = (r, (d', x'))"
  shows "m \<noteq> name \<Longrightarrow> nd_lookup m d' = nd_lookup m d" and "nd_exists d' = nd_exists d"
    and "nd_lookup name d' = None \<longleftrightarrow> nd_lookup name d = None"
    and "r = Inr () \<Longrightarrow> \<exists>n n'. nd_lookup name d = Some (NamespaceEntry n) \<and> fn (n, x) = (Inr (), (n', x')) \<and>
      nd_lookup name d' = Some (NamespaceEntry n')"
  using assms
  by (auto simp: Do_def res_bind_Inr split: sum.splits prod.splits option.splits ns_entry.splits)

lemma WithHandle_frame:
  assumes "WithHandle os name fn (d, x) = (r, (d', x'))"
  shows "m \<noteq> name \<Longrightarrow> nd_lookup m d' = nd_lookup m d" and "nd_exists d' = nd_exists d"
    and "nd_lookup name d' = None \<longleftrightarrow> nd_lookup name d = None"
    and "r = Inr () \<Longrightarrow> \<exists>n n'. nd_lookup name d = Some (NamespaceEntry n) \<and> fn (n, x) = (Inr (), (n', x')) \<and>
      nd_lookup name d' = Some (NamespaceEntry n')"
  using Do_frame [OF assms [unfolded WithHandle_def]] by (auto simp: eff_bind_Inr)

lemma EnsureVPC_cases:
  assumes "EnsureVPC ee fresh h vpc children (d, x) = (r, (d', x'))"
  obtains (refused) e where "r = Inl e" and "d' = d" and "x' = x"
  | (ran) name gs r1 d1 where "Name (vpc_ShortIndex vpc) = Inr name" "desiredGateways vpc children = Inr gs"
      "Ensure (ee_ensure ee) fresh name d = (r1, d1)"
      "(\<exists>e. r1 = Inl e \<and> (\<exists>e'. r = Inl e') \<and> d' = d1 \<and> x' = x) \<or>
       (r1 = Inr () \<and> WithHandle (ee_enter ee) name (ensure_router ee h vpc gs) (d1, x) = (r, (d', x')))"
proof (cases "Name (vpc_ShortIndex vpc)")
  case (Inl e)
  then show ?thesis using assms refused [of e] by (simp add: EnsureVPC_def)
next
  case name: (Inr name)
  show ?thesis
  proof (cases "desiredGateways vpc children")
    case (Inl e)
    then show ?thesis using assms refused [of e] name by (simp add: EnsureVPC_def)
  next
    case (Inr gs)
    obtain r1 d1 where e: "Ensure (ee_ensure ee) fresh name d = (r1, d1)" by (metis surj_pair)
    show ?thesis
      by (rule ran [OF name Inr e])
        (use assms name Inr e in \<open>cases r1; auto simp: EnsureVPC_def eff_bind_def eff_wrap_def eff_fst_def\<close>)
  qed
qed

lemma EnsureVPC_frame:
  assumes "EnsureVPC ee fresh h vpc children (d, x) = (r, (d', x'))" and "Name (vpc_ShortIndex vpc) \<noteq> Inr m"
  shows "nd_lookup m d' = nd_lookup m d"
  using assms(1)
proof (cases rule: EnsureVPC_cases)
  case (ran name gs r1 d1)
  have m: "m \<noteq> name" using ran(1) assms(2) by auto
  have "nd_lookup m d1 = nd_lookup m d" by (rule Ensure_frame(1) [OF ran(3) m])
  then show ?thesis using ran(4) WithHandle_frame(1) [OF _ m, of "ee_enter ee" "ensure_router ee h vpc gs" d1 x r d' x'] by auto
qed simp

lemma EnsureVPC_ok:
  assumes "EnsureVPC ee fresh h vpc children (d, x) = (Inr (), (d', x'))"
  shows "\<exists>name gs n n'. Name (vpc_ShortIndex vpc) = Inr name \<and> desiredGateways vpc children = Inr gs \<and>
    (case nd_lookup name d of None \<Rightarrow> n = fresh | Some e \<Rightarrow> e = NamespaceEntry n) \<and>
    ensure_router ee h vpc gs (n, x) = (Inr (), (n', x')) \<and> nd_lookup name d' = Some (NamespaceEntry n') \<and> nd_exists d'"
  using assms
proof (cases rule: EnsureVPC_cases)
  case (ran name gs r1 d1)
  then have e: "Ensure (ee_ensure ee) fresh name d = (Inr (), d1)"
    and h: "WithHandle (ee_enter ee) name (ensure_router ee h vpc gs) (d1, x) = (Inr (), (d', x'))" by auto
  obtain n n' where n: "nd_lookup name d1 = Some (NamespaceEntry n)" "nd_lookup name d' = Some (NamespaceEntry n')"
      "ensure_router ee h vpc gs (n, x) = (Inr (), (n', x'))"
    using WithHandle_frame(4) [OF h] by auto
  have "nd_exists d'" using Ensure_ok [OF e] WithHandle_frame(2) [OF h] by simp
  moreover have "case nd_lookup name d of None \<Rightarrow> n = fresh | Some e \<Rightarrow> e = NamespaceEntry n"
    using Ensure_ok [OF e] Ensure_frame(2) [OF e] n(1) by (auto split: option.splits)
  ultimately show ?thesis using ran(1,2) n by blast
qed simp

lemma DeleteVPC_frame:
  assumes "DeleteVPC os vpc (d, x) = (r, (d', x'))"
  shows "Name (vpc_ShortIndex vpc) \<noteq> Inr m \<Longrightarrow> nd_lookup m d' = nd_lookup m d" and "x' = x"
    and "r = Inr () \<Longrightarrow> \<exists>name. Name (vpc_ShortIndex vpc) = Inr name \<and> nd_lookup name d' = None"
  using assms Delete_frame Delete_ok
  by (cases "Name (vpc_ShortIndex vpc)"; fastforce simp: DeleteVPC_def eff_bind_def eff_wrap_def eff_fst_def split: prod.splits)+

end
