(* ===== verification/WorkQueue.thy ===== *)
theory WorkQueue
  imports Prelude
begin

text \<open>
  The acceleration queue that both controllers of \<open>internal/reconcile\<close> hold: a bounded set
  of identifiers to look at and a bounded map of retries. The code has it twice, once per
  controller; \<open>work_queue\<close> is the contract of the operations, and the bounds and the
  fairness of popping are proved from it once. Times are nanoseconds.

  A Go map has no order: which pending identifier a pop removes, and in which order the
  due retries are visited, are arguments of the operations.
\<close>

record retryEntry =
  re_attempt :: int
  re_due :: int

definition queueLimit :: nat where
  "queueLimit = 1024"

definition retryBase :: int where
  "retryBase = 100 * 1000000"

definition retryMax :: int where
  "retryMax = 30 * 1000000000"

type_synonym retry_map = "(string \<times> retryEntry) list"

definition retry_entry :: "string \<Rightarrow> retry_map \<Rightarrow> retryEntry" where
  "retry_entry i m = (case map_of m i of None \<Rightarrow> \<lparr>re_attempt = 0, re_due = 0\<rparr> | Some e \<Rightarrow> e)"

definition retry_put :: "string \<Rightarrow> retryEntry \<Rightarrow> retry_map \<Rightarrow> retry_map" where
  "retry_put i e m =
     (if map_of m i = None then m @ [(i, e)] else map (\<lambda>(k, x). (k, if k = i then e else x)) m)"

definition retry_delete :: "string \<Rightarrow> retry_map \<Rightarrow> retry_map" where
  "retry_delete i m = filter (\<lambda>(k, e). k \<noteq> i) m"

text \<open>The loop that doubles the delay.\<close>

function backoff :: "int \<Rightarrow> int \<Rightarrow> int \<Rightarrow> int" where
  "backoff n attempt delay =
     (if n < attempt \<and> delay < retryMax
      then backoff (n + 1) attempt (if delay * 2 > retryMax then retryMax else delay * 2)
      else delay)"
  by pat_completeness auto
termination
  by (relation "measure (\<lambda>(n, attempt, delay). nat (attempt - n))") auto

declare backoff.simps [simp del]

text \<open>What holds of the two maps: bounded, without duplicates, no empty identifier.\<close>

definition queue_ok :: "string list \<Rightarrow> retry_map \<Rightarrow> bool" where
  "queue_ok ps m \<longleftrightarrow>
     distinct ps \<and> length ps \<le> queueLimit \<and> [] \<notin> set ps \<and>
     distinct (map fst m) \<and> length m \<le> queueLimit \<and> list_all (\<lambda>(i, e). i \<noteq> [] \<and> 1 \<le> re_attempt e) m"

section \<open>Maps of retries\<close>

lemma retry_put_keys:
  "map fst (retry_put i e m) = (if map_of m i = None then map fst m @ [i] else map fst m)"
  by (auto simp: retry_put_def comp_def split_beta)

lemma map_of_retry_put: "map_of (retry_put i e m) j = (if j = i then Some e else map_of m j)"
proof (cases "map_of m i = None")
  case True
  then show ?thesis by (auto simp: retry_put_def map_add_def split: option.splits)
next
  case False
  have "map_of (map (\<lambda>(k, x). (k, if k = i then e else x)) m) j =
      (if j = i then map_option (\<lambda>_. e) (map_of m i) else map_of m j)"
    by (induction m) auto
  then show ?thesis using False by (auto simp: retry_put_def)
qed

lemma map_of_retry_delete: "map_of (retry_delete i m) j = (if j = i then None else map_of m j)"
  by (induction m) (auto simp: retry_delete_def)

lemma retry_put_entries:
  assumes "list_all (\<lambda>(i, e). Q i e) m" and "Q i e"
  shows "list_all (\<lambda>(i, e). Q i e) (retry_put i e m)"
  using assms by (auto simp: retry_put_def list_all_iff)

lemma queue_ok_put:
  assumes "queue_ok ps m" and "i \<noteq> []" and "1 \<le> re_attempt e" and "map_of m i \<noteq> None \<or> length m < queueLimit"
  shows "queue_ok ps (retry_put i e m)"
proof -
  have "length (retry_put i e m) \<le> queueLimit"
    using assms(1,4) by (auto simp: queue_ok_def retry_put_def)
  moreover have "distinct (map fst (retry_put i e m))"
    using assms(1) by (auto simp: queue_ok_def retry_put_keys map_of_eq_None_iff)
  ultimately show ?thesis
    using assms by (auto simp: queue_ok_def intro!: retry_put_entries)
qed

lemma queue_ok_delete: "queue_ok ps m \<Longrightarrow> queue_ok ps (retry_delete i m)"
proof -
  assume ok: "queue_ok ps m"
  then have "length (retry_delete i m) \<le> queueLimit"
    unfolding queue_ok_def retry_delete_def by (meson le_trans length_filter_le)
  then show ?thesis
    using ok by (auto simp: queue_ok_def retry_delete_def list_all_iff distinct_map_filter_key)
qed

lemma queue_ok_insert:
  assumes "queue_ok ps m" and "i \<noteq> []" and "length ps < queueLimit"
  shows "queue_ok (List.insert i ps) m"
  using assms by (auto simp: queue_ok_def List.insert_def)

lemma queue_ok_remove: "queue_ok ps m \<Longrightarrow> queue_ok (remove1 i ps) m"
  by (auto simp: queue_ok_def length_remove1 dest: notin_set_remove1)

text \<open>The delay of the n-th attempt: the base doubled n - 1 times, at most 30 seconds.\<close>

lemma le_doubled: "0 \<le> x \<Longrightarrow> x \<le> x * 2 ^ k" for x :: int
  using mult_left_mono [of 1 "2 ^ k" x] by simp

lemma backoff_closed:
  assumes "0 < d" and "d \<le> retryMax" and "n \<le> attempt"
  shows "backoff n attempt d = min (d * 2 ^ nat (attempt - n)) retryMax"
  using assms
proof (induction n attempt d rule: backoff.induct)
  case (1 n attempt d)
  show ?case
  proof (cases "n < attempt \<and> d < retryMax")
    case True
    then have s: "nat (attempt - n) = Suc (nat (attempt - (n + 1)))" by linarith
    let ?d = "if d * 2 > retryMax then retryMax else d * 2"
    have step: "backoff n attempt d = backoff (n + 1) attempt ?d" using True by (simp add: backoff.simps [of n])
    have IH: "backoff (n + 1) attempt ?d = min (?d * 2 ^ nat (attempt - (n + 1))) retryMax"
      using 1 True by (intro "1.IH") (auto simp: retryMax_def)
    show ?thesis
    proof (cases "d * 2 > retryMax")
      case True
      have "retryMax \<le> retryMax * 2 ^ nat (attempt - (n + 1))" by (rule le_doubled) (simp add: retryMax_def)
      moreover have "d * 2 \<le> d * 2 * 2 ^ nat (attempt - (n + 1))" using "1.prems"(1) by (intro le_doubled) simp
      then have "retryMax \<le> d * 2 ^ nat (attempt - n)" using True s by (simp add: mult.assoc)
      ultimately show ?thesis using True step IH by simp
    next
      case False
      then show ?thesis using step IH s by (simp add: mult_ac)
    qed
  next
    case False
    have "d \<le> d * 2 ^ nat (attempt - n)" using "1.prems"(1) by (intro le_doubled) simp
    then show ?thesis using False "1.prems" by (auto simp: backoff.simps [of n])
  qed
qed

section \<open>The contract\<close>

locale work_queue =
  fixes pending :: "'c \<Rightarrow> string list"
    and retries :: "'c \<Rightarrow> retry_map"
    and enqueue :: "string \<Rightarrow> 'c \<Rightarrow> 'c"
    and pop :: "nat \<Rightarrow> 'c \<Rightarrow> string \<times> 'c"
    and retry :: "int \<Rightarrow> string \<Rightarrow> 'c \<Rightarrow> 'c"
    and clearRetry :: "string \<Rightarrow> 'c \<Rightarrow> 'c"
    and enqueueDueRetries :: "int \<Rightarrow> string list \<Rightarrow> 'c \<Rightarrow> 'c"
  assumes pending_enqueue: "pending (enqueue i c) =
      (if i = [] \<or> queueLimit \<le> length (pending c) then pending c else List.insert i (pending c))"
    and retries_enqueue: "retries (enqueue i c) = retries c"
    and pop_empty: "pending c = [] \<Longrightarrow> pop k c = ([], c)"
    and pop_some: "pending c \<noteq> [] \<Longrightarrow> fst (pop k c) \<in> set (pending c)"
    and pending_pop: "pending (snd (pop k c)) = remove1 (fst (pop k c)) (pending c)"
    and retries_pop: "retries (snd (pop k c)) = retries c"
    and pending_retry: "pending (retry now i c) = pending c"
    and retries_retry: "retries (retry now i c) =
      (if queueLimit \<le> length (retries c) \<and> re_attempt (retry_entry i (retries c)) = 0 then retries c
       else (let n = re_attempt (retry_entry i (retries c)) + 1 in
             retry_put i \<lparr>re_attempt = n, re_due = now + backoff 1 n retryBase\<rparr> (retries c)))"
    and pending_clear: "pending (clearRetry i c) = pending c"
    and retries_clear: "retries (clearRetry i c) = retry_delete i (retries c)"
    and due_pending: "set (pending (enqueueDueRetries now order c)) \<subseteq> set (pending c) \<union> fst ` set (retries c)"
    and due_ok: "queue_ok (pending c) (retries c) \<Longrightarrow>
      queue_ok (pending (enqueueDueRetries now order c)) (retries (enqueueDueRetries now order c))"
begin

lemma keeps_bounds:
  assumes "queue_ok (pending c) (retries c)"
  shows "queue_ok (pending (enqueue i c)) (retries (enqueue i c))"
    and "queue_ok (pending (snd (pop k c))) (retries (snd (pop k c)))"
    and "i \<noteq> [] \<Longrightarrow> queue_ok (pending (retry now i c)) (retries (retry now i c))"
    and "queue_ok (pending (clearRetry i c)) (retries (clearRetry i c))"
proof -
  show "queue_ok (pending (enqueue i c)) (retries (enqueue i c))"
    using assms by (auto simp: pending_enqueue retries_enqueue intro: queue_ok_insert)
  show "queue_ok (pending (snd (pop k c))) (retries (snd (pop k c)))"
    using assms by (simp add: pending_pop retries_pop queue_ok_remove)
  show "queue_ok (pending (clearRetry i c)) (retries (clearRetry i c))"
    using assms by (simp add: pending_clear retries_clear queue_ok_delete)
  show "queue_ok (pending (retry now i c)) (retries (retry now i c))" if "i \<noteq> []"
  proof (cases "queueLimit \<le> length (retries c) \<and> re_attempt (retry_entry i (retries c)) = 0")
    case True
    then show ?thesis using assms by (simp add: pending_retry retries_retry)
  next
    case False
    have "0 \<le> re_attempt (retry_entry i (retries c))"
      using assms by (force simp: retry_entry_def queue_ok_def list_all_iff split: option.splits dest: map_of_SomeD)
    moreover have "map_of (retries c) i \<noteq> None \<or> length (retries c) < queueLimit"
      using False by (cases "map_of (retries c) i") (auto simp: retry_entry_def)
    ultimately show ?thesis
      unfolding pending_retry retries_retry Let_def if_not_P [OF False]
      using assms that by (intro queue_ok_put) auto
  qed
qed

text \<open>Popping until the queue is empty returns every pending identifier exactly once.\<close>

fun drain :: "nat list \<Rightarrow> 'c \<Rightarrow> string list \<times> 'c" where
  "drain [] c = ([], c)"
| "drain (k # ks) c = (case pop k c of (i, c') \<Rightarrow> (case drain ks c' of (is, c'') \<Rightarrow> (i # is, c'')))"

lemma drain_all:
  assumes "distinct (pending c)" and "length ks = length (pending c)"
  shows "distinct (fst (drain ks c)) \<and> set (fst (drain ks c)) = set (pending c) \<and> pending (snd (drain ks c)) = []"
  using assms
proof (induction ks arbitrary: c)
  case Nil
  then show ?case by simp
next
  case (Cons k ks)
  obtain i c' where p: "pop k c = (i, c')" by (cases "pop k c")
  have "pending c \<noteq> []" using Cons.prems(2) by auto
  then have i: "i \<in> set (pending c)" using pop_some [of c k] p by simp
  have c': "pending c' = remove1 i (pending c)" using pending_pop [of k c] p by simp
  have "distinct (pending c')" "length ks = length (pending c')"
    using Cons.prems i by (simp_all add: c' length_remove1)
  note IH = Cons.IH [OF this]
  have "set (pending c') = set (pending c) - {i}" using Cons.prems(1) c' by simp
  then show ?case using IH i p by (simp add: split_beta) blast
qed

end

end
