(* ===== verification/NetworkController.thy ===== *)
theory NetworkController
  imports WorkQueue Operations Netns
begin

text \<open>
  \<open>internal/reconcile/controller.go\<close> and \<open>network.go\<close>: the controller that makes the
  kernel's VPC namespaces match the tables. The engine is the interface \<open>NetworkEngine\<close>, a
  record of functions on the kernel's state \<open>'k\<close>. Requests go on while the controller
  works: \<open>se_between env n\<close> is what others commit in the n-th gap between two accesses to
  the tables.
\<close>

section \<open>The queue\<close>

record Controller =
  c_pending :: "string list"
  c_retries :: retry_map
  c_wake :: bool

definition New :: Controller where
  "New = \<lparr>c_pending = [], c_retries = [], c_wake = False\<rparr>"

definition Enqueue :: "string \<Rightarrow> Controller \<Rightarrow> Controller" where
  "Enqueue vpcID c =
     (if vpcID = [] then c
      else (let c = (if length (c_pending c) < queueLimit then c\<lparr>c_pending := List.insert vpcID (c_pending c)\<rparr> else c) in
            c\<lparr>c_wake := True\<rparr>))"

text \<open>The iteration over the map starts anywhere: \<open>k\<close> picks the entry.\<close>

definition pop :: "nat \<Rightarrow> Controller \<Rightarrow> string \<times> Controller" where
  "pop k c =
     (case c_pending c of
        [] \<Rightarrow> ([], c)
      | ps \<Rightarrow> (let i = ps ! (k mod length ps) in (i, c\<lparr>c_pending := remove1 i ps\<rparr>)))"

definition retry :: "int \<Rightarrow> string \<Rightarrow> Controller \<Rightarrow> Controller" where
  "retry now vpcID c =
     (let entry = retry_entry vpcID (c_retries c) in
      if length (c_retries c) \<ge> queueLimit \<and> re_attempt entry = 0 then c
      else (let attempt = re_attempt entry + 1;
                delay = backoff 1 attempt retryBase in
            c\<lparr>c_retries := retry_put vpcID \<lparr>re_attempt = attempt, re_due = now + delay\<rparr> (c_retries c)\<rparr>))"

definition clearRetry :: "string \<Rightarrow> Controller \<Rightarrow> Controller" where
  "clearRetry vpcID c = c\<lparr>c_retries := retry_delete vpcID (c_retries c)\<rparr>"

text \<open>One visit of the loop over the retries; the loop visits the keys in some order.\<close>

definition due_step :: "int \<Rightarrow> string \<Rightarrow> Controller \<Rightarrow> Controller" where
  "due_step now i c =
     (case map_of (c_retries c) i of
        None \<Rightarrow> c
      | Some entry \<Rightarrow>
          if re_due entry \<le> now \<and> length (c_pending c) < queueLimit
          then c\<lparr>c_pending := List.insert i (c_pending c),
                 c_retries := retry_put i (entry\<lparr>re_due := now + retryMax\<rparr>) (c_retries c)\<rparr>
          else c)"

definition enqueueDueRetries :: "int \<Rightarrow> string list \<Rightarrow> Controller \<Rightarrow> Controller" where
  "enqueueDueRetries now order c = fold (due_step now) order c"

section \<open>Reconciling one VPC\<close>

record 'k NetworkEngine =
  ne_EnsureVPC :: "VPC \<Rightarrow> Subnet list \<Rightarrow> 'k \<Rightarrow> unit res \<times> 'k"
  ne_DeleteVPC :: "VPC \<Rightarrow> 'k \<Rightarrow> unit res \<times> 'k"
  ne_ListVPCNames :: "'k \<Rightarrow> string list res"

record 'k world =
  w_db :: db
  w_kernel :: 'k
  w_ctl :: Controller

text \<open>The environment of one reconciliation; \<open>se_text\<close> is the method \<open>Error\<close> of errors.\<close>

record step_env =
  se_between :: "nat \<Rightarrow> db \<Rightarrow> db"
  se_ctx :: "goerr option"
  se_fault :: fault
  se_now :: int
  se_text :: "goerr \<Rightarrow> string"

definition unix_seconds :: "int \<Rightarrow> int" where
  "unix_seconds now = now div 1000000000"

definition reconcileLocked ::
  "'k NetworkEngine \<Rightarrow> step_env \<Rightarrow> string \<Rightarrow> 'k world \<Rightarrow> unit res \<times> 'k world" where
  "reconcileLocked ne env i w =
     (case store_GetVPC ''default'' i (w_db w) of
        Inl e \<Rightarrow>
          if err_is ErrNoRows e then (Inr (), w\<lparr>w_ctl := clearRetry i (w_ctl w)\<rparr>)
          else (Inl (Wrapf (''load VPC '' @ i) e), w)
      | Inr vpc \<Rightarrow>
     (let w = w\<lparr>w_db := se_between env 0 (w_db w)\<rparr> in
      case store_ListSubnetsByVPC i (w_db w) of
        Inl e \<Rightarrow> (Inl e, w)
      | Inr children \<Rightarrow>
     if vpc_DeletionRequested vpc \<and> children \<noteq> []
     then (Inl (Errorf (''deleting VPC '' @ i @ '' still has '' @ FormatInt (int (length children)) @ '' subnets'')), w)
     else
     (let (effectErr, k) =
            (if vpc_DeletionRequested vpc then ne_DeleteVPC ne vpc (w_kernel w)
             else ne_EnsureVPC ne vpc (filter (\<lambda>s. \<not> sub_DeletionRequested s) children) (w_kernel w));
          w = w\<lparr>w_kernel := k, w_db := se_between env 1 (w_db w)\<rparr> in
      case se_ctx env of
        Some e \<Rightarrow> (Inl e, w)
      | None \<Rightarrow>
     (let effect = (case effectErr of Inl e \<Rightarrow> Some (se_text env e) | Inr _ \<Rightarrow> None) in
      case store_RecordTopology None (se_fault env) (unix_seconds (se_now env)) vpc children effect (w_db w) of
        (Inl e, d) \<Rightarrow>
          if err_is ErrStaleSnapshot e then (Inr (), w\<lparr>w_db := d, w_ctl := Enqueue i (w_ctl w)\<rparr>)
          else (Inl (Wrapf (''persist VPC '' @ i @ '' reconciliation'') e), w\<lparr>w_db := d\<rparr>)
      | (Inr _, d) \<Rightarrow>
          (Inr (), w\<lparr>w_db := d,
             w_ctl := (if effect \<noteq> None then retry (se_now env) i (w_ctl w) else clearRetry i (w_ctl w))\<rparr>)))))"

section \<open>The sweep\<close>

definition ownedIndex :: "string \<Rightarrow> int \<times> bool" where
  "ownedIndex name =
     (case CutPrefix name ''nx-vpc-'' of
        None \<Rightarrow> (0, False)
      | Some part \<Rightarrow>
          (case ParseInt part of
             None \<Rightarrow> (0, False)
           | Some index \<Rightarrow> (index, Name index = Inr name)))"

lemma vpcFromRow_ID: "vpcFromRow r = Inr v \<Longrightarrow> vpc_ID v = vr_id r"
  by (auto simp: vpcFromRow_def Let_def split: option.splits if_splits)

text \<open>A page that follows a cursor leaves fewer rows to follow its last one.\<close>

lemma store_ListVPCPage_ids:
  assumes "store_ListVPCPage ws after n d = Inr page"
  shows "map vpc_ID page = map vr_id (q_ListVPCPage ws after n d)"
proof -
  have "list_all2 (\<lambda>r v. vpcFromRow r = Inr v) (q_ListVPCPage ws after n d) page"
    using assms by (simp add: store_ListVPCPage_def res_mapM_Inr_iff)
  then show ?thesis by (induction rule: list_all2_induct) (simp_all add: vpcFromRow_ID)
qed

lemma q_ListVPCPage_after: "r \<in> set (q_ListVPCPage ws after n d) \<Longrightarrow> r \<in> set (vpcs d) \<and> after < vr_id r"
  by (auto simp: q_ListVPCPage_def sql_limit_def split: if_splits dest!: in_set_takeD)

lemma length_filter_less:
  assumes "\<And>x. Q x \<Longrightarrow> P x" and "y \<in> set xs" and "P y" and "\<not> Q y"
  shows "length (filter Q xs) < length (filter P xs)"
proof -
  have "length (filter Q (filter P xs)) < length (filter P xs)"
    by (rule length_filter_less) (use assms in auto)
  moreover have "filter Q (filter P xs) = filter Q xs" using assms(1) by (auto intro: filter_cong)
  ultimately show ?thesis by simp
qed

lemma sweep_shrinks:
  assumes "store_ListVPCPage ws after n d = Inr page" and "page \<noteq> []"
  shows "length (filter (\<lambda>r. vpc_ID (last page) < vr_id r) (vpcs d)) < length (filter (\<lambda>r. after < vr_id r) (vpcs d))"
proof -
  let ?q = "q_ListVPCPage ws after n d"
  have m: "map vpc_ID page = map vr_id ?q" by (rule store_ListVPCPage_ids [OF assms(1)])
  then have q: "?q \<noteq> []" using assms(2) by auto
  have l: "vpc_ID (last page) = vr_id (last ?q)"
    using m assms(2) q by (metis last_map)
  have "last ?q \<in> set (vpcs d)" "after < vr_id (last ?q)" using q_ListVPCPage_after [OF last_in_set [OF q]] by simp_all
  then show ?thesis unfolding l by (intro length_filter_less [of _ _ "last ?q"]) (auto intro: less_trans)
qed

fun vpc_names :: "VPC list \<Rightarrow> string list res" where
  "vpc_names [] = Inr []"
| "vpc_names (v # vs) =
     res_bind (res_wrap (''VPC '' @ vpc_ID v @ '' namespace name'') (Name (vpc_ShortIndex v))) (\<lambda>name.
     res_bind (vpc_names vs) (\<lambda>names. Inr (name # names)))"

text \<open>
  The pages of 100 after a cursor: the VPCs and the names they want. Each page is a query of
  its own; \<open>commits\<close> are what others commit after the first pages, one entry for a page.
\<close>

function sweep_list :: "(db \<Rightarrow> db) list \<Rightarrow> string \<Rightarrow> db \<Rightarrow> (VPC list \<times> string list) res \<times> db" where
  "sweep_list commits after d =
     (case store_ListVPCPage ''default'' after 100 d of
        Inl e \<Rightarrow> (Inl e, d)
      | Inr page \<Rightarrow>
          if page = [] then (Inr ([], []), d)
          else
            (case vpc_names page of
               Inl e \<Rightarrow> (Inl e, d)
             | Inr names \<Rightarrow>
                 (let d' = (case commits of [] \<Rightarrow> d | f # _ \<Rightarrow> f d) in
                  case sweep_list (tl commits) (vpc_ID (last page)) d' of
                    (Inl e, d'') \<Rightarrow> (Inl e, d'')
                  | (Inr (vs, ns), d'') \<Rightarrow> (Inr (page @ vs, names @ ns), d''))))"
  by pat_completeness auto
termination
  by (relation "measures [\<lambda>(commits, after, d). length commits,
        \<lambda>(commits, after, d). length (filter (\<lambda>r. after < vr_id r) (vpcs d))]")
    (auto intro: sweep_shrinks split: list.splits)

declare sweep_list.simps [simp del]

text \<open>Namespaces of the engine that no VPC wants and that carry a canonical name.\<close>

fun remove_orphans :: "'k NetworkEngine \<Rightarrow> string list \<Rightarrow> string list \<Rightarrow> 'k \<Rightarrow> unit res \<times> 'k" where
  "remove_orphans ne wanted [] k = (Inr (), k)"
| "remove_orphans ne wanted (name # names) k =
     (if name \<in> set wanted then remove_orphans ne wanted names k
      else
        (case ownedIndex name of
           (index, valid) \<Rightarrow>
             if \<not> valid then remove_orphans ne wanted names k
             else
               (case ne_DeleteVPC ne (zero_VPC\<lparr>vpc_ID := name, vpc_ShortIndex := index\<rparr>) k of
                  (Inl e, k') \<Rightarrow> (Inl (Wrapf (''remove orphan VPC namespace '' @ name) e), k')
                | (Inr _, k') \<Rightarrow> remove_orphans ne wanted names k')))"

fun reconcile_all ::
  "'k NetworkEngine \<Rightarrow> (string \<Rightarrow> step_env) \<Rightarrow> VPC list \<Rightarrow> 'k world \<Rightarrow> unit res \<times> 'k world" where
  "reconcile_all ne envs [] w = (Inr (), w)"
| "reconcile_all ne envs (v # vs) w =
     (case reconcileLocked ne (envs (vpc_ID v)) (vpc_ID v) w of
        (Inl e, w') \<Rightarrow> (Inl e, w')
      | (Inr _, w') \<Rightarrow> reconcile_all ne envs vs w')"

definition Sweep ::
  "'k NetworkEngine \<Rightarrow> (db \<Rightarrow> db) list \<Rightarrow> (string \<Rightarrow> step_env) \<Rightarrow> 'k world \<Rightarrow> unit res \<times> 'k world" where
  "Sweep ne commits envs w =
     (case sweep_list commits [] (w_db w) of
        (Inl e, d) \<Rightarrow> (Inl e, w\<lparr>w_db := d\<rparr>)
      | (Inr (vs, wanted), d) \<Rightarrow>
          (let w = w\<lparr>w_db := d\<rparr> in
           case ne_ListVPCNames ne (w_kernel w) of
             Inl e \<Rightarrow> (Inl (Wrapf ''list VPC namespace orphans'' e), w)
           | Inr names \<Rightarrow>
               (case remove_orphans ne wanted names (w_kernel w) of
                  (Inl e, k) \<Rightarrow> (Inl e, w\<lparr>w_kernel := k\<rparr>)
                | (Inr _, k) \<Rightarrow> reconcile_all ne envs vs (w\<lparr>w_kernel := k\<rparr>))))"

section \<open>The loop\<close>

text \<open>
  \<open>Run\<close> alternates between draining the queue and waiting. A step is one pop with its
  reconciliation, or one event of the \<open>select\<close>. The loop ends with the error it returns.
\<close>

datatype run_event = CtxDone goerr | Woken | RetryTick "string list" | ResyncTick "(db \<Rightarrow> db) list" "string \<Rightarrow> step_env" "goerr option"

datatype run_pc = Draining | Waiting | Returned goerr

definition run_drain ::
  "'k NetworkEngine \<Rightarrow> nat \<Rightarrow> step_env \<Rightarrow> 'k world \<Rightarrow> run_pc \<times> 'k world" where
  "run_drain ne pick env w =
     (case pop pick (w_ctl w) of
        (i, c) \<Rightarrow>
          (let w = w\<lparr>w_ctl := c\<rparr> in
           if i = [] then (Waiting, w)
           else
             (case reconcileLocked ne env i w of
                (Inl e, w') \<Rightarrow> (Returned (case se_ctx env of Some x \<Rightarrow> x | None \<Rightarrow> e), w')
              | (Inr _, w') \<Rightarrow> (Draining, w'))))"

definition run_wait ::
  "'k NetworkEngine \<Rightarrow> int \<Rightarrow> run_event \<Rightarrow> 'k world \<Rightarrow> run_pc \<times> 'k world" where
  "run_wait ne now ev w =
     (case ev of
        CtxDone e \<Rightarrow> (Returned e, w)
      | Woken \<Rightarrow> (if c_wake (w_ctl w) then (Draining, w\<lparr>w_ctl := (w_ctl w)\<lparr>c_wake := False\<rparr>\<rparr>) else (Waiting, w))
      | RetryTick order \<Rightarrow> (Draining, w\<lparr>w_ctl := enqueueDueRetries now order (w_ctl w)\<rparr>)
      | ResyncTick commits envs ctx \<Rightarrow>
          (case Sweep ne commits envs w of
             (Inl e, w') \<Rightarrow> (Returned (case ctx of Some x \<Rightarrow> x | None \<Rightarrow> e), w')
           | (Inr _, w') \<Rightarrow> (Draining, w')))"

end
