(* ===== verification/NetworkConvergence.thy ===== *)
theory NetworkConvergence
  imports NetworkController
begin

text \<open>
  What the VPC controller achieves: its queue obeys the contract, its writes keep the
  invariant, and one undisturbed pass with a working engine settles a VPC and its subnets
  or removes them.
\<close>

section \<open>The queue obeys its contract\<close>

lemma due_step_ok:
  assumes "queue_ok (c_pending c) (c_retries c)"
  shows "queue_ok (c_pending (due_step now i c)) (c_retries (due_step now i c))"
proof (cases "map_of (c_retries c) i")
  case None
  then show ?thesis using assms by (simp add: due_step_def)
next
  case (Some e)
  then have "i \<noteq> []" "1 \<le> re_attempt e"
    using assms by (auto simp: queue_ok_def list_all_iff dest!: map_of_SomeD)
  then show ?thesis
    using assms Some queue_ok_insert queue_ok_put [of _ "c_retries c" i "e\<lparr>re_due := now + retryMax\<rparr>"]
    by (auto simp: due_step_def)
qed

lemma due_step_pending:
  "set (c_pending (due_step now i c)) \<subseteq> set (c_pending c) \<union> fst ` set (c_retries c)"
  "fst ` set (c_retries (due_step now i c)) = fst ` set (c_retries c)"
proof -
  have "fst ` set (retry_put i e m) = fst ` set m" if "map_of m i = Some x" for e x m
    using retry_put_keys [of i e m] that by (metis list.set_map option.distinct(1))
  then show "fst ` set (c_retries (due_step now i c)) = fst ` set (c_retries c)"
    by (auto simp: due_step_def split: option.splits)
  show "set (c_pending (due_step now i c)) \<subseteq> set (c_pending c) \<union> fst ` set (c_retries c)"
    by (auto simp: due_step_def split: option.splits dest!: map_of_SomeD) force
qed

lemma pop_alt:
  "pop k c = (if c_pending c = [] then ([], c)
     else (c_pending c ! (k mod length (c_pending c)),
           c\<lparr>c_pending := remove1 (c_pending c ! (k mod length (c_pending c))) (c_pending c)\<rparr>))"
  by (simp add: pop_def Let_def split: list.split)

interpretation vq: work_queue c_pending c_retries Enqueue pop retry clearRetry enqueueDueRetries
proof
  fix i :: string and c :: Controller and k now order
  show "c_pending (Enqueue i c) =
      (if i = [] \<or> queueLimit \<le> length (c_pending c) then c_pending c else List.insert i (c_pending c))"
    by (simp add: Enqueue_def Let_def)
  show "c_retries (Enqueue i c) = c_retries c" by (simp add: Enqueue_def Let_def)
  show "c_pending c = [] \<Longrightarrow> pop k c = ([], c)" by (simp add: pop_def)
  show "c_pending c \<noteq> [] \<Longrightarrow> fst (pop k c) \<in> set (c_pending c)"
    by (simp add: pop_alt)
  show "c_pending (snd (pop k c)) = remove1 (fst (pop k c)) (c_pending c)"
    by (simp add: pop_alt)
  show "c_retries (snd (pop k c)) = c_retries c" by (simp add: pop_alt)
  show "c_pending (retry now i c) = c_pending c" by (simp add: retry_def Let_def)
  show "c_retries (retry now i c) =
      (if queueLimit \<le> length (c_retries c) \<and> re_attempt (retry_entry i (c_retries c)) = 0 then c_retries c
       else (let n = re_attempt (retry_entry i (c_retries c)) + 1 in
             retry_put i \<lparr>re_attempt = n, re_due = now + backoff 1 n retryBase\<rparr> (c_retries c)))"
    by (simp add: retry_def Let_def)
  show "c_pending (clearRetry i c) = c_pending c" "c_retries (clearRetry i c) = retry_delete i (c_retries c)"
    by (simp_all add: clearRetry_def)
  show "set (c_pending (enqueueDueRetries now order c)) \<subseteq> set (c_pending c) \<union> fst ` set (c_retries c)"
    unfolding enqueueDueRetries_def
  proof (induction order arbitrary: c)
    case (Cons i order)
    then show ?case using due_step_pending [of now i c] by (simp add: subset_iff) blast
  qed simp
  show "queue_ok (c_pending c) (c_retries c) \<Longrightarrow>
      queue_ok (c_pending (enqueueDueRetries now order c)) (c_retries (enqueueDueRetries now order c))"
    unfolding enqueueDueRetries_def by (induction order arbitrary: c) (auto simp: due_step_ok)
qed

section \<open>Status writes\<close>

lemma AppendEvent_ok:
  assumes "db_inv d" and "event_seq d < max_int64"
  obtains L where "tx_AppendEvent defaultWorkspace rt rid act st g msg t d =
    Inr ((), d\<lparr>event_seq := event_seq d + 1, events := L\<rparr>)"
  using assms by (auto simp: tx_AppendEvent_def tx_wrap_def q_InsertEvent_def db_inv_def)

definition settled_subnet :: "subnet_row \<Rightarrow> bool" where
  "settled_subnet r \<longleftrightarrow> sr_state r = StateAvailable \<and> sr_state_reason r = [] \<and>
     sr_observed_generation r = sr_generation r \<and> sr_deletion_requested r = 0"

definition settled_vpc :: "vpc_row \<Rightarrow> bool" where
  "settled_vpc r \<longleftrightarrow> vr_state r = StateAvailable \<and> vr_state_reason r = [] \<and>
     vr_observed_generation r = vr_generation r \<and> vr_deletion_requested r = 0"

text \<open>
  What a row shows after a pass: settled when the engine succeeded, otherwise failed with
  the text of the engine's error.
\<close>

definition subnet_reported :: "string option \<Rightarrow> subnet_row \<Rightarrow> bool" where
  "subnet_reported effect r \<longleftrightarrow>
     (case effect of None \<Rightarrow> settled_subnet r | Some t \<Rightarrow> sr_state r = StateFailed \<and> sr_state_reason r = t)"

definition vpc_reported :: "string option \<Rightarrow> vpc_row \<Rightarrow> bool" where
  "vpc_reported effect r \<longleftrightarrow>
     (case effect of None \<Rightarrow> settled_vpc r | Some t \<Rightarrow> vr_state r = StateFailed \<and> vr_state_reason r = t)"

abbreviation effect_state :: "string option \<Rightarrow> state" where
  "effect_state effect \<equiv> (case effect of None \<Rightarrow> StateAvailable | Some _ \<Rightarrow> StateFailed)"

abbreviation effect_reason :: "string option \<Rightarrow> string" where
  "effect_reason effect \<equiv> (case effect of None \<Rightarrow> [] | Some t \<Rightarrow> t)"

text \<open>
  Rows other than the named one stay, and so do the tables of VPCs and instances; at most
  one event is added.
\<close>

definition only_subnet :: "string \<Rightarrow> db \<Rightarrow> db \<Rightarrow> bool" where
  "only_subnet i d d' \<longleftrightarrow>
     (\<forall>r. sr_id r \<noteq> i \<longrightarrow> (r \<in> set (subnets d') \<longleftrightarrow> r \<in> set (subnets d))) \<and>
     vpcs d' = vpcs d \<and> instances d' = instances d \<and> enis d' = enis d \<and> event_seq d' \<le> event_seq d + 1"

lemma subnet_rows:
  assumes "db_inv d" and "s \<in> set (subnets d)"
  shows "srow_ok (kernel_indexes d) s" and "subnet_key (sr_id s) defaultWorkspace r \<Longrightarrow> r \<in> set (subnets d) \<Longrightarrow> r = s"
    and "sr_workspace_id s = defaultWorkspace"
proof -
  have S: "subnets_ok (kernel_indexes d) (vpcs d) (subnets d)" using assms(1) by (simp add: db_inv_def)
  show "srow_ok (kernel_indexes d) s" using subnets_row [OF S assms(2)] by simp
  then show "sr_workspace_id s = defaultWorkspace" by (simp add: srow_ok_def)
  show "r = s" if "subnet_key (sr_id s) defaultWorkspace r" "r \<in> set (subnets d)"
    using subnets_unique [OF S that(2) assms(2)] that(1) by (simp add: subnet_key_def)
qed

lemma recordSubnetStatus_ok:
  assumes inv: "db_inv d" and s: "s \<in> set (subnets d)" and "event_seq d < max_int64"
    and st: "st \<in> {''pending'', ''available'', ''deleting'', ''failed''}"
  shows "\<exists>d'. tx_recordSubnetStatus (subnet_of_row s) st reason obs now d = Inr ((), d') \<and> only_subnet (sr_id s) d d' \<and>
    (\<forall>r \<in> set (subnets d'). sr_id r = sr_id s \<longrightarrow>
      sr_state r = st \<and> sr_state_reason r = reason \<and> sr_generation r = sr_generation s \<and>
      sr_observed_generation r = (if obs then sr_generation s else sr_observed_generation s) \<and>
      sr_deletion_requested r = sr_deletion_requested s \<and> sr_vpc_id r = sr_vpc_id s)"
proof -
  let ?g = "if obs then sr_generation s else sr_observed_generation s"
  have uniq: "r = s" if "r \<in> set (subnets d)" "sr_id r = sr_id s" for r
    using subnet_rows(2) [OF inv s, of r] subnet_rows(3) [OF inv that(1)] that by (simp add: subnet_key_def)
  show ?thesis
  proof (cases "sr_state s = st \<and> sr_state_reason s = reason \<and> sr_observed_generation s = ?g")
    case True
    then have "tx_recordSubnetStatus (subnet_of_row s) st reason obs now d = Inr ((), d)"
      by (auto simp: tx_recordSubnetStatus_def subnet_of_row_def tx_return_def Let_def)
    then show ?thesis using uniq True by (auto simp: only_subnet_def)
  next
    case False
    let ?f = "\<lambda>r. r\<lparr>sr_state := st, sr_state_reason := reason, sr_observed_generation := ?g, sr_updated_at := now\<rparr>"
    let ?S = "upd (subnet_key (sr_id s) defaultWorkspace) ?f (subnets d)"
    let ?d1 = "d\<lparr>subnets := ?S\<rparr>"
    have "subnet_check (?f r)" if "subnet_key (sr_id s) defaultWorkspace r" "r \<in> set (subnets d)" for r
      using subnet_rows(1) [OF inv s] subnet_rows(2) [OF inv s that] st
      by (simp add: srow_ok_def subnet_check_def generation_check_def)
    then have "list_all subnet_check ?S"
      using subnet_rows(1) [OF inv] by (intro list_all_upd) (auto simp: list_all_iff srow_ok_def)
    then have step: "q_UpdateSubnetStatus st reason ?g now (sr_id s) defaultWorkspace d = Inr ((), ?d1)"
      by (simp add: q_UpdateSubnetStatus_def)
    have inv1: "db_inv ?d1" by (rule inv_UpdateSubnetStatus [OF inv step])
    obtain L where ev: "tx_AppendEvent defaultWorkspace ''subnet'' (sr_id s) ''status'' st (sr_generation s) reason now ?d1 =
        Inr ((), ?d1\<lparr>event_seq := event_seq ?d1 + 1, events := L\<rparr>)"
      by (rule AppendEvent_ok [OF inv1]) (use assms(3) in simp)
    have ws: "sr_workspace_id s = defaultWorkspace" by (rule subnet_rows(3) [OF inv s])
    have "tx_recordSubnetStatus (subnet_of_row s) st reason obs now d =
        Inr ((), ?d1\<lparr>event_seq := event_seq ?d1 + 1, events := L\<rparr>)"
      unfolding tx_recordSubnetStatus_def Let_def subnet_of_row_def
      using False step ev ws by (auto simp: tx_bind_Inr)
    moreover have "only_subnet (sr_id s) d (?d1\<lparr>event_seq := event_seq ?d1 + 1, events := L\<rparr>)"
      by (auto simp: only_subnet_def set_upd subnet_key_def image_iff split: if_splits)
    moreover have "sr_state r = st \<and> sr_state_reason r = reason \<and> sr_generation r = sr_generation s \<and>
        sr_observed_generation r = ?g \<and> sr_deletion_requested r = sr_deletion_requested s \<and> sr_vpc_id r = sr_vpc_id s"
      if r: "r \<in> set ?S" "sr_id r = sr_id s" for r
    proof -
      obtain x where x: "x \<in> set (subnets d)" "r = (if subnet_key (sr_id s) defaultWorkspace x then ?f x else x)"
        using r(1) by (auto simp: set_upd)
      then have "sr_id x = sr_id s" using r(2) by (auto split: if_splits)
      then have "x = s" using uniq x(1) by blast
      then have "r = ?f s" using x(2) ws by (simp add: subnet_key_def)
      then show ?thesis by simp
    qed
    ultimately show ?thesis by (intro exI [of _ "?d1\<lparr>event_seq := event_seq ?d1 + 1, events := L\<rparr>"]) simp
  qed
qed


definition only_vpc :: "string \<Rightarrow> db \<Rightarrow> db \<Rightarrow> bool" where
  "only_vpc i d d' \<longleftrightarrow>
     (\<forall>r. vr_id r \<noteq> i \<longrightarrow> (r \<in> set (vpcs d') \<longleftrightarrow> r \<in> set (vpcs d))) \<and>
     subnets d' = subnets d \<and> instances d' = instances d \<and> enis d' = enis d \<and> event_seq d' \<le> event_seq d + 1"

lemma vpc_rows:
  assumes "db_inv d" and "v \<in> set (vpcs d)"
  shows "vrow_ok (kernel_indexes d) v" and "r \<in> set (vpcs d) \<Longrightarrow> vr_id r = vr_id v \<Longrightarrow> r = v"
    and "vr_workspace_id v = defaultWorkspace"
proof -
  have V: "vpcs_ok (kernel_indexes d) (vpcs d)" using assms(1) by (simp add: db_inv_def)
  show "vrow_ok (kernel_indexes d) v" using vpcs_row [OF V assms(2)] by simp
  then show "vr_workspace_id v = defaultWorkspace" by (simp add: vrow_ok_def)
  show "r = v" if "r \<in> set (vpcs d)" "vr_id r = vr_id v"
    using vpcs_unique [OF V that(1) assms(2) that(2)] .
qed

lemma recordVPCStatus_ok:
  assumes inv: "db_inv d" and v: "v \<in> set (vpcs d)" and "event_seq d < max_int64"
    and st: "st \<in> {''pending'', ''available'', ''deleting'', ''failed''}"
  shows "\<exists>d'. tx_recordVPCStatus (vpc_of_row v) st reason obs now d = Inr ((), d') \<and> only_vpc (vr_id v) d d' \<and>
    (\<forall>r \<in> set (vpcs d'). vr_id r = vr_id v \<longrightarrow>
      vr_state r = st \<and> vr_state_reason r = reason \<and> vr_generation r = vr_generation v \<and>
      vr_observed_generation r = (if obs then vr_generation v else vr_observed_generation v) \<and>
      vr_deletion_requested r = vr_deletion_requested v \<and> vr_short_index r = vr_short_index v) \<and>
    vr_id v \<in> vr_id ` set (vpcs d')"
proof -
  let ?g = "if obs then vr_generation v else vr_observed_generation v"
  have uniq: "r = v" if "r \<in> set (vpcs d)" "vr_id r = vr_id v" for r
    using vpc_rows(2) [OF inv v that] .
  show ?thesis
  proof (cases "vr_state v = st \<and> vr_state_reason v = reason \<and> vr_observed_generation v = ?g")
    case True
    then have "tx_recordVPCStatus (vpc_of_row v) st reason obs now d = Inr ((), d)"
      by (auto simp: tx_recordVPCStatus_def vpc_of_row_def tx_return_def Let_def)
    then show ?thesis using uniq True v by (auto simp: only_vpc_def)
  next
    case False
    let ?f = "\<lambda>r. r\<lparr>vr_state := st, vr_state_reason := reason, vr_observed_generation := ?g, vr_updated_at := now\<rparr>"
    let ?V = "upd (vpc_key (vr_id v) defaultWorkspace) ?f (vpcs d)"
    let ?d1 = "d\<lparr>vpcs := ?V\<rparr>"
    have "vpc_check (?f r)" if "vpc_key (vr_id v) defaultWorkspace r" "r \<in> set (vpcs d)" for r
    proof -
      have "r = v" using uniq that by (simp add: vpc_key_def)
      then show ?thesis using vpc_rows(1) [OF inv v] st by (simp add: vrow_ok_def vpc_check_def generation_check_def)
    qed
    then have "list_all vpc_check ?V"
      using vpc_rows(1) [OF inv] by (intro list_all_upd) (auto simp: list_all_iff vrow_ok_def)
    then have step: "q_UpdateVPCStatus st reason ?g now (vr_id v) defaultWorkspace d = Inr ((), ?d1)"
      by (simp add: q_UpdateVPCStatus_def)
    have inv1: "db_inv ?d1" by (rule inv_UpdateVPCStatus [OF inv step])
    obtain L where ev: "tx_AppendEvent defaultWorkspace ''vpc'' (vr_id v) ''status'' st (vr_generation v) reason now ?d1 =
        Inr ((), ?d1\<lparr>event_seq := event_seq ?d1 + 1, events := L\<rparr>)"
      by (rule AppendEvent_ok [OF inv1]) (use assms(3) in simp)
    have ws: "vr_workspace_id v = defaultWorkspace" by (rule vpc_rows(3) [OF inv v])
    have "tx_recordVPCStatus (vpc_of_row v) st reason obs now d =
        Inr ((), ?d1\<lparr>event_seq := event_seq ?d1 + 1, events := L\<rparr>)"
      unfolding tx_recordVPCStatus_def Let_def vpc_of_row_def
      using False step ev ws by (auto simp: tx_bind_Inr)
    moreover have "only_vpc (vr_id v) d (?d1\<lparr>event_seq := event_seq ?d1 + 1, events := L\<rparr>)"
      by (auto simp: only_vpc_def set_upd vpc_key_def image_iff split: if_splits)
    moreover have "vr_state r = st \<and> vr_state_reason r = reason \<and> vr_generation r = vr_generation v \<and>
        vr_observed_generation r = ?g \<and> vr_deletion_requested r = vr_deletion_requested v \<and>
        vr_short_index r = vr_short_index v"
      if r: "r \<in> set ?V" "vr_id r = vr_id v" for r
    proof -
      obtain x where x: "x \<in> set (vpcs d)" "r = (if vpc_key (vr_id v) defaultWorkspace x then ?f x else x)"
        using r(1) by (auto simp: set_upd)
      then have "vr_id x = vr_id v" using r(2) by (auto split: if_splits)
      then have "x = v" using uniq x(1) by blast
      then have "r = ?f v" using x(2) ws by (simp add: vpc_key_def)
      then show ?thesis by simp
    qed
    moreover have "vr_id v \<in> vr_id ` set ?V" 
      by (rule image_eqI [of _ _ "?f v"]) (use v ws in \<open>auto simp: set_upd vpc_key_def image_iff intro!: bexI [of _ v]\<close>)
    ultimately show ?thesis by (intro exI [of _ "?d1\<lparr>event_seq := event_seq ?d1 + 1, events := L\<rparr>"]) simp
  qed
qed

lemma recordVPCStatus_inv: "db_inv d \<Longrightarrow> tx_recordVPCStatus v st reason obs now d = Inr (u, d') \<Longrightarrow> db_inv d'"
proof -
  have "tx_keeps db_inv (tx_recordVPCStatus v st reason obs now)"
    unfolding tx_recordVPCStatus_def Let_def by (intro keeps)
  then show "db_inv d \<Longrightarrow> tx_recordVPCStatus v st reason obs now d = Inr (u, d') \<Longrightarrow> db_inv d'"
    unfolding tx_keeps_def by blast
qed

lemma recordChild_inv: "db_inv d \<Longrightarrow> recordChild st reason effect now c d = Inr (u, d') \<Longrightarrow> db_inv d'"
proof -
  have "tx_keeps db_inv (recordChild st reason effect now c)"
    unfolding recordChild_def tx_recordSubnetStatus_def Let_def by (intro keeps)
  then show "db_inv d \<Longrightarrow> recordChild st reason effect now c d = Inr (u, d') \<Longrightarrow> db_inv d'"
    unfolding tx_keeps_def by blast
qed

text \<open>A subnet under deletion has no instance and no interface, so its row can go.\<close>

lemma deleting_subnet_empty:
  assumes "db_inv d" and "s \<in> set (subnets d)" and "sr_deletion_requested s \<noteq> 0"
  shows "n \<in> set (instances d) \<Longrightarrow> ir_subnet_id n \<noteq> sr_id s" and "e \<in> set (enis d) \<Longrightarrow> er_subnet_id e \<noteq> sr_id s"
proof -
  have S: "subnets_ok (kernel_indexes d) (vpcs d) (subnets d)"
    and I: "instances_ok (kernel_indexes d) (subnets d) (enis d) (instances d)"
    and E: "enis_ok (kernel_indexes d) (subnets d) (instances d) (enis d)"
    using assms(1) by (simp_all add: db_inv_def)
  show inst: "ir_subnet_id n \<noteq> sr_id s" if n: "n \<in> set (instances d)" for n
  proof
    assume eq: "ir_subnet_id n = sr_id s"
    obtain x where "x \<in> set (subnets d)" "sr_id x = ir_subnet_id n" "sr_deletion_requested x = 0"
      using I n by (auto simp: instances_ok_def list_all_iff subnet_live_def)
    then show False using subnets_unique [OF S _ assms(2)] eq assms(3) by metis
  qed
  show "er_subnet_id e \<noteq> sr_id s" if "e \<in> set (enis d)"
    using E that inst by (fastforce simp: enis_ok_def list_all_iff owner_ok_def)
qed

lemma recordChild_reports:
  assumes inv: "db_inv d" and s: "s \<in> set (subnets d)" and "event_seq d < max_int64"
  shows "\<exists>d'. recordChild (effect_state effect) (effect_reason effect) effect now (subnet_of_row s) d = Inr ((), d') \<and>
    only_subnet (sr_id s) d d' \<and>
    (\<forall>r \<in> set (subnets d'). sr_id r = sr_id s \<longrightarrow> subnet_reported effect r \<and> sr_vpc_id r = sr_vpc_id s)"
proof (cases "sr_deletion_requested s = 0 \<or> effect \<noteq> None")
  case True
  have "effect_state effect \<in> {''pending'', ''available'', ''deleting'', ''failed''}" by (cases effect) simp_all
  from recordSubnetStatus_ok [OF assms this, of "effect_reason effect" "effect = None" now] True
  show ?thesis
    by (cases effect) (auto simp: recordChild_def subnet_of_row_def settled_subnet_def subnet_reported_def)
next
  case False
  then have none: "effect = None" and del: "sr_deletion_requested s \<noteq> 0" by simp_all
  let ?d1 = "d\<lparr>subnets := filter (\<lambda>r. \<not> subnet_key (sr_id s) defaultWorkspace r) (subnets d)\<rparr>"
  have step: "q_DeleteSubnet (sr_id s) defaultWorkspace d = Inr ((), ?d1)"
    using deleting_subnet_empty [OF inv s del] by (auto simp: q_DeleteSubnet_def subnet_key_def)
  obtain L where ev: "tx_AppendEvent defaultWorkspace ''subnet'' (sr_id s) ''deleted'' ''deleted'' (sr_generation s) [] now ?d1 =
      Inr ((), ?d1\<lparr>event_seq := event_seq ?d1 + 1, events := L\<rparr>)"
    by (rule AppendEvent_ok [OF inv_DeleteSubnet [OF inv step]]) (use assms(3) in simp)
  have ws: "sr_workspace_id r = defaultWorkspace" if "r \<in> set (subnets d)" for r
    by (rule subnet_rows(3) [OF inv that])
  have "recordChild (effect_state effect) (effect_reason effect) effect now (subnet_of_row s) d =
      Inr ((), ?d1\<lparr>event_seq := event_seq ?d1 + 1, events := L\<rparr>)"
    using none del step ev ws [OF s] by (simp add: recordChild_def subnet_of_row_def tx_bind_Inr)
  moreover have "only_subnet (sr_id s) d (?d1\<lparr>event_seq := event_seq ?d1 + 1, events := L\<rparr>)"
    by (auto simp: only_subnet_def subnet_key_def)
  ultimately show ?thesis using ws
    by (intro exI [of _ "?d1\<lparr>event_seq := event_seq ?d1 + 1, events := L\<rparr>"]) (auto simp: subnet_key_def)
qed

text \<open>The loop over the children writes each of them and leaves the rest.\<close>

lemma recordChildren_report:
  assumes "db_inv d" and "set ss \<subseteq> set (subnets d)" and "distinct (map sr_id ss)"
    and "event_seq d + int (length ss) \<le> max_int64"
  shows "\<exists>d'. tx_iter (recordChild (effect_state effect) (effect_reason effect) effect now) (map subnet_of_row ss) d = Inr ((), d') \<and>
    (\<forall>r. sr_id r \<notin> sr_id ` set ss \<longrightarrow> (r \<in> set (subnets d') \<longleftrightarrow> r \<in> set (subnets d))) \<and>
    (\<forall>r \<in> set (subnets d'). sr_id r \<in> sr_id ` set ss \<longrightarrow>
       subnet_reported effect r \<and> (\<exists>s \<in> set ss. sr_id s = sr_id r \<and> sr_vpc_id s = sr_vpc_id r)) \<and>
    vpcs d' = vpcs d \<and> event_seq d' \<le> event_seq d + int (length ss)"
  using assms
proof (induction ss arbitrary: d)
  case Nil
  then show ?case by (auto simp: tx_return_def)
next
  case (Cons s ss)
  obtain d1 where d1: "recordChild (effect_state effect) (effect_reason effect) effect now (subnet_of_row s) d = Inr ((), d1)"
      "only_subnet (sr_id s) d d1" "\<forall>r \<in> set (subnets d1). sr_id r = sr_id s \<longrightarrow> subnet_reported effect r \<and> sr_vpc_id r = sr_vpc_id s"
    using recordChild_reports [OF Cons.prems(1), of s effect now] Cons.prems(2,4) by auto
  have inv1: "db_inv d1"
    by (rule recordChild_inv [OF Cons.prems(1) d1(1)])
  have "r \<in> set (subnets d1)" if "r \<in> set ss" for r
    using d1(2) Cons.prems(2,3) that unfolding only_subnet_def by (metis image_eqI list.set_map distinct.simps(2) list.simps(9) list.set_intros(2) subsetD)
  then have "set ss \<subseteq> set (subnets d1)" by blast
  moreover have "event_seq d1 + int (length ss) \<le> max_int64" using d1(2) Cons.prems(4) by (simp add: only_subnet_def)
  ultimately obtain d' where d': "tx_iter (recordChild (effect_state effect) (effect_reason effect) effect now) (map subnet_of_row ss) d1 = Inr ((), d')"
      "\<forall>r. sr_id r \<notin> sr_id ` set ss \<longrightarrow> (r \<in> set (subnets d') \<longleftrightarrow> r \<in> set (subnets d1))"
      "\<forall>r \<in> set (subnets d'). sr_id r \<in> sr_id ` set ss \<longrightarrow>
         subnet_reported effect r \<and> (\<exists>s \<in> set ss. sr_id s = sr_id r \<and> sr_vpc_id s = sr_vpc_id r)"
      "vpcs d' = vpcs d1" "event_seq d' \<le> event_seq d1 + int (length ss)"
    using Cons.IH [OF inv1] Cons.prems(3) by auto
  have "tx_iter (recordChild (effect_state effect) (effect_reason effect) effect now) (map subnet_of_row (s # ss)) d = Inr ((), d')"
    using d1(1) d'(1) by (simp add: tx_bind_Inr)
  then show ?case using d1 d' Cons.prems(3) unfolding only_subnet_def
    by (intro exI [of _ d']) auto
qed


section \<open>One pass over a VPC\<close>

lemma store_GetVPC_cases:
  assumes "db_inv d"
  shows "(\<exists>v \<in> set (vpcs d). vr_id v = i \<and> store_GetVPC defaultWorkspace i d = Inr (vpc_of_row v)) \<or>
    ((\<forall>v \<in> set (vpcs d). vr_id v \<noteq> i) \<and> store_GetVPC defaultWorkspace i d = Inl (Wrapf (''get VPC '' @ i) ErrNoRows))"
proof -
  have V: "vpcs_ok (kernel_indexes d) (vpcs d)" using assms by (simp add: db_inv_def)
  have "store_GetVPC defaultWorkspace i d = tx_GetVPC defaultWorkspace i d"
    by (simp add: store_GetVPC_def tx_GetVPC_def)
  then show ?thesis
    using tx_GetVPC_cases [OF V, of i defaultWorkspace] vpc_rows(3) [OF assms] by (auto simp: vpc_key_def)
qed

lemma store_ListSubnetsByVPC_ok:
  assumes "db_inv d"
  shows "store_ListSubnetsByVPC i d = Inr (map subnet_of_row (q_ListSubnetsByVPC i d))"
proof -
  have S: "subnets_ok (kernel_indexes d) (vpcs d) (subnets d)" using assms by (simp add: db_inv_def)
  show ?thesis
    using tx_ListSubnetsByVPC_ok [OF S, of i] by (simp add: store_ListSubnetsByVPC_def tx_ListSubnetsByVPC_def)
qed

lemma children_distinct: "db_inv d \<Longrightarrow> distinct (map sr_id (q_ListSubnetsByVPC i d))"
  unfolding q_ListSubnetsByVPC_def db_inv_def subnets_ok_def
  by (metis (no_types, lifting) distinct_map_filter_key distinct_map distinct_sort set_sort inj_on_subset order_refl)

lemma deleting_vpc_empty:
  assumes "db_inv d" and "v \<in> set (vpcs d)" and "vr_deletion_requested v \<noteq> 0"
  shows "q_ListSubnetsByVPC (vr_id v) d = []"
proof -
  have False if s: "s \<in> set (subnets d)" "sr_vpc_id s = vr_id v" for s
  proof -
    have "subnets_ok (kernel_indexes d) (vpcs d) (subnets d)" using assms(1) by (simp add: db_inv_def)
    then obtain w where w: "w \<in> set (vpcs d)" "vr_id w = sr_vpc_id s" "vr_deletion_requested w = 0"
      using subnets_row [OF _ s(1)] by (auto simp: parent_ok_def)
    then show False using vpc_rows(2) [OF assms(1,2) w(1)] s(2) assms(3) by simp
  qed
  then have "set (q_ListSubnetsByVPC (vr_id v) d) = {}" by (auto simp: set_q_ListSubnetsByVPC)
  then show ?thesis by simp
qed

definition reported :: "string option \<Rightarrow> string \<Rightarrow> db \<Rightarrow> bool" where
  "reported effect i d \<longleftrightarrow>
     (\<forall>v \<in> set (vpcs d). vr_id v = i \<longrightarrow> vpc_reported effect v) \<and>
     (\<forall>s \<in> set (subnets d). sr_vpc_id s = i \<longrightarrow> subnet_reported effect s)"

definition only_network :: "string \<Rightarrow> db \<Rightarrow> db \<Rightarrow> bool" where
  "only_network i d d' \<longleftrightarrow>
     (\<forall>r. vr_id r \<noteq> i \<longrightarrow> (r \<in> set (vpcs d') \<longleftrightarrow> r \<in> set (vpcs d))) \<and>
     (\<forall>r. sr_vpc_id r \<noteq> i \<longrightarrow> (r \<in> set (subnets d') \<longleftrightarrow> r \<in> set (subnets d)))"

lemma sameDesiredChildren_refl: "sameDesiredChildren cs cs"
  by (simp add: sameDesiredChildren_def list.rel_refl)

lemma RecordTopology_reports:
  assumes inv: "db_inv d" and v: "v \<in> set (vpcs d)"
    and room: "event_seq d + 1 + int (length (q_ListSubnetsByVPC (vr_id v) d)) \<le> max_int64"
  shows "\<exists>d'. tx_RecordTopology now (vpc_of_row v) (map subnet_of_row (q_ListSubnetsByVPC (vr_id v) d)) effect d = Inr ((), d') \<and>
    reported effect (vr_id v) d' \<and> only_network (vr_id v) d d' \<and>
    (vr_id v \<in> vr_id ` set (vpcs d') \<longleftrightarrow> \<not> (vr_deletion_requested v \<noteq> 0 \<and> effect = None)) \<and>
    (\<forall>r \<in> set (vpcs d'). vr_id r = vr_id v \<longrightarrow> vr_short_index r = vr_short_index v) \<and>
    event_seq d' \<le> event_seq d + 1 + int (length (q_ListSubnetsByVPC (vr_id v) d))"
proof -
  let ?i = "vr_id v" and ?ss = "q_ListSubnetsByVPC (vr_id v) d"
  have V: "vpcs_ok (kernel_indexes d) (vpcs d)" and S: "subnets_ok (kernel_indexes d) (vpcs d) (subnets d)"
    using inv by (simp_all add: db_inv_def)
  have ws: "vr_workspace_id v = defaultWorkspace" by (rule vpc_rows(3) [OF inv v])
  have get: "tx_GetVPC defaultWorkspace ?i d = Inr (vpc_of_row v)"
    using tx_GetVPC_cases [OF V, of ?i defaultWorkspace] v ws vpc_rows(2) [OF inv v] by (auto simp: vpc_key_def)
  have list: "tx_ListSubnetsByVPC ?i d = Inr (map subnet_of_row ?ss)" by (rule tx_ListSubnetsByVPC_ok [OF S])
  have ids: "s \<in> set (subnets d) \<Longrightarrow> sr_id s \<in> sr_id ` set ?ss \<longleftrightarrow> sr_vpc_id s = ?i" for s
    using subnets_unique [OF S] by (auto simp: set_q_ListSubnetsByVPC)
  show ?thesis
  proof (cases "vr_deletion_requested v = 0 \<or> effect \<noteq> None")
    case True
    have fits: "event_seq d < max_int64" using room by simp
    have "effect_state effect \<in> {''pending'', ''available'', ''deleting'', ''failed''}" by (cases effect) simp_all
    from recordVPCStatus_ok [OF inv v fits this, of "effect_reason effect" "effect = None" now] True
    obtain d1 where d1: "tx_recordVPCStatus (vpc_of_row v) (effect_state effect) (effect_reason effect) (effect = None) now d = Inr ((), d1)"
        "only_vpc ?i d d1" "\<forall>r \<in> set (vpcs d1). vr_id r = ?i \<longrightarrow> vpc_reported effect r"
        "\<forall>r \<in> set (vpcs d1). vr_id r = ?i \<longrightarrow> vr_short_index r = vr_short_index v" "?i \<in> vr_id ` set (vpcs d1)"
      by (cases effect) (auto simp: settled_vpc_def vpc_reported_def)
    have inv1: "db_inv d1"
      using recordVPCStatus_inv [OF inv d1(1)] .
    have same: "subnets d1 = subnets d" using d1(2) by (simp add: only_vpc_def)
    obtain d2 where d2: "tx_iter (recordChild (effect_state effect) (effect_reason effect) effect now) (map subnet_of_row ?ss) d1 = Inr ((), d2)"
        "\<forall>r. sr_id r \<notin> sr_id ` set ?ss \<longrightarrow> (r \<in> set (subnets d2) \<longleftrightarrow> r \<in> set (subnets d1))"
        "\<forall>r \<in> set (subnets d2). sr_id r \<in> sr_id ` set ?ss \<longrightarrow>
           subnet_reported effect r \<and> (\<exists>s \<in> set ?ss. sr_id s = sr_id r \<and> sr_vpc_id s = sr_vpc_id r)"
        "vpcs d2 = vpcs d1" "event_seq d2 \<le> event_seq d1 + int (length ?ss)"
      using recordChildren_report [OF inv1, of ?ss effect now] children_distinct [OF inv] room d1(2) same
      by (auto simp: set_q_ListSubnetsByVPC only_vpc_def)
    have run: "tx_RecordTopology now (vpc_of_row v) (map subnet_of_row ?ss) effect d = Inr ((), d2)"
      using get list d1(1) d2(1) ws True sameDesiredChildren_refl
      by (auto simp: tx_RecordTopology_def tx_bind_Inr vpc_of_row_def Let_def)
    have child: "sr_vpc_id r = ?i \<longleftrightarrow> sr_id r \<in> sr_id ` set ?ss" if r: "r \<in> set (subnets d2)" for r
    proof (cases "sr_id r \<in> sr_id ` set ?ss")
      case True
      then obtain s where "s \<in> set ?ss" "sr_vpc_id s = sr_vpc_id r" using d2(3) r by blast
      then show ?thesis using True by (simp add: set_q_ListSubnetsByVPC)
    next
      case False
      then have "r \<in> set (subnets d)" using d2(2) same r by simp
      then show ?thesis using ids False by blast
    qed
    have "reported effect ?i d2" unfolding reported_def using d1(3) d2(3,4) child by auto
    moreover have "only_network ?i d d2"
      unfolding only_network_def using d1(2) d2(2,4) same child ids by (auto simp: only_vpc_def)
    moreover have "event_seq d2 \<le> event_seq d + 1 + int (length ?ss)"
      using d1(2) d2(5) by (simp add: only_vpc_def)
    ultimately show ?thesis using run True d1(4,5) d2(4) by auto
  next
    case False
    then have del: "vr_deletion_requested v \<noteq> 0" and ok: "effect = None" by simp_all
    let ?d1 = "d\<lparr>vpcs := filter (\<lambda>r. \<not> vpc_key ?i defaultWorkspace r) (vpcs d)\<rparr>"
    have ws_all: "vr_workspace_id r = defaultWorkspace" if "r \<in> set (vpcs d)" for r
      by (rule vpc_rows(3) [OF inv that])
    have none: "?ss = []" by (rule deleting_vpc_empty [OF inv v del])
    then have free: "sr_vpc_id s \<noteq> ?i" if "s \<in> set (subnets d)" for s
      using set_q_ListSubnetsByVPC [of ?i d] that by auto
    then have step: "q_DeleteVPC ?i defaultWorkspace d = Inr ((), ?d1)"
      by (auto simp: q_DeleteVPC_def vpc_key_def)
    obtain L where ev: "tx_AppendEvent defaultWorkspace ''vpc'' ?i ''deleted'' ''deleted'' (vr_generation v) [] now ?d1 =
        Inr ((), ?d1\<lparr>event_seq := event_seq ?d1 + 1, events := L\<rparr>)"
      by (rule AppendEvent_ok [OF inv_DeleteVPC [OF inv step]]) (use room in simp)
    have "tx_RecordTopology now (vpc_of_row v) (map subnet_of_row ?ss) effect d =
        Inr ((), ?d1\<lparr>event_seq := event_seq ?d1 + 1, events := L\<rparr>)"
      using get list ws del ok none step ev sameDesiredChildren_refl
      by (simp add: tx_RecordTopology_def tx_bind_Inr vpc_of_row_def)
    then show ?thesis
      using ws_all free none del ok
      by (intro exI [of _ "?d1\<lparr>event_seq := event_seq ?d1 + 1, events := L\<rparr>"])
        (auto simp: reported_def only_network_def vpc_key_def)
  qed
qed

end
