(* ===== verification/InstanceController.thy ===== *)
theory InstanceController
  imports NetworkConvergence Pager Effects
begin

text \<open>
  \<open>internal/reconcile/instance.go\<close>: the controller that turns instance rows into running
  containers. The interfaces \<open>InstanceNetwork\<close> and \<open>compute.Runtime\<close> are records of functions
  on a state \<open>'x\<close> outside the tables. Others commit at every gap between two accesses to
  the tables, as the environment says.
\<close>

section \<open>The queue\<close>

text \<open>The struct has the queue fields of \<open>Controller\<close>.\<close>

type_synonym InstanceController = Controller

definition NewInstances :: InstanceController where
  "NewInstances = \<lparr>c_pending = [], c_retries = [], c_wake = False\<rparr>"

definition i_Enqueue :: "string \<Rightarrow> InstanceController \<Rightarrow> InstanceController" where
  "i_Enqueue i c =
     (if i = [] then c
      else (let c = (if length (c_pending c) < queueLimit then c\<lparr>c_pending := List.insert i (c_pending c)\<rparr> else c) in
            c\<lparr>c_wake := True\<rparr>))"

definition i_pop :: "nat \<Rightarrow> InstanceController \<Rightarrow> string \<times> InstanceController" where
  "i_pop k c =
     (case c_pending c of
        [] \<Rightarrow> ([], c)
      | ps \<Rightarrow> (let i = ps ! (k mod length ps) in (i, c\<lparr>c_pending := remove1 i ps\<rparr>)))"

definition i_retry :: "int \<Rightarrow> string \<Rightarrow> InstanceController \<Rightarrow> InstanceController" where
  "i_retry now i c =
     (let entry = retry_entry i (c_retries c) in
      if length (c_retries c) \<ge> queueLimit \<and> re_attempt entry = 0 then c
      else (let attempt = re_attempt entry + 1;
                delay = backoff 1 attempt retryBase in
            c\<lparr>c_retries := retry_put i \<lparr>re_attempt = attempt, re_due = now + delay\<rparr> (c_retries c)\<rparr>))"

definition i_clearRetry :: "string \<Rightarrow> InstanceController \<Rightarrow> InstanceController" where
  "i_clearRetry i c = c\<lparr>c_retries := retry_delete i (c_retries c)\<rparr>"

definition i_enqueueDueRetries :: "int \<Rightarrow> string list \<Rightarrow> InstanceController \<Rightarrow> InstanceController" where
  "i_enqueueDueRetries now order c = fold (due_step now) order c"

lemma same_queue:
  "i_Enqueue = Enqueue" "i_pop = pop" "i_retry = retry" "i_clearRetry = clearRetry"
  "i_enqueueDueRetries = enqueueDueRetries"
  by (rule ext | simp add: i_Enqueue_def Enqueue_def i_pop_def pop_def i_retry_def retry_def i_clearRetry_def
      clearRetry_def i_enqueueDueRetries_def enqueueDueRetries_def)+

interpretation iq: work_queue c_pending c_retries i_Enqueue i_pop i_retry i_clearRetry i_enqueueDueRetries
  unfolding same_queue by (rule vq.work_queue_axioms)

section \<open>The interfaces\<close>

text \<open>\<open>Ready\<close> reads the tables; \<open>Start\<close> runs the hook, which reads them too.\<close>

record 'x InstanceNetwork =
  in_Ready :: "Instance \<Rightarrow> db \<Rightarrow> 'x \<Rightarrow> bool res"
  in_DeleteENI :: "VPC \<Rightarrow> ENI \<Rightarrow> ('x, unit) eff"

record 'x Runtime =
  rt_EnsureImage :: "string \<Rightarrow> ('x, unit) eff"
  rt_Create :: "Instance \<Rightarrow> ('x, string) eff"
  rt_Start :: "db \<Rightarrow> string \<Rightarrow> ('x, unit) eff"
  rt_Delete :: "string \<Rightarrow> ('x, unit) eff"
  rt_Inspect :: "string \<Rightarrow> ('x, bool) eff"

record 'x iworld =
  iw_db :: db
  iw_x :: 'x
  iw_ctl :: InstanceController

record inst_env =
  ie_between :: "nat \<Rightarrow> db \<Rightarrow> db"
  ie_fault :: "nat \<Rightarrow> fault"
  ie_ctx :: "goerr option"
  ie_now :: int
  ie_text :: "goerr \<Rightarrow> string"

definition on_x :: "('x, 'a) eff \<Rightarrow> ('x iworld, 'a) eff" where
  "on_x m w = (case m (iw_x w) of (r, x) \<Rightarrow> (r, w\<lparr>iw_x := x\<rparr>))"

definition on_db :: "(db \<Rightarrow> 'a res \<times> db) \<Rightarrow> ('x iworld, 'a) eff" where
  "on_db m w = (case m (iw_db w) of (r, d) \<Rightarrow> (r, w\<lparr>iw_db := d\<rparr>))"

definition on_ctl :: "(InstanceController \<Rightarrow> InstanceController) \<Rightarrow> ('x iworld, unit) eff" where
  "on_ctl f w = (Inr (), w\<lparr>iw_ctl := f (iw_ctl w)\<rparr>)"

definition gap :: "inst_env \<Rightarrow> nat \<Rightarrow> ('x iworld, unit) eff" where
  "gap env n w = (Inr (), w\<lparr>iw_db := ie_between env n (iw_db w)\<rparr>)"

section \<open>Failure\<close>

definition fail :: "inst_env \<Rightarrow> Instance \<Rightarrow> goerr \<Rightarrow> ('x iworld, unit) eff" where
  "fail env inst cause =
     eff_bind (eff_res (case ie_ctx env of Some e \<Rightarrow> Inl e | None \<Rightarrow> Inr ())) (\<lambda>_.
     eff_bind (gap env 9) (\<lambda>_.
     eff_bind (eff_try (on_db (store_RecordInstance (ie_fault env 9) (unix_seconds (ie_now env)) inst InstanceFailed
                                 (ie_text env cause) False))) (\<lambda>r.
     case r of
       Inl e \<Rightarrow>
         if err_is ErrStaleSnapshot e then on_ctl (i_Enqueue (inst_ID inst))
         else eff_res (Inl (Wrapf (''persist instance '' @ inst_ID inst @ '' failure'') e))
     | Inr _ \<Rightarrow> on_ctl (i_retry (ie_now env) (inst_ID inst)))))"

text \<open>\<open>if err != nil { return c.fail(ctx, instance, err) }\<close>, then the rest.\<close>

definition or_fail ::
  "inst_env \<Rightarrow> Instance \<Rightarrow> ('x iworld, 'a) eff \<Rightarrow> ('a \<Rightarrow> ('x iworld, unit) eff) \<Rightarrow> ('x iworld, unit) eff" where
  "or_fail env inst m f = eff_bind (eff_try m) (\<lambda>r. case r of Inl e \<Rightarrow> fail env inst e | Inr x \<Rightarrow> f x)"

section \<open>Termination\<close>

definition terminate :: "'x InstanceNetwork \<Rightarrow> 'x Runtime \<Rightarrow> inst_env \<Rightarrow> Instance \<Rightarrow> ('x iworld, unit) eff" where
  "terminate net rt env inst =
     or_fail env inst (if inst_RuntimeID inst \<noteq> [] then on_x (rt_Delete rt (inst_RuntimeID inst)) else eff_return ()) (\<lambda>_.
     eff_bind (gap env 1) (\<lambda>_.
     or_fail env inst (eff_read (\<lambda>w. store_GetSubnet (inst_WorkspaceID inst) (inst_SubnetID inst) (iw_db w))) (\<lambda>subnet.
     eff_bind (gap env 2) (\<lambda>_.
     or_fail env inst (eff_read (\<lambda>w. store_GetVPC (inst_WorkspaceID inst) (sub_VPCID subnet) (iw_db w))) (\<lambda>vpc.
     or_fail env inst (on_x (in_DeleteENI net vpc (inst_ENI inst))) (\<lambda>_.
     eff_bind (gap env 3) (\<lambda>_.
     eff_bind (eff_try (on_db (store_FinishInstanceTermination (ie_fault env 3) (unix_seconds (ie_now env)) inst))) (\<lambda>r.
     case r of
       Inl e \<Rightarrow> if err_is ErrStaleSnapshot e then on_ctl (i_Enqueue (inst_ID inst)) else eff_res (Inl e)
     | Inr _ \<Rightarrow> on_ctl (i_clearRetry (inst_ID inst))))))))))"

section \<open>Creation\<close>

definition createdDuringStateChange ::
  "'x Runtime \<Rightarrow> inst_env \<Rightarrow> Instance \<Rightarrow> string \<Rightarrow> goerr \<Rightarrow> ('x iworld, unit) eff" where
  "createdDuringStateChange rt env inst runtimeID recordErr =
     eff_bind (gap env 3) (\<lambda>_.
     eff_bind (if err_is ErrStaleSnapshot recordErr
               then eff_try (on_db (store_RetainTerminatingRuntimeID (inst_ID inst) runtimeID))
               else eff_return (Inl recordErr)) (\<lambda>retained.
     eff_bind (eff_try (on_x (rt_Delete rt runtimeID))) (\<lambda>deleted.
     case (retained, deleted) of
       (Inr _, Inl e) \<Rightarrow>
         eff_bind (gap env 4) (\<lambda>_.
         eff_bind (eff_try (eff_read (\<lambda>w. store_GetInstance (ie_fault env 4) ''default'' (inst_ID inst) (iw_db w)))) (\<lambda>got.
         case got of
           Inl loadErr \<Rightarrow> eff_res (Inl (Wrap2 (''cleanup raced runtime '' @ inst_ID inst) e loadErr))
         | Inr current \<Rightarrow> fail env current e))
     | (Inl _, Inl e) \<Rightarrow> eff_res (Inl (Wrap2 (''record runtime '' @ inst_ID inst) recordErr e))
     | (_, Inr _) \<Rightarrow> on_ctl (i_Enqueue (inst_ID inst)))))"

definition start_instance :: "'x Runtime \<Rightarrow> inst_env \<Rightarrow> string \<Rightarrow> string \<Rightarrow> ('x iworld, unit) eff" where
  "start_instance rt env i runtimeID =
     eff_bind (gap env 4) (\<lambda>_.
     eff_bind (eff_wrap (''reload instance '' @ i @ '' after create'')
                 (eff_read (\<lambda>w. store_GetInstance (ie_fault env 5) ''default'' i (iw_db w)))) (\<lambda>inst.
     if inst_DeletionRequested inst then on_ctl (i_Enqueue i)
     else
       eff_bind (gap env 5) (\<lambda>_.
       or_fail env inst (\<lambda>w. on_x (rt_Start rt (iw_db w) runtimeID) w) (\<lambda>_.
       or_fail env inst (on_x (rt_Inspect rt runtimeID)) (\<lambda>running.
       if \<not> running then fail env inst (Errorf ''runtime did not report a running instance after start'')
       else
         eff_bind (gap env 6) (\<lambda>_.
         eff_bind (eff_try (on_db (store_RecordInstance (ie_fault env 6) (unix_seconds (ie_now env)) inst
                                     InstanceRunning [] True))) (\<lambda>r.
         case r of
           Inl e \<Rightarrow> if err_is ErrStaleSnapshot e then on_ctl (i_Enqueue i) else eff_res (Inl e)
         | Inr _ \<Rightarrow> on_ctl (i_clearRetry i))))))))"

definition create_instance :: "'x Runtime \<Rightarrow> inst_env \<Rightarrow> string \<Rightarrow> Instance \<Rightarrow> ('x iworld, unit) eff" where
  "create_instance rt env i inst =
     or_fail env inst (on_x (rt_EnsureImage rt ''nephos-ubuntu:dev'')) (\<lambda>_.
     or_fail env inst (on_x (rt_Create rt inst)) (\<lambda>runtimeID.
     eff_bind (gap env 2) (\<lambda>_.
     eff_bind (eff_try (on_db (store_RecordRuntimeID (inst_ID inst) (inst_Generation inst) runtimeID))) (\<lambda>r.
     case r of
       Inl e \<Rightarrow> createdDuringStateChange rt env inst runtimeID e
     | Inr _ \<Rightarrow> start_instance rt env i runtimeID))))"

section \<open>One reconciliation\<close>

definition i_reconcileLocked ::
  "'x InstanceNetwork \<Rightarrow> 'x Runtime \<Rightarrow> inst_env \<Rightarrow> string \<Rightarrow> ('x iworld, unit) eff" where
  "i_reconcileLocked net rt env i =
     eff_bind (gap env 0) (\<lambda>_.
     eff_bind (eff_try (eff_read (\<lambda>w. store_GetInstance (ie_fault env 0) ''default'' i (iw_db w)))) (\<lambda>got.
     case got of
       Inl e \<Rightarrow>
         if err_is ErrNoRows e then on_ctl (i_clearRetry i)
         else eff_res (Inl (Wrapf (''load instance '' @ i) e))
     | Inr inst \<Rightarrow>
         if inst_DeletionRequested inst then terminate net rt env inst
         else
           eff_bind (gap env 1) (\<lambda>_.
           or_fail env inst (eff_read (\<lambda>w. in_Ready net inst (iw_db w) (iw_x w))) (\<lambda>ready.
           if \<not> ready then eff_return ()
           else if inst_State inst = InstanceRunning \<and> inst_ObservedGeneration inst = inst_Generation inst \<and>
                   inst_RuntimeID inst \<noteq> []
           then
             or_fail env inst (on_x (rt_Inspect rt (inst_RuntimeID inst))) (\<lambda>running.
             if running then on_ctl (i_clearRetry i) else create_instance rt env i inst)
           else create_instance rt env i inst))))"

section \<open>The sweep and the loop\<close>

text \<open>
  Each page is a query of its own; \<open>n\<close> bounds the number of pages. The environment before a
  page is filed under the page's cursor.
\<close>

fun i_Sweep ::
  "'x InstanceNetwork \<Rightarrow> 'x Runtime \<Rightarrow> (string \<Rightarrow> inst_env) \<Rightarrow> fault \<Rightarrow> nat \<Rightarrow> string \<Rightarrow> ('x iworld, unit) eff" where
  "i_Sweep net rt envs f 0 after = eff_res (Inl OutOfFuel)"
| "i_Sweep net rt envs f (Suc n) after =
     eff_bind (gap (envs after) 10) (\<lambda>_.
     eff_bind (eff_wrap ''list desired instances''
                 (eff_read (\<lambda>w. store_ListInstancePage f ''default'' after 100 (iw_db w)))) (\<lambda>page.
     if page = [] then eff_return ()
     else
       eff_bind (eff_iter (\<lambda>inst. i_reconcileLocked net rt (envs (inst_ID inst)) (inst_ID inst)) page) (\<lambda>_.
       i_Sweep net rt envs f n (inst_ID (last page)))))"

datatype i_run_event = ICtxDone goerr | IWoken | IRetryTick "string list" | IResyncTick "string \<Rightarrow> inst_env" fault nat

definition i_run_drain ::
  "'x InstanceNetwork \<Rightarrow> 'x Runtime \<Rightarrow> nat \<Rightarrow> goerr option \<Rightarrow> inst_env \<Rightarrow> 'x iworld \<Rightarrow> run_pc \<times> 'x iworld" where
  "i_run_drain net rt pick ctx env w =
     (case i_pop pick (iw_ctl w) of
        (i, c) \<Rightarrow>
          (let w = w\<lparr>iw_ctl := c\<rparr> in
           if i = [] then (Waiting, w)
           else
             (case ctx of
                Some e \<Rightarrow> (Returned e, w)
              | None \<Rightarrow>
                  (case i_reconcileLocked net rt env i w of
                     (Inl e, w') \<Rightarrow> (Returned e, w')
                   | (Inr _, w') \<Rightarrow> (Draining, w')))))"

definition i_run_wait ::
  "'x InstanceNetwork \<Rightarrow> 'x Runtime \<Rightarrow> int \<Rightarrow> i_run_event \<Rightarrow> 'x iworld \<Rightarrow> run_pc \<times> 'x iworld" where
  "i_run_wait net rt now ev w =
     (case ev of
        ICtxDone e \<Rightarrow> (Returned e, w)
      | IWoken \<Rightarrow> (if c_wake (iw_ctl w) then (Draining, w\<lparr>iw_ctl := (iw_ctl w)\<lparr>c_wake := False\<rparr>\<rparr>) else (Waiting, w))
      | IRetryTick order \<Rightarrow> (Draining, w\<lparr>iw_ctl := i_enqueueDueRetries now order (iw_ctl w)\<rparr>)
      | IResyncTick envs f n \<Rightarrow>
          (case i_Sweep net rt envs f n [] w of
             (Inl e, w') \<Rightarrow> (Returned e, w')
           | (Inr _, w') \<Rightarrow> (Draining, w')))"

section \<open>The network as the daemon wires it\<close>

text \<open>\<open>cmd/nephosd/instance_network.go\<close>; the two reads see what is committed in between.\<close>

definition Ready :: "(db \<Rightarrow> db) \<Rightarrow> Instance \<Rightarrow> db \<Rightarrow> bool res" where
  "Ready between inst d =
     res_bind (store_GetSubnet (inst_WorkspaceID inst) (inst_SubnetID inst) d) (\<lambda>subnet.
     res_bind (store_GetVPC (inst_WorkspaceID inst) (sub_VPCID subnet) (between d)) (\<lambda>vpc.
     Inr (\<not> sub_DeletionRequested subnet \<and> \<not> vpc_DeletionRequested vpc \<and>
          sub_State subnet = StateAvailable \<and> vpc_State vpc = StateAvailable \<and>
          sub_ObservedGeneration subnet = sub_Generation subnet \<and>
          vpc_ObservedGeneration vpc = vpc_Generation vpc)))"

end
