(* ===== verification/InstanceConvergence.thy ===== *)
theory InstanceConvergence
  imports InstanceController
begin

text \<open>
  What the instance controller achieves: its writes keep the invariant whatever others
  commit meanwhile; an undisturbed pass with a working runtime makes a live instance run
  and removes a terminated one; every failure is recorded and retried later.
\<close>

section \<open>Writes keep the invariant\<close>

lemma keeps_on_x [eff_keep]: "eff_keeps (\<lambda>w. P (iw_db w)) (on_x m)"
  by (auto simp: eff_keeps_def on_x_def split: prod.splits)

lemma keeps_on_x_read [eff_keep]: "eff_keeps (\<lambda>w. P (iw_db w)) (\<lambda>w. on_x (m w) w)"
  by (auto simp: eff_keeps_def on_x_def split: prod.splits)

lemma keeps_on_ctl [eff_keep]: "eff_keeps (\<lambda>w. P (iw_db w)) (on_ctl f)"
  by (auto simp: eff_keeps_def on_ctl_def)

lemma keeps_on_db: "(\<And>d. P d \<Longrightarrow> P (snd (m d))) \<Longrightarrow> eff_keeps (\<lambda>w. P (iw_db w)) (on_db m)"
  by (auto simp: eff_keeps_def on_db_def split: prod.splits) (metis snd_conv)

lemma keeps_gap: "(\<And>n d. P d \<Longrightarrow> P (ie_between env n d)) \<Longrightarrow> eff_keeps (\<lambda>w. P (iw_db w)) (gap env n)"
  by (auto simp: eff_keeps_def gap_def)

lemmas keeps_writes [eff_keep] =
  keeps_on_db [where P = db_inv, OF store_RecordInstance_keeps]
  keeps_on_db [where P = db_inv, OF store_FinishInstanceTermination_keeps]
  keeps_on_db [where P = db_inv, OF store_RecordRuntimeID_keeps]
  keeps_on_db [where P = db_inv, OF store_RetainTerminatingRuntimeID_keeps]

lemmas pass_defs = i_reconcileLocked_def create_instance_def start_instance_def createdDuringStateChange_def
  terminate_def or_fail_def fail_def

lemma i_reconcile_keeps:
  assumes "\<And>n d. db_inv d \<Longrightarrow> db_inv (ie_between env n d)"
  shows "eff_keeps (\<lambda>w. db_inv (iw_db w)) (i_reconcileLocked net rt env i)"
proof -
  note g = keeps_gap [where P = db_inv, OF assms]
  show ?thesis unfolding pass_defs prod.case by (intro eff_keep g)
qed

section \<open>Rows\<close>

lemma instance_rows:
  assumes "db_inv d" and "r \<in> set (instances d)"
  shows "irow_ok (kernel_indexes d) r" and "x \<in> set (instances d) \<Longrightarrow> ir_id x = ir_id r \<Longrightarrow> x = r"
    and "ir_workspace_id r = defaultWorkspace"
proof -
  have I: "instances_ok (kernel_indexes d) (subnets d) (enis d) (instances d)" using assms(1) by (simp add: db_inv_def)
  show "irow_ok (kernel_indexes d) r" using I assms(2) by (simp add: instances_ok_def list_all_iff)
  then show "ir_workspace_id r = defaultWorkspace" by (simp add: irow_ok_def)
  show "x = r" if "x \<in> set (instances d)" "ir_id x = ir_id r"
    using instances_unique [OF I that(1) assms(2) that(2)] .
qed

lemma primary_eni_row:
  assumes "db_inv d" and "r \<in> set (instances d)"
  shows "primary_eni r d \<in> set (enis d)" and "er_instance_id (primary_eni r d) = ir_id r"
    and "erow_ok (kernel_indexes d) (primary_eni r d)"
    and "e \<in> set (enis d) \<Longrightarrow> er_instance_id e = ir_id r \<Longrightarrow> e = primary_eni r d"
    and "e \<in> set (enis d) \<Longrightarrow> er_id e = er_id (primary_eni r d) \<Longrightarrow> e = primary_eni r d"
proof -
  have E: "enis_ok (kernel_indexes d) (subnets d) (instances d) (enis d)"
    and I: "instances_ok (kernel_indexes d) (subnets d) (enis d) (instances d)"
    using assms(1) by (simp_all add: db_inv_def)
  obtain y where "y \<in> set (enis d)" "er_instance_id y = ir_id r"
    using I assms(2) by (auto simp: instances_ok_def list_all_iff has_eni_def)
  then have "filter (\<lambda>e. er_instance_id e = ir_id r) (enis d) \<noteq> []" by (auto simp: filter_empty_conv)
  then have "primary_eni r d \<in> set (filter (\<lambda>e. er_instance_id e = ir_id r) (enis d))"
    unfolding primary_eni_def by (rule hd_in_set)
  then show p: "primary_eni r d \<in> set (enis d)" and q: "er_instance_id (primary_eni r d) = ir_id r" by simp_all
  show "erow_ok (kernel_indexes d) (primary_eni r d)" using E p by (simp add: enis_ok_def list_all_iff)
  show "e = primary_eni r d" if "e \<in> set (enis d)" "er_instance_id e = ir_id r"
    using E that p q by (auto simp: enis_ok_def dest: distinct_map_unique)
  show "e = primary_eni r d" if "e \<in> set (enis d)" "er_id e = er_id (primary_eni r d)"
    using E that p by (auto simp: enis_ok_def dest: distinct_map_unique)
qed

abbreviation snapshot :: "instance_row \<Rightarrow> db \<Rightarrow> Instance" where
  "snapshot r d \<equiv> instance_of_rows r (primary_eni r d)"

lemma tx_GetInstance_ok:
  assumes "db_inv d" and "r \<in> set (instances d)"
  shows "tx_GetInstance defaultWorkspace (ir_id r) d = Inr (snapshot r d)"
proof -
  have "q_GetInstance (ir_id r) defaultWorkspace d = Inr r"
    unfolding q_GetInstance_def
    by (rule one_row_unique) (use assms instance_rows [OF assms] in \<open>auto simp: instance_key_def\<close>)
  then show ?thesis using instanceFromRow_primary [OF assms] by (simp add: tx_GetInstance_def)
qed

lemma store_GetInstance_ok:
  "db_inv d \<Longrightarrow> r \<in> set (instances d) \<Longrightarrow> store_GetInstance NoFault defaultWorkspace (ir_id r) d = Inr (snapshot r d)"
  using tx_GetInstance_ok by (simp add: store_GetInstance_def WithTx_def tx_read_def)

lemma filter_unique:
  assumes "distinct (map k xs)" and "r \<in> set xs" and "P r" and "\<And>x. P x \<Longrightarrow> k x = k r"
  shows "filter P xs = [r]"
  using assms
proof (induction xs)
  case (Cons x xs)
  show ?case
  proof (cases "x = r")
    case True
    then have "\<not> P y" if "y \<in> set xs" for y
      using Cons.prems(1) Cons.prems(4) [of y] that by (metis distinct.simps(2) image_eqI list.set_map list.simps(9))
    then show ?thesis using True Cons.prems(3) by (simp add: filter_empty_conv)
  next
    case False
    then have "r \<in> set xs" using Cons.prems(2) by simp
    then have "k x \<noteq> k r" using Cons.prems(1) by force
    then have "\<not> P x" using Cons.prems(4) by blast
    moreover have "filter P xs = [r]"
      by (rule Cons.IH [OF _ \<open>r \<in> set xs\<close> Cons.prems(3,4)]) (use Cons.prems(1) in simp)
    ultimately show ?thesis by simp
  qed
qed simp

section \<open>Recording the container's identity\<close>

definition with_runtime :: "string \<Rightarrow> string \<Rightarrow> db \<Rightarrow> db" where
  "with_runtime rid i d = d\<lparr>instances := upd (\<lambda>r. ir_id r = i) (\<lambda>r. r\<lparr>ir_runtime_id := Some rid\<rparr>) (instances d)\<rparr>"

lemma RecordRuntimeID_ok:
  assumes "db_inv d" and "r \<in> set (instances d)" and "ir_deletion_requested r = 0" and "runtime_free rid r" and "rid \<noteq> []"
  shows "store_RecordRuntimeID (ir_id r) (ir_generation r) rid d = (Inr (), with_runtime rid (ir_id r) d)"
proof -
  let ?P = "\<lambda>x. ir_id x = ir_id r \<and> ir_generation x = ir_generation r \<and> ir_deletion_requested x = 0 \<and> runtime_free rid x"
  have "distinct (map ir_id (instances d))" using assms(1) by (simp add: db_inv_def instances_ok_def)
  then have "filter ?P (instances d) = [r]" by (rule filter_unique [OF _ assms(2)]) (use assms in simp_all)
  moreover have "upd ?P (\<lambda>x. x\<lparr>ir_runtime_id := Some rid\<rparr>) (instances d) =
      upd (\<lambda>x. ir_id x = ir_id r) (\<lambda>x. x\<lparr>ir_runtime_id := Some rid\<rparr>) (instances d)"
    unfolding upd_def using instance_rows(2) [OF assms(1,2)] assms(3,4) by (intro map_cong) auto
  ultimately show ?thesis
    using assms(5) by (simp add: store_RecordRuntimeID_def q_RecordRuntimeID_def autocommit_def tx_wrap_def with_runtime_def)
qed

text \<open>An identity that is already there is never overwritten.\<close>

lemma RecordRuntimeID_taken:
  assumes "db_inv d" and "r \<in> set (instances d)" and "\<not> runtime_free rid r" and "rid \<noteq> []"
  shows "store_RecordRuntimeID (ir_id r) g rid d = (Inl ErrStaleSnapshot, d)"
proof -
  let ?P = "\<lambda>x. ir_id x = ir_id r \<and> ir_generation x = g \<and> ir_deletion_requested x = 0 \<and> runtime_free rid x"
  have no: "\<not> ?P x" if "x \<in> set (instances d)" for x using instance_rows(2) [OF assms(1,2) that] assms(3) by auto
  then have "filter ?P (instances d) = []" by (simp add: filter_empty_conv)
  moreover have "upd ?P (\<lambda>x. x\<lparr>ir_runtime_id := Some rid\<rparr>) (instances d) = instances d"
    unfolding upd_def by (rule map_idI) (use no in auto)
  ultimately show ?thesis
    using assms(4) by (simp add: store_RecordRuntimeID_def q_RecordRuntimeID_def autocommit_def tx_wrap_def)
qed

lemma RetainTerminatingRuntimeID_refused:
  assumes "db_inv d" and "r \<in> set (instances d)" and "ir_deletion_requested r = 0 \<or> ir_runtime_id r \<noteq> None" and "rid \<noteq> []"
  shows "store_RetainTerminatingRuntimeID (ir_id r) rid d = (Inl ErrStaleSnapshot, d)"
proof -
  let ?P = "\<lambda>x. ir_id x = ir_id r \<and> ir_deletion_requested x = 1 \<and> ir_runtime_id x = None"
  have no: "\<not> ?P x" if "x \<in> set (instances d)" for x using instance_rows(2) [OF assms(1,2) that] assms(3) by auto
  then have "filter ?P (instances d) = []" by (simp add: filter_empty_conv)
  moreover have "upd ?P (\<lambda>x. x\<lparr>ir_runtime_id := Some rid\<rparr>) (instances d) = instances d"
    unfolding upd_def by (rule map_idI) (use no in auto)
  ultimately show ?thesis
    using assms(4) by (simp add: store_RetainTerminatingRuntimeID_def q_RetainTerminatingRuntimeID_def autocommit_def tx_wrap_def)
qed


section \<open>Recording an outcome\<close>

definition only_instance :: "string \<Rightarrow> db \<Rightarrow> db \<Rightarrow> bool" where
  "only_instance i d d' \<longleftrightarrow>
     (\<forall>x. ir_id x \<noteq> i \<longrightarrow> (x \<in> set (instances d') \<longleftrightarrow> x \<in> set (instances d))) \<and>
     vpcs d' = vpcs d \<and> subnets d' = subnets d \<and> event_seq d' \<le> event_seq d + 1"

lemma RecordInstance_steps:
  assumes "tx_GetInstance (inst_WorkspaceID s) (inst_ID s) d = Inr s" and "sameInstanceDecision s s"
    and "\<not> (inst_State s = status \<and> inst_StateReason s = reason \<and>
      inst_ObservedGeneration s = (if observed then inst_Generation s else inst_ObservedGeneration s))"
    and "q_UpdateInstanceStatus status reason (if observed then inst_Generation s else inst_ObservedGeneration s) now
      (inst_ID s) (inst_WorkspaceID s) d = Inr ((), d1)"
    and "\<not> inst_DeletionRequested s \<Longrightarrow> q_UpdateInstanceENIStatus (if observed then StateAvailable else StateFailed) reason
      (if observed then eni_Generation (inst_ENI s) else eni_ObservedGeneration (inst_ENI s)) now
      (eni_ID (inst_ENI s)) (inst_WorkspaceID s) d1 = Inr ((), d2)"
    and "inst_DeletionRequested s \<Longrightarrow> d2 = d1"
    and "tx_AppendEvent (inst_WorkspaceID s) ''instance'' (inst_ID s) ''status'' status (inst_Generation s) reason now d2 = Inr ((), d3)"
  shows "tx_RecordInstance now s status reason observed d = Inr ((), d3)"
  unfolding tx_RecordInstance_def Let_def tx_bind_def tx_try_def tx_guard_def tx_wrap_def tx_return_def
  using assms by (cases "inst_DeletionRequested s"; cases observed) auto

lemma RecordInstance_ok:
  assumes inv: "db_inv d" and r: "r \<in> set (instances d)" and room: "event_seq d < max_int64"
    and st: "status = InstanceRunning \<or> status = InstanceFailed"
    and obs: "observed \<Longrightarrow> status = InstanceRunning \<and> ir_runtime_id r \<noteq> None \<and> ir_deletion_requested r = 0"
  shows "\<exists>d' x. store_RecordInstance NoFault now (snapshot r d) status reason observed d = (Inr (), d') \<and>
    only_instance (ir_id r) d d' \<and> x \<in> set (instances d') \<and> ir_id x = ir_id r \<and> ir_state x = status \<and>
    ir_state_reason x = reason \<and> ir_generation x = ir_generation r \<and>
    ir_observed_generation x = (if observed then ir_generation r else ir_observed_generation r) \<and>
    ir_deletion_requested x = ir_deletion_requested r \<and> ir_runtime_id x = ir_runtime_id r"
proof -
  let ?g = "if observed then ir_generation r else ir_observed_generation r"
  let ?e = "primary_eni r d"
  let ?s = "snapshot r d"
  note row = instance_rows [OF inv r] and eni = primary_eni_row [OF inv r]
  have get: "tx_GetInstance defaultWorkspace (ir_id r) d = Inr ?s" by (rule tx_GetInstance_ok [OF inv r])
  have ok: "instance_check r" "erow_ok (kernel_indexes d) ?e" using row(1) eni(3) by (simp_all add: irow_ok_def)
  have sel: "inst_ID ?s = ir_id r" "inst_WorkspaceID ?s = defaultWorkspace" "inst_State ?s = ir_state r"
    "inst_StateReason ?s = ir_state_reason r" "inst_Generation ?s = ir_generation r"
    "inst_ObservedGeneration ?s = ir_observed_generation r" "inst_DeletionRequested ?s = (ir_deletion_requested r \<noteq> 0)"
    "eni_ID (inst_ENI ?s) = er_id ?e" "eni_Generation (inst_ENI ?s) = er_generation ?e"
    "eni_ObservedGeneration (inst_ENI ?s) = er_observed_generation ?e"
    using row(3) by (simp_all add: instance_of_rows_def)
  have same: "sameInstanceDecision ?s ?s" by (simp add: sameInstanceDecision_def)
  have pre: "store_RecordInstance NoFault now ?s status reason observed d =
      WithTx NoFault (tx_RecordInstance now ?s status reason observed) d"
  proof -
    have "inst_RuntimeID ?s \<noteq> []" if observed using obs [OF that] row(1) by (auto simp: instance_of_rows_def irow_ok_def)
    then show ?thesis using st obs sel(7) by (auto simp: store_RecordInstance_def)
  qed
  show ?thesis
  proof (cases "ir_state r = status \<and> ir_state_reason r = reason \<and> ir_observed_generation r = ?g")
    case True
    then have "tx_RecordInstance now ?s status reason observed d = Inr ((), d)"
      unfolding tx_RecordInstance_def by (auto simp: tx_bind_Inr sel get same Let_def)
    then show ?thesis using True r pre by (intro exI [of _ d] exI [of _ r]) (auto simp: WithTx_def only_instance_def)
  next
    case False
    let ?f = "\<lambda>x. x\<lparr>ir_state := status, ir_state_reason := reason, ir_observed_generation := ?g, ir_updated_at := now\<rparr>"
    let ?N = "upd (instance_key (ir_id r) defaultWorkspace) ?f (instances d)"
    let ?d1 = "d\<lparr>instances := ?N\<rparr>"
    have key: "instance_key (ir_id r) defaultWorkspace x \<longleftrightarrow> x = r" if "x \<in> set (instances d)" for x
      using row that instance_rows(3) [OF inv that] by (auto simp: instance_key_def)
    have "list_all instance_check ?N"
    proof (rule list_all_upd)
      show "list_all instance_check (instances d)"
        using instance_rows(1) [OF inv] by (auto simp: list_all_iff irow_ok_def)
      show "instance_check (?f x)" if "x \<in> set (instances d)" "instance_key (ir_id r) defaultWorkspace x" for x
        using ok(1) key that st by (auto simp: instance_check_def generation_check_def)
    qed
    then have u1: "q_UpdateInstanceStatus status reason ?g now (ir_id r) defaultWorkspace d = Inr ((), ?d1)"
      by (simp add: q_UpdateInstanceStatus_def)
    have inv1: "db_inv ?d1" by (rule inv_UpdateInstanceStatus [OF inv u1])
    let ?h = "if observed then er_generation ?e else er_observed_generation ?e"
    let ?st = "if observed then StateAvailable else StateFailed"
    let ?u = "\<lambda>x. x\<lparr>er_state := ?st, er_state_reason := reason, er_observed_generation := ?h, er_updated_at := now\<rparr>"
    let ?E = "upd (eni_key (er_id ?e) defaultWorkspace) ?u (enis d)"
    have "list_all eni_check ?E"
    proof (rule list_all_upd)
      show "list_all eni_check (enis d)" using inv by (auto simp: db_inv_def enis_ok_def erow_ok_def list_all_iff)
      show "eni_check (?u x)" if "x \<in> set (enis d)" "eni_key (er_id ?e) defaultWorkspace x" for x
        using ok(2) eni(5) [of x] that by (auto simp: eni_check_def erow_ok_def generation_check_def eni_key_def)
    qed
    then have u2: "q_UpdateInstanceENIStatus ?st reason ?h now (er_id ?e) defaultWorkspace ?d1 = Inr ((), ?d1\<lparr>enis := ?E\<rparr>)"
      by (simp add: q_UpdateInstanceENIStatus_def)
    let ?d2 = "if ir_deletion_requested r \<noteq> 0 then ?d1 else ?d1\<lparr>enis := ?E\<rparr>"
    have inv2: "db_inv ?d2" using inv1 inv_UpdateInstanceENIStatus [OF inv1 u2] by simp
    obtain L where ev: "tx_AppendEvent defaultWorkspace ''instance'' (ir_id r) ''status'' status (ir_generation r) reason now ?d2 =
        Inr ((), ?d2\<lparr>event_seq := event_seq ?d2 + 1, events := L\<rparr>)"
      by (rule AppendEvent_ok [OF inv2]) (use room in simp)
    let ?d3 = "?d2\<lparr>event_seq := event_seq ?d2 + 1, events := L\<rparr>"
    have "tx_RecordInstance now ?s status reason observed d = Inr ((), ?d3)"
    proof (rule RecordInstance_steps [of ?s d status reason observed now ?d1 ?d2], unfold sel)
      show "q_UpdateInstanceENIStatus ?st reason ?h now (er_id ?e) defaultWorkspace ?d1 = Inr ((), ?d2)"
        if "\<not> ir_deletion_requested r \<noteq> 0"
      proof -
        have d2: "?d2 = ?d1\<lparr>enis := ?E\<rparr>" using that by simp
        show ?thesis unfolding d2 by (rule u2)
      qed
    qed (rule get same False u1 ev | simp)+
    moreover have "only_instance (ir_id r) d ?d3"
      by (auto simp: only_instance_def set_upd instance_key_def image_iff split: if_splits)
    moreover have "?f r \<in> set (instances ?d3)" using r key by (auto simp: set_upd image_iff intro!: bexI [of _ r])
    ultimately show ?thesis using pre by (intro exI [of _ ?d3] exI [of _ "?f r"]) (simp add: WithTx_def)
  qed
qed

lemma FinishInstanceTermination_ok:
  assumes inv: "db_inv d" and r: "r \<in> set (instances d)" and room: "event_seq d < max_int64"
    and del: "ir_deletion_requested r \<noteq> 0"
  shows "\<exists>d'. store_FinishInstanceTermination NoFault now (snapshot r d) d = (Inr (), d') \<and>
    only_instance (ir_id r) d d' \<and> (\<forall>x \<in> set (instances d'). ir_id x \<noteq> ir_id r) \<and>
    (\<forall>e \<in> set (enis d'). er_instance_id e \<noteq> ir_id r)"
proof -
  let ?e = "primary_eni r d" and ?s = "snapshot r d"
  note row = instance_rows [OF inv r] and eni = primary_eni_row [OF inv r]
  have get: "tx_GetInstance defaultWorkspace (ir_id r) d = Inr ?s" by (rule tx_GetInstance_ok [OF inv r])
  have sel: "inst_ID ?s = ir_id r" "inst_WorkspaceID ?s = defaultWorkspace" "inst_Generation ?s = ir_generation r"
    "inst_DeletionRequested ?s" "eni_ID (inst_ENI ?s) = er_id ?e"
    using row(3) del by (simp_all add: instance_of_rows_def)
  have ews: "er_workspace_id e = defaultWorkspace" if "e \<in> set (enis d)" for e
    using inv that by (auto simp: db_inv_def enis_ok_def erow_ok_def list_all_iff)
  let ?d1 = "d\<lparr>enis := filter (\<lambda>x. \<not> eni_key (er_id ?e) defaultWorkspace x) (enis d)\<rparr>"
  have gone: "er_instance_id x \<noteq> ir_id r" if "x \<in> set (enis ?d1)" for x
    using that eni(4) [of x] ews [of x] by (auto simp: eni_key_def)
  let ?d2 = "?d1\<lparr>instances := filter (\<lambda>x. \<not> instance_key (ir_id r) defaultWorkspace x) (instances d)\<rparr>"
  have q1: "q_DeleteInstanceENI (er_id ?e) defaultWorkspace d = Inr ((), ?d1)" by (simp add: q_DeleteInstanceENI_def)
  have q2: "q_DeleteInstance (ir_id r) defaultWorkspace ?d1 = Inr ((), ?d2)"
    using gone by (auto simp: q_DeleteInstance_def instance_key_def)
  have inv2: "db_inv ?d2" using inv_DeleteInstanceWithENI [OF inv r refl eni(1,2)] q1 q2 by simp
  obtain L where ev: "tx_AppendEvent defaultWorkspace ''instance'' (ir_id r) ''deleted'' ''deleted'' (ir_generation r) [] now ?d2 =
      Inr ((), ?d2\<lparr>event_seq := event_seq ?d2 + 1, events := L\<rparr>)"
    by (rule AppendEvent_ok [OF inv2]) (use room in simp)
  have "tx_FinishInstanceTermination now ?s d = Inr ((), ?d2\<lparr>event_seq := event_seq ?d2 + 1, events := L\<rparr>)"
    unfolding tx_FinishInstanceTermination_def
    using get q1 q2 ev by (simp add: tx_bind_Inr sel sameInstanceDecision_def)
  then have "store_FinishInstanceTermination NoFault now ?s d = (Inr (), ?d2\<lparr>event_seq := event_seq ?d2 + 1, events := L\<rparr>)"
    by (simp add: store_FinishInstanceTermination_def WithTx_def)
  moreover have "ir_id x \<noteq> ir_id r" if "x \<in> set (instances ?d2)" for x
    using that instance_rows(3) [OF inv, of x] by (auto simp: instance_key_def)
  moreover have "only_instance (ir_id r) d (?d2\<lparr>event_seq := event_seq ?d2 + 1, events := L\<rparr>)"
    by (simp add: only_instance_def instance_key_def)
  ultimately show ?thesis using gone
    by (intro exI [of _ "?d2\<lparr>event_seq := event_seq ?d2 + 1, events := L\<rparr>"]) simp
qed


section \<open>Undisturbed passes\<close>

definition undisturbed :: "inst_env \<Rightarrow> bool" where
  "undisturbed env \<longleftrightarrow> ie_between env = (\<lambda>n d. d) \<and> ie_fault env = (\<lambda>n. NoFault) \<and> ie_ctx env = None"

lemma gap_undisturbed [simp]: "undisturbed env \<Longrightarrow> gap env n w = (Inr (), w)"
  by (simp add: undisturbed_def gap_def)

lemma on_simps [simp]:
  "m (iw_x w) = (r, x) \<Longrightarrow> on_x m w = (r, w\<lparr>iw_x := x\<rparr>)" "on_ctl f w = (Inr (), w\<lparr>iw_ctl := f (iw_ctl w)\<rparr>)"
  "b (iw_db w) = (s, d) \<Longrightarrow> on_db b w = (s, w\<lparr>iw_db := d\<rparr>)"
  by (simp_all add: on_x_def on_ctl_def on_db_def)

lemma eff_bind_eval: "eff_bind m f s = (case m s of (Inl e, s') \<Rightarrow> (Inl e, s') | (Inr x, s') \<Rightarrow> f x s')"
  by (simp add: eff_bind_def)

lemma or_fail_eval:
  "or_fail env inst m f w = (case m w of (Inl e, w') \<Rightarrow> fail env inst e w' | (Inr x, w') \<Rightarrow> f x w')"
  by (simp add: or_fail_def eff_bind_def eff_try_def split: prod.splits sum.splits)

lemma with_runtime_row:
  assumes "db_inv d" and "r \<in> set (instances d)" and "rid \<noteq> []"
  shows "db_inv (with_runtime rid (ir_id r) d)" and "r\<lparr>ir_runtime_id := Some rid\<rparr> \<in> set (instances (with_runtime rid (ir_id r) d))"
    and "event_seq (with_runtime rid (ir_id r) d) = event_seq d" and "enis (with_runtime rid (ir_id r) d) = enis d"
    and "only_instance (ir_id r) d (with_runtime rid (ir_id r) d)"
proof -
  show "db_inv (with_runtime rid (ir_id r) d)" unfolding with_runtime_def by (rule inv_set_runtime [OF assms(1,3)])
  show "r\<lparr>ir_runtime_id := Some rid\<rparr> \<in> set (instances (with_runtime rid (ir_id r) d))"
    using assms(2) by (auto simp: with_runtime_def set_upd image_iff intro!: bexI [of _ r])
  show "event_seq (with_runtime rid (ir_id r) d) = event_seq d" "enis (with_runtime rid (ir_id r) d) = enis d"
    by (simp_all add: with_runtime_def)
  show "only_instance (ir_id r) d (with_runtime rid (ir_id r) d)"
    by (auto simp: only_instance_def with_runtime_def set_upd image_iff split: if_splits)
qed

lemma primary_eni_runtime: "primary_eni (r\<lparr>ir_runtime_id := v\<rparr>) (with_runtime rid i d) = primary_eni r d"
  by (simp add: primary_eni_def with_runtime_def)


lemma undisturbed_simps [simp]:
  "undisturbed env \<Longrightarrow> ie_fault env n = NoFault" "undisturbed env \<Longrightarrow> ie_ctx env = None"
  by (simp_all add: undisturbed_def)

lemmas pass_eval = eff_bind_eval or_fail_eval eff_try_def eff_wrap_def

text \<open>The part of a pass after the identity was recorded.\<close>

lemma start_runs:
  assumes u: "undisturbed env" and inv: "db_inv (iw_db w)" and r: "r \<in> set (instances (iw_db w))"
    and live: "ir_deletion_requested r = 0" and id: "ir_runtime_id r = Some rid" and room: "event_seq (iw_db w) < max_int64"
    and st: "rt_Start rt (iw_db w) rid (iw_x w) = (Inr (), x3)" and insp: "rt_Inspect rt rid x3 = (Inr True, x4)"
  shows "\<exists>d' x. start_instance rt env (ir_id r) rid w =
      (Inr (), w\<lparr>iw_db := d', iw_x := x4, iw_ctl := i_clearRetry (ir_id r) (iw_ctl w)\<rparr>) \<and>
    only_instance (ir_id r) (iw_db w) d' \<and> x \<in> set (instances d') \<and> ir_id x = ir_id r \<and> ir_state x = InstanceRunning \<and>
    ir_state_reason x = [] \<and> ir_generation x = ir_generation r \<and> ir_observed_generation x = ir_generation r \<and>
    ir_runtime_id x = Some rid"
proof -
  let ?s = "snapshot r (iw_db w)"
  have get: "store_GetInstance NoFault ''default'' (ir_id r) (iw_db w) = Inr ?s" by (rule store_GetInstance_ok [OF inv r])
  have live': "\<not> inst_DeletionRequested ?s" using live by (simp add: instance_of_rows_def)
  obtain d' x where rec: "store_RecordInstance NoFault (unix_seconds (ie_now env)) ?s InstanceRunning [] True (iw_db w) = (Inr (), d')"
      "only_instance (ir_id r) (iw_db w) d'" "x \<in> set (instances d')" "ir_id x = ir_id r" "ir_state x = InstanceRunning"
      "ir_state_reason x = []" "ir_generation x = ir_generation r" "ir_observed_generation x = ir_generation r"
      "ir_runtime_id x = Some rid"
    using RecordInstance_ok [OF inv r room, of InstanceRunning True "unix_seconds (ie_now env)" "[]"] live id by auto
  have "start_instance rt env (ir_id r) rid w =
      (Inr (), w\<lparr>iw_db := d', iw_x := x4, iw_ctl := i_clearRetry (ir_id r) (iw_ctl w)\<rparr>)"
    using u get live' st insp rec(1) by (simp add: start_instance_def pass_eval)
  then show ?thesis using rec(2-9) by blast
qed

lemma reconcile_runs:
  assumes u: "undisturbed env" and inv: "db_inv (iw_db w)" and r: "r \<in> set (instances (iw_db w))"
    and live: "ir_deletion_requested r = 0" and idle: "ir_state r \<noteq> InstanceRunning" and room: "event_seq (iw_db w) < max_int64"
    and ready: "in_Ready net (snapshot r (iw_db w)) (iw_db w) (iw_x w) = Inr True"
    and img: "rt_EnsureImage rt ''nephos-ubuntu:dev'' (iw_x w) = (Inr (), x1)"
    and cr: "rt_Create rt (snapshot r (iw_db w)) x1 = (Inr rid, x2)" "rid \<noteq> []" "runtime_free rid r"
    and st: "rt_Start rt (with_runtime rid (ir_id r) (iw_db w)) rid x2 = (Inr (), x3)"
    and insp: "rt_Inspect rt rid x3 = (Inr True, x4)"
  shows "\<exists>d' x. i_reconcileLocked net rt env (ir_id r) w =
      (Inr (), w\<lparr>iw_db := d', iw_x := x4, iw_ctl := i_clearRetry (ir_id r) (iw_ctl w)\<rparr>) \<and>
    only_instance (ir_id r) (iw_db w) d' \<and> x \<in> set (instances d') \<and> ir_id x = ir_id r \<and> ir_state x = InstanceRunning \<and>
    ir_state_reason x = [] \<and> ir_observed_generation x = ir_generation x \<and> ir_runtime_id x = Some rid"
proof -
  let ?d = "iw_db w" and ?s = "snapshot r (iw_db w)" and ?d1 = "with_runtime rid (ir_id r) (iw_db w)"
  let ?r = "r\<lparr>ir_runtime_id := Some rid\<rparr>" and ?w = "w\<lparr>iw_x := x2, iw_db := with_runtime rid (ir_id r) (iw_db w)\<rparr>"
  note row = with_runtime_row [OF inv r cr(2)]
  have get: "store_GetInstance NoFault ''default'' (ir_id r) ?d = Inr ?s" by (rule store_GetInstance_ok [OF inv r])
  have sel: "\<not> inst_DeletionRequested ?s" "inst_State ?s \<noteq> InstanceRunning" "inst_ID ?s = ir_id r" "inst_Generation ?s = ir_generation r"
    using live idle by (simp_all add: instance_of_rows_def)
  have rec: "store_RecordRuntimeID (ir_id r) (ir_generation r) rid ?d = (Inr (), ?d1)"
    by (rule RecordRuntimeID_ok [OF inv r live cr(3,2)])
  obtain d' x where d': "start_instance rt env (ir_id r) rid ?w =
        (Inr (), ?w\<lparr>iw_db := d', iw_x := x4, iw_ctl := i_clearRetry (ir_id r) (iw_ctl w)\<rparr>)"
      "only_instance (ir_id r) ?d1 d'" "x \<in> set (instances d')" "ir_id x = ir_id r" "ir_state x = InstanceRunning"
      "ir_state_reason x = []" "ir_generation x = ir_generation r" "ir_observed_generation x = ir_generation r"
      "ir_runtime_id x = Some rid"
    using start_runs [OF u, of ?w ?r rid rt x3 x4] row live room st insp by auto
  have "i_reconcileLocked net rt env (ir_id r) w = start_instance rt env (ir_id r) rid ?w"
    using u get sel ready img cr(1) rec by (simp add: i_reconcileLocked_def create_instance_def pass_eval)
  moreover have "only_instance (ir_id r) ?d d'" using row(5,3) d'(2) by (simp add: only_instance_def)
  ultimately show ?thesis using d' by (intro exI [of _ d'] exI [of _ x]) simp
qed

text \<open>A failure is recorded with its text, and a retry is due later.\<close>

lemma fail_records:
  assumes u: "undisturbed env" and inv: "db_inv (iw_db w)" and r: "r \<in> set (instances (iw_db w))"
    and room: "event_seq (iw_db w) < max_int64"
  shows "\<exists>d' x. fail env (snapshot r (iw_db w)) cause w =
      (Inr (), w\<lparr>iw_db := d', iw_ctl := i_retry (ie_now env) (ir_id r) (iw_ctl w)\<rparr>) \<and>
    only_instance (ir_id r) (iw_db w) d' \<and> x \<in> set (instances d') \<and> ir_id x = ir_id r \<and> ir_state x = InstanceFailed \<and>
    ir_state_reason x = ie_text env cause \<and> ir_observed_generation x = ir_observed_generation r"
proof -
  have i: "inst_ID (snapshot r (iw_db w)) = ir_id r" by (simp add: instance_of_rows_def)
  obtain d' x where rec: "store_RecordInstance NoFault (unix_seconds (ie_now env)) (snapshot r (iw_db w)) InstanceFailed
        (ie_text env cause) False (iw_db w) = (Inr (), d')"
      "only_instance (ir_id r) (iw_db w) d'" "x \<in> set (instances d')" "ir_id x = ir_id r" "ir_state x = InstanceFailed"
      "ir_state_reason x = ie_text env cause" "ir_observed_generation x = ir_observed_generation r"
    using RecordInstance_ok [OF inv r room, of InstanceFailed False "unix_seconds (ie_now env)" "ie_text env cause"] by auto
  have "fail env (snapshot r (iw_db w)) cause w = (Inr (), w\<lparr>iw_db := d', iw_ctl := i_retry (ie_now env) (ir_id r) (iw_ctl w)\<rparr>)"
    using u rec(1) i by (simp add: fail_def pass_eval)
  then show ?thesis using rec(2-7) by blast
qed

text \<open>A terminated instance: its container, its interface and its rows go.\<close>

lemma instance_place:
  assumes inv: "db_inv d" and r: "r \<in> set (instances d)"
  obtains s v where "s \<in> set (subnets d)" and "v \<in> set (vpcs d)" and "sr_id s = ir_subnet_id r" and "vr_id v = sr_vpc_id s"
    and "store_GetSubnet defaultWorkspace (ir_subnet_id r) d = Inr (subnet_of_row s)"
    and "store_GetVPC defaultWorkspace (sr_vpc_id s) d = Inr (vpc_of_row v)"
proof -
  have S: "subnets_ok (kernel_indexes d) (vpcs d) (subnets d)"
    and I: "instances_ok (kernel_indexes d) (subnets d) (enis d) (instances d)" using inv by (simp_all add: db_inv_def)
  obtain s where s: "s \<in> set (subnets d)" "sr_id s = ir_subnet_id r"
    using I r by (auto simp: instances_ok_def list_all_iff subnet_live_def)
  obtain v where v: "v \<in> set (vpcs d)" "vr_id v = sr_vpc_id s"
    using subnets_row [OF S s(1)] by (auto simp: parent_ok_def)
  have "store_GetSubnet defaultWorkspace (ir_subnet_id r) d = Inr (subnet_of_row s)"
  proof -
    have key: "subnet_key (ir_subnet_id r) defaultWorkspace s"
      using s subnet_rows(3) [OF inv s(1)] by (simp add: subnet_key_def)
    then obtain t where t: "t \<in> set (subnets d)" "subnet_key (ir_subnet_id r) defaultWorkspace t"
        "tx_GetSubnet defaultWorkspace (ir_subnet_id r) d = Inr (subnet_of_row t)"
      using tx_GetSubnet_cases [OF S, of "ir_subnet_id r" defaultWorkspace] s(1) by blast
    have "t = s" using subnet_rows(2) [OF inv s(1) _ t(1)] t(2) s(2) by simp
    then show ?thesis using t(3) by (simp add: tx_GetSubnet_def store_GetSubnet_def)
  qed
  moreover have "store_GetVPC defaultWorkspace (sr_vpc_id s) d = Inr (vpc_of_row v)"
  proof -
    obtain t where t: "t \<in> set (vpcs d)" "vr_id t = sr_vpc_id s" "store_GetVPC defaultWorkspace (sr_vpc_id s) d = Inr (vpc_of_row t)"
      using store_GetVPC_cases [OF inv, of "sr_vpc_id s"] v by blast
    have "t = v" using vpc_rows(2) [OF inv v(1) t(1)] t(2) v(2) by simp
    then show ?thesis using t(3) by simp
  qed
  ultimately show ?thesis using that s v by blast
qed

lemma reconcile_terminates:
  assumes u: "undisturbed env" and inv: "db_inv (iw_db w)" and r: "r \<in> set (instances (iw_db w))"
    and del: "ir_deletion_requested r \<noteq> 0" and room: "event_seq (iw_db w) < max_int64"
    and rm: "case ir_runtime_id r of None \<Rightarrow> x1 = iw_x w | Some rid \<Rightarrow> rt_Delete rt rid (iw_x w) = (Inr (), x1)"
    and eni: "\<And>vpc. \<exists>x2. in_DeleteENI net vpc (inst_ENI (snapshot r (iw_db w))) x1 = (Inr (), x2)"
  shows "\<exists>d' x2. i_reconcileLocked net rt env (ir_id r) w =
      (Inr (), w\<lparr>iw_db := d', iw_x := x2, iw_ctl := i_clearRetry (ir_id r) (iw_ctl w)\<rparr>) \<and>
    only_instance (ir_id r) (iw_db w) d' \<and> (\<forall>x \<in> set (instances d'). ir_id x \<noteq> ir_id r) \<and>
    (\<forall>e \<in> set (enis d'). er_instance_id e \<noteq> ir_id r)"
proof -
  let ?d = "iw_db w" and ?s = "snapshot r (iw_db w)"
  obtain s v where p: "store_GetSubnet defaultWorkspace (ir_subnet_id r) ?d = Inr (subnet_of_row s)"
      "store_GetVPC defaultWorkspace (sr_vpc_id s) ?d = Inr (vpc_of_row v)"
    by (rule instance_place [OF inv r])
  have get: "store_GetInstance NoFault ''default'' (ir_id r) ?d = Inr ?s" by (rule store_GetInstance_ok [OF inv r])
  have sel: "inst_DeletionRequested ?s" "inst_ID ?s = ir_id r" "inst_WorkspaceID ?s = defaultWorkspace"
    "inst_SubnetID ?s = ir_subnet_id r" "sub_VPCID (subnet_of_row s) = sr_vpc_id s"
    using del instance_rows(3) [OF inv r] by (simp_all add: instance_of_rows_def subnet_of_row_def)
  obtain x2 where x2: "in_DeleteENI net (vpc_of_row v) (inst_ENI ?s) x1 = (Inr (), x2)" using eni by blast
  obtain d' where d': "store_FinishInstanceTermination NoFault (unix_seconds (ie_now env)) ?s ?d = (Inr (), d')"
      "only_instance (ir_id r) ?d d'" "\<forall>x \<in> set (instances d'). ir_id x \<noteq> ir_id r"
      "\<forall>e \<in> set (enis d'). er_instance_id e \<noteq> ir_id r"
    using FinishInstanceTermination_ok [OF inv r room del] by blast
  have rm': "(if inst_RuntimeID ?s \<noteq> [] then on_x (rt_Delete rt (inst_RuntimeID ?s)) else eff_return ()) w = (Inr (), w\<lparr>iw_x := x1\<rparr>)"
    using rm instance_rows(1) [OF inv r] by (cases "ir_runtime_id r") (auto simp: instance_of_rows_def irow_ok_def)
  have "terminate net rt env ?s w = (Inr (), w\<lparr>iw_db := d', iw_x := x2, iw_ctl := i_clearRetry (ir_id r) (iw_ctl w)\<rparr>)"
    unfolding terminate_def or_fail_eval rm' using u p sel x2 d'(1) by (simp add: pass_eval)
  then have "i_reconcileLocked net rt env (ir_id r) w =
      (Inr (), w\<lparr>iw_db := d', iw_x := x2, iw_ctl := i_clearRetry (ir_id r) (iw_ctl w)\<rparr>)"
    using u get sel(1) by (simp add: i_reconcileLocked_def pass_eval)
  then show ?thesis using d'(2-4) by blast
qed

section \<open>A container that was replaced behind the controller's back\<close>

text \<open>
  The row keeps the identity of a container that is gone, so that \<open>Create\<close> makes another one.
  Its identity cannot be recorded; the pass deletes it, leaves the tables as they are and puts
  the instance back into the queue, with no failure recorded and no retry scheduled.
\<close>

lemma reconcile_replaced:
  assumes u: "undisturbed env" and inv: "db_inv (iw_db w)" and r: "r \<in> set (instances (iw_db w))"
    and live: "ir_deletion_requested r = 0" and idle: "ir_state r \<noteq> InstanceRunning"
    and ready: "in_Ready net (snapshot r (iw_db w)) (iw_db w) (iw_x w) = Inr True"
    and img: "rt_EnsureImage rt ''nephos-ubuntu:dev'' (iw_x w) = (Inr (), x1)"
    and cr: "rt_Create rt (snapshot r (iw_db w)) x1 = (Inr rid, x2)" "rid \<noteq> []" "\<not> runtime_free rid r"
    and rm: "rt_Delete rt rid x2 = (Inr (), x3)"
  shows "i_reconcileLocked net rt env (ir_id r) w = (Inr (), w\<lparr>iw_x := x3, iw_ctl := i_Enqueue (ir_id r) (iw_ctl w)\<rparr>)"
proof -
  let ?d = "iw_db w" and ?s = "snapshot r (iw_db w)"
  have get: "store_GetInstance NoFault ''default'' (ir_id r) ?d = Inr ?s" by (rule store_GetInstance_ok [OF inv r])
  have sel: "\<not> inst_DeletionRequested ?s" "inst_State ?s \<noteq> InstanceRunning" "inst_ID ?s = ir_id r" "inst_Generation ?s = ir_generation r"
    using live idle by (simp_all add: instance_of_rows_def)
  have rec: "store_RecordRuntimeID (ir_id r) (ir_generation r) rid ?d = (Inl ErrStaleSnapshot, ?d)"
    by (rule RecordRuntimeID_taken [OF inv r cr(3,2)])
  have ret: "store_RetainTerminatingRuntimeID (ir_id r) rid ?d = (Inl ErrStaleSnapshot, ?d)"
    by (rule RetainTerminatingRuntimeID_refused [OF inv r]) (use live cr(2) in auto)
  show ?thesis
    using u get sel ready img cr(1) rec ret rm
    by (simp add: i_reconcileLocked_def create_instance_def createdDuringStateChange_def pass_eval)
qed

end
