(* ===== verification/EniFacts.thy ===== *)
theory EniFacts
  imports EniPolicy TopologyFacts InstanceConvergence
begin

text \<open>
  Interfaces: the ownership marker is read back as written, the source checks list exactly
  the marked links, an interface comes up only behind them, and only owned links go.
\<close>

section \<open>Names and markers\<close>

lemma eniLinkName_Inr: "eniLinkName i = Inr n \<longleftrightarrow> 1 \<le> i \<and> i \<le> 9999999999999 \<and> n = ''ve'' @ FormatInt i"
  by (auto simp: eniLinkName_def)

lemma canonicalENILink_iff: "canonicalENILink n \<longleftrightarrow> (\<exists>i. eniLinkName i = Inr n)"
proof
  assume "canonicalENILink n"
  then show "\<exists>i. eniLinkName i = Inr n"
    by (auto simp: canonicalENILink_def split: option.splits sum.splits)
next
  assume "\<exists>i. eniLinkName i = Inr n"
  then obtain i where i: "eniLinkName i = Inr n" by blast
  then have "n = ''ve'' @ FormatInt i" "ParseInt (FormatInt i) = Some i"
    by (simp_all add: eniLinkName_Inr ParseInt_FormatInt)
  then show "canonicalENILink n" using i unfolding canonicalENILink_def
    by (simp only: CutPrefix_append option.case sum.case)
qed

lemma eniLinkName_inject: "eniLinkName i = Inr n \<Longrightarrow> eniLinkName j = Inr n \<Longrightarrow> i = j"
  by (simp add: eniLinkName_Inr FormatInt_inject)

lemma link_name_length: "eniLinkName i = Inr n \<Longrightarrow> length n \<le> 15"
  using dec_length [of 13 "nat i"] by (auto simp: eniLinkName_Inr FormatInt_def)

definition marker_ok :: "ENI \<Rightarrow> nat \<Rightarrow> bool" where
  "marker_ok eni inode \<longleftrightarrow>
     validPageID ''eni'' (eni_ID eni) \<and> Is4 (eni_PrivateIP eni) \<and> 0 < inode \<and> inode < 2 ^ 64 \<and>
     (case validENIMAC (eni_MACAddress eni) of Inr m \<Rightarrow> mac_string m = eni_MACAddress eni | Inl e \<Rightarrow> False)"

lemma hexnum_less: "hexnum c = Some k \<Longrightarrow> k < 16"
  by (auto simp: hexnum_def is_digit_def split: if_splits)

lemma xtoi2_less: "xtoi2 s e = Some b \<Longrightarrow> b < 256"
  by (auto simp: xtoi2_def split: option.splits if_splits list.splits dest!: hexnum_less)

lemma mac_bytes_less: "mac_bytes e n s = Some bs \<Longrightarrow> list_all (\<lambda>b. b < 256) bs"
  by (induction e n s arbitrary: bs rule: mac_bytes.induct) (auto split: option.splits dest: xtoi2_less)

lemma mac_groups_less: "mac_groups n s = Some bs \<Longrightarrow> list_all (\<lambda>b. b < 256) bs"
  by (induction n s arbitrary: bs rule: mac_groups.induct) (auto split: option.splits prod.splits dest: xtoi2_less)

lemma ParseMAC_less: "ParseMAC s = Some bs \<Longrightarrow> list_all (\<lambda>b. b < 256) bs"
  by (auto simp: ParseMAC_def Let_def split: if_splits dest: mac_bytes_less mac_groups_less)

lemma hexdigit_print: "k < 16 \<Longrightarrow> is_ascii_print (hexdigit k)"
  by (simp add: is_ascii_print_def hexdigit_def)

lemma print_colon: "is_ascii_print CHR '':''"
  by (simp add: is_ascii_print_def)

lemma print_mac: "list_all (\<lambda>b. b < 256) bs \<Longrightarrow> list_all is_ascii_print (mac_string bs)"
  by (induction bs rule: mac_string.induct) (auto simp: hex2_def hexdigit_print div_less_iff_less_mult print_colon)

lemma print_digits: "list_all is_digit s \<Longrightarrow> list_all is_ascii_print s"
  by (auto simp: list_all_iff is_digit_def is_ascii_print_def)

lemma print_dec [simp]: "list_all is_ascii_print (dec n)"
  by (rule print_digits) simp

lemma print_addr: "Is4 a \<Longrightarrow> list_all is_ascii_print (addr_string a)"
  by (cases a) (simp_all add: ip4_string_def is_ascii_print_def)

lemma print_id: "validPageID ''eni'' i \<Longrightarrow> list_all is_ascii_print i"
  by (auto simp: validPageID_iff id_prefix_def is_ascii_print_def is_lower_hex_def is_digit_def list_all_iff) fastforce+

lemma parseENIAlias_eniAlias:
  assumes "marker_ok eni inode"
  shows "parseENIAlias (eniAlias eni inode) =
    Inr \<lparr>ei_ID = eni_ID eni, ei_IP = eni_PrivateIP eni, ei_MAC = eni_MACAddress eni, ei_Namespace = inode\<rparr>"
proof -
  let ?i = "eni_ID eni" and ?a = "addr_string (eni_PrivateIP eni)" and ?m = "eni_MACAddress eni"
  obtain m where m: "validENIMAC ?m = Inr m" "mac_string m = ?m"
    using assms by (auto simp: marker_ok_def split: sum.splits)
  then have pm: "ParseMAC ?m = Some m" "length m = 6" "hd m mod 4 = 2"
    by (auto simp: validENIMAC_def split: option.splits if_splits)
  have i: "validPageID ''eni'' ?i" "Is4 (eni_PrivateIP eni)" "0 < inode" "inode < 2 ^ 64" using assms by (simp_all add: marker_ok_def)
  have ne: "?m \<noteq> []" using pm(1) by (auto simp: ParseMAC_def)
  have w: "list_all is_ascii_print (''nephos:eni:'' @ ?i)" "list_all is_ascii_print ?a" "list_all is_ascii_print ?m"
    using print_id [OF i(1)] print_addr [OF i(2)] print_mac [OF ParseMAC_less [OF pm(1)]] m(2)
    by (simp_all add: is_ascii_print_def)
  have "eniAlias eni inode = (''nephos:eni:'' @ ?i) @ CHR '' '' # ?a @ CHR '' '' # ?m @ CHR '' '' # dec inode"
    by (simp add: eniAlias_def)
  then have "Fields (eniAlias eni inode) = [''nephos:eni:'' @ ?i, ?a, ?m, dec inode]"
    using Fields_word [OF w(1)] Fields_word [OF w(2) addr_string_nonempty [OF i(2)]] Fields_word [OF w(3) ne]
      Fields_last [OF print_dec dec_nonempty, of inode] by simp
  moreover have "CutPrefix (''nephos:eni:'' @ ?i) ''nephos:eni:'' = Some ?i" by (rule CutPrefix_append)
  moreover have "length ?i = 21 \<and> HasPrefix ?i ''eni-'' \<and>
      list_all (\<lambda>r. (48 \<le> r \<and> r \<le> 57) \<or> (97 \<le> r \<and> r \<le> 102)) (runes (drop 4 ?i))"
    using i(1) by (auto simp: validPageID_def eval_nat_numeral split: if_splits)
  ultimately show ?thesis
    using i pm m(2) by (simp add: parseENIAlias_def ParseAddr_string ParseUint_dec)
qed

text \<open>What the tables hold about an interface makes a marker that reads back.\<close>

lemma snapshot_address:
  assumes "db_inv d" and "r \<in> set (instances d)"
  shows "\<exists>s \<in> set (subnets d). sr_id s = ir_subnet_id r \<and> Is4 (eni_PrivateIP (inst_ENI (snapshot r d))) \<and>
    Contains (cidr_of (sr_cidr_block s)) (eni_PrivateIP (inst_ENI (snapshot r d))) \<and>
    \<not> reservedAddress (cidr_of (sr_cidr_block s)) (eni_PrivateIP (inst_ENI (snapshot r d))) \<and>
    eni_SubnetID (inst_ENI (snapshot r d)) = sr_id s"
proof -
  let ?e = "primary_eni r d"
  note e = primary_eni_row [OF assms]
  have "address_ok (subnets d) ?e" "owner_ok (instances d) ?e" "subnets_ok (kernel_indexes d) (vpcs d) (subnets d)"
    using assms(1) e(1) by (auto simp: db_inv_def enis_ok_def list_all_iff)
  moreover from this obtain n where "n \<in> set (instances d)" "ir_id n = er_instance_id ?e" "ir_subnet_id n = er_subnet_id ?e"
    by (auto simp: owner_ok_def)
  ultimately show ?thesis
    using address_ok_parse [of "subnets d" ?e "kernel_indexes d" "vpcs d"] instance_rows(2) [OF assms, of n] e(2)
    by (fastforce simp: instance_of_rows_def)
qed

lemma snapshot_marker:
  assumes "db_inv d" and "r \<in> set (instances d)" and "0 < inode" and "inode < 2 ^ 64"
  shows "marker_ok (inst_ENI (snapshot r d)) inode"
proof -
  have "erow_ok (kernel_indexes d) (primary_eni r d)" by (rule primary_eni_row(3) [OF assms(1,2)])
  moreover have "Is4 (eni_PrivateIP (inst_ENI (snapshot r d)))"
    using snapshot_address [OF assms(1,2)] by blast
  ultimately show ?thesis using assms(3,4) by (simp add: marker_ok_def erow_ok_def instance_of_rows_def cong: sum.case_cong)
qed

section \<open>Admission\<close>

text \<open>An address that is not reserved passes the engine's own test of it.\<close>

lemma unreserved_admitted:
  assumes "cidr_ok p" and "Contains p a" and "\<not> reservedAddress p a"
  shows "\<not> addr_less a (Next (Next (Next (Next (Addr p)))))" and "Contains p (Next a)"
proof -
  obtain w b where p: "p = Prefix (IP4 w) b" using assms(1) by (auto simp: cidr_ok_def elim: prefix4_cases)
  have a: "Is4 a" "pbase p \<le> ip4 a" "ip4 a < pbase p + psize p" and r: "pbase p + 4 \<le> ip4 a" "ip4 a \<noteq> pbase p + psize p - 1"
    using assms reservedAddress_iff [OF assms(1,2)] by (auto simp: Contains_interval)
  have w: "ip4 (Addr p) = pbase p" "Is4 (Addr p)" using cidr_ok_base [OF assms(1)] p by simp_all
  note sz = psize_range [OF assms(1)] pbase_psize_le [of p]
  have n1: "Is4 (Next (Addr p))" "ip4 (Next (Addr p)) = pbase p + 1" using Next_ip4 [of "Addr p"] w sz by simp_all
  have n2: "Is4 (Next (Next (Addr p)))" "ip4 (Next (Next (Addr p))) = pbase p + 2" using Next_ip4 [OF n1(1)] n1(2) sz by simp_all
  have n3: "Is4 (Next (Next (Next (Addr p))))" "ip4 (Next (Next (Next (Addr p)))) = pbase p + 3"
    using Next_ip4 [OF n2(1)] n2(2) sz by simp_all
  have n4: "Is4 (Next (Next (Next (Next (Addr p)))))" "ip4 (Next (Next (Next (Next (Addr p))))) = pbase p + 4"
    using Next_ip4 [OF n3(1)] n3(2) sz by simp_all
  have "addr_less x y \<longleftrightarrow> ip4 x < ip4 y" if "Is4 x" "Is4 y" for x y
    using that by (auto simp: addr_less_def elim!: Is4_cases)
  then show "\<not> addr_less a (Next (Next (Next (Next (Addr p)))))" using a(1) n4 r(1) by simp
  have "ip4 a + 1 < pbase p + psize p" using a(3) r(2) by linarith
  then show "Contains p (Next a)" using Next_ip4 [OF a(1)] a(2) sz assms(1) by (simp add: Contains_interval)
qed

text \<open>The engine accepts every set of subnets the tables hold for a VPC.\<close>

lemma rows_accepted:
  assumes inv: "db_inv d" and v: "v \<in> set (vpcs d)" and ss: "set ss \<subseteq> set (subnets d)" "\<forall>s \<in> set ss. sr_vpc_id s = vr_id v"
    "distinct (map sr_id ss)"
  shows "desiredGateways (vpc_of_row v) (map subnet_of_row ss) =
    Inr (sort_key ip4 (map (\<lambda>s. Gateway (cidr_of (sr_cidr_block s))) ss))"
proof -
  have S: "subnets_ok (kernel_indexes d) (vpcs d) (subnets d)" using inv by (simp add: db_inv_def)
  have c: "cidr_ok (vpc_CIDRBlock (vpc_of_row v))"
    using vpc_rows(1) [OF inv v] cidr_text_of by (auto simp: vrow_ok_def vpc_of_row_def)
  have "child_ok (vpc_of_row v) (subnet_of_row s)" if "s \<in> set ss" for s
  proof -
    have s: "s \<in> set (subnets d)" "sr_vpc_id s = vr_id v" using that ss by auto
    obtain x where x: "x \<in> set (vpcs d)" "vr_id x = sr_vpc_id s"
        "ValidateSubnetRange (cidr_of (vr_cidr_block x)) (cidr_of (sr_cidr_block s)) = Inr ()"
      using subnets_row [OF S s(1)] by (auto simp: parent_ok_def)
    then have "x = v" using vpc_rows(2) [OF inv v, of x] s(2) by simp
    moreover have "cidr_ok (cidr_of (sr_cidr_block s))"
      using subnets_row [OF S s(1)] cidr_text_of by (auto simp: srow_ok_def)
    ultimately show ?thesis using x s(2) by (simp add: child_ok_def vpc_of_row_def subnet_of_row_def)
  qed
  moreover have "sorted_wrt (\<lambda>s t. \<not> Overlaps (cidr_of (sr_cidr_block t)) (cidr_of (sr_cidr_block s))) ss"
    using ss
  proof (induction ss)
    case (Cons s ss)
    have "\<not> Overlaps (cidr_of (sr_cidr_block t)) (cidr_of (sr_cidr_block s))" if "t \<in> set ss" for t
    proof -
      have "sr_id t \<noteq> sr_id s" using Cons.prems(3) that by (metis distinct.simps(2) image_eqI list.set_map list.simps(9))
      moreover have "t \<in> set (subnets d)" "s \<in> set (subnets d)" "sr_vpc_id t = sr_vpc_id s" using Cons.prems(1,2) that by auto
      ultimately show ?thesis using S unfolding subnets_ok_def siblings_ok_def by blast
    qed
    then show ?case using Cons by simp
  qed simp
  ultimately show ?thesis
    using c by (simp add: desiredGateways_Inr list_all_iff sorted_wrt_map subnet_of_row_def comp_def)
qed

text \<open>
  Every interface the tables hold passes the engine's checks of its subnet, its VPC and its
  address: what is left are the two names and the kernel.
\<close>

lemma EnsureENI_admitted:
  assumes inv: "db_inv d" and r: "r \<in> set (instances d)" and s: "s \<in> set (subnets d)" "sr_id s = ir_subnet_id r"
    and v: "v \<in> set (vpcs d)" "vr_id v = sr_vpc_id s"
    and t: "0 < it_inode t" "it_inode t < 2 ^ 64"
    and names: "eniLinkName (er_short_index (primary_eni r d)) = Inr name" "Name (vr_short_index v) = Inr ns"
  defines "eni \<equiv> inst_ENI (snapshot r d)"
  shows "EnsureENI ev h peer (vpc_of_row v) (subnet_of_row s) eni (Some t) =
    WithFD (ev_ctx ev) (ev_Dup ev) (Some t) (\<lambda>fd. WithHandle (ev_os ev) ns
      (ensure_pair ev h peer (subnet_of_row s) eni (Some t) fd name (eniAlias eni (it_inode t))))"
proof -
  have "marker_ok eni (it_inode t)" unfolding eni_def by (rule snapshot_marker [OF inv r t])
  then obtain m where m: "parseENIAlias (eniAlias eni (it_inode t)) = Inr m" using parseENIAlias_eniAlias by blast
  have g: "desiredGateways (vpc_of_row v) [subnet_of_row s] = Inr [Gateway (cidr_of (sr_cidr_block s))]"
    using rows_accepted [OF inv v(1), of "[s]"] s v(2) by simp
  have ws: "er_workspace_id (primary_eni r d) = defaultWorkspace" "sr_workspace_id s = defaultWorkspace"
    "vr_workspace_id v = defaultWorkspace"
    using primary_eni_row(3) [OF inv r] subnet_rows(3) [OF inv s(1)] vpc_rows(3) [OF inv v(1)] by (simp_all add: erow_ok_def)
  obtain x where x: "x \<in> set (subnets d)" "sr_id x = ir_subnet_id r" "Contains (cidr_of (sr_cidr_block x)) (eni_PrivateIP eni)"
      "\<not> reservedAddress (cidr_of (sr_cidr_block x)) (eni_PrivateIP eni)" "eni_SubnetID eni = sr_id x"
    using snapshot_address [OF inv r] unfolding eni_def by blast
  have "x = s" using inv x(1,2) s by (auto simp: db_inv_def dest: subnets_unique)
  have c: "cidr_ok (cidr_of (sr_cidr_block s))"
    using subnet_rows(1) [OF inv s(1)] cidr_text_of by (auto simp: srow_ok_def)
  note a = unreserved_admitted [OF c x(3,4) [unfolded \<open>x = s\<close>]]
  have "eni_ShortIndex eni = er_short_index (primary_eni r d)" "eni_WorkspaceID eni = er_workspace_id (primary_eni r d)"
    by (simp_all add: eni_def instance_of_rows_def)
  then show ?thesis
    using m g ws x(3,5) a names t(1) \<open>x = s\<close>
    by (intro ext) (simp add: EnsureENI_def Let_def target_Inode_def subnet_of_row_def vpc_of_row_def)
qed

section \<open>Source checks\<close>

lemma applyENISourceChecks_ok:
  assumes "applyENISourceChecks h s = (Inr (), s')"
  obtains links records tables exists script where "LinkList h s = Inr links" and "eni_records [] links = Inr records"
    and "Option.bind (case nft_list h s of Inr b \<Rightarrow> Some b | Inl e \<Rightarrow> None) ruleset_unmarshal = Some tables"
    and "owned_table False tables = Inr exists" and "renderENISourceChecks records exists = Inr script"
    and "nft_apply h script s = (Inr (), s')"
  using assms
  by (auto simp: applyENISourceChecks_def eff_bind_Inr split: option.splits)

lemma eni_records_add:
  assumes "eni_records acc links = Inr records" and "distinct (map lk_Name links)"
    and "\<forall>l \<in> set links. lk_Name l \<notin> fst ` set acc"
  shows "list_all (\<lambda>l. HasPrefix (lk_Name l) ''ve'' \<longrightarrow> canonicalENILink (lk_Name l) \<and> lk_Type l = ''veth'') links \<and>
    set records = set acc \<union> {(lk_Name l, i) |l i. l \<in> set links \<and> HasPrefix (lk_Name l) ''ve'' \<and> parseENIAlias (lk_Alias l) = Inr i} \<and>
    (\<forall>l \<in> set links. HasPrefix (lk_Name l) ''ve'' \<longrightarrow> (\<exists>i. parseENIAlias (lk_Alias l) = Inr i)) \<and>
    (distinct (map fst acc) \<longrightarrow> distinct (map fst records))"
  using assms
proof (induction acc links rule: eni_records.induct)
  case (2 acc l ls)
  show ?case
  proof (cases "HasPrefix (lk_Name l) ''ve''")
    case False
    then show ?thesis using 2 by auto
  next
    case True
    then obtain i where i: "canonicalENILink (lk_Name l)" "lk_Type l = ''veth''" "parseENIAlias (lk_Alias l) = Inr i"
        "eni_records (record_put (lk_Name l) i acc) ls = Inr records"
      using "2.prems"(1) by (auto simp: res_bind_Inr split: if_splits)
    have put: "set (record_put (lk_Name l) i acc) = insert (lk_Name l, i) (set acc)"
      using "2.prems"(3) by (auto simp: record_put_def rev_image_eqI)
    have "distinct (map fst (record_put (lk_Name l) i acc))" if "distinct (map fst acc)"
      using that by (auto simp: record_put_def distinct_map_filter)
    moreover have "\<forall>k \<in> set ls. lk_Name k \<notin> fst ` set (record_put (lk_Name l) i acc)"
      using "2.prems"(2,3) by (auto simp: put rev_image_eqI)
    ultimately show ?thesis
      using "2.IH"(2) [OF _ _ i(3), OF _ _ i(4)] "2.prems"(2) True i(1-3) put by auto
  qed
qed auto

text \<open>The script depends on the map, not on the order in which it is ranged over.\<close>

lemma renderENISourceChecks_Inr:
  "renderENISourceChecks records exists = Inr script \<Longrightarrow>
   list_all (\<lambda>(name, i). canonicalENILink name \<and> Is4 (ei_IP i)) records"
  by (auto simp: renderENISourceChecks_def find_None_all list_all_iff split: option.splits)

lemma render_order:
  assumes "distinct (map fst xs)" and "distinct (map fst ys)" and "set xs = set ys"
    and "renderENISourceChecks xs exists = Inr script"
  shows "renderENISourceChecks ys exists = Inr script"
proof -
  have m: "map_of xs = map_of ys" by (rule map_of_inject_set [OF assms(1,2), THEN iffD2]) (rule assms(3))
  have srt: "sort (map fst xs) = sort (map fst ys)"
    by (rule sorted_distinct_set_unique) (use assms(1-3) in simp_all)
  have "find (\<lambda>(name, record). \<not> canonicalENILink name \<or> \<not> Is4 (ei_IP record)) ys = None"
    using renderENISourceChecks_Inr [OF assms(4)] assms(3) by (auto simp: find_None_all list_all_iff)
  moreover have "find (\<lambda>(name, record). \<not> canonicalENILink name \<or> \<not> Is4 (ei_IP record)) xs = None"
    using renderENISourceChecks_Inr [OF assms(4)] by (auto simp: find_None_all list_all_iff)
  ultimately show ?thesis
    using assms(4) unfolding renderENISourceChecks_def eni_element_def [abs_def] m srt by (simp add: Let_def)
qed

section \<open>An interface comes up behind its source checks\<close>

text \<open>
  \<open>P\<close> says that the checks of a state are in place: a successful \<open>nft\<close> run puts them there and
  the calls in the instance's namespace leave them. The guarded handle refuses to bring a
  router's interface up where \<open>P\<close> does not hold.
\<close>

definition source_laws :: "('s \<Rightarrow> bool) \<Rightarrow> 's Handle \<Rightarrow> (nat \<Rightarrow> 's Handle) \<Rightarrow> bool" where
  "source_laws P h peer \<longleftrightarrow>
     (\<forall>script s s'. nft_apply h script s = (Inr (), s') \<longrightarrow> P s') \<and>
     (\<forall>i l. eff_keeps P (LinkSetUp (peer i) l)) \<and> (\<forall>i ro. eff_keeps P (RouteReplace (peer i) ro))"

definition guarded_up :: "('s \<Rightarrow> bool) \<Rightarrow> 's Handle \<Rightarrow> 's Handle" where
  "guarded_up P h = h\<lparr>LinkSetUp := \<lambda>l s. if P s then LinkSetUp h l s else (Inl (Errorf ''no source checks''), s)\<rparr>"

lemma guarded_up_simps [simp]:
  "LinkByName (guarded_up P h) = LinkByName h" "LinkList (guarded_up P h) = LinkList h" "LinkAdd (guarded_up P h) = LinkAdd h"
  "LinkDel (guarded_up P h) = LinkDel h" "LinkSetDown (guarded_up P h) = LinkSetDown h"
  "LinkSetAlias (guarded_up P h) = LinkSetAlias h" "GetNetNsIdByFd (guarded_up P h) = GetNetNsIdByFd h"
  "AddrList (guarded_up P h) = AddrList h" "RouteReplace (guarded_up P h) = RouteReplace h"
  "WriteFile (guarded_up P h) = WriteFile h" "nft_list (guarded_up P h) = nft_list h" "nft_apply (guarded_up P h) = nft_apply h"
  "P s \<Longrightarrow> LinkSetUp (guarded_up P h) l s = LinkSetUp h l s"
  by (simp_all add: guarded_up_def)

lemma guarded_parts:
  "applyENISourceChecks (guarded_up P h) = applyENISourceChecks h" "setENISysctls order (guarded_up P h) = setENISysctls order h"
  "find_pair (guarded_up P h) = find_pair h" "create_pair ev (guarded_up P h) = create_pair ev h"
  "deferred_delete (guarded_up P h) = deferred_delete h" "mark_pair (guarded_up P h) = mark_pair h"
  unfolding applyENISourceChecks_def setENISysctls_def [abs_def] find_pair_def [abs_def] create_pair_def [abs_def]
    deferred_delete_def [abs_def] mark_pair_def [abs_def] guarded_up_simps by (rule refl)+

lemma WithInstanceHandle_keeps: "(\<And>i. eff_keeps P (fn i)) \<Longrightarrow> eff_keeps P (WithInstanceHandle en t fn)"
  unfolding WithInstanceHandle_def WithFD_def by (intro eff_keep)

lemma connect_guarded:
  assumes "source_laws P h peer"
  shows "connect_pair ev (guarded_up P h) peer subnet eni target fd name al gateway created router s =
    connect_pair ev h peer subnet eni target fd name al gateway created router s"
  unfolding connect_pair_def guarded_parts guarded_up_simps
proof (intro eff_bind_cong refl, goal_cases)
  case (1 _ s1 _ s2 nsID s3 _ s4 _ s5 _ s6 _ s7)
  obtain script s' where "nft_apply h script s' = (Inr (), s6)" using 1(6) by (auto elim!: applyENISourceChecks_ok)
  then have "P s6" using assms unfolding source_laws_def by blast
  moreover have keeps: "eff_keeps P (WithInstanceHandle (ev_enter ev 2) target (\<lambda>i. activate_peer gateway (peer i)))"
    unfolding activate_peer_def using assms
    by (intro WithInstanceHandle_keeps eff_keep) (simp_all add: source_laws_def)
  ultimately have "P s7" using eff_keepsD [OF keeps, of s6] 1(7) by blast
  then show ?case by (simp add: eff_bind_def eff_wrap_def)
qed

lemma EnsureENI_guarded:
  assumes "source_laws P h peer"
  shows "EnsureENI ev (guarded_up P h) peer vpc subnet eni target = EnsureENI ev h peer vpc subnet eni target"
proof -
  have "connect_pair ev (guarded_up P h) peer = connect_pair ev h peer" by (intro ext) (rule connect_guarded [OF assms])
  then have "ensure_pair ev (guarded_up P h) peer = ensure_pair ev h peer"
    by (intro ext) (simp add: ensure_pair_def guarded_parts)
  then show ?thesis by (simp add: EnsureENI_def)
qed

section \<open>Failures and removal\<close>

text \<open>
  A failed attempt deletes the pair it made, except when the lookup after the marking fails:
  then the deferred function has no link to delete.
\<close>

lemma mark_pair_lost:
  assumes "LinkSetAlias h router al s = (Inr (), s')" and "LinkByName h name s' = Inl e"
  shows "mark_pair h name al router s = (Inl panic, s')"
  using assms by (simp add: mark_pair_def deferred_delete_def eff_bind_def eff_wrap_def)

lemma connect_failure_deletes:
  assumes "connect_pair ev h peer subnet eni target fd name al gateway True router s = (Inl e, s1)"
  shows "deferred_delete h True (Some router) (connect_pair ev h peer subnet eni target fd name al gateway True router) s =
    (Inl e, snd (LinkDel h router s1))"
  using assms by (simp add: deferred_delete_def)

lemma remove_pair_foreign:
  assumes "LinkByName h name s = Inr link" and "lk_Type link \<noteq> ''veth'' \<or> (case parseENIAlias (lk_Alias link) of Inl e \<Rightarrow> True
    | Inr i \<Rightarrow> ei_ID i \<noteq> eni_ID eni \<or> ei_IP i \<noteq> eni_PrivateIP eni \<or> ei_MAC i \<noteq> eni_MACAddress eni)"
  shows "\<exists>e. remove_pair h eni name s = (Inl e, s)"
  using assms by (auto simp: remove_pair_def eff_bind_def eff_try_def res_guard_def split: sum.splits)

lemma DeleteENI_frame:
  assumes "DeleteENI os h vpc eni (d, x) = (r, (d', x'))" and "Name (vpc_ShortIndex vpc) \<noteq> Inr m"
  shows "nd_lookup m d' = nd_lookup m d"
proof (cases "Name (vpc_ShortIndex vpc)")
  case (Inr ns)
  then have m: "m \<noteq> ns" using assms(2) by auto
  show ?thesis
  proof (cases "eniLinkName (eni_ShortIndex eni)")
    case (Inl e)
    then show ?thesis using assms(1) by (simp add: DeleteENI_def)
  next
    case name: (Inr name)
    obtain r1 d1 x1 where w: "WithHandle os ns (remove_pair h eni name) (d, x) = (r1, (d1, x1))" by (metis surj_pair)
    then have "d' = d1" using assms(1) Inr name by (auto simp: DeleteENI_def eff_try_def eff_bind_def split: sum.splits if_splits)
    then show ?thesis using WithHandle_frame(1) [OF w m] by simp
  qed
qed (use assms(1) in \<open>auto simp: DeleteENI_def eff_bind_def split: sum.splits\<close>)

end
