(* ===== verification/NetworkSweep.thy ===== *)
theory NetworkSweep
  imports NetworkConvergence Pager TopologyFacts
begin

text \<open>
  The sweep of the VPC controller over an engine: what one undisturbed pass writes, that the
  listing visits every VPC, and, for any engine that keeps the contract \<open>vpc_engine\<close>, that
  after a sweep the namespaces are those of the VPCs in the tables. The topology engine
  keeps the contract.
\<close>

section \<open>One undisturbed pass\<close>

definition quiet :: "step_env \<Rightarrow> bool" where
  "quiet env \<longleftrightarrow> se_between env = (\<lambda>n d. d) \<and> se_ctx env = None \<and> se_fault env = NoFault"

text \<open>The call of the engine for a VPC.\<close>

definition engine_call :: "'k NetworkEngine \<Rightarrow> vpc_row \<Rightarrow> db \<Rightarrow> ('k, unit) eff" where
  "engine_call ne v d =
     (if vr_deletion_requested v \<noteq> 0 then ne_DeleteVPC ne (vpc_of_row v)
      else ne_EnsureVPC ne (vpc_of_row v)
             (map subnet_of_row (filter (\<lambda>s. sr_deletion_requested s = 0) (q_ListSubnetsByVPC (vr_id v) d))))"

definition effect_text :: "step_env \<Rightarrow> unit res \<Rightarrow> string option" where
  "effect_text env r = (case r of Inl e \<Rightarrow> Some (se_text env e) | Inr _ \<Rightarrow> None)"

lemma effect_text_None [simp]: "effect_text env r = None \<longleftrightarrow> r = Inr ()"
  by (auto simp: effect_text_def split: sum.splits)

lemma active_children:
  "filter (\<lambda>s. \<not> sub_DeletionRequested s) (map subnet_of_row xs) = map subnet_of_row (filter (\<lambda>s. sr_deletion_requested s = 0) xs)"
  by (induction xs) (auto simp: subnet_of_row_def)

lemma reconcile_reports:
  assumes inv: "db_inv (w_db w)" and v: "v \<in> set (vpcs (w_db w))" and q: "quiet env"
    and call: "engine_call ne v (w_db w) (w_kernel w) = (r, k')"
    and room: "event_seq (w_db w) + 1 + int (length (q_ListSubnetsByVPC (vr_id v) (w_db w))) \<le> max_int64"
  shows "\<exists>d'. reconcileLocked ne env (vr_id v) w =
      (Inr (), w\<lparr>w_db := d', w_kernel := k',
         w_ctl := (if r = Inr () then clearRetry (vr_id v) (w_ctl w) else retry (se_now env) (vr_id v) (w_ctl w))\<rparr>) \<and>
    db_inv d' \<and> reported (effect_text env r) (vr_id v) d' \<and> only_network (vr_id v) (w_db w) d' \<and>
    (vr_id v \<in> vr_id ` set (vpcs d') \<longleftrightarrow> \<not> (vr_deletion_requested v \<noteq> 0 \<and> r = Inr ())) \<and>
    (\<forall>x \<in> set (vpcs d'). vr_id x = vr_id v \<longrightarrow> vr_short_index x = vr_short_index v) \<and>
    event_seq d' \<le> event_seq (w_db w) + 1 + int (length (q_ListSubnetsByVPC (vr_id v) (w_db w)))"
proof -
  let ?d = "w_db w" and ?i = "vr_id v"
  let ?cs = "map subnet_of_row (q_ListSubnetsByVPC ?i ?d)"
  have get: "store_GetVPC ''default'' ?i ?d = Inr (vpc_of_row v)"
    using store_GetVPC_cases [OF inv, of ?i] v vpc_rows(2) [OF inv v] by auto
  have cs: "store_ListSubnetsByVPC ?i ?d = Inr ?cs" by (rule store_ListSubnetsByVPC_ok [OF inv])
  have none: "vr_deletion_requested v \<noteq> 0 \<Longrightarrow> ?cs = []" using deleting_vpc_empty [OF inv v] by simp
  obtain d' where d': "tx_RecordTopology (unix_seconds (se_now env)) (vpc_of_row v) ?cs (effect_text env r) ?d = Inr ((), d')"
      "reported (effect_text env r) ?i d'" "only_network ?i ?d d'"
      "?i \<in> vr_id ` set (vpcs d') \<longleftrightarrow> \<not> (vr_deletion_requested v \<noteq> 0 \<and> r = Inr ())"
      "\<forall>x \<in> set (vpcs d'). vr_id x = ?i \<longrightarrow> vr_short_index x = vr_short_index v"
      "event_seq d' \<le> event_seq ?d + 1 + int (length (q_ListSubnetsByVPC ?i ?d))"
    using RecordTopology_reports [OF inv v room, of "unix_seconds (se_now env)" "effect_text env r"] by auto
  have "db_inv d'" using RecordTopology_keeps d'(1) inv unfolding tx_keeps_def by blast
  moreover have "store_RecordTopology None NoFault (unix_seconds (se_now env)) (vpc_of_row v) ?cs (effect_text env r) ?d = (Inr (), d')"
    using d'(1) by (simp add: store_RecordTopology_def WithTx_def)
  then have "reconcileLocked ne env ?i w =
      (Inr (), w\<lparr>w_db := d', w_kernel := k',
         w_ctl := (if r = Inr () then clearRetry ?i (w_ctl w) else retry (se_now env) ?i (w_ctl w))\<rparr>)"
    using q get cs none call
    by (cases r; cases "vr_deletion_requested v = 0")
      (auto simp: reconcileLocked_def quiet_def engine_call_def active_children effect_text_def Let_def
        vpc_of_row_def [of v])
  ultimately show ?thesis using d'(2-6) by blast
qed

section \<open>The listing of a sweep\<close>

lemma vpc_names_Inr:
  "vpc_names vs = Inr ns \<longleftrightarrow> list_all2 (\<lambda>v n. Name (vpc_ShortIndex v) = Inr n) vs ns"
  by (induction vs arbitrary: ns) (auto simp: res_bind_Inr list_all2_Cons1)

lemma sweep_list_all:
  assumes "db_inv d" and "sweep_list commits after d = (Inr (vs, ns), d')" and "commits = []"
  shows "d' = d \<and> vs = vpages.after_cursor after d \<and> list_all2 (\<lambda>v n. Name (vpc_ShortIndex v) = Inr n) vs ns"
  using assms
proof (induction commits after d arbitrary: vs ns rule: sweep_list.induct)
  case (1 commits after d)
  obtain page where page: "store_ListVPCPage defaultWorkspace after 100 d = Inr page"
    using vpages.page_rows [OF "1.prems"(1), of 100 after] by simp
  then have page': "store_ListVPCPage ''default'' after 100 d = Inr page" by simp
  show ?case
  proof (cases "page = []")
    case True
    then have "vpages.after_cursor after d = []"
      using vpages.page_empty [OF "1.prems"(1), of 100 after] page by simp
    then show ?thesis using "1.prems"(2) page' True by (subst (asm) sweep_list.simps) simp
  next
    case False
    obtain names vs' ns' where r: "vpc_names page = Inr names"
        "sweep_list [] (vpc_ID (last page)) d = (Inr (vs', ns'), d')" "vs = page @ vs'" "ns = names @ ns'"
      using "1.prems"(2,3) page' False
      by (subst (asm) sweep_list.simps) (auto split: sum.splits prod.splits)
    have "d' = d \<and> vs' = vpages.after_cursor (vpc_ID (last page)) d \<and>
        list_all2 (\<lambda>v n. Name (vpc_ShortIndex v) = Inr n) vs' ns'"
      using "1.IH" [OF page' False r(1)] "1.prems"(1,3) r(2) by simp
    moreover have "vpages.after_cursor after d = page @ vpages.after_cursor (vpc_ID (last page)) d"
      using vpages.page_split [OF "1.prems"(1) _ page False] by simp
    ultimately show ?thesis using r by (auto simp: vpc_names_Inr intro: list_all2_appendI)
  qed
qed


section \<open>Names\<close>

lemma ownedIndex_Name: "Name i = Inr n \<Longrightarrow> ownedIndex n = (i, True)"
proof -
  assume n: "Name i = Inr n"
  then have i: "1 \<le> i" "i \<le> maxIndex" "n = ns_prefix @ FormatInt i" by (simp_all add: Name_Inr)
  have "CutPrefix n ''nx-vpc-'' = Some (FormatInt i)" unfolding i(3) ns_prefix_def by (rule CutPrefix_append)
  then show ?thesis using n i(1,2) by (simp add: ownedIndex_def ParseInt_index)
qed

lemma ownedIndex_canonical: "ownedIndex n = (i, True) \<longleftrightarrow> Name i = Inr n"
proof
  assume "ownedIndex n = (i, True)"
  then show "Name i = Inr n" by (simp add: ownedIndex_def split: option.splits)
qed (rule ownedIndex_Name)

text \<open>Two VPCs never share a namespace: their indexes come from one sequence.\<close>

lemma short_index_unique:
  assumes "db_inv d" and "x \<in> set (vpcs d)" and "y \<in> set (vpcs d)" and "vr_short_index x = vr_short_index y"
  shows "x = y"
proof -
  have K: "kernel_ok (kernel_indexes d) (kernel_seq d)" using assms(1) by (simp add: db_inv_def)
  obtain a b where "a \<in> set (kernel_indexes d)" "kr_id a = vr_short_index x" "kr_resource_id a = vr_id x"
      "b \<in> set (kernel_indexes d)" "kr_id b = vr_short_index y" "kr_resource_id b = vr_id y"
    using vpc_rows(1) [OF assms(1,2)] vpc_rows(1) [OF assms(1,3)] by (auto simp: vrow_ok_def index_of_def)
  then have "vr_id x = vr_id y" using K assms(4) by (auto simp: kernel_ok_def dest: distinct_map_unique)
  then show ?thesis using vpc_rows(2) [OF assms(1,3,2)] by simp
qed

section \<open>The contract of an engine\<close>

locale vpc_engine =
  fixes ne :: "'k NetworkEngine"
    and good :: "'k \<Rightarrow> bool"
    and namespaces :: "'k \<Rightarrow> string set"
  assumes ensure_law: "good k \<Longrightarrow> ne_EnsureVPC ne v cs k = (r, k') \<Longrightarrow>
      good k' \<and> namespaces k \<subseteq> namespaces k' \<and> namespaces k' \<subseteq> namespaces k \<union> {n. Name (vpc_ShortIndex v) = Inr n} \<and>
      (r = Inr () \<longrightarrow> (\<exists>n \<in> namespaces k'. Name (vpc_ShortIndex v) = Inr n))"
    and delete_law: "good k \<Longrightarrow> ne_DeleteVPC ne v k = (r, k') \<Longrightarrow>
      good k' \<and> namespaces k' \<subseteq> namespaces k \<and> namespaces k \<subseteq> namespaces k' \<union> {n. Name (vpc_ShortIndex v) = Inr n} \<and>
      (r = Inr () \<longrightarrow> (\<exists>n. Name (vpc_ShortIndex v) = Inr n \<and> n \<notin> namespaces k'))"
    and list_law: "good k \<Longrightarrow> ne_ListVPCNames ne k = Inr xs \<Longrightarrow> set xs = namespaces k"
    and canonical: "n \<in> namespaces k \<Longrightarrow> \<exists>i. Name i = Inr n"
begin

lemma remove_orphans_ok:
  assumes "good k" and "remove_orphans ne wanted xs k = (Inr (), k')" and "\<forall>n \<in> set xs. \<exists>i. Name i = Inr n"
  shows "good k' \<and> namespaces k' = namespaces k - (set xs - set wanted)"
  using assms
proof (induction xs arbitrary: k)
  case (Cons n xs)
  show ?case
  proof (cases "n \<in> set wanted")
    case True
    then show ?thesis using Cons by auto
  next
    case False
    obtain i where i: "Name i = Inr n" using Cons.prems(3) by auto
    obtain k1 where k1: "ne_DeleteVPC ne (zero_VPC\<lparr>vpc_ID := n, vpc_ShortIndex := i\<rparr>) k = (Inr (), k1)"
        "remove_orphans ne wanted xs k1 = (Inr (), k')"
      using Cons.prems(2) False ownedIndex_Name [OF i] by (auto split: prod.splits sum.splits)
    have "good k1" "namespaces k1 = namespaces k - {n}"
      using delete_law [OF Cons.prems(1) k1(1)] i by (auto simp: zero_VPC_def)
    then show ?thesis using Cons.IH [OF _ k1(2)] Cons.prems(3) False by auto
  qed
qed simp

text \<open>No namespace without a VPC; a VPC is settled, with its namespace, or failed.\<close>

definition owned :: "db \<Rightarrow> 'k \<Rightarrow> bool" where
  "owned d k \<longleftrightarrow> (\<forall>n \<in> namespaces k. \<exists>v \<in> set (vpcs d). Name (vr_short_index v) = Inr n)"

definition converged :: "db \<Rightarrow> 'k \<Rightarrow> vpc_row \<Rightarrow> bool" where
  "converged d k v \<longleftrightarrow>
     (settled_vpc v \<and> (\<forall>s \<in> set (subnets d). sr_vpc_id s = vr_id v \<longrightarrow> settled_subnet s) \<and>
      (\<exists>n \<in> namespaces k. Name (vr_short_index v) = Inr n)) \<or> vr_state v = StateFailed"

lemma engine_call_law:
  assumes "good k" and "engine_call ne v d k = (r, k')"
  shows "good k'" and "Name (vr_short_index v) \<noteq> Inr n \<Longrightarrow> n \<in> namespaces k' \<longleftrightarrow> n \<in> namespaces k"
    and "r = Inr () \<Longrightarrow> \<exists>n. Name (vr_short_index v) = Inr n \<and> (n \<in> namespaces k' \<longleftrightarrow> vr_deletion_requested v = 0)"
proof -
  have s: "vpc_ShortIndex (vpc_of_row v) = vr_short_index v" by (simp add: vpc_of_row_def)
  show "good k'" "Name (vr_short_index v) \<noteq> Inr n \<Longrightarrow> n \<in> namespaces k' \<longleftrightarrow> n \<in> namespaces k"
    "r = Inr () \<Longrightarrow> \<exists>n. Name (vr_short_index v) = Inr n \<and> (n \<in> namespaces k' \<longleftrightarrow> vr_deletion_requested v = 0)"
    using assms(2) ensure_law [OF assms(1), of "vpc_of_row v" _ r k'] delete_law [OF assms(1), of "vpc_of_row v" r k']
    by (auto simp: engine_call_def s split: if_splits) blast+
qed

lemma pass_converges:
  assumes inv: "db_inv (w_db w)" and good: "good (w_kernel w)" and v: "v \<in> set (vpcs (w_db w))" and q: "quiet env"
    and room: "event_seq (w_db w) + 1 + int (length (q_ListSubnetsByVPC (vr_id v) (w_db w))) \<le> max_int64"
    and own: "owned (w_db w) (w_kernel w)"
  shows "\<exists>w'. reconcileLocked ne env (vr_id v) w = (Inr (), w') \<and> db_inv (w_db w') \<and> good (w_kernel w') \<and>
    owned (w_db w') (w_kernel w') \<and> only_network (vr_id v) (w_db w) (w_db w') \<and>
    (\<forall>x \<in> set (vpcs (w_db w')). vr_id x = vr_id v \<or> converged (w_db w) (w_kernel w) x \<longrightarrow> converged (w_db w') (w_kernel w') x) \<and>
    event_seq (w_db w') \<le> event_seq (w_db w) + 1 + int (length (q_ListSubnetsByVPC (vr_id v) (w_db w)))"
proof -
  obtain r k' where call: "engine_call ne v (w_db w) (w_kernel w) = (r, k')" by (metis surj_pair)
  note law = engine_call_law [OF good call]
  obtain d' c where d': "reconcileLocked ne env (vr_id v) w = (Inr (), w\<lparr>w_db := d', w_kernel := k', w_ctl := c\<rparr>)"
      "db_inv d'" "reported (effect_text env r) (vr_id v) d'" "only_network (vr_id v) (w_db w) d'"
      "vr_id v \<in> vr_id ` set (vpcs d') \<longleftrightarrow> \<not> (vr_deletion_requested v \<noteq> 0 \<and> r = Inr ())"
      "\<forall>x \<in> set (vpcs d'). vr_id x = vr_id v \<longrightarrow> vr_short_index x = vr_short_index v"
      "event_seq d' \<le> event_seq (w_db w) + 1 + int (length (q_ListSubnetsByVPC (vr_id v) (w_db w)))"
    using reconcile_reports [OF inv v q call room] by blast
  have others: "x \<in> set (vpcs d') \<longleftrightarrow> x \<in> set (vpcs (w_db w))" if "vr_id x \<noteq> vr_id v" for x
    using d'(4) that by (simp add: only_network_def)
  have apart: "Name (vr_short_index v) \<noteq> Inr n" if "x \<in> set (vpcs (w_db w))" "x \<noteq> v" "Name (vr_short_index x) = Inr n" for x n
    using short_index_unique [OF inv that(1) v] that(2,3) Name_inject by blast
  have "owned d' k'"
    unfolding owned_def
  proof
    fix n assume n: "n \<in> namespaces k'"
    show "\<exists>x \<in> set (vpcs d'). Name (vr_short_index x) = Inr n"
    proof (cases "Name (vr_short_index v) = Inr n")
      case True
      then have "vr_id v \<in> vr_id ` set (vpcs d')" using d'(5) law(3) n by auto
      then obtain x where "x \<in> set (vpcs d')" "vr_id x = vr_id v" by auto
      then show ?thesis using True d'(6) by (intro bexI [of _ x]) simp_all
    next
      case False
      then have "n \<in> namespaces (w_kernel w)" using law(2) n by blast
      then obtain x where x: "x \<in> set (vpcs (w_db w))" "Name (vr_short_index x) = Inr n" using own by (auto simp: owned_def)
      then have "vr_id x \<noteq> vr_id v" using False vpc_rows(2) [OF inv v x(1)] by auto
      then show ?thesis using x others by blast
    qed
  qed
  moreover have "converged d' k' x" if x: "x \<in> set (vpcs d')" "vr_id x = vr_id v" for x
  proof (cases "r = Inr ()")
    case True
    then have "vr_deletion_requested v = 0" using d'(5) x by (metis imageI)
    then show ?thesis
      using True d'(3,6) x law(3) by (auto simp: reported_def converged_def vpc_reported_def subnet_reported_def effect_text_def)
  next
    case False
    then show ?thesis using d'(3) x by (cases r) (auto simp: reported_def converged_def vpc_reported_def effect_text_def)
  qed
  moreover have "converged d' k' x" if x: "x \<in> set (vpcs d')" "vr_id x \<noteq> vr_id v" "converged (w_db w) (w_kernel w) x" for x
  proof -
    have "x \<in> set (vpcs (w_db w))" "x \<noteq> v" using others x by auto
    then have "n \<in> namespaces k'" if "n \<in> namespaces (w_kernel w)" "Name (vr_short_index x) = Inr n" for n
      using apart law(2) that by blast
    moreover have "s \<in> set (subnets d') \<longleftrightarrow> s \<in> set (subnets (w_db w))" if "sr_vpc_id s = vr_id x" for s
      using d'(4) x(2) that by (simp add: only_network_def)
    ultimately show ?thesis using x(3) unfolding converged_def by blast
  qed
  ultimately show ?thesis using d'(1,2,4,7) law(1)
    by (intro exI [of _ "w\<lparr>w_db := d', w_kernel := k', w_ctl := c\<rparr>"]) auto
qed


lemma children_length:
  assumes "db_inv d" and "db_inv d'" and "only_network i d d'" and "j \<noteq> i"
  shows "length (q_ListSubnetsByVPC j d') = length (q_ListSubnetsByVPC j d)"
proof -
  have "length (q_ListSubnetsByVPC j x) = card {r \<in> set (subnets x). sr_vpc_id r = j}" if "db_inv x" for x
    using children_distinct [OF that, of j] distinct_card [of "q_ListSubnetsByVPC j x"] set_q_ListSubnetsByVPC [of j x]
    by (simp add: distinct_map)
  moreover have "{r \<in> set (subnets d'). sr_vpc_id r = j} = {r \<in> set (subnets d). sr_vpc_id r = j}"
    using assms(3,4) by (auto simp: only_network_def)
  ultimately show ?thesis using assms(1,2) by simp
qed

lemma passes_converge:
  assumes "db_inv (w_db w)" and "good (w_kernel w)" and "owned (w_db w) (w_kernel w)" and "\<forall>i. quiet (envs i)"
    and "distinct (map vpc_ID vs)" and "set (map vpc_ID vs) \<subseteq> vr_id ` set (vpcs (w_db w))"
    and "\<forall>v \<in> set vs. length (q_ListSubnetsByVPC (vpc_ID v) (w_db w)) \<le> N"
    and "event_seq (w_db w) + int (length vs) * (1 + int N) \<le> max_int64"
    and "\<forall>x \<in> set (vpcs (w_db w)). vr_id x \<notin> set (map vpc_ID vs) \<longrightarrow> converged (w_db w) (w_kernel w) x"
  shows "\<exists>w'. reconcile_all ne envs vs w = (Inr (), w') \<and> db_inv (w_db w') \<and> good (w_kernel w') \<and>
    owned (w_db w') (w_kernel w') \<and> (\<forall>x \<in> set (vpcs (w_db w')). converged (w_db w') (w_kernel w') x)"
  using assms
proof (induction vs arbitrary: w)
  case Nil
  then show ?case by auto
next
  case (Cons v vs)
  obtain u where u: "u \<in> set (vpcs (w_db w))" "vr_id u = vpc_ID v" using Cons.prems(6) by auto
  have N: "length (q_ListSubnetsByVPC (vr_id u) (w_db w)) \<le> N" using Cons.prems(7) u(2) by simp
  have seq: "event_seq (w_db w) + 1 + int N + int (length vs) * (1 + int N) \<le> max_int64"
    using Cons.prems(8) by (simp add: algebra_simps)
  moreover have "0 \<le> int (length vs) * (1 + int N)" by simp
  ultimately have room: "event_seq (w_db w) + 1 + int (length (q_ListSubnetsByVPC (vr_id u) (w_db w))) \<le> max_int64"
    using N by linarith
  obtain w1 where w1: "reconcileLocked ne (envs (vpc_ID v)) (vpc_ID v) w = (Inr (), w1)" "db_inv (w_db w1)"
      "good (w_kernel w1)" "owned (w_db w1) (w_kernel w1)" "only_network (vpc_ID v) (w_db w) (w_db w1)"
      "\<forall>x \<in> set (vpcs (w_db w1)). vr_id x = vpc_ID v \<or> converged (w_db w) (w_kernel w) x \<longrightarrow> converged (w_db w1) (w_kernel w1) x"
      "event_seq (w_db w1) \<le> event_seq (w_db w) + 1 + int (length (q_ListSubnetsByVPC (vr_id u) (w_db w)))"
    using pass_converges [OF Cons.prems(1,2) u(1) _ room Cons.prems(3), of "envs (vpc_ID v)"] Cons.prems(4) u(2) by auto
  have ids: "vpc_ID x \<noteq> vpc_ID v" if "x \<in> set vs" for x using Cons.prems(5) that by (metis distinct.simps(2) image_eqI list.set_map list.simps(9))
  have same: "x \<in> set (vpcs (w_db w1)) \<longleftrightarrow> x \<in> set (vpcs (w_db w))" if "vr_id x \<noteq> vpc_ID v" for x
    using w1(5) that by (simp add: only_network_def)
  have "set (map vpc_ID vs) \<subseteq> vr_id ` set (vpcs (w_db w1))"
  proof
    fix i assume "i \<in> set (map vpc_ID vs)"
    then have i: "i \<in> vr_id ` set (vpcs (w_db w))" "i \<noteq> vpc_ID v" using Cons.prems(6) ids by auto
    then obtain x where x: "x \<in> set (vpcs (w_db w))" "vr_id x = i" "i \<noteq> vpc_ID v" by blast
    then show "i \<in> vr_id ` set (vpcs (w_db w1))" using same by blast
  qed
  moreover have "\<forall>x \<in> set vs. length (q_ListSubnetsByVPC (vpc_ID x) (w_db w1)) \<le> N"
    using children_length [OF Cons.prems(1) w1(2,5)] ids Cons.prems(7) by simp
  moreover have "event_seq (w_db w1) + int (length vs) * (1 + int N) \<le> max_int64" using seq w1(7) N by linarith
  moreover have "\<forall>x \<in> set (vpcs (w_db w1)). vr_id x \<notin> set (map vpc_ID vs) \<longrightarrow> converged (w_db w1) (w_kernel w1) x"
    using w1(6) Cons.prems(9) same by auto
  ultimately obtain w' where "reconcile_all ne envs vs w1 = (Inr (), w')" "db_inv (w_db w')" "good (w_kernel w')"
      "owned (w_db w') (w_kernel w')" "\<forall>x \<in> set (vpcs (w_db w')). converged (w_db w') (w_kernel w') x"
    using Cons.IH [OF w1(2-4) Cons.prems(4)] Cons.prems(5) by auto
  then show ?case using w1(1) by auto
qed

text \<open>
  A sweep that no one disturbs returns an error only for a VPC without a namespace name, for
  a failed listing or for an orphan that could not be removed. Otherwise every namespace
  belongs to a VPC of the tables, and every VPC is settled with its namespace or failed.
\<close>

lemma sweep_converges:
  assumes inv: "db_inv (w_db w)" and good: "good (w_kernel w)" and q: "\<forall>i. quiet (envs i)"
    and room: "event_seq (w_db w) + int (length (vpcs (w_db w))) * (1 + int (length (subnets (w_db w)))) \<le> max_int64"
    and ls: "sweep_list [] [] (w_db w) = (Inr (vs, wanted), d)"
    and xs: "ne_ListVPCNames ne (w_kernel w) = Inr xs"
    and del: "remove_orphans ne wanted xs (w_kernel w) = (Inr (), k)"
  shows "\<exists>w'. Sweep ne [] envs w = (Inr (), w') \<and> db_inv (w_db w') \<and> good (w_kernel w') \<and>
    owned (w_db w') (w_kernel w') \<and> (\<forall>x \<in> set (vpcs (w_db w')). converged (w_db w') (w_kernel w') x)"
proof -
  let ?d = "w_db w"
  have s: "d = ?d" "vs = vpc_listing ?d" "list_all2 (\<lambda>v n. Name (vpc_ShortIndex v) = Inr n) vs wanted"
    using sweep_list_all [OF inv ls refl] vpages.after_start [OF inv] by auto
  have k: "good k" "namespaces k = namespaces (w_kernel w) - (set xs - set wanted)"
    using remove_orphans_ok [OF good del] list_law [OF good xs] canonical by auto
  let ?w = "w\<lparr>w_db := d, w_kernel := k\<rparr>"
  have rows: "set vs = vpc_of_row ` set (vpcs ?d)" by (simp add: s(2) vpc_listing_def)
  have "\<exists>v \<in> set vs. Name (vpc_ShortIndex v) = Inr n" if "n \<in> set wanted" for n
  proof -
    obtain i where i: "i < length wanted" "wanted ! i = n" using \<open>n \<in> set wanted\<close> by (auto simp: in_set_conv_nth)
    then have "i < length vs" "Name (vpc_ShortIndex (vs ! i)) = Inr n"
      using list_all2_nthD2 [OF s(3) i(1)] list_all2_lengthD [OF s(3)] by simp_all
    then show ?thesis by (intro bexI [of _ "vs ! i"]) simp_all
  qed
  moreover have "n \<in> set wanted" if "n \<in> namespaces k" for n using that k(2) list_law [OF good xs] by auto
  ultimately have own: "owned (w_db ?w) (w_kernel ?w)"
    unfolding owned_def using rows s(1) by (fastforce simp: vpc_of_row_def)
  have "map vpc_ID vs = map vr_id (sort_key vr_id (vpcs ?d))" by (simp add: s(2) vpc_listing_def comp_def vpc_of_row_def)
  moreover have "distinct (map vr_id (vpcs ?d))" using inv by (simp add: db_inv_def vpcs_ok_def)
  ultimately have ids: "set (map vpc_ID vs) = vr_id ` set (vpcs ?d)" "distinct (map vpc_ID vs)" "length vs = length (vpcs ?d)"
    by (auto simp: distinct_map dest: arg_cong [of _ _ length])
  have "length (q_ListSubnetsByVPC i ?d) \<le> length (subnets ?d)" for i by (simp add: q_ListSubnetsByVPC_def)
  then obtain w' where "reconcile_all ne envs vs ?w = (Inr (), w')" "db_inv (w_db w')" "good (w_kernel w')"
      "owned (w_db w') (w_kernel w')" "\<forall>x \<in> set (vpcs (w_db w')). converged (w_db w') (w_kernel w') x"
    using passes_converge [of ?w envs vs "length (subnets ?d)"] inv k(1) own q ids room s(1) by auto
  then show ?thesis using ls xs del by (simp add: Sweep_def s(1))
qed

end

section \<open>The topology engine\<close>

lemma DeleteVPC_present:
  "DeleteVPC os vpc (d, x) = (r, (d', x')) \<Longrightarrow> nd_lookup m d' \<noteq> None \<Longrightarrow> nd_lookup m d \<noteq> None"
  by (cases "Name (vpc_ShortIndex vpc)")
    (auto simp: DeleteVPC_def eff_bind_def eff_wrap_def eff_fst_def Delete_def Let_def
      split: prod.splits sum.splits if_splits)

text \<open>The interface as the daemon wires it, with the environment of its calls.\<close>

definition topology_engine ::
  "engine_env \<Rightarrow> os_env \<Rightarrow> os_env \<Rightarrow> 'n \<Rightarrow> ('n \<times> 'x) Handle \<Rightarrow> ('n, 'x) kernel NetworkEngine" where
  "topology_engine ee os_del os_list fresh h =
     \<lparr>ne_EnsureVPC = EnsureVPC ee fresh h, ne_DeleteVPC = DeleteVPC os_del, ne_ListVPCNames = ListVPCNames os_list\<rparr>"

definition dir_ok :: "('n, 'x) kernel \<Rightarrow> bool" where
  "dir_ok k \<longleftrightarrow> nd_exists (fst k) \<or> nd_entries (fst k) = []"

definition vpc_namespaces :: "('n, 'x) kernel \<Rightarrow> string set" where
  "vpc_namespaces k = {n. validateName n = Inr () \<and> nd_lookup n (fst k) \<noteq> None}"

lemma Ensure_dir: "Ensure os fresh name d = (r, d') \<Longrightarrow> nd_exists d \<or> nd_entries d = [] \<Longrightarrow> nd_exists d' \<or> nd_entries d' = []"
  by (auto simp: Ensure_def Let_def split: sum.splits if_splits)

lemma Delete_dir:
  assumes "Delete os name d = (r, d')" and "nd_exists d \<or> nd_entries d = []"
  shows "nd_exists d' \<or> nd_entries d' = []"
  using assms by (cases "nd_exists d")
    (auto simp: Delete_def Let_def nd_lookup_def nd_put_def nd_remove_def split: sum.splits if_splits)

lemma Ensure_keeps_entry: "Ensure os fresh name d = (r, d') \<Longrightarrow> nd_lookup m d \<noteq> None \<Longrightarrow> nd_lookup m d' \<noteq> None"
  using Ensure_frame [of os fresh name d r d'] by (cases "m = name") auto

interpretation topology: vpc_engine "topology_engine ee os_del os_list fresh h" dir_ok vpc_namespaces
  for ee os_del os_list fresh h
proof
  fix k k' :: "('a, 'b) kernel" and v cs r
  assume ok: "dir_ok k" and run: "ne_EnsureVPC (topology_engine ee os_del os_list fresh h) v cs k = (r, k')"
  obtain d x d' x' where k: "k = (d, x)" "k' = (d', x')" by (metis surj_pair)
  have ens: "EnsureVPC ee fresh h v cs (d, x) = (r, (d', x'))" using run k by (simp add: topology_engine_def)
  have present: "nd_lookup m d \<noteq> None \<Longrightarrow> nd_lookup m d' \<noteq> None" for m
    using ens
  proof (cases rule: EnsureVPC_cases)
    case (ran name gs r1 d1)
    assume "nd_lookup m d \<noteq> None"
    then have "nd_lookup m d1 \<noteq> None" using Ensure_keeps_entry [OF ran(3)] by blast
    then show ?thesis
      using ran(4) WithHandle_frame(1,3) [of "ee_enter ee" name "ensure_router ee h v gs" d1 x r d' x'] by (cases "m = name") auto
  qed simp
  have dir: "dir_ok k'"
    using ens
  proof (cases rule: EnsureVPC_cases)
    case refused
    then show ?thesis using ok k by simp
  next
    case (ran name gs r1 d1)
    then have d1: "nd_exists d1 \<or> nd_entries d1 = []" using Ensure_dir [OF ran(3)] ok k(1) by (simp add: dir_ok_def)
    show ?thesis using ran(4)
    proof
      assume w: "r1 = Inr () \<and> WithHandle (ee_enter ee) name (ensure_router ee h v gs) (d1, x) = (r, d', x')"
      then have "nd_exists d1" using Ensure_ok [of "ee_ensure ee" fresh name d d1] ran(3) by simp
      then show ?thesis using w WithHandle_frame(2) [of "ee_enter ee" name "ensure_router ee h v gs" d1 x r d' x'] k(2)
        by (simp add: dir_ok_def)
    qed (use d1 k in \<open>auto simp: dir_ok_def\<close>)
  qed
  have "n \<in> vpc_namespaces k \<union> {n. Name (vpc_ShortIndex v) = Inr n}" if "n \<in> vpc_namespaces k'" for n
    using that EnsureVPC_frame [OF ens, of n] k by (cases "Name (vpc_ShortIndex v) = Inr n") (auto simp: vpc_namespaces_def)
  moreover have "\<exists>n \<in> vpc_namespaces k'. Name (vpc_ShortIndex v) = Inr n" if "r = Inr ()"
    using EnsureVPC_ok [of ee fresh h v cs d x d' x'] ens that k validateName_iff by (auto simp: vpc_namespaces_def)
  ultimately show "dir_ok k' \<and> vpc_namespaces k \<subseteq> vpc_namespaces k' \<and>
      vpc_namespaces k' \<subseteq> vpc_namespaces k \<union> {n. Name (vpc_ShortIndex v) = Inr n} \<and>
      (r = Inr () \<longrightarrow> (\<exists>n \<in> vpc_namespaces k'. Name (vpc_ShortIndex v) = Inr n))"
    using dir present k by (auto simp: vpc_namespaces_def)
next
  fix k k' :: "('a, 'b) kernel" and v r
  assume ok: "dir_ok k" and run: "ne_DeleteVPC (topology_engine ee os_del os_list fresh h) v k = (r, k')"
  obtain d x d' x' where k: "k = (d, x)" "k' = (d', x')" by (metis surj_pair)
  have del: "DeleteVPC os_del v (d, x) = (r, (d', x'))" using run k by (simp add: topology_engine_def)
  have dir: "dir_ok k'"
    using del Delete_dir ok k
    by (cases "Name (vpc_ShortIndex v)")
      (fastforce simp: DeleteVPC_def eff_bind_def eff_wrap_def eff_fst_def dir_ok_def split: prod.splits)+
  have gone: "nd_lookup m d' \<noteq> None \<Longrightarrow> nd_lookup m d \<noteq> None" for m
    using DeleteVPC_frame(1) [OF del, of m] DeleteVPC_present [OF del, of m] by auto
  show "dir_ok k' \<and> vpc_namespaces k' \<subseteq> vpc_namespaces k \<and>
      vpc_namespaces k \<subseteq> vpc_namespaces k' \<union> {n. Name (vpc_ShortIndex v) = Inr n} \<and>
      (r = Inr () \<longrightarrow> (\<exists>n. Name (vpc_ShortIndex v) = Inr n \<and> n \<notin> vpc_namespaces k'))"
    using dir gone DeleteVPC_frame [OF del] k by (auto simp: vpc_namespaces_def)
next
  fix k :: "('a, 'b) kernel" and xs
  assume ok: "dir_ok k" and run: "ne_ListVPCNames (topology_engine ee os_del os_list fresh h) k = Inr xs"
  show "set xs = vpc_namespaces k"
  proof (cases "nd_exists (fst k)")
    case True
    then show ?thesis using List_Inr run by (auto simp: topology_engine_def ListVPCNames_def vpc_namespaces_def)
  next
    case False
    then show ?thesis using ok run
      by (auto simp: topology_engine_def ListVPCNames_def vpc_namespaces_def dir_ok_def List_def nd_lookup_def res_bind_Inr)
  qed
next
  fix n and k :: "('a, 'b) kernel"
  show "n \<in> vpc_namespaces k \<Longrightarrow> \<exists>i. Name i = Inr n" by (simp add: vpc_namespaces_def validateName_iff)
qed

end
