(* ===== verification/NetworkProps.thy ===== *)
theory NetworkProps
  imports EniFacts NetworkSweep Samples
begin

text \<open>
  What the network side promises, at the level of the engine's calls and of the VPC
  controller's sweep, and a small kernel on which it is applied.
\<close>

section \<open>A kernel\<close>

text \<open>
  A namespace with links, addresses of the router and two possible rules; a rule is listed
  as a message of one byte behind the header.
\<close>

record router_ns =
  rn_links :: "Link list"
  rn_addrs :: "Address list"
  rn_rules :: "char list"
  rn_checked :: bool

definition missing_link :: "'a res" where
  "missing_link = Inl (ErrSentinel ''netlink.LinkNotFoundError'')"

definition block16 :: ipnet where
  "block16 = \<lparr>n_IP = [10, 0, 0, 0], n_Mask = [255, 255, 0, 0]\<rparr>"

definition rule_code :: "Rule \<Rightarrow> char option" where
  "rule_code r = (if r = local_rule block16 then Some CHR ''l'' else if r = drop_rule then Some CHR ''d'' else None)"

definition put_link :: "new_link \<Rightarrow> Link list \<Rightarrow> Link list" where
  "put_link n ls = ls @ [\<lparr>lk_Name = (case n of Dummy x \<Rightarrow> x | Veth x _ _ _ \<Rightarrow> x), lk_Index = int (length ls) + 1,
     lk_Type = (case n of Dummy _ \<Rightarrow> ''dummy'' | _ \<Rightarrow> ''veth''), lk_Alias = (case n of Dummy _ \<Rightarrow> [] | Veth _ a _ _ \<Rightarrow> a),
     lk_ParentIndex = 0, lk_NetNsID = 0\<rparr>]"

definition ok :: "(router_ns \<Rightarrow> router_ns) \<Rightarrow> (router_ns \<times> unit, unit) eff" where
  "ok f s = (Inr (), (f (fst s), snd s))"

definition kernel_handle :: "(router_ns \<times> unit) Handle" where
  "kernel_handle = \<lparr>
     LinkByName = (\<lambda>n s. case find (\<lambda>l. lk_Name l = n) (rn_links (fst s)) of None \<Rightarrow> missing_link | Some l \<Rightarrow> Inr l),
     LinkList = (\<lambda>s. Inr (rn_links (fst s))),
     LinkAdd = (\<lambda>n. ok (\<lambda>r. r\<lparr>rn_links := put_link n (rn_links r)\<rparr>)),
     LinkDel = (\<lambda>l. ok (\<lambda>r. r\<lparr>rn_links := filter (\<lambda>k. lk_Name k \<noteq> lk_Name l) (rn_links r)\<rparr>)),
     LinkSetUp = (\<lambda>l. ok (\<lambda>r. r)), LinkSetDown = (\<lambda>l. ok (\<lambda>r. r)),
     LinkSetAlias = (\<lambda>l a. ok (\<lambda>r. r)), LinkSetName = (\<lambda>l n. ok (\<lambda>r. r)), LinkSetHardwareAddr = (\<lambda>l m. ok (\<lambda>r. r)),
     GetNetNsIdByFd = (\<lambda>fd s. Inr 0),
     AddrList = (\<lambda>l s. Inr (rn_addrs (fst s))),
     AddrAdd = (\<lambda>l a. ok (\<lambda>r. r\<lparr>rn_addrs := rn_addrs r @ [a]\<rparr>)),
     AddrDel = (\<lambda>l a. ok (\<lambda>r. r\<lparr>rn_addrs := removeAll a (rn_addrs r)\<rparr>)),
     AddrReplace = (\<lambda>l a. ok (\<lambda>r. r)), RouteReplace = (\<lambda>ro. ok (\<lambda>r. r)),
     RuleAdd = (\<lambda>u s. case rule_code u of None \<Rightarrow> (Inl (Errorf ''unknown rule''), s)
                       | Some c \<Rightarrow> ok (\<lambda>r. r\<lparr>rn_rules := rn_rules r @ [c]\<rparr>) s),
     RuleDump = (\<lambda>s. Inr (map (\<lambda>c. replicate 12 CHR 0x00 @ [c]) (rn_rules (fst s)))),
     DeserializeRtMsg = (\<lambda>raw. if last raw = CHR ''l'' then \<lparr>rt_Dst_len = 16, rt_Table = 254, rt_Type = 1\<rparr>
                               else \<lparr>rt_Dst_len = 0, rt_Table = 254, rt_Type = 6\<rparr>),
     ParseRouteAttr = (\<lambda>b. Inr (if b = ''l'' then [(FRA_PRIORITY, [CHR 0x00, CHR 0x00, CHR 0x00, CHR 0x64]),
                                     (FRA_DST, [CHR 0x0A, CHR 0x00, CHR 0x00, CHR 0x00])]
                                else [(FRA_PRIORITY, [CHR 0x00, CHR 0x00, CHR 0x7D, CHR 0x00])])),
     NativeUint32 = (\<lambda>b. foldl (\<lambda>a c. a * 256 + of_char c) 0 b),
     WriteFile = (\<lambda>p v. ok (\<lambda>r. r)), nft_list = (\<lambda>s. Inr ''{}''), nft_apply = (\<lambda>t. ok (\<lambda>r. r\<lparr>rn_checked := True\<rparr>))\<rparr>"

definition loopback :: Link where
  "loopback = \<lparr>lk_Name = ''lo'', lk_Index = 1, lk_Type = ''device'', lk_Alias = [], lk_ParentIndex = 0, lk_NetNsID = 0\<rparr>"

definition fresh_ns :: router_ns where
  "fresh_ns = \<lparr>rn_links = [loopback], rn_addrs = [], rn_rules = [], rn_checked = False\<rparr>"








section \<open>The router of a VPC\<close>






definition calm :: engine_env where
  "calm = \<lparr>ee_ensure = no_faults, ee_enter = no_faults, ee_ctx0 = None, ee_ctx1 = None\<rparr>"

definition no_dir :: "(router_ns, unit) kernel" where
  "no_dir = (\<lparr>nd_exists = False, nd_entries = []\<rparr>, ())"

definition routed :: "unit res \<times> (router_ns, unit) kernel" where
  "routed = EnsureVPC calm fresh_ns kernel_handle (vpc_of_row vpc_row1) (map subnet_of_row (subnets db3)) no_dir"




text \<open>
  C27: The engine never refuses what the tables hold: in every reachable state the subnets of
  a VPC, however many of them are passed, have their gateways computed, in ascending order.
\<close>

theorem engine_accepts_tables:
  assumes "reachable d" and "v \<in> set (vpcs d)" and "set ss \<subseteq> set (q_ListSubnetsByVPC (vr_id v) d)" and "distinct (map sr_id ss)"
  shows "desiredGateways (vpc_of_row v) (map subnet_of_row ss) =
    Inr (sort_key ip4 (map (\<lambda>s. Gateway (cidr_of (sr_cidr_block s))) ss))"
  by (rule rows_accepted [OF reachable_inv [OF assms(1)] assms(2)])
    (use assms(3,4) set_q_ListSubnetsByVPC [of "vr_id v" d] in auto)

theorem engine_accepts_tables_witness:
  "desiredGateways (vpc_of_row vpc_row1) (map subnet_of_row (subnets db3)) = Inr [IP4 0x0A000101, IP4 0x0A000201]"
proof -
  have v: "vpc_row1 \<in> set (vpcs db3)" by (simp add: db3_def db2_def db1_def)
  have s: "set (subnets db3) \<subseteq> set (q_ListSubnetsByVPC (vr_id vpc_row1) db3)"
    by (auto simp: set_q_ListSubnetsByVPC) (auto simp: db3_def db2_def subnet_row1_def vpc_row1_def)
  have dist: "distinct (map sr_id (subnets db3))" by (simp add: db3_def db2_def subnet_row1_def subnet_checks)
  have "sort_key ip4 (map (\<lambda>s. Gateway (cidr_of (sr_cidr_block s))) (subnets db3)) = [IP4 0x0A000101, IP4 0x0A000201]"
    by code_simp
  then show ?thesis using engine_accepts_tables [OF db_reachable(3) v s dist] by simp
qed

text \<open>
  C31: A call for one VPC leaves the namespaces of all others as they are, whatever it returns.
\<close>

theorem other_namespaces_untouched:
  assumes "Name (vpc_ShortIndex vpc) \<noteq> Inr m"
  shows "nd_lookup m (fst (snd (EnsureVPC ee fresh h vpc cs (d, x)))) = nd_lookup m d \<and>
    nd_lookup m (fst (snd (DeleteVPC os vpc (d, x)))) = nd_lookup m d \<and>
    nd_lookup m (fst (snd (DeleteENI os h vpc eni (d, x)))) = nd_lookup m d"
  using EnsureVPC_frame [of ee fresh h vpc cs d x _ _ _ m] DeleteVPC_frame(1) [of os vpc d x _ _ _ m]
    DeleteENI_frame [of os h vpc eni d x _ _ _ m] assms by (metis prod.collapse)

theorem other_namespaces_untouched_witness:
  "nd_lookup ''nx-vpc-2'' (fst (snd routed)) = None"
proof -
  have "Name (vpc_ShortIndex (vpc_of_row vpc_row1)) \<noteq> Inr ''nx-vpc-2''" by code_simp
  from other_namespaces_untouched [OF this, of calm fresh_ns kernel_handle "map subnet_of_row (subnets db3)" "fst no_dir" "snd no_dir"]
  show ?thesis by (simp add: routed_def) (simp add: no_dir_def nd_lookup_def)
qed

text \<open>
  Names are canonical: a namespace name belongs to an index, and a link name to an
  interface, exactly when the name is the one made from it.
\<close>

theorem names_canonical:
  "(ownedIndex n = (i, True) \<longleftrightarrow> Name i = Inr n) \<and> (validateName n = Inr () \<longleftrightarrow> (\<exists>i. Name i = Inr n)) \<and>
   (canonicalENILink n \<longleftrightarrow> (\<exists>i. eniLinkName i = Inr n))"
  using ownedIndex_canonical validateName_iff canonicalENILink_iff by blast

text \<open>
  What is not a namespace is never removed: a symbolic link, or a file that is not a
  namespace mount, makes Delete fail and stays.
\<close>

theorem delete_refuses_foreign:
  assumes "nd_lookup name d = Some SymlinkEntry \<or> (\<exists>m. nd_lookup name d = Some (FileEntry m) \<and> m \<noteq> NSFS_MAGIC)"
  shows "\<exists>e. Delete os name d = (Inl e, d)"
  by (rule Delete_foreign [OF assms])

theorem delete_refuses_foreign_witness:
  "\<exists>e. Delete no_faults ''nx-vpc-1'' \<lparr>nd_exists = True, nd_entries = [(''nx-vpc-1'', SymlinkEntry :: router_ns ns_entry)]\<rparr> =
     (Inl e, \<lparr>nd_exists = True, nd_entries = [(''nx-vpc-1'', SymlinkEntry)]\<rparr>)"
  by (rule delete_refuses_foreign) (simp add: nd_lookup_def)





section \<open>The sweep\<close>






section \<open>Interfaces\<close>


definition calm_eni :: eni_env where
  "calm_eni = \<lparr>ev_ctx = None, ev_Dup = Inr (), ev_os = no_faults, ev_ctx0 = None,
     ev_enter = (\<lambda>_. \<lparr>en_ctx = None, en_Dup = Inr (), en_ctx1 = None, en_Setns = None, en_NewHandle = None\<rparr>),
     ev_order = eni_sysctls, ev_ParseAddr = (\<lambda>_. Inr \<lparr>ad_IPNet = None, ad_Label = []\<rparr>)\<rparr>"

text \<open>
  C37: In every reachable state the ownership marker of an instance's interface is read back
  as the identity it was made from, with the inode of the namespace it is pinned to.
\<close>

theorem eni_marker_round_trip:
  assumes "reachable d" and "r \<in> set (instances d)" and "0 < inode" and "inode < 2 ^ 64"
  shows "parseENIAlias (eniAlias (inst_ENI (snapshot r d)) inode) =
    Inr \<lparr>ei_ID = eni_ID (inst_ENI (snapshot r d)), ei_IP = eni_PrivateIP (inst_ENI (snapshot r d)),
         ei_MAC = eni_MACAddress (inst_ENI (snapshot r d)), ei_Namespace = inode\<rparr>"
  by (rule parseENIAlias_eniAlias [OF snapshot_marker [OF reachable_inv [OF assms(1)] assms(2-4)]])

lemma db4_rows: "inst_row1 \<in> set (instances db4)" "primary_eni inst_row1 db4 = eni_row1"
  by (simp_all add: db4_def primary_eni_def eni_row1_def inst_row1_def)

theorem eni_marker_round_trip_witness:
  "\<exists>i. parseENIAlias (eniAlias (inst_ENI (snapshot inst_row1 db4)) 7) = Inr i \<and> ei_ID i = eni_id \<and> ei_Namespace i = 7"
  using eni_marker_round_trip [OF db_reachable(4) db4_rows(1), of 7] by (simp add: instance_of_rows_def db4_rows(2) eni_row1_def)

text \<open>
  C10: The router's end of an interface is brought up only in a state in which a run of the
  source checks has succeeded: EnsureENI behaves the same with a handle that refuses to bring
  a link up anywhere else.
\<close>

theorem eni_up_behind_source_checks:
  assumes "source_laws P h peer"
  shows "EnsureENI ev (guarded_up P h) peer vpc subnet eni target = EnsureENI ev h peer vpc subnet eni target"
  by (rule EnsureENI_guarded [OF assms])

theorem eni_up_behind_source_checks_witness:
  "EnsureENI calm_eni (guarded_up (\<lambda>s. rn_checked (fst s)) kernel_handle) (\<lambda>_. kernel_handle) = EnsureENI calm_eni kernel_handle (\<lambda>_. kernel_handle)"
proof -
  have laws: "source_laws (\<lambda>s. rn_checked (fst s)) kernel_handle (\<lambda>_. kernel_handle)"
    by (auto simp: source_laws_def kernel_handle_def ok_def eff_keeps_def)
  show ?thesis by (intro ext) (rule fun_cong [OF eni_up_behind_source_checks [OF laws]])
qed



text \<open>
  The script of source checks is determined by the set of marked links: the order in
  which the map of them is ranged over does not show.
\<close>

theorem source_checks_deterministic:
  assumes "distinct (map fst xs)" and "distinct (map fst ys)" and "set xs = set ys"
    and "renderENISourceChecks xs exists = Inr script"
  shows "renderENISourceChecks ys exists = Inr script"
  by (rule render_order [OF assms])

definition two_links :: "(string \<times> eniIdentity) list" where
  "two_links = [(''ve5'', \<lparr>ei_ID = eni_id, ei_IP = IP4 0x0A000104, ei_MAC = [], ei_Namespace = 7\<rparr>),
     (''ve9'', \<lparr>ei_ID = eni_id, ei_IP = IP4 0x0A000105, ei_MAC = [], ei_Namespace = 8\<rparr>)]"

theorem source_checks_deterministic_witness:
  "renderENISourceChecks (rev two_links) True = renderENISourceChecks two_links True"
proof -
  obtain t where t: "renderENISourceChecks two_links True = Inr t"
  proof -
    have "case renderENISourceChecks two_links True of Inr _ \<Rightarrow> True | Inl _ \<Rightarrow> False" by code_simp
    then show ?thesis using that by (cases "renderENISourceChecks two_links True") auto
  qed
  have "distinct (map fst two_links)" "distinct (map fst (rev two_links))" by code_simp+
  from source_checks_deterministic [OF this _ t] t show ?thesis by simp
qed

text \<open>
  A link that is not marked as the interface's own is left: DeleteENI's work in the
  namespace stops with an error before it deletes anything.
\<close>

theorem foreign_link_not_deleted:
  assumes "LinkByName h name s = Inr link" and "lk_Type link \<noteq> ''veth'' \<or> (case parseENIAlias (lk_Alias link) of Inl e \<Rightarrow> True
    | Inr i \<Rightarrow> ei_ID i \<noteq> eni_ID eni \<or> ei_IP i \<noteq> eni_PrivateIP eni \<or> ei_MAC i \<noteq> eni_MACAddress eni)"
  shows "\<exists>e. remove_pair h eni name s = (Inl e, s)"
  by (rule remove_pair_foreign [OF assms])

theorem foreign_link_not_deleted_witness:
  "\<exists>e. remove_pair kernel_handle zero_ENI ''lo'' (fresh_ns, ()) = (Inl e, (fresh_ns, ()))"
proof -
  have "LinkByName kernel_handle ''lo'' (fresh_ns, ()) = Inr loopback" by (simp add: kernel_handle_def fresh_ns_def loopback_def)
  then show ?thesis by (rule foreign_link_not_deleted) (simp add: loopback_def)
qed

text \<open>
  C40: When the lookup after the marking of a new pair fails, the deferred cleanup has no link
  to delete: the call panics and the state is the one with the new pair.
\<close>

theorem marked_pair_lost:
  assumes "LinkSetAlias h router al s = (Inr (), s')" and "LinkByName h name s' = Inl e"
  shows "mark_pair h name al router s = (Inl panic, s')"
  by (rule mark_pair_lost [OF assms])

theorem marked_pair_lost_witness:
  "mark_pair (kernel_handle\<lparr>LinkByName := \<lambda>n s. Inl ErrCanceled\<rparr>) ''ve5'' ''marker'' loopback (fresh_ns, ()) = (Inl panic, (fresh_ns, ()))"
  by (rule marked_pair_lost [where e = ErrCanceled]) (simp_all add: kernel_handle_def ok_def)

end
