(* ===== verification/StartGuard.thy ===== *)
theory StartGuard
  imports InstanceConvergence
begin

text \<open>
  The instance controller starts a container only after its identity was committed.
  \<open>committed i rid\<close>: the row of the instance holds the container's identity. The guarded
  runtime refuses to start a container that is not committed; every pass behaves the same
  with it, as long as what others commit does not take an identity away.
\<close>

definition committed :: "string \<Rightarrow> string \<Rightarrow> db \<Rightarrow> bool" where
  "committed i rid d = (\<exists>r \<in> set (instances d). ir_id r = i \<and> ir_runtime_id r = Some rid)"

definition guarded :: "string \<Rightarrow> 'x Runtime \<Rightarrow> 'x Runtime" where
  "guarded i rt = rt\<lparr>rt_Start := \<lambda>d rid. if committed i rid d then rt_Start rt d rid
                                            else eff_res (Inl (Errorf ''identity is not committed''))\<rparr>"

lemma guarded_simps [simp]:
  "rt_EnsureImage (guarded i rt) = rt_EnsureImage rt" "rt_Create (guarded i rt) = rt_Create rt"
  "rt_Delete (guarded i rt) = rt_Delete rt" "rt_Inspect (guarded i rt) = rt_Inspect rt"
  "committed i rid d \<Longrightarrow> rt_Start (guarded i rt) d rid = rt_Start rt d rid"
  by (simp_all add: guarded_def)

text \<open>What others commit: the requests and the writes of the VPC controller.\<close>

inductive others_step :: "db \<Rightarrow> db \<Rightarrow> bool" where
  create_vpc: "others_step d (fst (snd (svc_CreateVPC f entropy epoch now vin key d)))"
| delete_vpc: "others_step d (fst (snd (svc_DeleteVPC f now i d)))"
| create_subnet: "others_step d (fst (snd (svc_CreateSubnet f entropy epoch now sin key d)))"
| delete_subnet: "others_step d (fst (snd (svc_DeleteSubnet f now i d)))"
| run_instance: "others_step d (fst (snd (svc_Run f entropy entropy' epoch now rin key d)))"
| terminate_instance: "others_step d (fst (snd (svc_Terminate f now i d)))"
| record_topology: "others_step d (snd (store_RecordTopology c f now vpc applied effect d))"

lemma committed_instances: "instances d' = instances d \<Longrightarrow> committed i rid d \<Longrightarrow> committed i rid d'"
  by (simp add: committed_def)

lemma keeps_option [keeps]:
  "tx_keeps P m \<Longrightarrow> (\<And>x. tx_keeps P (g x)) \<Longrightarrow> tx_keeps P (case y of None \<Rightarrow> m | Some x \<Rightarrow> g x)"
  by (auto split: option.split)

lemma keeps_map_err [keeps]: "tx_keeps P m \<Longrightarrow> tx_keeps P (tx_map_err h m)"
  by (auto simp: tx_keeps_def)

lemma keeps_name_free [keeps]: "tx_keeps P (name_free look e)"
  by (auto simp: tx_keeps_def)

lemma committed_statements [keeps]:
  "tx_keeps (committed i rid) (tx_AllocateIndex epoch kind j)" "tx_keeps (committed i rid) (tx_InsertVPC v now)"
  "tx_keeps (committed i rid) (tx_InsertSubnet s now)" "tx_keeps (committed i rid) (tx_AppendEvent ws rt j act st g msg now)"
  "tx_keeps (committed i rid) (saveReplay encode op key hash j x now)" "tx_keeps (committed i rid) (tx_MarkVPCDeleting ws j now)"
  "tx_keeps (committed i rid) (tx_MarkSubnetDeleting ws j now)" "tx_keeps (committed i rid) (q_UpdateVPCStatus st reason og now j ws)"
  "tx_keeps (committed i rid) (q_UpdateSubnetStatus st reason og now j ws)" "tx_keeps (committed i rid) (q_DeleteVPC j ws)"
  "tx_keeps (committed i rid) (q_DeleteSubnet j ws)"
  by (rule tx_keepsI, erule committed_instances [rotated],
      auto simp: tx_AllocateIndex_def q_InsertKernelIndex_def tx_InsertVPC_def q_InsertVPC_def tx_InsertSubnet_def
      q_InsertSubnet_def tx_AppendEvent_def q_InsertEvent_def saveReplay_def tx_PutIdempotency_def q_PutIdempotency_def
      tx_MarkVPCDeleting_def q_MarkVPCDeleting_def tx_MarkSubnetDeleting_def q_MarkSubnetDeleting_def q_UpdateVPCStatus_def
      q_UpdateSubnetStatus_def q_DeleteVPC_def q_DeleteSubnet_def tx_bind_Inr Let_def split: if_splits option.splits sum.splits)+

lemma committed_upd:
  assumes "committed i rid d" and "instances d' = upd P f (instances d)"
    and "\<And>r. ir_id (f r) = ir_id r" "\<And>r. ir_runtime_id (f r) = ir_runtime_id r"
  shows "committed i rid d'"
proof -
  obtain r where r: "r \<in> set (instances d)" "ir_id r = i" "ir_runtime_id r = Some rid"
    using assms(1) by (auto simp: committed_def)
  then have "(if P r then f r else r) \<in> set (instances d')" using assms(2) by (auto simp: upd_def)
  then show ?thesis using r assms(3,4) by (metis committed_def)
qed

lemma committed_instance_statements [keeps]:
  "tx_keeps (committed i rid) (tx_InsertInstanceWithENI n e now)"
  "tx_keeps (committed i rid) (tx_MarkInstanceTerminating ws j now)"
proof -
  show "tx_keeps (committed i rid) (tx_InsertInstanceWithENI n e now)"
    by (rule tx_keepsI, auto simp: committed_def tx_InsertInstanceWithENI_def q_InsertInstance_def q_InsertENI_def
      tx_bind_Inr Let_def split: if_splits option.splits sum.splits)
  show "tx_keeps (committed i rid) (tx_MarkInstanceTerminating ws j now)"
    by (rule tx_keepsI, erule committed_upd
        [where P = "\<lambda>r. instance_key j ws r \<and> ir_deletion_requested r = 0" and
          f = "\<lambda>r. r\<lparr>ir_state := InstanceShuttingDown, ir_state_reason := [], ir_deletion_requested := 1,
                  ir_generation := ir_generation r + 1, ir_updated_at := now\<rparr>"])
      (auto simp: tx_MarkInstanceTerminating_def q_MarkInstanceTerminating_def tx_bind_Inr Let_def split: if_splits)
qed

lemma committed_requests:
  "tx_keeps (committed i rid) (tx_CreateVPC epoch name cidr key hash j now)"
  "tx_keeps (committed i rid) (tx_DeleteVPC j now)"
  "tx_keeps (committed i rid) (tx_CreateSubnet epoch name vid cidr az key hash j now)"
  "tx_keeps (committed i rid) (tx_DeleteSubnet j now)"
  "tx_keeps (committed i rid) (tx_Run epoch name sid key hash j eid now)"
  "tx_keeps (committed i rid) (tx_TerminateSnapshot j now)"
  "tx_keeps (committed i rid) (tx_RecordTopology now vpc applied effect)"
  unfolding tx_CreateVPC_def tx_DeleteVPC_def tx_CreateSubnet_def tx_DeleteSubnet_def tx_Run_def tx_TerminateSnapshot_def
    tx_RecordTopology_def tx_recordVPCStatus_def recordChild_def tx_recordSubnetStatus_def Let_def
  by (intro keeps)+

lemma WithTx_committed: "WithTx f m d = (r, d') \<Longrightarrow> tx_keeps (committed i rid) m \<Longrightarrow> committed i rid d \<Longrightarrow> committed i rid d'"
  using WithTx_keeps [of "committed i rid" m d f] by simp

lemma others_keep_committed: "others_step d d' \<Longrightarrow> committed i rid d \<Longrightarrow> committed i rid d'"
  by (induction rule: others_step.induct)
    (auto simp: svc_CreateVPC_def svc_DeleteVPC_def svc_CreateSubnet_def svc_DeleteSubnet_def svc_Run_def svc_Terminate_def
      svc_TerminateSnapshot_def store_RecordTopology_def reply_def Let_def committed_requests
      WithTx_keeps
      dest: WithTx_committed split: sum.splits prod.splits option.splits)

lemma RecordRuntimeID_committed:
  assumes "store_RecordRuntimeID i g rid d = (Inr (), d')"
  shows "committed i rid d'"
proof -
  define P where "P = (\<lambda>r. ir_id r = i \<and> ir_generation r = g \<and> ir_deletion_requested r = 0 \<and> runtime_free rid r)"
  have "filter P (instances d) \<noteq> []" and d': "instances d' = upd P (\<lambda>r. r\<lparr>ir_runtime_id := Some rid\<rparr>) (instances d)"
    using assms by (auto simp: store_RecordRuntimeID_def q_RecordRuntimeID_def autocommit_def tx_wrap_def Let_def P_def
        split: if_splits)
  then obtain r where "r \<in> set (instances d)" "P r" by (auto simp: filter_empty_conv)
  then have "r\<lparr>ir_runtime_id := Some rid\<rparr> \<in> set (instances d')" using d' by (auto simp: upd_def)
  then show ?thesis using \<open>P r\<close> unfolding committed_def P_def by (intro bexI) auto
qed

lemma or_fail_cong:
  assumes "m w = m' w" "\<And>x w'. m w = (Inr x, w') \<Longrightarrow> f x w' = g x w'"
  shows "or_fail env inst m f w = or_fail env inst m' g w"
  using assms by (auto simp: or_fail_eval split: prod.splits sum.splits)

lemma start_guarded:
  assumes "committed i rid (iw_db w)" "\<And>n d. committed i rid d \<Longrightarrow> committed i rid (ie_between env n d)"
  shows "start_instance (guarded i rt) env i rid w = start_instance rt env i rid w"
  unfolding start_instance_def
proof (intro eff_bind_cong refl, goal_cases)
  case (1 x w' inst w'')
  then have "committed i rid (iw_db w'')"
    using assms by (auto simp: gap_def eff_wrap_def eff_read_def split: sum.splits)
  with assms(2) show ?case
    by (auto simp: gap_def on_x_def eff_bind_eval intro!: or_fail_cong)
qed

lemma tx_GetInstance_ID: "tx_GetInstance ws i d = Inr inst \<Longrightarrow> inst_ID inst = i"
  by (auto simp: tx_GetInstance_def tx_instanceFromRow_def q_GetInstance_def instance_key_def res_bind_Inr dest!: one_row_Inr
      split: option.splits)

lemma store_GetInstance_ID: "store_GetInstance f ws i d = Inr inst \<Longrightarrow> inst_ID inst = i"
  by (rule WithTx_cases [of f "tx_read (tx_GetInstance ws i)" d]) (auto simp: store_GetInstance_def dest: tx_GetInstance_ID)

lemma create_guarded:
  assumes "\<And>rid n d. committed (inst_ID inst) rid d \<Longrightarrow> committed (inst_ID inst) rid (ie_between env n d)"
  shows "create_instance (guarded (inst_ID inst) rt) env (inst_ID inst) inst w = create_instance rt env (inst_ID inst) inst w"
  unfolding create_instance_def
  by (auto intro!: or_fail_cong eff_bind_cong start_guarded assms simp: createdDuringStateChange_def on_db_def eff_try_def
      dest!: RecordRuntimeID_committed split: sum.splits prod.splits)

lemma pass_guarded:
  assumes "\<And>rid n d. committed i rid d \<Longrightarrow> committed i rid (ie_between env n d)"
  shows "i_reconcileLocked net (guarded i rt) env i w = i_reconcileLocked net rt env i w"
  unfolding i_reconcileLocked_def
proof (intro eff_bind_cong refl, goal_cases)
  case (1 u v got w')
  have "create_instance (guarded i rt) env i inst v = create_instance rt env i inst v" if "got = Inr inst" for inst v
  proof -
    have "inst_ID inst = i" using 1(2) that by (auto simp: eff_try_def eff_read_def dest: store_GetInstance_ID)
    then show ?thesis using create_guarded [of inst env rt v] assms by simp
  qed
  then show ?case
    by (auto simp: terminate_def intro!: eff_bind_cong or_fail_cong split: sum.split)
qed

end
