(* ===== verification/InstanceSweep.thy ===== *)
theory InstanceSweep
  imports InstanceConvergence
begin

text \<open>
  The sweep of the instance controller ends. A pass never adds an instance, and every page
  moves the cursor past a row, so that with finitely many identifiers the pages run out; from
  there on more fuel makes no difference.
\<close>

definition known :: "string set \<Rightarrow> db \<Rightarrow> bool" where
  "known S d \<longleftrightarrow> ir_id ` set (instances d) \<subseteq> S"

lemma known_upd:
  "known S d \<Longrightarrow> (\<And>r. ir_id (f r) = ir_id r) \<Longrightarrow> known S (d\<lparr>instances := upd P f (instances d)\<rparr>)"
  by (auto simp: known_def upd_def)

lemma known_statements [keeps]:
  "tx_keeps (known S) (q_UpdateInstanceStatus st reason og now i ws)"
  "tx_keeps (known S) (q_UpdateInstanceENIStatus st reason og now i ws)"
  "tx_keeps (known S) (q_RecordRuntimeID rid i g)" "tx_keeps (known S) (q_RetainTerminatingRuntimeID rid i)"
  "tx_keeps (known S) (q_DeleteInstance i ws)" "tx_keeps (known S) (q_DeleteInstanceENI i ws)"
  "tx_keeps (known S) (tx_AppendEvent ws rt j act st g msg now)"
  by (auto simp: tx_keeps_def q_UpdateInstanceStatus_def q_UpdateInstanceENIStatus_def q_RecordRuntimeID_def
      q_RetainTerminatingRuntimeID_def q_DeleteInstance_def q_DeleteInstanceENI_def tx_AppendEvent_def q_InsertEvent_def
      tx_wrap_def Let_def known_def upd_def split: if_splits sum.splits)

lemma known_records:
  "tx_keeps (known S) (tx_RecordInstance now s status reason observed)" "tx_keeps (known S) (tx_FinishInstanceTermination now s)"
  unfolding tx_RecordInstance_def tx_FinishInstanceTermination_def Let_def by (auto intro!: keeps split: sum.split)

lemma known_stores:
  "known S d \<Longrightarrow> known S (snd (store_RecordInstance f now s status reason observed d))"
  "known S d \<Longrightarrow> known S (snd (store_FinishInstanceTermination f now s d))"
  "known S d \<Longrightarrow> known S (snd (store_RecordRuntimeID i g rid d))"
  "known S d \<Longrightarrow> known S (snd (store_RetainTerminatingRuntimeID i rid d))"
proof -
  assume k: "known S d"
  show "known S (snd (store_RecordInstance f now s status reason observed d))"
    using WithTx_keeps [OF known_records(1) k] k by (simp add: store_RecordInstance_def)
  show "known S (snd (store_FinishInstanceTermination f now s d))"
    using WithTx_keeps [OF known_records(2) k] by (simp add: store_FinishInstanceTermination_def)
  have "tx_keeps (known S) (tx_wrap m (q_RecordRuntimeID rid i g))" "tx_keeps (known S) (tx_wrap m (q_RetainTerminatingRuntimeID rid i))" for m
    by (intro keeps)+
  from this [THEN autocommit_keeps, OF k] k
  show "known S (snd (store_RecordRuntimeID i g rid d))" "known S (snd (store_RetainTerminatingRuntimeID i rid d))"
    by (auto simp: store_RecordRuntimeID_def store_RetainTerminatingRuntimeID_def split: prod.splits sum.splits) (metis snd_conv)+
qed

lemmas known_writes [eff_keep] =
  keeps_on_db [where P = "known S", OF known_stores(1)] keeps_on_db [where P = "known S", OF known_stores(2)]
  keeps_on_db [where P = "known S", OF known_stores(3)] keeps_on_db [where P = "known S", OF known_stores(4)] for S

lemma pass_known:
  assumes "\<And>n d. known S d \<Longrightarrow> known S (ie_between env n d)"
  shows "eff_keeps (\<lambda>w. known S (iw_db w)) (i_reconcileLocked net rt env i)"
proof -
  note g = keeps_gap [where P = "known S", OF assms]
  show ?thesis unfolding pass_defs by (auto intro!: eff_keep g split: prod.split sum.split)
qed

section \<open>Pages\<close>

lemma tx_instanceFromRow_ID: "tx_instanceFromRow r d = Inr x \<Longrightarrow> inst_ID x = ir_id r"
  by (auto simp: tx_instanceFromRow_def res_bind_Inr split: option.splits)

lemma page_advances:
  assumes "store_ListInstancePage f ws after n d = Inr page" and "page \<noteq> []" and "known S d"
  shows "after < inst_ID (last page)" and "inst_ID (last page) \<in> S"
proof -
  have "res_mapM (\<lambda>r. tx_instanceFromRow r d) (q_ListInstancePage ws after n d) = Inr page"
    using assms(1) by (cases f) (auto simp: store_ListInstancePage_def WithTx_def tx_read_def res_bind_Inr split: sum.splits)
  then have m: "list_all2 (\<lambda>r x. tx_instanceFromRow r d = Inr x) (q_ListInstancePage ws after n d) page"
    by (simp add: res_mapM_Inr_iff)
  then have ne: "q_ListInstancePage ws after n d \<noteq> []" using assms(2) by auto
  then have lst: "tx_instanceFromRow (last (q_ListInstancePage ws after n d)) d = Inr (last page)"
    using m assms(2) by (simp add: list_all2_conv_all_nth last_conv_nth)
  have "after < ir_id r \<and> r \<in> set (instances d)" if "r \<in> set (q_ListInstancePage ws after n d)" for r
    using that by (auto simp: q_ListInstancePage_def sql_limit_def dest!: in_set_takeD split: if_splits)
  then show "after < inst_ID (last page)" "inst_ID (last page) \<in> S"
    using assms(3) ne tx_instanceFromRow_ID [OF lst] by (auto simp: known_def)
qed

lemma sweep_fuel:
  assumes "finite S" and "\<And>i n d. known S d \<Longrightarrow> known S (ie_between (envs i) n d)"
    and "known S (iw_db w)" and "card {i \<in> S. after < i} < n"
  shows "i_Sweep net rt envs f (n + k) after w = i_Sweep net rt envs f n after w"
  using assms(3,4)
proof (induction n arbitrary: after w)
  case (Suc n)
  let ?g = "gap (envs after) 10 :: ('a iworld, unit) eff"
  show ?case
    unfolding add_Suc i_Sweep.simps
  proof (intro eff_bind_cong refl, goal_cases)
    case (1 u w1 page w2)
    have w1: "known S (iw_db w1)" using 1(1) assms(2) Suc.prems(1) by (auto simp: gap_def)
    have p: "store_ListInstancePage f ''default'' after 100 (iw_db w1) = Inr page" "w2 = w1"
      using 1(2) by (auto simp: eff_wrap_def eff_read_def split: sum.splits prod.splits)
    show ?case
    proof (cases "page = []")
      case False
      let ?x = "inst_ID (last page)"
      note adv = page_advances [OF p(1) False w1]
      have "{i \<in> S. ?x < i} \<subset> {i \<in> S. after < i}" using adv by (auto intro: less_trans)
      then have c: "card {i \<in> S. ?x < i} < n" using psubset_card_mono [of "{i \<in> S. after < i}" "{i \<in> S. ?x < i}"] assms(1) Suc.prems(2) by simp
      have it: "eff_keeps (\<lambda>w. known S (iw_db w)) (eff_iter (\<lambda>inst. i_reconcileLocked net rt (envs (inst_ID inst)) (inst_ID inst)) page)"
        by (intro eff_keeps_iter pass_known assms(2))
      show ?thesis unfolding if_not_P [OF False]
      proof (intro eff_bind_cong refl, goal_cases)
        case (1 u w3)
        then have "known S (iw_db w3)" using it w1 p(2) unfolding eff_keeps_def by (metis snd_conv)
        then show ?case using Suc.IH c by blast
      qed
    qed simp
  qed
qed simp

end
