(* ===== verification/ComputeProps.thy ===== *)
theory ComputeProps
  imports StartGuard InstanceSweep Samples
begin

text \<open>
  What the instance controller and the two queues guarantee, stated for every reachable state
  of the tables, with the container runtime and the network as parameters.
\<close>

section \<open>A sample runtime\<close>

definition runtime1 :: "unit Runtime" where
  "runtime1 = \<lparr>rt_EnsureImage = (\<lambda>i. eff_return ()), rt_Create = (\<lambda>inst. eff_return ''c1''),
     rt_Start = (\<lambda>d rid. eff_return ()), rt_Delete = (\<lambda>rid. eff_return ()), rt_Inspect = (\<lambda>rid. eff_return True)\<rparr>"

definition network1 :: "unit InstanceNetwork" where
  "network1 = \<lparr>in_Ready = (\<lambda>inst d x. Inr True), in_DeleteENI = (\<lambda>vpc eni. eff_return ())\<rparr>"

definition still :: inst_env where
  "still = \<lparr>ie_between = (\<lambda>n d. d), ie_fault = (\<lambda>n. NoFault), ie_ctx = None, ie_now = 0, ie_text = (\<lambda>e. ''failed'')\<rparr>"

definition iworld1 :: "db \<Rightarrow> unit iworld" where
  "iworld1 d = \<lparr>iw_db = d, iw_x = (), iw_ctl = NewInstances\<rparr>"

lemma sample_simps [simp]:
  "rt_EnsureImage runtime1 i x = (Inr (), x)" "rt_Create runtime1 inst x = (Inr ''c1'', x)" "rt_Start runtime1 d rid x = (Inr (), x)"
  "rt_Delete runtime1 rid x = (Inr (), x)" "rt_Inspect runtime1 rid x = (Inr True, x)" "in_Ready network1 inst d x = Inr True"
  "in_DeleteENI network1 vpc eni x = (Inr (), x)" "undisturbed still" "iw_db (iworld1 d) = d" "iw_x (iworld1 d) = ()"
  "iw_ctl (iworld1 d) = NewInstances"
  by (simp_all add: runtime1_def network1_def still_def iworld1_def undisturbed_def eff_return_def)

lemma db4_row [simp]: "inst_row1 \<in> set (instances db4)" "event_seq db4 = 4"
  by (simp_all add: db4_def)

lemma inst_row1_simps [simp]:
  "ir_id inst_row1 = inst_id" "ir_deletion_requested inst_row1 = 0" "ir_runtime_id inst_row1 = None"
  "ir_state inst_row1 = InstancePending" "ir_generation inst_row1 = 1" "ir_observed_generation inst_row1 = 0"
  by (simp_all add: inst_row1_def)

section \<open>Instances start and stop\<close>

text \<open>
  C7: An instance runs. In every reachable state, when the network is ready and the runtime
  makes, starts and finds the container, one undisturbed pass over an instance that is not
  running returns without an error; then the instance is running at its own generation with
  the identity of its container, its retry is forgotten and no other instance has changed.
\<close>

theorem instance_reaches_running:
  assumes "undisturbed env" and "reachable (iw_db w)" and "r \<in> set (instances (iw_db w))"
    and "ir_deletion_requested r = 0" and "ir_state r \<noteq> InstanceRunning" and "event_seq (iw_db w) < max_int64"
    and "in_Ready net (snapshot r (iw_db w)) (iw_db w) (iw_x w) = Inr True"
    and "rt_EnsureImage rt ''nephos-ubuntu:dev'' (iw_x w) = (Inr (), x1)"
    and "rt_Create rt (snapshot r (iw_db w)) x1 = (Inr rid, x2)" "rid \<noteq> []" "runtime_free rid r"
    and "rt_Start rt (with_runtime rid (ir_id r) (iw_db w)) rid x2 = (Inr (), x3)"
    and "rt_Inspect rt rid x3 = (Inr True, x4)"
  shows "\<exists>d' x. i_reconcileLocked net rt env (ir_id r) w =
      (Inr (), w\<lparr>iw_db := d', iw_x := x4, iw_ctl := i_clearRetry (ir_id r) (iw_ctl w)\<rparr>) \<and>
    only_instance (ir_id r) (iw_db w) d' \<and> x \<in> set (instances d') \<and> ir_id x = ir_id r \<and> ir_state x = InstanceRunning \<and>
    ir_state_reason x = [] \<and> ir_observed_generation x = ir_generation x \<and> ir_runtime_id x = Some rid"
  by (rule reconcile_runs [OF assms(1) reachable_inv [OF assms(2)] assms(3-13)])

theorem instance_reaches_running_witness:
  "\<exists>d' x. i_reconcileLocked network1 runtime1 still inst_id (iworld1 db4) =
      (Inr (), (iworld1 db4)\<lparr>iw_db := d', iw_ctl := i_clearRetry inst_id NewInstances\<rparr>) \<and>
    x \<in> set (instances d') \<and> ir_id x = inst_id \<and> ir_state x = InstanceRunning \<and> ir_runtime_id x = Some ''c1''"
  using instance_reaches_running [of still "iworld1 db4" inst_row1 network1 runtime1 "()" "''c1''" "()" "()" "()"] db_reachable(4)
  by (auto simp: runtime_free_def iworld1_def max_int64_def)

text \<open>
  C8: An instance that is to go goes. When the runtime deletes its container and the network
  its interface, one undisturbed pass returns without an error; then neither the instance nor
  its interface is in the tables, and no other instance has changed.
\<close>

theorem instance_terminates:
  assumes "undisturbed env" and "reachable (iw_db w)" and "r \<in> set (instances (iw_db w))"
    and "ir_deletion_requested r \<noteq> 0" and "event_seq (iw_db w) < max_int64"
    and "case ir_runtime_id r of None \<Rightarrow> x1 = iw_x w | Some rid \<Rightarrow> rt_Delete rt rid (iw_x w) = (Inr (), x1)"
    and "\<And>vpc. \<exists>x2. in_DeleteENI net vpc (inst_ENI (snapshot r (iw_db w))) x1 = (Inr (), x2)"
  shows "\<exists>d' x2. i_reconcileLocked net rt env (ir_id r) w =
      (Inr (), w\<lparr>iw_db := d', iw_x := x2, iw_ctl := i_clearRetry (ir_id r) (iw_ctl w)\<rparr>) \<and>
    only_instance (ir_id r) (iw_db w) d' \<and> (\<forall>x \<in> set (instances d'). ir_id x \<noteq> ir_id r) \<and>
    (\<forall>e \<in> set (enis d'). er_instance_id e \<noteq> ir_id r)"
  by (rule reconcile_terminates [OF assms(1) reachable_inv [OF assms(2)] assms(3-7)])

definition going_row :: instance_row where
  "going_row = inst_row1\<lparr>ir_state := InstanceShuttingDown, ir_deletion_requested := 1, ir_generation := 2, ir_updated_at := 300\<rparr>"

definition db5 :: db where
  "db5 = fst (snd (svc_Terminate NoFault 300 inst_id db4))"

lemma db5_reachable: "reachable db5"
  unfolding db5_def by (rule reachable.step [OF db_reachable(4) db_step.terminate_instance])

lemma db5_rows: "going_row \<in> set (instances db5)" "event_seq db5 = 5"
proof -
  have g: "tx_GetInstance defaultWorkspace inst_id db4 = Inr (snapshot inst_row1 db4)"
    using tx_GetInstance_ok [OF db_samples(4) db4_row(1)] by simp
  have s: "\<not> inst_DeletionRequested (snapshot inst_row1 db4)" "inst_Generation (snapshot inst_row1 db4) = 1"
    by (simp_all add: instance_of_rows_def)
  have i: "instances db4 = [inst_row1]" "defaultWorkspace \<in> set (workspaces db4)"
    by (simp_all add: db4_def db3_def db2_def db1_def empty_db_def)
  have "instances db5 = [going_row] \<and> event_seq db5 = 5"
    unfolding db5_def svc_Terminate_def svc_TerminateSnapshot_def tx_TerminateSnapshot_def
    by (simp add: g [unfolded inst_row1_def] s [unfolded inst_row1_def] i instance_checks(2) run_instance tx_MarkInstanceTerminating_def q_MarkInstanceTerminating_def upd_def going_row_def
        inst_row1_def)
  then show "going_row \<in> set (instances db5)" "event_seq db5 = 5" by simp_all
qed

theorem instance_terminates_witness:
  "\<exists>d'. fst (i_reconcileLocked network1 runtime1 still inst_id (iworld1 db5)) = Inr () \<and>
    iw_db (snd (i_reconcileLocked network1 runtime1 still inst_id (iworld1 db5))) = d' \<and>
    (\<forall>x \<in> set (instances d'). ir_id x \<noteq> inst_id) \<and> (\<forall>e \<in> set (enis d'). er_instance_id e \<noteq> inst_id)"
proof -
  have "ir_id going_row = inst_id" "ir_runtime_id going_row = None" "ir_deletion_requested going_row \<noteq> 0" "(5 :: int) < max_int64"
    by (simp_all add: going_row_def max_int64_def)
  with instance_terminates [of still "iworld1 db5" going_row "()" runtime1 network1] show ?thesis
    by (auto simp: db5_reachable db5_rows)
qed



section \<open>Identities\<close>

text \<open>
  C9: A container is started only when its identity is committed in the row of its instance,
  whatever requests and topology writes others commit in every gap of the pass: the pass
  behaves the same with a runtime that refuses to start any other container.
\<close>

theorem start_only_committed:
  assumes "\<And>n d. others_step\<^sup>*\<^sup>* d (ie_between env n d)"
  shows "i_reconcileLocked net (guarded i rt) env i w = i_reconcileLocked net rt env i w"
proof (rule pass_guarded)
  fix rid n d
  assume "committed i rid d"
  with assms [of d n] show "committed i rid (ie_between env n d)"
    by (induction rule: rtranclp_induct) (auto dest: others_keep_committed)
qed

definition meddling :: inst_env where
  "meddling = still\<lparr>ie_between := \<lambda>n d. fst (snd (svc_Terminate NoFault (int n) inst_id d))\<rparr>"

theorem start_only_committed_witness:
  "i_reconcileLocked network1 (guarded inst_id runtime1) meddling inst_id (iworld1 db4) =
    i_reconcileLocked network1 runtime1 meddling inst_id (iworld1 db4)"
  by (rule start_only_committed)
    (auto simp: meddling_def intro: r_into_rtranclp others_step.terminate_instance)

text \<open>
  The identity of a container is never overwritten: where the row holds another one,
  recording fails as stale and the tables stay as they are.
\<close>

theorem runtime_identity_kept:
  assumes "reachable d" and "r \<in> set (instances d)" and "\<not> runtime_free rid r" and "rid \<noteq> []"
  shows "store_RecordRuntimeID (ir_id r) g rid d = (Inl ErrStaleSnapshot, d)"
  by (rule RecordRuntimeID_taken [OF reachable_inv [OF assms(1)] assms(2-4)])

definition db6 :: db where
  "db6 = with_runtime ''c0'' inst_id db4"

lemma db6_reachable: "reachable db6"
proof -
  have "store_RecordRuntimeID inst_id 1 ''c0'' db4 = (Inr (), db6)"
    using RecordRuntimeID_ok [OF db_samples(4) db4_row(1), of "''c0''"] by (simp add: db6_def runtime_free_def)
  then show ?thesis using reachable.step [OF db_reachable(4) db_step.record_runtime] by (metis snd_conv)
qed

definition kept_row :: instance_row where
  "kept_row = inst_row1\<lparr>ir_runtime_id := Some ''c0''\<rparr>"

lemma db6_row [simp]: "kept_row \<in> set (instances db6)" "ir_id kept_row = inst_id" "ir_deletion_requested kept_row = 0"
    "ir_state kept_row \<noteq> InstanceRunning" "\<not> runtime_free ''c1'' kept_row"
  by (simp_all add: kept_row_def db6_def with_runtime_def upd_def db4_def runtime_free_def)

theorem runtime_identity_kept_witness:
  "store_RecordRuntimeID inst_id 1 ''c1'' db6 = (Inl ErrStaleSnapshot, db6)"
  using runtime_identity_kept [OF db6_reachable db6_row(1,5), of 1] by simp

text \<open>
  C35: A container replaced behind the controller's back is not adopted: where \<open>Create\<close> makes
  one whose identity the row does not admit, the pass deletes it, leaves the tables as they
  are and queues the instance again at once, with no failure recorded and no retry scheduled.
\<close>

theorem replaced_container_requeued:
  assumes "undisturbed env" and "reachable (iw_db w)" and "r \<in> set (instances (iw_db w))"
    and "ir_deletion_requested r = 0" and "ir_state r \<noteq> InstanceRunning"
    and "in_Ready net (snapshot r (iw_db w)) (iw_db w) (iw_x w) = Inr True"
    and "rt_EnsureImage rt ''nephos-ubuntu:dev'' (iw_x w) = (Inr (), x1)"
    and "rt_Create rt (snapshot r (iw_db w)) x1 = (Inr rid, x2)" "rid \<noteq> []" "\<not> runtime_free rid r"
    and "rt_Delete rt rid x2 = (Inr (), x3)"
  shows "i_reconcileLocked net rt env (ir_id r) w = (Inr (), w\<lparr>iw_x := x3, iw_ctl := i_Enqueue (ir_id r) (iw_ctl w)\<rparr>)"
  by (rule reconcile_replaced [OF assms(1) reachable_inv [OF assms(2)] assms(3-11)])

theorem replaced_container_requeued_witness:
  "i_reconcileLocked network1 runtime1 still inst_id (iworld1 db6) =
    (Inr (), (iworld1 db6)\<lparr>iw_ctl := i_Enqueue inst_id NewInstances\<rparr>)"
  using replaced_container_requeued [of still "iworld1 db6" kept_row network1 runtime1 "()" "''c1''" "()" "()"] db6_reachable
  by (simp add: iworld1_def)

section \<open>Passes keep the tables consistent\<close>



text \<open>
  C25: The sweep of the instance controller ends. Where only finitely many instances are ever
  known, in spite of all that others commit in the gaps, it needs at most one page more than
  there are identifiers past the cursor: with more fuel it gives the same result.
\<close>

theorem instance_sweep_ends:
  assumes "finite S" and "\<And>i n d. known S d \<Longrightarrow> known S (ie_between (envs i) n d)"
    and "known S (iw_db w)" and "card {i \<in> S. after < i} < n"
  shows "i_Sweep net rt envs f (n + k) after w = i_Sweep net rt envs f n after w"
  by (rule sweep_fuel [OF assms])

theorem instance_sweep_ends_witness:
  "\<forall>k. i_Sweep network1 runtime1 (\<lambda>_. still) NoFault (2 + k) [] (iworld1 db4) =
    i_Sweep network1 runtime1 (\<lambda>_. still) NoFault 2 [] (iworld1 db4)"
proof
  fix k
  have "{i \<in> {inst_id}. [] < i} = {inst_id}" by (auto simp: inst_id_def)
  then have c: "card {i \<in> {inst_id}. [] < i} < 2" by simp
  have k: "known {inst_id} (iw_db (iworld1 db4))" by (simp add: known_def db4_def)
  show "i_Sweep network1 runtime1 (\<lambda>_. still) NoFault (2 + k) [] (iworld1 db4) =
      i_Sweep network1 runtime1 (\<lambda>_. still) NoFault 2 [] (iworld1 db4)"
    by (rule instance_sweep_ends [OF _ _ k c]) (simp_all add: still_def)
qed

section \<open>The queues\<close>

text \<open>
  C33: Both queues stay bounded: every operation keeps the pending identifiers and the retries
  without duplicates, non-empty, and no more than the limit.
\<close>

theorem queues_bounded:
  assumes "queue_ok (c_pending c) (c_retries c)" and "i \<noteq> []"
    and "c' \<in> {Enqueue i c, snd (pop k c), retry now i c, clearRetry i c, enqueueDueRetries now order c,
      i_Enqueue i c, snd (i_pop k c), i_retry now i c, i_clearRetry i c, i_enqueueDueRetries now order c}"
  shows "queue_ok (c_pending c') (c_retries c')"
proof -
  have "queue_ok (c_pending x) (c_retries x)"
    if "x \<in> {Enqueue i c, snd (pop k c), retry now i c, clearRetry i c, enqueueDueRetries now order c}" for x
    using that vq.keeps_bounds [OF assms(1)] vq.due_ok [OF assms(1)] assms(2) by (elim insertE) simp_all
  then show ?thesis using assms(3) unfolding same_queue by blast
qed

theorem queues_bounded_witness:
  "queue_ok (c_pending (Enqueue vpc_id New)) (c_retries (Enqueue vpc_id New))"
  by (rule queues_bounded [of New vpc_id]) (simp_all add: queue_ok_def New_def vpc_id_def)

text \<open>
  C34: The delay of a retry doubles with every attempt and is capped: after the n-th failure
  in a row the entry is due the base delay times 2 to the n-1 later, and at most the cap.
\<close>

theorem retry_delay:
  assumes "queue_ok (c_pending c) (c_retries c)"
    and "length (c_retries c) < queueLimit \<or> re_attempt (retry_entry i (c_retries c)) \<noteq> 0"
  shows "map_of (c_retries (retry now i c)) i =
    Some \<lparr>re_attempt = re_attempt (retry_entry i (c_retries c)) + 1,
          re_due = now + min (retryBase * 2 ^ nat (re_attempt (retry_entry i (c_retries c)))) retryMax\<rparr>"
proof -
  let ?n = "re_attempt (retry_entry i (c_retries c))"
  have n: "0 \<le> ?n"
    using assms(1) by (force simp: retry_entry_def queue_ok_def list_all_iff split: option.splits dest: map_of_SomeD)
  have "backoff 1 (?n + 1) retryBase = min (retryBase * 2 ^ nat ?n) retryMax"
    using backoff_closed [of retryBase 1 "?n + 1"] n by (simp add: retryBase_def retryMax_def)
  then show ?thesis using assms(2) by (auto simp: vq.retries_retry Let_def map_of_retry_put)
qed

theorem retry_delay_witness:
  "map_of (c_retries (retry 5 vpc_id (retry 2 vpc_id New))) vpc_id = Some \<lparr>re_attempt = 2, re_due = 5 + retryBase * 2\<rparr>"
proof -
  let ?c = "retry 2 vpc_id New"
  have "queue_ok (c_pending ?c) (c_retries ?c)" "re_attempt (retry_entry vpc_id (c_retries ?c)) = 1" "retryBase * 2 \<le> retryMax" by code_simp+
  with retry_delay [of ?c vpc_id 5] show ?thesis by (simp add: min_def)
qed

text \<open>
  Popping as often as there are pending identifiers returns each of them exactly once and
  leaves none, whichever entry of the map every pop picks.
\<close>

theorem queue_drains:
  assumes "distinct (c_pending c)" and "length ks = length (c_pending c)"
  shows "distinct (fst (vq.drain ks c)) \<and> set (fst (vq.drain ks c)) = set (c_pending c) \<and> c_pending (snd (vq.drain ks c)) = []"
  by (rule vq.drain_all [OF assms])

theorem queue_drains_witness:
  "set (fst (vq.drain [3, 0] (Enqueue subnet_a (Enqueue vpc_id New)))) = {vpc_id, subnet_a}"
proof -
  have "c_pending (Enqueue subnet_a (Enqueue vpc_id New)) = [subnet_a, vpc_id]" by code_simp
  then have "distinct (c_pending (Enqueue subnet_a (Enqueue vpc_id New)))"
      "length [3 :: nat, 0] = length (c_pending (Enqueue subnet_a (Enqueue vpc_id New)))" "{vpc_id, subnet_a} = set (c_pending (Enqueue subnet_a (Enqueue vpc_id New)))"
    using subnet_checks(18) by auto
  then show ?thesis using queue_drains by metis
qed

end
