(* ===== verification/NetHttp.thy ===== *)
theory NetHttp
  imports JsonDecoder
begin

text \<open>
  What the server uses of \<open>net/http\<close>, \<open>net\<close> and \<open>mime\<close>: requests and responses, the host part
  of a \<open>Host\<close> header and the media type of a \<open>Content-Type\<close> header.
\<close>

section \<open>Requests and responses\<close>

text \<open>
  \<open>hr_Header\<close> is \<open>Header.Get\<close>, the empty string for a header that is not there. A body is its
  bytes and whether it ends there; otherwise reading it fails behind them.
\<close>

record http_request =
  hr_Path :: string
  hr_Host :: string
  hr_Header :: "string \<Rightarrow> string"
  hr_Body :: "string \<times> bool"

record response =
  rp_Status :: int
  rp_ContentType :: string
  rp_Body :: string

type_synonym 's handler = "http_request \<Rightarrow> 's \<Rightarrow> response \<times> 's"

text \<open>\<open>http.MaxBytesReader\<close>: the bytes up to the limit, and whether the body ends there.\<close>

definition limited_body :: "nat \<Rightarrow> string \<times> bool \<Rightarrow> string \<times> bool" where
  "limited_body n body = (take n (fst body), snd body \<and> length (fst body) \<le> n)"

section \<open>net.SplitHostPort\<close>

text \<open>The position of the first and of the last byte that is \<open>c\<close>.\<close>

fun IndexByte :: "char \<Rightarrow> string \<Rightarrow> nat option" where
  "IndexByte c [] = None"
| "IndexByte c (x # xs) = (if x = c then Some 0 else map_option Suc (IndexByte c xs))"

definition LastIndexByte :: "char \<Rightarrow> string \<Rightarrow> nat option" where
  "LastIndexByte c s = map_option (\<lambda>i. length s - 1 - i) (IndexByte c (rev s))"

definition SplitHostPort :: "string \<Rightarrow> (string \<times> string) option" where
  "SplitHostPort hostport =
     (case LastIndexByte CHR '':'' hostport of
        None \<Rightarrow> None
      | Some i \<Rightarrow>
          (let finish = (\<lambda>host j k.
                 if CHR ''['' \<in> set (drop j hostport) \<or> CHR '']'' \<in> set (drop k hostport) then None
                 else Some (host, drop (i + 1) hostport)) in
           if hd hostport = CHR ''['' then
             (case IndexByte CHR '']'' hostport of
                None \<Rightarrow> None
              | Some e \<Rightarrow>
                  if e + 1 = length hostport then None
                  else if e + 1 = i then finish (drop 1 (take e hostport)) 1 (e + 1)
                  else None)
           else if CHR '':'' \<in> set (take i hostport) then None
           else finish (take i hostport) 0 0))"

section \<open>mime.ParseMediaType\<close>

text \<open>
  \<open>strings.ToLower\<close> as far as the result can be ASCII: the ASCII letters and the two other
  runes whose lower case is an ASCII letter, U+0130 and U+212A.
\<close>

fun ToLower :: "string \<Rightarrow> string" where
  "ToLower (a # b # c # r) =
     (if [a, b, c] = enc_rune 0x212A then CHR ''k'' # ToLower r
      else if [a, b] = enc_rune 0x130 then CHR ''i'' # ToLower (c # r)
      else fold_ascii a # ToLower (b # c # r))"
| "ToLower [a, b] = (if [a, b] = enc_rune 0x130 then ''i'' else [fold_ascii a, fold_ascii b])"
| "ToLower [a] = [fold_ascii a]"
| "ToLower [] = []"

definition isTSpecial :: "char \<Rightarrow> bool" where
  "isTSpecial c \<longleftrightarrow> c \<in> set ''()<>@,;:/[]?='' \<or> c = backslash \<or> c = quote_char"

definition isTokenChar :: "char \<Rightarrow> bool" where
  "isTokenChar c \<longleftrightarrow> 0x20 < byte c \<and> byte c < 0x7F \<and> \<not> isTSpecial c"

definition consumeToken :: "string \<Rightarrow> string \<times> string" where
  "consumeToken v = (takeWhile isTokenChar v, dropWhile isTokenChar v)"

definition checkMediaTypeDisposition :: "string \<Rightarrow> bool" where
  "checkMediaTypeDisposition s =
     (let (typ, rest) = consumeToken s in
      if typ = [] then False
      else if rest = [] then True
      else if \<not> HasPrefix rest ''/'' then False
      else (let (subtype, rest) = consumeToken (tl rest) in subtype \<noteq> [] \<and> rest = []))"

text \<open>The rest of a quoted string, after its opening quote: the value and what follows it.\<close>

fun quoted_value :: "string \<Rightarrow> (string \<times> string) option" where
  "quoted_value [] = None"
| "quoted_value (r # v) =
     (if r = quote_char then Some ([], v)
      else
        (case v of
           s # v' \<Rightarrow>
             if r = backslash \<and> isTSpecial s then map_option (\<lambda>(x, y). (s # x, y)) (quoted_value v')
             else if byte r = 13 \<or> byte r = 10 then None
             else map_option (\<lambda>(x, y). (r # x, y)) (quoted_value (s # v'))
         | [] \<Rightarrow> None))"

definition consumeValue :: "string \<Rightarrow> string \<times> string" where
  "consumeValue v =
     (case v of
        [] \<Rightarrow> ([], [])
      | c # v' \<Rightarrow>
          if c \<noteq> quote_char then consumeToken v
          else (case quoted_value v' of None \<Rightarrow> ([], v) | Some r \<Rightarrow> r))"

text \<open>A parameter, its value and the rest; none where the library returns an empty name.\<close>

definition consumeMediaParam :: "string \<Rightarrow> (string \<times> string \<times> string) option" where
  "consumeMediaParam v =
     (case CutPrefix (TrimLeftSpace v) '';'' of
        None \<Rightarrow> None
      | Some rest \<Rightarrow>
          (let (param, rest) = consumeToken (TrimLeftSpace rest) in
           if param = [] then None
           else
             (case CutPrefix (TrimLeftSpace rest) ''='' of
                None \<Rightarrow> None
              | Some rest \<Rightarrow>
                  (let rest = TrimLeftSpace rest; (value, rest2) = consumeValue rest in
                   if value = [] \<and> rest2 = rest then None else Some (ToLower param, value, rest2)))))"

lemma quoted_value_length: "quoted_value v = Some (x, r) \<Longrightarrow> length r < length v"
proof (induction v arbitrary: x rule: quoted_value.induct)
  case (2 q v)
  show ?case
  proof (cases v)
    case Nil
    then show ?thesis using "2.prems" by (simp split: if_splits)
  next
    case (Cons s v')
    consider "r = v" | y where "quoted_value v' = Some (y, r)" "q \<noteq> quote_char" "q = backslash \<and> isTSpecial s"
      | y where "quoted_value (s # v') = Some (y, r)" "q \<noteq> quote_char" "\<not> (q = backslash \<and> isTSpecial s)" "\<not> (byte q = 13 \<or> byte q = 10)"
      using "2.prems" Cons by (simp split: if_splits) blast+
    then show ?thesis
    proof cases
      case (2 y)
      have "length r < length v'" by (rule "2.IH"(1) [OF 2(2) Cons 2(3) 2(1)])
      then show ?thesis using Cons by simp
    next
      case (3 y)
      have "length r < length (s # v')" by (rule "2.IH"(2) [OF 3(2) Cons 3(3,4,1)])
      then show ?thesis using Cons by simp
    qed simp
  qed
qed simp

lemma consumeToken_length: "length (snd (consumeToken v)) \<le> length v"
  by (simp add: consumeToken_def length_dropWhile_le)

lemma consumeValue_length: "length (snd (consumeValue v)) \<le> length v"
  using consumeToken_length [of v]
  by (auto simp: consumeValue_def dest: quoted_value_length split: list.splits option.splits)

lemma consumeMediaParam_shrinks:
  assumes "consumeMediaParam v = Some (p, x, r)"
  shows "length r < length v"
proof -
  obtain v1 where v1: "TrimLeftSpace v = '';'' @ v1"
    using assms by (auto simp: consumeMediaParam_def CutPrefix_Some split: option.splits)
  obtain v2 p' where v2: "consumeToken (TrimLeftSpace v1) = (p', v2)" by (cases "consumeToken (TrimLeftSpace v1)")
  obtain v3 where v3: "TrimLeftSpace v2 = ''='' @ v3"
    using assms v2 by (auto simp: consumeMediaParam_def v1 CutPrefix_Some split: option.splits if_splits)
  have "r = snd (consumeValue (TrimLeftSpace v3))"
    using assms v2 v3 by (auto simp: consumeMediaParam_def v1 CutPrefix_Some Let_def split: option.splits if_splits prod.splits)
  then have "length r \<le> length v3" using consumeValue_length [of "TrimLeftSpace v3"] TrimLeftSpace_length [of v3] by simp
  also have "\<dots> < length v2" using v3 TrimLeftSpace_length [of v2] by simp
  also have "\<dots> \<le> length v1" using v2 consumeToken_length [of "TrimLeftSpace v1"] TrimLeftSpace_length [of v1] by simp
  also have "\<dots> \<le> length v" using v1 TrimLeftSpace_length [of v] by simp
  finally show ?thesis .
qed

text \<open>
  The parameters; \<open>seen\<close> are those read so far. A repeated name with another value is an
  error, except that names with a star are kept apart by the name before it, which for equal
  full names is the same map.
\<close>

function media_params :: "(string \<times> string) list \<Rightarrow> string \<Rightarrow> bool" where
  "media_params seen v =
     (let v = TrimLeftSpace v in
      if v = [] then True
      else
        (case consumeMediaParam v of
           None \<Rightarrow> TrimSpace v = '';''
         | Some (key, value, rest) \<Rightarrow>
             (case map_of seen key of
                Some old \<Rightarrow> if old \<noteq> value then False else media_params seen rest
              | None \<Rightarrow> media_params ((key, value) # seen) rest)))"
  by pat_completeness auto
termination
proof (relation "measure (\<lambda>(seen, v). length v)", goal_cases)
  case (2 seen v x w a aa b y)
  then show ?case using consumeMediaParam_shrinks TrimLeftSpace_length [of v] by fastforce
next
  case (3 seen v x w a aa b)
  then show ?case using consumeMediaParam_shrinks TrimLeftSpace_length [of v] by fastforce
qed simp

declare media_params.simps [simp del]

text \<open>The media type, or none where the library reports an error.\<close>

definition ParseMediaType :: "string \<Rightarrow> string option" where
  "ParseMediaType v =
     (let base = takeWhile (\<lambda>c. c \<noteq> CHR '';'') v;
          mediatype = TrimSpace (ToLower base) in
      if checkMediaTypeDisposition mediatype \<and> media_params [] (drop (length base) v) then Some mediatype else None)"

lemma ParseMediaType_json: "ParseMediaType ''application/json'' = Some ''application/json''"
  by code_simp

end
