(* ===== verification/Hook.thy ===== *)
theory Hook
  imports InstanceController NetHttp Topology
begin

text \<open>
  \<open>internal/hook\<close> and \<open>cmd/nephos-hook\<close>: the OCI hook that asks the daemon to plumb a new
  container. The hook reads the container's state from the runtime and sends its identity over
  a private socket; the daemon checks the identity against the tables and the process, has the
  engine connect the interface and checks the tables again.
\<close>

section \<open>state.go\<close>

definition MaxStateBytes :: nat where
  "MaxStateBytes = 64 * 1024"

definition SocketPath :: string where
  "SocketPath = ''/run/nephos/hook.sock''"

definition instanceAnnotation :: string where
  "instanceAnnotation = ''io.nephos.instance-id''"

text \<open>The two regular expressions: \<open>^i-[0-9a-f]{17}$\<close> and \<open>^[0-9a-f]{64}$\<close>.\<close>

definition instanceID :: "string \<Rightarrow> bool" where
  "instanceID s = (case CutPrefix s ''i-'' of None \<Rightarrow> False | Some r \<Rightarrow> length r = 17 \<and> list_all is_lower_hex r)"

definition containerID :: "string \<Rightarrow> bool" where
  "containerID s \<longleftrightarrow> length s = 64 \<and> list_all is_lower_hex s"

record Request =
  rq_InstanceID :: string
  rq_ContainerID :: string
  rq_PID :: int

definition request_validate :: "Request \<Rightarrow> unit res" where
  "request_validate r =
     res_guard (instanceID (rq_InstanceID r) \<and> containerID (rq_ContainerID r) \<and> rq_PID r > 0)
       (Errorf ''invalid instance, runtime identity or PID'')"

record oci_state =
  oc_ID :: string
  oc_PID :: int
  oc_Bundle :: string
  oc_Annotations :: "(string \<times> string) list"

definition oci_fields :: "oci_state fields" where
  "oci_fields =
     [(''id'', set_str (\<lambda>s x. x\<lparr>oc_ID := s\<rparr>)), (''pid'', set_int (\<lambda>i x. x\<lparr>oc_PID := i\<rparr>)),
      (''bundle'', set_str (\<lambda>s x. x\<lparr>oc_Bundle := s\<rparr>)),
      (''annotations'', (\<lambda>j x. map_option (\<lambda>m. x\<lparr>oc_Annotations := m\<rparr>) (set_map j (oc_Annotations x))))]"

text \<open>
  The reader gives its bytes and then an error, or the end of the input. The limit cuts the
  bytes before an error behind it is seen.
\<close>

definition DecodeState :: "string \<times> goerr option \<Rightarrow> Request res" where
  "DecodeState reader =
     (let raw = take (MaxStateBytes + 1) (fst reader);
          read = (case snd reader of
                    Some e \<Rightarrow> if length (fst reader) \<le> MaxStateBytes then Inl (Wrapf ''read OCI state'' e) else Inr raw
                  | None \<Rightarrow> Inr raw) in
      res_bind read (\<lambda>raw.
      res_bind (res_guard (length raw \<le> MaxStateBytes)
                  (Errorf (''OCI state exceeds '' @ FormatInt (int MaxStateBytes) @ '' bytes''))) (\<lambda>_.
      res_bind (decode_single True (\<lambda>j. set_struct oci_fields j \<lparr>oc_ID = [], oc_PID = 0, oc_Bundle = [], oc_Annotations = []\<rparr>)
                  (Wrapf ''decode OCI state'' (Errorf ''json'')) (Errorf ''trailing OCI state'') raw) (\<lambda>state.
      let request = \<lparr>rq_InstanceID = map_get instanceAnnotation (oc_Annotations state),
                     rq_ContainerID = oc_ID state, rq_PID = oc_PID state\<rparr> in
      res_bind (request_validate request) (\<lambda>_. Inr request)))))"

section \<open>client.go\<close>

definition request_to_json :: "Request \<Rightarrow> json" where
  "request_to_json r =
     JObj [(''instance_id'', JStr (rq_InstanceID r)), (''container_id'', JStr (rq_ContainerID r)), (''pid'', jint (rq_PID r))]"

definition request_marshal :: "Request \<Rightarrow> string" where
  "request_marshal r = marshal (request_to_json r)"

text \<open>
  \<open>http_do socket body\<close> is \<open>client.Do\<close> on the socket: the status and the body of the response.
  It never follows a redirect.
\<close>

type_synonym 's http_do = "string \<Rightarrow> string \<Rightarrow> ('s, nat \<times> string) eff"

definition Plumb :: "'s http_do \<Rightarrow> string \<Rightarrow> Request \<Rightarrow> ('s, unit) eff" where
  "Plumb http_do socket request =
     eff_bind (eff_res (request_validate request)) (\<lambda>_.
     eff_bind (eff_guard (HasPrefix socket ''/'' \<and> \<not> has_substring socket ''://'')
                 (Errorf ''hook requires an absolute Unix socket path'')) (\<lambda>_.
     eff_bind (eff_wrap ''call private hook socket'' (http_do socket (request_marshal request))) (\<lambda>(status, body).
     eff_guard (status = 204)
       (Errorf (''plumbing refused (HTTP '' @ FormatInt (int status) @ ''): '' @ TrimSpace (take 4096 body))))))"

section \<open>cmd/nephos-hook\<close>

definition hook_run :: "'s http_do \<Rightarrow> string \<times> goerr option \<Rightarrow> string \<Rightarrow> ('s, unit) eff" where
  "hook_run http_do stdin socket = eff_bind (eff_res (DecodeState stdin)) (\<lambda>request. Plumb http_do socket request)"

definition runHook :: "'s http_do \<Rightarrow> string \<times> goerr option \<Rightarrow> ('s, unit) eff" where
  "runHook http_do stdin = hook_run http_do stdin SocketPath"

section \<open>server\_linux.go: the handler\<close>

definition http_Error :: "string \<Rightarrow> nat \<Rightarrow> nat \<times> string" where
  "http_Error message code = (code, message @ [CHR 0x0A])"

definition request_fields :: "Request fields" where
  "request_fields =
     [(''instance_id'', set_str (\<lambda>s x. x\<lparr>rq_InstanceID := s\<rparr>)), (''container_id'', set_str (\<lambda>s x. x\<lparr>rq_ContainerID := s\<rparr>)),
      (''pid'', set_int (\<lambda>i x. x\<lparr>rq_PID := i\<rparr>))]"

definition decode_request :: "string \<times> bool \<Rightarrow> (nat \<times> string) + Request" where
  "decode_request body =
     (let (raw, eof) = limited_body MaxStateBytes body in
      decode_single eof (\<lambda>j. set_strict request_fields j \<lparr>rq_InstanceID = [], rq_ContainerID = [], rq_PID = 0\<rparr>)
        (http_Error ''invalid hook request'' 400) (http_Error ''trailing hook request'' 400) raw)"

definition network_converged :: "Subnet \<Rightarrow> VPC \<Rightarrow> bool" where
  "network_converged subnet vpc \<longleftrightarrow>
     \<not> sub_DeletionRequested subnet \<and> \<not> vpc_DeletionRequested vpc \<and>
     sub_State subnet = StateAvailable \<and> vpc_State vpc = StateAvailable \<and>
     sub_ObservedGeneration subnet = sub_Generation subnet \<and> vpc_ObservedGeneration vpc = vpc_Generation vpc"

definition tx_admit :: "Request \<Rightarrow> (Instance \<times> Subnet \<times> VPC) tx" where
  "tx_admit request =
     tx_bind (tx_read (tx_GetInstance ''default'' (rq_InstanceID request))) (\<lambda>inst.
     tx_bind (tx_guard (\<not> inst_DeletionRequested inst \<and> inst_RuntimeID inst = rq_ContainerID request)
                (Errorf ''runtime identity does not match live desired instance'')) (\<lambda>_.
     tx_bind (tx_read (tx_GetSubnet ''default'' (inst_SubnetID inst))) (\<lambda>subnet.
     tx_bind (tx_read (tx_GetVPC ''default'' (sub_VPCID subnet))) (\<lambda>vpc.
     tx_bind (tx_guard (network_converged subnet vpc) (Errorf ''network prerequisites are not converged'')) (\<lambda>_.
     tx_return (inst, subnet, vpc))))))"

text \<open>
  The environment of a request: \<open>pe_between n\<close> is what others commit before the n-th access to
  the tables, \<open>pe_proc\<close> what the kernel answers about a process, \<open>pe_text\<close> the method \<open>Error\<close>.
\<close>

record plumb_env =
  pe_between :: "nat \<Rightarrow> db \<Rightarrow> db"
  pe_fault :: "nat \<Rightarrow> fault"
  pe_proc :: "int \<Rightarrow> proc_view"
  pe_text :: "goerr \<Rightarrow> string"

type_synonym 'x ENIPlumber = "VPC \<Rightarrow> Subnet \<Rightarrow> ENI \<Rightarrow> InstanceTarget option \<Rightarrow> ('x, unit) eff"

definition plumb :: "plumb_env \<Rightarrow> 'x ENIPlumber \<Rightarrow> string \<times> bool \<Rightarrow> db \<times> 'x \<Rightarrow> (nat \<times> string) \<times> (db \<times> 'x)" where
  "plumb ev network body w =
     (case decode_request body of
        Inl response \<Rightarrow> (response, w)
      | Inr request \<Rightarrow>
     (case request_validate request of
        Inl e \<Rightarrow> (http_Error (pe_text ev e) 400, w)
      | Inr _ \<Rightarrow>
     (let d = pe_between ev 0 (fst w); x = snd w in
      case fst (WithTx (pe_fault ev 0) (tx_admit request) d) of
        Inl e \<Rightarrow> (http_Error (pe_text ev e) 409, (d, x))
      | Inr (inst, subnet, vpc) \<Rightarrow>
     (case OpenInstance (pe_proc ev (rq_PID request)) (rq_PID request) (rq_ContainerID request) of
        Inl e \<Rightarrow> (http_Error (pe_text ev e) 403, (d, x))
      | Inr target \<Rightarrow>
     (case network vpc subnet (inst_ENI inst) (Some target) x of
        (Inl e, x) \<Rightarrow> (http_Error (pe_text ev e) 500, (d, x))
      | (Inr _, x) \<Rightarrow>
     (let d = pe_between ev 1 d;
          changed = (http_Error ''instance desired state changed during plumbing'' 409, (d, x)) in
      case store_GetInstance (pe_fault ev 1) ''default'' (inst_ID inst) d of
        Inl e \<Rightarrow> changed
      | Inr current \<Rightarrow>
          if inst_Generation current \<noteq> inst_Generation inst \<or> inst_DeletionRequested current \<or>
             inst_RuntimeID current \<noteq> rq_ContainerID request
          then changed
          else ((204, []), (d, x))))))))"

section \<open>server\_linux.go: the listener\<close>

definition allowedPeer :: "nat \<Rightarrow> bool" where
  "allowedPeer uid \<longleftrightarrow> uid = 0"

text \<open>A connection with what the kernel tells about its peer.\<close>

record conn =
  cn_id :: nat
  cn_SyscallConn :: "goerr option"
  cn_Control :: "goerr option"
  cn_peerErr :: "goerr option"
  cn_cred :: "nat option"

definition root_peer :: "conn \<Rightarrow> bool" where
  "root_peer c \<longleftrightarrow>
     cn_SyscallConn c = None \<and> cn_Control c = None \<and> cn_peerErr c = None \<and>
     (case cn_cred c of None \<Rightarrow> False | Some uid \<Rightarrow> allowedPeer uid)"

text \<open>
  The connections and errors that \<open>AcceptUnix\<close> returns, in order. The result is what \<open>Accept\<close>
  returns, the connections it closed before and the rest; none where it still waits.
\<close>

fun Accept :: "(goerr + conn) list \<Rightarrow> (conn res \<times> conn list \<times> (goerr + conn) list) option" where
  "Accept [] = None"
| "Accept (Inl e # cs) = Some (Inl e, [], cs)"
| "Accept (Inr c # cs) =
     (if root_peer c then Some (Inr c, [], cs)
      else map_option (\<lambda>(r, closed, rest). (r, c # closed, rest)) (Accept cs))"

text \<open>
  The socket's path: its mode, or none where there is no file. Closing the listener removes
  the file it made; the mode at the end is 0600.
\<close>

record listen_env =
  ls_ctx :: "goerr option"
  ls_Lstat :: "goerr option"
  ls_ListenUnix :: "goerr option"
  ls_Chmod :: "goerr option"

definition Listen :: "listen_env \<Rightarrow> nat option \<Rightarrow> unit res \<times> nat option" where
  "Listen ev path =
     (case ls_ctx ev of
        Some e \<Rightarrow> (Inl e, path)
      | None \<Rightarrow>
     (case ls_Lstat ev of
        Some e \<Rightarrow> (Inl e, path)
      | None \<Rightarrow>
     if path \<noteq> None then (Inl (Errorf ''hook socket path already exists''), path)
     else
     (case ls_ListenUnix ev of
        Some e \<Rightarrow> (Inl (Wrapf ''listen private hook socket'' e), path)
      | None \<Rightarrow>
     (case ls_Chmod ev of
        Some e \<Rightarrow> (Inl e, None)
      | None \<Rightarrow> (Inr (), Some 384)))))"

end
