(* ===== verification/HookFacts.thy ===== *)
theory HookFacts
  imports Hook StartGuard
begin

text \<open>
  What a successful hook shows. The request that the hook sends is the one the daemon reads;
  the daemon has the engine connect an interface only for a container whose identity the
  tables hold, and answers with success only if they still hold it afterwards. Containers that
  the controller starts on a ready network are admitted.
\<close>

section \<open>The request on the wire\<close>

lemma length_dec: "n < 10 ^ k \<Longrightarrow> 0 < k \<Longrightarrow> length (dec n) \<le> k"
proof (induction k arbitrary: n)
  case (Suc k)
  show ?case
  proof (cases "n < 10")
    case True
    then show ?thesis by (simp add: dec.simps)
  next
    case False
    then have k: "0 < k" using Suc.prems(1) by (cases k) auto
    have "n div 10 < 10 ^ k" using Suc.prems(1) by (simp add: less_mult_imp_div_less mult.commute)
    from Suc.IH [OF this k] False show ?thesis by (subst dec.simps) simp
  qed
qed simp

lemma length_FormatInt: "int64 i \<Longrightarrow> length (FormatInt i) \<le> 21"
proof -
  assume "int64 i"
  then have "nat i < 10 ^ 20" "nat (- i) < 10 ^ 20" by (auto simp: int64_def nat_less_iff)
  then show ?thesis using length_dec [of "nat i" 20] length_dec [of "nat (- i)" 20] by (auto simp: FormatInt_def)
qed

lemma jescape_plain:
  "list_all (\<lambda>c. is_lower_hex c \<or> c = CHR ''i'' \<or> c = CHR ''-'') s \<Longrightarrow> jescape s = s"
proof (induction s)
  case (Cons c s)
  then have c: "is_lower_hex c \<or> c = CHR ''i'' \<or> c = CHR ''-''" by simp
  then have b: "byte c < 128" "32 \<le> byte c" "byte c \<noteq> 34" "byte c \<noteq> 92" "byte c \<noteq> 60" "byte c \<noteq> 62" "byte c \<noteq> 38"
    by (auto simp: is_lower_hex_def is_digit_def)
  then have "jescape_ascii c = [c]" by (auto simp: jescape_ascii_def)
  then show ?case using b Cons by (subst jescape.simps) simp
qed (simp add: jescape.simps)

lemma hex_ascii: "list_all is_lower_hex s \<Longrightarrow> ValidString s"
  by (rule ValidString_ascii) (auto simp: list_all_iff is_lower_hex_def is_digit_def)

lemma instanceID_iff: "instanceID s \<longleftrightarrow> (\<exists>r. s = ''i-'' @ r \<and> length r = 17 \<and> list_all is_lower_hex r)"
proof (cases "CutPrefix s ''i-''")
  case None
  then have "s \<noteq> ''i-'' @ r" for r using CutPrefix_append [of "''i-''" r] by fastforce
  then show ?thesis using None by (simp add: instanceID_def)
next
  case (Some r)
  then have "s = ''i-'' @ r" by (simp only: CutPrefix_Some)
  then show ?thesis using Some by (simp add: instanceID_def)
qed

lemma instanceID_valid:
  assumes "instanceID s"
  shows "ValidString s" and "jescape s = s" and "length s = 19"
proof -
  obtain r where r: "s = ''i-'' @ r" "length r = 17" "list_all is_lower_hex r" using assms by (auto simp: instanceID_iff)
  then show "length s = 19" by simp
  have "list_all (\<lambda>c. is_lower_hex c \<or> c = CHR ''i'' \<or> c = CHR ''-'') r" using r(3) by (auto simp: list_all_iff)
  then show "jescape s = s" using r(1) by (intro jescape_plain) simp
  show "ValidString s" using r by (intro ValidString_ascii) (auto simp: list_all_iff is_lower_hex_def is_digit_def)
qed

lemma containerID_valid:
  assumes "containerID s"
  shows "ValidString s" and "jescape s = s" and "length s = 64"
  using assms by (auto simp: containerID_def hex_ascii list_all_iff intro!: jescape_plain)

lemma request_known:
  "set_known request_fields ((''instance_id'', j) # kvs) x =
     (case set_str (\<lambda>s x. x\<lparr>rq_InstanceID := s\<rparr>) j x of None \<Rightarrow> None | Some y \<Rightarrow> set_known request_fields kvs y)"
  "set_known request_fields ((''container_id'', j) # kvs) x =
     (case set_str (\<lambda>s x. x\<lparr>rq_ContainerID := s\<rparr>) j x of None \<Rightarrow> None | Some y \<Rightarrow> set_known request_fields kvs y)"
  "set_known request_fields ((''pid'', j) # kvs) x =
     (case set_int (\<lambda>i x. x\<lparr>rq_PID := i\<rparr>) j x of None \<Rightarrow> None | Some y \<Rightarrow> set_known request_fields kvs y)"
proof -
  have "distinct (map fold_key [''instance_id'', ''container_id'', ''pid''])" by code_simp
  then have "distinct (map fold_key (map fst request_fields))" by (simp only: request_fields_def list.map fst_conv)
  note known = set_known_field [OF this]
  show "set_known request_fields ((''instance_id'', j) # kvs) x =
      (case set_str (\<lambda>s x. x\<lparr>rq_InstanceID := s\<rparr>) j x of None \<Rightarrow> None | Some y \<Rightarrow> set_known request_fields kvs y)"
    "set_known request_fields ((''container_id'', j) # kvs) x =
      (case set_str (\<lambda>s x. x\<lparr>rq_ContainerID := s\<rparr>) j x of None \<Rightarrow> None | Some y \<Rightarrow> set_known request_fields kvs y)"
    "set_known request_fields ((''pid'', j) # kvs) x =
      (case set_int (\<lambda>i x. x\<lparr>rq_PID := i\<rparr>) j x of None \<Rightarrow> None | Some y \<Rightarrow> set_known request_fields kvs y)"
    by (rule known, simp add: request_fields_def)+
qed

lemma request_round_trip:
  assumes "request_validate r = Inr ()" and "int64 (rq_PID r)"
  shows "decode_request (request_marshal r, True) = Inr r"
proof -
  have ids: "instanceID (rq_InstanceID r)" "containerID (rq_ContainerID r)" using assms(1) by (simp_all add: request_validate_def)
  note v = instanceID_valid [OF ids(1)] containerID_valid [OF ids(2)]
  have "jwf 10000 (request_to_json r)" using v by (simp add: request_to_json_def jwf_JObj ValidString_ascii)
  then have u: "unmarshal (request_marshal r) = Some (request_to_json r)" by (simp add: request_marshal_def unmarshal_marshal)
  have keys: "jescape ''instance_id'' = ''instance_id''" "jescape ''container_id'' = ''container_id''" "jescape ''pid'' = ''pid''"
    by code_simp+
  have "length (request_marshal r) \<le> MaxStateBytes"
    using length_FormatInt [OF assms(2)] v by (simp add: request_marshal_def request_to_json_def keys MaxStateBytes_def)
  moreover have "set_strict request_fields (request_to_json r) \<lparr>rq_InstanceID = [], rq_ContainerID = [], rq_PID = 0\<rparr> = Some r"
    using assms(2) by (simp add: set_strict_def request_to_json_def request_known del: set_known.simps(2))
  ultimately show ?thesis using u by (simp add: decode_request_def limited_body_def decode_single_Inr)
qed

section \<open>The state the hook reads\<close>

lemma DecodeState_Inr:
  assumes "DecodeState stdin = Inr r"
  shows "request_validate r = Inr ()" and "int64 (rq_PID r)"
proof -
  let ?z = "\<lparr>oc_ID = [], oc_PID = 0, oc_Bundle = [], oc_Annotations = []\<rparr>"
  obtain j s where s: "set_struct oci_fields j ?z = Some s" "r = \<lparr>rq_InstanceID = map_get instanceAnnotation (oc_Annotations s),
        rq_ContainerID = oc_ID s, rq_PID = oc_PID s\<rparr>" and v: "request_validate r = Inr ()"
    using assms by (auto simp: DecodeState_def Let_def res_bind_Inr decode_single_Inr)
  show "request_validate r = Inr ()" by (rule v)
  have z: "int64 (oc_PID ?z)" by (simp add: int64_def)
  have step: "int64 (oc_PID y)" if "(k, g) \<in> set oci_fields" "int64 (oc_PID x)" "g j x = Some y" for k g j x y
    using that by (auto simp: oci_fields_def set_str_def set_int_def ParseInt_int64 split: json.splits)
  have keep: "int64 (oc_PID y)" if "int64 (oc_PID x)" "set_members oci_fields kvs x = Some y" for x kvs y
    by (rule set_members_keep [where P = "\<lambda>s. int64 (oc_PID s)", OF _ that]) (erule step)
  have "int64 (oc_PID s)" using s(1) z keep [of ?z _ s] by (auto simp: set_struct_def split: json.splits)
  then show "int64 (rq_PID r)" using s(2) by simp
qed

section \<open>The answer of the daemon\<close>

text \<open>What the tables must say of a request: the instance is live and has this container.\<close>

definition holds_container :: "Request \<Rightarrow> Instance \<Rightarrow> bool" where
  "holds_container request inst \<longleftrightarrow>
     inst_ID inst = rq_InstanceID request \<and> \<not> inst_DeletionRequested inst \<and> inst_RuntimeID inst = rq_ContainerID request"

lemma tx_admit_Inr:
  assumes "fst (WithTx f (tx_admit request) d) = Inr (inst, subnet, vpc)"
  shows "f = NoFault" and "tx_GetInstance defaultWorkspace (rq_InstanceID request) d = Inr inst" and "holds_container request inst"
    and "tx_GetSubnet defaultWorkspace (inst_SubnetID inst) d = Inr subnet" and "tx_GetVPC defaultWorkspace (sub_VPCID subnet) d = Inr vpc"
    and "network_converged subnet vpc"
proof -
  show "f = NoFault" using assms by (cases f) (auto simp: WithTx_def split: sum.splits)
  then have "\<exists>d'. tx_admit request d = Inr ((inst, subnet, vpc), d')"
    using assms by (auto simp: WithTx_def split: sum.splits prod.splits)
  then have a: "tx_GetInstance defaultWorkspace (rq_InstanceID request) d = Inr inst" "\<not> inst_DeletionRequested inst"
      "inst_RuntimeID inst = rq_ContainerID request"
      "tx_GetSubnet defaultWorkspace (inst_SubnetID inst) d = Inr subnet" "tx_GetVPC defaultWorkspace (sub_VPCID subnet) d = Inr vpc"
      "network_converged subnet vpc"
    by (auto simp: tx_admit_def tx_bind_Inr)
  then show "tx_GetInstance defaultWorkspace (rq_InstanceID request) d = Inr inst" "holds_container request inst"
    "tx_GetSubnet defaultWorkspace (inst_SubnetID inst) d = Inr subnet" "tx_GetVPC defaultWorkspace (sub_VPCID subnet) d = Inr vpc"
    "network_converged subnet vpc"
    by (auto simp: holds_container_def dest: tx_GetInstance_ID)
qed

text \<open>
  What a successful request shows: the tables hold the container for the instance, its network
  is converged, the process is the container's, the engine connected the interface, and the
  tables still held the container afterwards.
\<close>

definition plumbed :: "plumb_env \<Rightarrow> 'x ENIPlumber \<Rightarrow> Request \<Rightarrow> db \<times> 'x \<Rightarrow> db \<times> 'x \<Rightarrow> bool" where
  "plumbed ev network request w w' \<longleftrightarrow>
     (let d = pe_between ev 0 (fst w) in
      \<exists>inst subnet vpc target current.
        pe_fault ev 0 = NoFault \<and>
        tx_GetInstance defaultWorkspace (rq_InstanceID request) d = Inr inst \<and> holds_container request inst \<and>
        tx_GetSubnet defaultWorkspace (inst_SubnetID inst) d = Inr subnet \<and>
        tx_GetVPC defaultWorkspace (sub_VPCID subnet) d = Inr vpc \<and> network_converged subnet vpc \<and>
        OpenInstance (pe_proc ev (rq_PID request)) (rq_PID request) (rq_ContainerID request) = Inr target \<and>
        network vpc subnet (inst_ENI inst) (Some target) (snd w) = (Inr (), snd w') \<and>
        fst w' = pe_between ev 1 d \<and>
        store_GetInstance (pe_fault ev 1) defaultWorkspace (inst_ID inst) (fst w') = Inr current \<and>
        holds_container request current \<and> inst_Generation current = inst_Generation inst)"

lemma plumb_204:
  assumes "decode_request body = Inr request" and "plumb ev network body w = ((204, b), w')"
  shows "plumbed ev network request w w'"
proof -
  have v: "request_validate request = Inr ()"
    using assms by (auto simp: plumb_def http_Error_def split: sum.splits)
  let ?d = "pe_between ev 0 (fst w)"
  obtain inst subnet vpc where a: "fst (WithTx (pe_fault ev 0) (tx_admit request) ?d) = Inr (inst, subnet, vpc)"
    using assms v by (auto simp: plumb_def http_Error_def Let_def split: sum.splits)
  obtain target where t: "OpenInstance (pe_proc ev (rq_PID request)) (rq_PID request) (rq_ContainerID request) = Inr target"
    using assms v a by (auto simp: plumb_def http_Error_def Let_def split: sum.splits)
  obtain u x where n: "network vpc subnet (inst_ENI inst) (Some target) (snd w) = (Inr u, x)"
    using assms v a t by (auto simp: plumb_def http_Error_def Let_def split: sum.splits prod.splits)
  obtain current where c: "store_GetInstance (pe_fault ev 1) ''default'' (inst_ID inst) (pe_between ev 1 ?d) = Inr current"
      "inst_Generation current = inst_Generation inst" "\<not> inst_DeletionRequested current"
      "inst_RuntimeID current = rq_ContainerID request" "w' = (pe_between ev 1 ?d, x)"
    using assms v a t n by (auto simp: plumb_def http_Error_def Let_def split: sum.splits prod.splits if_splits)
  note adm = tx_admit_Inr [OF a]
  have "inst_ID current = rq_InstanceID request"
    using store_GetInstance_ID [OF c(1)] adm(3) by (simp add: holds_container_def)
  then show ?thesis
    using adm c n t by (auto simp: plumbed_def holds_container_def Let_def)
qed

lemma plumb_admitted:
  assumes "decode_request body = Inr request" and "request_validate request = Inr ()" and "plumbed ev network request w w'"
  shows "plumb ev network body w = ((204, []), w')"
proof -
  let ?d = "pe_between ev 0 (fst w)"
  obtain inst subnet vpc target current where
    a: "pe_fault ev 0 = NoFault" "tx_GetInstance defaultWorkspace (rq_InstanceID request) ?d = Inr inst" "holds_container request inst"
      "tx_GetSubnet defaultWorkspace (inst_SubnetID inst) ?d = Inr subnet" "tx_GetVPC defaultWorkspace (sub_VPCID subnet) ?d = Inr vpc"
      "network_converged subnet vpc" and
    b: "OpenInstance (pe_proc ev (rq_PID request)) (rq_PID request) (rq_ContainerID request) = Inr target"
      "network vpc subnet (inst_ENI inst) (Some target) (snd w) = (Inr (), snd w')" "fst w' = pe_between ev 1 ?d"
      "store_GetInstance (pe_fault ev 1) defaultWorkspace (inst_ID inst) (fst w') = Inr current"
      "holds_container request current" "inst_Generation current = inst_Generation inst"
    using assms(3) by (auto simp: plumbed_def Let_def)
  have "fst (WithTx (pe_fault ev 0) (tx_admit request) ?d) = Inr (inst, subnet, vpc)"
    using a by (simp add: WithTx_def tx_admit_def tx_bind_def tx_read_def tx_guard_def tx_return_def holds_container_def)
  then show ?thesis using assms(1,2) b
    by (cases w') (simp add: plumb_def Let_def holds_container_def)
qed

text \<open>The hook and the daemon together: the hook's call is the handler's.\<close>

definition handler_do :: "plumb_env \<Rightarrow> 'x ENIPlumber \<Rightarrow> (db \<times> 'x) http_do" where
  "handler_do ev network socket body w = (case plumb ev network (body, True) w of (response, w') \<Rightarrow> (Inr response, w'))"

lemma hook_exact:
  "runHook (handler_do ev network) stdin w = (Inr (), w') \<longleftrightarrow>
   (\<exists>request. DecodeState stdin = Inr request \<and> plumbed ev network request w w')"
proof
  assume run: "runHook (handler_do ev network) stdin w = (Inr (), w')"
  obtain request where r: "DecodeState stdin = Inr request"
    using run by (auto simp: runHook_def hook_run_def eff_bind_def split: sum.splits)
  note d = DecodeState_Inr [OF r]
  obtain b where "plumb ev network (request_marshal request, True) w = ((204, b), w')"
    using run r d(1) by (auto simp: runHook_def hook_run_def Plumb_def handler_do_def eff_bind_def eff_wrap_def eff_guard_def
        split: sum.splits prod.splits if_splits)
  then show "\<exists>request. DecodeState stdin = Inr request \<and> plumbed ev network request w w'"
    using plumb_204 [OF request_round_trip [OF d]] r by blast
next
  assume "\<exists>request. DecodeState stdin = Inr request \<and> plumbed ev network request w w'"
  then obtain request where r: "DecodeState stdin = Inr request" "plumbed ev network request w w'" by blast
  note d = DecodeState_Inr [OF r(1)]
  have "plumb ev network (request_marshal request, True) w = ((204, []), w')"
    by (rule plumb_admitted [OF request_round_trip [OF d] d(1) r(2)])
  moreover have "HasPrefix SocketPath ''/'' \<and> \<not> has_substring SocketPath ''://''" by code_simp
  ultimately show "runHook (handler_do ev network) stdin w = (Inr (), w')"
    using r(1) d(1) by (simp add: runHook_def hook_run_def Plumb_def handler_do_def eff_bind_def eff_wrap_def)
qed

section \<open>The controller's containers are admitted\<close>

lemma hook_admits:
  assumes inv: "db_inv d" and r: "r \<in> set (instances d)" and live: "ir_deletion_requested r = 0"
    and id: "ir_runtime_id r = Some (rq_ContainerID request)" "ir_id r = rq_InstanceID request"
    and ready: "Ready (\<lambda>d. d) (snapshot r d) d = Inr True"
  shows "\<exists>subnet vpc. fst (WithTx NoFault (tx_admit request) d) = Inr (snapshot r d, subnet, vpc)"
proof -
  obtain s v where p: "store_GetSubnet defaultWorkspace (ir_subnet_id r) d = Inr (subnet_of_row s)"
      "store_GetVPC defaultWorkspace (sr_vpc_id s) d = Inr (vpc_of_row v)"
    by (rule instance_place [OF inv r])
  have sel: "inst_WorkspaceID (snapshot r d) = defaultWorkspace" "inst_SubnetID (snapshot r d) = ir_subnet_id r"
    "\<not> inst_DeletionRequested (snapshot r d)" "inst_RuntimeID (snapshot r d) = rq_ContainerID request" "sub_VPCID (subnet_of_row s) = sr_vpc_id s"
    using instance_rows(3) [OF inv r] live id by (simp_all add: instance_of_rows_def subnet_of_row_def)
  have "network_converged (subnet_of_row s) (vpc_of_row v)"
    using ready p sel by (simp add: Ready_def network_converged_def)
  moreover have "tx_GetInstance defaultWorkspace (rq_InstanceID request) d = Inr (snapshot r d)"
    using tx_GetInstance_ok [OF inv r] id(2) by simp
  moreover have "tx_GetSubnet defaultWorkspace (ir_subnet_id r) d = Inr (subnet_of_row s)"
    "tx_GetVPC defaultWorkspace (sr_vpc_id s) d = Inr (vpc_of_row v)"
    using p by (simp_all add: tx_GetSubnet_def store_GetSubnet_def tx_GetVPC_def store_GetVPC_def)
  ultimately have "tx_admit request d = Inr ((snapshot r d, subnet_of_row s, vpc_of_row v), d)"
    using sel by (simp add: tx_admit_def tx_bind_def tx_read_def tx_guard_def tx_return_def)
  then show ?thesis by (simp add: WithTx_def)
qed

section \<open>The listener\<close>

text \<open>Only a connection of root is handed out, and every other one was closed before.\<close>

lemma Accept_root:
  "Accept cs = Some (r, closed, rest) \<Longrightarrow>
   \<exists>x. cs = map Inr closed @ x # rest \<and> (\<forall>c \<in> set closed. \<not> root_peer c) \<and>
     (case r of Inl e \<Rightarrow> x = Inl e | Inr c \<Rightarrow> x = Inr c \<and> cn_cred c = Some 0)"
  by (induction cs arbitrary: closed rule: Accept.induct)
    (fastforce simp: root_peer_def allowedPeer_def split: if_splits option.splits)+

lemma Listen_private:
  "Listen ev path = (r, path') \<Longrightarrow> (if r = Inr () then path = None \<and> path' = Some 384 else path' = path)"
  by (auto simp: Listen_def split: option.splits if_splits)

end
