(* ===== verification/ConsoleProtocol.thy ===== *)
theory ConsoleProtocol
  imports JsonDecoder
begin

text \<open>
  \<open>internal/tunnel/console/protocol.go\<close>: the messages of an instance console. Control messages
  are strict JSON of bounded size, data are frames with a channel byte in front. What either
  side sends, the other reads back; what is read is well formed.
\<close>

section \<open>Messages\<close>

definition Subprotocol :: string where
  "Subprotocol = ''nephos.console.v1''"

definition MaxControlBytes :: nat where
  "MaxControlBytes = 4 * 1024"

definition MaxDataBytes :: nat where
  "MaxDataBytes = 64 * 1024"

record Start =
  st_Type :: string
  st_Command :: "string list"
  st_TTY :: bool
  st_Rows :: nat
  st_Cols :: nat

record Resize =
  rz_Type :: string
  rz_Rows :: nat
  rz_Cols :: nat

record StdinEOF =
  eo_Type :: string

record Exit =
  ex_Type :: string
  ex_ExitCode :: int

record Error =
  er_Type :: string
  er_Message :: string

record ClientControl =
  cc_Type :: string
  cc_Start :: "Start option"
  cc_Resize :: "Resize option"

record ServerControl =
  sc_Type :: string
  sc_Exit :: "Exit option"
  sc_Error :: "Error option"

section \<open>Decoding\<close>

definition strictControl :: "(json \<Rightarrow> 'a option) \<Rightarrow> string \<Rightarrow> 'a res" where
  "strictControl target raw =
     (if raw = [] \<or> length raw > MaxControlBytes then Inl (Errorf ''console control exceeds size limit or is empty'')
      else decode_single True target (Wrapf ''decode console control'' (Errorf ''json''))
             (Errorf ''console control contains trailing data'') raw)"

definition type_fields :: "string fields" where
  "type_fields = [(''type'', set_str (\<lambda>s x. s))]"

definition controlType :: "string \<Rightarrow> string res" where
  "controlType raw =
     (if raw = [] \<or> length raw > MaxControlBytes then Inl (Errorf ''console control exceeds size limit or is empty'')
      else
        (case Option.bind (unmarshal raw) (\<lambda>j. set_struct type_fields j []) of
           None \<Rightarrow> Inl (Wrapf ''decode console control type'' (Errorf ''json''))
         | Some kind \<Rightarrow> if kind = [] then Inl (Errorf ''console control type is required'') else Inr kind))"

section \<open>From the client\<close>

record start_wire =
  sw_Type :: string
  sw_Command :: "string list \<times> string list"
  sw_TTY :: "bool option"
  sw_Rows :: "nat option"
  sw_Cols :: "nat option"

definition start_fields :: "start_wire fields" where
  "start_fields =
     [(''type'', set_str (\<lambda>s x. x\<lparr>sw_Type := s\<rparr>)),
      (''command'', (\<lambda>j x. map_option (\<lambda>c. x\<lparr>sw_Command := c\<rparr>) (set_slice [] set_elem_str j (sw_Command x)))),
      (''tty'', set_ptr read_bool (\<lambda>b x. x\<lparr>sw_TTY := b\<rparr>)),
      (''rows'', set_ptr (read_uint 16) (\<lambda>n x. x\<lparr>sw_Rows := n\<rparr>)),
      (''cols'', set_ptr (read_uint 16) (\<lambda>n x. x\<lparr>sw_Cols := n\<rparr>))]"

record resize_wire =
  rw_Type :: string
  rw_Rows :: "nat option"
  rw_Cols :: "nat option"

definition resize_fields :: "resize_wire fields" where
  "resize_fields =
     [(''type'', set_str (\<lambda>s x. x\<lparr>rw_Type := s\<rparr>)),
      (''rows'', set_ptr (read_uint 16) (\<lambda>n x. x\<lparr>rw_Rows := n\<rparr>)),
      (''cols'', set_ptr (read_uint 16) (\<lambda>n x. x\<lparr>rw_Cols := n\<rparr>))]"

definition eof_fields :: "StdinEOF fields" where
  "eof_fields = [(''type'', set_str (\<lambda>s x. x\<lparr>eo_Type := s\<rparr>))]"

text \<open>Both pointers are set, to something else than zero.\<close>

definition nonzero :: "nat option \<Rightarrow> nat option \<Rightarrow> bool" where
  "nonzero rows cols \<longleftrightarrow> (case (rows, cols) of (Some r, Some c) \<Rightarrow> r \<noteq> 0 \<and> c \<noteq> 0 | _ \<Rightarrow> False)"

definition parse_start :: "string \<Rightarrow> start_wire \<Rightarrow> ClientControl res" where
  "parse_start kind wire =
     (let argv = fst (sw_Command wire) in
      case sw_TTY wire of
        None \<Rightarrow> Inl (Errorf ''console start requires tty and nonempty argv'')
      | Some tty \<Rightarrow>
          res_bind (res_guard (argv \<noteq> [] \<and> hd argv \<noteq> []) (Errorf ''console start requires tty and nonempty argv'')) (\<lambda>_.
          res_bind (res_guard (list_all (\<lambda>arg. CHR 0x00 \<notin> set arg) argv) (Errorf ''console argv contains NUL'')) (\<lambda>_.
          if tty then
            res_bind (res_guard (nonzero (sw_Rows wire) (sw_Cols wire)) (Errorf ''TTY start requires nonzero dimensions'')) (\<lambda>_.
            Inr \<lparr>cc_Type = kind,
                 cc_Start = Some \<lparr>st_Type = kind, st_Command = argv, st_TTY = True, st_Rows = the (sw_Rows wire), st_Cols = the (sw_Cols wire)\<rparr>,
                 cc_Resize = None\<rparr>)
          else
            res_bind (res_guard (sw_Rows wire = None \<and> sw_Cols wire = None) (Errorf ''non-TTY start must omit dimensions'')) (\<lambda>_.
            Inr \<lparr>cc_Type = kind, cc_Start = Some \<lparr>st_Type = kind, st_Command = argv, st_TTY = False, st_Rows = 0, st_Cols = 0\<rparr>,
                 cc_Resize = None\<rparr>))))"

definition parse_resize :: "string \<Rightarrow> resize_wire \<Rightarrow> ClientControl res" where
  "parse_resize kind wire =
     res_bind (res_guard (nonzero (rw_Rows wire) (rw_Cols wire)) (Errorf ''resize requires nonzero dimensions'')) (\<lambda>_.
     Inr \<lparr>cc_Type = kind, cc_Start = None,
          cc_Resize = Some \<lparr>rz_Type = kind, rz_Rows = the (rw_Rows wire), rz_Cols = the (rw_Cols wire)\<rparr>\<rparr>)"

definition ParseClientText :: "string \<Rightarrow> ClientControl res" where
  "ParseClientText raw =
     res_bind (controlType raw) (\<lambda>kind.
     if kind = ''start'' then
       res_bind (strictControl (\<lambda>j. set_strict start_fields j
           \<lparr>sw_Type = [], sw_Command = ([], []), sw_TTY = None, sw_Rows = None, sw_Cols = None\<rparr>) raw) (parse_start kind)
     else if kind = ''resize'' then
       res_bind (strictControl (\<lambda>j. set_strict resize_fields j \<lparr>rw_Type = [], rw_Rows = None, rw_Cols = None\<rparr>) raw) (parse_resize kind)
     else if kind = ''stdin_eof'' then
       res_bind (strictControl (\<lambda>j. set_strict eof_fields j \<lparr>eo_Type = []\<rparr>) raw) (\<lambda>_.
       Inr \<lparr>cc_Type = kind, cc_Start = None, cc_Resize = None\<rparr>)
     else Inl (Errorf (''unsupported client control '' @ Quote kind)))"

section \<open>From the server\<close>

record exit_wire =
  xw_Type :: string
  xw_ExitCode :: "int option"

definition exit_fields :: "exit_wire fields" where
  "exit_fields = [(''type'', set_str (\<lambda>s x. x\<lparr>xw_Type := s\<rparr>)), (''exit_code'', set_ptr read_int (\<lambda>n x. x\<lparr>xw_ExitCode := n\<rparr>))]"

definition error_fields :: "Error fields" where
  "error_fields = [(''type'', set_str (\<lambda>s x. x\<lparr>er_Type := s\<rparr>)), (''message'', set_str (\<lambda>s x. x\<lparr>er_Message := s\<rparr>))]"

definition ParseServerText :: "string \<Rightarrow> ServerControl res" where
  "ParseServerText raw =
     res_bind (controlType raw) (\<lambda>kind.
     if kind = ''exit'' then
       res_bind (strictControl (\<lambda>j. set_strict exit_fields j \<lparr>xw_Type = [], xw_ExitCode = None\<rparr>) raw) (\<lambda>wire.
       case xw_ExitCode wire of
         None \<Rightarrow> Inl (Errorf ''invalid console exit status'')
       | Some code \<Rightarrow>
           res_bind (res_guard (0 \<le> code \<and> code \<le> 255) (Errorf ''invalid console exit status'')) (\<lambda>_.
           Inr \<lparr>sc_Type = kind, sc_Exit = Some \<lparr>ex_Type = kind, ex_ExitCode = code\<rparr>, sc_Error = None\<rparr>))
     else if kind = ''error'' then
       res_bind (strictControl (\<lambda>j. set_strict error_fields j \<lparr>er_Type = [], er_Message = []\<rparr>) raw) (\<lambda>wire.
       res_bind (res_guard (er_Message wire \<noteq> []) (Errorf ''console error message is empty'')) (\<lambda>_.
       Inr \<lparr>sc_Type = kind, sc_Exit = None, sc_Error = Some wire\<rparr>))
     else Inl (Errorf (''unsupported server control '' @ Quote kind)))"

section \<open>Frames\<close>

definition frame :: "char \<Rightarrow> string \<Rightarrow> string res" where
  "frame channel bytes =
     (if length bytes + 1 > MaxDataBytes
      then Inl (Errorf (''console data frame exceeds '' @ FormatInt (int MaxDataBytes) @ '' bytes''))
      else Inr (channel # bytes))"

definition InputFrame :: "string \<Rightarrow> string res" where
  "InputFrame bytes = frame CHR 0x00 bytes"

definition ParseInputFrame :: "string \<Rightarrow> string res" where
  "ParseInputFrame raw =
     (if raw = [] \<or> length raw > MaxDataBytes \<or> hd raw \<noteq> CHR 0x00 then Inl (Errorf ''invalid console stdin frame'')
      else Inr (tl raw))"

definition OutputFrame :: "char \<Rightarrow> string \<Rightarrow> string res" where
  "OutputFrame channel bytes =
     (if channel \<noteq> CHR 0x01 \<and> channel \<noteq> CHR 0x02 then Inl (Errorf ''invalid console output channel'')
      else frame channel bytes)"

definition ParseOutputFrame :: "string \<Rightarrow> (char \<times> string) res" where
  "ParseOutputFrame raw =
     (if raw = [] \<or> length raw > MaxDataBytes \<or> hd raw \<noteq> CHR 0x01 \<and> hd raw \<noteq> CHR 0x02
      then Inl (Errorf ''invalid console output frame'')
      else Inr (hd raw, tl raw))"

section \<open>Encoding\<close>

text \<open>\<open>json.Marshal\<close> of the messages; the dimensions are omitted when they are zero.\<close>

abbreviation jnat :: "nat \<Rightarrow> json" where
  "jnat n \<equiv> JNum (FormatInt (int n))"

definition start_to_json :: "Start \<Rightarrow> json" where
  "start_to_json s = JObj
     ([(''type'', JStr (st_Type s)), (''command'', JArr (map JStr (st_Command s))), (''tty'', JBool (st_TTY s))] @
      (if st_Rows s = 0 then [] else [(''rows'', jnat (st_Rows s))]) @
      (if st_Cols s = 0 then [] else [(''cols'', jnat (st_Cols s))]))"

definition resize_to_json :: "Resize \<Rightarrow> json" where
  "resize_to_json r = JObj [(''type'', JStr (rz_Type r)), (''rows'', jnat (rz_Rows r)), (''cols'', jnat (rz_Cols r))]"

definition eof_to_json :: "StdinEOF \<Rightarrow> json" where
  "eof_to_json e = JObj [(''type'', JStr (eo_Type e))]"

definition exit_to_json :: "Exit \<Rightarrow> json" where
  "exit_to_json e = JObj [(''type'', JStr (ex_Type e)), (''exit_code'', jint (ex_ExitCode e))]"

definition error_to_json :: "Error \<Rightarrow> json" where
  "error_to_json e = JObj [(''type'', JStr (er_Type e)), (''message'', JStr (er_Message e))]"

text \<open>Every client message and every server message, in the form it is sent.\<close>

datatype client_message = SendStart Start | SendResize Resize | SendEOF StdinEOF

datatype server_message = SendExit Exit | SendError Error

definition client_marshal :: "client_message \<Rightarrow> string" where
  "client_marshal m = marshal (case m of SendStart s \<Rightarrow> start_to_json s | SendResize r \<Rightarrow> resize_to_json r | SendEOF e \<Rightarrow> eof_to_json e)"

definition server_marshal :: "server_message \<Rightarrow> string" where
  "server_marshal m = marshal (case m of SendExit e \<Rightarrow> exit_to_json e | SendError e \<Rightarrow> error_to_json e)"

definition client_control :: "client_message \<Rightarrow> ClientControl" where
  "client_control m = (case m of
     SendStart s \<Rightarrow> \<lparr>cc_Type = ''start'', cc_Start = Some s, cc_Resize = None\<rparr>
   | SendResize r \<Rightarrow> \<lparr>cc_Type = ''resize'', cc_Start = None, cc_Resize = Some r\<rparr>
   | SendEOF e \<Rightarrow> \<lparr>cc_Type = ''stdin_eof'', cc_Start = None, cc_Resize = None\<rparr>)"

definition server_control :: "server_message \<Rightarrow> ServerControl" where
  "server_control m = (case m of
     SendExit e \<Rightarrow> \<lparr>sc_Type = ''exit'', sc_Exit = Some e, sc_Error = None\<rparr>
   | SendError e \<Rightarrow> \<lparr>sc_Type = ''error'', sc_Exit = None, sc_Error = Some e\<rparr>)"

text \<open>The messages that are well formed.\<close>

definition dims_ok :: "nat \<Rightarrow> nat \<Rightarrow> bool" where
  "dims_ok r c \<longleftrightarrow> 0 < r \<and> r < 2 ^ 16 \<and> 0 < c \<and> c < 2 ^ 16"

fun client_ok :: "client_message \<Rightarrow> bool" where
  "client_ok (SendStart s) \<longleftrightarrow>
     st_Type s = ''start'' \<and> st_Command s \<noteq> [] \<and> hd (st_Command s) \<noteq> [] \<and>
     list_all (\<lambda>arg. CHR 0x00 \<notin> set arg) (st_Command s) \<and>
     (if st_TTY s then dims_ok (st_Rows s) (st_Cols s) else st_Rows s = 0 \<and> st_Cols s = 0)"
| "client_ok (SendResize r) \<longleftrightarrow> rz_Type r = ''resize'' \<and> dims_ok (rz_Rows r) (rz_Cols r)"
| "client_ok (SendEOF e) \<longleftrightarrow> eo_Type e = ''stdin_eof''"

fun server_ok :: "server_message \<Rightarrow> bool" where
  "server_ok (SendExit e) \<longleftrightarrow> ex_Type e = ''exit'' \<and> 0 \<le> ex_ExitCode e \<and> ex_ExitCode e \<le> 255"
| "server_ok (SendError e) \<longleftrightarrow> er_Type e = ''error'' \<and> er_Message e \<noteq> []"

fun client_text :: "client_message \<Rightarrow> bool" where
  "client_text (SendStart s) = list_all ValidString (st_Command s)"
| "client_text m = True"

fun server_text :: "server_message \<Rightarrow> bool" where
  "server_text (SendError e) = ValidString (er_Message e)"
| "server_text m = True"

end
