(* ===== verification/ConsoleFacts.thy ===== *)
theory ConsoleFacts
  imports ConsoleProtocol
begin

text \<open>
  The console protocol loses nothing and lets nothing malformed through: a well-formed message
  that fits is read back as it was sent, every message that is read is well formed, and frames
  keep their channel, so that no side takes the other's data for its own.
\<close>

section \<open>Fields\<close>

declare fold_key.simps [simp del]

lemma console_keys:
  "distinct (map fold_key (map fst start_fields))" "distinct (map fold_key (map fst resize_fields))"
  "distinct (map fold_key (map fst eof_fields))" "distinct (map fold_key (map fst exit_fields))"
  "distinct (map fold_key (map fst error_fields))" "distinct (map fold_key (map fst type_fields))"
proof -
  have "distinct (map fold_key [''type'', ''command'', ''tty'', ''rows'', ''cols''])" by code_simp
  then show "distinct (map fold_key (map fst start_fields))" by (simp only: start_fields_def list.map fst_conv)
  have "distinct (map fold_key [''type'', ''rows'', ''cols''])" by code_simp
  then show "distinct (map fold_key (map fst resize_fields))" by (simp only: resize_fields_def list.map fst_conv)
  show "distinct (map fold_key (map fst eof_fields))" "distinct (map fold_key (map fst type_fields))"
    by (simp_all add: eof_fields_def type_fields_def)
  have "distinct (map fold_key [''type'', ''exit_code''])" by code_simp
  then show "distinct (map fold_key (map fst exit_fields))" by (simp only: exit_fields_def list.map fst_conv)
  have "distinct (map fold_key [''type'', ''message''])" by code_simp
  then show "distinct (map fold_key (map fst error_fields))" by (simp only: error_fields_def list.map fst_conv)
qed

lemmas start_known = set_known_field [OF console_keys(1)]
lemmas resize_known = set_known_field [OF console_keys(2)]
lemmas eof_known = set_known_field [OF console_keys(3)]
lemmas exit_known = set_known_field [OF console_keys(4)]
lemmas error_known = set_known_field [OF console_keys(5)]

lemma start_members:
  "set_known start_fields ((''type'', j) # kvs) x = (case set_str (\<lambda>s x. x\<lparr>sw_Type := s\<rparr>) j x of None \<Rightarrow> None | Some y \<Rightarrow> set_known start_fields kvs y)"
  "set_known start_fields ((''command'', j) # kvs) x =
     (case map_option (\<lambda>c. x\<lparr>sw_Command := c\<rparr>) (set_slice [] set_elem_str j (sw_Command x)) of None \<Rightarrow> None | Some y \<Rightarrow> set_known start_fields kvs y)"
  "set_known start_fields ((''tty'', j) # kvs) x = (case set_ptr read_bool (\<lambda>b x. x\<lparr>sw_TTY := b\<rparr>) j x of None \<Rightarrow> None | Some y \<Rightarrow> set_known start_fields kvs y)"
  "set_known start_fields ((''rows'', j) # kvs) x = (case set_ptr (read_uint 16) (\<lambda>n x. x\<lparr>sw_Rows := n\<rparr>) j x of None \<Rightarrow> None | Some y \<Rightarrow> set_known start_fields kvs y)"
  "set_known start_fields ((''cols'', j) # kvs) x = (case set_ptr (read_uint 16) (\<lambda>n x. x\<lparr>sw_Cols := n\<rparr>) j x of None \<Rightarrow> None | Some y \<Rightarrow> set_known start_fields kvs y)"
  by (rule start_known, simp add: start_fields_def)+

lemma resize_members:
  "set_known resize_fields ((''type'', j) # kvs) x = (case set_str (\<lambda>s x. x\<lparr>rw_Type := s\<rparr>) j x of None \<Rightarrow> None | Some y \<Rightarrow> set_known resize_fields kvs y)"
  "set_known resize_fields ((''rows'', j) # kvs) x = (case set_ptr (read_uint 16) (\<lambda>n x. x\<lparr>rw_Rows := n\<rparr>) j x of None \<Rightarrow> None | Some y \<Rightarrow> set_known resize_fields kvs y)"
  "set_known resize_fields ((''cols'', j) # kvs) x = (case set_ptr (read_uint 16) (\<lambda>n x. x\<lparr>rw_Cols := n\<rparr>) j x of None \<Rightarrow> None | Some y \<Rightarrow> set_known resize_fields kvs y)"
  by (rule resize_known, simp add: resize_fields_def)+

lemma other_members:
  "set_known eof_fields ((''type'', j) # kvs) e = (case set_str (\<lambda>s x. x\<lparr>eo_Type := s\<rparr>) j e of None \<Rightarrow> None | Some y \<Rightarrow> set_known eof_fields kvs y)"
  "set_known exit_fields ((''type'', j) # kvs) x = (case set_str (\<lambda>s x. x\<lparr>xw_Type := s\<rparr>) j x of None \<Rightarrow> None | Some y \<Rightarrow> set_known exit_fields kvs y)"
  "set_known exit_fields ((''exit_code'', j) # kvs) x = (case set_ptr read_int (\<lambda>n x. x\<lparr>xw_ExitCode := n\<rparr>) j x of None \<Rightarrow> None | Some y \<Rightarrow> set_known exit_fields kvs y)"
  "set_known error_fields ((''type'', j) # kvs) r = (case set_str (\<lambda>s x. x\<lparr>er_Type := s\<rparr>) j r of None \<Rightarrow> None | Some y \<Rightarrow> set_known error_fields kvs y)"
  "set_known error_fields ((''message'', j) # kvs) r = (case set_str (\<lambda>s x. x\<lparr>er_Message := s\<rparr>) j r of None \<Rightarrow> None | Some y \<Rightarrow> set_known error_fields kvs y)"
  by (rule eof_known exit_known error_known, simp add: eof_fields_def exit_fields_def error_fields_def)+

lemmas console_members = start_members resize_members other_members

lemma FormatInt_nat: "FormatInt (int n) = dec n"
  by (simp add: FormatInt_def)

lemma read_simps [simp]:
  "read_bool (JBool b) = Some b" "int64 i \<Longrightarrow> read_int (jint i) = Some i" "n < 2 ^ w \<Longrightarrow> read_uint w (jnat n) = Some n"
  "set_ptr r f (JBool b) x = map_option (\<lambda>b. f (Some b) x) (r (JBool b))"
  "set_ptr r f (JNum l) x = map_option (\<lambda>b. f (Some b) x) (r (JNum l))"
  by (simp_all add: read_bool_def read_int_def read_uint_def set_ptr_def int64_def ParseInt_FormatInt FormatInt_nat ParseUint_dec)

section \<open>The kind of a message\<close>

lemma type_others: "list_all (\<lambda>k. fold_key k \<noteq> fold_key ''type'') [''command'', ''tty'', ''rows'', ''cols'', ''exit_code'', ''message'']"
  by code_simp

lemma type_member [simp]: "set_member type_fields (''type'', JStr k) x = Some k"
  using set_member_field [OF console_keys(6), of "''type''"] by (simp add: type_fields_def)

lemma type_skip: "fold_key k \<noteq> fold_key ''type'' \<Longrightarrow> set_member type_fields (k, j) x = Some x"
  by (auto simp: set_member_def type_fields_def)

lemma type_skips [simp]:
  "set_member type_fields (''command'', j) x = Some x" "set_member type_fields (''tty'', j) x = Some x"
  "set_member type_fields (''rows'', j) x = Some x" "set_member type_fields (''cols'', j) x = Some x"
  "set_member type_fields (''exit_code'', j) x = Some x" "set_member type_fields (''message'', j) x = Some x"
  using type_others by (simp_all add: type_skip)

text \<open>The kind that was looked at first is the one the strict decoder stores.\<close>

lemma type_stored:
  assumes "\<And>k h. (k, h) \<in> set fs \<Longrightarrow>
      fold_key k = fold_key ''type'' \<and> (\<forall>j x y. h j x = Some y \<longrightarrow> set_str (\<lambda>s x. s) j (g x) = Some (g y)) \<or>
      fold_key k \<noteq> fold_key ''type'' \<and> (\<forall>j x y. h j x = Some y \<longrightarrow> g y = g x)"
  shows "set_known fs kvs x = Some y \<Longrightarrow> set_members type_fields kvs (g x) = Some (g y)"
proof (induction kvs arbitrary: x)
  case (Cons kv kvs)
  obtain z where z: "set_member fs kv x = Some z" "set_known fs kvs z = Some y" "\<exists>f \<in> set fs. fold_key (fst f) = fold_key (fst kv)"
    using Cons.prems by (auto split: option.splits if_splits)
  obtain f where f: "find (\<lambda>f. fold_key (fst f) = fold_key (fst kv)) fs = Some f"
    using z(3) by (cases "find (\<lambda>f. fold_key (fst f) = fold_key (fst kv)) fs") (auto simp: find_None_iff)
  then have m: "f \<in> set fs" "fold_key (fst f) = fold_key (fst kv)" by (auto simp: find_Some_iff)
  have "snd f (snd kv) x = Some z" using z(1) f by (simp add: set_member_def)
  note m = m this
  have "set_member type_fields kv (g x) = Some (g z)"
    using assms [of "fst f" "snd f"] m by (auto simp: set_member_def type_fields_def)
  then show ?case using Cons.IH z(2) by simp
qed simp

section \<open>Reading back\<close>

lemma controlType_Inr:
  "controlType raw = Inr k \<longleftrightarrow>
     raw \<noteq> [] \<and> length raw \<le> MaxControlBytes \<and> k \<noteq> [] \<and> (\<exists>j. unmarshal raw = Some j \<and> set_struct type_fields j [] = Some k)"
  by (auto simp: controlType_def split: option.splits bind_splits)

lemma strictControl_Inr:
  "strictControl target raw = Inr x \<longleftrightarrow>
     raw \<noteq> [] \<and> length raw \<le> MaxControlBytes \<and> (\<exists>j. unmarshal raw = Some j \<and> target j = Some x)"
  by (auto simp: strictControl_def decode_single_Inr)

lemma strictControl_ok:
  "unmarshal raw = Some j \<Longrightarrow> raw \<noteq> [] \<Longrightarrow> length raw \<le> MaxControlBytes \<Longrightarrow> set_strict fs j z = Some x \<Longrightarrow>
   strictControl (\<lambda>j. set_strict fs j z) raw = Inr x"
  by (auto simp: strictControl_Inr)

definition client_json :: "client_message \<Rightarrow> json" where
  "client_json m = (case m of SendStart s \<Rightarrow> start_to_json s | SendResize r \<Rightarrow> resize_to_json r | SendEOF e \<Rightarrow> eof_to_json e)"

definition server_json :: "server_message \<Rightarrow> json" where
  "server_json m = (case m of SendExit e \<Rightarrow> exit_to_json e | SendError e \<Rightarrow> error_to_json e)"

lemma client_jwf:
  assumes "client_ok m" and "client_text m"
  shows "unmarshal (client_marshal m) = Some (client_json m)" and "client_marshal m \<noteq> []"
proof -
  have "jwf 10000 (client_json m)"
    using assms by (cases m) (auto simp: client_json_def start_to_json_def resize_to_json_def eof_to_json_def jwf_JObj jwf_JArr
        ValidString_ascii list.pred_map comp_def)
  then show "unmarshal (client_marshal m) = Some (client_json m)" "client_marshal m \<noteq> []"
    by (simp_all add: client_marshal_def client_json_def [symmetric] unmarshal_marshal)
      (simp add: client_json_def start_to_json_def resize_to_json_def eof_to_json_def split: client_message.split)
qed


lemma server_jwf:
  assumes "server_ok m" and "server_text m"
  shows "unmarshal (server_marshal m) = Some (server_json m)" and "server_marshal m \<noteq> []"
proof -
  have "jwf 10000 (server_json m)"
    using assms by (cases m) (auto simp: server_json_def exit_to_json_def error_to_json_def jwf_JObj ValidString_ascii)
  then show "unmarshal (server_marshal m) = Some (server_json m)" "server_marshal m \<noteq> []"
    by (simp_all add: server_marshal_def server_json_def [symmetric] unmarshal_marshal)
      (simp add: server_json_def exit_to_json_def error_to_json_def split: server_message.split)
qed

lemma start_decodes:
  assumes "client_ok (SendStart s)"
  shows "set_struct type_fields (start_to_json s) [] = Some ''start''"
    and "set_strict start_fields (start_to_json s) \<lparr>sw_Type = [], sw_Command = ([], []), sw_TTY = None, sw_Rows = None, sw_Cols = None\<rparr> =
      Some \<lparr>sw_Type = ''start'', sw_Command = (st_Command s, []), sw_TTY = Some (st_TTY s),
        sw_Rows = (if st_TTY s then Some (st_Rows s) else None), sw_Cols = (if st_TTY s then Some (st_Cols s) else None)\<rparr>"
  using assms
  by (auto simp: start_to_json_def dims_ok_def set_strict_def start_members set_slice_strs 
      simp del: set_known.simps(2) split: if_splits)

lemma type_of_client: "client_ok m \<Longrightarrow> set_struct type_fields (client_json m) [] = Some (cc_Type (client_control m))"
  using start_decodes(1)
  by (cases m) (auto simp: client_json_def client_control_def resize_to_json_def eof_to_json_def)

lemma type_of_server: "server_ok m \<Longrightarrow> set_struct type_fields (server_json m) [] = Some (sc_Type (server_control m))"
  by (cases m) (auto simp: server_json_def server_control_def exit_to_json_def error_to_json_def)

lemma client_round_trip:
  assumes "client_ok m" and "client_text m" and "length (client_marshal m) \<le> MaxControlBytes"
  shows "ParseClientText (client_marshal m) = Inr (client_control m)"
proof -
  note j = client_jwf [OF assms(1,2)]
  have k: "controlType (client_marshal m) = Inr (cc_Type (client_control m))"
    using type_of_client [OF assms(1)] j assms(3) by (auto simp: controlType_Inr client_control_def split: client_message.split)
  note strict = strictControl_ok [OF j assms(3)]
  show ?thesis
  proof (cases m)
    case (SendStart s)
    then have ok: "client_ok (SendStart s)" using assms(1) by simp
    have "client_json m = start_to_json s" by (simp add: SendStart client_json_def)
    from strict [unfolded this, OF start_decodes(2) [OF ok]] k ok show ?thesis
      by (auto simp: ParseClientText_def parse_start_def nonzero_def dims_ok_def SendStart client_control_def split: if_splits)
  next
    case (SendResize r)
    have "set_strict resize_fields (client_json m) \<lparr>rw_Type = [], rw_Rows = None, rw_Cols = None\<rparr> =
        Some \<lparr>rw_Type = ''resize'', rw_Rows = Some (rz_Rows r), rw_Cols = Some (rz_Cols r)\<rparr>"
      using assms(1) by (simp add: SendResize client_json_def resize_to_json_def dims_ok_def set_strict_def resize_members del: set_known.simps(2))
    from strict [OF this] k assms(1) show ?thesis
      by (simp add: ParseClientText_def parse_resize_def nonzero_def dims_ok_def SendResize client_control_def)
  next
    case (SendEOF e)
    have "set_strict eof_fields (client_json m) \<lparr>eo_Type = []\<rparr> = Some \<lparr>eo_Type = ''stdin_eof''\<rparr>"
      using assms(1) by (simp add: SendEOF client_json_def eof_to_json_def set_strict_def other_members del: set_known.simps(2))
    from strict [OF this] k show ?thesis by (simp add: ParseClientText_def SendEOF client_control_def)
  qed
qed

lemma server_round_trip:
  assumes "server_ok m" and "server_text m" and "length (server_marshal m) \<le> MaxControlBytes"
  shows "ParseServerText (server_marshal m) = Inr (server_control m)"
proof -
  note j = server_jwf [OF assms(1,2)]
  have k: "controlType (server_marshal m) = Inr (sc_Type (server_control m))"
    using type_of_server [OF assms(1)] j assms(3) by (auto simp: controlType_Inr server_control_def split: server_message.split)
  note strict = strictControl_ok [OF j assms(3)]
  show ?thesis
  proof (cases m)
    case (SendExit e)
    have "set_strict exit_fields (server_json m) \<lparr>xw_Type = [], xw_ExitCode = None\<rparr> =
        Some \<lparr>xw_Type = ''exit'', xw_ExitCode = Some (ex_ExitCode e)\<rparr>"
      using assms(1) by (simp add: SendExit server_json_def exit_to_json_def set_strict_def other_members int64_def del: set_known.simps(2))
    from strict [OF this] k assms(1) show ?thesis by (simp add: ParseServerText_def SendExit server_control_def)
  next
    case (SendError e)
    have "set_strict error_fields (server_json m) \<lparr>er_Type = [], er_Message = []\<rparr> = Some e"
      using assms(1) by (simp add: SendError server_json_def error_to_json_def set_strict_def other_members del: set_known.simps(2))
    from strict [OF this] k assms(1) show ?thesis by (simp add: ParseServerText_def SendError server_control_def)
  qed
qed

section \<open>Nothing malformed\<close>

lemma set_strict_keep:
  assumes step: "\<And>k g j x y. (k, g) \<in> set fs \<Longrightarrow> P x \<Longrightarrow> g j x = Some y \<Longrightarrow> P y"
    and "P x" and "set_strict fs j x = Some y"
  shows "P y"
proof -
  have "y = x \<or> (\<exists>kvs. set_members fs kvs x = Some y)"
    using assms(3) by (cases j) (auto simp: set_strict_def intro: set_known_members)
  then show ?thesis
  proof (elim disjE exE)
    show "P y" if "set_members fs kvs x = Some y" for kvs
      by (rule set_members_keep [where P = P, OF step assms(2) that])
  qed (use assms(2) in simp)
qed

definition small :: "nat option \<Rightarrow> bool" where
  "small n \<longleftrightarrow> (case n of None \<Rightarrow> True | Some r \<Rightarrow> r < 2 ^ 16)"

lemma set_ptr_Some: "set_ptr r f j x = Some y \<Longrightarrow> \<exists>n. y = f n x"
  by (auto simp: set_ptr_def split: if_splits)

lemma set_ptr_small: "set_ptr (read_uint 16) f j x = Some y \<Longrightarrow> \<exists>n. y = f n x \<and> small n"
proof -
  assume a: "set_ptr (read_uint 16) f j x = Some y"
  show ?thesis
  proof (cases "j = JNull")
    case True
    then show ?thesis using a by (auto simp: set_ptr_def small_def)
  next
    case False
    then obtain z where z: "read_uint 16 j = Some z" "y = f (Some z) x" using a by (auto simp: set_ptr_def)
    then have "small (Some z)" using ParseUint_Some [of 16 _ z] by (auto simp: read_uint_def small_def split: json.splits)
    then show ?thesis using z(2) by blast
  qed
qed

lemma set_str_Some: "set_str f j x = Some y \<Longrightarrow> y = x \<or> (\<exists>s. y = f s x)"
  by (auto simp: set_str_def split: json.splits)

lemma start_small:
  assumes "set_strict start_fields j \<lparr>sw_Type = [], sw_Command = ([], []), sw_TTY = None, sw_Rows = None, sw_Cols = None\<rparr> = Some w"
  shows "small (sw_Rows w) \<and> small (sw_Cols w)"
proof (rule set_strict_keep [where P = "\<lambda>w. small (sw_Rows w) \<and> small (sw_Cols w)", OF _ _ assms])
  show "small (sw_Rows y) \<and> small (sw_Cols y)"
    if "(k, g) \<in> set start_fields" "small (sw_Rows x) \<and> small (sw_Cols x)" "g j x = Some y" for k g j x y
    using that by (auto simp: start_fields_def dest!: set_ptr_small set_str_Some dest: set_ptr_Some)
qed (simp add: small_def)

lemma resize_small:
  assumes "set_strict resize_fields j \<lparr>rw_Type = [], rw_Rows = None, rw_Cols = None\<rparr> = Some w"
  shows "small (rw_Rows w) \<and> small (rw_Cols w)"
proof (rule set_strict_keep [where P = "\<lambda>w. small (rw_Rows w) \<and> small (rw_Cols w)", OF _ _ assms])
  show "small (rw_Rows y) \<and> small (rw_Cols y)"
    if "(k, g) \<in> set resize_fields" "small (rw_Rows x) \<and> small (rw_Cols x)" "g j x = Some y" for k g j x y
    using that by (auto simp: resize_fields_def dest!: set_ptr_small set_str_Some)
qed (simp add: small_def)

lemma client_sound:
  assumes "ParseClientText raw = Inr c"
  shows "\<exists>m. client_ok m \<and> c = client_control m"
proof -
  obtain kind where k: "controlType raw = Inr kind" using assms by (auto simp: ParseClientText_def res_bind_Inr)
  have "kind = ''start'' \<or> kind = ''resize'' \<or> kind = ''stdin_eof''" using assms k by (auto simp: ParseClientText_def split: if_splits)
  then show ?thesis
  proof (elim disjE)
    assume kind: "kind = ''start''"
    then obtain w where w: "small (sw_Rows w)" "small (sw_Cols w)" "parse_start kind w = Inr c"
      using assms k start_small by (auto simp: ParseClientText_def res_bind_Inr strictControl_Inr)
    obtain tty where t: "sw_TTY w = Some tty" using w(3) by (auto simp: parse_start_def Let_def split: option.splits)
    then obtain s where s: "c = \<lparr>cc_Type = kind, cc_Start = Some s, cc_Resize = None\<rparr>" "client_ok (SendStart s)"
      using w kind by (auto simp: parse_start_def Let_def res_bind_Inr nonzero_def small_def dims_ok_def split: if_splits option.splits)
    then show ?thesis using kind by (intro exI [of _ "SendStart s"]) (simp add: client_control_def)
  next
    assume kind: "kind = ''resize''"
    then obtain w where w: "small (rw_Rows w)" "small (rw_Cols w)" "parse_resize kind w = Inr c"
      using assms k resize_small by (auto simp: ParseClientText_def res_bind_Inr strictControl_Inr)
    then obtain r where "c = \<lparr>cc_Type = kind, cc_Start = None, cc_Resize = Some r\<rparr>" "client_ok (SendResize r)"
      using kind by (auto simp: parse_resize_def res_bind_Inr nonzero_def small_def dims_ok_def split: option.splits)
    then show ?thesis using kind by (intro exI [of _ "SendResize r"]) (simp add: client_control_def)
  next
    assume "kind = ''stdin_eof''"
    then have "c = \<lparr>cc_Type = ''stdin_eof'', cc_Start = None, cc_Resize = None\<rparr>"
      using assms k by (auto simp: ParseClientText_def res_bind_Inr)
    then show ?thesis by (intro exI [of _ "SendEOF \<lparr>eo_Type = ''stdin_eof''\<rparr>"]) (simp add: client_control_def)
  qed
qed

lemma error_type:
  assumes "set_strict error_fields j \<lparr>er_Type = [], er_Message = []\<rparr> = Some e"
  shows "set_struct type_fields j [] = Some (er_Type e)"
proof -
  have step: "fold_key k = fold_key ''type'' \<and> (\<forall>j x y. h j x = Some y \<longrightarrow> set_str (\<lambda>s x. s) j (er_Type x) = Some (er_Type y)) \<or>
      fold_key k \<noteq> fold_key ''type'' \<and> (\<forall>j x y. h j x = Some y \<longrightarrow> er_Type y = er_Type x)"
    if "(k, h) \<in> set error_fields" for k h
    using that type_others by (auto simp: error_fields_def set_str_def split: json.splits)
  have "set_members type_fields kvs (er_Type x) = Some (er_Type y)" if "set_known error_fields kvs x = Some y" for kvs x y
    by (rule type_stored [of error_fields er_Type, OF step that])
  from this [of _ "\<lparr>er_Type = [], er_Message = []\<rparr>" e] assms show ?thesis
    by (cases j) (auto simp: set_strict_def set_struct_def)
qed

lemma server_sound:
  assumes "ParseServerText raw = Inr c"
  shows "\<exists>m. server_ok m \<and> c = server_control m"
proof -
  obtain kind where k: "controlType raw = Inr kind" using assms by (auto simp: ParseServerText_def res_bind_Inr)
  have "kind = ''exit'' \<or> kind = ''error''" using assms k by (auto simp: ParseServerText_def split: if_splits)
  then show ?thesis
  proof (elim disjE)
    assume kind: "kind = ''exit''"
    then obtain code where "0 \<le> code" "code \<le> 255" "c = \<lparr>sc_Type = kind, sc_Exit = Some \<lparr>ex_Type = kind, ex_ExitCode = code\<rparr>, sc_Error = None\<rparr>"
      using assms k by (auto simp: ParseServerText_def res_bind_Inr split: option.splits)
    then show ?thesis using kind by (intro exI [of _ "SendExit \<lparr>ex_Type = kind, ex_ExitCode = code\<rparr>"]) (simp add: server_control_def)
  next
    assume kind: "kind = ''error''"
    then obtain j e where e: "unmarshal raw = Some j" "set_strict error_fields j \<lparr>er_Type = [], er_Message = []\<rparr> = Some e"
        "er_Message e \<noteq> []" "c = \<lparr>sc_Type = kind, sc_Exit = None, sc_Error = Some e\<rparr>"
      using assms k by (auto simp: ParseServerText_def res_bind_Inr strictControl_Inr)
    have "er_Type e = ''error''" using k kind e(1) error_type [OF e(2)] by (auto simp: controlType_Inr)
    then show ?thesis using e kind by (intro exI [of _ "SendError e"]) (simp add: server_control_def)
  qed
qed

section \<open>Frames\<close>

lemma frame_Inr: "frame c d = Inr raw \<longleftrightarrow> length d < MaxDataBytes \<and> raw = c # d"
  by (auto simp: frame_def)

lemma input_frames: "InputFrame d = Inr raw \<longleftrightarrow> ParseInputFrame raw = Inr d"
  by (cases raw) (auto simp: InputFrame_def frame_Inr ParseInputFrame_def)

lemma output_frames: "OutputFrame c d = Inr raw \<longleftrightarrow> ParseOutputFrame raw = Inr (c, d)"
  by (cases raw) (auto simp: OutputFrame_def frame_Inr ParseOutputFrame_def)

lemma frames_disjoint: "ParseOutputFrame raw = Inr x \<Longrightarrow> \<exists>e. ParseInputFrame raw = Inl e"
  by (auto simp: ParseOutputFrame_def ParseInputFrame_def split: if_splits)

end
