(* ===== verification/ApiServer.thy ===== *)
theory ApiServer
  imports NetHttp InstanceService
begin

text \<open>
  \<open>internal/apiserver\<close> without the console and the event stream, and \<open>internal/version\<close>: the
  access checks in front of the API and its handlers. A handler works on the tables and on the
  identifiers handed to the controllers. The generated router is a parameter: it gives the
  handlers their parameters.
\<close>

section \<open>version\<close>

record Info =
  vi_Version :: string
  vi_Commit :: string
  vi_Date :: string
  vi_GoVersion :: string
  vi_Platform :: string

definition shortCommit :: "string \<Rightarrow> string" where
  "shortCommit c = (if length c \<le> 7 then c else take 7 c)"

definition Info_String :: "Info \<Rightarrow> string" where
  "Info_String i =
     vi_Version i @
     (if vi_Commit i \<noteq> [] \<and> vi_Commit i \<noteq> ''unknown'' then '' ('' @ shortCommit (vi_Commit i) @ '')'' else []) @
     '' '' @ vi_GoVersion i @ '' '' @ vi_Platform i"

definition IsRelease :: "Info \<Rightarrow> bool" where
  "IsRelease i \<longleftrightarrow> vi_Version i \<noteq> ''dev'' \<and> vi_Version i \<noteq> [] \<and> vi_Commit i \<noteq> ''unknown''"

section \<open>Answers\<close>

definition writeJSON :: "int \<Rightarrow> json \<Rightarrow> response" where
  "writeJSON code body = \<lparr>rp_Status = code, rp_ContentType = ''application/json'', rp_Body = marshal body @ [CHR 0x0A]\<rparr>"

text \<open>The struct \<open>generated.Error\<close>; the resource is omitted when there is none.\<close>

definition error_json :: "string \<Rightarrow> string \<Rightarrow> string \<Rightarrow> json" where
  "error_json code message resourceID =
     JObj ([(''code'', JStr code), (''message'', JStr message)] @
           (if resourceID = [] then [] else [(''resource_id'', JStr resourceID)]))"

definition writeAPIError :: "int \<Rightarrow> string \<Rightarrow> string \<Rightarrow> string \<Rightarrow> response" where
  "writeAPIError status code message resourceID = writeJSON status (error_json code message resourceID)"

definition writeServiceError :: "goerr \<Rightarrow> response" where
  "writeServiceError e =
     (case as_service_error e of
        Some (code, message, resource, status) \<Rightarrow> writeAPIError status code message resource
      | None \<Rightarrow> writeAPIError 500 ''InternalError'' ''resource operation failed'' [])"

section \<open>Access\<close>

definition requireBearer :: "string \<Rightarrow> 's handler \<Rightarrow> 's handler" where
  "requireBearer token next r s =
     (if hr_Path r = ''/v1/health'' then next r s
      else
        (case CutPrefix (hr_Header r ''Authorization'') ''Bearer '' of
           None \<Rightarrow> (writeJSON 401 (error_json ''AuthFailure'' ''missing or invalid bearer token'' []), s)
         | Some given \<Rightarrow>
             if token = [] \<or> given \<noteq> token
             then (writeJSON 401 (error_json ''AuthFailure'' ''missing or invalid bearer token'' []), s)
             else next r s))"

definition localOnly :: "'s handler \<Rightarrow> 's handler" where
  "localOnly next r s =
     (let host = (case SplitHostPort (hr_Host r) of Some (parsed, port) \<Rightarrow> parsed | None \<Rightarrow> hr_Host r) in
      if (host \<noteq> ''localhost'' \<and> host \<noteq> ''127.0.0.1'' \<and> host \<noteq> ''::1'') \<or> hr_Header r ''Origin'' \<noteq> []
      then (writeJSON 403 (error_json ''AccessDenied'' ''non-local host or browser origin rejected'' []), s)
      else next r s)"

definition api_New :: "string \<Rightarrow> 's handler \<Rightarrow> 's handler" where
  "api_New token h = localOnly (requireBearer token h)"

section \<open>The server\<close>

record server =
  sv_build :: Info
  sv_ready :: bool
  sv_resources :: bool
  sv_instances :: bool
  sv_events :: bool
  sv_console :: bool

text \<open>
  What the surroundings give a request: a transaction fault, random bytes, the clock of the
  statement and of the service, and the text of the JSON decoder's error.
\<close>

record api_env =
  ae_fault :: fault
  ae_entropy :: "bytes res"
  ae_entropy2 :: "bytes res"
  ae_epoch :: int
  ae_now :: int
  ae_json_text :: string

type_synonym api_state = "db \<times> string list"

definition GetHealth :: "server \<Rightarrow> response" where
  "GetHealth sv =
     (if sv_ready sv then writeJSON 200 (JObj [(''status'', JStr ''ready'')])
      else writeJSON 503 (JObj [(''status'', JStr ''starting'')]))"

definition GetVersion :: "server \<Rightarrow> response" where
  "GetVersion sv =
     writeJSON 200 (JObj [(''api_version'', JStr ''v1''), (''build_commit'', JStr (vi_Commit (sv_build sv))),
       (''build_version'', JStr (vi_Version (sv_build sv)))])"

section \<open>Checks\<close>

text \<open>A check stops the handler with a response or lets it go on.\<close>

definition checkWorkspace :: "string \<Rightarrow> response + unit" where
  "checkWorkspace workspace =
     (if workspace = ''default'' then Inr ()
      else Inl (writeAPIError 404 ''InvalidWorkspace.NotFound'' ''workspace does not exist'' workspace))"

definition checkResources :: "server \<Rightarrow> response + unit" where
  "checkResources sv =
     (if sv_resources sv then Inr ()
      else Inl (writeAPIError 503 ''ServiceUnavailable'' ''resource service is not ready'' []))"

definition checkInstances :: "server \<Rightarrow> response + unit" where
  "checkInstances sv =
     (if sv_instances sv then Inr ()
      else Inl (writeAPIError 503 ''ServiceUnavailable'' ''instance service is not ready'' []))"

definition decodeBody :: "api_env \<Rightarrow> http_request \<Rightarrow> 'a fields \<Rightarrow> 'a \<Rightarrow> response + 'a" where
  "decodeBody ev r fs zero =
     (if ParseMediaType (hr_Header r ''Content-Type'') \<noteq> Some ''application/json''
      then Inl (writeAPIError 400 ''InvalidParameterValue'' ''Content-Type must be application/json'' [])
      else
        (let (raw, eof) = limited_body (2 ^ 20) (hr_Body r) in
         decode_single eof (\<lambda>j. set_strict fs j zero)
           (writeAPIError 400 ''InvalidParameterValue'' (''invalid JSON body: '' @ ae_json_text ev) [])
           (writeAPIError 400 ''InvalidParameterValue'' ''request body must contain exactly one JSON object'' []) raw))"

definition required :: "string list \<Rightarrow> response + unit" where
  "required fs =
     (if [] \<in> set fs then Inl (writeAPIError 400 ''InvalidParameterValue'' ''required request field is empty'' []) else Inr ())"

definition checked :: "response + 'a \<Rightarrow> ('a \<Rightarrow> 's \<Rightarrow> response \<times> 's) \<Rightarrow> 's \<Rightarrow> response \<times> 's" where
  "checked m f s = (case m of Inl r \<Rightarrow> (r, s) | Inr x \<Rightarrow> f x s)"

text \<open>The answer to a call of a service that may change the tables, and to one that only reads.\<close>

definition served :: "int \<Rightarrow> ('a \<Rightarrow> json) \<Rightarrow> (db \<Rightarrow> 'a reply) \<Rightarrow> api_state \<Rightarrow> response \<times> api_state" where
  "served status out call s =
     (case call (fst s) of
        (Inl e, d, q) \<Rightarrow> (writeServiceError e, (d, snd s @ q))
      | (Inr x, d, q) \<Rightarrow> (writeJSON status (out x), (d, snd s @ q)))"

definition looked_up :: "('a \<Rightarrow> json) \<Rightarrow> (db \<Rightarrow> 'a res) \<Rightarrow> api_state \<Rightarrow> response \<times> api_state" where
  "looked_up out call s =
     (case call (fst s) of Inl e \<Rightarrow> (writeServiceError e, s) | Inr x \<Rightarrow> (writeJSON 200 (out x), s))"

definition or_empty :: "string option \<Rightarrow> string" where
  "or_empty s = (case s of None \<Rightarrow> [] | Some x \<Rightarrow> x)"

definition or_zero :: "int option \<Rightarrow> int" where
  "or_zero i = (case i of None \<Rightarrow> 0 | Some x \<Rightarrow> x)"

section \<open>Bodies\<close>

definition vpcResponse :: "VPC \<Rightarrow> json" where
  "vpcResponse v = JObj
     [(''cidr_block'', JStr (prefix_string (vpc_CIDRBlock v))), (''generation'', jint (vpc_Generation v)), (''id'', JStr (vpc_ID v)),
      (''name'', JStr (vpc_Name v)), (''observed_generation'', jint (vpc_ObservedGeneration v)), (''state'', JStr (vpc_State v)),
      (''state_reason'', JStr (vpc_StateReason v))]"

definition subnetResponse :: "Subnet \<Rightarrow> json" where
  "subnetResponse s = JObj
     [(''availability_zone'', JStr (sub_AvailabilityZone s)), (''cidr_block'', JStr (prefix_string (sub_CIDRBlock s))),
      (''generation'', jint (sub_Generation s)), (''id'', JStr (sub_ID s)), (''name'', JStr (sub_Name s)),
      (''observed_generation'', jint (sub_ObservedGeneration s)), (''state'', JStr (sub_State s)),
      (''state_reason'', JStr (sub_StateReason s)), (''vpc_id'', JStr (sub_VPCID s))]"

definition instanceResponse :: "Instance \<Rightarrow> json" where
  "instanceResponse i = JObj
     [(''eni_id'', JStr (eni_ID (inst_ENI i))), (''generation'', jint (inst_Generation i)), (''id'', JStr (inst_ID i)),
      (''instance_type'', JStr (inst_InstanceType i)), (''name'', JStr (inst_Name i)),
      (''observed_generation'', jint (inst_ObservedGeneration i)), (''private_ip'', JStr (addr_string (eni_PrivateIP (inst_ENI i)))),
      (''state'', JStr (inst_State i)), (''state_reason'', JStr (inst_StateReason i)), (''subnet_id'', JStr (inst_SubnetID i))]"

definition page_json :: "json list \<Rightarrow> string \<Rightarrow> json" where
  "page_json items next =
     JObj ((''items'', JArr items) # (if next = [] then [] else [(''next_page_token'', JStr next)]))"

record create_vpc_body =
  cv_CidrBlock :: string
  cv_Name :: string

definition create_vpc_fields :: "create_vpc_body fields" where
  "create_vpc_fields = [(''cidr_block'', set_str (\<lambda>s x. x\<lparr>cv_CidrBlock := s\<rparr>)), (''name'', set_str (\<lambda>s x. x\<lparr>cv_Name := s\<rparr>))]"

record create_subnet_body =
  cs_AvailabilityZone :: string
  cs_CidrBlock :: string
  cs_Name :: string
  cs_VpcId :: string

definition create_subnet_fields :: "create_subnet_body fields" where
  "create_subnet_fields =
     [(''availability_zone'', set_str (\<lambda>s x. x\<lparr>cs_AvailabilityZone := s\<rparr>)), (''cidr_block'', set_str (\<lambda>s x. x\<lparr>cs_CidrBlock := s\<rparr>)),
      (''name'', set_str (\<lambda>s x. x\<lparr>cs_Name := s\<rparr>)), (''vpc_id'', set_str (\<lambda>s x. x\<lparr>cs_VpcId := s\<rparr>))]"

record run_instance_body =
  ri_Name :: string
  ri_SubnetId :: string

definition run_instance_fields :: "run_instance_body fields" where
  "run_instance_fields = [(''name'', set_str (\<lambda>s x. x\<lparr>ri_Name := s\<rparr>)), (''subnet_id'', set_str (\<lambda>s x. x\<lparr>ri_SubnetId := s\<rparr>))]"

section \<open>Handlers\<close>

definition api_CreateVpc :: "server \<Rightarrow> api_env \<Rightarrow> string \<Rightarrow> string option \<Rightarrow> api_state handler" where
  "api_CreateVpc sv ev workspace key r =
     checked (checkWorkspace workspace) (\<lambda>_. checked (checkResources sv) (\<lambda>_.
     checked (decodeBody ev r create_vpc_fields \<lparr>cv_CidrBlock = [], cv_Name = []\<rparr>) (\<lambda>body.
     checked (required [cv_Name body, cv_CidrBlock body]) (\<lambda>_.
     served 201 vpcResponse (svc_CreateVPC (ae_fault ev) (ae_entropy ev) (ae_epoch ev) (ae_now ev)
       \<lparr>cvi_Name = cv_Name body, cvi_CIDRBlock = cv_CidrBlock body\<rparr> (or_empty key))))))"

definition api_ListVpcs :: "server \<Rightarrow> string \<Rightarrow> int option \<Rightarrow> string option \<Rightarrow> api_state handler" where
  "api_ListVpcs sv workspace limit token r =
     checked (checkWorkspace workspace) (\<lambda>_. checked (checkResources sv) (\<lambda>_.
     looked_up (\<lambda>(items, next). page_json (map vpcResponse items) next) (svc_ListVPCs (or_zero limit) (or_empty token))))"

definition api_GetVpc :: "server \<Rightarrow> string \<Rightarrow> string \<Rightarrow> api_state handler" where
  "api_GetVpc sv workspace i r =
     checked (checkWorkspace workspace) (\<lambda>_. checked (checkResources sv) (\<lambda>_. looked_up vpcResponse (svc_GetVPC i)))"

definition api_DeleteVpc :: "server \<Rightarrow> api_env \<Rightarrow> string \<Rightarrow> string \<Rightarrow> api_state handler" where
  "api_DeleteVpc sv ev workspace i r =
     checked (checkWorkspace workspace) (\<lambda>_. checked (checkResources sv) (\<lambda>_.
     served 202 vpcResponse (svc_DeleteVPC (ae_fault ev) (ae_now ev) i)))"

definition api_CreateSubnet :: "server \<Rightarrow> api_env \<Rightarrow> string \<Rightarrow> string option \<Rightarrow> api_state handler" where
  "api_CreateSubnet sv ev workspace key r =
     checked (checkWorkspace workspace) (\<lambda>_. checked (checkResources sv) (\<lambda>_.
     checked (decodeBody ev r create_subnet_fields \<lparr>cs_AvailabilityZone = [], cs_CidrBlock = [], cs_Name = [], cs_VpcId = []\<rparr>) (\<lambda>body.
     checked (required [cs_Name body, cs_VpcId body, cs_CidrBlock body, cs_AvailabilityZone body]) (\<lambda>_.
     served 201 subnetResponse (svc_CreateSubnet (ae_fault ev) (ae_entropy ev) (ae_epoch ev) (ae_now ev)
       \<lparr>csi_Name = cs_Name body, csi_VPCID = cs_VpcId body, csi_CIDRBlock = cs_CidrBlock body,
        csi_AvailabilityZone = cs_AvailabilityZone body\<rparr> (or_empty key))))))"

definition api_ListSubnets :: "server \<Rightarrow> string \<Rightarrow> int option \<Rightarrow> string option \<Rightarrow> api_state handler" where
  "api_ListSubnets sv workspace limit token r =
     checked (checkWorkspace workspace) (\<lambda>_. checked (checkResources sv) (\<lambda>_.
     looked_up (\<lambda>(items, next). page_json (map subnetResponse items) next) (svc_ListSubnets (or_zero limit) (or_empty token))))"

definition api_GetSubnet :: "server \<Rightarrow> string \<Rightarrow> string \<Rightarrow> api_state handler" where
  "api_GetSubnet sv workspace i r =
     checked (checkWorkspace workspace) (\<lambda>_. checked (checkResources sv) (\<lambda>_. looked_up subnetResponse (svc_GetSubnet i)))"

definition api_DeleteSubnet :: "server \<Rightarrow> api_env \<Rightarrow> string \<Rightarrow> string \<Rightarrow> api_state handler" where
  "api_DeleteSubnet sv ev workspace i r =
     checked (checkWorkspace workspace) (\<lambda>_. checked (checkResources sv) (\<lambda>_.
     served 202 subnetResponse (svc_DeleteSubnet (ae_fault ev) (ae_now ev) i)))"

definition api_RunInstance :: "server \<Rightarrow> api_env \<Rightarrow> string \<Rightarrow> string option \<Rightarrow> api_state handler" where
  "api_RunInstance sv ev workspace key r =
     checked (checkWorkspace workspace) (\<lambda>_. checked (checkInstances sv) (\<lambda>_.
     checked (decodeBody ev r run_instance_fields \<lparr>ri_Name = [], ri_SubnetId = []\<rparr>) (\<lambda>body.
     checked (required [ri_Name body, ri_SubnetId body]) (\<lambda>_.
     served 201 instanceResponse (svc_Run (ae_fault ev) (ae_entropy ev) (ae_entropy2 ev) (ae_epoch ev) (ae_now ev)
       \<lparr>rii_Name = ri_Name body, rii_SubnetID = ri_SubnetId body\<rparr> (or_empty key))))))"

definition api_ListInstances :: "server \<Rightarrow> api_env \<Rightarrow> string \<Rightarrow> int option \<Rightarrow> string option \<Rightarrow> api_state handler" where
  "api_ListInstances sv ev workspace limit token r =
     checked (checkWorkspace workspace) (\<lambda>_. checked (checkInstances sv) (\<lambda>_.
     looked_up (\<lambda>page. page_json (map instanceResponse (page_Items page)) (page_NextPageToken page))
       (svc_List (ae_fault ev) (or_zero limit) (or_empty token))))"

definition api_GetInstance :: "server \<Rightarrow> api_env \<Rightarrow> string \<Rightarrow> string \<Rightarrow> api_state handler" where
  "api_GetInstance sv ev workspace i r =
     checked (checkWorkspace workspace) (\<lambda>_. checked (checkInstances sv) (\<lambda>_. looked_up instanceResponse (svc_Get (ae_fault ev) i)))"

definition api_TerminateInstance :: "server \<Rightarrow> api_env \<Rightarrow> string \<Rightarrow> string \<Rightarrow> api_state handler" where
  "api_TerminateInstance sv ev workspace i r =
     checked (checkWorkspace workspace) (\<lambda>_. checked (checkInstances sv) (\<lambda>_.
     served 202 instanceResponse (svc_TerminateSnapshot (ae_fault ev) (ae_now ev) i)))"

end
