(* ===== verification/ApiFacts.thy ===== *)
theory ApiFacts
  imports ApiServer InstanceConvergence
begin

text \<open>
  The boundary of the API: exactly the requests to a local host name, without a browser's
  origin and with the bearer token, reach the handlers. A handler changes the tables only with
  an answer of success, and what it answers is what a later read returns.
\<close>

section \<open>Hosts\<close>

lemma IndexByte_Some: "IndexByte c s = Some i \<longleftrightarrow> (\<exists>a b. s = a @ c # b \<and> c \<notin> set a \<and> i = length a)"
proof (induction s arbitrary: i)
  case (Cons x s)
  show ?case
  proof (cases "x = c")
    case True
    show ?thesis
    proof
      assume "IndexByte c (x # s) = Some i"
      then show "\<exists>a b. x # s = a @ c # b \<and> c \<notin> set a \<and> i = length a" using True by (intro exI [of _ "[]"] exI [of _ s]) auto
    next
      assume "\<exists>a b. x # s = a @ c # b \<and> c \<notin> set a \<and> i = length a"
      then show "IndexByte c (x # s) = Some i" using True by (auto simp: Cons_eq_append_conv)
    qed
  next
    case False
    show ?thesis
    proof
      assume "IndexByte c (x # s) = Some i"
      then obtain j a b where "i = Suc j" "s = a @ c # b" "c \<notin> set a" "j = length a" using False Cons by auto
      then have "x # s = (x # a) @ c # b \<and> c \<notin> set (x # a) \<and> i = length (x # a)" using False by simp
      then show "\<exists>a b. x # s = a @ c # b \<and> c \<notin> set a \<and> i = length a" by blast
    next
      assume "\<exists>a b. x # s = a @ c # b \<and> c \<notin> set a \<and> i = length a"
      then obtain a b where "x # s = a @ c # b" "c \<notin> set a" "i = length a" by blast
      then obtain a' where "a = x # a'" "s = a' @ c # b" using False by (cases a) auto
      then have "IndexByte c s = Some (length a')" using Cons \<open>c \<notin> set a\<close> by auto
      then show "IndexByte c (x # s) = Some i" using False \<open>i = length a\<close> \<open>a = x # a'\<close> by simp
    qed
  qed
qed simp

lemma IndexByte_None: "IndexByte c s = None \<longleftrightarrow> c \<notin> set s"
  by (induction s) auto

lemma LastIndexByte_Some: "LastIndexByte c s = Some i \<longleftrightarrow> (\<exists>a b. s = a @ c # b \<and> c \<notin> set b \<and> i = length a)"
proof
  assume "LastIndexByte c s = Some i"
  then obtain k where k: "IndexByte c (rev s) = Some k" "i = length s - 1 - k" by (auto simp: LastIndexByte_def)
  then obtain a b where ab: "rev s = a @ c # b" "c \<notin> set a" "k = length a" unfolding IndexByte_Some by blast
  then have "s = rev b @ c # rev a" by (metis append.assoc append_Cons append_Nil rev.simps(2) rev_append rev_rev_ident)
  then show "\<exists>a b. s = a @ c # b \<and> c \<notin> set b \<and> i = length a" using ab k by (intro exI [of _ "rev b"] exI [of _ "rev a"]) simp
next
  assume "\<exists>a b. s = a @ c # b \<and> c \<notin> set b \<and> i = length a"
  then obtain a b where ab: "s = a @ c # b" "c \<notin> set b" "i = length a" by blast
  then have "IndexByte c (rev s) = Some (length b)" unfolding IndexByte_Some by (intro exI [of _ "rev b"] exI [of _ "rev a"]) simp
  then show "LastIndexByte c s = Some i" using ab by (simp add: LastIndexByte_def)
qed

definition plain :: "string \<Rightarrow> bool" where
  "plain s \<longleftrightarrow> CHR '':'' \<notin> set s \<and> CHR ''['' \<notin> set s \<and> CHR '']'' \<notin> set s"

lemma SplitHostPort_plain: "plain a \<Longrightarrow> plain p \<Longrightarrow> SplitHostPort (a @ CHR '':'' # p) = Some (a, p)"
proof -
  assume a: "plain a" "plain p"
  have i: "LastIndexByte CHR '':'' (a @ CHR '':'' # p) = Some (length a)"
    unfolding LastIndexByte_Some using a by (auto simp: plain_def)
  have "hd (a @ CHR '':'' # p) \<noteq> CHR ''[''" using a by (cases a) (auto simp: plain_def)
  then show ?thesis using a by (simp add: SplitHostPort_def i plain_def)
qed

lemma SplitHostPort_bracket:
  "CHR '']'' \<notin> set a \<Longrightarrow> CHR ''['' \<notin> set a \<Longrightarrow> plain p \<Longrightarrow> SplitHostPort (CHR ''['' # a @ CHR '']'' # CHR '':'' # p) = Some (a, p)"
proof -
  assume a: "CHR '']'' \<notin> set a" "CHR ''['' \<notin> set a" "plain p"
  let ?h = "CHR ''['' # a @ CHR '']'' # CHR '':'' # p"
  have i: "LastIndexByte CHR '':'' ?h = Some (Suc (Suc (length a)))"
    unfolding LastIndexByte_Some using a by (intro exI [of _ "CHR ''['' # a @ '']''"] exI [of _ p]) (auto simp: plain_def)
  have e: "IndexByte CHR '']'' ?h = Some (Suc (length a))"
    unfolding IndexByte_Some using a by (intro exI [of _ "CHR ''['' # a"] exI [of _ "CHR '':'' # p"]) auto
  show ?thesis using a by (simp add: SplitHostPort_def i e plain_def del: IndexByte.simps)
qed

lemma SplitHostPort_Some:
  assumes "SplitHostPort h = Some (a, p)"
  shows "plain p \<and> (plain a \<and> h = a @ CHR '':'' # p \<or>
    CHR '']'' \<notin> set a \<and> CHR ''['' \<notin> set a \<and> h = CHR ''['' # a @ CHR '']'' # CHR '':'' # p)"
proof -
  obtain i where i: "LastIndexByte CHR '':'' h = Some i" using assms by (auto simp: SplitHostPort_def split: option.splits)
  then obtain b q where h: "h = b @ CHR '':'' # q" "CHR '':'' \<notin> set q" "i = length b" unfolding LastIndexByte_Some by blast
  show ?thesis
  proof (cases "hd h = CHR ''[''")
    case True
    obtain e where e: "IndexByte CHR '']'' h = Some e" using assms True i by (auto simp: SplitHostPort_def split: option.splits)
    then obtain c r where c: "h = c @ CHR '']'' # r" "CHR '']'' \<notin> set c" "e = length c" unfolding IndexByte_Some by blast
    have ei: "e + 1 = i" using assms True i e by (auto simp: SplitHostPort_def split: if_splits)
    have "c \<noteq> []" using True c by auto
    then obtain c' where c': "c = CHR ''['' # c'" using True c by (cases c) auto
    have "b = take (Suc (length c)) h" using h ei c(3) by simp
    then have "b = c @ '']''" using c(1) by simp
    then have hq: "h = CHR ''['' # c' @ CHR '']'' # CHR '':'' # q" using h(1) c' by simp
    have "a = c' \<and> p = q \<and> CHR ''['' \<notin> set c' \<and> CHR ''['' \<notin> set q \<and> CHR '']'' \<notin> set q"
    proof -
      have ls: "LastIndexByte CHR '':'' h = Some (Suc (Suc (length c')))" "IndexByte CHR '']'' h = Some (Suc (length c'))"
        using i e ei c(3) c' by simp_all
      from assms show ?thesis
        unfolding SplitHostPort_def ls option.case by (auto simp: hq simp del: IndexByte.simps split: if_splits)
    qed
    then show ?thesis using hq c c' h(2) by (auto simp: plain_def)
  next
    case False
    then have "a = b \<and> p = q \<and> CHR '':'' \<notin> set b \<and> CHR ''['' \<notin> set h \<and> CHR '']'' \<notin> set h"
      using assms i h by (auto simp: SplitHostPort_def split: if_splits)
    then show ?thesis using h by (auto simp: plain_def)
  qed
qed

text \<open>The \<open>Host\<close> headers that the server takes for local.\<close>

definition local_hosts :: "string set" where
  "local_hosts = {''localhost'', ''127.0.0.1'', ''::1''} \<union>
     {a @ '':'' @ p | a p. a \<in> {''localhost'', ''127.0.0.1''} \<and> plain p} \<union>
     {''['' @ a @ '']:'' @ p | a p. a \<in> {''localhost'', ''127.0.0.1'', ''::1''} \<and> plain p}"

lemma local_names:
  "plain ''localhost''" "plain ''127.0.0.1''" "CHR '']'' \<notin> set ''::1''" "CHR ''['' \<notin> set ''::1''" "\<not> plain ''::1''"
  by (simp_all add: plain_def)

lemma local_host_iff:
  "(case SplitHostPort h of Some (parsed, port) \<Rightarrow> parsed | None \<Rightarrow> h) \<in> {''localhost'', ''127.0.0.1'', ''::1''} \<longleftrightarrow> h \<in> local_hosts"
proof (cases "SplitHostPort h")
  case None
  have "h \<noteq> a @ '':'' @ p" if "a \<in> {''localhost'', ''127.0.0.1''}" "plain p" for a p
    using None SplitHostPort_plain [of a p] local_names that by auto
  moreover have "h \<noteq> ''['' @ a @ '']:'' @ p" if "a \<in> {''localhost'', ''127.0.0.1'', ''::1''}" "plain p" for a p
    using None SplitHostPort_bracket [of a p] local_names that by auto
  ultimately have "h \<in> local_hosts \<longleftrightarrow> h \<in> {''localhost'', ''127.0.0.1'', ''::1''}" unfolding local_hosts_def by blast
  then show ?thesis using None by simp
next
  case (Some x)
  obtain a p where x: "SplitHostPort h = Some (a, p)" using Some by (cases x) auto
  note s = SplitHostPort_Some [OF x]
  have none: "SplitHostPort ''localhost'' = None" "SplitHostPort ''127.0.0.1'' = None" "SplitHostPort ''::1'' = None" by code_simp+
  show ?thesis
  proof
    assume "(case SplitHostPort h of Some (parsed, port) \<Rightarrow> parsed | None \<Rightarrow> h) \<in> {''localhost'', ''127.0.0.1'', ''::1''}"
    then have "a \<in> {''localhost'', ''127.0.0.1'', ''::1''}" using x by simp
    with s local_names(5) show "h \<in> local_hosts" unfolding local_hosts_def by (elim conjE disjE) auto
  next
    assume "h \<in> local_hosts"
    then consider "h \<in> {''localhost'', ''127.0.0.1'', ''::1''}"
      | b q where "b \<in> {''localhost'', ''127.0.0.1''}" "plain q" "h = b @ CHR '':'' # q"
      | b q where "b \<in> {''localhost'', ''127.0.0.1'', ''::1''}" "plain q" "h = CHR ''['' # b @ CHR '']'' # CHR '':'' # q"
      unfolding local_hosts_def by auto
    then show "(case SplitHostPort h of Some (parsed, port) \<Rightarrow> parsed | None \<Rightarrow> h) \<in> {''localhost'', ''127.0.0.1'', ''::1''}"
    proof cases
      case 1
      then show ?thesis using none x by auto
    next
      case (2 b q)
      then have "SplitHostPort h = Some (b, q)" using SplitHostPort_plain [of b q] local_names by auto
      then show ?thesis using 2 by auto
    next
      case (3 b q)
      then have "SplitHostPort h = Some (b, q)" using SplitHostPort_bracket [of b q] local_names by auto
      then show ?thesis using 3 by auto
    qed
  qed
qed

section \<open>Access\<close>

definition admitted :: "string \<Rightarrow> http_request \<Rightarrow> bool" where
  "admitted token r \<longleftrightarrow>
     hr_Host r \<in> local_hosts \<and> hr_Header r ''Origin'' = [] \<and>
     (hr_Path r = ''/v1/health'' \<or> token \<noteq> [] \<and> hr_Header r ''Authorization'' = ''Bearer '' @ token)"

lemma api_boundary:
  "if admitted token r then api_New token h r s = h r s
   else snd (api_New token h r s) = s \<and> rp_Status (fst (api_New token h r s)) \<in> {401, 403}"
proof -
  have "hr_Header r ''Authorization'' = ''Bearer '' @ token \<longleftrightarrow> CutPrefix (hr_Header r ''Authorization'') ''Bearer '' = Some token"
    unfolding CutPrefix_Some ..
  then show ?thesis
    using local_host_iff [of "hr_Host r"]
    by (auto simp: api_New_def localOnly_def requireBearer_def admitted_def Let_def writeJSON_def split: option.splits)
qed

section \<open>Answers and tables\<close>

lemma served_changes:
  assumes "\<And>d. case call d of (Inl e, d', q) \<Rightarrow> d' = d \<and> q = [] | (Inr x, d', q) \<Rightarrow> True"
  shows "snd (served status out call s) = s \<or> rp_Status (fst (served status out call s)) = status"
  using assms [of "fst s"] by (cases s) (auto simp: served_def writeJSON_def split: prod.splits sum.splits)

lemma checked_changes:
  "(\<And>x. snd (f x s) = s \<or> rp_Status (fst (f x s)) = status) \<Longrightarrow>
   snd (checked m f s) = s \<or> rp_Status (fst (checked m f s)) = status"
  by (auto simp: checked_def split: sum.splits)

lemma handlers_change_on_success:
  "snd (api_CreateVpc sv ev ws key r s) = s \<or> rp_Status (fst (api_CreateVpc sv ev ws key r s)) = 201"
  "snd (api_CreateSubnet sv ev ws key r s) = s \<or> rp_Status (fst (api_CreateSubnet sv ev ws key r s)) = 201"
  "snd (api_RunInstance sv ev ws key r s) = s \<or> rp_Status (fst (api_RunInstance sv ev ws key r s)) = 201"
  "snd (api_DeleteVpc sv ev ws i r s) = s \<or> rp_Status (fst (api_DeleteVpc sv ev ws i r s)) = 202"
  "snd (api_DeleteSubnet sv ev ws i r s) = s \<or> rp_Status (fst (api_DeleteSubnet sv ev ws i r s)) = 202"
  "snd (api_TerminateInstance sv ev ws i r s) = s \<or> rp_Status (fst (api_TerminateInstance sv ev ws i r s)) = 202"
  unfolding api_CreateVpc_def api_CreateSubnet_def api_RunInstance_def api_DeleteVpc_def api_DeleteSubnet_def api_TerminateInstance_def
  by (intro checked_changes served_changes requests_fail_clean)+

text \<open>A new resource is served as the answer to its creation showed it.\<close>

lemma svc_GetVPC_row:
  assumes "db_inv d" and "r \<in> set (vpcs d)"
  shows "svc_GetVPC (vr_id r) d = Inr (vpc_of_row r)"
  using store_GetVPC_cases [OF assms(1), of "vr_id r"] vpc_rows(2) [OF assms] assms(2)
  by (fastforce simp: svc_GetVPC_def)

lemma CreateVPC_row:
  assumes cidr: "cidr_ok cidr"
    and run: "tx_CreateVPC unixepoch name cidr [] hash i now d = Inr ((v, q), d')"
  shows "(\<exists>r \<in> set (vpcs d'). vr_id r = i \<and> vpc_of_row r = v) \<and> q = [i]"
  using run
proof (cases rule: CreateVPC_run)
  case (created idx d1 d2 d3)
  have "\<exists>r \<in> set (vpcs d2). vr_id r = i \<and> vpc_of_row r = v"
    using created(2,5) cidr_text_string [OF cidr]
    by (auto simp: tx_InsertVPC_def q_InsertVPC_def Let_def vpc_of_row_def zero_VPC_def split: if_splits)
  then show ?thesis using created(5) saved_tables [OF created(4)] appended_tables [OF created(3)] by simp
qed simp

lemma created_vpc:
  assumes inv: "db_inv d" and run: "svc_CreateVPC f e t now vin [] d = (Inr v, d', q)"
  shows "q = [vpc_ID v] \<and> svc_GetVPC (vpc_ID v) d' = Inr v"
proof -
  have inv': "db_inv d'" using svc_CreateVPC_keeps [OF inv, of f e t now vin "[]"] run by simp
  obtain name cidr hash i where "ParseCIDR (cvi_CIDRBlock vin) = Inr cidr" and
    "reply (WithTx f (tx_CreateVPC t name cidr [] hash i now) d) = (Inr v, d', q)"
    using run by (auto simp: svc_CreateVPC_def Let_def res_bind_Inr split: sum.splits)
  then have "tx_CreateVPC t name cidr [] hash i now d = Inr ((v, q), d')" "cidr_ok cidr"
    by (simp_all add: reply_success ParseCIDR_ok)
  then show ?thesis using CreateVPC_row [of cidr t name hash i now d v q d'] svc_GetVPC_row [OF inv'] by (auto simp: vpc_of_row_def)
qed

lemma Run_rows:
  assumes run: "tx_Run unixepoch name sid [] hash i eniID now d = Inr ((n, q), d')"
  shows "(\<exists>r \<in> set (instances d'). \<exists>e \<in> set (enis d'). er_instance_id e = ir_id r \<and> instance_of_rows r e = n) \<and>
    q = [i] \<and> inst_ID n = i"
  using run
proof (cases rule: Run_run)
  case (created subnet used address idx eidx d1 d2 d3 d4)
  have "\<exists>r \<in> set (instances d3). \<exists>e \<in> set (enis d3). er_instance_id e = ir_id r \<and> instance_of_rows r e = n"
    using created(7,10)
    by (auto simp: tx_InsertInstanceWithENI_def tx_bind_Inr q_InsertInstance_def q_InsertENI_def Let_def
        instance_of_rows_def zero_Instance_def zero_ENI_def ParseAddr_string split: if_splits)
  then show ?thesis using created(10) saved_tables [OF created(9)] appended_tables [OF created(8)] by simp
qed simp

lemma launched_instance:
  assumes inv: "db_inv d" and run: "svc_Run f e e' t now rin [] d = (Inr n, d', q)"
  shows "q = [inst_ID n] \<and> svc_Get NoFault (inst_ID n) d' = Inr n"
proof -
  have inv': "db_inv d'" using svc_Run_keeps [OF inv, of f e e' t now rin "[]"] run by simp
  obtain name hash i eid where "reply (WithTx f (tx_Run t name (rii_SubnetID rin) [] hash i eid now) d) = (Inr n, d', q)"
    using run by (auto simp: svc_Run_def Let_def res_bind_Inr split: sum.splits)
  note rows = Run_rows [OF reply_success [OF this]]
  then obtain r x where r: "r \<in> set (instances d')" "x \<in> set (enis d')" "er_instance_id x = ir_id r" "instance_of_rows r x = n"
    by blast
  have "x = primary_eni r d'" by (rule primary_eni_row(4) [OF inv' r(1-3)])
  then have "snapshot r d' = n" using r(4) by simp
  moreover have "ir_id r = i" using rows by (auto simp: instance_of_rows_def simp flip: r(4))
  ultimately show ?thesis using rows store_GetInstance_ok [OF inv' r(1)] by (simp add: svc_Get_def)
qed

end
