(* ===== verification/EventStream.thy ===== *)
theory EventStream
  imports ApiServer
begin

text \<open>
  \<open>internal/apiserver/events.go\<close>: the stream of events. The handler polls the event log behind
  the cursor of the client and writes one frame per event until the client goes away.
\<close>

definition eventResponse :: "event_row \<Rightarrow> json" where
  "eventResponse e = JObj
     [(''id'', jint (ev_id e)), (''workspace_id'', JStr (ev_workspace_id e)), (''resource_type'', JStr (ev_resource_type e)),
      (''resource_id'', JStr (ev_resource_id e)), (''action'', JStr (ev_action e)), (''state'', JStr (ev_state e)),
      (''generation'', jint (ev_generation e)), (''message'', JStr (ev_message e)), (''created_at'', jint (ev_created_at e))]"

text \<open>Encoding a struct of numbers and strings never fails.\<close>

definition event_frame :: "event_row \<Rightarrow> string" where
  "event_frame e =
     ''id: '' @ FormatInt (ev_id e) @ [CHR 0x0A] @ ''data: '' @ marshal (eventResponse e) @ [CHR 0x0A, CHR 0x0A]"

text \<open>
  One round of the loop: the tables at the query, the fault of the query, how many writes
  succeed before one fails, and whether the client is gone when the handler waits.
\<close>

record poll =
  pl_db :: db
  pl_fault :: "goerr option"
  pl_write :: "nat option"
  pl_done :: bool

text \<open>The frames written, the cursor behind them, and whether all writes succeeded.\<close>

fun write_events :: "nat option \<Rightarrow> event_row list \<Rightarrow> int \<Rightarrow> string list \<times> int \<times> bool" where
  "write_events n [] cursor = ([], cursor, True)"
| "write_events n (e # es) cursor =
     (if n = Some 0 then ([], cursor, False)
      else (case write_events (map_option (\<lambda>k. k - 1) n) es (ev_id e) of
              (frames, cursor', ok) \<Rightarrow> (event_frame e # frames, cursor', ok)))"

text \<open>The frames of the rounds, and whether the handler has returned within them.\<close>

fun stream_events :: "poll list \<Rightarrow> int \<Rightarrow> string list \<times> bool" where
  "stream_events [] cursor = ([], False)"
| "stream_events (p # ps) cursor =
     (case (case pl_fault p of
              Some e \<Rightarrow> Inl (Wrapf (''read events after '' @ FormatInt cursor) e)
            | None \<Rightarrow> store_EventsAfter cursor 100 (pl_db p)) of
        Inl e \<Rightarrow> ([], True)
      | Inr es \<Rightarrow>
          (case write_events (pl_write p) es cursor of
             (frames, cursor', ok) \<Rightarrow>
               if \<not> ok then (frames, True)
               else if es \<noteq> [] then (case stream_events ps cursor' of (rest, fin) \<Rightarrow> (frames @ rest, fin))
               else if pl_done p then (frames, True)
               else stream_events ps cursor'))"

definition event_headers :: "(string \<times> string) list" where
  "event_headers =
     [(''Content-Type'', ''text/event-stream''), (''Cache-Control'', ''no-store''), (''X-Accel-Buffering'', ''no'')]"

definition GetEvents ::
  "server \<Rightarrow> bool \<Rightarrow> string option \<Rightarrow> poll list \<Rightarrow> response + (int \<times> (string \<times> string) list \<times> string list \<times> bool)" where
  "GetEvents sv flusher last_id polls =
     (if \<not> sv_events sv then Inl (writeAPIError 503 ''ServiceUnavailable'' ''event store is not ready'' [])
      else
        (case (case last_id of
                 None \<Rightarrow> Some 0
               | Some raw \<Rightarrow> (case ParseInt raw of None \<Rightarrow> None | Some parsed \<Rightarrow> if parsed < 0 then None else Some parsed)) of
           None \<Rightarrow> Inl (writeAPIError 400 ''InvalidParameterValue'' ''Last-Event-ID must be a nonnegative integer'' [])
         | Some cursor \<Rightarrow>
             if \<not> flusher then Inl (writeAPIError 500 ''InternalError'' ''event stream cannot flush'' [])
             else Inr (200, event_headers, stream_events polls cursor)))"

end
