(* ===== verification/EventFacts.thy ===== *)
theory EventFacts
  imports EventStream StartGuard
begin

text \<open>
  The event log only grows, and the stream delivers it: a client that comes back with the
  number of the last event it got receives every event once, in the order of the log.
\<close>

section \<open>The log only grows\<close>

definition logged :: "event_row list \<Rightarrow> db \<Rightarrow> bool" where
  "logged L d \<longleftrightarrow> (\<exists>M. events d = L @ M)"

lemma logged_same: "events d' = events d \<Longrightarrow> logged L d \<Longrightarrow> logged L d'"
  by (simp add: logged_def)

lemma logged_append [keeps]: "tx_keeps (logged L) (tx_AppendEvent ws rt j act st g msg now)"
  by (rule tx_keepsI) (auto simp: logged_def tx_AppendEvent_def q_InsertEvent_def Let_def split: if_splits)

lemma logged_statements [keeps]:
  "tx_keeps (logged L) (tx_AllocateIndex epoch kind j)" "tx_keeps (logged L) (tx_InsertVPC v now)"
  "tx_keeps (logged L) (tx_InsertSubnet s now)" "tx_keeps (logged L) (saveReplay encode op key hash j x now)"
  "tx_keeps (logged L) (tx_MarkVPCDeleting ws j now)" "tx_keeps (logged L) (tx_MarkSubnetDeleting ws j now)"
  "tx_keeps (logged L) (q_UpdateVPCStatus st reason og now j ws)" "tx_keeps (logged L) (q_UpdateSubnetStatus st reason og now j ws)"
  "tx_keeps (logged L) (q_DeleteVPC j ws)" "tx_keeps (logged L) (q_DeleteSubnet j ws)"
  "tx_keeps (logged L) (tx_InsertInstanceWithENI n e now)" "tx_keeps (logged L) (tx_MarkInstanceTerminating ws j now)"
  "tx_keeps (logged L) (q_UpdateInstanceStatus st reason og now j ws)"
  "tx_keeps (logged L) (q_UpdateInstanceENIStatus st reason og now j ws)"
  "tx_keeps (logged L) (q_DeleteInstance j ws)" "tx_keeps (logged L) (q_DeleteInstanceENI j ws)"
  "tx_keeps (logged L) (q_RecordRuntimeID rid j gen)" "tx_keeps (logged L) (q_RetainTerminatingRuntimeID rid j)"
  by (rule tx_keepsI, erule logged_same [rotated],
      auto simp: tx_AllocateIndex_def q_InsertKernelIndex_def tx_InsertVPC_def q_InsertVPC_def tx_InsertSubnet_def
      q_InsertSubnet_def saveReplay_def tx_PutIdempotency_def q_PutIdempotency_def
      tx_MarkVPCDeleting_def q_MarkVPCDeleting_def tx_MarkSubnetDeleting_def q_MarkSubnetDeleting_def q_UpdateVPCStatus_def
      q_UpdateSubnetStatus_def q_DeleteVPC_def q_DeleteSubnet_def tx_InsertInstanceWithENI_def q_InsertInstance_def q_InsertENI_def
      tx_MarkInstanceTerminating_def q_MarkInstanceTerminating_def q_UpdateInstanceStatus_def q_UpdateInstanceENIStatus_def
      q_DeleteInstance_def q_DeleteInstanceENI_def q_RecordRuntimeID_def q_RetainTerminatingRuntimeID_def
      tx_bind_Inr Let_def split: if_splits option.splits sum.splits)+

lemma logged_transactions:
  "tx_keeps (logged L) (tx_CreateVPC epoch name cidr key hash j now)"
  "tx_keeps (logged L) (tx_DeleteVPC j now)"
  "tx_keeps (logged L) (tx_CreateSubnet epoch name vid cidr az key hash j now)"
  "tx_keeps (logged L) (tx_DeleteSubnet j now)"
  "tx_keeps (logged L) (tx_Run epoch name sid key hash j eid now)"
  "tx_keeps (logged L) (tx_TerminateSnapshot j now)"
  "tx_keeps (logged L) (tx_RecordTopology now vpc applied effect)"
  unfolding tx_CreateVPC_def tx_DeleteVPC_def tx_CreateSubnet_def tx_DeleteSubnet_def tx_Run_def tx_TerminateSnapshot_def
    tx_RecordTopology_def tx_recordVPCStatus_def recordChild_def tx_recordSubnetStatus_def Let_def
  by (intro keeps)+

lemma logged_records:
  "tx_keeps (logged L) (tx_RecordInstance now n status reason observed)" "tx_keeps (logged L) (tx_FinishInstanceTermination now n)"
  unfolding tx_RecordInstance_def tx_FinishInstanceTermination_def Let_def by (auto intro!: keeps split: sum.split)

lemma WithTx_logged: "WithTx f m d = (r, d') \<Longrightarrow> tx_keeps (logged L) m \<Longrightarrow> logged L d \<Longrightarrow> logged L d'"
  using WithTx_keeps [of "logged L" m d f] by simp

lemma runtime_logged:
  "logged L d \<Longrightarrow> logged L (snd (store_RecordRuntimeID i g rid d))"
  "logged L d \<Longrightarrow> logged L (snd (store_RetainTerminatingRuntimeID i rid d))"
  by (simp_all add: store_RecordRuntimeID_def store_RetainTerminatingRuntimeID_def autocommit_def tx_wrap_def q_RecordRuntimeID_def
      q_RetainTerminatingRuntimeID_def Let_def logged_def)

lemma step_logged: "db_step d d' \<Longrightarrow> logged L d \<Longrightarrow> logged L d'"
  by (induction rule: db_step.induct)
    (auto simp: svc_CreateVPC_def svc_DeleteVPC_def svc_CreateSubnet_def svc_DeleteSubnet_def svc_Run_def svc_Terminate_def
      svc_TerminateSnapshot_def store_RecordTopology_def store_RecordInstance_def store_FinishInstanceTermination_def
      reply_def Let_def logged_transactions logged_records WithTx_keeps runtime_logged
      dest: WithTx_logged split: sum.splits prod.splits option.splits)

lemma log_grows: "db_step\<^sup>*\<^sup>* d d' \<Longrightarrow> \<exists>M. events d' = events d @ M"
proof -
  assume "db_step\<^sup>*\<^sup>* d d'"
  then have "logged (events d) d'"
    by (induction rule: rtranclp_induct) (simp add: logged_def, erule (1) step_logged)
  then show ?thesis by (simp add: logged_def)
qed

section \<open>Polling the log\<close>

definition after :: "int \<Rightarrow> event_row list \<Rightarrow> event_row list" where
  "after c L = filter (\<lambda>e. c < ev_id e) L"

abbreviation numbered :: "event_row list \<Rightarrow> bool" where
  "numbered L \<equiv> sorted_wrt (<) (map ev_id L)"

lemma after_append: "after c (L @ M) = after c L @ after c M"
  by (simp add: after_def)

lemma last_taken: "take n (after c L) \<noteq> [] \<Longrightarrow> last (take n (after c L)) \<in> set L"
proof -
  assume "take n (after c L) \<noteq> []"
  then have "last (take n (after c L)) \<in> set (after c L)" by (rule in_set_takeD [OF last_in_set])
  then show ?thesis by (simp add: after_def)
qed

lemma numbered_after: "numbered L \<Longrightarrow> numbered (after c L)"
  by (induction L) (auto simp: after_def)

lemma after_behind:
  assumes "numbered L" and "after c L = es @ rest" and "es \<noteq> []"
  shows "after (ev_id (last es)) L = rest"
proof -
  let ?l = "last es"
  have n: "numbered (es @ rest)" using numbered_after [OF assms(1), of c] assms(2) by simp
  have "?l \<in> set es" using assms(3) by simp
  then have "?l \<in> set (after c L)" using assms(2) by simp
  then have c: "c < ev_id ?l" by (simp add: after_def)
  have "e = ?l \<or> ev_id e < ev_id ?l" if "e \<in> set es" for e
  proof -
    obtain ys where ys: "es = ys @ [?l]" using assms(3) by (metis append_butlast_last_id)
    then have "numbered (ys @ [?l])" using n by (metis map_append sorted_wrt_append)
    then have "\<forall>e \<in> set ys. ev_id e < ev_id ?l" by (auto simp: sorted_wrt_append)
    moreover have "e \<in> set ys \<or> e = ?l" using that by (subst (asm) ys) auto
    ultimately show ?thesis by blast
  qed
  moreover have "\<forall>e \<in> set rest. ev_id ?l < ev_id e"
    using n \<open>?l \<in> set es\<close> by (auto simp: sorted_wrt_append)
  ultimately have "filter (\<lambda>e. ev_id ?l < ev_id e) (es @ rest) = rest"
    by (fastforce simp: filter_empty_conv filter_id_conv)
  moreover have "filter (\<lambda>e. ev_id ?l < ev_id e) L = filter (\<lambda>e. ev_id ?l < ev_id e) (after c L)"
    using c by (auto simp: after_def intro: filter_cong)
  ultimately show ?thesis unfolding assms(2) by (simp only: after_def)
qed

lemma EventsAfter_log:
  assumes "numbered (events d)" and "0 \<le> c"
  shows "store_EventsAfter c 100 d = Inr (take 100 (after c (events d)))"
proof -
  have "sorted (map ev_id (after c (events d)))"
    using numbered_after [OF assms(1), of c] by (simp add: strict_sorted_imp_sorted)
  then show ?thesis using assms(2)
    by (simp add: store_EventsAfter_def q_EventsAfter_def sql_limit_def after_def sort_key_id_if_sorted)
qed

lemma write_events_frames:
  "write_events n es c = (frames, c', ok) \<Longrightarrow>
   (\<exists>k \<le> length es. frames = map event_frame (take k es)) \<and>
   (ok \<longrightarrow> frames = map event_frame es \<and> c' = (if es = [] then c else ev_id (last es))) \<and> (n = None \<longrightarrow> ok)"
proof (induction n es c arbitrary: frames rule: write_events.induct)
  case (2 n e es c)
  show ?case
  proof (cases "n = Some 0")
    case False
    obtain fs where w: "write_events (map_option (\<lambda>k. k - 1) n) es (ev_id e) = (fs, c', ok)" "frames = event_frame e # fs"
      using False 2(2) by (auto split: prod.splits)
    note ih = 2(1) [OF False w(1)]
    then obtain k where "k \<le> length es" "fs = map event_frame (take k es)" by blast
    then have "Suc k \<le> length (e # es) \<and> frames = map event_frame (take (Suc k) (e # es))" using w(2) by simp
    then show ?thesis using ih w(2) by (auto intro: exI [of _ "Suc k"])
  qed (use 2(2) in auto)
qed auto

lemma stream_prefix:
  assumes "numbered E" and "\<And>p. p \<in> set ps \<Longrightarrow> \<exists>M. E = events (pl_db p) @ M" and "0 \<le> c"
    and "\<And>e. e \<in> set E \<Longrightarrow> 0 \<le> ev_id e"
  shows "\<exists>n \<le> length (after c E). fst (stream_events ps c) = map event_frame (take n (after c E))"
  using assms(2,3)
proof (induction ps arbitrary: c)
  case (Cons p ps)
  obtain M where M: "E = events (pl_db p) @ M" using Cons.prems(1) [of p] by auto
  let ?es = "take 100 (after c (events (pl_db p)))"
  have pre: "\<exists>rest. after c E = ?es @ rest"
    using M by (intro exI [of _ "drop 100 (after c (events (pl_db p))) @ after c M"]) (simp add: after_append)
  have none: "\<exists>n \<le> length (after c E). [] = map event_frame (take n (after c E))" by (intro exI [of _ 0]) simp
  show ?case
  proof (cases "pl_fault p")
    case None
    have "numbered (events (pl_db p))" using assms(1) M by (simp add: sorted_wrt_append)
    then have q: "store_EventsAfter c 100 (pl_db p) = Inr ?es" by (rule EventsAfter_log [OF _ Cons.prems(2)])
    obtain frames c' ok where w: "write_events (pl_write p) ?es c = (frames, c', ok)" by (cases "write_events (pl_write p) ?es c")
    note f = write_events_frames [OF w]
    obtain rest where rest: "after c E = ?es @ rest" using pre by blast
    show ?thesis
    proof (cases "ok \<and> ?es \<noteq> []")
      case True
      then have c': "c' = ev_id (last ?es)" "frames = map event_frame ?es" using f by auto
      have "last ?es \<in> set (events (pl_db p))" by (rule last_taken) (use True in blast)
      then have "0 \<le> c'" using c'(1) assms(4) M by simp
      then obtain n where n: "n \<le> length (after c' E)" "fst (stream_events ps c') = map event_frame (take n (after c' E))"
        using Cons.IH [of c'] Cons.prems(1) by auto
      have "after c' E = rest" unfolding c'(1) by (rule after_behind [OF assms(1) rest]) (use True in blast)
      moreover have "take (length xs + n) (xs @ ys) = xs @ take n ys" for xs ys :: "event_row list" by simp
      ultimately have "length ?es + n \<le> length (after c E) \<and>
          fst (stream_events (p # ps) c) = map event_frame (take (length ?es + n) (after c E))"
        using True q w None n c'(2) unfolding rest by (auto simp del: length_take take_append split: prod.splits)
      then show ?thesis by blast
    next
      case False
      show ?thesis
      proof (cases ok)
        case True
        then have "frames = []" "c' = c" and "?es = []" using False f by auto
        then have "fst (stream_events (p # ps) c) = [] \<or> fst (stream_events (p # ps) c) = fst (stream_events ps c)"
          using q w None True by auto
        then show ?thesis using none Cons.IH [of c] Cons.prems by auto
      next
        case False
        obtain k where "k \<le> length ?es" "frames = map event_frame (take k ?es)" using f by blast
        then have "k \<le> length (after c E) \<and> fst (stream_events (p # ps) c) = map event_frame (take k (after c E))"
          using q w None False rest by (auto simp: take_append)
        then show ?thesis by blast
      qed
    qed
  qed (use none in auto)
qed (intro exI [of _ 0], simp)

text \<open>A stream without faults delivers what is in the log, a hundred events with a round.\<close>

lemma stream_complete:
  assumes "numbered E" and "\<And>p. p \<in> set ps \<Longrightarrow> events (pl_db p) = E \<and> pl_fault p = None \<and> pl_write p = None"
    and "0 \<le> c" and "\<And>e. e \<in> set E \<Longrightarrow> 0 \<le> ev_id e" and "length (after c E) \<le> 100 * length ps"
  shows "fst (stream_events ps c) = map event_frame (after c E)"
  using assms(2,3,5)
proof (induction ps arbitrary: c)
  case (Cons p ps)
  let ?es = "take 100 (after c E)"
  have p: "events (pl_db p) = E" "pl_fault p = None" "pl_write p = None" using Cons.prems(1) [of p] by auto
  have q: "store_EventsAfter c 100 (pl_db p) = Inr ?es" using EventsAfter_log [of "pl_db p" c] assms(1) p Cons.prems(2) by simp
  obtain frames c' ok where w: "write_events (pl_write p) ?es c = (frames, c', ok)" by (cases "write_events (pl_write p) ?es c")
  then have f: "frames = map event_frame ?es" "c' = (if ?es = [] then c else ev_id (last ?es))" "ok"
    using write_events_frames [OF w] p by auto
  show ?case
  proof (cases "?es = []")
    case True
    then have "after c E = []" by simp
    then have "fst (stream_events ps c) = []"
      using stream_prefix [OF assms(1), of ps c] Cons.prems assms(4) by auto
    then show ?thesis using True q w f p \<open>after c E = []\<close> by auto
  next
    case False
    have "last ?es \<in> set E" by (rule last_taken) (rule False)
    then have c0: "0 \<le> c'" using f(2) False assms(4) by simp
    have "after c' E = drop 100 (after c E)"
      using after_behind [OF assms(1), of c ?es "drop 100 (after c E)"] False f(2) by simp
    moreover have "length (drop 100 (after c E)) \<le> 100 * length ps" using Cons.prems(3) by simp
    ultimately have "fst (stream_events ps c') = map event_frame (drop 100 (after c E))"
      using Cons.IH [of c'] Cons.prems(1) c0 by auto
    then show ?thesis using False q w f(1,3) p
      by (auto simp flip: map_append split: prod.splits)
  qed
qed simp

section \<open>A client that comes back\<close>

text \<open>The number in the first line of a frame, which a client sends when it comes back.\<close>

definition frame_id :: "string \<Rightarrow> string" where
  "frame_id frame = takeWhile (\<lambda>c. c \<noteq> CHR 0x0A) (drop 4 frame)"

text \<open>
  The frames that a client receives over several connections: of each connection the rounds
  of the server and how many frames arrive.
\<close>

fun watch :: "server \<Rightarrow> (poll list \<times> nat) list \<Rightarrow> string option \<Rightarrow> string list" where
  "watch sv [] last_id = []"
| "watch sv ((polls, k) # cs) last_id =
     (case GetEvents sv True last_id polls of
        Inl r \<Rightarrow> watch sv cs last_id
      | Inr (status, headers, frames, fin) \<Rightarrow>
          (let got = take k frames in
           got @ watch sv cs (if got = [] then last_id else Some (frame_id (last got)))))"

lemma frame_id_event: "frame_id (event_frame e) = FormatInt (ev_id e)"
proof -
  have d: "list_all (\<lambda>c. c \<noteq> CHR 0x0A) (dec n)" for n
    using dec_digits [of n] by (auto simp: list_all_iff is_digit_def)
  have "list_all (\<lambda>c. c \<noteq> CHR 0x0A) (FormatInt i)" for i
    using d by (simp add: FormatInt_def)
  then show ?thesis by (simp add: frame_id_def event_frame_def takeWhile_append2 list_all_iff)
qed

lemma watch_prefix:
  assumes E: "numbered E" "\<And>e. e \<in> set E \<Longrightarrow> 0 \<le> ev_id e \<and> ev_id e \<le> max_int64"
    and "\<And>c p. c \<in> set cs \<Longrightarrow> p \<in> set (fst c) \<Longrightarrow> \<exists>M. E = events (pl_db p) @ M"
    and "last_id = None \<and> cursor = 0 \<or> last_id = Some (FormatInt cursor)" and "0 \<le> cursor" "cursor \<le> max_int64"
  shows "\<exists>n. watch sv cs last_id = map event_frame (take n (after cursor E))"
  using assms(3-)
proof (induction cs arbitrary: last_id cursor)
  case (Cons c cs)
  obtain polls k where c: "c = (polls, k)" by (cases c)
  have step: "\<exists>n. watch sv cs l = map event_frame (take n (after x E))"
    if "l = None \<and> x = 0 \<or> l = Some (FormatInt x)" "0 \<le> x" "x \<le> max_int64" for l x
    by (rule Cons.IH [OF _ that]) (use Cons.prems(1) in auto)
  have parse: "ParseInt (FormatInt cursor) = Some cursor"
    using Cons.prems(3,4) by (intro ParseInt_FormatInt) (simp_all add: max_int64_def)
  show ?case
  proof (cases "sv_events sv")
    case True
    let ?s = "stream_events polls cursor"
    have g: "GetEvents sv True last_id polls = Inr (200, event_headers, ?s)"
      using True Cons.prems(2,3) parse by (auto simp: GetEvents_def)
    obtain n where n: "fst ?s = map event_frame (take n (after cursor E))"
      using stream_prefix [OF E(1), of polls cursor] Cons.prems(1) [of c] c Cons.prems(3) E(2) by auto
    define es where "es = take (min n k) (after cursor E)"
    have got: "take k (fst ?s) = map event_frame es" by (simp add: n es_def take_map min.commute)
    show ?thesis
    proof (cases "es = []")
      case True
      then have "watch sv (c # cs) last_id = watch sv cs last_id" using g got c by (auto simp: split_beta)
      then show ?thesis using step [OF Cons.prems(2-4)] by simp
    next
      case False
      define x where "x = ev_id (last es)"
      have "last es \<in> set E" using False unfolding es_def by (rule last_taken)
      then have x: "0 \<le> x" "x \<le> max_int64" using E(2) by (auto simp: x_def)
      have "last (map event_frame es) = event_frame (last es)" using False by (simp add: last_map)
      then have w: "watch sv (c # cs) last_id = map event_frame es @ watch sv cs (Some (FormatInt x))"
        using g got c False by (auto simp: split_beta Let_def frame_id_event x_def)
      obtain m where m: "watch sv cs (Some (FormatInt x)) = map event_frame (take m (after x E))"
        using step [of "Some (FormatInt x)" x] x by auto
      have "after x E = drop (min n k) (after cursor E)"
        unfolding x_def using after_behind [OF E(1), of cursor es "drop (min n k) (after cursor E)"] False by (simp add: es_def)
      then have "watch sv (c # cs) last_id = map event_frame (take (min n k + m) (after cursor E))"
        using w m by (simp add: es_def take_add)
      then show ?thesis by blast
    qed
  next
    case False
    then have "watch sv (c # cs) last_id = watch sv cs last_id" using c by (simp add: GetEvents_def)
    then show ?thesis using step [OF Cons.prems(2-4)] by simp
  qed
qed (intro exI [of _ 0], simp)

end
