(* ===== verification/NetUrl.thy ===== *)
theory NetUrl
  imports NetHttp Netip "HOL-Library.Char_ord" "HOL-Library.List_Lexorder"
begin

text \<open>
  What the command line, the generated client and the router use of \<open>net/url\<close>: escaping,
  parsing, resolving a relative path, and query strings. Parsing covers relative URLs and those
  of scheme http without user information and without a percent sign in the host; for every
  other one it gives None. The command line refuses those, as it refuses what does not parse.
\<close>

section \<open>Escaping\<close>

datatype encoding = encodePath | encodePathSegment | encodeQueryComponent | encodeFragment

definition is_letter :: "char \<Rightarrow> bool" where
  "is_letter c \<longleftrightarrow> 0x41 \<le> byte c \<and> byte c \<le> 0x5A \<or> 0x61 \<le> byte c \<and> byte c \<le> 0x7A"

definition unreserved :: "char \<Rightarrow> bool" where
  "unreserved c \<longleftrightarrow> is_letter c \<or> is_digit c \<or> c \<in> set ''-_.~''"

definition shouldEscape :: "encoding \<Rightarrow> char \<Rightarrow> bool" where
  "shouldEscape mode c =
     (if unreserved c then False
      else if c \<in> set ''$&+,/:;=?@'' then
        (case mode of
           encodePath \<Rightarrow> c = CHR ''?''
         | encodePathSegment \<Rightarrow> c \<in> set ''/;,?''
         | encodeQueryComponent \<Rightarrow> True
         | encodeFragment \<Rightarrow> False)
      else \<not> (mode = encodeFragment \<and> c \<in> set ''!()*''))"

definition upperhex :: "nat \<Rightarrow> char" where
  "upperhex n = (if n < 10 then digit n else char_of (n + 55))"

definition escape_char :: "encoding \<Rightarrow> char \<Rightarrow> string" where
  "escape_char mode c =
     (if \<not> shouldEscape mode c then [c]
      else if c = CHR '' '' \<and> mode = encodeQueryComponent then ''+''
      else [CHR ''%'', upperhex (byte c div 16), upperhex (byte c mod 16)])"

definition escape :: "encoding \<Rightarrow> string \<Rightarrow> string" where
  "escape mode s = concat (map (escape_char mode) s)"

fun unescape :: "encoding \<Rightarrow> string \<Rightarrow> string option" where
  "unescape mode [] = Some []"
| "unescape mode (c # s) =
     (if c = CHR ''%'' then
        (case s of
           a # b # r \<Rightarrow>
             (case (hexnum a, hexnum b) of
                (Some m, Some n) \<Rightarrow> map_option ((#) (char_of (16 * m + n))) (unescape mode r)
              | _ \<Rightarrow> None)
         | _ \<Rightarrow> None)
      else map_option ((#) (if c = CHR ''+'' \<and> mode = encodeQueryComponent then CHR '' '' else c)) (unescape mode s))"

definition PathEscape :: "string \<Rightarrow> string" where
  "PathEscape = escape encodePathSegment"

definition QueryEscape :: "string \<Rightarrow> string" where
  "QueryEscape = escape encodeQueryComponent"

section \<open>URLs\<close>

record URL =
  u_Scheme :: string
  u_Host :: string
  u_Path :: string
  u_RawPath :: string
  u_ForceQuery :: bool
  u_RawQuery :: string
  u_Fragment :: string

definition zero_URL :: URL where
  "zero_URL = \<lparr>u_Scheme = [], u_Host = [], u_Path = [], u_RawPath = [], u_ForceQuery = False, u_RawQuery = [], u_Fragment = []\<rparr>"

definition validEncodedPath :: "string \<Rightarrow> bool" where
  "validEncodedPath s \<longleftrightarrow> list_all (\<lambda>c. c \<in> set ''!$&()*+,;=:@[]%'' \<or> c = CHR 0x27 \<or> \<not> shouldEscape encodePath c) s"

definition setPath :: "string \<Rightarrow> URL \<Rightarrow> URL option" where
  "setPath p u =
     map_option (\<lambda>path. u\<lparr>u_Path := path, u_RawPath := (if p = escape encodePath path then [] else p)\<rparr>) (unescape encodePath p)"

definition EscapedPath :: "URL \<Rightarrow> string" where
  "EscapedPath u =
     (if u_RawPath u \<noteq> [] \<and> validEncodedPath (u_RawPath u) \<and> unescape encodePath (u_RawPath u) = Some (u_Path u) then u_RawPath u
      else if u_Path u = ''*'' then ''*''
      else escape encodePath (u_Path u))"

text \<open>\<open>strings.Cut\<close> at a byte: what is before and what is behind its first occurrence.\<close>

definition Cut :: "char \<Rightarrow> string \<Rightarrow> string \<times> string" where
  "Cut c s = (takeWhile (\<lambda>x. x \<noteq> c) s, tl (dropWhile (\<lambda>x. x \<noteq> c) s))"

definition stringContainsCTLByte :: "string \<Rightarrow> bool" where
  "stringContainsCTLByte s \<longleftrightarrow> list_ex (\<lambda>c. byte c < 0x20 \<or> byte c = 0x7F) s"

fun getScheme :: "string \<Rightarrow> string \<Rightarrow> string \<Rightarrow> (string \<times> string) option" where
  "getScheme raw before [] = Some ([], raw)"
| "getScheme raw before (c # s) =
     (if is_letter c then getScheme raw (before @ [c]) s
      else if is_digit c \<or> c \<in> set ''+-.'' then if before = [] then Some ([], raw) else getScheme raw (before @ [c]) s
      else if c = CHR '':'' then if before = [] then None else Some (before, s)
      else Some ([], raw))"

definition validOptionalPort :: "string \<Rightarrow> bool" where
  "validOptionalPort port \<longleftrightarrow> port = [] \<or> hd port = CHR '':'' \<and> list_all is_digit (tl port)"

definition host_char :: "char \<Rightarrow> bool" where
  "host_char c \<longleftrightarrow> unreserved c \<or> c \<in> set ''!$&()*+,;=:[]<>'' \<or> c = CHR 0x27 \<or> c = quote_char \<or> byte c \<ge> 0x80"

text \<open>
  The host of a URL of scheme http. An address in brackets has to be one of IPv6; any other
  host has at most one colon, the one before the port.
\<close>

definition parseHost :: "string \<Rightarrow> string option" where
  "parseHost host =
     (if \<not> list_all host_char host then None
      else if CHR ''['' \<in> set host then
        (case LastIndexByte CHR '']'' host of
           None \<Rightarrow> None
         | Some i \<Rightarrow>
             if hd host = CHR ''['' \<and> CHR ''['' \<notin> set (tl host) \<and> validOptionalPort (drop (i + 1) host) \<and>
                (\<exists>a \<in> set_option (ParseAddr (drop 1 (take i host))). \<not> Is4 a)
             then Some host else None)
      else if validOptionalPort (dropWhile (\<lambda>c. c \<noteq> CHR '':'') host) then Some host
      else None)"

text \<open>What is behind the scheme, without the query: the authority and the path.\<close>

definition parse_rest :: "bool \<Rightarrow> string \<Rightarrow> URL \<Rightarrow> URL option" where
  "parse_rest viaRequest rest u =
     (if \<not> HasPrefix rest ''/'' \<and> (u_Scheme u \<noteq> [] \<or> viaRequest \<or> CHR '':'' \<in> set (fst (Cut (CHR ''/'') rest))) then None
      else if HasPrefix rest ''//'' \<and> (u_Scheme u \<noteq> [] \<or> \<not> viaRequest \<and> \<not> HasPrefix rest ''///'') then
        Option.bind (parseHost (takeWhile (\<lambda>c. c \<noteq> CHR ''/'') (drop 2 rest)))
          (\<lambda>host. setPath (dropWhile (\<lambda>c. c \<noteq> CHR ''/'') (drop 2 rest)) (u\<lparr>u_Host := host\<rparr>))
      else setPath rest u)"

definition parse_url :: "bool \<Rightarrow> string \<Rightarrow> URL option" where
  "parse_url viaRequest rawURL =
     (if stringContainsCTLByte rawURL \<or> rawURL = [] \<and> viaRequest then None
      else if rawURL = ''*'' then Some (zero_URL\<lparr>u_Path := ''*''\<rparr>)
      else
        (case getScheme rawURL [] rawURL of
           None \<Rightarrow> None
         | Some (scheme, rest) \<Rightarrow>
             let u = zero_URL\<lparr>u_Scheme := ToLower scheme\<rparr> in
             if u_Scheme u \<noteq> [] \<and> u_Scheme u \<noteq> ''http'' then None
             else if HasSuffix rest ''?'' \<and> CHR ''?'' \<notin> set (butlast rest)
             then parse_rest viaRequest (butlast rest) (u\<lparr>u_ForceQuery := True\<rparr>)
             else (let (path, query) = Cut (CHR ''?'') rest in parse_rest viaRequest path (u\<lparr>u_RawQuery := query\<rparr>))))"

definition url_Parse :: "string \<Rightarrow> URL option" where
  "url_Parse rawURL =
     (let (u, frag) = Cut (CHR ''#'') rawURL in
      case parse_url False u of
        None \<Rightarrow> None
      | Some url \<Rightarrow> if frag = [] then Some url else map_option (\<lambda>f. url\<lparr>u_Fragment := f\<rparr>) (unescape encodeFragment frag))"

definition url_ParseRequestURI :: "string \<Rightarrow> URL option" where
  "url_ParseRequestURI = parse_url True"

definition Hostname :: "URL \<Rightarrow> string" where
  "Hostname u =
     (let host = u_Host u;
          host = (case LastIndexByte CHR '':'' host of
                    None \<Rightarrow> host
                  | Some colon \<Rightarrow> if validOptionalPort (drop colon host) then take colon host else host) in
      if HasPrefix host ''['' \<and> HasSuffix host '']'' then butlast (tl host) else host)"

section \<open>Resolving\<close>

text \<open>
  The loop of \<open>resolvePath\<close> over the elements of the path: what is written behind the first
  slash, and whether the next element is the first one.
\<close>

fun resolve_elems :: "string list \<Rightarrow> string \<Rightarrow> bool \<Rightarrow> string" where
  "resolve_elems [] dst first = dst"
| "resolve_elems (elem # es) dst first =
     (if elem = ''.'' then resolve_elems es dst False
      else if elem = ''..'' then
        (case LastIndexByte CHR ''/'' dst of
           None \<Rightarrow> resolve_elems es [] True
         | Some i \<Rightarrow> resolve_elems es (take i dst) first)
      else resolve_elems es (dst @ (if first then [] else ''/'') @ elem) False)"

definition resolvePath :: "string \<Rightarrow> string \<Rightarrow> string" where
  "resolvePath base ref =
     (let full = (if ref = [] then base
                  else if hd ref \<noteq> CHR ''/'' then
                    (case LastIndexByte CHR ''/'' base of None \<Rightarrow> ref | Some i \<Rightarrow> take (i + 1) base @ ref)
                  else ref) in
      if full = [] then []
      else
        (let es = split_at (CHR ''/'') full;
             dst = resolve_elems es [] True;
             r = CHR ''/'' # dst @ (if last es = ''.'' \<or> last es = ''..'' then ''/'' else []) in
         if length r > 1 \<and> r ! 1 = CHR ''/'' then tl r else r))"

text \<open>
  \<open>ResolveReference\<close> for a reference with a path and without a scheme and a host, which is what
  the generated client resolves.
\<close>

definition ResolveReference :: "URL \<Rightarrow> URL \<Rightarrow> URL option" where
  "ResolveReference u ref =
     (if u_Scheme ref \<noteq> [] \<or> u_Host ref \<noteq> [] \<or> u_Path ref = [] then None
      else setPath (resolvePath (EscapedPath u) (EscapedPath ref)) (ref\<lparr>u_Scheme := u_Scheme u, u_Host := u_Host u\<rparr>))"

definition query_suffix :: "URL \<Rightarrow> string" where
  "query_suffix u = (if u_ForceQuery u \<or> u_RawQuery u \<noteq> [] then CHR ''?'' # u_RawQuery u else [])"

text \<open>The text of a URL with a scheme and a host; the bytes of such a host are not escaped.\<close>

definition URL_String :: "URL \<Rightarrow> string" where
  "URL_String u =
     (let path = EscapedPath u in
      u_Scheme u @ ''://'' @ u_Host u @ (if path \<noteq> [] \<and> hd path \<noteq> CHR ''/'' then ''/'' else []) @ path @ query_suffix u @
      (if u_Fragment u = [] then [] else CHR ''#'' # escape encodeFragment (u_Fragment u)))"

definition RequestURI :: "URL \<Rightarrow> string" where
  "RequestURI u = (let path = EscapedPath u in (if path = [] then ''/'' else path) @ query_suffix u)"

section \<open>Query strings\<close>

text \<open>The values of a query, in order. Pairs that do not decode are left out.\<close>

type_synonym values_ = "(string \<times> string) list"

definition query_pair :: "string \<Rightarrow> values_" where
  "query_pair kv =
     (if kv = [] \<or> CHR '';'' \<in> set kv then []
      else
        (let (k, v) = Cut (CHR ''='') kv in
         case (unescape encodeQueryComponent k, unescape encodeQueryComponent v) of
           (Some k, Some v) \<Rightarrow> [(k, v)]
         | _ \<Rightarrow> []))"

definition ParseQuery :: "string \<Rightarrow> values_" where
  "ParseQuery query = concat (map query_pair (split_at (CHR ''&'') query))"

definition joined :: "char \<Rightarrow> string list \<Rightarrow> string" where
  "joined sep ss = (case ss of [] \<Rightarrow> [] | s # rest \<Rightarrow> s @ concat (map ((#) sep) rest))"

definition Values_Encode :: "values_ \<Rightarrow> string" where
  "Values_Encode vs = joined (CHR ''&'') (map (\<lambda>(k, v). QueryEscape k @ ''='' @ QueryEscape v) (sort_key fst vs))"

section \<open>Facts\<close>

lemma hexnum_upperhex: "n < 16 \<Longrightarrow> hexnum (upperhex n) = Some n"
  by (auto simp: hexnum_def upperhex_def is_digit_def digit_def)

lemma shouldEscape_percent [simp]: "shouldEscape mode (CHR ''%'')"
  by (simp add: shouldEscape_def unreserved_def is_letter_def is_digit_def)

lemma shouldEscape_plus [simp]: "shouldEscape encodeQueryComponent (CHR ''+'')"
  by (simp add: shouldEscape_def unreserved_def is_letter_def is_digit_def)

lemma unescape_append: "unescape mode p = Some x \<Longrightarrow> unescape mode (p @ q) = map_option ((@) x) (unescape mode q)"
proof (induction mode p arbitrary: x rule: unescape.induct)
  case (1 mode)
  then show ?case by (simp add: option.map_ident_strong)
next
  case (2 mode c s)
  show ?case
  proof (cases "c = CHR ''%''")
    case True
    then obtain a b r m n y where "s = a # b # r" "hexnum a = Some m" "hexnum b = Some n" "unescape mode r = Some y"
      "x = char_of (16 * m + n) # y"
      using "2.prems" by (auto split: list.splits option.splits)
    then show ?thesis using "2.IH"(1) [OF True] True by (simp add: option.map_comp comp_def)
  next
    case False
    then show ?thesis using "2.prems" "2.IH"(2) [OF False] by (auto simp: option.map_comp comp_def)
  qed
qed

lemma unescape_pct: "unescape mode [CHR ''%'', upperhex (byte c div 16), upperhex (byte c mod 16)] = Some [c]"
proof -
  have "byte c div 16 < 16" using byte_less_256 [of c] by linarith
  moreover have "16 * (byte c div 16) + byte c mod 16 = byte c" by simp
  ultimately show ?thesis by (simp add: hexnum_upperhex del: mult_div_mod_eq)
qed

lemma unescape_char: "unescape mode (escape_char mode c) = Some [c]"
proof (cases "shouldEscape mode c")
  case True
  then show ?thesis by (simp add: escape_char_def unescape_pct del: unescape.simps) simp
next
  case False
  then have "c \<noteq> CHR ''%''" "\<not> (c = CHR ''+'' \<and> mode = encodeQueryComponent)" by auto
  then show ?thesis using False by (simp add: escape_char_def)
qed

lemma unescape_escape: "unescape mode (escape mode s) = Some s"
  by (induction s) (simp_all add: escape_def unescape_append unescape_char)

lemma escape_inject: "escape mode s = escape mode t \<longleftrightarrow> s = t"
  by (metis option.inject unescape_escape)

text \<open>The bytes of an escaped path segment, and of an escaped query.\<close>

definition seg_char :: "char \<Rightarrow> bool" where
  "seg_char c \<longleftrightarrow> unreserved c \<or> c \<in> set ''$&+:=@%''"

definition query_char :: "char \<Rightarrow> bool" where
  "query_char c \<longleftrightarrow> unreserved c \<or> c \<in> set ''%+=&''"

lemma unreserved_upperhex: "n < 16 \<Longrightarrow> unreserved (upperhex n)"
  by (auto simp: unreserved_def upperhex_def is_letter_def)

lemma escape_char_cases:
  "unreserved c \<and> escape_char mode c = [c] \<or> \<not> shouldEscape mode c \<and> escape_char mode c = [c] \<and> \<not> unreserved c \<or>
   escape_char mode c = ''+'' \<and> mode = encodeQueryComponent \<or>
   (\<exists>a b. unreserved a \<and> unreserved b \<and> escape_char mode c = [CHR ''%'', a, b])"
  using unreserved_upperhex [of "byte c div 16"] unreserved_upperhex [of "byte c mod 16"] byte_less_256 [of c]
  by (auto simp: escape_char_def shouldEscape_def less_mult_imp_div_less)

lemma not_escaped_segment: "\<not> shouldEscape encodePathSegment c \<Longrightarrow> seg_char c"
  by (auto simp: shouldEscape_def seg_char_def simp del: set_simps split: if_splits) (simp, blast)

lemma escaped_query: "\<not> unreserved c \<Longrightarrow> shouldEscape encodeQueryComponent c"
  by (simp add: shouldEscape_def)

lemma seg_char_valid: "seg_char c \<or> c = CHR ''/'' \<Longrightarrow> c \<in> set ''!$&()*+,;=:@[]%'' \<or> c = CHR 0x27 \<or> \<not> shouldEscape encodePath c"
  unfolding seg_char_def set_simps insert_iff empty_iff by (elim disjE) (simp_all add: shouldEscape_def)

lemma PathEscape_chars: "list_all seg_char (PathEscape s)"
proof (induction s)
  case (Cons c s)
  have "list_all seg_char (escape_char encodePathSegment c)"
    using escape_char_cases [of c encodePathSegment] not_escaped_segment [of c] by (auto simp: seg_char_def)
  then show ?case using Cons by (simp add: PathEscape_def escape_def)
qed (simp add: PathEscape_def escape_def)

lemma QueryEscape_chars: "list_all (\<lambda>c. unreserved c \<or> c = CHR ''%'' \<or> c = CHR ''+'') (QueryEscape s)"
proof (induction s)
  case (Cons c s)
  have "list_all (\<lambda>c. unreserved c \<or> c = CHR ''%'' \<or> c = CHR ''+'') (escape_char encodeQueryComponent c)"
    using escape_char_cases [of c encodeQueryComponent] escaped_query [of c] by auto
  then show ?case using Cons by (simp add: QueryEscape_def escape_def)
qed (simp add: QueryEscape_def escape_def)

lemma unreserved_byte: "unreserved c \<Longrightarrow> 0x20 < byte c \<and> byte c < 0x7F"
  by (auto simp: unreserved_def is_letter_def is_digit_def)

lemma unreserved_not: "unreserved c \<Longrightarrow> c \<notin> set ''/?#:&=;%+@$,''"
  by (auto simp: unreserved_def is_letter_def is_digit_def)

lemma seg_char_byte: "seg_char c \<Longrightarrow> 0x20 < byte c \<and> byte c < 0x7F"
  using unreserved_byte by (auto simp: seg_char_def)

lemma seg_char_not: "seg_char c \<Longrightarrow> c \<notin> set ''/?#''"
  using unreserved_not by (auto simp: seg_char_def)

lemma query_char_byte: "query_char c \<Longrightarrow> 0x20 < byte c \<and> byte c < 0x7F"
  using unreserved_byte by (auto simp: query_char_def)

lemma query_char_not: "query_char c \<Longrightarrow> c \<notin> set ''/?#''"
  using unreserved_not by (auto simp: query_char_def)

lemma PathEscape_id: "list_all unreserved s \<Longrightarrow> PathEscape s = s"
  by (induction s) (auto simp: PathEscape_def escape_def escape_char_def shouldEscape_def)

lemma PathEscape_empty [simp]: "PathEscape s = [] \<longleftrightarrow> s = []"
  using escape_inject [of encodePathSegment s "[]"] by (simp add: PathEscape_def escape_def)

lemma unescape_segment: "unescape encodePath s = unescape encodePathSegment s"
  by (induction "encodePath" s rule: unescape.induct) (auto split: list.split option.split)

subsection \<open>Paths made of segments\<close>

primrec slashed :: "string list \<Rightarrow> string" where
  "slashed [] = []"
| "slashed (s # segs) = CHR ''/'' # s @ slashed segs"

lemma split_slashed:
  assumes "list_all (\<lambda>s. CHR ''/'' \<notin> set s) segs" and "CHR ''/'' \<notin> set a"
  shows "split_at (CHR ''/'') (a @ slashed segs) = a # segs"
  using assms
proof (induction segs arbitrary: a)
  case Nil
  then show ?case by (induction a) auto
next
  case (Cons s segs)
  have "split_at (CHR ''/'') (CHR ''/'' # s @ slashed segs) = [] # s # segs" using Cons by simp
  then show ?case using Cons.prems(2) by (induction a) auto
qed

lemma unescape_slashed: "unescape encodePath (slashed (map PathEscape xs)) = Some (slashed xs)"
proof (induction xs)
  case (Cons x xs)
  have "unescape encodePath (PathEscape x @ slashed (map PathEscape xs)) = Some (x @ slashed xs)"
    using unescape_append [of encodePath "PathEscape x" x "slashed (map PathEscape xs)"] Cons unescape_escape [of encodePathSegment x]
    by (simp add: unescape_segment PathEscape_def)
  then show ?case by simp
qed simp

lemma slashed_chars: "list_all (\<lambda>c. seg_char c \<or> c = CHR ''/'') (slashed (map PathEscape xs))"
  using PathEscape_chars by (induction xs) (auto simp: list_all_iff)

lemma slashed_valid: "validEncodedPath (slashed (map PathEscape xs))"
  unfolding validEncodedPath_def by (rule list.pred_mono_strong [OF slashed_chars seg_char_valid])

text \<open>The URL of a path that is given by its segments.\<close>

definition path_url :: "string \<Rightarrow> string \<Rightarrow> string list \<Rightarrow> string \<Rightarrow> URL" where
  "path_url scheme host xs q =
     \<lparr>u_Scheme = scheme, u_Host = host, u_Path = slashed xs,
      u_RawPath = (let p = slashed (map PathEscape xs) in if p = escape encodePath (slashed xs) then [] else p),
      u_ForceQuery = False, u_RawQuery = q, u_Fragment = []\<rparr>"

lemma setPath_slashed:
  "setPath (slashed (map PathEscape xs)) u =
     Some (u\<lparr>u_Path := slashed xs, u_RawPath := u_RawPath (path_url [] [] xs [])\<rparr>)"
  by (simp add: setPath_def unescape_slashed path_url_def Let_def)

lemma EscapedPath_path_url [simp]:
  assumes "xs \<noteq> []" shows "EscapedPath (path_url scheme host xs q) = slashed (map PathEscape xs)"
proof -
  obtain y ys where "xs = y # ys" using assms by (cases xs) auto
  then have "slashed xs \<noteq> ''*''" "slashed (map PathEscape xs) \<noteq> []" by auto
  then show ?thesis by (simp add: EscapedPath_def path_url_def Let_def slashed_valid unescape_slashed)
qed

subsection \<open>Resolving such a path\<close>

lemma PathEscape_dots: "PathEscape x = ''.'' \<longleftrightarrow> x = ''.''" "PathEscape x = ''..'' \<longleftrightarrow> x = ''..''"
proof -
  have "PathEscape ''.'' = ''.''" "PathEscape ''..'' = ''..''" by (simp_all add: PathEscape_id unreserved_def)
  then show "PathEscape x = ''.'' \<longleftrightarrow> x = ''.''" "PathEscape x = ''..'' \<longleftrightarrow> x = ''..''"
    by (metis PathEscape_def escape_inject)+
qed

text \<open>Segments that a path keeps when it is resolved.\<close>

definition solid :: "string list \<Rightarrow> bool" where
  "solid xs \<longleftrightarrow> xs \<noteq> [] \<and> list_all (\<lambda>x. x \<noteq> [] \<and> x \<noteq> ''.'' \<and> x \<noteq> ''..'') xs"

lemma solid_escaped: "solid xs \<Longrightarrow> solid (map PathEscape xs)"
  by (auto simp: solid_def list_all_iff PathEscape_dots)

lemma resolve_elems_solid:
  "list_all (\<lambda>x. x \<noteq> ''.'' \<and> x \<noteq> ''..'') es \<Longrightarrow> resolve_elems es dst False = dst @ slashed es"
  by (induction es arbitrary: dst) auto

lemma split_escaped: "split_at (CHR ''/'') (CHR ''.'' # slashed (map PathEscape xs)) = ''.'' # map PathEscape xs"
proof -
  have "CHR ''/'' \<notin> set (PathEscape x)" for x using PathEscape_chars [of x] seg_char_not by (auto simp: list_all_iff)
  then show ?thesis using split_slashed [of "map PathEscape xs" "''.''"] by (simp add: list_all_iff)
qed

lemma LastIndexByte_single: "LastIndexByte c [c] = Some 0"
  by (simp add: LastIndexByte_def)

lemma resolvePath_slashed:
  assumes "solid xs"
  shows "resolvePath ''/'' (CHR ''.'' # slashed (map PathEscape xs)) = slashed (map PathEscape xs)"
proof -
  have s: "list_all (\<lambda>x. x \<noteq> ''.'' \<and> x \<noteq> ''..'') (map PathEscape xs)"
    using assms by (auto simp: solid_def list_all_iff PathEscape_dots)
  obtain y ys where xs: "xs = y # ys" using assms by (cases xs) (auto simp: solid_def)
  have l: "last (map PathEscape xs) \<noteq> ''.'' \<and> last (map PathEscape xs) \<noteq> ''..''"
    using s last_in_set [of "map PathEscape xs"] xs unfolding list_all_iff by blast
  let ?full = "CHR ''/'' # CHR ''.'' # slashed (map PathEscape xs)"
  have "split_at (CHR ''/'') ?full = [] # ''.'' # map PathEscape xs"
    using split_escaped [of xs] by simp
  moreover have "resolve_elems ([] # ''.'' # map PathEscape xs) [] True = slashed (map PathEscape xs)"
    by (simp add: resolve_elems_solid [OF s])
  ultimately show ?thesis using l xs
    by (simp add: resolvePath_def LastIndexByte_single Let_def del: split_at.simps resolve_elems.simps)
qed

subsection \<open>Parsing such a URL\<close>

lemma until_stop:
  "c \<notin> set s \<Longrightarrow> takeWhile (\<lambda>x. x \<noteq> c) (s @ c # t) = s" "c \<notin> set s \<Longrightarrow> dropWhile (\<lambda>x. x \<noteq> c) (s @ c # t) = c # t"
  "c \<notin> set s \<Longrightarrow> takeWhile (\<lambda>x. x \<noteq> c) s = s" "c \<notin> set s \<Longrightarrow> dropWhile (\<lambda>x. x \<noteq> c) s = []"
  by (induction s) auto

lemma Cut_simps: "c \<notin> set s \<Longrightarrow> Cut c s = (s, [])" "c \<notin> set s \<Longrightarrow> Cut c (s @ c # t) = (s, t)"
  by (simp_all add: Cut_def until_stop)

lemma no_ctl: "list_all (\<lambda>c. 0x20 < byte c \<and> byte c < 0x7F) s \<Longrightarrow> \<not> stringContainsCTLByte s"
  by (auto simp: stringContainsCTLByte_def list_all_iff list_ex_iff)

lemma slashed_print: "list_all (\<lambda>c. 0x20 < byte c \<and> byte c < 0x7F) (slashed (map PathEscape xs))"
  using slashed_chars by (rule list.pred_mono_strong) (auto dest: seg_char_byte)

lemma slashed_not: "CHR ''?'' \<notin> set (slashed (map PathEscape xs))" "CHR ''#'' \<notin> set (slashed (map PathEscape xs))"
  using slashed_chars [of xs] seg_char_not by (auto simp: list_all_iff)

lemma HasPrefix_Cons: "HasPrefix (c # s) (d # p) \<longleftrightarrow> c = d \<and> HasPrefix s p" "HasPrefix s []"
  by (simp_all add: HasPrefix_def)

text \<open>A host that stands for itself: printable, without the bytes that end it.\<close>

definition plain_host :: "string \<Rightarrow> bool" where
  "plain_host h \<longleftrightarrow> h \<noteq> [] \<and> list_all (\<lambda>c. 0x20 < byte c \<and> byte c < 0x7F \<and> c \<notin> set ''/?#'') h \<and> parseHost h = Some h \<and>
     \<not> HasSuffix h '':''"

lemma getScheme_http: "getScheme raw [] (''http://'' @ s) = Some (''http'', ''//'' @ s)"
  by (simp add: is_letter_def is_digit_def)

definition query_part :: "string \<Rightarrow> string" where
  "query_part q = (if q = [] then [] else CHR ''?'' # q)"

lemma query_part_chars:
  assumes "list_all query_char q"
  shows "list_all (\<lambda>c. 0x20 < byte c \<and> byte c < 0x7F) (query_part q)" "CHR ''#'' \<notin> set (query_part q)"
  using assms query_char_byte query_char_not by (auto simp: list_all_iff query_part_def)

lemma query_part_split:
  assumes "CHR ''?'' \<notin> set p" and "list_all query_char q"
  shows "\<not> HasSuffix (p @ query_part q) ''?''" "Cut (CHR ''?'') (p @ query_part q) = (p, q)"
proof -
  have "CHR ''?'' \<notin> set q" using assms(2) query_char_not by (auto simp: list_all_iff)
  then have "last (p @ query_part q) \<noteq> CHR ''?'' \<or> p @ query_part q = []"
    using assms(1) by (cases "q = []"; cases "p = []") (auto simp: query_part_def dest: last_in_set)
  then show "\<not> HasSuffix (p @ query_part q) ''?''" by (metis HasSuffix_iff append_is_Nil_conv last_snoc list.distinct(1))
  show "Cut (CHR ''?'') (p @ query_part q) = (p, q)" using assms(1) by (simp add: query_part_def Cut_simps)
qed

lemma path_url_query: "query_suffix (path_url scheme host xs q) = query_part q"
  by (simp add: query_suffix_def path_url_def query_part_def)

lemma parse_http:
  assumes "plain_host host" and "xs \<noteq> []" and "list_all query_char q"
  shows "url_Parse (URL_String (path_url ''http'' host xs q)) = Some (path_url ''http'' host xs q)"
proof -
  let ?p = "slashed (map PathEscape xs)"
  obtain p' where p: "?p = CHR ''/'' # p'" using assms(2) by (cases xs) auto
  let ?rest = "''//'' @ host @ ?p"
  let ?raw = "''http://'' @ host @ ?p @ query_part q"
  have raw: "URL_String (path_url ''http'' host xs q) = ?raw"
    using assms(2) by (simp add: URL_String_def path_url_query Let_def p) (simp add: path_url_def)
  have h: "list_all (\<lambda>c. 0x20 < byte c \<and> byte c < 0x7F) host" "CHR ''#'' \<notin> set host" "CHR ''?'' \<notin> set host" "CHR ''/'' \<notin> set host"
    "parseHost host = Some host"
    using assms(1) by (auto simp: plain_host_def list_all_iff)
  have ctl: "\<not> stringContainsCTLByte ?raw" using query_part_chars [OF assms(3)] h(1) slashed_print [of xs] by (intro no_ctl) simp
  have cut: "Cut (CHR ''#'') ?raw = (?raw, [])" using query_part_chars [OF assms(3)] h(2) slashed_not [of xs] by (intro Cut_simps) simp
  have sp: "\<not> HasSuffix (?rest @ query_part q) ''?''" "Cut (CHR ''?'') (?rest @ query_part q) = (?rest, q)"
    using query_part_split [OF _ assms(3), of ?rest] h(3) slashed_not [of xs] by simp_all
  have "parse_rest False ?rest (zero_URL\<lparr>u_Scheme := ''http'', u_RawQuery := q\<rparr>) = Some (path_url ''http'' host xs q)"
    using h(4,5) setPath_slashed [of xs]
    by (simp add: parse_rest_def HasPrefix_Cons p until_stop) (simp add: zero_URL_def path_url_def)
  moreover have "ToLower ''http'' = ''http''" by code_simp
  ultimately have "parse_url False ?raw = Some (path_url ''http'' host xs q)"
    using ctl sp getScheme_http [of ?raw "host @ ?p @ query_part q"] by (simp add: parse_url_def Let_def)
  then show ?thesis using cut by (simp add: url_Parse_def raw del: append.simps)
qed

lemma parse_request:
  assumes "xs \<noteq> []" and "list_all query_char q"
  shows "url_ParseRequestURI (RequestURI (path_url scheme host xs q)) = Some (path_url [] [] xs q)"
proof -
  let ?p = "slashed (map PathEscape xs)"
  obtain p' where p: "?p = CHR ''/'' # p'" using assms(1) by (cases xs) auto
  have raw: "RequestURI (path_url scheme host xs q) = ?p @ query_part q"
    using assms(1) by (simp add: RequestURI_def path_url_query Let_def p)
  have ctl: "\<not> stringContainsCTLByte (?p @ query_part q)"
    using query_part_chars [OF assms(2)] slashed_print [of xs] by (intro no_ctl) simp
  have sp: "\<not> HasSuffix (?p @ query_part q) ''?''" "Cut (CHR ''?'') (?p @ query_part q) = (?p, q)"
    using query_part_split [OF _ assms(2), of ?p] slashed_not [of xs] by simp_all
  have "parse_rest True ?p (zero_URL\<lparr>u_RawQuery := q\<rparr>) = Some (path_url [] [] xs q)"
    using setPath_slashed [of xs] by (simp add: parse_rest_def HasPrefix_Cons p) (simp add: zero_URL_def path_url_def)
  moreover have "getScheme (?p @ query_part q) [] (?p @ query_part q) = Some ([], ?p @ query_part q)"
    by (simp add: p is_letter_def is_digit_def)
  moreover have "zero_URL\<lparr>u_Scheme := []\<rparr> = zero_URL" by (simp add: zero_URL_def)
  ultimately have "parse_url True (?p @ query_part q) = Some (path_url [] [] xs q)"
    using ctl sp by (simp add: parse_url_def Let_def p)
  then show ?thesis by (simp add: url_ParseRequestURI_def raw)
qed

text \<open>The reference that the generated client resolves against the server's URL.\<close>

definition dot_url :: "string list \<Rightarrow> URL" where
  "dot_url xs =
     (let p = CHR ''.'' # slashed (map PathEscape xs); path = CHR ''.'' # slashed xs in
      zero_URL\<lparr>u_Path := path, u_RawPath := (if p = escape encodePath path then [] else p)\<rparr>)"

lemma parse_relative:
  assumes "xs \<noteq> []" shows "url_Parse (CHR ''.'' # slashed (map PathEscape xs)) = Some (dot_url xs)"
proof -
  let ?p = "CHR ''.'' # slashed (map PathEscape xs)"
  obtain p' where p: "slashed (map PathEscape xs) = CHR ''/'' # p'" using assms by (cases xs) auto
  have cut: "Cut (CHR ''#'') ?p = (?p, [])" "Cut (CHR ''?'') ?p = (?p, [])" using slashed_not [of xs] by (intro Cut_simps; simp)+
  have ctl: "\<not> stringContainsCTLByte ?p" using slashed_print [of xs] by (intro no_ctl) simp
  have suf: "\<not> HasSuffix ?p ''?''" using slashed_not [of xs] query_part_split(1) [of ?p "[]"] by (simp add: query_part_def)
  have seg: "fst (Cut (CHR ''/'') ?p) = ''.''" by (simp add: p Cut_def)
  have "parse_rest False ?p zero_URL = Some (dot_url xs)"
    using unescape_slashed [of xs] seg
    by (simp add: parse_rest_def HasPrefix_Cons setPath_def dot_url_def Let_def) (simp add: zero_URL_def)
  moreover have "getScheme ?p [] ?p = Some ([], ?p)" by (simp add: is_letter_def is_digit_def)
  moreover have "zero_URL\<lparr>u_Scheme := []\<rparr> = zero_URL" "zero_URL\<lparr>u_RawQuery := []\<rparr> = zero_URL" by (simp_all add: zero_URL_def)
  ultimately have "parse_url False ?p = Some (dot_url xs)"
    using ctl suf cut by (simp add: parse_url_def Let_def p)
  then show ?thesis using cut by (simp add: url_Parse_def)
qed

lemma resolve_operation:
  assumes "plain_host host" and "solid xs"
  shows "url_Parse (''http://'' @ host @ ''/'') = Some (path_url ''http'' host [[]] [])"
    "ResolveReference (path_url ''http'' host [[]] []) (dot_url xs) = Some (path_url ''http'' host xs [])"
proof -
  have "URL_String (path_url ''http'' host [[]] []) = ''http://'' @ host @ ''/''"
    by (simp add: URL_String_def path_url_query Let_def query_part_def PathEscape_def escape_def) (simp add: path_url_def)
  then show "url_Parse (''http://'' @ host @ ''/'') = Some (path_url ''http'' host [[]] [])"
    using parse_http [OF assms(1), of "[[]]" "[]"] by simp
  have xs: "xs \<noteq> []" using assms(2) by (simp add: solid_def)
  have "validEncodedPath (CHR ''.'' # slashed (map PathEscape xs))"
    using slashed_valid [of xs] by (simp add: validEncodedPath_def shouldEscape_def unreserved_def)
  moreover have "CHR ''.'' # slashed xs \<noteq> ''*''" by simp
  ultimately have a: "EscapedPath (dot_url xs) = CHR ''.'' # slashed (map PathEscape xs)"
    using unescape_slashed [of xs] by (simp add: EscapedPath_def dot_url_def Let_def zero_URL_def)
  have b: "EscapedPath (path_url ''http'' host [[]] []) = ''/''" by (simp add: PathEscape_def escape_def)
  show "ResolveReference (path_url ''http'' host [[]] []) (dot_url xs) = Some (path_url ''http'' host xs [])"
    unfolding ResolveReference_def a b resolvePath_slashed [OF assms(2)] setPath_slashed
    by (simp add: dot_url_def zero_URL_def path_url_def Let_def)
qed

end
