(* ===== verification/Podman.thy ===== *)
theory Podman
  imports InstanceController ConsoleProtocol NetUrl
begin

text \<open>
  \<open>internal/compute/podman\<close>: the client of the container engine. Every call is an HTTP request
  over the engine's private socket; a container is touched only after it was inspected and
  found to be one of the program's own. The engine, the HTTP transport and the connections are
  parameters.
\<close>

section \<open>client.go\<close>

definition apiPath :: string where
  "apiPath = ''/v5.4.2/libpod''"

text \<open>
  What the client uses of \<open>net/http\<close> and \<open>net\<close>. \<open>pd_Do method url body\<close> gives the status of the
  answer and its body, with the error that ends it (\<open>ErrEOF\<close> at the end); the client's
  \<open>CheckRedirect\<close> makes every redirect an error of \<open>Do\<close>. The connection of a console is dialed
  apart from the client's pool.
\<close>

record 'x podman =
  pd_socket :: string
  pd_NewRequest :: "string \<Rightarrow> string \<Rightarrow> goerr option"
  pd_Do :: "string \<Rightarrow> string \<Rightarrow> string \<Rightarrow> ('x, int \<times> string \<times> goerr) eff"
  pd_DialContext :: "string \<Rightarrow> ('x, unit) eff"
  pd_SetDeadline :: "('x, unit) eff"
  pd_Write :: "string \<Rightarrow> string \<Rightarrow> ('x, unit) eff"
  pd_ReadResponse :: "('x, int \<times> string) eff"
  pd_Close :: "'x \<Rightarrow> 'x"
  pd_UnixConn :: bool

definition podman_dial :: "'x podman \<Rightarrow> ('x, unit) eff" where
  "podman_dial c =
     eff_bind (eff_guard (HasPrefix (pd_socket c) ''/'' \<and> \<not> has_substring (pd_socket c) ''://'')
                 (Errorf ''podman requires an absolute Unix socket path'')) (\<lambda>_.
     eff_wrap ''dial private Podman socket'' (pd_DialContext c (pd_socket c)))"

text \<open>\<open>errors.As\<close> with an \<open>*APIError\<close> target: the first one in the chain.\<close>

fun as_api_status :: "goerr \<Rightarrow> int option" where
  "as_api_status (APIError status method path detail) = Some status"
| "as_api_status (Wrapf m e) = as_api_status e"
| "as_api_status (Wrap2 m e e') = (case as_api_status e of Some s \<Rightarrow> Some s | None \<Rightarrow> as_api_status e')"
| "as_api_status e = None"

definition isStatus :: "goerr \<Rightarrow> int \<Rightarrow> bool" where
  "isStatus e status \<longleftrightarrow> as_api_status e = Some status"

text \<open>
  \<open>out\<close> decodes the answer, or ignores it. The bodies that the client sends always encode.
\<close>

definition podman_url :: "string \<Rightarrow> string" where
  "podman_url path = ''http://podman'' @ apiPath @ path"

definition podman_request ::
  "'x podman \<Rightarrow> string \<Rightarrow> string \<Rightarrow> json option \<Rightarrow> (string \<Rightarrow> string \<times> goerr \<Rightarrow> 'a res) \<Rightarrow> ('x, 'a) eff" where
  "podman_request c method path body out =
     (let raw = (case body of None \<Rightarrow> [] | Some j \<Rightarrow> marshal j) in
      case pd_NewRequest c method (podman_url path) of
        Some e \<Rightarrow> eff_res (Inl e)
      | None \<Rightarrow>
          eff_bind (eff_wrap (''podman '' @ method @ '' '' @ path) (pd_Do c method (podman_url path) raw)) (\<lambda>(status, text, ending).
          if status < 200 \<or> status \<ge> 300 \<and> status \<noteq> 304
          then eff_res (Inl (APIError status method path (TrimSpace (take 4096 text))))
          else eff_res (out path (text, ending))))"

definition no_out :: "string \<Rightarrow> string \<times> goerr \<Rightarrow> unit res" where
  "no_out path body = Inr ()"

definition decode_into :: "'a fields \<Rightarrow> 'a \<Rightarrow> string \<Rightarrow> string \<times> goerr \<Rightarrow> 'a res" where
  "decode_into fs zero path body =
     (let limit = 2 ^ 20;
          eof = (length (fst body) \<ge> limit \<or> snd body = ErrEOF) in
      case decode_one eof (take limit (fst body)) of
        None \<Rightarrow> Inl (Wrapf (''decode Podman '' @ path) (Errorf ''json''))
      | Some (j, rest) \<Rightarrow>
          (case set_struct fs j zero of
             None \<Rightarrow> Inl (Wrapf (''decode Podman '' @ path) (Errorf ''json''))
           | Some x \<Rightarrow> Inr x))"

section \<open>instance.go\<close>

definition podman_image :: string where
  "podman_image = ''nephos-ubuntu:dev''"

definition instanceLabel :: string where
  "instanceLabel = ''io.nephos.instance-id''"

definition instanceIDPattern :: "string \<Rightarrow> bool" where
  "instanceIDPattern s = (case CutPrefix s ''i-'' of None \<Rightarrow> False | Some r \<Rightarrow> length r = 17 \<and> list_all is_lower_hex r)"

definition runtimeIDPattern :: "string \<Rightarrow> bool" where
  "runtimeIDPattern s \<longleftrightarrow> length s = 64 \<and> list_all is_lower_hex s"

record containerInspect =
  ci_ID :: string
  ci_Name :: string
  ci_Labels :: "(string \<times> string) list"
  ci_Annotations :: "(string \<times> string) list"
  ci_Running :: bool

definition zero_inspect :: containerInspect where
  "zero_inspect = \<lparr>ci_ID = [], ci_Name = [], ci_Labels = [], ci_Annotations = [], ci_Running = False\<rparr>"

definition set_bool :: "(bool \<Rightarrow> 'a \<Rightarrow> 'a) \<Rightarrow> json \<Rightarrow> 'a \<Rightarrow> 'a option" where
  "set_bool f j x = (case j of JNull \<Rightarrow> Some x | JBool b \<Rightarrow> Some (f b x) | _ \<Rightarrow> None)"

definition inspect_fields :: "containerInspect fields" where
  "inspect_fields =
     [(''Id'', set_str (\<lambda>s x. x\<lparr>ci_ID := s\<rparr>)), (''Name'', set_str (\<lambda>s x. x\<lparr>ci_Name := s\<rparr>)),
      (''Config'', set_struct
         [(''Labels'', (\<lambda>j x. map_option (\<lambda>m. x\<lparr>ci_Labels := m\<rparr>) (set_map j (ci_Labels x)))),
          (''Annotations'', (\<lambda>j x. map_option (\<lambda>m. x\<lparr>ci_Annotations := m\<rparr>) (set_map j (ci_Annotations x))))]),
      (''State'', set_struct [(''Running'', set_bool (\<lambda>b x. x\<lparr>ci_Running := b\<rparr>))])]"

definition podman_owned :: "containerInspect \<Rightarrow> unit res" where
  "podman_owned doc =
     res_guard (instanceIDPattern (ci_Name doc) \<and> runtimeIDPattern (ci_ID doc) \<and>
         map_get ''io.nephos.managed'' (ci_Labels doc) = ''true'' \<and>
         map_get ''io.nephos.workspace-id'' (ci_Labels doc) = ''default'' \<and>
         map_get instanceLabel (ci_Labels doc) = ci_Name doc \<and> map_get instanceLabel (ci_Annotations doc) = ci_Name doc)
       (Errorf (''refusing foreign Podman container '' @ Quote (ci_Name doc)))"

definition inspectOwned :: "'x podman \<Rightarrow> string \<Rightarrow> ('x, containerInspect) eff" where
  "inspectOwned c rid =
     eff_bind (eff_guard (runtimeIDPattern rid) (Errorf ''invalid runtime ID'')) (\<lambda>_.
     eff_bind (podman_request c ''GET'' (''/containers/'' @ rid @ ''/json'') None (decode_into inspect_fields zero_inspect)) (\<lambda>doc.
     eff_bind (eff_res (podman_owned doc)) (\<lambda>_.
     eff_bind (eff_guard (ci_ID doc = rid) (Errorf ''runtime identity changed'')) (\<lambda>_.
     eff_return doc))))"

definition EnsureImage :: "'x podman \<Rightarrow> string \<Rightarrow> ('x, unit) eff" where
  "EnsureImage c ref =
     eff_bind (eff_guard (ref = podman_image) (Errorf (''unsupported M1 image '' @ Quote ref))) (\<lambda>_.
     eff_wrap ''development AMI must be built and imported locally''
       (podman_request c ''GET'' (''/images/'' @ PathEscape ref @ ''/exists'') None no_out))"

definition podman_discover :: "'x podman \<Rightarrow> string \<Rightarrow> ('x, string) eff" where
  "podman_discover c name =
     eff_bind (podman_request c ''GET'' (''/containers/'' @ name @ ''/json'') None (decode_into inspect_fields zero_inspect)) (\<lambda>doc.
     eff_bind (eff_res (podman_owned doc)) (\<lambda>_.
     eff_bind (eff_guard (ci_Name doc = name) (Errorf ''foreign container name collision'')) (\<lambda>_.
     eff_return (ci_ID doc))))"

text \<open>The specification of a container; encoding a map puts its keys in order.\<close>

definition container_spec :: "Instance \<Rightarrow> json" where
  "container_spec inst = JObj
     [(''annotations'', JObj [(instanceLabel, JStr (inst_ID inst))]),
      (''cap_add'', JArr [JStr ''NET_ADMIN'']),
      (''idmappings'', JObj [(''AutoUserNs'', JBool True), (''AutoUserNsOpts'', JObj [(''Size'', jint 65536)]),
         (''HostGIDMapping'', JBool False), (''HostUIDMapping'', JBool False)]),
      (''image'', JStr podman_image),
      (''labels'', JObj [(instanceLabel, JStr (inst_ID inst)), (''io.nephos.managed'', JStr ''true''),
         (''io.nephos.workspace-id'', JStr ''default'')]),
      (''name'', JStr (inst_ID inst)),
      (''netns'', JObj [(''nsmode'', JStr ''none'')]),
      (''privileged'', JBool False),
      (''resource_limits'', JObj [(''cpu'', JObj [(''period'', jint 100000), (''quota'', jint 200000)]),
         (''memory'', JObj [(''limit'', jint (2 ^ 30))]), (''pids'', JObj [(''limit'', jint 512)])]),
      (''seccomp_policy'', JStr ''default''),
      (''sysctl'', JObj [(''net.ipv4.ping_group_range'', JStr ''0 65535'')]),
      (''systemd'', JStr ''always''),
      (''userns'', JObj [(''nsmode'', JStr ''auto''), (''value'', JStr ''size=65536'')])]"

definition created_fields :: "string fields" where
  "created_fields = [(''Id'', set_str (\<lambda>s x. s))]"

definition podman_Create :: "'x podman \<Rightarrow> Instance \<Rightarrow> ('x, string) eff" where
  "podman_Create c inst =
     eff_bind (eff_guard (instanceIDPattern (inst_ID inst) \<and> inst_WorkspaceID inst = ''default'' \<and> inst_InstanceType inst = ''t3.micro'')
                 (Errorf ''invalid M1 instance runtime request'')) (\<lambda>_.
     eff_bind (eff_try (podman_discover c (inst_ID inst))) (\<lambda>found.
     case found of
       Inr rid \<Rightarrow> eff_return rid
     | Inl e \<Rightarrow>
         if \<not> isStatus e 404 then eff_res (Inl e)
         else
           eff_bind (eff_try (podman_request c ''POST'' ''/containers/create'' (Some (container_spec inst)) (decode_into created_fields []))) (\<lambda>made.
           case made of
             Inl e \<Rightarrow> if isStatus e 409 then podman_discover c (inst_ID inst) else eff_res (Inl e)
           | Inr rid \<Rightarrow>
               eff_bind (eff_guard (runtimeIDPattern rid) (Errorf ''podman returned an invalid container ID'')) (\<lambda>_.
               eff_return rid))))"

definition podman_Start :: "'x podman \<Rightarrow> string \<Rightarrow> ('x, unit) eff" where
  "podman_Start c rid =
     eff_bind (inspectOwned c rid) (\<lambda>_. podman_request c ''POST'' (''/containers/'' @ rid @ ''/start'') None no_out)"

text \<open>An error that tells that there is no such container counts as success.\<close>

definition gone_ok :: "('x, unit) eff \<Rightarrow> ('x, unit) eff" where
  "gone_ok m = eff_bind (eff_try m) (\<lambda>r. case r of Inl e \<Rightarrow> if isStatus e 404 then eff_return () else eff_res (Inl e) | Inr u \<Rightarrow> eff_return u)"

definition podman_Delete :: "'x podman \<Rightarrow> string \<Rightarrow> ('x, unit) eff" where
  "podman_Delete c rid =
     eff_bind (eff_try (inspectOwned c rid)) (\<lambda>r.
     case r of
       Inl e \<Rightarrow> if isStatus e 404 then eff_return () else eff_res (Inl e)
     | Inr doc \<Rightarrow> gone_ok (podman_request c ''DELETE'' (''/containers/'' @ rid @ ''?force=true&v=true&timeout=0'') None no_out))"

definition podman_Inspect :: "'x podman \<Rightarrow> string \<Rightarrow> ('x, bool) eff" where
  "podman_Inspect c rid = eff_bind (inspectOwned c rid) (\<lambda>doc. eff_return (ci_Running doc))"

text \<open>The client as the runtime of the instance controller.\<close>

definition podman_runtime :: "'x podman \<Rightarrow> 'x Runtime" where
  "podman_runtime c = \<lparr>rt_EnsureImage = EnsureImage c, rt_Create = podman_Create c, rt_Start = (\<lambda>d. podman_Start c),
     rt_Delete = podman_Delete c, rt_Inspect = podman_Inspect c\<rparr>"

section \<open>exec.go: opening a session\<close>

record ExecRequest =
  xr_Command :: "string list"
  xr_TTY :: bool
  xr_Rows :: nat
  xr_Cols :: nat

definition validateExec :: "ExecRequest \<Rightarrow> unit res" where
  "validateExec req =
     res_bind (res_guard (xr_Command req \<noteq> [] \<and> hd (xr_Command req) \<noteq> []) (Errorf ''exec requires a nonempty command'')) (\<lambda>_.
     res_bind (res_guard (list_all (\<lambda>arg. CHR 0x00 \<notin> set arg) (xr_Command req)) (Errorf ''exec arguments cannot contain NUL'')) (\<lambda>_.
     res_bind (res_guard (\<not> (xr_TTY req \<and> (xr_Rows req = 0 \<or> xr_Cols req = 0))) (Errorf ''TTY requires nonzero dimensions'')) (\<lambda>_.
     res_guard (\<not> (\<not> xr_TTY req \<and> (xr_Rows req \<noteq> 0 \<or> xr_Cols req \<noteq> 0))) (Errorf ''non-TTY exec cannot have dimensions''))))"

definition exec_config :: "ExecRequest \<Rightarrow> json" where
  "exec_config req = JObj
     [(''Cmd'', JArr (map JStr (xr_Command req))), (''Tty'', JBool (xr_TTY req)), (''AttachStdin'', JBool True),
      (''AttachStdout'', JBool True), (''AttachStderr'', JBool True)]"

definition start_config :: "ExecRequest \<Rightarrow> json" where
  "start_config req = JObj
     [(''Detach'', JBool False), (''Tty'', JBool (xr_TTY req)), (''Height'', jint (int (xr_Rows req))), (''Width'', jint (int (xr_Cols req)))]"

definition removeExec :: "'x podman \<Rightarrow> string \<Rightarrow> ('x, unit) eff" where
  "removeExec c i = gone_ok (podman_request c ''POST'' (''/exec/'' @ i @ ''/remove'') (Some (JObj [(''Force'', JBool True)])) no_out)"

text \<open>A deferred clean-up that runs when the body fails.\<close>

definition on_error :: "('x, 'a) eff \<Rightarrow> ('x \<Rightarrow> 'x) \<Rightarrow> ('x, 'a) eff" where
  "on_error m cleanup s = (case m s of (Inl e, s') \<Rightarrow> (Inl e, cleanup s') | r \<Rightarrow> r)"

record execSession =
  xs_id :: string
  xs_tty :: bool

definition podman_Exec :: "'x podman \<Rightarrow> string \<Rightarrow> ExecRequest \<Rightarrow> ('x, execSession) eff" where
  "podman_Exec c rid req =
     eff_bind (eff_res (validateExec req)) (\<lambda>_.
     eff_bind (inspectOwned c rid) (\<lambda>doc.
     eff_bind (eff_guard (ci_Running doc) (Errorf ''instance is not running'')) (\<lambda>_.
     eff_bind (podman_request c ''POST'' (''/containers/'' @ rid @ ''/exec'') (Some (exec_config req)) (decode_into created_fields [])) (\<lambda>i.
     eff_bind (eff_guard (i \<noteq> [] \<and> \<not> (\<exists>b \<in> set i. b \<in> {CHR ''/'', CHR ''?'', CHR 0x23, CHR 0x00}))
                 (Errorf ''invalid exec session ID'')) (\<lambda>_.
     eff_bind (on_error (podman_dial c) (\<lambda>x. snd (removeExec c i x))) (\<lambda>_.
     on_error
       (eff_bind (pd_SetDeadline c) (\<lambda>_.
        let path = apiPath @ ''/exec/'' @ i @ ''/start'' in
        eff_bind (case pd_NewRequest c ''POST'' (''http://podman'' @ path) of Some e \<Rightarrow> eff_res (Inl e) | None \<Rightarrow> eff_return ()) (\<lambda>_.
        eff_bind (eff_wrap ''start exec stream'' (pd_Write c path (marshal (start_config req)))) (\<lambda>_.
        eff_bind (eff_wrap ''read exec upgrade'' (pd_ReadResponse c)) (\<lambda>(status, text).
        eff_bind (eff_guard (status = 101) (APIError status ''POST'' path (take 4096 text))) (\<lambda>_.
        eff_bind (pd_SetDeadline c) (\<lambda>_.
        eff_bind (eff_guard (pd_UnixConn c) (Errorf ''exec requires a Unix connection'')) (\<lambda>_.
        eff_return \<lparr>xs_id = i, xs_tty = xr_TTY req\<rparr>))))))))
       (\<lambda>x. snd (removeExec c i (pd_Close c x)))))))))"

section \<open>exec.go: the session\<close>

definition ErrUnexpectedEOF :: goerr where
  "ErrUnexpectedEOF = ErrSentinel ''unexpected EOF''"

definition be32 :: "string \<Rightarrow> nat" where
  "be32 bs = foldl (\<lambda>n b. n * 256 + byte b) 0 bs"

text \<open>
  The stream is its bytes and the error that ends it, \<open>ErrEOF\<close> at its end. The pipes to the
  readers take \<open>room\<close> bytes before they are closed, or any number. The result is what each pipe
  took and the error.
\<close>

record demuxed =
  dm_stdout :: string
  dm_stderr :: string
  dm_result :: "unit res"

definition demux_end :: "unit res \<Rightarrow> demuxed" where
  "demux_end r = \<lparr>dm_stdout = [], dm_stderr = [], dm_result = r\<rparr>"

definition demux_put :: "char \<Rightarrow> string \<Rightarrow> demuxed \<Rightarrow> demuxed" where
  "demux_put channel data r =
     (if channel = CHR 0x01 then r\<lparr>dm_stdout := data @ dm_stdout r\<rparr> else r\<lparr>dm_stderr := data @ dm_stderr r\<rparr>)"

function demux :: "nat option \<Rightarrow> goerr \<Rightarrow> goerr \<Rightarrow> string \<Rightarrow> demuxed" where
  "demux room closed ending bs =
     (if length bs < 8
      then (let e = (if bs \<noteq> [] \<and> ending = ErrEOF then ErrUnexpectedEOF else ending) in
            if err_is ErrEOF e then demux_end (Inr ()) else demux_end (Inl (Wrapf ''exec stream header'' e)))
      else if bs ! 1 \<noteq> CHR 0x00 \<or> bs ! 2 \<noteq> CHR 0x00 \<or> bs ! 3 \<noteq> CHR 0x00
      then demux_end (Inl (Errorf ''invalid exec stream header''))
      else if bs ! 0 \<noteq> CHR 0x01 \<and> bs ! 0 \<noteq> CHR 0x02
      then demux_end (Inl (Errorf (''invalid exec stream channel '' @ FormatInt (int (byte (bs ! 0))))))
      else
        (let size = be32 (take 4 (drop 4 bs));
             data = take size (drop 8 bs);
             taken = (case room of None \<Rightarrow> data | Some k \<Rightarrow> take k data) in
         if length taken = size
         then demux_put (bs ! 0) taken (demux (map_option (\<lambda>k. k - size) room) closed ending (drop (8 + size) bs))
         else demux_put (bs ! 0) taken
                (demux_end (Inl (Wrapf ''exec stream payload'' (if length taken < length data then closed else ending))))))"
  by pat_completeness auto
termination
  by (relation "measure (\<lambda>(room, closed, ending, bs). length bs)") auto

declare demux.simps [simp del]

definition session_Resize :: "'x podman \<Rightarrow> execSession \<Rightarrow> nat \<Rightarrow> nat \<Rightarrow> ('x, unit) eff" where
  "session_Resize c s rows cols =
     eff_bind (eff_guard (xs_tty s \<and> rows \<noteq> 0 \<and> cols \<noteq> 0) (Errorf ''resize requires a TTY and nonzero dimensions'')) (\<lambda>_.
     podman_request c ''POST'' (''/exec/'' @ xs_id s @ ''/resize?h='' @ FormatInt (int rows) @ ''&w='' @ FormatInt (int cols)) None no_out)"

record exec_status =
  xt_Running :: bool
  xt_ExitCode :: "int option"

definition status_fields :: "exec_status fields" where
  "status_fields = [(''Running'', set_bool (\<lambda>b x. x\<lparr>xt_Running := b\<rparr>)), (''ExitCode'', set_ptr read_int (\<lambda>n x. x\<lparr>xt_ExitCode := n\<rparr>))]"

text \<open>
  The loop of \<open>Wait\<close>: \<open>ctxs\<close> is the state of the context at each wait for the ticker. Where they
  are used up, the loop still waits.
\<close>

fun wait_status :: "'x podman \<Rightarrow> execSession \<Rightarrow> goerr option list \<Rightarrow> 'x \<Rightarrow> (int res \<times> 'x) option" where
  "wait_status c s ctxs x =
     (case podman_request c ''GET'' (''/exec/'' @ xs_id s @ ''/json'') None (decode_into status_fields \<lparr>xt_Running = False, xt_ExitCode = None\<rparr>) x of
        (Inl e, x) \<Rightarrow> Some (Inl e, x)
      | (Inr st, x) \<Rightarrow>
          if \<not> xt_Running st
          then (case xt_ExitCode st of
                  None \<Rightarrow> Some (Inl (Errorf ''exec finished without a valid exit status''), x)
                | Some code \<Rightarrow>
                    if code < 0 \<or> code > 255 then Some (Inl (Errorf ''exec finished without a valid exit status''), x)
                    else Some (Inr code, x))
          else (case ctxs of
                  [] \<Rightarrow> None
                | Some e # _ \<Rightarrow> Some (Inl e, x)
                | None # ctxs \<Rightarrow> wait_status c s ctxs x))"

text \<open>\<open>ended\<close> is the result of the stream once the session's reader is done, none before.\<close>

definition session_Wait :: "'x podman \<Rightarrow> execSession \<Rightarrow> goerr option \<Rightarrow> unit res option \<Rightarrow> goerr option list \<Rightarrow> 'x \<Rightarrow> (int res \<times> 'x) option" where
  "session_Wait c s ctx ended ctxs x =
     (case ctx of
        Some e \<Rightarrow> Some (Inl e, x)
      | None \<Rightarrow>
          (case ended of
             None \<Rightarrow> None
           | Some (Inl e) \<Rightarrow> Some (Inl e, x)
           | Some (Inr _) \<Rightarrow> wait_status c s ctxs x))"

text \<open>\<open>Close\<close> works once and keeps its result.\<close>

definition session_Close :: "'x podman \<Rightarrow> execSession \<Rightarrow> unit res option \<Rightarrow> 'x \<Rightarrow> unit res \<times> unit res option \<times> 'x" where
  "session_Close c s closed x =
     (case closed of
        Some r \<Rightarrow> (r, closed, x)
      | None \<Rightarrow> (case removeExec c (xs_id s) (pd_Close c x) of (r, x) \<Rightarrow> (r, Some r, x)))"

end
