(* ===== verification/PodmanFacts.thy ===== *)
theory PodmanFacts
  imports Podman
begin

text \<open>
  What the client of the container engine guarantees. A container that is not the program's
  own is never touched; a container that the client made is found again, starts and is
  inspected; a multiplexed stream is taken apart into the two streams it was made of.
\<close>

section \<open>Inspection\<close>

text \<open>
  The engine's answer to an inspection in state \<open>x\<close>, which leaves the state as it is: there is
  no container of that name or identity, or the answer describes it.
\<close>

abbreviation inspect_path :: "string \<Rightarrow> string" where
  "inspect_path ref \<equiv> ''/containers/'' @ ref @ ''/json''"

definition answers :: "'x podman \<Rightarrow> 'x \<Rightarrow> string \<Rightarrow> containerInspect option \<Rightarrow> bool" where
  "answers c x ref got \<longleftrightarrow>
     pd_NewRequest c ''GET'' (podman_url (inspect_path ref)) = None \<and>
     (\<exists>status text ending. pd_Do c ''GET'' (podman_url (inspect_path ref)) [] x = (Inr (status, text, ending), x) \<and>
       (case got of
          None \<Rightarrow> status = 404
        | Some doc \<Rightarrow> status = 200 \<and> decode_into inspect_fields zero_inspect (inspect_path ref) (text, ending) = Inr doc))"

text \<open>The answer shows that the identity belongs to one of the program's containers.\<close>

definition ours :: "string \<Rightarrow> containerInspect option \<Rightarrow> bool" where
  "ours rid got \<longleftrightarrow> runtimeIDPattern rid \<and> (\<exists>doc. got = Some doc \<and> podman_owned doc = Inr () \<and> ci_ID doc = rid)"

lemma request_inspect:
  assumes "answers c x ref got"
  shows "\<exists>text. podman_request c ''GET'' (inspect_path ref) None (decode_into inspect_fields zero_inspect) x =
    (case got of None \<Rightarrow> Inl (APIError 404 ''GET'' (inspect_path ref) text) | Some doc \<Rightarrow> Inr doc, x)"
  using assms by (auto simp: answers_def podman_request_def Let_def eff_wrap_def res_wrap_def split: option.splits)

lemma inspectOwned_answers:
  assumes "answers c x rid got"
  shows "case inspectOwned c rid x of
      (Inr doc, x') \<Rightarrow> x' = x \<and> got = Some doc \<and> ours rid got
    | (Inl e, x') \<Rightarrow> x' = x \<and> \<not> ours rid got \<and> (isStatus e 404 \<longleftrightarrow> runtimeIDPattern rid \<and> got = None)"
proof -
  obtain detail where r: "podman_request c ''GET'' (inspect_path rid) None (decode_into inspect_fields zero_inspect) x =
    (case got of None \<Rightarrow> Inl (APIError 404 ''GET'' (inspect_path rid) detail) | Some doc \<Rightarrow> Inr doc, x)"
    using request_inspect [OF assms] by blast
  show ?thesis
    by (cases got) (auto simp: inspectOwned_def eff_bind_def r ours_def res_guard_def podman_owned_def isStatus_def
        simp del: append.simps split: if_splits)
qed

lemma foreign_untouched:
  assumes "answers c x rid got" and "\<not> ours rid got"
  shows "\<exists>e. podman_Start c rid x = (Inl e, x)" "\<exists>e. podman_Inspect c rid x = (Inl e, x)"
    "\<exists>e. podman_Exec c rid req x = (Inl e, x)"
    "podman_Delete c rid x = (Inr (), x) \<and> got = None \<or> (\<exists>e. podman_Delete c rid x = (Inl e, x))"
proof -
  obtain e where e: "inspectOwned c rid x = (Inl e, x)" "isStatus e 404 \<longleftrightarrow> runtimeIDPattern rid \<and> got = None"
    using inspectOwned_answers [OF assms(1)] assms(2) by (auto split: prod.splits sum.splits)
  show "\<exists>e. podman_Start c rid x = (Inl e, x)" "\<exists>e. podman_Inspect c rid x = (Inl e, x)"
    using e by (auto simp: podman_Start_def podman_Inspect_def)
  show "\<exists>e. podman_Exec c rid req x = (Inl e, x)"
    using e by (cases "validateExec req") (auto simp: podman_Exec_def)
  show "podman_Delete c rid x = (Inr (), x) \<and> got = None \<or> (\<exists>e. podman_Delete c rid x = (Inl e, x))"
    using e by (auto simp: podman_Delete_def eff_bind_def eff_try_def)
qed

lemma inspect_ours:
  assumes "answers c x rid (Some doc)" and "ours rid (Some doc)"
  shows "inspectOwned c rid x = (Inr doc, x)"
  using inspectOwned_answers [OF assms(1)] assms(2) by (auto split: prod.splits sum.splits)

section \<open>The life of a container\<close>

definition spec_member :: "string \<Rightarrow> json \<Rightarrow> json" where
  "spec_member k j = (case j of JObj kvs \<Rightarrow> (case map_of kvs k of Some v \<Rightarrow> v | None \<Rightarrow> JNull) | _ \<Rightarrow> JNull)"

text \<open>A container as its specification asks: its name, its labels and its annotations.\<close>

definition built_from :: "json \<Rightarrow> containerInspect \<Rightarrow> bool" where
  "built_from spec doc \<longleftrightarrow>
     spec_member ''name'' spec = JStr (ci_Name doc) \<and> set_map (spec_member ''labels'' spec) [] = Some (ci_Labels doc) \<and>
     set_map (spec_member ''annotations'' spec) [] = Some (ci_Annotations doc)"

lemma built_owned:
  assumes "built_from (container_spec inst) doc" and "instanceIDPattern (inst_ID inst)" and "runtimeIDPattern (ci_ID doc)"
  shows "podman_owned doc = Inr ()" and "ci_Name doc = inst_ID inst"
proof -
  show n: "ci_Name doc = inst_ID inst"
    using assms(1) by (simp add: built_from_def spec_member_def container_spec_def)
  have "ci_Labels doc = [(''io.nephos.workspace-id'', ''default''), (''io.nephos.managed'', ''true''), (instanceLabel, inst_ID inst)]"
    "ci_Annotations doc = [(instanceLabel, inst_ID inst)]"
    using assms(1) by (auto simp: built_from_def spec_member_def container_spec_def set_map_def instanceLabel_def)
  then show "podman_owned doc = Inr ()" using assms(2,3) n
    by (auto simp: podman_owned_def map_get_def instanceLabel_def)
qed

text \<open>An answer of success to a request that may change the engine.\<close>

definition does :: "'x podman \<Rightarrow> string \<Rightarrow> string \<Rightarrow> string \<Rightarrow> 'x \<Rightarrow> string \<times> goerr \<Rightarrow> 'x \<Rightarrow> bool" where
  "does c method path raw x body x' \<longleftrightarrow>
     pd_NewRequest c method (podman_url path) = None \<and>
     (\<exists>status. 200 \<le> status \<and> status < 300 \<and> pd_Do c method (podman_url path) raw x = (Inr (status, body), x'))"

lemma request_does:
  "does c method path (case body of None \<Rightarrow> [] | Some j \<Rightarrow> marshal j) x (detail, ending) x' \<Longrightarrow>
   podman_request c method path body out x = (out path (detail, ending), x')"
  by (auto simp: does_def podman_request_def Let_def eff_wrap_def res_wrap_def)

lemma discover_answers:
  assumes "answers c x name got"
  shows "case got of
      None \<Rightarrow> \<exists>e. podman_discover c name x = (Inl e, x) \<and> isStatus e 404
    | Some doc \<Rightarrow> podman_owned doc = Inr () \<and> ci_Name doc = name \<longrightarrow> podman_discover c name x = (Inr (ci_ID doc), x)"
proof -
  obtain detail where r: "podman_request c ''GET'' (inspect_path name) None (decode_into inspect_fields zero_inspect) x =
    (case got of None \<Rightarrow> Inl (APIError 404 ''GET'' (inspect_path name) detail) | Some doc \<Rightarrow> Inr doc, x)"
    using request_inspect [OF assms] by blast
  show ?thesis by (auto simp: podman_discover_def eff_bind_def r isStatus_def simp del: append.simps split: option.split)
qed

definition launchable :: "Instance \<Rightarrow> bool" where
  "launchable inst \<longleftrightarrow> instanceIDPattern (inst_ID inst) \<and> inst_WorkspaceID inst = ''default'' \<and> inst_InstanceType inst = ''t3.micro''"

lemma create_new:
  assumes "launchable inst" and "answers c x (inst_ID inst) None"
    and "does c ''POST'' ''/containers/create'' (marshal (container_spec inst)) x (detail, ending) x'"
    and "decode_into created_fields [] ''/containers/create'' (detail, ending) = Inr rid" and "runtimeIDPattern rid"
  shows "podman_Create c inst x = (Inr rid, x')"
proof -
  obtain e where "podman_discover c (inst_ID inst) x = (Inl e, x)" "isStatus e 404"
    using discover_answers [OF assms(2)] by auto
  moreover have "podman_request c ''POST'' ''/containers/create'' (Some (container_spec inst)) (decode_into created_fields []) x = (Inr rid, x')"
    using request_does [of c "''POST''" "''/containers/create''" "Some (container_spec inst)" x detail ending x' "decode_into created_fields []"]
      assms(3,4) by simp
  ultimately show ?thesis using assms(1,5)
    by (simp add: podman_Create_def launchable_def eff_bind_def eff_try_def)
qed

lemma create_again:
  assumes "launchable inst" and "answers c x (inst_ID inst) (Some doc)" and "built_from (container_spec inst) doc"
    and "runtimeIDPattern (ci_ID doc)"
  shows "podman_Create c inst x = (Inr (ci_ID doc), x)"
proof -
  have "instanceIDPattern (inst_ID inst)" using assms(1) by (simp add: launchable_def)
  note o = built_owned [OF assms(3) this assms(4)]
  have "podman_discover c (inst_ID inst) x = (Inr (ci_ID doc), x)" using discover_answers [OF assms(2)] o by simp
  then show ?thesis using assms(1) by (simp add: podman_Create_def launchable_def eff_bind_def eff_try_def)
qed

lemma start_ours:
  assumes "answers c x rid (Some doc)" and "ours rid (Some doc)"
    and "does c ''POST'' (''/containers/'' @ rid @ ''/start'') [] x body x'"
  shows "podman_Start c rid x = (Inr (), x')"
  using inspect_ours [OF assms(1,2)] request_does [of c "''POST''" "''/containers/'' @ rid @ ''/start''" None x "fst body" "snd body" x' no_out] assms(3)
  by (simp add: podman_Start_def no_out_def)

lemma image_there:
  assumes "does c ''GET'' ''/images/nephos-ubuntu:dev/exists'' [] x body x'"
  shows "EnsureImage c ''nephos-ubuntu:dev'' x = (Inr (), x')"
proof -
  have p: "PathEscape ''nephos-ubuntu:dev'' = ''nephos-ubuntu:dev''" by code_simp
  show ?thesis
    using request_does [of c "''GET''" "''/images/nephos-ubuntu:dev/exists''" None x "fst body" "snd body" x' no_out] assms
    by (simp add: EnsureImage_def podman_image_def p no_out_def eff_wrap_def)
qed

section \<open>Sessions\<close>

text \<open>Whatever the protocol of the console admits, the engine's client admits.\<close>

lemma start_admitted:
  "client_ok (SendStart s) \<Longrightarrow>
   validateExec \<lparr>xr_Command = st_Command s, xr_TTY = st_TTY s, xr_Rows = st_Rows s, xr_Cols = st_Cols s\<rparr> = Inr ()"
  by (auto simp: validateExec_def dims_ok_def split: if_splits)

text \<open>A session that was made and could not be opened is removed.\<close>

lemma exec_removed:
  assumes "podman_request c ''POST'' (''/containers/'' @ rid @ ''/exec'') (Some (exec_config req)) (decode_into created_fields []) x1 = (Inr i, x2)"
    and "validateExec req = Inr ()" and "inspectOwned c rid x = (Inr doc, x1)" and "ci_Running doc"
    and "i \<noteq> []" "\<not> (\<exists>b \<in> set i. b \<in> {CHR ''/'', CHR ''?'', CHR 0x23, CHR 0x00})"
    and "podman_Exec c rid req x = (Inl e, x')"
  shows "\<exists>y. x' = snd (removeExec c i y)"
  using assms by (auto simp: podman_Exec_def on_error_def eff_bind_def res_guard_def split: prod.splits sum.splits)

section \<open>The multiplexed stream\<close>

definition mux_frame :: "char \<times> string \<Rightarrow> string" where
  "mux_frame f = [fst f, CHR 0x00, CHR 0x00, CHR 0x00] @
     map (\<lambda>k. char_of (length (snd f) div 256 ^ k mod 256)) [3, 2, 1, 0] @ snd f"

definition mux_ok :: "char \<times> string \<Rightarrow> bool" where
  "mux_ok f \<longleftrightarrow> (fst f = CHR 0x01 \<or> fst f = CHR 0x02) \<and> length (snd f) < 2 ^ 32"

definition channel_data :: "char \<Rightarrow> (char \<times> string) list \<Rightarrow> string" where
  "channel_data ch fs = concat (map snd (filter (\<lambda>f. fst f = ch) fs))"

lemma be32_length: "n < 2 ^ 32 \<Longrightarrow> be32 (map (\<lambda>k. char_of (n div 256 ^ k mod 256)) [3, 2, 1, 0]) = n"
proof -
  assume "n < 2 ^ 32"
  then have c: "n div 16777216 mod 256 = n div 16777216" by simp
  have "n div 65536 = n div 256 div 256" "n div 16777216 = n div 256 div 256 div 256" by (simp_all flip: div_mult2_eq)
  then have "n = ((n div 16777216 * 256 + n div 65536 mod 256) * 256 + n div 256 mod 256) * 256 + n mod 256" by simp
  then show ?thesis using c by (simp add: be32_def)
qed

lemma demux_frame:
  assumes "mux_ok f"
  shows "demux None closed ErrEOF (mux_frame f @ rest) = demux_put (fst f) (snd f) (demux None closed ErrEOF rest)"
proof -
  define X where "X = mux_frame f @ rest"
  have "be32 (map (\<lambda>k. char_of (length (snd f) div 256 ^ k mod 256)) [3, 2, 1, 0]) = length (snd f)"
    using assms by (intro be32_length) (simp add: mux_ok_def)
  then have size: "be32 (take 4 (drop 4 X)) = length (snd f)" by (simp add: X_def mux_frame_def)
  have X: "\<not> length X < 8" "X ! 0 = fst f" "X ! 1 = CHR 0x00" "X ! 2 = CHR 0x00" "X ! 3 = CHR 0x00" "drop 8 X = snd f @ rest"
    by (simp_all add: X_def mux_frame_def)
  have rest: "drop (8 + length (snd f)) X = rest"
    by (subst add.commute, subst drop_drop [symmetric], subst X(6)) simp
  have "(fst f \<noteq> CHR 0x01 \<and> fst f \<noteq> CHR 0x02) = False" using assms by (simp add: mux_ok_def)
  then have "demux None closed ErrEOF X = demux_put (fst f) (snd f) (demux None closed ErrEOF rest)"
    by (subst demux.simps, simp only: Let_def X size rest) simp
  then show ?thesis by (simp only: X_def)
qed

lemma demux_frames:
  "list_all mux_ok fs \<Longrightarrow> demux None closed ErrEOF (concat (map mux_frame fs)) =
   \<lparr>dm_stdout = channel_data CHR 0x01 fs, dm_stderr = channel_data CHR 0x02 fs, dm_result = Inr ()\<rparr>"
proof (induction fs)
  case Nil
  show ?case by (subst demux.simps) (simp add: demux_end_def channel_data_def)
next
  case (Cons f fs)
  then show ?case by (auto simp: demux_frame demux_put_def channel_data_def mux_ok_def)
qed

end
