(* ===== verification/ApiProps.thy ===== *)
theory ApiProps
  imports HookFacts ConsoleFacts ApiFacts EventFacts PodmanFacts Samples
begin

text \<open>
  What the outer interfaces guarantee: the HTTP API, the event stream, the container hook, the
  console protocol and the client of the container engine.
\<close>

section \<open>The API\<close>

text \<open>
  C12: Exactly the requests to a local host name, without a browser's origin and with the
  bearer token (the health check needs none) reach the handler; every other request is
  answered with 401 or 403 and changes nothing. No request passes with an empty token.
\<close>

theorem api_admits_exactly:
  "if admitted token r then api_New token h r s = h r s
   else snd (api_New token h r s) = s \<and> rp_Status (fst (api_New token h r s)) \<in> {401, 403}"
  by (rule api_boundary)

text \<open>
  C22: A handler that does not answer with its status of success has changed no table and has
  queued nothing, whatever the request and whatever failed.
\<close>

theorem refused_requests_change_nothing:
  "(snd (api_CreateVpc sv ev ws key r s) = s \<or> rp_Status (fst (api_CreateVpc sv ev ws key r s)) = 201) \<and>
   (snd (api_CreateSubnet sv ev ws key r s) = s \<or> rp_Status (fst (api_CreateSubnet sv ev ws key r s)) = 201) \<and>
   (snd (api_RunInstance sv ev ws key r s) = s \<or> rp_Status (fst (api_RunInstance sv ev ws key r s)) = 201) \<and>
   (snd (api_DeleteVpc sv ev ws i r s) = s \<or> rp_Status (fst (api_DeleteVpc sv ev ws i r s)) = 202) \<and>
   (snd (api_DeleteSubnet sv ev ws i r s) = s \<or> rp_Status (fst (api_DeleteSubnet sv ev ws i r s)) = 202) \<and>
   (snd (api_TerminateInstance sv ev ws i r s) = s \<or> rp_Status (fst (api_TerminateInstance sv ev ws i r s)) = 202)"
  by (intro conjI handlers_change_on_success)

text \<open>
  C14: An instance is served as its creation was answered: a request without an idempotency
  key that changed the tables was answered with 201 and the instance, the instance alone is
  queued for the controller, and reading it next answers with 200 and the same body.
\<close>

theorem launched_is_served:
  assumes "reachable d" and "api_RunInstance sv ev ws None r (d, q) = (resp, (d', q'))" and "d' \<noteq> d"
  shows "\<exists>n. resp = writeJSON 201 (instanceResponse n) \<and> q' = q @ [inst_ID n] \<and>
    (\<forall>r'. api_GetInstance sv (ev\<lparr>ae_fault := NoFault\<rparr>) ws (inst_ID n) r' (d', q') =
      (writeJSON 200 (instanceResponse n), (d', q')))"
proof -
  obtain rin where run: "served 201 instanceResponse (svc_Run (ae_fault ev) (ae_entropy ev) (ae_entropy2 ev) (ae_epoch ev) (ae_now ev) rin [])
      (d, q) = (resp, (d', q'))" and chk: "checkWorkspace ws = Inr ()" "checkInstances sv = Inr ()"
    using assms(2,3) by (auto simp: api_RunInstance_def checked_def or_empty_def split: sum.splits)
  obtain n qn where n: "svc_Run (ae_fault ev) (ae_entropy ev) (ae_entropy2 ev) (ae_epoch ev) (ae_now ev) rin [] d = (Inr n, d', qn)"
      "resp = writeJSON 201 (instanceResponse n)" "q' = q @ qn"
    using run assms(3) requests_fail_clean(5) [where f = "ae_fault ev" and r = "ae_entropy ev" and r' = "ae_entropy2 ev" and
        t = "ae_epoch ev" and now = "ae_now ev" and rin = rin and key = "[]" and d = d]
    by (auto simp: served_def split: prod.splits sum.splits)
  note l = launched_instance [OF reachable_inv [OF assms(1)] n(1)]
  then have "api_GetInstance sv (ev\<lparr>ae_fault := NoFault\<rparr>) ws (inst_ID n) r' (d', q') = (writeJSON 200 (instanceResponse n), (d', q'))" for r'
    using chk by (simp add: api_GetInstance_def checked_def looked_up_def)
  then show ?thesis using n l by blast
qed

definition launch_request :: http_request where
  "launch_request = \<lparr>hr_Path = ''/v1/workspaces/default/instances'', hr_Host = ''localhost'',
     hr_Header = (\<lambda>k. if k = ''Content-Type'' then ''application/json'' else []),
     hr_Body = (marshal (JObj [(''name'', JStr ''web''), (''subnet_id'', JStr ''subnet-1a1a1a1a1a1a1a1a1'')]), True)\<rparr>"

definition server1 :: server where
  "server1 = \<lparr>sv_build = \<lparr>vi_Version = ''dev'', vi_Commit = ''unknown'', vi_Date = [], vi_GoVersion = [], vi_Platform = []\<rparr>,
     sv_ready = True, sv_resources = True, sv_instances = True, sv_events = True, sv_console = True\<rparr>"

definition api_env1 :: api_env where
  "api_env1 = \<lparr>ae_fault = NoFault, ae_entropy = Inr (replicate 9 CHR 0x3C), ae_entropy2 = Inr (replicate 9 CHR 0x4D),
     ae_epoch = 100, ae_now = 200, ae_json_text = []\<rparr>"

lemma launch_sample:
  "api_RunInstance server1 api_env1 ''default'' None launch_request (db3, []) =
    (writeJSON 201 (instanceResponse (pending_Instance inst_id subnet_a ''web'' 4 (pending_ENI eni_id inst_id subnet_a (IP4 0x0A000104) 5))),
     (db4, [inst_id]))"
proof -
  have "decodeBody api_env1 launch_request run_instance_fields \<lparr>ri_Name = [], ri_SubnetId = []\<rparr> =
      Inr \<lparr>ri_Name = ''web'', ri_SubnetId = subnet_a\<rparr>" by code_simp
  moreover have "''web'' \<noteq> []" "subnet_a \<noteq> []" by code_simp+
  ultimately show ?thesis
    using create_db4
    by (simp add: api_RunInstance_def checked_def checkWorkspace_def checkInstances_def server1_def required_def served_def
        or_empty_def api_env1_def)
qed

theorem launched_is_served_witness:
  "\<exists>n. fst (api_RunInstance server1 api_env1 ''default'' None launch_request (db3, [])) = writeJSON 201 (instanceResponse n) \<and>
    fst (api_GetInstance server1 (api_env1\<lparr>ae_fault := NoFault\<rparr>) ''default'' (inst_ID n) launch_request (db4, [inst_id])) =
      writeJSON 200 (instanceResponse n)"
proof -
  have "event_seq db4 \<noteq> event_seq db3" by (simp add: db4_def db3_def)
  then have "db4 \<noteq> db3" by metis
  with launched_is_served [OF db_reachable(3) launch_sample] launch_sample show ?thesis by fastforce
qed

section \<open>The event stream\<close>

lemma reachable_log:
  assumes "reachable d"
  shows "numbered (events d)" and "e \<in> set (events d) \<Longrightarrow> 1 \<le> ev_id e \<and> ev_id e \<le> max_int64"
proof -
  have ok: "events_ok (events d) (event_seq d)" using reachable_inv [OF assms] by (simp add: db_inv_def)
  then show "numbered (events d)" by (simp add: events_ok_def)
  show "1 \<le> ev_id e \<and> ev_id e \<le> max_int64" if "e \<in> set (events d)"
    using ok that by (fastforce simp: events_ok_def list_all_iff)
qed

text \<open>
  C15: A client gets every event once and in order. Over any number of connections, each
  started behind the last event that arrived, with any query faults, failed writes and lost
  frames, and with requests and controllers at work, what the client has received is a prefix
  of the event log.
\<close>

theorem events_once_in_order:
  assumes "reachable d" and "\<And>c p. c \<in> set cs \<Longrightarrow> p \<in> set (fst c) \<Longrightarrow> db_step\<^sup>*\<^sup>* (pl_db p) d"
  shows "\<exists>n. watch sv cs None = map event_frame (take n (events d))"
proof -
  note log = reachable_log [OF assms(1)]
  have "\<exists>n. watch sv cs None = map event_frame (take n (after 0 (events d)))"
  proof (rule watch_prefix)
    show "\<exists>M. events d = events (pl_db p) @ M" if "c \<in> set cs" "p \<in> set (fst c)" for c p
      by (rule log_grows [OF assms(2) [OF that]])
  qed (use log in \<open>auto simp: max_int64_def\<close>, force)
  moreover have "after 0 (events d) = events d" using log(2) by (force simp: after_def intro: filter_True)
  ultimately show ?thesis by simp
qed

definition poll_of :: "db \<Rightarrow> poll" where
  "poll_of d = \<lparr>pl_db = d, pl_fault = None, pl_write = None, pl_done = False\<rparr>"

theorem events_once_in_order_witness:
  "\<exists>n. watch server1 [([poll_of db2], 1), ([poll_of db4], 9)] None = map event_frame (take n (events db4))"
proof (rule events_once_in_order [OF db_reachable(4)])
  have s: "db_step db2 db3" "db_step db3 db4"
    using db_step.create_subnet [of db2 NoFault "Inr (replicate 9 CHR 0x2B)" 100 200 "subnet_in ''b'' ''10.0.2.0/24''" "[]"] create_db3
      db_step.run_instance [of db3 NoFault "Inr (replicate 9 CHR 0x3C)" "Inr (replicate 9 CHR 0x4D)" 100 200
        "\<lparr>rii_Name = ''web'', rii_SubnetID = subnet_a\<rparr>" "[]"] create_db4
    by simp_all
  then have "db_step\<^sup>*\<^sup>* db2 db4" by (meson converse_rtranclp_into_rtranclp rtranclp.rtrancl_refl)
  then show "db_step\<^sup>*\<^sup>* (pl_db p) db4"
    if "c \<in> set [([poll_of db2], 1), ([poll_of db4], 9)]" "p \<in> set (fst c)" for c :: "poll list \<times> nat" and p
    using that by (auto simp: poll_of_def)
qed

text \<open>
  No event is held back: a connection whose queries and writes succeed, for a hundredth
  as many rounds as there are events, delivers every event behind the client's cursor.
\<close>

theorem events_delivered:
  assumes "reachable d" and "sv_events sv" and "0 \<le> cursor" "cursor \<le> max_int64"
    and "\<And>p. p \<in> set ps \<Longrightarrow> pl_db p = d \<and> pl_fault p = None \<and> pl_write p = None"
    and "length (events d) \<le> 100 * length ps"
  shows "\<exists>fin. GetEvents sv True (Some (FormatInt cursor)) ps =
    Inr (200, event_headers, map event_frame (filter (\<lambda>e. cursor < ev_id e) (events d)), fin)"
proof -
  note log = reachable_log [OF assms(1)]
  have "length (after cursor (events d)) \<le> 100 * length ps" using assms(6) length_filter_le [of "\<lambda>e. cursor < ev_id e" "events d"]
    unfolding after_def by linarith
  then have "fst (stream_events ps cursor) = map event_frame (after cursor (events d))"
    using log assms(3,5) by (intro stream_complete) (auto, force)
  moreover have "ParseInt (FormatInt cursor) = Some cursor"
    using assms(3,4) by (intro ParseInt_FormatInt) (simp_all add: max_int64_def)
  ultimately show ?thesis using assms(2,3)
    by (cases "stream_events ps cursor") (auto simp: GetEvents_def after_def)
qed

theorem events_delivered_witness:
  "\<exists>fin. GetEvents server1 True (Some (FormatInt 2)) [poll_of db4] =
    Inr (200, event_headers, map event_frame [created_event 3 ''subnet'' subnet_b, created_event 4 ''instance'' inst_id], fin)"
proof -
  have "events db4 = [created_event 1 ''vpc'' vpc_id, created_event 2 ''subnet'' subnet_a, created_event 3 ''subnet'' subnet_b,
      created_event 4 ''instance'' inst_id]"
    by (simp add: db4_def db3_def db2_def db1_def)
  with events_delivered [OF db_reachable(4), of server1 2 "[poll_of db4]"] show ?thesis
    by (simp add: server1_def poll_of_def max_int64_def created_event_def)
qed

section \<open>The hook\<close>

text \<open>
  C11: The hook and the daemon together succeed exactly for a container of the tables: the
  hook returns without an error if and only if the runtime's state names an instance and a
  container, the tables hold that container for that live instance on a converged network,
  the process is the container's, the engine connected the instance's own interface to it, and
  the tables still held the container afterwards.
\<close>

theorem hook_plumbs_exactly:
  "runHook (handler_do ev network) stdin w = (Inr (), w') \<longleftrightarrow>
   (\<exists>request. DecodeState stdin = Inr request \<and> plumbed ev network request w w')"
  by (rule hook_exact)

section \<open>The console\<close>

text \<open>
  C23: Either side of the console reads what the other side sends: every well-formed control
  message of either side within the size limit is read back, and a byte sequence is a frame of
  some data exactly if it is read back to that data.
\<close>

theorem console_round_trip:
  assumes "client_ok m" and "client_text m" and "length (client_marshal m) \<le> MaxControlBytes"
    and "server_ok k" and "server_text k" and "length (server_marshal k) \<le> MaxControlBytes"
  shows "ParseClientText (client_marshal m) = Inr (client_control m) \<and> ParseServerText (server_marshal k) = Inr (server_control k) \<and>
    (InputFrame data = Inr raw \<longleftrightarrow> ParseInputFrame raw = Inr data) \<and>
    (OutputFrame c data = Inr raw \<longleftrightarrow> ParseOutputFrame raw = Inr (c, data))"
  using client_round_trip [OF assms(1-3)] server_round_trip [OF assms(4-6)] input_frames output_frames by blast

definition start1 :: Start where
  "start1 = \<lparr>st_Type = ''start'', st_Command = [''/bin/sh''], st_TTY = True, st_Rows = 24, st_Cols = 80\<rparr>"

theorem console_round_trip_witness:
  "ParseClientText (client_marshal (SendStart start1)) = Inr (client_control (SendStart start1)) \<and>
   ParseServerText (server_marshal (SendExit \<lparr>ex_Type = ''exit'', ex_ExitCode = 3\<rparr>)) =
     Inr (server_control (SendExit \<lparr>ex_Type = ''exit'', ex_ExitCode = 3\<rparr>))"
proof -
  have "client_ok (SendStart start1)" "client_text (SendStart start1)" "length (client_marshal (SendStart start1)) \<le> MaxControlBytes"
    "length (server_marshal (SendExit \<lparr>ex_Type = ''exit'', ex_ExitCode = 3\<rparr>)) \<le> MaxControlBytes"
    by code_simp+
  with console_round_trip [of "SendStart start1" "SendExit \<lparr>ex_Type = ''exit'', ex_ExitCode = 3\<rparr>"] show ?thesis by simp
qed

text \<open>
  The console and the engine's client agree on commands: a start message that the protocol
  reads passes every check that the client makes before it opens a session.
\<close>

theorem console_start_admitted:
  assumes "ParseClientText raw = Inr c" and "cc_Start c = Some s"
  shows "validateExec \<lparr>xr_Command = st_Command s, xr_TTY = st_TTY s, xr_Rows = st_Rows s, xr_Cols = st_Cols s\<rparr> = Inr ()"
proof -
  obtain m where m: "client_ok m" "c = client_control m" using client_sound [OF assms(1)] by blast
  then have "m = SendStart s" using assms(2) by (cases m) (auto simp: client_control_def)
  then show ?thesis using m(1) start_admitted by blast
qed

theorem console_start_admitted_witness:
  "validateExec \<lparr>xr_Command = st_Command start1, xr_TTY = st_TTY start1, xr_Rows = st_Rows start1, xr_Cols = st_Cols start1\<rparr> = Inr ()"
proof -
  have "ParseClientText (client_marshal (SendStart start1)) = Inr \<lparr>cc_Type = ''start'', cc_Start = Some start1, cc_Resize = None\<rparr>"
    by code_simp
  from console_start_admitted [OF this] show ?thesis by simp
qed

section \<open>The container engine\<close>

text \<open>
  C21: A container that is not the program's own is never touched. Where the engine's answer to
  an inspection does not show the program's labels, annotation, name and the very identity
  asked for, the client neither starts it, nor opens a session in it, nor deletes it: the
  engine is left as it is, and a deletion succeeds only where there is no container.
\<close>

theorem foreign_container_untouched:
  assumes "answers c x rid got" and "\<not> ours rid got"
  shows "(\<exists>e. podman_Start c rid x = (Inl e, x)) \<and> (\<exists>e. podman_Exec c rid req x = (Inl e, x)) \<and>
    (\<exists>e. podman_Inspect c rid x = (Inl e, x)) \<and>
    (podman_Delete c rid x = (Inr (), x) \<and> got = None \<or> (\<exists>e. podman_Delete c rid x = (Inl e, x)))"
  using foreign_untouched [OF assms] by blast

definition other_container :: containerInspect where
  "other_container = \<lparr>ci_ID = replicate 64 CHR ''a'', ci_Name = ''other'', ci_Labels = [], ci_Annotations = [], ci_Running = True\<rparr>"

text \<open>An engine that answers every request with a container that somebody else made.\<close>

definition other_engine :: "unit podman" where
  "other_engine = \<lparr>pd_socket = ''/run/podman.sock'', pd_NewRequest = (\<lambda>m u. None),
     pd_Do = (\<lambda>m u b. eff_return (200, marshal (JObj [(''Id'', JStr (replicate 64 CHR ''a'')), (''Name'', JStr ''other''),
        (''State'', JObj [(''Running'', JBool True)])]), ErrEOF)),
     pd_DialContext = (\<lambda>p. eff_return ()), pd_SetDeadline = eff_return (), pd_Write = (\<lambda>p b. eff_return ()),
     pd_ReadResponse = eff_return (101, []), pd_Close = (\<lambda>x. x), pd_UnixConn = True\<rparr>"

theorem foreign_container_untouched_witness:
  "\<exists>e. podman_Start other_engine (replicate 64 CHR ''a'') () = (Inl e, ())"
proof -
  have a: "answers other_engine () (replicate 64 CHR ''a'') (Some other_container)"
  proof -
    have "decode_into inspect_fields zero_inspect (inspect_path (replicate 64 CHR ''a''))
       (marshal (JObj [(''Id'', JStr (replicate 64 CHR ''a'')), (''Name'', JStr ''other''), (''State'', JObj [(''Running'', JBool True)])]), ErrEOF)
       = Inr other_container"
      by code_simp
    then show ?thesis by (simp add: answers_def other_engine_def del: append.simps replicate.simps)
  qed
  have o: "\<not> ours (replicate 64 CHR ''a'') (Some other_container)"
    by (simp add: ours_def podman_owned_def other_container_def map_get_def)
  show ?thesis by (rule foreign_container_untouched [OF a o, THEN conjunct1])
qed

end
