(* ===== verification/Plan.thy ===== *)
theory Plan
  imports Operations
begin

text \<open>
  What the tables promise about addresses, as an abstract address plan over sets of
  numbers: VPCs hold blocks, subnets are carved out of them, instances lease single
  addresses, and each is released only after it was asked to leave. Every request and
  controller write is a sequence of steps of the plan.
\<close>

section \<open>The address plan\<close>

text \<open>
  A block with whether its removal was requested; a subnet's VPC first. A lease is the
  subnet and the address of an instance.
\<close>

record plan =
  plan_vpcs :: "string \<rightharpoonup> nat set \<times> bool"
  plan_subnets :: "string \<rightharpoonup> string \<times> nat set \<times> bool"
  plan_leases :: "string \<rightharpoonup> string \<times> nat"
  plan_leaving :: "string set"

definition block :: "nat set \<Rightarrow> bool" where
  "block B \<longleftrightarrow> (\<exists>b k. 4 \<le> k \<and> k \<le> 16 \<and> 2 ^ k dvd b \<and> B = {b ..< b + 2 ^ k})"

text \<open>The first four addresses and the last one are never given out.\<close>

definition hosts :: "nat set \<Rightarrow> nat set" where
  "hosts B = {n \<in> B. Min B + 4 \<le> n \<and> n \<noteq> Max B}"

definition leased :: "plan \<Rightarrow> string \<Rightarrow> nat set" where
  "leased P s = {n. \<exists>i. plan_leases P i = Some (s, n)}"

definition empty_plan :: plan where
  "empty_plan = \<lparr>plan_vpcs = Map.empty, plan_subnets = Map.empty, plan_leases = Map.empty, plan_leaving = {}\<rparr>"

inductive plan_step :: "plan \<Rightarrow> plan \<Rightarrow> bool" where
  allot_vpc: "plan_vpcs P i = None \<Longrightarrow> block B \<Longrightarrow> plan_step P (P\<lparr>plan_vpcs := (plan_vpcs P)(i \<mapsto> (B, False))\<rparr>)"
| retire_vpc: "plan_vpcs P i = Some (B, False) \<Longrightarrow> (\<And>s S b. plan_subnets P s \<noteq> Some (i, S, b)) \<Longrightarrow>
    plan_step P (P\<lparr>plan_vpcs := (plan_vpcs P)(i \<mapsto> (B, True))\<rparr>)"
| release_vpc: "plan_vpcs P i = Some (B, True) \<Longrightarrow> (\<And>s S b. plan_subnets P s \<noteq> Some (i, S, b)) \<Longrightarrow>
    plan_step P (P\<lparr>plan_vpcs := (plan_vpcs P)(i := None)\<rparr>)"
| carve_subnet: "plan_subnets P i = None \<Longrightarrow> block S \<Longrightarrow> plan_vpcs P v = Some (B, False) \<Longrightarrow> S \<subseteq> B \<Longrightarrow>
    (\<And>t T b. plan_subnets P t = Some (v, T, b) \<Longrightarrow> S \<inter> T = {}) \<Longrightarrow>
    plan_step P (P\<lparr>plan_subnets := (plan_subnets P)(i \<mapsto> (v, S, False))\<rparr>)"
| retire_subnet: "plan_subnets P i = Some (v, S, False) \<Longrightarrow> leased P i = {} \<Longrightarrow>
    plan_step P (P\<lparr>plan_subnets := (plan_subnets P)(i \<mapsto> (v, S, True))\<rparr>)"
| release_subnet: "plan_subnets P i = Some (v, S, True) \<Longrightarrow> leased P i = {} \<Longrightarrow>
    plan_step P (P\<lparr>plan_subnets := (plan_subnets P)(i := None)\<rparr>)"
| lease: "plan_leases P i = None \<Longrightarrow> plan_subnets P s = Some (v, S, False) \<Longrightarrow> n \<in> hosts S - leased P s \<Longrightarrow>
    (\<And>m. m \<in> hosts S - leased P s \<Longrightarrow> n \<le> m) \<Longrightarrow>
    plan_step P (P\<lparr>plan_leases := (plan_leases P)(i \<mapsto> (s, n))\<rparr>)"
| leave: "plan_leases P i \<noteq> None \<Longrightarrow> plan_step P (P\<lparr>plan_leaving := insert i (plan_leaving P)\<rparr>)"
| release: "i \<in> plan_leaving P \<Longrightarrow>
    plan_step P (P\<lparr>plan_leases := (plan_leases P)(i := None), plan_leaving := plan_leaving P - {i}\<rparr>)"

section \<open>The plan of the tables\<close>

definition keyed :: "('r \<Rightarrow> 'k) \<Rightarrow> ('r \<Rightarrow> 'v) \<Rightarrow> 'r list \<Rightarrow> ('k \<rightharpoonup> 'v)" where
  "keyed k g rs = map_of (map (\<lambda>r. (k r, g r)) rs)"

definition cidr_block :: "string \<Rightarrow> nat set" where
  "cidr_block s = {pbase (cidr_of s) ..< pbase (cidr_of s) + psize (cidr_of s)}"

definition addr_num :: "string \<Rightarrow> nat" where
  "addr_num s = (case ParseAddr s of Some a \<Rightarrow> ip4 a | None \<Rightarrow> 0)"

definition leaving :: "instance_row list \<Rightarrow> string set" where
  "leaving rs = {i. \<exists>r \<in> set rs. ir_id r = i \<and> ir_deletion_requested r \<noteq> 0}"

definition plan_of :: "db \<Rightarrow> plan" where
  "plan_of d = \<lparr>
     plan_vpcs = keyed vr_id (\<lambda>r. (cidr_block (vr_cidr_block r), vr_deletion_requested r \<noteq> 0)) (vpcs d),
     plan_subnets = keyed sr_id (\<lambda>r. (sr_vpc_id r, cidr_block (sr_cidr_block r), sr_deletion_requested r \<noteq> 0)) (subnets d),
     plan_leases = keyed er_instance_id (\<lambda>e. (er_subnet_id e, addr_num (er_private_ip e))) (enis d),
     plan_leaving = leaving (instances d)\<rparr>"

lemma plan_of_sel [simp]:
  "plan_vpcs (plan_of d) = keyed vr_id (\<lambda>r. (cidr_block (vr_cidr_block r), vr_deletion_requested r \<noteq> 0)) (vpcs d)"
  "plan_subnets (plan_of d) =
     keyed sr_id (\<lambda>r. (sr_vpc_id r, cidr_block (sr_cidr_block r), sr_deletion_requested r \<noteq> 0)) (subnets d)"
  "plan_leases (plan_of d) = keyed er_instance_id (\<lambda>e. (er_subnet_id e, addr_num (er_private_ip e))) (enis d)"
  "plan_leaving (plan_of d) = leaving (instances d)"
  by (simp_all add: plan_of_def)

lemma plan_eq:
  fixes P :: plan
  shows "P = Q \<longleftrightarrow> plan_vpcs P = plan_vpcs Q \<and> plan_subnets P = plan_subnets Q \<and>
     plan_leases P = plan_leases Q \<and> plan_leaving P = plan_leaving Q"
  by (cases P; cases Q) auto

lemma keyed_Some: "distinct (map k rs) \<Longrightarrow> keyed k g rs x = Some v \<longleftrightarrow> (\<exists>r \<in> set rs. k r = x \<and> g r = v)"
  by (force simp: keyed_def distinct_map comp_def)

lemma keyed_None: "keyed k g rs x = None \<longleftrightarrow> (\<forall>r \<in> set rs. k r \<noteq> x)"
  by (force simp: keyed_def map_of_eq_None_iff)

lemma keyed_append: "(\<forall>s \<in> set rs. k s \<noteq> k r) \<Longrightarrow> keyed k g (rs @ [r]) = (keyed k g rs)(k r \<mapsto> g r)"
  by (induction rs) (auto simp: keyed_def)

lemma upd_idle: "(\<And>r. r \<in> set rs \<Longrightarrow> \<not> P r) \<Longrightarrow> upd P f rs = rs"
  by (auto simp: upd_def intro!: map_idI)

lemma keyed_upd_same: "(\<And>r. k (f r) = k r) \<Longrightarrow> (\<And>r. g (f r) = g r) \<Longrightarrow> keyed k g (upd P f rs) = keyed k g rs"
  by (auto simp: keyed_def upd_def intro!: arg_cong [of _ _ map_of])

lemma keyed_upd:
  assumes d: "distinct (map k rs)" and r: "r \<in> set rs" "P r" and one: "\<And>s. P s \<Longrightarrow> k s = k r" and f: "\<And>s. k (f s) = k s"
  shows "keyed k g (upd P f rs) = (keyed k g rs)(k r \<mapsto> g (f r))"
proof (rule ext)
  fix x
  have d': "distinct (map k (upd P f rs))" using d f by simp
  have u: "s = r" if "s \<in> set rs" "k s = k r" for s using that d r(1) by (auto dest: distinct_map_unique)
  show "keyed k g (upd P f rs) x = ((keyed k g rs)(k r \<mapsto> g (f r))) x"
  proof (cases "x = k r")
    case True
    then show ?thesis using r f by (auto simp: keyed_Some [OF d'] set_upd)
  next
    case False
    have "keyed k g (upd P f rs) x = Some v \<longleftrightarrow> keyed k g rs x = Some v" for v
      using False one f by (force simp: keyed_Some [OF d'] keyed_Some [OF d] set_upd)
    then have "keyed k g (upd P f rs) x = keyed k g rs x" by (metis option.exhaust)
    then show ?thesis using False by simp
  qed
qed

lemma keyed_filter:
  assumes "distinct (map k rs)" and "\<And>r. r \<in> set rs \<Longrightarrow> Q r \<longleftrightarrow> k r \<noteq> x"
  shows "keyed k g (filter Q rs) = (keyed k g rs)(x := None)"
proof (rule ext)
  fix y
  have d: "distinct (map k (filter Q rs))" using assms(1) by (simp add: distinct_map_filter)
  have "keyed k g (filter Q rs) y = Some v \<longleftrightarrow> ((keyed k g rs)(x := None)) y = Some v" for v
    using assms(2) by (auto simp: keyed_Some [OF d] keyed_Some [OF assms(1)])
  then show "keyed k g (filter Q rs) y = ((keyed k g rs)(x := None)) y" by (metis option.exhaust)
qed

lemma leaving_upd_same:
  assumes "\<And>r. ir_id (f r) = ir_id r" and "\<And>r. ir_deletion_requested (f r) = ir_deletion_requested r"
  shows "leaving (upd P f rs) = leaving rs"
proof -
  let ?g = "\<lambda>r. (ir_id r, ir_deletion_requested r)"
  have "leaving xs = {i. \<exists>n. n \<noteq> 0 \<and> (i, n) \<in> ?g ` set xs}" for xs by (force simp: leaving_def)
  moreover have "?g ` set (upd P f rs) = ?g ` set rs" using map_upd_key [of ?g f P rs] assms by (metis list.set_map)
  ultimately show ?thesis by simp
qed

lemma plan_of_cong:
  "vpcs d' = vpcs d \<Longrightarrow> subnets d' = subnets d \<Longrightarrow> enis d' = enis d \<Longrightarrow> instances d' = instances d \<Longrightarrow> plan_of d' = plan_of d"
  by (simp add: plan_of_def)


section \<open>Blocks and addresses\<close>

lemma block_cidr: "cidr_ok (cidr_of s) \<Longrightarrow> block (cidr_block s)"
  unfolding block_def cidr_block_def
  by (intro exI [of _ "pbase (cidr_of s)"] exI [of _ "32 - nat (Bits (cidr_of s))"])
    (auto simp: cidr_ok_def psize_def pbase_dvd [unfolded psize_def])

lemma Contains_block: "cidr_ok (cidr_of s) \<Longrightarrow> Contains (cidr_of s) a \<longleftrightarrow> Is4 a \<and> ip4 a \<in> cidr_block s"
  by (auto simp: Contains_interval cidr_block_def)

lemma block_addr:
  assumes "cidr_ok (cidr_of s)" and "n \<in> cidr_block s"
  obtains a where "Contains (cidr_of s) a" and "ip4 a = n"
proof -
  have "n < 2 ^ 32" using assms pbase_psize_le [of "cidr_of s"] by (auto simp: cidr_block_def)
  then obtain a where "Is4 a" "ip4 a = n" using ip4_surj by blast
  then show ?thesis using that assms by (simp add: Contains_block)
qed

lemma hosts_block:
  assumes "cidr_ok (cidr_of s)"
  shows "Contains (cidr_of s) a \<and> \<not> reservedAddress (cidr_of s) a \<longleftrightarrow> Is4 a \<and> ip4 a \<in> hosts (cidr_block s)"
proof -
  let ?b = "pbase (cidr_of s)" and ?n = "psize (cidr_of s)"
  have "0 < ?n" by simp
  then have "Min {?b ..< ?b + ?n} = ?b" "Max {?b ..< ?b + ?n} = ?b + ?n - 1"
    by (auto intro!: Min_eqI Max_eqI simp del: psize_pos)
  then have "n \<in> hosts (cidr_block s) \<longleftrightarrow> n \<in> cidr_block s \<and> ?b + 4 \<le> n \<and> n \<noteq> ?b + ?n - 1" for n
    by (simp add: hosts_def cidr_block_def)
  then show ?thesis using reservedAddress_iff [OF assms] Contains_block [OF assms] by (meson not_le)
qed

lemma disjoint_blocks:
  assumes "cidr_ok (cidr_of s)" and "cidr_ok (cidr_of t)" and "\<not> Overlaps (cidr_of s) (cidr_of t)"
  shows "cidr_block s \<inter> cidr_block t = {}"
proof (rule ccontr)
  assume "cidr_block s \<inter> cidr_block t \<noteq> {}"
  then obtain n where "n \<in> cidr_block s" "n \<in> cidr_block t" by blast
  moreover obtain a where "Contains (cidr_of s) a" "ip4 a = n" using calculation(1) by (rule block_addr [OF assms(1)])
  ultimately have "Contains (cidr_of t) a" using assms by (simp add: Contains_block)
  then show False using \<open>Contains (cidr_of s) a\<close> assms Overlaps_iff [of "cidr_of s" "cidr_of t"] by auto
qed

lemma nested_blocks:
  assumes "cidr_ok (cidr_of v)" and "cidr_ok (cidr_of s)" and "ValidateSubnetRange (cidr_of v) (cidr_of s) = Inr ()"
  shows "cidr_block s \<subseteq> cidr_block v"
proof
  fix n assume "n \<in> cidr_block s"
  then obtain a where a: "Contains (cidr_of s) a" "ip4 a = n" by (rule block_addr [OF assms(2)])
  then have "Contains (cidr_of v) a" using assms ValidateSubnetRange_ok [of "cidr_of v" "cidr_of s"] by auto
  then show "n \<in> cidr_block v" using a assms by (simp add: Contains_block)
qed

section \<open>Requests as steps of the plan\<close>

lemma tables_keys:
  assumes "db_inv d"
  shows "distinct (map vr_id (vpcs d))" "distinct (map sr_id (subnets d))" "distinct (map er_instance_id (enis d))"
    "r \<in> set (vpcs d) \<Longrightarrow> vr_workspace_id r = defaultWorkspace"
    "s \<in> set (subnets d) \<Longrightarrow> sr_workspace_id s = defaultWorkspace"
    "n \<in> set (instances d) \<Longrightarrow> ir_workspace_id n = defaultWorkspace"
    "r \<in> set (vpcs d) \<Longrightarrow> cidr_ok (cidr_of (vr_cidr_block r))"
    "s \<in> set (subnets d) \<Longrightarrow> cidr_ok (cidr_of (sr_cidr_block s))"
  using tables_inv [OF assms] cidr_text_of
  by (auto simp: inv_defs list_all_iff vrow_ok_def srow_ok_def irow_ok_def)

text \<open>No lease in a subnet without instances, for the interfaces lie in their instances' subnets.\<close>

lemma no_leases:
  assumes "db_inv d" and "\<forall>n \<in> set (instances d). ir_subnet_id n \<noteq> i"
  shows "leased (plan_of d) i = {}"
proof -
  have "er_subnet_id e \<noteq> i" if "e \<in> set (enis d)" for e
    using tables_inv(4) [OF assms(1)] that assms(2) by (auto simp: enis_ok_def list_all_iff owner_ok_def)
  then show ?thesis by (auto simp: leased_def keyed_Some [OF tables_keys(3) [OF assms(1)]])
qed

abbreviation plan_steps :: "plan \<Rightarrow> plan \<Rightarrow> bool" where
  "plan_steps \<equiv> plan_step\<^sup>*\<^sup>*"

lemma CreateVPC_plan:
  assumes "cidr_ok cidr" and "tx_CreateVPC unixepoch name cidr key hash i now d = Inr (x, d')"
  shows "plan_steps (plan_of d) (plan_of d')"
  using assms(2)
proof (cases rule: CreateVPC_run)
  case (created idx d1 d2 d3)
  let ?B = "cidr_block (prefix_string cidr)"
  have new: "\<forall>v \<in> set (vpcs d). vr_id v \<noteq> i" and
    rows: "\<exists>r. vpcs d2 = vpcs d @ [r] \<and> vr_id r = i \<and> vr_cidr_block r = prefix_string cidr \<and> vr_deletion_requested r = 0"
      "subnets d2 = subnets d" "instances d2 = instances d" "enis d2 = enis d"
    using created(2) indexed_tables [OF created(1)]
    by (auto simp: tx_InsertVPC_def q_InsertVPC_def Let_def split: if_splits)
  have "plan_of d' = plan_of d2" by (rule plan_of_cong) (simp_all add: appended_tables [OF created(3)] saved_tables [OF created(4)])
  also have "\<dots> = (plan_of d)\<lparr>plan_vpcs := (plan_vpcs (plan_of d))(i \<mapsto> (?B, False))\<rparr>"
    using rows new by (auto simp: plan_eq keyed_append)
  finally have "plan_of d' = \<dots>" .
  moreover have "block ?B" using cidr_text_string [OF assms(1)] assms(1) by (auto intro!: block_cidr)
  ultimately show ?thesis using plan_step.allot_vpc [of "plan_of d" i ?B] new by (simp add: keyed_None)
qed simp

lemma CreateSubnet_plan:
  assumes "db_inv d" and "cidr_ok cidr"
    and "tx_CreateSubnet unixepoch name vpcid cidr az key hash i now d = Inr (x, d')"
  shows "plan_steps (plan_of d) (plan_of d')"
  using assms(3)
proof (cases rule: CreateSubnet_run)
  case (created vpc siblings idx d1 d2 d3)
  let ?S = "cidr_block (prefix_string cidr)"
  note inv = assms(1)
  obtain v where v: "v \<in> set (vpcs d)" "vpc = vpc_of_row v"
    using tx_GetVPC_cases [OF tables_inv(1) [OF inv], of vpcid defaultWorkspace] created(1) by auto
  have c: "cidr_of (prefix_string cidr) = cidr" using cidr_text_string [OF assms(2)] by simp
  have new: "\<forall>s \<in> set (subnets d). sr_id s \<noteq> i" and
    rows: "\<exists>r. subnets d2 = subnets d @ [r] \<and> sr_id r = i \<and> sr_vpc_id r = vr_id v \<and>
        sr_cidr_block r = prefix_string cidr \<and> sr_deletion_requested r = 0"
      "vpcs d2 = vpcs d" "instances d2 = instances d" "enis d2 = enis d"
    using created(7) indexed_tables [OF created(6)] v(2)
    by (auto simp: tx_InsertSubnet_def q_InsertSubnet_def Let_def vpc_of_row_def split: if_splits)
  have "plan_of d' = plan_of d2" by (rule plan_of_cong) (simp_all add: appended_tables [OF created(8)] saved_tables [OF created(9)])
  also have "\<dots> = (plan_of d)\<lparr>plan_subnets := (plan_subnets (plan_of d))(i \<mapsto> (vr_id v, ?S, False))\<rparr>"
    using rows new by (auto simp: plan_eq keyed_append)
  finally have eq: "plan_of d' = \<dots>" .
  have "plan_step (plan_of d) (plan_of d')" unfolding eq
  proof (rule plan_step.carve_subnet)
    show "plan_subnets (plan_of d) i = None" using new by (simp add: keyed_None)
    show "block ?S" using assms(2) by (simp add: block_cidr c)
    show "plan_vpcs (plan_of d) (vr_id v) = Some (cidr_block (vr_cidr_block v), False)"
      using v created(2) by (auto simp: keyed_Some [OF tables_keys(1) [OF inv]] vpc_of_row_def)
    show "?S \<subseteq> cidr_block (vr_cidr_block v)"
      using created(3) v tables_keys(7) [OF inv v(1)] assms(2) by (intro nested_blocks) (simp_all add: c vpc_of_row_def)
    fix t T b
    assume "plan_subnets (plan_of d) t = Some (vr_id v, T, b)"
    then obtain y where y: "y \<in> set (subnets d)" "sr_vpc_id y = vr_id v" "T = cidr_block (sr_cidr_block y)"
      by (auto simp: keyed_Some [OF tables_keys(2) [OF inv]])
    have "\<not> Overlaps cidr (cidr_of (sr_cidr_block y))"
      using siblings_disjoint [OF inv created(4,5)] y v(2) by (simp add: vpc_of_row_def)
    then show "?S \<inter> T = {}"
      using y tables_keys(8) [OF inv y(1)] assms(2) by (metis c disjoint_blocks)
  qed
  then show ?thesis ..
qed simp

lemma DeleteVPC_plan:
  assumes "db_inv d" and "tx_DeleteVPC i now d = Inr (x, d')"
  shows "plan_steps (plan_of d) (plan_of d')"
proof (cases "plan_of d' = plan_of d")
  case False
  have "\<exists>v. tx_GetVPC defaultWorkspace i d = Inr v \<and> tx_ListSubnetsByVPC i d = Inr []"
    using assms(2) by (auto simp: tx_DeleteVPC_def tx_bind_Inr)
  then obtain v where v: "v \<in> set (vpcs d)" "vpc_key i defaultWorkspace v"
    and none: "\<forall>s \<in> set (subnets d). sr_vpc_id s \<noteq> i"
    using tx_GetVPC_cases [OF tables_inv(1) [OF assms(1)], of i defaultWorkspace]
      tx_ListSubnetsByVPC_ok [OF tables_inv(2) [OF assms(1)], of i] set_q_ListSubnetsByVPC [of i d] by auto
  have "d' = d \<or> (\<exists>d1 st g. q_MarkVPCDeleting now i defaultWorkspace d = Inr ((), d1) \<and>
      tx_AppendEvent defaultWorkspace ''vpc'' i ''deleting'' st g [] now d1 = Inr ((), d'))"
    using assms(2) by (auto simp: tx_DeleteVPC_def tx_MarkVPCDeleting_def tx_bind_Inr split: if_splits)
  then obtain d1 where d1: "q_MarkVPCDeleting now i defaultWorkspace d = Inr ((), d1)" "plan_of d' = plan_of d1"
    using False plan_of_cong [OF appended_tables(1,2,4,3)] by metis
  let ?P = "\<lambda>r. vpc_key i defaultWorkspace r \<and> vr_deletion_requested r = 0"
  have live: "vr_deletion_requested v = 0"
  proof (rule ccontr)
    assume "vr_deletion_requested v \<noteq> 0"
    then have "\<not> ?P s" if "s \<in> set (vpcs d)" for s
      using vpcs_unique [OF tables_inv(1) [OF assms(1)] v(1) that] v(2) unfolding vpc_key_def by metis
    then have "upd ?P f (vpcs d) = vpcs d" for f by (rule upd_idle)
    then show False using d1 False by (simp add: q_MarkVPCDeleting_def Let_def plan_of_def split: if_splits)
  qed
  let ?f = "\<lambda>r. r\<lparr>vr_state := ''deleting'', vr_state_reason := [], vr_deletion_requested := 1,
      vr_generation := vr_generation r + 1, vr_updated_at := now\<rparr>"
  have k: "keyed vr_id g (upd ?P ?f (vpcs d)) = (keyed vr_id g (vpcs d))(i \<mapsto> g (?f v))" for g :: "vpc_row \<Rightarrow> nat set \<times> bool"
    using keyed_upd [OF tables_keys(1) [OF assms(1)] v(1), of ?P ?f g] v(2) live by (simp add: vpc_key_def)
  have "plan_of d' = (plan_of d)\<lparr>plan_vpcs := (plan_vpcs (plan_of d))(i \<mapsto> (cidr_block (vr_cidr_block v), True))\<rparr>"
    using d1 k by (auto simp: q_MarkVPCDeleting_def Let_def plan_eq split: if_splits)
  moreover have "plan_vpcs (plan_of d) i = Some (cidr_block (vr_cidr_block v), False)"
    using v live by (auto simp: keyed_Some [OF tables_keys(1) [OF assms(1)]] vpc_key_def)
  moreover have "plan_subnets (plan_of d) s \<noteq> Some (i, S, b)" for s S b
    using none by (simp add: keyed_Some [OF tables_keys(2) [OF assms(1)]])
  ultimately show ?thesis using plan_step.retire_vpc [of "plan_of d" i] by simp
qed simp

lemma DeleteSubnet_plan:
  assumes "db_inv d" and "tx_DeleteSubnet i now d = Inr (x, d')"
  shows "plan_steps (plan_of d) (plan_of d')"
proof (cases "plan_of d' = plan_of d")
  case False
  have "\<exists>s. tx_GetSubnet defaultWorkspace i d = Inr s \<and> tx_CountInstancesInSubnet i d = 0"
    using assms(2) by (auto simp: tx_DeleteSubnet_def tx_bind_Inr)
  then obtain s where s: "s \<in> set (subnets d)" "subnet_key i defaultWorkspace s"
    and none: "\<forall>n \<in> set (instances d). ir_subnet_id n \<noteq> i"
    using tx_GetSubnet_cases [OF tables_inv(2) [OF assms(1)], of i defaultWorkspace]
    by (auto simp: tx_CountInstancesInSubnet_def q_CountInstancesInSubnet_def filter_empty_conv)
  have "d' = d \<or> (\<exists>d1 st g. q_MarkSubnetDeleting now i defaultWorkspace d = Inr ((), d1) \<and>
      tx_AppendEvent defaultWorkspace ''subnet'' i ''deleting'' st g [] now d1 = Inr ((), d'))"
    using assms(2) by (auto simp: tx_DeleteSubnet_def tx_MarkSubnetDeleting_def tx_bind_Inr split: if_splits)
  then obtain d1 where d1: "q_MarkSubnetDeleting now i defaultWorkspace d = Inr ((), d1)" "plan_of d' = plan_of d1"
    using False plan_of_cong [OF appended_tables(1,2,4,3)] by metis
  let ?P = "\<lambda>r. subnet_key i defaultWorkspace r \<and> sr_deletion_requested r = 0"
  have live: "sr_deletion_requested s = 0"
  proof (rule ccontr)
    assume "sr_deletion_requested s \<noteq> 0"
    then have "\<not> ?P t" if "t \<in> set (subnets d)" for t
      using subnets_unique [OF tables_inv(2) [OF assms(1)] s(1) that] s(2) unfolding subnet_key_def by metis
    then have "upd ?P f (subnets d) = subnets d" for f by (rule upd_idle)
    then show False using d1 False by (simp add: q_MarkSubnetDeleting_def Let_def plan_of_def split: if_splits)
  qed
  let ?f = "\<lambda>r. r\<lparr>sr_state := ''deleting'', sr_state_reason := [], sr_deletion_requested := 1,
      sr_generation := sr_generation r + 1, sr_updated_at := now\<rparr>"
  have k: "keyed sr_id g (upd ?P ?f (subnets d)) = (keyed sr_id g (subnets d))(i \<mapsto> g (?f s))"
    for g :: "subnet_row \<Rightarrow> string \<times> nat set \<times> bool"
    using keyed_upd [OF tables_keys(2) [OF assms(1)] s(1), of ?P ?f g] s(2) live by (simp add: subnet_key_def)
  have "plan_of d' = (plan_of d)\<lparr>plan_subnets :=
      (plan_subnets (plan_of d))(i \<mapsto> (sr_vpc_id s, cidr_block (sr_cidr_block s), True))\<rparr>"
    using d1 k by (auto simp: q_MarkSubnetDeleting_def Let_def plan_eq split: if_splits)
  moreover have "plan_subnets (plan_of d) i = Some (sr_vpc_id s, cidr_block (sr_cidr_block s), False)"
    using s live by (auto simp: keyed_Some [OF tables_keys(2) [OF assms(1)]] subnet_key_def)
  ultimately show ?thesis
    using plan_step.retire_subnet [of "plan_of d" i] no_leases [OF assms(1) none] by simp
qed simp

lemma used_addresses:
  assumes "db_inv d" and "tx_ENIAddresses sid d = Inr used"
  shows "ip4 ` set used = leased (plan_of d) sid" and "a \<in> set used \<Longrightarrow> Is4 a"
proof -
  let ?raws = "q_ListENIAddresses sid d"
  let ?f = "\<lambda>raw. case ParseAddr raw of None \<Rightarrow> Inl (Wrapf (''decode ENI private address '' @ Quote raw) (Errorf ''ParseAddr''))
    | Some a \<Rightarrow> if Is4 a then Inr a else Inl (Errorf (''decode ENI private address '' @ Quote raw @ '': not IPv4''))"
  have all: "list_all2 (\<lambda>raw a. ?f raw = Inr a) ?raws used"
    using assms(2) by (simp add: tx_ENIAddresses_def res_mapM_Inr_iff)
  then have each: "list_all2 (\<lambda>raw a. ip4 a = addr_num raw \<and> Is4 a) ?raws used"
    by (rule list_all2_mono) (auto simp: addr_num_def split: option.splits if_splits)
  then have "map ip4 used = map addr_num ?raws" by (auto simp: list_all2_conv_all_nth intro: nth_equalityI)
  then have "ip4 ` set used = addr_num ` set ?raws" by (metis list.set_map)
  also have "\<dots> = leased (plan_of d) sid"
    by (auto simp: leased_def q_ListENIAddresses_def keyed_Some [OF tables_keys(3) [OF assms(1)]])
  finally show "ip4 ` set used = leased (plan_of d) sid" .
  show "a \<in> set used \<Longrightarrow> Is4 a" using each by (auto simp: list_all2_conv_all_nth in_set_conv_nth)
qed

lemma Run_plan:
  assumes "db_inv d" and "tx_Run unixepoch name subnetID key hash i eniID now d = Inr (x, d')"
  shows "plan_steps (plan_of d) (plan_of d')"
  using assms(2)
proof (cases rule: Run_run)
  case (created subnet used address idx eidx d1 d2 d3 d4)
  note inv = assms(1)
  obtain s where s: "s \<in> set (subnets d)" "subnet = subnet_of_row s"
    using tx_GetSubnet_cases [OF tables_inv(2) [OF inv], of subnetID defaultWorkspace] created(1) by auto
  let ?p = "cidr_of (sr_cidr_block s)" and ?S = "cidr_block (sr_cidr_block s)"
  note p = tables_keys(8) [OF inv s(1)]
  have u: "ip4 ` set used = leased (plan_of d) (sr_id s)" "\<And>a. a \<in> set used \<Longrightarrow> Is4 a"
    using used_addresses [OF inv, of "sr_id s" used] created(3) s(2) by (simp_all add: subnet_of_row_def)
  have next': "Contains ?p address \<and> \<not> reservedAddress ?p address \<and> address \<notin> set used \<and>
      (\<forall>b. Contains ?p b \<and> \<not> reservedAddress ?p b \<and> b \<notin> set used \<longrightarrow> ip4 address \<le> ip4 b)"
    using nextPrivateIP_spec [OF p, of used] created(4) s(2) by (simp add: subnet_of_row_def)
  then have a: "Is4 address" "ip4 address \<in> hosts ?S" "address \<notin> set used" using hosts_block [OF p] by auto
  have new: "\<forall>e \<in> set (enis d). er_instance_id e \<noteq> i" and
    rows: "\<exists>e. enis d3 = enis d @ [e] \<and> er_instance_id e = i \<and> er_subnet_id e = sr_id s \<and>
        er_private_ip e = addr_string address"
      "\<exists>n. instances d3 = instances d @ [n] \<and> ir_deletion_requested n = 0"
      "vpcs d3 = vpcs d" "subnets d3 = subnets d"
    using created(7) indexed_tables [OF created(5)] indexed_tables [OF created(6)] s(2)
    by (auto simp: tx_InsertInstanceWithENI_def tx_bind_Inr q_InsertInstance_def q_InsertENI_def Let_def subnet_of_row_def
        split: if_splits)
  have "addr_num (addr_string address) = ip4 address" using a(1) by (simp add: addr_num_def ParseAddr_string)
  moreover have "plan_of d' = plan_of d3"
    by (rule plan_of_cong) (simp_all add: appended_tables [OF created(8)] saved_tables [OF created(9)])
  ultimately have eq: "plan_of d' = (plan_of d)\<lparr>plan_leases := (plan_leases (plan_of d))(i \<mapsto> (sr_id s, ip4 address))\<rparr>"
    using rows new by (auto simp: plan_eq keyed_append leaving_def)
  have "plan_step (plan_of d) (plan_of d')" unfolding eq
  proof (rule plan_step.lease)
    show "plan_leases (plan_of d) i = None" using new by (simp add: keyed_None)
    show "plan_subnets (plan_of d) (sr_id s) = Some (sr_vpc_id s, ?S, False)"
      using s created(2) by (auto simp: keyed_Some [OF tables_keys(2) [OF inv]] subnet_of_row_def)
    show "ip4 address \<in> hosts ?S - leased (plan_of d) (sr_id s)"
      using a u(2) ip4_inject by (force simp flip: u(1))
    fix m assume m: "m \<in> hosts ?S - leased (plan_of d) (sr_id s)"
    then have "m \<in> ?S" by (simp add: hosts_def)
    then obtain b where b: "Contains ?p b" "ip4 b = m" by (rule block_addr [OF p])
    then have "\<not> reservedAddress ?p b" "b \<notin> set used"
      using m hosts_block [OF p, of b] Contains_block [OF p, of b] by (auto simp flip: u(1))
    then show "ip4 address \<le> m" using next' b by blast
  qed
  then show ?thesis ..
qed simp

lemma Terminate_plan:
  assumes "db_inv d" and "tx_TerminateSnapshot i now d = Inr (x, d')"
  shows "plan_steps (plan_of d) (plan_of d')"
proof (cases "plan_of d' = plan_of d")
  case False
  have "\<exists>n. tx_GetInstance defaultWorkspace i d = Inr n" using assms(2) by (auto simp: tx_TerminateSnapshot_def tx_bind_Inr)
  then obtain r e where r: "r \<in> set (instances d)" "ir_id r = i" and e: "e \<in> set (enis d)" "er_instance_id e = i"
    using tx_GetInstance_cases [OF tables_inv(3,4,2) [OF assms(1)], of i defaultWorkspace] by (auto simp: instance_key_def)
  have "d' = d \<or> (\<exists>d1 g. q_MarkInstanceTerminating now i defaultWorkspace d = Inr ((), d1) \<and>
      tx_AppendEvent defaultWorkspace ''instance'' i ''terminating'' InstanceShuttingDown g [] now d1 = Inr ((), d'))"
    using assms(2) by (auto simp: tx_TerminateSnapshot_def tx_MarkInstanceTerminating_def tx_bind_Inr split: if_splits)
  then obtain d1 where d1: "q_MarkInstanceTerminating now i defaultWorkspace d = Inr ((), d1)" "plan_of d' = plan_of d1"
    using False plan_of_cong [OF appended_tables(1,2,4,3)] by metis
  have rows: "set (instances d1) = (\<lambda>n. if instance_key i defaultWorkspace n \<and> ir_deletion_requested n = 0
        then n\<lparr>ir_state := ''shutting-down'', ir_state_reason := [], ir_deletion_requested := 1,
          ir_generation := ir_generation n + 1, ir_updated_at := now\<rparr> else n) ` set (instances d)"
      "vpcs d1 = vpcs d" "subnets d1 = subnets d" "enis d1 = enis d"
    using d1(1) by (auto simp: q_MarkInstanceTerminating_def Let_def set_upd split: if_splits)
  have "i \<in> leaving (instances d1)"
  proof -
    let ?n = "\<lambda>n. if instance_key i defaultWorkspace n \<and> ir_deletion_requested n = 0
        then n\<lparr>ir_state := ''shutting-down'', ir_state_reason := [], ir_deletion_requested := 1,
          ir_generation := ir_generation n + 1, ir_updated_at := now\<rparr> else n"
    have "?n r \<in> set (instances d1)" unfolding rows(1) using r(1) by (rule imageI)
    moreover have "ir_id (?n r) = i" "ir_deletion_requested (?n r) \<noteq> 0"
      using r tables_keys(6) [OF assms(1) r(1)] by (simp_all add: instance_key_def)
    ultimately show ?thesis unfolding leaving_def by blast
  qed
  moreover have "j \<in> leaving (instances d1) \<longleftrightarrow> j \<in> leaving (instances d)" if "j \<noteq> i" for j
    using that by (fastforce simp: leaving_def rows(1) instance_key_def)
  ultimately have "plan_leaving (plan_of d1) = insert i (plan_leaving (plan_of d))"
    unfolding plan_of_sel by (intro set_eqI) (metis insert_iff)
  then have "plan_of d' = (plan_of d)\<lparr>plan_leaving := insert i (plan_leaving (plan_of d))\<rparr>"
    using d1(2) rows(2-4) by (simp add: plan_eq)
  moreover have "plan_leases (plan_of d) i \<noteq> None" using e by (auto simp: keyed_None)
  ultimately show ?thesis using plan_step.leave [of "plan_of d" i] by simp
qed simp

section \<open>Controller writes as steps of the plan\<close>

text \<open>What a write keeps: it has followed the plan so far, and the subnets asked to leave still are.\<close>

definition follows :: "plan \<Rightarrow> string set \<Rightarrow> db \<Rightarrow> bool" where
  "follows P D d \<longleftrightarrow> db_inv d \<and> plan_steps P (plan_of d) \<and>
     (\<forall>i v S b. i \<in> D \<and> plan_subnets (plan_of d) i = Some (v, S, b) \<longrightarrow> b)"

lemma follows_same: "follows P D d \<Longrightarrow> db_inv d' \<Longrightarrow> plan_of d' = plan_of d \<Longrightarrow> follows P D d'"
  unfolding follows_def by (auto simp del: plan_of_sel)

lemma status_plan:
  "q_UpdateVPCStatus st reason og t i ws d = Inr (u, d') \<Longrightarrow> plan_of d' = plan_of d"
  "q_UpdateSubnetStatus st reason og t i ws d = Inr (u, d') \<Longrightarrow> plan_of d' = plan_of d"
  "q_UpdateInstanceStatus st reason og t i ws d = Inr (u, d') \<Longrightarrow> plan_of d' = plan_of d"
  "q_UpdateInstanceENIStatus st reason og t i ws d = Inr (u, d') \<Longrightarrow> plan_of d' = plan_of d"
  "tx_AppendEvent ws rt rid act st g msg t d = Inr (u, d') \<Longrightarrow> plan_of d' = plan_of d"
  by (auto simp: q_UpdateVPCStatus_def q_UpdateSubnetStatus_def q_UpdateInstanceStatus_def q_UpdateInstanceENIStatus_def
      Let_def plan_eq keyed_upd_same leaving_upd_same appended_tables split: if_splits)

lemma follows_statements [keeps]:
  "tx_keeps (follows P D) (q_UpdateVPCStatus st reason og t i ws)"
  "tx_keeps (follows P D) (q_UpdateSubnetStatus st reason og t i ws)"
  "tx_keeps (follows P D) (q_UpdateInstanceStatus st reason og t i ws)"
  "tx_keeps (follows P D) (q_UpdateInstanceENIStatus st reason og t i ws)"
  "tx_keeps (follows P D) (tx_AppendEvent ws rt rid act st g msg t)"
proof -
  have inv: "db_inv d" if "follows P D d" for d using that by (simp add: follows_def)
  show "tx_keeps (follows P D) (q_UpdateVPCStatus st reason og t i ws)"
    by (rule tx_keepsI) (metis follows_same inv inv_UpdateVPCStatus status_plan(1))
  show "tx_keeps (follows P D) (q_UpdateSubnetStatus st reason og t i ws)"
    by (rule tx_keepsI) (metis follows_same inv inv_UpdateSubnetStatus status_plan(2))
  show "tx_keeps (follows P D) (q_UpdateInstanceStatus st reason og t i ws)"
    by (rule tx_keepsI) (metis follows_same inv inv_UpdateInstanceStatus status_plan(3))
  show "tx_keeps (follows P D) (q_UpdateInstanceENIStatus st reason og t i ws)"
    by (rule tx_keepsI) (metis follows_same inv inv_UpdateInstanceENIStatus status_plan(4))
  show "tx_keeps (follows P D) (tx_AppendEvent ws rt rid act st g msg t)"
    by (rule tx_keepsI) (metis follows_same inv inv_AppendEvent(1) status_plan(5))
qed

lemma follows_DeleteSubnet:
  assumes "i \<in> D"
  shows "tx_keeps (follows P D) (q_DeleteSubnet i ws)"
proof (rule tx_keepsI)
  fix d :: db and u d'
  assume f: "follows P D d" and run: "q_DeleteSubnet i ws d = Inr (u, d')"
  then have inv: "db_inv d" and steps: "plan_steps P (plan_of d)" by (simp_all add: follows_def)
  have inv': "db_inv d'" by (rule inv_DeleteSubnet [OF inv run])
  have d': "d' = d\<lparr>subnets := filter (\<lambda>r. \<not> subnet_key i ws r) (subnets d)\<rparr>"
    using run by (auto simp: q_DeleteSubnet_def split: if_splits)
  have "plan_steps (plan_of d) (plan_of d')"
  proof (cases "\<exists>s \<in> set (subnets d). subnet_key i ws s")
    case True
    then obtain s where s: "s \<in> set (subnets d)" "sr_id s = i" "sr_workspace_id s = ws" by (auto simp: subnet_key_def)
    then have ws: "ws = defaultWorkspace" using tables_keys(5) [OF inv] by auto
    have none: "\<forall>n \<in> set (instances d). ir_subnet_id n \<noteq> i"
      using run s tables_keys(6) [OF inv] ws by (auto simp: q_DeleteSubnet_def subnet_key_def split: if_splits)
    have "plan_of d' = (plan_of d)\<lparr>plan_subnets := (plan_subnets (plan_of d))(i := None)\<rparr>"
      using keyed_filter [OF tables_keys(2) [OF inv], of "\<lambda>r. \<not> subnet_key i ws r" i] tables_keys(5) [OF inv] ws d'
      by (simp add: plan_eq subnet_key_def)
    moreover have row: "plan_subnets (plan_of d) i = Some (sr_vpc_id s, cidr_block (sr_cidr_block s), sr_deletion_requested s \<noteq> 0)"
      using s(1,2) by (auto simp: keyed_Some [OF tables_keys(2) [OF inv]])
    moreover have "sr_deletion_requested s \<noteq> 0" using f assms row unfolding follows_def by blast
    ultimately show ?thesis using plan_step.release_subnet [of "plan_of d" i] no_leases [OF inv none] by simp
  next
    case False
    then have "filter (\<lambda>r. \<not> subnet_key i ws r) (subnets d) = subnets d" by (simp add: filter_id_conv)
    then show ?thesis using d' by simp
  qed
  moreover have "plan_subnets (plan_of d') j = Some x \<Longrightarrow> plan_subnets (plan_of d) j = Some x" for j x
    unfolding plan_of_sel keyed_Some [OF tables_keys(2) [OF inv]] keyed_Some [OF tables_keys(2) [OF inv']] by (auto simp: d')
  ultimately show "follows P D d'" using f inv' steps unfolding follows_def by (metis rtranclp_trans)
qed

lemma follows_recordChild:
  assumes "sub_DeletionRequested c \<longrightarrow> sub_ID c \<in> D"
  shows "tx_keeps (follows P D) (recordChild state reason effect now c)"
  using assms unfolding recordChild_def tx_recordSubnetStatus_def Let_def
  by (auto intro!: keeps follows_DeleteSubnet)

lemma DeleteVPC_row_plan:
  assumes inv: "db_inv d" and v: "v \<in> set (vpcs d)" "vr_id v = i" "vr_deletion_requested v \<noteq> 0"
    and run: "q_DeleteVPC i ws d = Inr (u, d')" and ws: "vr_workspace_id v = ws"
  shows "plan_step (plan_of d) (plan_of d')"
proof -
  have ws': "ws = defaultWorkspace" using tables_keys(4) [OF inv v(1)] ws by simp
  have none: "sr_vpc_id s \<noteq> i" if "s \<in> set (subnets d)" for s
    using run v ws tables_keys(5) [OF inv that] ws' that by (auto simp: q_DeleteVPC_def vpc_key_def split: if_splits)
  have "plan_of d' = (plan_of d)\<lparr>plan_vpcs := (plan_vpcs (plan_of d))(i := None)\<rparr>"
    using run keyed_filter [OF tables_keys(1) [OF inv], of "\<lambda>r. \<not> vpc_key i ws r" i] tables_keys(4) [OF inv] ws'
    by (auto simp: q_DeleteVPC_def plan_eq vpc_key_def split: if_splits)
  moreover have "plan_vpcs (plan_of d) i = Some (cidr_block (vr_cidr_block v), True)"
    using v by (auto simp: keyed_Some [OF tables_keys(1) [OF inv]])
  moreover have "plan_subnets (plan_of d) s \<noteq> Some (i, S, b)" for s S b
    using none by (auto simp: keyed_Some [OF tables_keys(2) [OF inv]])
  ultimately show ?thesis using plan_step.release_vpc [of "plan_of d" i] by simp
qed

lemma RecordTopology_plan:
  assumes inv: "db_inv d" and run: "tx_RecordTopology now vpc applied effect d = Inr (x, d')"
  shows "plan_steps (plan_of d) (plan_of d')"
proof -
  obtain current children where get: "tx_GetVPC (vpc_WorkspaceID vpc) (vpc_ID vpc) d = Inr current"
      "vpc_DeletionRequested current = vpc_DeletionRequested vpc" "tx_ListSubnetsByVPC (vpc_ID vpc) d = Inr children"
    using run by (auto simp: tx_RecordTopology_def tx_bind_Inr split: sum.splits)
  obtain v where v: "v \<in> set (vpcs d)" "vpc_key (vpc_ID vpc) (vpc_WorkspaceID vpc) v" "current = vpc_of_row v"
    using tx_GetVPC_cases [OF tables_inv(1) [OF inv], of "vpc_ID vpc" "vpc_WorkspaceID vpc"] get(1) by auto
  show ?thesis
  proof (cases "vpc_DeletionRequested vpc \<and> effect = None")
    case True
    then obtain d1 where "q_DeleteVPC (vpc_ID vpc) (vpc_WorkspaceID vpc) d = Inr ((), d1)" and
      "tx_AppendEvent (vpc_WorkspaceID vpc) ''vpc'' (vpc_ID vpc) ''deleted'' ''deleted'' (vpc_Generation vpc) [] now d1
        = Inr (x, d')"
      using run by (auto simp: tx_RecordTopology_def tx_bind_Inr split: sum.splits)
    then show ?thesis
      using DeleteVPC_row_plan [OF inv v(1)] v(2,3) get(2) True status_plan(5) by (auto simp: vpc_key_def vpc_of_row_def)
  next
    case False
    define D where "D = {sub_ID c | c. c \<in> set children \<and> sub_DeletionRequested c}"
    have rows: "children = map subnet_of_row (q_ListSubnetsByVPC (vpc_ID vpc) d)"
      using get(3) tx_ListSubnetsByVPC_ok [OF tables_inv(2) [OF inv], of "vpc_ID vpc"] by simp
    have "follows (plan_of d) D d"
      using inv subnets_unique [OF tables_inv(2) [OF inv]]
      by (fastforce simp: follows_def D_def rows set_q_ListSubnetsByVPC subnet_of_row_def keyed_Some [OF tables_keys(2) [OF inv]])
    moreover obtain d1 where first: "tx_recordVPCStatus current (case effect of None \<Rightarrow> StateAvailable | Some _ \<Rightarrow> StateFailed)
        (case effect of None \<Rightarrow> [] | Some t \<Rightarrow> t) (effect = None) now d = Inr ((), d1)"
      and rest: "tx_iter (recordChild (case effect of None \<Rightarrow> StateAvailable | Some _ \<Rightarrow> StateFailed)
        (case effect of None \<Rightarrow> [] | Some t \<Rightarrow> t) effect now) children d1 = Inr (x, d')"
      using run False get by (auto simp: tx_RecordTopology_def tx_bind_Inr Let_def split: sum.splits)
    moreover have "tx_keeps (follows (plan_of d) D) (tx_recordVPCStatus current state reason b now)" for state reason b
      unfolding tx_recordVPCStatus_def Let_def by (intro keeps)
    ultimately have "follows (plan_of d) D d1" unfolding tx_keeps_def by blast
    then have "follows (plan_of d) D d'"
    proof (rule tx_iter_invariant [OF rest])
      fix c d1 d2 and u
      assume "c \<in> set children"
      then have "sub_DeletionRequested c \<longrightarrow> sub_ID c \<in> D" by (auto simp: D_def)
      from follows_recordChild [OF this]
      show "follows (plan_of d) D d1 \<Longrightarrow> recordChild (case effect of None \<Rightarrow> StateAvailable | Some _ \<Rightarrow> StateFailed)
        (case effect of None \<Rightarrow> [] | Some t \<Rightarrow> t) effect now c d1 = Inr (u, d2) \<Longrightarrow> follows (plan_of d) D d2"
        unfolding tx_keeps_def by blast
    qed
    then show ?thesis by (simp add: follows_def)
  qed
qed

lemma RecordInstance_plan:
  assumes "db_inv d" and "tx_RecordInstance now snapshot status reason observed d = Inr (x, d')"
  shows "plan_steps (plan_of d) (plan_of d')"
proof -
  have "tx_keeps (follows (plan_of d) {}) (tx_RecordInstance now snapshot status reason observed)"
    unfolding tx_RecordInstance_def Let_def by (intro keeps)
  moreover have "follows (plan_of d) {} d" using assms(1) by (simp add: follows_def)
  ultimately have "follows (plan_of d) {} d'" using assms(2) unfolding tx_keeps_def by blast
  then show ?thesis by (simp add: follows_def)
qed

lemma FinishInstanceTermination_plan:
  assumes inv: "db_inv d" and run: "tx_FinishInstanceTermination now snapshot d = Inr (x, d')"
  shows "plan_steps (plan_of d) (plan_of d')"
proof -
  obtain current d1 d2 where get: "tx_GetInstance (inst_WorkspaceID snapshot) (inst_ID snapshot) d = Inr current"
      "inst_DeletionRequested current" and
    del: "q_DeleteInstanceENI (eni_ID (inst_ENI current)) (inst_WorkspaceID current) d = Inr ((), d1)"
      "q_DeleteInstance (inst_ID current) (inst_WorkspaceID current) d1 = Inr ((), d2)" and
    app: "tx_AppendEvent (inst_WorkspaceID current) ''instance'' (inst_ID current) ''deleted'' ''deleted''
         (inst_Generation current) [] now d2 = Inr (x, d')"
    using run by (auto simp: tx_FinishInstanceTermination_def tx_bind_Inr split: sum.splits)
  obtain r e where r: "r \<in> set (instances d)" "e \<in> set (enis d)" "er_instance_id e = ir_id r" "current = instance_of_rows r e"
    using tx_GetInstance_cases [OF tables_inv(3,4,2) [OF inv], of "inst_ID snapshot" "inst_WorkspaceID snapshot"] get(1) by auto
  note E = tables_inv(4) [OF inv]
  have w: "er_workspace_id x = defaultWorkspace" if "x \<in> set (enis d)" for x
    using E that by (simp add: enis_ok_def list_all_iff erow_ok_def)
  have one: "eni_key (er_id e) defaultWorkspace x \<longleftrightarrow> er_instance_id x = ir_id r" if "x \<in> set (enis d)" for x
    using E r(2,3) that w [OF that] by (auto simp: enis_ok_def eni_key_def dest: distinct_map_unique)
  have ws: "ir_workspace_id r = defaultWorkspace" by (rule tables_keys(6) [OF inv r(1)])
  let ?i = "ir_id r"
  have d2: "d2 = d\<lparr>enis := filter (\<lambda>x. \<not> eni_key (er_id e) defaultWorkspace x) (enis d),
      instances := filter (\<lambda>n. \<not> instance_key ?i defaultWorkspace n) (instances d)\<rparr>"
    using del r(4) ws by (auto simp: q_DeleteInstanceENI_def q_DeleteInstance_def instance_of_rows_def split: if_splits)
  have "plan_of d' = plan_of d2" using app by (rule status_plan(5))
  moreover have "plan_of d2 = (plan_of d)\<lparr>plan_leases := (plan_leases (plan_of d))(?i := None),
      plan_leaving := plan_leaving (plan_of d) - {?i}\<rparr>"
    using keyed_filter [OF tables_keys(3) [OF inv], of "\<lambda>x. \<not> eni_key (er_id e) defaultWorkspace x" ?i] one
      tables_keys(6) [OF inv] d2
    by (auto simp: plan_eq instance_key_def leaving_def)
  moreover have "?i \<in> plan_leaving (plan_of d)" using r(1,4) get(2) by (auto simp: instance_of_rows_def leaving_def)
  ultimately show ?thesis using plan_step.release [of ?i "plan_of d"] by simp
qed

lemma runtime_plan:
  "plan_of (snd (store_RecordRuntimeID i g rid d)) = plan_of d"
  "plan_of (snd (store_RetainTerminatingRuntimeID i rid d)) = plan_of d"
  by (auto simp: store_RecordRuntimeID_def store_RetainTerminatingRuntimeID_def autocommit_def tx_wrap_def
      q_RecordRuntimeID_def q_RetainTerminatingRuntimeID_def Let_def plan_eq leaving_upd_same)

section \<open>Every step\<close>

lemma WithTx_plan:
  assumes "\<And>x d'. m d = Inr (x, d') \<Longrightarrow> plan_steps (plan_of d) (plan_of d')"
  shows "plan_steps (plan_of d) (plan_of (snd (WithTx f m d)))"
  by (rule WithTx_cases [of f m d]) (auto intro: assms)

lemma requests_plan:
  assumes "db_inv d"
  shows "plan_steps (plan_of d) (plan_of (fst (snd (svc_CreateVPC f entropy epoch now vin key d))))"
    "plan_steps (plan_of d) (plan_of (fst (snd (svc_DeleteVPC f now i d))))"
    "plan_steps (plan_of d) (plan_of (fst (snd (svc_CreateSubnet f entropy epoch now sin key d))))"
    "plan_steps (plan_of d) (plan_of (fst (snd (svc_DeleteSubnet f now i d))))"
    "plan_steps (plan_of d) (plan_of (fst (snd (svc_Run f entropy entropy' epoch now rin key d))))"
    "plan_steps (plan_of d) (plan_of (fst (snd (svc_TerminateSnapshot f now i d))))"
  unfolding svc_CreateVPC_def svc_DeleteVPC_def svc_CreateSubnet_def svc_DeleteSubnet_def svc_Run_def svc_TerminateSnapshot_def
    Let_def
  by (auto simp: reply_keeps res_bind_Inr ParseCIDR_ok split: sum.split intro!: WithTx_plan
      dest: CreateVPC_plan [rotated] CreateSubnet_plan [OF assms, rotated] DeleteVPC_plan [OF assms]
        DeleteSubnet_plan [OF assms] Run_plan [OF assms] Terminate_plan [OF assms])

lemma db_step_plan: "db_step d d' \<Longrightarrow> db_inv d \<Longrightarrow> plan_steps (plan_of d) (plan_of d')"
proof (induction rule: db_step.induct)
  case (terminate_instance d f now i)
  then show ?case using requests_plan(6) [of d f now i] by (auto simp: svc_Terminate_def split: prod.splits sum.splits)
next
  case (record_topology d c f now vpc applied effect)
  then show ?case by (auto simp: store_RecordTopology_def intro!: WithTx_plan RecordTopology_plan split: option.split)
next
  case (record_instance d f now snapshot status reason observed)
  then show ?case by (auto simp: store_RecordInstance_def intro!: WithTx_plan RecordInstance_plan)
next
  case (finish_termination d f now snapshot)
  then show ?case by (auto simp: store_FinishInstanceTermination_def intro!: WithTx_plan FinishInstanceTermination_plan)
qed (auto simp: requests_plan runtime_plan)

end
