(* ===== verification/ConsoleBridge.thy ===== *)
theory ConsoleBridge
  imports ConsoleProtocol ApiServer Podman
begin

text \<open>
  The two ends of an instance console, \<open>internal/apiserver/console.go\<close> and
  \<open>cmd/nephos/console.go\<close>. The wire between them is the list of frames one end has sent, in
  order; the other end sees a prefix of it. The server's goroutines are a step relation, so
  that every interleaving of the output pumps, the waiter, the input reader and the main loop
  is one of its runs.
\<close>

datatype ws_kind = MessageText | MessageBinary | MessageOther

datatype ws_frame = WsMsg ws_kind string | WsClose int

definition StatusNormalClosure :: int where
  "StatusNormalClosure = 1000"

definition StatusPolicyViolation :: int where
  "StatusPolicyViolation = 1008"

section \<open>The server: opening a console\<close>

definition offersConsoleProtocol :: "string \<Rightarrow> bool" where
  "offersConsoleProtocol header \<longleftrightarrow> (\<exists>offered \<in> set (split_at (CHR '','') header). TrimSpace offered = Subprotocol)"

definition consoleReady :: "Instance \<Rightarrow> bool" where
  "consoleReady n \<longleftrightarrow> \<not> inst_DeletionRequested n \<and> inst_State n = InstanceRunning \<and>
     inst_ObservedGeneration n = inst_Generation n \<and> inst_RuntimeID n \<noteq> []"

text \<open>
  What the surroundings decide: the text of an error, the result of closing the session, of a
  write and of closing the connection, whether a close frame left before closing failed, and
  whether the report of an error and its close frame left.
\<close>

record console_io =
  ci_text :: "goerr \<Rightarrow> string"
  ci_session_close :: "unit res"
  ci_write :: "unit res"
  ci_close :: "unit res"
  ci_close_sent :: bool
  ci_report :: "bool \<times> bool"

definition writeConsoleError :: "console_io \<Rightarrow> goerr \<Rightarrow> ws_frame list" where
  "writeConsoleError io e =
     (let message = ci_text io e;
          message = (if length message > 2048 then take 2048 message else message);
          raw = server_marshal (SendError \<lparr>er_Type = ''error'', er_Message = message\<rparr>) in
      (if fst (ci_report io) then [WsMsg MessageText raw] else []) @
      (if snd (ci_report io) then [WsClose StatusPolicyViolation] else []))"

text \<open>A handler's end: a plain response, a failed handshake, an ended connection, or an open session.\<close>

datatype console_reply =
    Refused response
  | HandshakeFailed
  | Ended "ws_frame list"
  | Session execSession bool

text \<open>
  \<open>got\<close> and \<open>again\<close> are the two lookups of the instance, \<open>accept\<close> the subprotocol of the
  accepted connection, \<open>first\<close> what the first read gives.
\<close>

definition start_console ::
  "console_io \<Rightarrow> (string \<Rightarrow> ExecRequest \<Rightarrow> ('x, execSession) eff) \<Rightarrow> Instance res \<Rightarrow> (ws_kind \<times> string) res \<Rightarrow> 'x \<Rightarrow>
   console_reply \<times> 'x" where
  "start_console io exec again first x =
     (case first of
        Inl e \<Rightarrow> (Ended (writeConsoleError io (Wrapf ''console start missing'' e)), x)
      | Inr (kind, raw) \<Rightarrow>
          if kind \<noteq> MessageText then (Ended (writeConsoleError io (Errorf ''first console message must be start text'')), x)
          else
            (case ParseClientText raw of
               Inl e \<Rightarrow> (Ended (writeConsoleError io (Errorf ''invalid console start frame'')), x)
             | Inr control \<Rightarrow>
                 (case (cc_Type control = ''start'', cc_Start control) of
                    (True, Some start) \<Rightarrow>
                      (case again of
                         Inl e \<Rightarrow> (Ended (writeConsoleError io (Errorf ''instance is no longer running'')), x)
                       | Inr n \<Rightarrow>
                           if \<not> consoleReady n then (Ended (writeConsoleError io (Errorf ''instance is no longer running'')), x)
                           else
                             (case exec (inst_RuntimeID n)
                                     \<lparr>xr_Command = st_Command start, xr_TTY = st_TTY start, xr_Rows = st_Rows start, xr_Cols = st_Cols start\<rparr> x of
                                (Inl e, x) \<Rightarrow> (Ended (writeConsoleError io e), x)
                              | (Inr s, x) \<Rightarrow> (Session s (st_TTY start), x)))
                  | _ \<Rightarrow> (Ended (writeConsoleError io (Errorf ''invalid console start frame'')), x))))"

definition GetInstanceConsole ::
  "server \<Rightarrow> console_io \<Rightarrow> (string \<Rightarrow> ExecRequest \<Rightarrow> ('x, execSession) eff) \<Rightarrow> string \<Rightarrow> string \<Rightarrow> http_request \<Rightarrow>
   Instance res \<Rightarrow> string res \<Rightarrow> (ws_kind \<times> string) res \<Rightarrow> Instance res \<Rightarrow> 'x \<Rightarrow> console_reply \<times> 'x" where
  "GetInstanceConsole sv io exec workspace i r got accept first again x =
     (case checkWorkspace workspace of
        Inl resp \<Rightarrow> (Refused resp, x)
      | Inr _ \<Rightarrow>
     (case checkInstances sv of
        Inl resp \<Rightarrow> (Refused resp, x)
      | Inr _ \<Rightarrow>
          if \<not> sv_console sv then (Refused (writeAPIError 503 ''ServiceUnavailable'' ''console runtime is not ready'' []), x)
          else
            (case got of
               Inl e \<Rightarrow> (Refused (writeServiceError e), x)
             | Inr n \<Rightarrow>
                 if \<not> consoleReady n then (Refused (writeAPIError 409 ''IncorrectState'' ''instance is not running'' i), x)
                 else if \<not> offersConsoleProtocol (hr_Header r ''Sec-WebSocket-Protocol'')
                 then (Refused (writeAPIError 400 ''InvalidParameterValue'' ''nephos.console.v1 subprotocol is required'' i), x)
                 else
                   (case accept of
                      Inl e \<Rightarrow> (HandshakeFailed, x)
                    | Inr subprotocol \<Rightarrow>
                        if subprotocol \<noteq> Subprotocol then (Ended [WsClose StatusPolicyViolation], x)
                        else start_console io exec again first x))))"

section \<open>The server: bridging a session\<close>

record consoleEvent =
  ce_channel :: char
  ce_data :: string
  ce_exit :: "int option"
  ce_err :: "goerr option"

abbreviation data_event :: "char \<Rightarrow> string \<Rightarrow> consoleEvent" where
  "data_event channel chunk \<equiv> \<lparr>ce_channel = channel, ce_data = chunk, ce_exit = None, ce_err = None\<rparr>"

abbreviation error_event :: "goerr \<Rightarrow> consoleEvent" where
  "error_event e \<equiv> \<lparr>ce_channel = CHR 0x00, ce_data = [], ce_exit = None, ce_err = Some e\<rparr>"

abbreviation exit_event :: "int \<Rightarrow> consoleEvent" where
  "exit_event code \<equiv> \<lparr>ce_channel = CHR 0x00, ce_data = [], ce_exit = Some code, ce_err = None\<rparr>"

text \<open>
  The events a pump sends for what the reads of its stream give, each the bytes and an error,
  and whether the pump has returned.
\<close>

fun pumpConsoleOutput :: "char \<Rightarrow> (string \<times> goerr option) list \<Rightarrow> consoleEvent list \<times> bool" where
  "pumpConsoleOutput channel [] = ([], False)"
| "pumpConsoleOutput channel ((buf, err) # reads) =
     (let chunk = (if buf \<noteq> [] then [data_event channel buf] else []) in
      case err of
        Some e \<Rightarrow>
          if err_is ErrEOF e then (chunk, True)
          else (chunk @ [error_event (Wrapf ''read console output'' e)], True)
      | None \<Rightarrow> (case pumpConsoleOutput channel reads of (es, returned) \<Rightarrow> (chunk @ es, returned)))"

text \<open>The event of the goroutine that waits for the session's exit.\<close>

definition wait_event :: "int res \<Rightarrow> consoleEvent" where
  "wait_event r =
     (case r of
        Inl e \<Rightarrow> error_event (Wrapf ''wait for console exit'' e)
      | Inr code \<Rightarrow>
          if code < 0 \<or> code > 255 then error_event (Errorf ''console returned an invalid exit status'') else exit_event code)"

definition writeConsoleMessage :: "console_io \<Rightarrow> unit res" where
  "writeConsoleMessage io = res_wrap ''write console message'' (ci_write io)"

text \<open>
  What the main loop does with an event: the frames it sends, and the loop's result once it is
  over. The deferred function reports the error.
\<close>

definition bridge_fails :: "console_io \<Rightarrow> ws_frame list \<Rightarrow> goerr \<Rightarrow> ws_frame list \<times> unit res option" where
  "bridge_fails io sent e = (sent @ writeConsoleError io e, Some (Inl e))"

definition handle_event :: "bool \<Rightarrow> console_io \<Rightarrow> consoleEvent \<Rightarrow> ws_frame list \<times> unit res option" where
  "handle_event tty io event =
     (case ce_err event of
        Some e \<Rightarrow> bridge_fails io [] e
      | None \<Rightarrow>
     (case ce_exit event of
        Some code \<Rightarrow>
          (case ci_session_close io of
             Inl e \<Rightarrow> bridge_fails io [] (Wrapf ''close console session'' e)
           | Inr _ \<Rightarrow>
               (case writeConsoleMessage io of
                  Inl e \<Rightarrow> bridge_fails io [] e
                | Inr _ \<Rightarrow>
                    let last = WsMsg MessageText (server_marshal (SendExit \<lparr>ex_Type = ''exit'', ex_ExitCode = code\<rparr>)) in
                    (case ci_close io of
                       Inl e \<Rightarrow> bridge_fails io (last # (if ci_close_sent io then [WsClose StatusNormalClosure] else []))
                                 (Wrapf ''close console connection'' e)
                     | Inr _ \<Rightarrow> ([last, WsClose StatusNormalClosure], Some (Inr ())))))
      | None \<Rightarrow>
          if tty \<and> ce_channel event = CHR 0x02 then bridge_fails io [] (Errorf ''TTY emitted a separate stderr stream'')
          else
            (case OutputFrame (ce_channel event) (ce_data event) of
               Inl e \<Rightarrow> bridge_fails io [] e
             | Inr raw \<Rightarrow>
                 (case writeConsoleMessage io of
                    Inl e \<Rightarrow> bridge_fails io [] e
                  | Inr _ \<Rightarrow> ([WsMsg MessageBinary raw], None)))))"

text \<open>
  The state of a bridge: what the two pumps still have to send and whether they have returned,
  the waiter's event until it is sent, the channel of events, the wire, and the result.
\<close>

record bridge =
  bg_stdout :: "consoleEvent list \<times> bool"
  bg_stderr :: "consoleEvent list \<times> bool"
  bg_wait :: "consoleEvent option"
  bg_events :: "consoleEvent list"
  bg_wire :: "ws_frame list"
  bg_result :: "unit res option"

text \<open>A TTY has no pump for stderr.\<close>

definition bridgeConsole ::
  "bool \<Rightarrow> (string \<times> goerr option) list \<Rightarrow> (string \<times> goerr option) list \<Rightarrow> int res \<Rightarrow> bridge" where
  "bridgeConsole tty stdout stderr waited =
     \<lparr>bg_stdout = pumpConsoleOutput (CHR 0x01) stdout,
      bg_stderr = (if tty then ([], True) else pumpConsoleOutput (CHR 0x02) stderr),
      bg_wait = Some (wait_event waited), bg_events = [], bg_wire = [], bg_result = None\<rparr>"

definition events_room :: "bridge \<Rightarrow> bool" where
  "events_room s \<longleftrightarrow> length (bg_events s) < 8"

text \<open>
  A step while the main loop runs: a pump or, after both pumps, the waiter sends to the channel
  of capacity 8; the loop takes an event; or it stops for the error of the input reader or of
  the context. Once the context is done a goroutine may drop its event instead, but then no
  write of the loop succeeds any more and the loop can only stop.
\<close>

inductive bridge_step :: "bool \<Rightarrow> bridge \<Rightarrow> bridge \<Rightarrow> bool" for tty :: bool where
  send_stdout: "bg_result s = None \<Longrightarrow> bg_stdout s = (e # es, r) \<Longrightarrow> events_room s \<Longrightarrow>
    bridge_step tty s (s\<lparr>bg_stdout := (es, r), bg_events := bg_events s @ [e]\<rparr>)"
| send_stderr: "bg_result s = None \<Longrightarrow> bg_stderr s = (e # es, r) \<Longrightarrow> events_room s \<Longrightarrow>
    bridge_step tty s (s\<lparr>bg_stderr := (es, r), bg_events := bg_events s @ [e]\<rparr>)"
| send_exit: "bg_result s = None \<Longrightarrow> bg_stdout s = ([], True) \<Longrightarrow> bg_stderr s = ([], True) \<Longrightarrow> bg_wait s = Some e \<Longrightarrow>
    events_room s \<Longrightarrow> bridge_step tty s (s\<lparr>bg_wait := None, bg_events := bg_events s @ [e]\<rparr>)"
| take_event: "bg_result s = None \<Longrightarrow> bg_events s = e # es \<Longrightarrow> handle_event tty io e = (sent, r) \<Longrightarrow>
    bridge_step tty s (s\<lparr>bg_events := es, bg_wire := bg_wire s @ sent, bg_result := r\<rparr>)"
| stop: "bg_result s = None \<Longrightarrow>
    bridge_step tty s (s\<lparr>bg_wire := bg_wire s @ writeConsoleError io e, bg_result := Some (Inl e)\<rparr>)"

section \<open>The server: input\<close>

record 'x session_io =
  si_Write :: "string \<Rightarrow> ('x, int) eff"
  si_Close :: "('x, unit) eff"
  si_Resize :: "nat \<Rightarrow> nat \<Rightarrow> ('x, unit) eff"

definition ErrShortWrite :: goerr where
  "ErrShortWrite = ErrSentinel ''short write''"

function write_stdin :: "'x session_io \<Rightarrow> string \<Rightarrow> ('x, unit) eff" where
  "write_stdin io chunk x =
     (if chunk = [] then (Inr (), x)
      else
        (case si_Write io chunk x of
           (Inl e, x) \<Rightarrow> (Inl (Wrapf ''write console stdin'' e), x)
         | (Inr n, x) \<Rightarrow>
             if n \<le> 0 \<or> n > int (length chunk) then (Inl (Wrapf ''write console stdin'' ErrShortWrite), x)
             else write_stdin io (drop (nat n) chunk) x))"
  by pat_completeness auto
termination
  by (relation "measure (\<lambda>(io, chunk, x). length chunk)") auto

declare write_stdin.simps [simp del]

definition input_control :: "'x session_io \<Rightarrow> bool \<Rightarrow> bool \<Rightarrow> ClientControl \<Rightarrow> ('x, bool) eff" where
  "input_control io tty eof control =
     (if cc_Type control = ''stdin_eof'' then
        if tty \<or> eof then eff_res (Inl (Errorf ''stdin_eof requires open non-TTY stdin''))
        else eff_bind (eff_wrap ''close console stdin'' (si_Close io)) (\<lambda>_. eff_return True)
      else if cc_Type control = ''resize'' then
        if \<not> tty then eff_res (Inl (Errorf ''resize requires TTY mode''))
        else
          (case cc_Resize control of
             None \<Rightarrow> eff_res (Inl (Errorf ''nil pointer dereference''))
           | Some r \<Rightarrow> eff_bind (eff_wrap ''resize console'' (si_Resize io (rz_Rows r) (rz_Cols r))) (\<lambda>_. eff_return eof))
      else eff_res (Inl (Errorf ''duplicate or invalid console start'')))"

text \<open>
  The reader runs until an error. The error of the read that finds no more frames is \<open>lost\<close>.
\<close>

fun readConsoleInput :: "'x session_io \<Rightarrow> goerr \<Rightarrow> bool \<Rightarrow> bool \<Rightarrow> ws_frame list \<Rightarrow> 'x \<Rightarrow> goerr \<times> 'x" where
  "readConsoleInput io lost tty eof [] x = (Wrapf ''console input disconnected'' lost, x)"
| "readConsoleInput io lost tty eof (WsClose st # fs) x =
     (Wrapf ''console input disconnected'' (Errorf (''status '' @ FormatInt st)), x)"
| "readConsoleInput io lost tty eof (WsMsg kind raw # fs) x =
     (case kind of
        MessageBinary \<Rightarrow>
          (case (ParseInputFrame raw, eof) of
             (Inr chunk, False) \<Rightarrow>
               (case write_stdin io chunk x of
                  (Inl e, x) \<Rightarrow> (e, x)
                | (Inr _, x) \<Rightarrow> readConsoleInput io lost tty eof fs x)
           | _ \<Rightarrow> (Errorf ''invalid console stdin frame'', x))
      | MessageText \<Rightarrow>
          (case ParseClientText raw of
             Inl e \<Rightarrow> (e, x)
           | Inr control \<Rightarrow>
               (case input_control io tty eof control x of
                  (Inl e, x) \<Rightarrow> (e, x)
                | (Inr eof', x) \<Rightarrow> readConsoleInput io lost tty eof' fs x))
      | MessageOther \<Rightarrow> (Errorf ''invalid console message type'', x))"

section \<open>The client\<close>

text \<open>
  The reader of the remote end. \<open>wr\<close> tells whether a write to the local stream of a channel
  fails; the outputs are what the two streams have taken. A failure returns the code 1 with the
  error.
\<close>

fun readRemoteConsole ::
  "(char \<Rightarrow> string \<Rightarrow> goerr option) \<Rightarrow> goerr \<Rightarrow> bool \<Rightarrow> int option \<Rightarrow> ws_frame list \<Rightarrow> string \<times> string \<Rightarrow> int res \<times> string \<times> string" where
  "readRemoteConsole wr lost tty exit [] out = (Inl (Wrapf ''console closed without a valid final result'' lost), out)"
| "readRemoteConsole wr lost tty exit (WsClose st # fs) out =
     (case exit of
        Some code \<Rightarrow>
          if st = StatusNormalClosure then (Inr code, out)
          else (Inl (Wrapf ''console closed without a valid final result'' (Errorf (''status '' @ FormatInt st))), out)
      | None \<Rightarrow> (Inl (Wrapf ''console closed without a valid final result'' (Errorf (''status '' @ FormatInt st))), out))"
| "readRemoteConsole wr lost tty exit (WsMsg kind raw # fs) out =
     (if exit \<noteq> None then (Inl (Errorf ''console data or duplicate result after final exit''), out)
      else
        (case kind of
           MessageBinary \<Rightarrow>
             (case ParseOutputFrame raw of
                Inl e \<Rightarrow> (Inl e, out)
              | Inr (channel, chunk) \<Rightarrow>
                  if channel = CHR 0x02 \<and> tty then (Inl (Errorf ''PTY console sent separate stderr''), out)
                  else
                    (case wr channel chunk of
                       Some e \<Rightarrow> (Inl (Wrapf ''write console output'' e), out)
                     | None \<Rightarrow>
                         readRemoteConsole wr lost tty exit fs
                           (if channel = CHR 0x02 then (fst out, snd out @ chunk) else (fst out @ chunk, snd out))))
         | MessageText \<Rightarrow>
             (case ParseServerText raw of
                Inl e \<Rightarrow> (Inl e, out)
              | Inr control \<Rightarrow>
                  (case sc_Error control of
                     Some e \<Rightarrow> (Inl (Errorf (''remote console: '' @ er_Message e)), out)
                   | None \<Rightarrow> readRemoteConsole wr lost tty (map_option ex_ExitCode (sc_Exit control)) fs out))
         | MessageOther \<Rightarrow> (Inl (Errorf ''invalid console message type''), out)))"

definition exitUsage :: int where
  "exitUsage = 2"

text \<open>
  The start message for the arguments, or the exit code: with a command after \<open>--\<close> there is no
  terminal, otherwise a shell on the local terminal, of the size \<open>sz\<close>.
\<close>

definition console_start :: "string list \<Rightarrow> bool \<Rightarrow> (nat \<times> nat) res \<Rightarrow> int + Start" where
  "console_start args terminal sz =
     (let shell = \<lparr>st_Type = ''start'', st_Command = [''/bin/bash''], st_TTY = True, st_Rows = 0, st_Cols = 0\<rparr>;
          checked = (\<lambda>start. case ParseClientText (client_marshal (SendStart start)) of Inl e \<Rightarrow> Inl exitUsage | Inr _ \<Rightarrow> Inr start) in
      if args = [] \<or> hd args = [] then Inl exitUsage
      else if length args > 1 then
        if args ! 1 \<noteq> ''--'' \<or> length args < 3 then Inl exitUsage
        else checked (shell\<lparr>st_Command := drop 2 args, st_TTY := False\<rparr>)
      else if \<not> terminal then Inl exitUsage
      else (case sz of Inl e \<Rightarrow> Inl 1 | Inr (rows, cols) \<Rightarrow> checked (shell\<lparr>st_Rows := rows, st_Cols := cols\<rparr>)))"

text \<open>
  What the client's loop selects, each with the result of the write it makes: the reader's
  outcome, a chunk of local input or its error, a tick with the terminal's size, or the end of
  the context.
\<close>

datatype client_event =
    Outcome "int res"
  | Input string
  | InputError goerr
  | Tick "(nat \<times> nat) res"
  | Done goerr

text \<open>The events of the local reader, for what its reads give. It returns after an error.\<close>

fun readLocalConsoleInput :: "(string \<times> goerr option) list \<Rightarrow> client_event list" where
  "readLocalConsoleInput [] = []"
| "readLocalConsoleInput ((buf, err) # reads) =
     (if buf \<noteq> [] then [Input buf] else []) @
     (case err of Some e \<Rightarrow> [InputError e] | None \<Rightarrow> readLocalConsoleInput reads)"

definition consoleWrite :: "unit res \<Rightarrow> unit res" where
  "consoleWrite written = res_wrap ''send console input'' written"

text \<open>A failed write waits for the reader's outcome, \<open>result\<close>.\<close>

definition after_write :: "int res \<Rightarrow> goerr \<Rightarrow> int res" where
  "after_write result e = (case result of Inr code \<Rightarrow> Inr code | Inl _ \<Rightarrow> Inl e)"

fun session_loop ::
  "Start \<Rightarrow> int res \<Rightarrow> nat \<times> nat \<Rightarrow> (client_event \<times> unit res) list \<Rightarrow> ws_frame list \<Rightarrow> int res option \<times> ws_frame list" where
  "session_loop start result dims [] sent = (None, sent)"
| "session_loop start result dims ((Outcome r, _) # evs) sent = (Some r, sent)"
| "session_loop start result dims ((Input chunk, w) # evs) sent =
     (case InputFrame chunk of
        Inl e \<Rightarrow> (Some (Inl e), sent)
      | Inr raw \<Rightarrow>
          (case consoleWrite w of
             Inl e \<Rightarrow> (Some (after_write result e), sent)
           | Inr _ \<Rightarrow> session_loop start result dims evs (sent @ [WsMsg MessageBinary raw])))"
| "session_loop start result dims ((InputError e, w) # evs) sent =
     (if \<not> err_is ErrEOF e then (Some (Inl (Wrapf ''read console stdin'' e)), sent)
      else if st_TTY start then (Some (Inl (Errorf ''local terminal input closed'')), sent)
      else
        (case consoleWrite w of
           Inl e \<Rightarrow> (Some (after_write result e), sent)
         | Inr _ \<Rightarrow> session_loop start result dims evs (sent @ [WsMsg MessageText (client_marshal (SendEOF \<lparr>eo_Type = ''stdin_eof''\<rparr>))])))"
| "session_loop start result dims ((Tick sz, w) # evs) sent =
     (if \<not> st_TTY start then session_loop start result dims evs sent
      else
        (case sz of
           Inl e \<Rightarrow> (Some (Inl e), sent)
         | Inr new \<Rightarrow>
             if new = dims then session_loop start result dims evs sent
             else
               (case consoleWrite w of
                  Inl e \<Rightarrow> (Some (Inl e), sent)
                | Inr _ \<Rightarrow>
                    session_loop start result new evs
                      (sent @ [WsMsg MessageText (client_marshal (SendResize \<lparr>rz_Type = ''resize'', rz_Rows = fst new, rz_Cols = snd new\<rparr>))]))))"
| "session_loop start result dims ((Done e, _) # evs) sent = (Some (Inl e), sent)"

definition consoleSession ::
  "Start \<Rightarrow> unit res \<Rightarrow> int res \<Rightarrow> (client_event \<times> unit res) list \<Rightarrow> int res option \<times> ws_frame list" where
  "consoleSession start written result evs =
     (case consoleWrite written of
        Inl e \<Rightarrow> (Some (Inl e), [])
      | Inr _ \<Rightarrow>
          session_loop start result (st_Rows start, st_Cols start) evs [WsMsg MessageText (client_marshal (SendStart start))])"

end
