(* ===== verification/BridgeFacts.thy ===== *)
theory BridgeFacts
  imports ConsoleBridge ConsoleFacts HookFacts
begin

text \<open>
  The console delivers: in every interleaving of the server's goroutines the client that gets
  an exit code got the whole output, and what the client types reaches the session in order.
\<close>

section \<open>Output\<close>

text \<open>The bytes of a stream up to its first error, and whether that error is its end.\<close>

fun streamed :: "(string \<times> goerr option) list \<Rightarrow> string" where
  "streamed [] = []"
| "streamed ((buf, err) # reads) = buf @ (case err of None \<Rightarrow> streamed reads | Some _ \<Rightarrow> [])"

fun drained :: "(string \<times> goerr option) list \<Rightarrow> bool" where
  "drained [] = False"
| "drained ((buf, err) # reads) = (case err of None \<Rightarrow> drained reads | Some e \<Rightarrow> err_is ErrEOF e)"

definition is_data :: "consoleEvent \<Rightarrow> bool" where
  "is_data e \<longleftrightarrow> ce_err e = None \<and> ce_exit e = None"

definition channel_bytes :: "char \<Rightarrow> consoleEvent list \<Rightarrow> string" where
  "channel_bytes c es = concat (map ce_data (filter (\<lambda>e. is_data e \<and> ce_channel e = c) es))"

lemma channel_bytes_simps [simp]:
  "channel_bytes c [] = []" "channel_bytes c (es @ fs) = channel_bytes c es @ channel_bytes c fs"
  "channel_bytes c (e # es) = (if is_data e \<and> ce_channel e = c then ce_data e else []) @ channel_bytes c es"
  by (simp_all add: channel_bytes_def)

text \<open>The events of one pump.\<close>

definition pump_event :: "char \<Rightarrow> consoleEvent \<Rightarrow> bool" where
  "pump_event c e \<longleftrightarrow> ce_exit e = None \<and> (is_data e \<longrightarrow> ce_channel e = c)"

lemma pump_events:
  "channel_bytes c (fst (pumpConsoleOutput c reads)) = streamed reads"
  "list_all (pump_event c) (fst (pumpConsoleOutput c reads))"
  "snd (pumpConsoleOutput c reads) \<Longrightarrow> list_all is_data (fst (pumpConsoleOutput c reads)) \<Longrightarrow> drained reads"
  by (induction c reads rule: pumpConsoleOutput.induct)
    (auto simp: is_data_def pump_event_def Let_def split: option.splits prod.splits if_splits)

lemma other_channel: "list_all (pump_event c) es \<Longrightarrow> c \<noteq> d \<Longrightarrow> channel_bytes d es = []"
  by (induction es) (auto simp: pump_event_def)

definition sendable :: "bool \<Rightarrow> consoleEvent \<Rightarrow> bool" where
  "sendable tty e \<longleftrightarrow> is_data e \<and> \<not> (tty \<and> ce_channel e = CHR 0x02) \<and>
     OutputFrame (ce_channel e) (ce_data e) = Inr (ce_channel e # ce_data e)"

definition data_frames :: "consoleEvent list \<Rightarrow> ws_frame list" where
  "data_frames es = map (\<lambda>e. WsMsg MessageBinary (ce_channel e # ce_data e)) es"

abbreviation exit_frame :: "int \<Rightarrow> ws_frame" where
  "exit_frame code \<equiv> WsMsg MessageText (server_marshal (SendExit \<lparr>ex_Type = ''exit'', ex_ExitCode = code\<rparr>))"

definition quiet :: "ws_frame list \<Rightarrow> bool" where
  "quiet w \<longleftrightarrow> WsClose StatusNormalClosure \<notin> set w"

lemma writeConsoleError_quiet [simp]: "quiet (writeConsoleError io e)"
  by (simp add: writeConsoleError_def quiet_def Let_def StatusNormalClosure_def StatusPolicyViolation_def)

lemma OutputFrame_raw: "OutputFrame c d = Inr raw \<Longrightarrow> raw = c # d"
  by (auto simp: OutputFrame_def frame_Inr split: if_splits)

lemma handle_data: "handle_event tty io e = (w, None) \<Longrightarrow> sendable tty e \<and> w = data_frames [e]"
  by (auto simp: handle_event_def bridge_fails_def sendable_def data_frames_def is_data_def Let_def
      split: option.splits if_splits sum.splits dest: OutputFrame_raw)

lemma handle_last:
  assumes "handle_event tty io e = (w, Some r)"
  shows "(\<exists>code rest. ce_err e = None \<and> ce_exit e = Some code \<and> w = exit_frame code # rest \<and>
      (r = Inr () \<longrightarrow> rest = [WsClose StatusNormalClosure])) \<or> quiet w \<and> r \<noteq> Inr ()"
  using assms
  by (auto simp: handle_event_def bridge_fails_def Let_def split: option.splits if_splits sum.splits)

lemma wait_event_exit: "ce_exit (wait_event r) = Some code \<Longrightarrow> r = Inr code \<and> 0 \<le> code \<and> code \<le> 255 \<and> wait_event r = exit_event code"
  by (auto simp: wait_event_def split: sum.splits if_splits)

section \<open>The bridge's invariant\<close>

text \<open>\<open>C\<close> are the events the loop has turned into frames.\<close>

definition bridging :: "bool \<Rightarrow> bridge \<Rightarrow> bridge \<Rightarrow> consoleEvent list \<Rightarrow> bool" where
  "bridging tty s0 s C \<longleftrightarrow>
     list_all (sendable tty) C \<and> bg_wire s = data_frames C \<and>
     list_all (pump_event (CHR 0x01)) (fst (bg_stdout s)) \<and> list_all (pump_event (CHR 0x02)) (fst (bg_stderr s)) \<and>
     channel_bytes (CHR 0x01) (C @ bg_events s @ fst (bg_stdout s)) = channel_bytes (CHR 0x01) (fst (bg_stdout s0)) \<and>
     channel_bytes (CHR 0x02) (C @ bg_events s @ fst (bg_stderr s)) = channel_bytes (CHR 0x02) (fst (bg_stderr s0)) \<and>
     set (fst (bg_stdout s0)) \<union> set (fst (bg_stderr s0)) \<subseteq>
       set C \<union> set (bg_events s) \<union> set (fst (bg_stdout s)) \<union> set (fst (bg_stderr s)) \<and>
     snd (bg_stdout s) = snd (bg_stdout s0) \<and> snd (bg_stderr s) = snd (bg_stderr s0) \<and>
     (\<exists>q. (\<forall>e \<in> set q. ce_exit e = None) \<and>
        (if bg_wait s = None
         then bg_stdout s = ([], True) \<and> bg_stderr s = ([], True) \<and> bg_events s = q @ [the (bg_wait s0)]
         else bg_wait s = bg_wait s0 \<and> bg_events s = q))"

text \<open>The whole output went out before the exit code.\<close>

definition completed :: "bool \<Rightarrow> bridge \<Rightarrow> bridge \<Rightarrow> unit res \<Rightarrow> bool" where
  "completed tty s0 s r \<longleftrightarrow>
     (\<exists>C code rest. list_all (sendable tty) C \<and> the (bg_wait s0) = exit_event code \<and>
        bg_wire s = data_frames C @ exit_frame code # rest \<and>
        channel_bytes (CHR 0x01) C = channel_bytes (CHR 0x01) (fst (bg_stdout s0)) \<and>
        channel_bytes (CHR 0x02) C = channel_bytes (CHR 0x02) (fst (bg_stderr s0)) \<and>
        list_all is_data (fst (bg_stdout s0)) \<and> list_all is_data (fst (bg_stderr s0)) \<and>
        snd (bg_stdout s0) \<and> snd (bg_stderr s0) \<and>
        (r = Inr () \<longrightarrow> rest = [WsClose StatusNormalClosure]))"

definition abandoned :: "bool \<Rightarrow> bridge \<Rightarrow> unit res \<Rightarrow> bool" where
  "abandoned tty s r \<longleftrightarrow>
     (\<exists>C w. list_all (sendable tty) C \<and> bg_wire s = data_frames C @ w \<and> quiet w \<and> r \<noteq> Inr ())"

definition bridge_inv :: "bool \<Rightarrow> bridge \<Rightarrow> bridge \<Rightarrow> bool" where
  "bridge_inv tty s0 s \<longleftrightarrow>
     (case bg_result s of
        None \<Rightarrow> \<exists>C. bridging tty s0 s C
      | Some r \<Rightarrow> completed tty s0 s r \<or> abandoned tty s r)"

lemma data_frames_simps [simp]:
  "data_frames [] = []" "data_frames (C @ [e]) = data_frames C @ data_frames [e]"
  by (simp_all add: data_frames_def)

lemma not_exit: "pump_event c e \<Longrightarrow> ce_exit e = None"
  by (simp add: pump_event_def)

lemma bridging_send_stdout:
  assumes "bridging tty s0 s C" and "bg_stdout s = (e # es, r)"
  shows "bridging tty s0 (s\<lparr>bg_stdout := (es, r), bg_events := bg_events s @ [e]\<rparr>) C"
proof -
  have e: "ce_exit e = None" "pump_event (CHR 0x01) e" using assms by (auto simp: bridging_def pump_event_def)
  then have "channel_bytes (CHR 0x02) [e] = []" using other_channel [of "CHR 0x01" "[e]" "CHR 0x02"] by simp
  moreover obtain q where "\<forall>x \<in> set q. ce_exit x = None" "bg_wait s = bg_wait s0" "bg_wait s \<noteq> None" "bg_events s = q"
    using assms by (auto simp: bridging_def split: if_splits)
  moreover have "\<exists>q'. (\<forall>x \<in> set q'. ce_exit x = None) \<and> q' = q @ [e]" using calculation(2) e(1) by auto
  ultimately show ?thesis using assms unfolding bridging_def by (auto simp del: channel_bytes_simps(3)) (auto split: if_splits)
qed

lemma bridging_send_stderr:
  assumes "bridging tty s0 s C" and "bg_stderr s = (e # es, r)"
  shows "bridging tty s0 (s\<lparr>bg_stderr := (es, r), bg_events := bg_events s @ [e]\<rparr>) C"
proof -
  have e: "ce_exit e = None" "pump_event (CHR 0x02) e" using assms by (auto simp: bridging_def pump_event_def)
  then have "channel_bytes (CHR 0x01) [e] = []" using other_channel [of "CHR 0x02" "[e]" "CHR 0x01"] by simp
  moreover obtain q where "\<forall>x \<in> set q. ce_exit x = None" "bg_wait s = bg_wait s0" "bg_wait s \<noteq> None" "bg_events s = q"
    using assms by (auto simp: bridging_def split: if_splits)
  moreover have "\<exists>q'. (\<forall>x \<in> set q'. ce_exit x = None) \<and> q' = q @ [e]" using calculation(2) e(1) by auto
  ultimately show ?thesis
    using assms other_channel [of "CHR 0x01" "fst (bg_stdout s)" "CHR 0x02"] unfolding bridging_def
    by (auto simp del: channel_bytes_simps(3)) (auto split: if_splits)
qed

lemma bridging_send_exit:
  assumes "bridging tty s0 s C" and "bg_stdout s = ([], True)" "bg_stderr s = ([], True)" "bg_wait s = Some e"
    and "\<not> is_data e"
  shows "bridging tty s0 (s\<lparr>bg_wait := None, bg_events := bg_events s @ [e]\<rparr>) C"
  using assms unfolding bridging_def by (auto split: if_splits) (metis option.sel)

lemma bridging_data:
  assumes "bridging tty s0 s C" and "bg_events s = e # es" and "sendable tty e" and "\<not> is_data (the (bg_wait s0))"
  shows "bridging tty s0 (s\<lparr>bg_events := es, bg_wire := bg_wire s @ data_frames [e], bg_result := None\<rparr>) (C @ [e])"
proof -
  have d: "is_data e" using assms(3) by (simp add: sendable_def)
  obtain q where q: "\<forall>x \<in> set q. ce_exit x = None" and
    w: "if bg_wait s = None
        then bg_stdout s = ([], True) \<and> bg_stderr s = ([], True) \<and> bg_events s = q @ [the (bg_wait s0)]
        else bg_wait s = bg_wait s0 \<and> bg_events s = q"
    using assms(1) unfolding bridging_def by blast
  show ?thesis
  proof (cases q)
    case Nil
    then show ?thesis using w d assms(2,4) by (auto split: if_splits)
  next
    case (Cons x q')
    then have "es = (if bg_wait s = None then q' @ [the (bg_wait s0)] else q')" using w assms(2) by auto
    then show ?thesis using assms q w Cons unfolding bridging_def by (auto split: if_splits)
  qed
qed

lemma bridging_exit:
  assumes "bridging tty s0 s C" and "bg_events s = e # es" and "ce_exit e = Some code" and "\<not> is_data (the (bg_wait s0))"
  shows "es = [] \<and> e = the (bg_wait s0) \<and> bg_wait s = None \<and> bg_stdout s = ([], True) \<and> bg_stderr s = ([], True)"
proof -
  obtain q where q: "\<forall>x \<in> set q. ce_exit x = None" and
    w: "if bg_wait s = None
        then bg_stdout s = ([], True) \<and> bg_stderr s = ([], True) \<and> bg_events s = q @ [the (bg_wait s0)]
        else bg_wait s = bg_wait s0 \<and> bg_events s = q"
    using assms(1) unfolding bridging_def by blast
  have "q = []"
  proof (rule ccontr)
    assume "q \<noteq> []"
    then have "e \<in> set q" using w assms(2) by (cases q) (auto split: if_splits)
    then show False using q assms(3) by simp
  qed
  then show ?thesis using w assms(2) by (auto split: if_splits)
qed

lemma bridge_step_inv:
  assumes "bridge_step tty s s'" and "bridge_inv tty s0 s" and w: "bg_wait s0 = Some (wait_event waited)"
    and p: "\<forall>e \<in> set (fst (bg_stdout s0)) \<union> set (fst (bg_stderr s0)). ce_exit e = None"
  shows "bridge_inv tty s0 s'"
  using assms(1,2)
proof (induction rule: bridge_step.induct)
  case (send_stdout s e es r)
  then show ?case using bridging_send_stdout by (fastforce simp: bridge_inv_def)
next
  case (send_stderr s e es r)
  then show ?case using bridging_send_stderr by (fastforce simp: bridge_inv_def)
next
  case (send_exit s e)
  then obtain C where C: "bridging tty s0 s C" by (auto simp: bridge_inv_def)
  then have "e = wait_event waited" using send_exit(4) w by (auto simp: bridging_def split: if_splits)
  then have "\<not> is_data e" by (auto simp: wait_event_def is_data_def split: sum.split)
  then show ?case using bridging_send_exit [OF C send_exit(2-4)] send_exit(1) by (auto simp: bridge_inv_def)
next
  case (take_event s e es io sent r)
  have nd: "\<not> is_data (the (bg_wait s0))" using w by (auto simp: wait_event_def is_data_def split: sum.split)
  obtain C where C: "bridging tty s0 s C" using take_event(1,4) by (auto simp: bridge_inv_def)
  show ?case
  proof (cases r)
    case None
    then show ?thesis
      using bridging_data [OF C take_event(2) _ nd] handle_data take_event(3) by (auto simp: bridge_inv_def)
  next
    case (Some res)
    note last = handle_last [of tty io e sent res]
    show ?thesis
    proof (cases "quiet sent \<and> res \<noteq> Inr ()")
      case True
      then have "abandoned tty (s\<lparr>bg_events := es, bg_wire := bg_wire s @ sent, bg_result := r\<rparr>) res"
        using C by (auto simp: abandoned_def bridging_def)
      then show ?thesis using Some by (simp add: bridge_inv_def)
    next
      case False
      then obtain code rest where x: "ce_err e = None" "ce_exit e = Some code" "sent = exit_frame code # rest"
          "res = Inr () \<longrightarrow> rest = [WsClose StatusNormalClosure]"
        using last take_event(3) Some by auto
      note e = bridging_exit [OF C take_event(2) x(2) nd]
      have "e = wait_event waited" using e w by simp
      then have "e = exit_event code" using wait_event_exit [of waited code] x(2) by metis
      moreover from this have "\<not> is_data e" by (simp add: is_data_def)
      moreover have "list_all is_data (fst (bg_stdout s0))" "list_all is_data (fst (bg_stderr s0))"
      proof -
        have "x \<in> set C" if "x \<in> set (fst (bg_stdout s0)) \<union> set (fst (bg_stderr s0))" for x
        proof -
          have "x \<in> set C \<union> {e}" using C that e take_event(2) unfolding bridging_def by auto
          moreover have "x \<noteq> e" using p that x(2) by auto
          ultimately show ?thesis by simp
        qed
        then show "list_all is_data (fst (bg_stdout s0))" "list_all is_data (fst (bg_stderr s0))"
          using C by (auto simp: bridging_def list_all_iff sendable_def)
      qed
      ultimately have "completed tty s0 (s\<lparr>bg_events := es, bg_wire := bg_wire s @ sent, bg_result := r\<rparr>) res"
        using C e x(3,4) take_event(2) w unfolding completed_def bridging_def
        by (intro exI [of _ C] exI [of _ code] exI [of _ rest]) auto
      then show ?thesis using Some by (simp add: bridge_inv_def)
    qed
  qed
next
  case (stop s io e)
  then obtain C where "bridging tty s0 s C" by (auto simp: bridge_inv_def)
  then show ?case by (auto simp: bridge_inv_def abandoned_def bridging_def)
qed

lemma bridge_start_inv: "bridge_inv tty (bridgeConsole tty stdout stderr waited) (bridgeConsole tty stdout stderr waited)"
  using pump_events(2) [of "CHR 0x01" stdout] pump_events(2) [of "CHR 0x02" stderr]
  by (auto simp: bridge_inv_def bridgeConsole_def bridging_def intro!: exI [of _ "[]"])

lemma bridge_steps_inv:
  assumes "(bridge_step tty)\<^sup>*\<^sup>* (bridgeConsole tty stdout stderr waited) s"
  shows "bridge_inv tty (bridgeConsole tty stdout stderr waited) s"
  using assms
proof (induction rule: rtranclp_induct)
  case (step s s')
  have "\<forall>e \<in> set (fst (bg_stdout (bridgeConsole tty stdout stderr waited))) \<union>
      set (fst (bg_stderr (bridgeConsole tty stdout stderr waited))). ce_exit e = None"
    using pump_events(2) [of "CHR 0x01" stdout] pump_events(2) [of "CHR 0x02" stderr]
    by (auto simp: bridgeConsole_def list_all_iff pump_event_def)
  then show ?case using bridge_step_inv [OF step(2,3), of waited] by (simp add: bridgeConsole_def)
qed (rule bridge_start_inv)

section \<open>The client's reader\<close>

lemma quiet_fails: "quiet fs \<Longrightarrow> \<exists>e. fst (readRemoteConsole wr lost tty exit fs out) = Inl e"
proof (induction fs arbitrary: tty exit out)
  case (Cons f fs)
  then have IH: "\<exists>e. fst (readRemoteConsole wr lost tty' exit' fs out') = Inl e" for tty' exit' out' by (simp add: quiet_def)
  show ?case using Cons.prems
    by (cases f) (auto simp: quiet_def intro!: IH split: ws_kind.split sum.split option.split)
qed simp

text \<open>A read of the frames of events, until a local write fails.\<close>

lemma read_frames:
  assumes "list_all (sendable tty) C"
  shows "(\<exists>e. fst (readRemoteConsole wr lost tty None (data_frames C @ fs) out) = Inl e) \<or>
    readRemoteConsole wr lost tty None (data_frames C @ fs) out =
      readRemoteConsole wr lost tty None fs (fst out @ channel_bytes (CHR 0x01) C, snd out @ channel_bytes (CHR 0x02) C)"
    (is "?failed out C \<or> ?read out C")
  using assms
proof (induction C arbitrary: out)
  case Nil
  then show ?case by simp
next
  case (Cons e C)
  have e: "is_data e" "\<not> (tty \<and> ce_channel e = CHR 0x02)"
      "ParseOutputFrame (ce_channel e # ce_data e) = Inr (ce_channel e, ce_data e)"
    using Cons.prems output_frames by (auto simp: sendable_def)
  then have c: "ce_channel e = CHR 0x01 \<or> ce_channel e = CHR 0x02" by (auto simp: ParseOutputFrame_def split: if_splits)
  show ?case
  proof (cases "wr (ce_channel e) (ce_data e)")
    case (Some x)
    then show ?thesis using e by (simp add: data_frames_def)
  next
    case None
    let ?out = "if ce_channel e = CHR 0x02 then (fst out, snd out @ ce_data e) else (fst out @ ce_data e, snd out)"
    have "readRemoteConsole wr lost tty None (data_frames (e # C) @ fs) out =
        readRemoteConsole wr lost tty None (data_frames C @ fs) ?out"
      using e None by (auto simp: data_frames_def)
    then show ?thesis using Cons.IH [of ?out] Cons.prems c e(1) by auto
  qed
qed

lemma read_frames_all:
  assumes "list_all (sendable tty) C"
  shows "readRemoteConsole (\<lambda>_ _. None) lost tty None (data_frames C @ fs) out =
    readRemoteConsole (\<lambda>_ _. None) lost tty None fs (fst out @ channel_bytes (CHR 0x01) C, snd out @ channel_bytes (CHR 0x02) C)"
  using assms
proof (induction C arbitrary: out)
  case (Cons e C)
  have e: "is_data e" "\<not> (tty \<and> ce_channel e = CHR 0x02)"
      "ParseOutputFrame (ce_channel e # ce_data e) = Inr (ce_channel e, ce_data e)"
    using Cons.prems output_frames by (auto simp: sendable_def)
  then have c: "ce_channel e = CHR 0x01 \<or> ce_channel e = CHR 0x02" by (auto simp: ParseOutputFrame_def split: if_splits)
  show ?case using Cons.IH Cons.prems c e by (auto simp: data_frames_def)
qed (simp add: data_frames_def)

lemma read_exit:
  assumes "0 \<le> code" and "code \<le> 255"
  shows "readRemoteConsole wr lost tty None (exit_frame code # fs) out = readRemoteConsole wr lost tty (Some code) fs out"
proof -
  let ?m = "SendExit \<lparr>ex_Type = ''exit'', ex_ExitCode = code\<rparr>"
  have plain: "jescape ''type'' = ''type''" "jescape ''exit'' = ''exit''" "jescape ''exit_code'' = ''exit_code''" by code_simp+
  have "int64 code" using assms by (simp add: int64_def)
  then have "length (server_marshal ?m) \<le> MaxControlBytes"
    using length_FormatInt [of code] by (simp add: server_marshal_def exit_to_json_def MaxControlBytes_def plain)
  then have "ParseServerText (server_marshal ?m) = Inr (server_control ?m)"
    using assms by (intro server_round_trip) simp_all
  then show ?thesis by (simp add: server_control_def)
qed

lemma after_exit:
  "readRemoteConsole wr lost tty (Some code) fs out = (Inr code', out') \<Longrightarrow> code' = code \<and> out' = out"
  by (cases fs; cases "hd fs") (auto split: if_splits)

section \<open>The whole output\<close>

lemma take_frames: "take n (data_frames C @ w) = data_frames (take n C) @ take (n - length C) w"
  by (simp add: data_frames_def take_map)

lemma data_frames_quiet: "quiet (data_frames C @ w) \<longleftrightarrow> quiet w"
  by (auto simp: quiet_def data_frames_def)

lemma quiet_take: "quiet w \<Longrightarrow> quiet (take n w)"
  by (auto simp: quiet_def dest: in_set_takeD)

lemma client_complete:
  assumes "(bridge_step tty)\<^sup>*\<^sup>* (bridgeConsole tty stdout stderr waited) s"
    and "readRemoteConsole wr lost tty None (take n (bg_wire s)) ([], []) = (Inr code, out)"
  shows "waited = Inr code \<and> drained stdout \<and> (tty \<or> drained stderr) \<and>
    out = (streamed stdout, if tty then [] else streamed stderr)"
proof -
  let ?s0 = "bridgeConsole tty stdout stderr waited"
  have "\<not> quiet (take n (bg_wire s))" using quiet_fails [of "take n (bg_wire s)" wr lost tty None "([], [])"] assms(2) by auto
  then have nq: "\<not> quiet (bg_wire s)" using quiet_take by blast
  have "\<exists>r. completed tty ?s0 s r"
    using bridge_steps_inv [OF assms(1)] nq data_frames_quiet [of _ "[]"]
    by (auto simp: bridge_inv_def bridging_def abandoned_def data_frames_quiet quiet_def split: option.splits)
  then obtain C code' rest where C: "list_all (sendable tty) C" "the (bg_wait ?s0) = exit_event code'"
      "bg_wire s = data_frames C @ exit_frame code' # rest"
      "channel_bytes (CHR 0x01) C = channel_bytes (CHR 0x01) (fst (bg_stdout ?s0))"
      "channel_bytes (CHR 0x02) C = channel_bytes (CHR 0x02) (fst (bg_stderr ?s0))"
      "list_all is_data (fst (bg_stdout ?s0))" "list_all is_data (fst (bg_stderr ?s0))"
      "snd (bg_stdout ?s0)" "snd (bg_stderr ?s0)"
    unfolding completed_def by blast
  have w: "waited = Inr code'" "0 \<le> code'" "code' \<le> 255"
    using C(2) wait_event_exit [of waited code'] by (simp_all add: bridgeConsole_def)
  have t: "take n (bg_wire s) = data_frames (take n C) @ take (n - length C) (exit_frame code' # rest)"
    unfolding C(3) by (rule take_frames)
  have "n > length C"
  proof (rule ccontr)
    assume "\<not> n > length C"
    then have "quiet (take n (bg_wire s))" using t data_frames_quiet [of _ "[]"] by (simp add: quiet_def)
    then show False using \<open>\<not> quiet (take n (bg_wire s))\<close> by simp
  qed
  then obtain k where "take n (bg_wire s) = data_frames C @ exit_frame code' # take k rest"
    using t by (cases "n - length C") auto
  then have "readRemoteConsole wr lost tty (Some code') (take k rest)
      (channel_bytes (CHR 0x01) C, channel_bytes (CHR 0x02) C) = (Inr code, out)"
    using read_frames [OF C(1), of wr lost "exit_frame code' # take k rest" "([], [])"] assms(2) read_exit [OF w(2,3)] by auto
  then have "code = code'" "out = (channel_bytes (CHR 0x01) C, channel_bytes (CHR 0x02) C)" using after_exit by blast+
  then show ?thesis
    using C(4-9) w(1) pump_events(1,3) by (auto simp: bridgeConsole_def split: if_splits)
qed

lemma client_succeeds:
  assumes "(bridge_step tty)\<^sup>*\<^sup>* (bridgeConsole tty stdout stderr waited) s" and "bg_result s = Some (Inr ())"
  shows "\<exists>code out. readRemoteConsole (\<lambda>_ _. None) lost tty None (bg_wire s) ([], []) = (Inr code, out)"
proof -
  let ?s0 = "bridgeConsole tty stdout stderr waited"
  obtain C code where C: "list_all (sendable tty) C" "the (bg_wait ?s0) = exit_event code"
      "bg_wire s = data_frames C @ [exit_frame code, WsClose StatusNormalClosure]"
    using bridge_steps_inv [OF assms(1)] assms(2) by (auto simp: bridge_inv_def completed_def abandoned_def)
  have w: "0 \<le> code" "code \<le> 255" using C(2) wait_event_exit [of waited code] by (simp_all add: bridgeConsole_def)
  show ?thesis unfolding C(3) read_frames_all [OF C(1)] read_exit [OF w] by simp
qed

section \<open>Input\<close>

text \<open>
  A session that takes input: \<open>view\<close> is what its process has been given and whether its input
  was closed; a write takes some of the bytes, at least one.
\<close>

definition takes_input :: "'x session_io \<Rightarrow> ('x \<Rightarrow> string \<times> bool) \<Rightarrow> bool" where
  "takes_input io view \<longleftrightarrow>
     (\<forall>x chunk. chunk \<noteq> [] \<and> \<not> snd (view x) \<longrightarrow>
        (\<exists>n x'. si_Write io chunk x = (Inr n, x') \<and> 0 < n \<and> n \<le> int (length chunk) \<and>
           view x' = (fst (view x) @ take (nat n) chunk, False))) \<and>
     (\<forall>x. \<not> snd (view x) \<longrightarrow> (\<exists>x'. si_Close io x = (Inr (), x') \<and> view x' = (fst (view x), True)))"

lemma write_stdin_takes:
  assumes "takes_input io view"
  shows "\<not> snd (view x) \<Longrightarrow> \<exists>x'. write_stdin io chunk x = (Inr (), x') \<and> view x' = (fst (view x) @ chunk, False)"
proof (induction "length chunk" arbitrary: chunk x rule: less_induct)
  case less
  show ?case
  proof (cases "chunk = []")
    case True
    then show ?thesis using less.prems by (cases "view x") (simp add: write_stdin.simps)
  next
    case False
    then obtain n x' where n: "si_Write io chunk x = (Inr n, x')" "0 < n" "n \<le> int (length chunk)"
        "view x' = (fst (view x) @ take (nat n) chunk, False)"
      using assms less.prems unfolding takes_input_def by blast
    have "length (drop (nat n) chunk) < length chunk" using n False by simp
    then obtain x'' where "write_stdin io (drop (nat n) chunk) x' = (Inr (), x'')"
        "view x'' = (fst (view x') @ drop (nat n) chunk, False)"
      using less.hyps [of "drop (nat n) chunk" x'] n(4) by auto
    then show ?thesis using False n by (simp add: write_stdin.simps [of io chunk])
  qed
qed

text \<open>The frames of a chunk and of the end of the input.\<close>

abbreviation stdin_frame :: "string \<Rightarrow> ws_frame" where
  "stdin_frame chunk \<equiv> WsMsg MessageBinary (CHR 0x00 # chunk)"

abbreviation eof_frame :: ws_frame where
  "eof_frame \<equiv> WsMsg MessageText (client_marshal (SendEOF \<lparr>eo_Type = ''stdin_eof''\<rparr>))"

fun stdin_frames :: "(string \<times> goerr option) list \<Rightarrow> ws_frame list" where
  "stdin_frames [] = []"
| "stdin_frames ((buf, err) # reads) =
     (if buf \<noteq> [] then [stdin_frame buf] else []) @ (case err of None \<Rightarrow> stdin_frames reads | Some _ \<Rightarrow> [eof_frame])"

definition buffered :: "(string \<times> goerr option) list \<Rightarrow> bool" where
  "buffered reads \<longleftrightarrow> list_all (\<lambda>r. length (fst r) < MaxDataBytes) reads"

lemma InputFrame_ok: "length chunk < MaxDataBytes \<Longrightarrow> InputFrame chunk = Inr (CHR 0x00 # chunk)"
  by (simp add: InputFrame_def frame_Inr)

lemma session_sends:
  assumes "\<not> st_TTY start" and "drained reads" and "buffered reads"
  shows "session_loop start result dims (map (\<lambda>e. (e, Inr ())) (readLocalConsoleInput reads)) sent = (None, sent @ stdin_frames reads)"
  using assms
  by (induction reads arbitrary: sent rule: readLocalConsoleInput.induct)
    (auto simp: buffered_def InputFrame_ok consoleWrite_def split: option.splits)

lemma input_eof: "ParseClientText (client_marshal (SendEOF \<lparr>eo_Type = ''stdin_eof''\<rparr>)) = Inr \<lparr>cc_Type = ''stdin_eof'', cc_Start = None, cc_Resize = None\<rparr>"
  by code_simp

lemma input_delivered:
  assumes "takes_input io view" and "drained reads" and "buffered reads"
  shows "\<not> snd (view x) \<Longrightarrow> view (snd (readConsoleInput io lost False False (stdin_frames reads) x)) = (fst (view x) @ streamed reads, True)"
  using assms(2,3)
proof (induction reads arbitrary: x rule: stdin_frames.induct)
  case (2 buf err reads)
  obtain x' where x': "write_stdin io buf x = (Inr (), x')" "view x' = (fst (view x) @ buf, False)"
    using write_stdin_takes [OF assms(1) 2(2)] by blast
  have parse: "ParseInputFrame (CHR 0x00 # buf) = Inr buf" using 2(4) InputFrame_ok input_frames by (auto simp: buffered_def)
  obtain y where y: "si_Close io x' = (Inr (), y)" "view y = (fst (view x'), True)"
    using assms(1) x'(2) unfolding takes_input_def by (metis snd_conv)
  have empty: "x' = x" if "buf = []" using x'(1) that by (simp add: write_stdin.simps)
  show ?case
  proof (cases err)
    case None
    then show ?thesis
      using 2 x' parse empty 2(1) [OF None, of x'] by (auto simp: buffered_def)
  next
    case (Some e)
    then show ?thesis
      using x' y parse empty input_eof by (auto simp: input_control_def eff_bind_def eff_wrap_def eff_return_def)
  qed
qed simp

end
