(* ===== verification/Credentials.thy ===== *)
theory Credentials
  imports Effects GoEncoding ApiServer
begin

text \<open>
  The API credential on its way: \<open>internal/credentials/token.go\<close> makes it in the appliance's
  volume, \<open>internal/appliance/credential.go\<close> takes it out of Docker's archive and keeps it on
  the host, \<open>cmd/nephos/network_client.go\<close> reads it for every request.
\<close>

text \<open>A file as \<open>Lstat\<close> and \<open>ReadFile\<close> see it; the permission bits are a number below 512.\<close>

record host_file =
  hf_regular :: bool
  hf_perm :: nat
  hf_data :: string

text \<open>The permissions \<open>0600\<close> and \<open>0700\<close>, and a file that nobody else may use.\<close>

definition perm_private :: nat where
  "perm_private = 6 * 64"

definition perm_private_dir :: nat where
  "perm_private_dir = 7 * 64"

definition others_perm :: "nat \<Rightarrow> nat" where
  "others_perm p = p mod 64"

text \<open>The result of a system call on a file that the call found, or its error.\<close>

record file_io =
  fi_lstat :: "unit res"
  fi_read :: "unit res"

definition Lstat :: "file_io \<Rightarrow> host_file option \<Rightarrow> host_file res" where
  "Lstat io file = (case file of None \<Rightarrow> Inl ErrNotExist | Some f \<Rightarrow> res_bind (fi_lstat io) (\<lambda>_. Inr f))"

section \<open>The appliance's token\<close>

definition tokenBytes :: nat where
  "tokenBytes = 32"

definition load :: "file_io \<Rightarrow> host_file option \<Rightarrow> string res" where
  "load io file =
     res_bind (res_wrap ''checking API token'' (Lstat io file)) (\<lambda>info.
     res_bind (res_guard (hf_regular info \<and> hf_perm info = perm_private)
                 (Errorf ''API token file must be regular with mode 0600'')) (\<lambda>_.
     res_bind (res_wrap ''reading API token'' (fi_read io)) (\<lambda>_.
     case b64Decode (hf_data info) of
       None \<Rightarrow> Inl (Errorf ''API token file is malformed'')
     | Some raw \<Rightarrow>
         if length raw \<noteq> tokenBytes then Inl (Errorf ''API token file is malformed'') else Inr (hf_data info))))"

text \<open>
  What happens around the creation: making the directory, the random bytes, a file that another
  process creates meanwhile, opening, how many bytes a failing write has written, and closing.
\<close>

record create_io =
  cr_file :: file_io
  cr_mkdir :: "unit res"
  cr_random :: "bytes res"
  cr_meanwhile :: "host_file option"
  cr_open :: "unit res"
  cr_write :: "(nat \<times> goerr) option"
  cr_close :: "unit res"

definition LoadOrCreate :: "create_io \<Rightarrow> (host_file option, string) eff" where
  "LoadOrCreate io file =
     (case load (cr_file io) file of
        Inr token \<Rightarrow> (Inr token, file)
      | Inl e \<Rightarrow>
          if \<not> err_is ErrNotExist e then (Inl e, file)
          else
            (case res_bind (res_wrap ''creating API secret directory'' (cr_mkdir io)) (\<lambda>_.
                  res_wrap ''generating API token'' (cr_random io)) of
               Inl e \<Rightarrow> (Inl e, file)
             | Inr raw \<Rightarrow>
                 (let token = b64Encode raw in
                  case cr_meanwhile io of
                    Some f \<Rightarrow> (load (cr_file io) (Some f), Some f)
                  | None \<Rightarrow>
                      (case res_wrap ''creating API token'' (cr_open io) of
                         Inl e \<Rightarrow> (Inl e, None)
                       | Inr _ \<Rightarrow>
                           (case cr_write io of
                              Some (n, e) \<Rightarrow>
                                (Inl (Wrapf ''writing API token'' e),
                                 Some \<lparr>hf_regular = True, hf_perm = perm_private, hf_data = take n token\<rparr>)
                            | None \<Rightarrow>
                                (case res_wrap ''closing API token'' (cr_close io) of
                                   Inl e \<Rightarrow> (Inl e, Some \<lparr>hf_regular = True, hf_perm = perm_private, hf_data = token\<rparr>)
                                 | Inr _ \<Rightarrow> (Inr token, Some \<lparr>hf_regular = True, hf_perm = perm_private, hf_data = token\<rparr>)))))))"

section \<open>The host's copy\<close>

definition maxTokenBytes :: int where
  "maxTokenBytes = 128"

text \<open>The entries of an archive as \<open>tar.Reader\<close> gives them; an error ends the archive, \<open>ErrEOF\<close> at its end.\<close>

record tar_entry =
  te_Name :: string
  te_regular :: bool
  te_Size :: int
  te_data :: "string res"

fun tar_Next :: "tar_entry res list \<Rightarrow> tar_entry res" where
  "tar_Next [] = Inl ErrEOF"
| "tar_Next (e # es) = e"

definition canonical_token :: "string \<Rightarrow> bool" where
  "canonical_token token \<longleftrightarrow>
     (case b64Decode token of None \<Rightarrow> False | Some raw \<Rightarrow> length raw = 32 \<and> b64Encode raw = token)"

definition extractToken :: "tar_entry res list \<Rightarrow> string res" where
  "extractToken archive =
     res_bind (res_wrap ''read credential archive'' (tar_Next archive)) (\<lambda>h.
     res_bind (res_guard (te_Name h = ''api-token'' \<and> te_regular h \<and> 1 \<le> te_Size h \<and> te_Size h \<le> maxTokenBytes)
                 (Errorf ''credential archive has an unexpected entry'')) (\<lambda>_.
     res_bind (res_wrap ''read credential token'' (te_data h)) (\<lambda>content.
     let token = take (nat (maxTokenBytes + 1)) content in
     res_bind (res_guard (int (length token) = te_Size h) (Errorf ''credential archive token size mismatch'')) (\<lambda>_.
     res_bind (res_guard (canonical_token token) (Errorf ''credential archive token is malformed'')) (\<lambda>_.
     res_bind (res_guard (case tar_Next (tl archive) of Inl e \<Rightarrow> err_is ErrEOF e | Inr _ \<Rightarrow> False)
                 (Errorf ''credential archive must contain exactly one regular token file'')) (\<lambda>_.
     Inr token))))))"

text \<open>
  The directory of the credential, whether it is a directory with its permissions, and the file
  in it. A temporary file is removed on every way out.
\<close>

record home =
  hm_dir :: "(bool \<times> nat) option"
  hm_file :: "host_file option"

record save_io =
  sa_ctx :: "unit res"
  sa_mkdir :: "unit res"
  sa_lstat :: "unit res"
  sa_temp :: "unit res"
  sa_chmod :: "unit res"
  sa_write :: "unit res"
  sa_sync :: "unit res"
  sa_close :: "unit res"
  sa_ctx2 :: "unit res"
  sa_rename :: "unit res"

definition Save :: "string \<Rightarrow> save_io \<Rightarrow> tar_entry res list \<Rightarrow> (home, unit) eff" where
  "Save path io archive h =
     (case res_bind (res_guard (path \<noteq> []) (Errorf ''credential path is empty'')) (\<lambda>_.
           res_bind (extractToken archive) (\<lambda>token.
           res_bind (sa_ctx io) (\<lambda>_.
           res_bind (res_wrap ''create credential directory'' (sa_mkdir io)) (\<lambda>_. Inr token)))) of
        Inl e \<Rightarrow> (Inl e, h)
      | Inr token \<Rightarrow>
          (let dir = (case hm_dir h of None \<Rightarrow> (True, perm_private_dir) | Some d \<Rightarrow> d); h = h\<lparr>hm_dir := Some dir\<rparr> in
           case res_bind (res_wrap ''check credential directory'' (sa_lstat io)) (\<lambda>_.
                res_bind (res_guard (fst dir \<and> others_perm (snd dir) = 0)
                            (Errorf ''credential directory must be private and not a symlink'')) (\<lambda>_.
                res_bind (res_wrap ''create temporary credential'' (sa_temp io)) (\<lambda>_.
                res_bind (res_wrap ''restrict credential permissions'' (sa_chmod io)) (\<lambda>_.
                res_bind (res_wrap ''write credential'' (sa_write io)) (\<lambda>_.
                res_bind (res_wrap ''sync credential'' (sa_sync io)) (\<lambda>_.
                res_bind (res_wrap ''close credential'' (sa_close io)) (\<lambda>_.
                res_bind (sa_ctx2 io) (\<lambda>_.
                res_wrap ''replace credential'' (sa_rename io))))))))) of
             Inl e \<Rightarrow> (Inl e, h)
           | Inr _ \<Rightarrow> (Inr (), h\<lparr>hm_file := Some \<lparr>hf_regular = True, hf_perm = perm_private, hf_data = token\<rparr>\<rparr>)))"

section \<open>The command line's reader\<close>

definition loadCredential :: "file_io \<Rightarrow> host_file option \<Rightarrow> string res" where
  "loadCredential io file =
     res_bind (res_wrap ''read ~/.nephos/credentials'' (Lstat io file)) (\<lambda>info.
     res_bind (res_guard (hf_regular info \<and> others_perm (hf_perm info) = 0 \<and> length (hf_data info) \<le> 128)
                 (Errorf ''credential file must be a private regular file'')) (\<lambda>_.
     res_bind (res_wrap ''read credential file'' (fi_read io)) (\<lambda>_.
     res_bind (res_guard (canonical_token (hf_data info)) (Errorf ''credential file is malformed'')) (\<lambda>_.
     Inr (hf_data info)))))"

section \<open>From the volume to a request\<close>

text \<open>The archive Docker makes of the token file.\<close>

definition token_archive :: "string \<Rightarrow> tar_entry res list" where
  "token_archive token =
     [Inr \<lparr>te_Name = ''api-token'', te_regular = True, te_Size = int (length token), te_data = Inr token\<rparr>]"

definition file_ok :: file_io where
  "file_ok = \<lparr>fi_lstat = Inr (), fi_read = Inr ()\<rparr>"

lemma canonical_encode: "length raw = 32 \<Longrightarrow> canonical_token (b64Encode raw)"
  by (simp add: canonical_token_def b64Decode_Encode)

lemma b64_sextets_length: "length (b64_sextets xs) \<le> 2 * length xs"
  by (induction xs rule: b64_sextets.induct) auto

lemma canonical_length:
  assumes "canonical_token token"
  shows "1 \<le> length token" and "length token \<le> 64"
proof -
  obtain raw where raw: "length raw = 32" "b64Encode raw = token" "b64Decode token = Some raw"
    using assms by (auto simp: canonical_token_def split: option.splits)
  show "length token \<le> 64" using b64_sextets_length [of "map of_char raw"] raw by (auto simp: b64Encode_def)
  have "token \<noteq> []" using raw by (auto simp: b64Decode_def those_def)
  then show "1 \<le> length token" by (cases token) auto
qed

lemma extract_archive: "extractToken (token_archive token) = Inr token \<longleftrightarrow> canonical_token token"
  using canonical_length [of token]
  by (auto simp: extractToken_def token_archive_def res_bind_Inr Let_def maxTokenBytes_def)

lemma extract_own: "extractToken (token_archive token) = Inr t \<Longrightarrow> t = token"
  by (auto simp: extractToken_def token_archive_def res_bind_Inr Let_def maxTokenBytes_def)

lemma extract_canonical: "extractToken archive = Inr token \<Longrightarrow> canonical_token token"
  by (auto simp: extractToken_def res_bind_Inr Let_def)

text \<open>The file is replaced as a whole or not at all.\<close>

lemma Save_atomic:
  "case Save path io archive h of
     (Inl e, h') \<Rightarrow> hm_file h' = hm_file h
   | (Inr _, h') \<Rightarrow> \<exists>token. extractToken archive = Inr token \<and>
       hm_file h' = Some \<lparr>hf_regular = True, hf_perm = perm_private, hf_data = token\<rparr>"
  by (auto simp: Save_def res_bind_Inr Let_def split: sum.split)

lemma loadCredential_saved:
  "canonical_token token \<Longrightarrow>
   loadCredential file_ok (Some \<lparr>hf_regular = True, hf_perm = perm_private, hf_data = token\<rparr>) = Inr token"
  using canonical_length [of token]
  by (simp add: loadCredential_def Lstat_def file_ok_def others_perm_def perm_private_def)

lemma created_canonical:
  assumes "LoadOrCreate io None = (Inr token, file)" and "cr_meanwhile io = None"
    and "\<And>raw. cr_random io = Inr raw \<Longrightarrow> length raw = tokenBytes"
  shows "canonical_token token" and "file = Some \<lparr>hf_regular = True, hf_perm = perm_private, hf_data = token\<rparr>"
  using assms canonical_encode
  by (auto simp: LoadOrCreate_def load_def Lstat_def Let_def tokenBytes_def res_bind_Inr split: sum.splits option.splits if_splits)

text \<open>
  A token that the daemon goes on using is not always one that the host takes: the daemon also
  takes an encoding that is not canonical.
\<close>

definition loose_token :: string where
  "loose_token = replicate 42 (CHR ''A'') @ ''B''"

lemma loose_token_loads:
  "load file_ok (Some \<lparr>hf_regular = True, hf_perm = perm_private, hf_data = loose_token\<rparr>) = Inr loose_token"
  by code_simp

lemma loose_token_refused: "\<exists>e. extractToken (token_archive loose_token) = Inl e"
proof -
  have "\<not> canonical_token loose_token" by code_simp
  then show ?thesis
    using extract_archive [of loose_token] extract_own [of loose_token] by (cases "extractToken (token_archive loose_token)") blast+
qed

text \<open>A first write that fails leaves a file that stops every later start.\<close>

lemma partial_token_sticks:
  assumes "cr_meanwhile io = None" and "cr_mkdir io = Inr ()" "cr_random io = Inr raw" "cr_open io = Inr ()"
    and "cr_write io = Some (0, e)" and "cr_file io' = file_ok"
  shows "LoadOrCreate io' (snd (LoadOrCreate io None)) = (Inl (Errorf ''API token file is malformed''), snd (LoadOrCreate io None))"
proof -
  let ?f = "Some \<lparr>hf_regular = True, hf_perm = perm_private, hf_data = []\<rparr>"
  have "load (cr_file io) None = Inl (Wrapf ''checking API token'' ErrNotExist)" by (simp add: load_def Lstat_def)
  then have "snd (LoadOrCreate io None) = ?f" using assms(1-5) by (simp add: LoadOrCreate_def Let_def)
  moreover have "load file_ok ?f = Inl (Errorf ''API token file is malformed'')" by code_simp
  ultimately show ?thesis using assms(6) by (simp add: LoadOrCreate_def)
qed

end
