(* ===== verification/Appliance.thy ===== *)
theory Appliance
  imports Credentials JsonDecoder
begin

text \<open>
  \<open>internal/appliance\<close> and \<open>cmd/nephos/lifecycle.go\<close>: the life of the one Docker container that
  runs Nephos. The Docker client is a record of its calls on a state of Docker's.
\<close>

section \<open>engine.go\<close>

definition containerName :: string where
  "containerName = ''nephos''"

definition volumeName :: string where
  "volumeName = ''nephos-data''"

definition imageName :: string where
  "imageName = ''nephos-appliance:dev''"

definition ownerLabel :: string where
  "ownerLabel = ''io.nephos.appliance''"

definition ErrNotFound :: goerr where
  "ErrNotFound = ErrSentinel ''appliance object not found''"

record LimitSelection =
  ls_Memory :: bool
  ls_CPUs :: bool
  ls_PIDs :: bool

record Limits =
  lm_MemoryBytes :: int
  lm_NanoCPUs :: int
  lm_PIDs :: int
  lm_Explicit :: LimitSelection

definition no_selection :: LimitSelection where
  "no_selection = \<lparr>ls_Memory = False, ls_CPUs = False, ls_PIDs = False\<rparr>"

record HostInfo =
  hi_Rootless :: bool
  hi_CgroupVersion :: string
  hi_KernelVersion :: string
  hi_OSType :: string
  hi_Architecture :: string
  hi_MemTotal :: int
  hi_CPUs :: int
  hi_MemoryLimit :: bool
  hi_PidsLimit :: bool
  hi_CPUQuota :: bool

record ContainerState =
  cs_Running :: bool
  cs_Owned :: bool
  cs_Status :: string
  cs_Image :: string
  cs_Volume :: string
  cs_Limits :: Limits
  cs_HealthStatus :: string

definition zero_Limits :: Limits where
  "zero_Limits = \<lparr>lm_MemoryBytes = 0, lm_NanoCPUs = 0, lm_PIDs = 0, lm_Explicit = no_selection\<rparr>"

definition zero_ContainerState :: ContainerState where
  "zero_ContainerState = \<lparr>cs_Running = False, cs_Owned = False, cs_Status = [], cs_Image = [], cs_Volume = [],
     cs_Limits = zero_Limits, cs_HealthStatus = []\<rparr>"

type_synonym VolumeState = bool

record 'x Engine =
  en_Ping :: "('x, unit) eff"
  en_Info :: "('x, HostInfo) eff"
  en_ImageExists :: "('x, bool) eff"
  en_Inspect :: "('x, ContainerState) eff"
  en_InspectVolume :: "('x, VolumeState) eff"
  en_CreateVolume :: "('x, unit) eff"
  en_Create :: "Limits \<Rightarrow> ('x, unit) eff"
  en_Start :: "('x, unit) eff"
  en_Stop :: "('x, unit) eff"
  en_Remove :: "('x, unit) eff"
  en_RemoveVolume :: "('x, unit) eff"
  en_CopyFile :: "('x, tar_entry res list) eff"

section \<open>docker.go\<close>

type_synonym labels = "(string \<times> string) list"

record docker_info =
  di_SecurityOptions :: "string list"
  di_CgroupVersion :: string
  di_KernelVersion :: string
  di_OSType :: string
  di_Architecture :: string
  di_MemTotal :: int
  di_NCPU :: int
  di_MemoryLimit :: bool
  di_PidsLimit :: bool
  di_CPUCfsQuota :: bool

record docker_state =
  ds_Running :: bool
  ds_Status :: string
  ds_Health :: "string option"

record docker_config =
  dg_Image :: string
  dg_Labels :: labels
  dg_ExposedPorts :: "string list"

record docker_mount =
  mt_Type :: string
  mt_Name :: string
  mt_Destination :: string

record docker_binding =
  pb_Port :: string
  pb_HostIP :: string
  pb_HostPort :: string

record docker_host_config =
  dh_Privileged :: bool
  dh_CgroupnsMode :: string
  dh_NetworkMode :: string
  dh_PidMode :: string
  dh_Mounts :: "docker_mount list"
  dh_PortBindings :: "docker_binding list"
  dh_Memory :: int
  dh_NanoCPUs :: int
  dh_PidsLimit :: "int option"

record docker_container =
  dc_State :: "docker_state option"
  dc_Config :: "docker_config option"
  dc_Mounts :: "docker_mount list"
  dc_HostConfig :: "docker_host_config option"

record 'x docker =
  dk_Ping :: "('x, unit) eff"
  dk_Info :: "('x, docker_info) eff"
  dk_ImageInspect :: "string \<Rightarrow> ('x, unit) eff"
  dk_ContainerInspect :: "string \<Rightarrow> ('x, docker_container) eff"
  dk_VolumeInspect :: "string \<Rightarrow> ('x, labels) eff"
  dk_VolumeCreate :: "string \<Rightarrow> labels \<Rightarrow> ('x, unit) eff"
  dk_ContainerCreate :: "string \<Rightarrow> docker_config \<Rightarrow> docker_host_config \<Rightarrow> ('x, unit) eff"
  dk_ContainerStart :: "string \<Rightarrow> ('x, unit) eff"
  dk_ContainerStop :: "string \<Rightarrow> ('x, unit) eff"
  dk_ContainerRemove :: "string \<Rightarrow> ('x, unit) eff"
  dk_VolumeRemove :: "string \<Rightarrow> ('x, unit) eff"
  dk_CopyFromContainer :: "string \<Rightarrow> string \<Rightarrow> ('x, tar_entry res list) eff"
  dk_IsNotFound :: "goerr \<Rightarrow> bool"

definition objectError :: "'x docker \<Rightarrow> string \<Rightarrow> goerr \<Rightarrow> goerr" where
  "objectError d action e = Wrapf action (if dk_IsNotFound d e then ErrNotFound else e)"

definition eff_map_err :: "(goerr \<Rightarrow> goerr) \<Rightarrow> ('x, 'a) eff \<Rightarrow> ('x, 'a) eff" where
  "eff_map_err f m x = (case m x of (Inl e, x) \<Rightarrow> (Inl (f e), x) | (Inr y, x) \<Rightarrow> (Inr y, x))"

text \<open>A label that is not there reads as the empty string.\<close>

definition label :: "labels \<Rightarrow> string \<Rightarrow> string" where
  "label ls k = (case map_of ls k of None \<Rightarrow> [] | Some v \<Rightarrow> v)"

definition docker_Ping :: "'x docker \<Rightarrow> ('x, unit) eff" where
  "docker_Ping d = eff_wrap ''connect to Docker'' (dk_Ping d)"

definition docker_Info :: "'x docker \<Rightarrow> ('x, HostInfo) eff" where
  "docker_Info d =
     eff_bind (eff_wrap ''inspect Docker host'' (dk_Info d)) (\<lambda>i.
     eff_return \<lparr>hi_Rootless = (''name=rootless'' \<in> set (di_SecurityOptions i)), hi_CgroupVersion = di_CgroupVersion i,
       hi_KernelVersion = di_KernelVersion i, hi_OSType = di_OSType i, hi_Architecture = di_Architecture i,
       hi_MemTotal = di_MemTotal i, hi_CPUs = di_NCPU i, hi_MemoryLimit = di_MemoryLimit i, hi_PidsLimit = di_PidsLimit i,
       hi_CPUQuota = di_CPUCfsQuota i\<rparr>)"

definition docker_ImageExists :: "'x docker \<Rightarrow> ('x, bool) eff" where
  "docker_ImageExists d x =
     (case dk_ImageInspect d imageName x of
        (Inl e, x) \<Rightarrow> if dk_IsNotFound d e then (Inr False, x) else (Inl (Wrapf ''inspect appliance image'' e), x)
      | (Inr _, x) \<Rightarrow> (Inr True, x))"

definition container_state :: "docker_container \<Rightarrow> ContainerState" where
  "container_state c =
     (let st = zero_ContainerState;
          st = (case dc_State c of
                  None \<Rightarrow> st
                | Some s \<Rightarrow> st\<lparr>cs_Running := ds_Running s, cs_Status := ds_Status s,
                    cs_HealthStatus := (case ds_Health s of None \<Rightarrow> [] | Some h \<Rightarrow> h)\<rparr>);
          st = (case dc_Config c of
                  None \<Rightarrow> st
                | Some g \<Rightarrow> st\<lparr>cs_Owned := (label (dg_Labels g) ownerLabel = ''true''), cs_Image := dg_Image g\<rparr>);
          st = fold (\<lambda>m st. if mt_Type m = ''volume'' \<and> mt_Destination m = ''/var/lib/nephos'' then st\<lparr>cs_Volume := mt_Name m\<rparr> else st)
                 (dc_Mounts c) st in
      case dc_HostConfig c of
        None \<Rightarrow> st
      | Some h \<Rightarrow> st\<lparr>cs_Limits := (cs_Limits st)\<lparr>lm_MemoryBytes := dh_Memory h, lm_NanoCPUs := dh_NanoCPUs h,
          lm_PIDs := (case dh_PidsLimit h of None \<Rightarrow> 0 | Some n \<Rightarrow> n)\<rparr>\<rparr>)"

definition docker_Inspect :: "'x docker \<Rightarrow> ('x, ContainerState) eff" where
  "docker_Inspect d =
     eff_bind (eff_map_err (objectError d ''inspect appliance container'') (dk_ContainerInspect d containerName)) (\<lambda>c.
     eff_return (container_state c))"

definition docker_InspectVolume :: "'x docker \<Rightarrow> ('x, VolumeState) eff" where
  "docker_InspectVolume d =
     eff_bind (eff_map_err (objectError d ''inspect appliance volume'') (dk_VolumeInspect d volumeName)) (\<lambda>ls.
     eff_return (label ls ownerLabel = ''true''))"

definition docker_CreateVolume :: "'x docker \<Rightarrow> ('x, unit) eff" where
  "docker_CreateVolume d = eff_wrap ''create appliance volume'' (dk_VolumeCreate d volumeName [(ownerLabel, ''true'')])"

definition ContainerConfig :: "Limits \<Rightarrow> docker_config \<times> docker_host_config" where
  "ContainerConfig limits =
     (\<lparr>dg_Image = imageName, dg_Labels = [(ownerLabel, ''true'')], dg_ExposedPorts = [''7788/tcp'']\<rparr>,
      \<lparr>dh_Privileged = True, dh_CgroupnsMode = ''private'', dh_NetworkMode = ''default'', dh_PidMode = [],
       dh_Mounts = [\<lparr>mt_Type = ''volume'', mt_Name = volumeName, mt_Destination = ''/var/lib/nephos''\<rparr>],
       dh_PortBindings = [\<lparr>pb_Port = ''7788/tcp'', pb_HostIP = ''127.0.0.1'', pb_HostPort = ''7788''\<rparr>],
       dh_Memory = lm_MemoryBytes limits, dh_NanoCPUs = lm_NanoCPUs limits, dh_PidsLimit = Some (lm_PIDs limits)\<rparr>)"

definition docker_Create :: "'x docker \<Rightarrow> Limits \<Rightarrow> ('x, unit) eff" where
  "docker_Create d limits =
     eff_wrap ''create appliance container''
       (dk_ContainerCreate d containerName (fst (ContainerConfig limits)) (snd (ContainerConfig limits)))"

definition docker_Start :: "'x docker \<Rightarrow> ('x, unit) eff" where
  "docker_Start d = eff_wrap ''start appliance container'' (dk_ContainerStart d containerName)"

definition docker_Stop :: "'x docker \<Rightarrow> ('x, unit) eff" where
  "docker_Stop d = eff_map_err (objectError d ''stop appliance container'') (dk_ContainerStop d containerName)"

definition docker_Remove :: "'x docker \<Rightarrow> ('x, unit) eff" where
  "docker_Remove d = eff_map_err (objectError d ''remove appliance container'') (dk_ContainerRemove d containerName)"

definition docker_RemoveVolume :: "'x docker \<Rightarrow> ('x, unit) eff" where
  "docker_RemoveVolume d = eff_map_err (objectError d ''remove appliance volume'') (dk_VolumeRemove d volumeName)"

definition docker_CopyFile :: "'x docker \<Rightarrow> ('x, tar_entry res list) eff" where
  "docker_CopyFile d =
     eff_map_err (objectError d ''copy appliance token'')
       (dk_CopyFromContainer d containerName ''/var/lib/nephos/secrets/api-token'')"

definition dockerEngine :: "'x docker \<Rightarrow> 'x Engine" where
  "dockerEngine d =
     \<lparr>en_Ping = docker_Ping d, en_Info = docker_Info d, en_ImageExists = docker_ImageExists d, en_Inspect = docker_Inspect d,
      en_InspectVolume = docker_InspectVolume d, en_CreateVolume = docker_CreateVolume d, en_Create = docker_Create d,
      en_Start = docker_Start d, en_Stop = docker_Stop d, en_Remove = docker_Remove d, en_RemoveVolume = docker_RemoveVolume d,
      en_CopyFile = docker_CopyFile d\<rparr>"

section \<open>lifecycle.go: checks\<close>

text \<open>Error texts that print limits as floating-point numbers are given without them.\<close>

definition verifyContainer :: "ContainerState \<Rightarrow> unit res" where
  "verifyContainer c =
     res_guard (cs_Owned c \<and> cs_Volume c = volumeName \<and> cs_Image c = imageName)
       (Errorf (''docker container '' @ Quote containerName @ '' exists but does not match the Nephos appliance''))"

definition checkRequestedLimits :: "Limits \<Rightarrow> Limits \<Rightarrow> unit res" where
  "checkRequestedLimits actual requested =
     res_bind (res_guard (lm_MemoryBytes actual > 0 \<and> lm_NanoCPUs actual > 0 \<and> lm_PIDs actual > 0)
                 (Errorf ''existing appliance has missing Docker resource limits'')) (\<lambda>_.
     res_guard (\<not> (ls_Memory (lm_Explicit requested) \<and> lm_MemoryBytes actual \<noteq> lm_MemoryBytes requested \<or>
                   ls_CPUs (lm_Explicit requested) \<and> lm_NanoCPUs actual \<noteq> lm_NanoCPUs requested \<or>
                   ls_PIDs (lm_Explicit requested) \<and> lm_PIDs actual \<noteq> lm_PIDs requested))
       (Errorf ''existing appliance limits differ from the requested limits''))"

text \<open>\<open>strconv.Atoi\<close> of the first two parts between dots.\<close>

definition kernelAtLeast :: "string \<Rightarrow> int \<Rightarrow> int \<Rightarrow> bool" where
  "kernelAtLeast release wantMajor wantMinor =
     (case split_at (CHR ''.'') release of
        a # b # _ \<Rightarrow>
          (case (ParseInt a, ParseInt b) of
             (Some major, Some minor) \<Rightarrow> major > wantMajor \<or> major = wantMajor \<and> minor \<ge> wantMinor
           | _ \<Rightarrow> False)
      | _ \<Rightarrow> False)"

text \<open>A sum of 64-bit integers wraps around; Go's division rounds towards zero.\<close>

definition wrap64 :: "int \<Rightarrow> int" where
  "wrap64 n = (n + 2 ^ 63) mod 2 ^ 64 - 2 ^ 63"

definition go_div :: "int \<Rightarrow> int \<Rightarrow> int" where
  "go_div a b = sgn a * sgn b * (\<bar>a\<bar> div \<bar>b\<bar>)"

definition cpus_needed :: "int \<Rightarrow> int" where
  "cpus_needed nano = go_div (wrap64 (wrap64 (nano + 1000000000) - 1)) 1000000000"

definition preflight :: "HostInfo \<Rightarrow> Limits \<Rightarrow> unit res" where
  "preflight host limits =
     res_bind (res_guard (lm_MemoryBytes limits \<ge> 3 * 2 ^ 30 \<and> lm_NanoCPUs limits > 0 \<and> lm_PIDs limits > 0)
                 (Errorf ''invalid appliance limits: memory must be at least 3 GiB and CPU/PIDs positive'')) (\<lambda>_.
     res_bind (res_guard (\<not> hi_Rootless host) (Errorf ''rootless Docker cannot run the privileged Nephos appliance'')) (\<lambda>_.
     res_bind (res_guard (hi_OSType host = ''linux'' \<and> hi_CgroupVersion host = ''2'')
                 (Errorf ''nephos needs Linux Docker with cgroup v2'')) (\<lambda>_.
     res_bind (res_guard (hi_Architecture host = ''x86_64'' \<or> hi_Architecture host = ''amd64'' \<or>
                          hi_Architecture host = ''aarch64'' \<or> hi_Architecture host = ''arm64'')
                 (Errorf (''unsupported Docker architecture '' @ Quote (hi_Architecture host)))) (\<lambda>_.
     res_bind (res_guard (kernelAtLeast (hi_KernelVersion host) 5 15)
                 (Errorf ''nephos needs Linux kernel 5.15 or newer'')) (\<lambda>_.
     res_bind (res_guard (hi_MemTotal host \<ge> lm_MemoryBytes limits) (Errorf ''docker memory is below the appliance limit'')) (\<lambda>_.
     res_bind (res_guard (hi_MemoryLimit host \<and> hi_PidsLimit host \<and> hi_CPUQuota host)
                 (Errorf ''docker must support memory, pids, and CPU limits'')) (\<lambda>_.
     res_guard (hi_CPUs host \<ge> cpus_needed (lm_NanoCPUs limits))
       (Errorf ''docker exposes too few CPUs for the appliance limit''))))))))"

section \<open>lifecycle.go: health\<close>

datatype HealthState = HealthStarting | HealthReady | HealthUnhealthy

datatype Status = StatusMissing | StatusStopped | StatusStarting | StatusReady | StatusUnhealthy

text \<open>What the client gets for the request: the status and the body, read up to 1024 bytes.\<close>

definition health_fields :: "string fields" where
  "health_fields = [(''status'', set_str (\<lambda>s x. s))]"

definition probe_Check :: "goerr option \<Rightarrow> (int \<times> string) res \<Rightarrow> HealthState res" where
  "probe_Check bad resp =
     (case bad of
        Some e \<Rightarrow> Inl (Wrapf ''build health request'' e)
      | None \<Rightarrow>
          (case resp of
             Inl e \<Rightarrow> Inr HealthUnhealthy
           | Inr (status, body) \<Rightarrow>
               (case Option.bind (decode_one True (take 1024 body)) (\<lambda>(j, _). set_struct health_fields j []) of
                  None \<Rightarrow> Inr HealthUnhealthy
                | Some s \<Rightarrow>
                    if status = 200 \<and> s = ''ready'' then Inr HealthReady
                    else if status = 503 \<and> s = ''starting'' then Inr HealthStarting
                    else Inr HealthUnhealthy)))"

section \<open>lifecycle.go: up, down, status\<close>

text \<open>
  The state is Docker's and the home directory. \<open>mg_Credentials\<close> is \<open>LocalCredentialStore\<close> with its
  surroundings.
\<close>

record 'x Manager =
  mg_Engine :: "'x Engine"
  mg_Health :: "('x, HealthState) eff"
  mg_Path :: string
  mg_save :: save_io

definition eff_snd :: "('t, 'a) eff \<Rightarrow> ('s \<times> 't, 'a) eff" where
  "eff_snd m st = (case st of (s, t) \<Rightarrow> (case m t of (r, t') \<Rightarrow> (r, (s, t'))))"

text \<open>
  \<open>ctxs\<close> is the state of the context with its timeout at each wait for the ticker. A wait past
  their end is \<open>OutOfFuel\<close>.
\<close>

fun waitReady :: "'x Manager \<Rightarrow> goerr option list \<Rightarrow> ('x, unit) eff" where
  "waitReady m ctxs x =
     (case mg_Health m x of
        (Inr HealthReady, x) \<Rightarrow> (Inr (), x)
      | (_, x) \<Rightarrow>
          (case ctxs of
             [] \<Rightarrow> (Inl OutOfFuel, x)
           | Some e # _ \<Rightarrow> (Inl (Wrapf ''appliance did not become ready'' e), x)
           | None # ctxs \<Rightarrow>
               (case en_Inspect (mg_Engine m) x of
                  (Inl e, x) \<Rightarrow> (Inl e, x)
                | (Inr c, x) \<Rightarrow>
                    if \<not> cs_Running c then (Inl (Errorf (''appliance stopped during startup (state '' @ cs_Status c @ ''); inspect Docker logs'')), x)
                    else waitReady m ctxs x)))"

declare waitReady.simps [simp del]

definition not_owned :: goerr where
  "not_owned = Errorf (''docker volume '' @ Quote volumeName @ '' exists but is not owned by Nephos'')"

text \<open>The container to run: the one there is, or a new one on an owned volume.\<close>

definition ensure_volume :: "'x Engine \<Rightarrow> ('x, unit) eff" where
  "ensure_volume en =
     eff_bind (eff_try (en_InspectVolume en)) (\<lambda>volume.
     case volume of
       Inl e \<Rightarrow> if err_is ErrNotFound e then en_CreateVolume en else eff_res (Inl e)
     | Inr owned \<Rightarrow> eff_guard owned not_owned)"

definition up_container :: "'x Engine \<Rightarrow> HostInfo \<Rightarrow> Limits \<Rightarrow> ('x, ContainerState \<times> bool) eff" where
  "up_container en host limits =
     eff_bind (eff_try (en_Inspect en)) (\<lambda>got.
     case got of
       Inr c \<Rightarrow> eff_return (c, True)
     | Inl e \<Rightarrow>
         if err_is ErrNotFound e then
           eff_bind (eff_res (preflight host limits)) (\<lambda>_.
           eff_bind (ensure_volume en) (\<lambda>_.
           eff_bind (en_Create en limits) (\<lambda>_.
           eff_return (zero_ContainerState\<lparr>cs_Owned := True, cs_Volume := volumeName, cs_Image := imageName, cs_Limits := limits\<rparr>, False))))
         else eff_res (Inl e))"

definition up_engine :: "'x Manager \<Rightarrow> goerr option list \<Rightarrow> Limits \<Rightarrow> ('x, tar_entry res list) eff" where
  "up_engine m ctxs limits =
     (let en = mg_Engine m in
      eff_bind (en_Ping en) (\<lambda>_.
      eff_bind (en_Info en) (\<lambda>host.
      eff_bind (en_ImageExists en) (\<lambda>exists.
      eff_bind (eff_guard exists (Errorf ''appliance image is missing; run make dev-ami && make appliance'')) (\<lambda>_.
      eff_bind (up_container en host limits) (\<lambda>(c, existing).
      eff_bind (eff_res (verifyContainer c)) (\<lambda>_.
      eff_bind (if existing
                then eff_bind (eff_res (checkRequestedLimits (cs_Limits c) limits)) (\<lambda>_. eff_res (preflight host (cs_Limits c)))
                else eff_return ()) (\<lambda>_.
      eff_bind (en_InspectVolume en) (\<lambda>owned.
      eff_bind (eff_guard owned not_owned) (\<lambda>_.
      eff_bind (if cs_Running c then eff_return () else en_Start en) (\<lambda>_.
      eff_bind (waitReady m ctxs) (\<lambda>_.
      en_CopyFile en))))))))))))"

definition manager_Up :: "'x Manager \<Rightarrow> goerr option list \<Rightarrow> Limits \<Rightarrow> ('x \<times> home, unit) eff" where
  "manager_Up m ctxs limits =
     eff_bind (eff_fst (up_engine m ctxs limits)) (\<lambda>archive.
     eff_wrap ''save appliance credential'' (eff_snd (Save (mg_Path m) (mg_save m) archive)))"

definition manager_Down :: "'x Manager \<Rightarrow> ('x, unit) eff" where
  "manager_Down m =
     (let en = mg_Engine m in
      eff_bind (en_Ping en) (\<lambda>_.
      eff_bind (eff_try (en_Inspect en)) (\<lambda>got.
      case got of
        Inl e \<Rightarrow> if err_is ErrNotFound e then eff_return () else eff_res (Inl e)
      | Inr c \<Rightarrow>
          eff_bind (eff_res (verifyContainer c)) (\<lambda>_.
          if \<not> cs_Running c then eff_return () else en_Stop en))))"

text \<open>The status with an error is always \<open>unhealthy\<close>.\<close>

definition manager_Status :: "'x Manager \<Rightarrow> ('x, Status) eff" where
  "manager_Status m =
     (let en = mg_Engine m in
      eff_bind (en_Ping en) (\<lambda>_.
      eff_bind (eff_try (en_Inspect en)) (\<lambda>got.
      case got of
        Inl e \<Rightarrow> if err_is ErrNotFound e then eff_return StatusMissing else eff_res (Inl e)
      | Inr c \<Rightarrow>
          eff_bind (eff_res (verifyContainer c)) (\<lambda>_.
          if \<not> cs_Running c then eff_return StatusStopped
          else
            eff_bind (eff_wrap ''check appliance health'' (mg_Health m)) (\<lambda>state.
            eff_return (case state of
                HealthReady \<Rightarrow> StatusReady
              | HealthStarting \<Rightarrow> StatusStarting
              | HealthUnhealthy \<Rightarrow> if cs_HealthStatus c = ''starting'' then StatusStarting else StatusUnhealthy))))))"

section \<open>cmd/nephos/lifecycle.go: parseMemory\<close>

definition memory_suffixes :: "(string \<times> int) list" where
  "memory_suffixes = [(''gib'', 2 ^ 30), (''gb'', 2 ^ 30), (''g'', 2 ^ 30), (''mib'', 2 ^ 20), (''mb'', 2 ^ 20), (''m'', 2 ^ 20)]"

definition parseMemory :: "string \<Rightarrow> int res" where
  "parseMemory raw =
     (let s = ToLower (TrimSpace raw);
          (s, multiplier) = (case find (\<lambda>x. HasSuffix s (fst x)) memory_suffixes of
                               None \<Rightarrow> (s, 1)
                             | Some x \<Rightarrow> (take (length s - length (fst x)) s, snd x)) in
      case ParseInt s of
        None \<Rightarrow> Inl (Errorf (''invalid memory limit '' @ Quote raw))
      | Some n \<Rightarrow>
          if n \<le> 0 \<or> n > max_int64 div multiplier then Inl (Errorf (''invalid memory limit '' @ Quote raw))
          else Inr (n * multiplier))"

end
