(* ===== verification/ApplianceFacts.thy ===== *)
theory ApplianceFacts
  imports Appliance HookFacts
begin

text \<open>
  The host's commands leave what is not Nephos' alone, never remove the data volume, and hand
  the credential from the appliance to the command line.
\<close>

section \<open>Foreign objects\<close>

text \<open>Docker's answers to the calls that only look, which leave its state as it is.\<close>

definition looks_only :: "'x docker \<Rightarrow> 'x \<Rightarrow> bool" where
  "looks_only d x \<longleftrightarrow>
     snd (dk_Ping d x) = x \<and> snd (dk_Info d x) = x \<and> (\<forall>n. snd (dk_ImageInspect d n x) = x) \<and>
     (\<forall>n. snd (dk_ContainerInspect d n x) = x) \<and> (\<forall>n. snd (dk_VolumeInspect d n x) = x)"

text \<open>A container of that name which is not the appliance, or no container and a volume that is not.\<close>

definition foreign :: "'x docker \<Rightarrow> 'x \<Rightarrow> bool" where
  "foreign d x \<longleftrightarrow>
     (case fst (dk_ContainerInspect d containerName x) of
        Inr doc \<Rightarrow> verifyContainer (container_state doc) \<noteq> Inr ()
      | Inl e \<Rightarrow> dk_IsNotFound d e \<and>
          (case fst (dk_VolumeInspect d volumeName x) of Inr ls \<Rightarrow> label ls ownerLabel \<noteq> ''true'' | Inl e \<Rightarrow> False))"

lemma look_simps:
  assumes "looks_only d x"
  shows "dk_Ping d x = (fst (dk_Ping d x), x)" "dk_Info d x = (fst (dk_Info d x), x)"
    "dk_ImageInspect d n x = (fst (dk_ImageInspect d n x), x)"
    "dk_ContainerInspect d n x = (fst (dk_ContainerInspect d n x), x)"
    "dk_VolumeInspect d n x = (fst (dk_VolumeInspect d n x), x)"
  using assms by (metis looks_only_def prod.collapse)+

lemma inspect_looks:
  assumes "looks_only d x"
  shows "docker_Inspect d x =
      (case fst (dk_ContainerInspect d containerName x) of
         Inl e \<Rightarrow> (Inl (objectError d ''inspect appliance container'' e), x)
       | Inr doc \<Rightarrow> (Inr (container_state doc), x))"
    and "docker_InspectVolume d x =
      (case fst (dk_VolumeInspect d volumeName x) of
         Inl e \<Rightarrow> (Inl (objectError d ''inspect appliance volume'' e), x)
       | Inr ls \<Rightarrow> (Inr (label ls ownerLabel = ''true''), x))"
  unfolding docker_Inspect_def docker_InspectVolume_def eff_bind_def eff_map_err_def
  by (subst look_simps [OF assms], simp split: sum.split)+

lemma host_looks:
  assumes "looks_only d x"
  shows "\<exists>r. docker_Ping d x = (r, x)" "\<exists>r. docker_Info d x = (r, x)" "\<exists>r. docker_ImageExists d x = (r, x)"
  unfolding docker_Ping_def docker_Info_def docker_ImageExists_def eff_bind_def eff_wrap_def
  by (subst look_simps [OF assms], simp split: sum.split)+

lemma objectError_found: "err_is ErrNotFound (objectError d action e) \<longleftrightarrow> dk_IsNotFound d e \<or> err_is ErrNotFound e"
  by (simp add: objectError_def ErrNotFound_def)

lemma up_container_foreign:
  assumes "looks_only d x" and "foreign d x"
  shows "(\<exists>e. up_container (dockerEngine d) host limits x = (Inl e, x)) \<or>
    (\<exists>c. up_container (dockerEngine d) host limits x = (Inr (c, True), x) \<and> verifyContainer c \<noteq> Inr ())"
proof (cases "fst (dk_ContainerInspect d containerName x)")
  case (Inr doc)
  then show ?thesis
    using inspect_looks(1) [OF assms(1)] assms(2)
    by (simp add: up_container_def eff_bind_def eff_try_def dockerEngine_def foreign_def)
next
  case (Inl e)
  then obtain ls where ls: "dk_IsNotFound d e" "fst (dk_VolumeInspect d volumeName x) = Inr ls" "label ls ownerLabel \<noteq> ''true''"
    using assms(2) by (auto simp: foreign_def split: sum.splits)
  have "err_is ErrNotFound (objectError d ''inspect appliance container'' e)" using ls(1) by (simp add: objectError_found)
  then show ?thesis
    using inspect_looks [OF assms(1)] Inl ls
    by (auto simp: up_container_def ensure_volume_def eff_bind_def eff_try_def dockerEngine_def split: sum.splits)
qed

lemma looks_bind: "m x = (r, x) \<Longrightarrow> (\<And>y. \<exists>e. f y x = (Inl e, x)) \<Longrightarrow> \<exists>e. eff_bind m f x = (Inl e, x)"
  by (cases r) (auto simp: eff_bind_def)

lemma up_foreign:
  assumes "looks_only d x" and "foreign d x" and "mg_Engine m = dockerEngine d"
  shows "\<exists>e. manager_Up m ctxs limits (x, h) = (Inl e, (x, h))"
proof -
  obtain r1 r2 r3 where r: "docker_Ping d x = (r1, x)" "docker_Info d x = (r2, x)" "docker_ImageExists d x = (r3, x)"
    using host_looks [OF assms(1)] by blast
  have refused: "\<exists>e. eff_bind (up_container (dockerEngine d) host limits) (\<lambda>(c, existing). eff_bind (eff_res (verifyContainer c)) (f c existing)) x
      = (Inl e, x)" for host and f :: "ContainerState \<Rightarrow> bool \<Rightarrow> unit \<Rightarrow> ('a, tar_entry res list) eff"
    using up_container_foreign [OF assms(1,2), of host limits] by (auto simp: eff_bind_def split: sum.split)
  have "\<exists>e. up_engine m ctxs limits x = (Inl e, x)"
    unfolding up_engine_def Let_def assms(3)
    by (intro looks_bind [of _ x r1] looks_bind [of _ x r2] looks_bind [of _ x r3] looks_bind [OF eff_simps(4)] refused)
      (simp_all add: dockerEngine_def r)
  then show ?thesis by (auto simp: manager_Up_def eff_bind_def eff_fst_def)
qed

lemma down_foreign:
  assumes "looks_only d x" and "foreign d x" and "mg_Engine m = dockerEngine d"
  shows "\<exists>r. manager_Down m x = (r, x)"
proof -
  obtain r where r: "docker_Ping d x = (r, x)" using host_looks(1) [OF assms(1)] by blast
  show ?thesis
    using r inspect_looks(1) [OF assms(1)] assms(2)
    by (auto simp: manager_Down_def assms(3) dockerEngine_def eff_bind_def eff_try_def foreign_def split: sum.splits)
qed

section \<open>The data volume\<close>

lemma keeps_map_error [eff_keep]: "eff_keeps P m \<Longrightarrow> eff_keeps P (eff_map_err f m)"
  unfolding eff_keeps_def eff_map_err_def by (fastforce split: prod.split sum.split)

lemma keeps_pair [eff_keep]: "(\<And>a b. eff_keeps P (f a b)) \<Longrightarrow> eff_keeps P (case p of (a, b) \<Rightarrow> f a b)"
  by (cases p) simp

text \<open>Every call but the two that remove.\<close>

definition others_keep :: "('x \<Rightarrow> bool) \<Rightarrow> 'x docker \<Rightarrow> bool" where
  "others_keep P d \<longleftrightarrow>
     eff_keeps P (dk_Ping d) \<and> eff_keeps P (dk_Info d) \<and> (\<forall>n. eff_keeps P (dk_ImageInspect d n)) \<and>
     (\<forall>n. eff_keeps P (dk_ContainerInspect d n)) \<and> (\<forall>n. eff_keeps P (dk_VolumeInspect d n)) \<and>
     (\<forall>n ls. eff_keeps P (dk_VolumeCreate d n ls)) \<and> (\<forall>n c h. eff_keeps P (dk_ContainerCreate d n c h)) \<and>
     (\<forall>n. eff_keeps P (dk_ContainerStart d n)) \<and> (\<forall>n. eff_keeps P (dk_ContainerStop d n)) \<and>
     (\<forall>n p. eff_keeps P (dk_CopyFromContainer d n p))"

lemma engine_keeps:
  assumes "others_keep P d"
  shows "eff_keeps P (en_Ping (dockerEngine d))" "eff_keeps P (en_Info (dockerEngine d))"
    "eff_keeps P (en_ImageExists (dockerEngine d))" "eff_keeps P (en_Inspect (dockerEngine d))"
    "eff_keeps P (en_InspectVolume (dockerEngine d))" "eff_keeps P (en_CreateVolume (dockerEngine d))"
    "eff_keeps P (en_Create (dockerEngine d) limits)" "eff_keeps P (en_Start (dockerEngine d))"
    "eff_keeps P (en_Stop (dockerEngine d))" "eff_keeps P (en_CopyFile (dockerEngine d))"
proof -
  have i: "eff_keeps P (dk_ImageInspect d imageName)" using assms by (simp add: others_keep_def)
  show "eff_keeps P (en_ImageExists (dockerEngine d))"
    using eff_keepsD [OF i]
    by (auto simp: dockerEngine_def docker_ImageExists_def eff_keeps_def [of P "docker_ImageExists d"] split: prod.split sum.split)
qed (use assms in \<open>auto simp: others_keep_def dockerEngine_def docker_Ping_def docker_Info_def docker_Inspect_def
    docker_InspectVolume_def docker_CreateVolume_def docker_Create_def docker_Start_def docker_Stop_def docker_CopyFile_def
    intro!: eff_keep\<close>)

lemma waitReady_keeps:
  assumes "eff_keeps P (mg_Health m)" and "eff_keeps P (en_Inspect (mg_Engine m))"
  shows "eff_keeps P (waitReady m ctxs)"
proof -
  have "P (snd (waitReady m ctxs x))" if "P x" for x
    using that
  proof (induction ctxs arbitrary: x)
    case Nil
    then show ?case using eff_keepsD [OF assms(1) Nil]
      by (subst waitReady.simps) (auto split: prod.split sum.split HealthState.split)
  next
    case (Cons c ctxs)
    obtain r y where y: "mg_Health m x = (r, y)" "P y" using eff_keepsD [OF assms(1) Cons.prems] by (cases "mg_Health m x") auto
    obtain q z where z: "en_Inspect (mg_Engine m) y = (q, z)" "P z"
      using eff_keepsD [OF assms(2) y(2)] by (cases "en_Inspect (mg_Engine m) y") auto
    show ?case using y z Cons.IH [OF z(2)]
      by (subst waitReady.simps) (auto split: sum.split HealthState.split option.split)
  qed
  then show ?thesis by (simp add: eff_keeps_def)
qed

lemma manager_keeps:
  assumes "others_keep P d" and "eff_keeps P (mg_Health m)" and e: "mg_Engine m = dockerEngine d"
  shows "eff_keeps P (up_engine m ctxs limits)" "eff_keeps P (manager_Down m)" "eff_keeps P (manager_Status m)"
proof -
  note k = engine_keeps [OF assms(1)]
  note w = waitReady_keeps [OF assms(2), of ctxs]
  show "eff_keeps P (up_engine m ctxs limits)"
    unfolding up_engine_def Let_def up_container_def ensure_volume_def e by (intro eff_keep k w [unfolded e])
  show "eff_keeps P (manager_Down m)" "eff_keeps P (manager_Status m)"
    unfolding manager_Down_def manager_Status_def Let_def e by (intro eff_keep k assms(2))+
qed

section \<open>Limits\<close>

lemma wrap64_id: "- (2 ^ 63) \<le> n \<Longrightarrow> n < 2 ^ 63 \<Longrightarrow> wrap64 n = n"
  by (simp add: wrap64_def)

text \<open>Enough CPUs, as long as the sum stays within 64 bits.\<close>

lemma cpus_needed_enough:
  assumes "0 < nano" and "nano \<le> max_int64 - 1000000000"
  shows "nano \<le> cpus_needed nano * 1000000000 \<and> (cpus_needed nano - 1) * 1000000000 < nano"
proof -
  have "cpus_needed nano = (nano + 999999999) div 1000000000"
    using assms by (simp add: cpus_needed_def wrap64_id max_int64_def go_div_def)
  moreover have "(nano + 999999999) div 1000000000 * 1000000000 + (nano + 999999999) mod 1000000000 = nano + 999999999"
    by (rule div_mult_mod_eq)
  moreover have "0 \<le> (nano + 999999999) mod 1000000000" "(nano + 999999999) mod 1000000000 < 1000000000" by simp_all
  ultimately show ?thesis by (simp only: left_diff_distrib) linarith
qed

lemma preflight_enough:
  assumes "preflight host limits = Inr ()" and "lm_NanoCPUs limits \<le> max_int64 - 1000000000"
  shows "3 * 2 ^ 30 \<le> lm_MemoryBytes limits \<and> lm_MemoryBytes limits \<le> hi_MemTotal host \<and>
    lm_NanoCPUs limits \<le> hi_CPUs host * 1000000000 \<and> 0 < lm_PIDs limits"
proof -
  have g: "3 * 2 ^ 30 \<le> lm_MemoryBytes limits" "0 < lm_NanoCPUs limits" "0 < lm_PIDs limits" "lm_MemoryBytes limits \<le> hi_MemTotal host"
      "cpus_needed (lm_NanoCPUs limits) \<le> hi_CPUs host"
    using assms(1) by (simp_all add: preflight_def res_bind_Inr)
  have "lm_NanoCPUs limits \<le> cpus_needed (lm_NanoCPUs limits) * 1000000000" using cpus_needed_enough [OF g(2) assms(2)] by simp
  also have "\<dots> \<le> hi_CPUs host * 1000000000" using g(5) by (intro mult_right_mono) simp_all
  finally show ?thesis using g by simp
qed

text \<open>Past that, the sum wraps around and any host has enough CPUs.\<close>

lemma cpus_needed_wraps: "cpus_needed max_int64 = - 9223372035"
  by code_simp

lemma parseMemory_bounds: "parseMemory raw = Inr n \<Longrightarrow> 0 < n \<and> n \<le> max_int64"
proof -
  assume run: "parseMemory raw = Inr n"
  let ?s = "ToLower (TrimSpace raw)"
  obtain s k m where k: "(case find (\<lambda>x. HasSuffix ?s (fst x)) memory_suffixes of None \<Rightarrow> (?s, 1)
      | Some x \<Rightarrow> (take (length ?s - length (fst x)) ?s, snd x)) = (s, k)"
      "ParseInt s = Some m" "0 < m" "m \<le> max_int64 div k" "n = m * k"
    using run by (auto simp: parseMemory_def Let_def split: prod.splits option.splits if_splits)
  have "\<forall>x \<in> set memory_suffixes. 0 < snd x" by (simp add: memory_suffixes_def)
  then have "0 < k" using k(1) find_Some_in [of "\<lambda>x. HasSuffix ?s (fst x)" memory_suffixes] by (auto split: option.splits)
  then have "m * k \<le> max_int64 div k * k" using k(4) by (intro mult_right_mono) simp_all
  also have "\<dots> \<le> max_int64" using div_mult_mod_eq [of max_int64 k] pos_mod_sign [OF \<open>0 < k\<close>, of max_int64] by linarith
  finally show ?thesis using k(3,5) \<open>0 < k\<close> by simp
qed

section \<open>Health\<close>

text \<open>The probe sees what the health handler of the daemon says.\<close>

lemma probe_of_health:
  "probe_Check None (Inr (rp_Status (GetHealth sv), rp_Body (GetHealth sv))) =
     Inr (if sv_ready sv then HealthReady else HealthStarting)"
proof -
  have "probe_Check None (Inr (200, rp_Body (writeJSON 200 (JObj [(''status'', JStr ''ready'')])))) = Inr HealthReady"
    "probe_Check None (Inr (503, rp_Body (writeJSON 503 (JObj [(''status'', JStr ''starting'')])))) = Inr HealthStarting"
    by code_simp+
  then show ?thesis by (simp add: GetHealth_def) (simp add: writeJSON_def)
qed

lemma waitReady_ends:
  assumes "Some e \<in> set ctxs" and "\<And>y z e. mg_Health m y = (Inl e, z) \<Longrightarrow> e \<noteq> OutOfFuel"
    and "\<And>y z e. en_Inspect (mg_Engine m) y = (Inl e, z) \<Longrightarrow> e \<noteq> OutOfFuel"
  shows "fst (waitReady m ctxs x) \<noteq> Inl OutOfFuel"
  using assms(1)
proof (induction ctxs arbitrary: x)
  case (Cons c ctxs)
  obtain r y where y: "mg_Health m x = (r, y)" by (cases "mg_Health m x")
  obtain q z where z: "en_Inspect (mg_Engine m) y = (q, z)" by (cases "en_Inspect (mg_Engine m) y")
  show ?case using y z Cons.prems Cons.IH [of z] assms(3) [of y]
    by (subst waitReady.simps) (auto split: sum.split HealthState.split option.split)
qed simp

section \<open>The credential\<close>

lemma credential_chain:
  assumes "LoadOrCreate cio None = (Inr token, file)" and "cr_meanwhile cio = None"
    and "\<And>raw. cr_random cio = Inr raw \<Longrightarrow> length raw = tokenBytes"
    and "Save path sio (token_archive token) h = (Inr (), h')"
  shows "loadCredential file_ok (hm_file h') = Inr token \<and> token \<noteq> [] \<and>
    (\<forall>cio'. cr_file cio' = file_ok \<longrightarrow> LoadOrCreate cio' file = (Inr token, file))"
proof -
  note c = created_canonical [OF assms(1-3)]
  have "hm_file h' = Some \<lparr>hf_regular = True, hf_perm = perm_private, hf_data = token\<rparr>"
    using Save_atomic [where path = path and io = sio and archive = "token_archive token" and h = h] assms(4) by (auto dest: extract_own)
  then have "loadCredential file_ok (hm_file h') = Inr token" using loadCredential_saved [OF c(1)] by simp
  moreover have "load file_ok file = Inr token"
    using c by (auto simp: load_def Lstat_def file_ok_def canonical_token_def tokenBytes_def split: option.splits)
  ultimately show ?thesis using canonical_length(1) [OF c(1)] by (auto simp: LoadOrCreate_def)
qed

end
