(* ===== verification/ClientProps.thy ===== *)
theory ClientProps
  imports BridgeFacts ApplianceFacts
begin

text \<open>
  Properties of what the host runs: the console's two ends, the appliance and its credential,
  and the command line.
\<close>

section \<open>The console\<close>

text \<open>
  C16: The console never passes off part of the output as all of it. In every interleaving of the
  server's goroutines, with any failures, a client that has read any part of the wire and
  returns an exit code returns the code of the session, both streams were read to their end,
  and the client wrote exactly their bytes; and when the server ends the console without an
  error, the client does return a code.
\<close>

theorem console_output_complete:
  assumes "(bridge_step tty)\<^sup>*\<^sup>* (bridgeConsole tty stdout stderr waited) s"
  shows "(case readRemoteConsole wr lost tty None (take n (bg_wire s)) ([], []) of
      (Inr code, out) \<Rightarrow> waited = Inr code \<and> drained stdout \<and> (tty \<or> drained stderr) \<and>
        out = (streamed stdout, if tty then [] else streamed stderr)
    | (Inl e, out) \<Rightarrow> True) \<and>
    (bg_result s = Some (Inr ()) \<longrightarrow>
      (\<exists>code out. readRemoteConsole (\<lambda>_ _. None) lost tty None (bg_wire s) ([], []) = (Inr code, out)))"
  using client_complete [OF assms, of wr lost n] client_succeeds [OF assms, of lost] by (auto split: prod.split sum.split)

definition good_io :: console_io where
  "good_io = \<lparr>ci_text = (\<lambda>_. ''''), ci_session_close = Inr (), ci_write = Inr (), ci_close = Inr (), ci_close_sent = True,
     ci_report = (True, True)\<rparr>"

definition echoed :: bridge where
  "echoed = bridgeConsole False [(''hi'', None), ([], Some ErrEOF)] [([], Some ErrEOF)] (Inr 3)"

lemma echo_runs:
  "\<exists>s. (bridge_step False)\<^sup>*\<^sup>* echoed s \<and> bg_result s = Some (Inr ()) \<and>
     bg_wire s = [WsMsg MessageBinary (CHR 0x01 # ''hi''), exit_frame 3, WsClose StatusNormalClosure]"
proof -
  let ?s1 = "echoed\<lparr>bg_stdout := ([], True), bg_events := [data_event (CHR 0x01) ''hi'']\<rparr>"
  let ?s2 = "?s1\<lparr>bg_events := [], bg_wire := [WsMsg MessageBinary (CHR 0x01 # ''hi'')], bg_result := None\<rparr>"
  let ?s3 = "?s2\<lparr>bg_wait := None, bg_events := [exit_event 3]\<rparr>"
  let ?s4 = "?s3\<lparr>bg_events := [], bg_wire := [WsMsg MessageBinary (CHR 0x01 # ''hi''), exit_frame 3, WsClose StatusNormalClosure],
    bg_result := Some (Inr ())\<rparr>"
  note d = echoed_def bridgeConsole_def wait_event_def events_room_def handle_event_def good_io_def writeConsoleMessage_def
    OutputFrame_def frame_def MaxDataBytes_def
  have "bridge_step False echoed ?s1"
    using bridge_step.send_stdout [of echoed "data_event (CHR 0x01) ''hi''" "[]" True] by (simp add: d)
  moreover have "bridge_step False ?s1 ?s2"
    using bridge_step.take_event [of ?s1 "data_event (CHR 0x01) ''hi''" "[]" False good_io] by (simp add: d)
  moreover have "bridge_step False ?s2 ?s3"
    using bridge_step.send_exit [of ?s2 "exit_event 3"] by (simp add: d)
  moreover have "bridge_step False ?s3 ?s4"
    using bridge_step.take_event [of ?s3 "exit_event 3" "[]" False good_io] by (simp add: d)
  ultimately have "(bridge_step False)\<^sup>*\<^sup>* echoed ?s4" by (meson converse_rtranclp_into_rtranclp rtranclp.rtrancl_refl)
  then show ?thesis by (intro exI [of _ ?s4]) simp
qed

theorem console_output_complete_witness:
  "readRemoteConsole (\<lambda>_ _. None) ErrEOF False None
     [WsMsg MessageBinary (CHR 0x01 # ''hi''), exit_frame 3, WsClose StatusNormalClosure] ([], []) = (Inr 3, ''hi'', [])"
proof -
  obtain s where s: "(bridge_step False)\<^sup>*\<^sup>* echoed s" "bg_result s = Some (Inr ())"
      "bg_wire s = [WsMsg MessageBinary (CHR 0x01 # ''hi''), exit_frame 3, WsClose StatusNormalClosure]"
    using echo_runs by blast
  from console_output_complete [OF s(1) [unfolded echoed_def], of "\<lambda>_ _. None" ErrEOF 3] s(2,3)
  show ?thesis by (auto split: prod.splits sum.splits)
qed




section \<open>The appliance\<close>

text \<open>
  C18: The host's commands touch nothing in Docker that is not Nephos'. When the container of the
  appliance's name is not the appliance, or there is none and the volume of its name is not
  owned, \<open>nephos up\<close> fails and \<open>nephos down\<close> ends, and both leave Docker's state and the home
  directory as they were.
\<close>

theorem appliance_foreign_untouched:
  assumes "looks_only d x" and "foreign d x" and "mg_Engine m = dockerEngine d"
  shows "(\<exists>e. manager_Up m ctxs limits (x, h) = (Inl e, (x, h))) \<and> snd (manager_Down m x) = x"
  using up_foreign [OF assms] down_foreign [OF assms] by auto

type_synonym box = "docker_container option \<times> labels option"

definition box_running :: "bool \<Rightarrow> docker_container \<Rightarrow> docker_container" where
  "box_running b c = c\<lparr>dc_State := Some \<lparr>ds_Running = b, ds_Status = ''ok'', ds_Health = None\<rparr>\<rparr>"

definition box_docker :: "box docker" where
  "box_docker = \<lparr>dk_Ping = (\<lambda>x. (Inr (), x)),
     dk_Info = (\<lambda>x. (Inr \<lparr>di_SecurityOptions = [], di_CgroupVersion = ''2'', di_KernelVersion = ''6.8.0'', di_OSType = ''linux'',
       di_Architecture = ''x86_64'', di_MemTotal = 2 ^ 34, di_NCPU = 8, di_MemoryLimit = True, di_PidsLimit = True,
       di_CPUCfsQuota = True\<rparr>, x)),
     dk_ImageInspect = (\<lambda>n x. (Inr (), x)),
     dk_ContainerInspect = (\<lambda>n x. (case fst x of None \<Rightarrow> Inl ErrNotExist | Some c \<Rightarrow> Inr c, x)),
     dk_VolumeInspect = (\<lambda>n x. (case snd x of None \<Rightarrow> Inl ErrNotExist | Some ls \<Rightarrow> Inr ls, x)),
     dk_VolumeCreate = (\<lambda>n ls x. (Inr (), (fst x, Some ls))),
     dk_ContainerCreate = (\<lambda>n c h x. (Inr (), (Some (box_running False
       \<lparr>dc_State = None, dc_Config = Some c, dc_Mounts = dh_Mounts h, dc_HostConfig = Some h\<rparr>), snd x))),
     dk_ContainerStart = (\<lambda>n x. (Inr (), (map_option (box_running True) (fst x), snd x))),
     dk_ContainerStop = (\<lambda>n x. (Inr (), (map_option (box_running False) (fst x), snd x))),
     dk_ContainerRemove = (\<lambda>n x. (Inr (), (None, snd x))), dk_VolumeRemove = (\<lambda>n x. (Inr (), (fst x, None))),
     dk_CopyFromContainer = (\<lambda>n p x. (Inr (token_archive (b64Encode (replicate 32 CHR ''k''))), x)),
     dk_IsNotFound = (\<lambda>e. e = ErrNotExist)\<rparr>"

definition box_manager :: "box Manager" where
  "box_manager = \<lparr>mg_Engine = dockerEngine box_docker, mg_Health = (\<lambda>x. (Inr HealthReady, x)), mg_Path = ''credentials'',
     mg_save = \<lparr>sa_ctx = Inr (), sa_mkdir = Inr (), sa_lstat = Inr (), sa_temp = Inr (), sa_chmod = Inr (), sa_write = Inr (),
       sa_sync = Inr (), sa_close = Inr (), sa_ctx2 = Inr (), sa_rename = Inr ()\<rparr>\<rparr>"

definition four_gigabytes :: Limits where
  "four_gigabytes = \<lparr>lm_MemoryBytes = 2 ^ 32, lm_NanoCPUs = 2000000000, lm_PIDs = 4096, lm_Explicit = no_selection\<rparr>"

definition other_box :: box where
  "other_box = (Some \<lparr>dc_State = None, dc_Config = None, dc_Mounts = [], dc_HostConfig = None\<rparr>, None)"

theorem appliance_foreign_untouched_witness:
  "(\<exists>e. manager_Up box_manager [] four_gigabytes (other_box, \<lparr>hm_dir = None, hm_file = None\<rparr>) =
     (Inl e, (other_box, \<lparr>hm_dir = None, hm_file = None\<rparr>))) \<and> snd (manager_Down box_manager other_box) = other_box"
proof (rule appliance_foreign_untouched)
  show "looks_only box_docker other_box" by (simp add: looks_only_def box_docker_def)
  show "foreign box_docker other_box"
    by (simp add: foreign_def box_docker_def other_box_def container_state_def zero_ContainerState_def verifyContainer_def)
  show "mg_Engine box_manager = dockerEngine box_docker" by (simp add: box_manager_def)
qed

text \<open>
  C19: The host's commands never remove. Whatever holds of Docker's state and outlives all calls
  but the two that remove a container or a volume, as that the data volume is there with its
  content, holds after \<open>nephos up\<close>, \<open>down\<close> and \<open>status\<close>, however they end.
\<close>

theorem appliance_data_kept:
  assumes "others_keep P d" and "eff_keeps P (mg_Health m)" and "mg_Engine m = dockerEngine d" and "P x"
  shows "P (fst (snd (manager_Up m ctxs limits (x, h)))) \<and> P (snd (manager_Down m x)) \<and> P (snd (manager_Status m x))"
proof -
  note k = manager_keeps [OF assms(1-3)]
  have "P (snd (up_engine m ctxs limits x))" "P (snd (manager_Down m x))" "P (snd (manager_Status m x))"
    using k(1) [of ctxs limits] k(2,3) assms(4) by (simp_all add: eff_keeps_def)
  then show ?thesis
    by (auto simp: manager_Up_def eff_bind_def eff_fst_def eff_wrap_def eff_snd_def split: prod.splits sum.splits)
qed

definition has_volume :: "box \<Rightarrow> bool" where
  "has_volume x \<longleftrightarrow> snd x \<noteq> None"

theorem appliance_data_kept_witness:
  "has_volume (fst (snd (manager_Up box_manager [] four_gigabytes ((None, Some [(ownerLabel, ''true'')]), \<lparr>hm_dir = None, hm_file = None\<rparr>)))) \<and>
   has_volume (snd (manager_Down box_manager (None, Some [(ownerLabel, ''true'')]))) \<and>
   has_volume (snd (manager_Status box_manager (None, Some [(ownerLabel, ''true'')])))"
  by (rule appliance_data_kept [of has_volume box_docker])
    (simp_all add: others_keep_def eff_keeps_def box_docker_def box_manager_def has_volume_def)

section \<open>The credential\<close>




end
