(* ===== verification/NetServe.thy ===== *)
theory NetServe
  imports NetUrl ApiServer Effects
begin

text \<open>
  What lies between a client and a handler, from \<open>net/http\<close>: making a request, what the server
  reads of a request that the transport writes, and the multiplexer with its patterns.
\<close>

section \<open>Requests\<close>

text \<open>
  The header as its lines, under canonical names. A body is its bytes and whether it ends there.
\<close>

record net_request =
  nr_Method :: string
  nr_URL :: URL
  nr_Host :: string
  nr_Header :: "(string \<times> string) list"
  nr_Body :: "string \<times> bool"

fun canonical_from :: "bool \<Rightarrow> string \<Rightarrow> string" where
  "canonical_from upper [] = []"
| "canonical_from upper (c # s) =
     (if upper \<and> 0x61 \<le> byte c \<and> byte c \<le> 0x7A then char_of (byte c - 32) else if upper then c else fold_ascii c) #
     canonical_from (c = CHR ''-'') s"

text \<open>\<open>http.CanonicalHeaderKey\<close> for a name made of token bytes.\<close>

definition CanonicalHeaderKey :: "string \<Rightarrow> string" where
  "CanonicalHeaderKey = canonical_from True"

definition Header_Values :: "string \<Rightarrow> net_request \<Rightarrow> string list" where
  "Header_Values k r = map snd (filter (\<lambda>kv. fst kv = CanonicalHeaderKey k) (nr_Header r))"

definition Header_Add :: "string \<Rightarrow> string \<Rightarrow> net_request \<Rightarrow> net_request" where
  "Header_Add k v r = r\<lparr>nr_Header := nr_Header r @ [(CanonicalHeaderKey k, v)]\<rparr>"

definition Header_Set :: "string \<Rightarrow> string \<Rightarrow> net_request \<Rightarrow> net_request" where
  "Header_Set k v r = Header_Add k v (r\<lparr>nr_Header := filter (\<lambda>kv. fst kv \<noteq> CanonicalHeaderKey k) (nr_Header r)\<rparr>)"

definition Header_Get :: "string \<Rightarrow> net_request \<Rightarrow> string" where
  "Header_Get k r = (case Header_Values k r of [] \<Rightarrow> [] | v # vs \<Rightarrow> v)"

definition removeEmptyPort :: "string \<Rightarrow> string" where
  "removeEmptyPort host = (if HasSuffix host '':'' then butlast host else host)"

definition NewRequest :: "string \<Rightarrow> string \<Rightarrow> string \<Rightarrow> net_request res" where
  "NewRequest verb rawURL body =
     (if verb = [] \<or> \<not> list_all isTokenChar verb then Inl (Errorf (''net/http: invalid method '' @ Quote verb))
      else
        (case url_Parse rawURL of
           None \<Rightarrow> Inl (Errorf (''parse '' @ Quote rawURL))
         | Some u \<Rightarrow>
             let host = removeEmptyPort (u_Host u) in
             Inr \<lparr>nr_Method = verb, nr_URL = u\<lparr>u_Host := host\<rparr>, nr_Host = host, nr_Header = [], nr_Body = (body, True)\<rparr>))"

text \<open>The view of a request that the access checks and the handlers have.\<close>

definition view :: "net_request \<Rightarrow> http_request" where
  "view r = \<lparr>hr_Path = u_Path (nr_URL r), hr_Host = nr_Host r, hr_Header = (\<lambda>k. Header_Get k r), hr_Body = nr_Body r\<rparr>"

section \<open>The transport\<close>

definition is_blank :: "char \<Rightarrow> bool" where
  "is_blank c \<longleftrightarrow> byte c = 0x20 \<or> byte c = 9"

definition TrimBlanks :: "string \<Rightarrow> string" where
  "TrimBlanks s = rev (dropWhile is_blank (rev (dropWhile is_blank s)))"

definition ValidHeaderFieldValue :: "string \<Rightarrow> bool" where
  "ValidHeaderFieldValue v \<longleftrightarrow> list_all (\<lambda>c. is_blank c \<or> 0x20 < byte c \<and> byte c \<noteq> 0x7F) v"

definition text_error :: "string \<Rightarrow> int \<Rightarrow> response" where
  "text_error message code = \<lparr>rp_Status = code, rp_ContentType = ''text/plain; charset=utf-8'', rp_Body = message @ [CHR 0x0A]\<rparr>"

definition bad_request :: response where
  "bad_request = \<lparr>rp_Status = 400, rp_ContentType = ''text/plain; charset=utf-8'', rp_Body = ''400 Bad Request''\<rparr>"

type_synonym 's net_handler = "net_request \<Rightarrow> 's \<Rightarrow> response \<times> 's"

text \<open>
  A request that reaches the server, and its answer: the transport refuses header values that
  cannot be sent, the server reads the target of the request line and trimmed header values.
\<close>

definition RoundTrip :: "'s net_handler \<Rightarrow> net_request \<Rightarrow> ('s, response) eff" where
  "RoundTrip server r s =
     (if u_Scheme (nr_URL r) \<noteq> ''http'' then (Inl (Errorf ''unsupported protocol scheme''), s)
      else if u_Host (nr_URL r) = [] then (Inl (Errorf ''http: no Host in request URL''), s)
      else if \<not> list_all (\<lambda>kv. ValidHeaderFieldValue (snd kv)) (nr_Header r)
      then (Inl (Errorf ''net/http: invalid header field value''), s)
      else
        (case url_ParseRequestURI (RequestURI (nr_URL r)) of
           None \<Rightarrow> (Inr bad_request, s)
         | Some u \<Rightarrow> apfst Inr (server (r\<lparr>nr_URL := u, nr_Header := map (\<lambda>(k, v). (k, TrimBlanks v)) (nr_Header r)\<rparr>) s)))"

section \<open>The multiplexer\<close>

fun clean_elems :: "string list \<Rightarrow> string list \<Rightarrow> string list" where
  "clean_elems out [] = rev out"
| "clean_elems out (e # es) =
     (if e = [] \<or> e = ''.'' then clean_elems out es
      else if e = ''..'' then clean_elems (tl out) es
      else clean_elems (e # out) es)"

definition cleanPath :: "string \<Rightarrow> string" where
  "cleanPath p =
     (if p = [] then ''/''
      else
        (let p = (if hd p \<noteq> CHR ''/'' then CHR ''/'' # p else p);
             np = (case clean_elems [] (split_at (CHR ''/'') p) of [] \<Rightarrow> ''/'' | es \<Rightarrow> slashed es) in
         if last p = CHR ''/'' \<and> np \<noteq> ''/'' then np @ ''/'' else np))"

datatype pat_seg = Lit string | Wild string

type_synonym 'h route = "string \<times> pat_seg list \<times> 'h"

definition pathUnescape :: "string \<Rightarrow> string" where
  "pathUnescape s = (case unescape encodePathSegment s of None \<Rightarrow> s | Some u \<Rightarrow> u)"

text \<open>The values of the wildcards of a pattern, by their names. A wildcard is a non-empty segment.\<close>

fun match_segs :: "pat_seg list \<Rightarrow> string list \<Rightarrow> (string \<times> string) list option" where
  "match_segs [] [] = Some []"
| "match_segs (Lit l # ps) (s # ss) = (if s = l then match_segs ps ss else None)"
| "match_segs (Wild x # ps) (s # ss) = (if s = [] then None else map_option ((#) (x, s)) (match_segs ps ss))"
| "match_segs _ _ = None"

definition match_path :: "pat_seg list \<Rightarrow> string \<Rightarrow> (string \<times> string) list option" where
  "match_path ps path = match_segs ps (map pathUnescape (split_at (CHR ''/'') (tl path)))"

definition match_method :: "string \<Rightarrow> string \<Rightarrow> bool" where
  "match_method pattern verb \<longleftrightarrow> verb = pattern \<or> pattern = ''GET'' \<and> verb = ''HEAD''"

text \<open>
  No two patterns of the program match the same verb and path, so the first match is the most
  specific one. \<open>redirect\<close> is the answer that sends the client to a clean path.
\<close>

fun find_route :: "'h route list \<Rightarrow> string \<Rightarrow> string \<Rightarrow> ((string \<times> string) list \<times> 'h) option" where
  "find_route [] verb path = None"
| "find_route ((m, ps, h) # routes) verb path =
     (case (match_method m verb, match_path ps path) of
        (True, Some vs) \<Rightarrow> Some (vs, h)
      | _ \<Rightarrow> find_route routes verb path)"

definition PathValue :: "(string \<times> string) list \<Rightarrow> string \<Rightarrow> string" where
  "PathValue vs x = (case map_of vs x of None \<Rightarrow> [] | Some v \<Rightarrow> v)"

definition mux_ServeHTTP ::
  "(string \<Rightarrow> response) \<Rightarrow> ((string \<Rightarrow> string) \<Rightarrow> 's net_handler) route list \<Rightarrow> 's net_handler" where
  "mux_ServeHTTP redirect routes r s =
     (let escaped = EscapedPath (nr_URL r); path = cleanPath escaped in
      if path \<noteq> escaped then (redirect path, s)
      else
        (case find_route routes (nr_Method r) path of
           Some (vs, h) \<Rightarrow> h (PathValue vs) r s
         | None \<Rightarrow>
             if list_ex (\<lambda>(m, ps, h). match_path ps path \<noteq> None) routes then (text_error ''Method Not Allowed'' 405, s)
             else (text_error ''404 page not found'' 404, s)))"

section \<open>Facts\<close>

lemma split_clean:
  assumes "list_all (\<lambda>x. x \<noteq> [] \<and> x \<noteq> ''.'' \<and> x \<noteq> ''..'') es" shows "clean_elems out es = rev out @ es"
  using assms by (induction es arbitrary: out) auto

lemma split_segments:
  assumes "xs \<noteq> []"
  shows "split_at (CHR ''/'') (slashed (map PathEscape xs)) = [] # map PathEscape xs"
    "split_at (CHR ''/'') (tl (slashed (map PathEscape xs))) = map PathEscape xs"
proof -
  have n: "CHR ''/'' \<notin> set (PathEscape x)" for x using PathEscape_chars [of x] seg_char_not by (auto simp: list_all_iff)
  show "split_at (CHR ''/'') (slashed (map PathEscape xs)) = [] # map PathEscape xs"
    using n split_slashed [of "map PathEscape xs" "[]"] by (simp add: list_all_iff)
  obtain y ys where "xs = y # ys" using assms by (cases xs) auto
  then show "split_at (CHR ''/'') (tl (slashed (map PathEscape xs))) = map PathEscape xs"
    using n split_slashed [of "map PathEscape ys" "PathEscape y"] by (simp add: list_all_iff)
qed

lemma last_slashed: "solid es \<Longrightarrow> list_all (\<lambda>x. CHR ''/'' \<notin> set x) es \<Longrightarrow> last (slashed es) \<noteq> CHR ''/''"
proof (induction es)
  case (Cons x es)
  show ?case
  proof (cases es)
    case Nil
    then show ?thesis using Cons.prems by (simp add: solid_def) (metis last_in_set)
  next
    case (Cons y ys)
    then have "solid es" using Cons.prems by (simp add: solid_def)
    then show ?thesis using Cons.IH Cons.prems Cons by simp
  qed
qed (simp add: solid_def)

lemma cleanPath_slashed:
  assumes "solid xs" shows "cleanPath (slashed (map PathEscape xs)) = slashed (map PathEscape xs)"
proof -
  let ?es = "map PathEscape xs"
  have n: "CHR ''/'' \<notin> set (PathEscape x)" for x using PathEscape_chars [of x] seg_char_not by (auto simp: list_all_iff)
  have e: "solid ?es" by (rule solid_escaped [OF assms])
  then obtain y ys where es: "?es = y # ys" by (cases ?es) (auto simp: solid_def)
  have "clean_elems [] (split_at (CHR ''/'') (slashed ?es)) = ?es"
    using assms e split_clean [of ?es "[]"] by (simp add: split_segments solid_def)
  moreover have "last (slashed ?es) \<noteq> CHR ''/''" using last_slashed [OF e] n by (simp add: list_all_iff)
  ultimately show ?thesis by (simp add: cleanPath_def Let_def es)
qed

lemma pathUnescape_escape [simp]: "pathUnescape (PathEscape x) = x"
  by (simp add: pathUnescape_def PathEscape_def unescape_escape)

lemma match_path_slashed: "xs \<noteq> [] \<Longrightarrow> match_path ps (slashed (map PathEscape xs)) = match_segs ps xs"
  by (simp add: match_path_def split_segments comp_def)

text \<open>The multiplexer on a path that is given by its segments.\<close>

fun find_segs :: "'h route list \<Rightarrow> string \<Rightarrow> string list \<Rightarrow> ((string \<times> string) list \<times> 'h) option" where
  "find_segs [] verb xs = None"
| "find_segs ((m, ps, h) # routes) verb xs =
     (case (match_method m verb, match_segs ps xs) of
        (True, Some vs) \<Rightarrow> Some (vs, h)
      | _ \<Rightarrow> find_segs routes verb xs)"

lemma find_route_slashed: "xs \<noteq> [] \<Longrightarrow> find_route routes verb (slashed (map PathEscape xs)) = find_segs routes verb xs"
  by (induction routes verb "slashed (map PathEscape xs)" rule: find_route.induct)
    (simp_all add: match_path_slashed split: bool.split option.split)

lemma mux_slashed:
  assumes "solid xs" and "nr_URL r = path_url scheme host xs q" and "find_segs routes (nr_Method r) xs = Some (vs, h)"
  shows "mux_ServeHTTP redirect routes r s = h (PathValue vs) r s"
proof -
  have "xs \<noteq> []" using assms(1) by (simp add: solid_def)
  then show ?thesis using assms by (simp add: mux_ServeHTTP_def cleanPath_slashed find_route_slashed Let_def)
qed

end
