(* ===== verification/GenServer.thy ===== *)
theory GenServer
  imports NetServe
begin

text \<open>
  The generated half of the API server, \<open>internal/apiserver/generated/server.gen.go\<close>: the
  interface of the handlers, one wrapper per operation that reads its parameters from the
  request, and the routes. The package \<open>github.com/oapi-codegen/runtime\<close> that converts the
  parameters is a parameter.
\<close>

section \<open>The conversion of parameters\<close>

text \<open>
  The calls of the runtime: binding a value of the path, of a header and of the query, whether
  an error says that a parameter is missing, and, for the client, writing a value into the
  path, a header and the query.
\<close>

record gen_runtime =
  rt_BindPath :: "string \<Rightarrow> string \<Rightarrow> string res"
  rt_BindHeader :: "string \<Rightarrow> string \<Rightarrow> string res"
  rt_BindQuery :: "string \<Rightarrow> values_ \<Rightarrow> string option res"
  rt_BindQueryInt :: "string \<Rightarrow> values_ \<Rightarrow> int option res"
  rt_Required :: "goerr \<Rightarrow> bool"
  rt_StylePath :: "string \<Rightarrow> string \<Rightarrow> string res"
  rt_StyleHeader :: "string \<Rightarrow> string \<Rightarrow> string res"
  rt_StyleQuery :: "string \<Rightarrow> string \<Rightarrow> string res"
  rt_StyleQueryInt :: "string \<Rightarrow> int \<Rightarrow> string res"

section \<open>The interface\<close>

text \<open>The structs \<open>ListVpcsParams\<close>, \<open>ListSubnetsParams\<close> and \<open>ListInstancesParams\<close>.\<close>

record ListParams =
  lp_Limit :: "int option"
  lp_PageToken :: "string option"

record 's ServerInterface =
  si_GetEvents :: "string option \<Rightarrow> 's net_handler"
  si_GetHealth :: "'s net_handler"
  si_GetVersion :: "'s net_handler"
  si_ListInstances :: "string \<Rightarrow> ListParams \<Rightarrow> 's net_handler"
  si_RunInstance :: "string \<Rightarrow> string option \<Rightarrow> 's net_handler"
  si_TerminateInstance :: "string \<Rightarrow> string \<Rightarrow> 's net_handler"
  si_GetInstance :: "string \<Rightarrow> string \<Rightarrow> 's net_handler"
  si_GetInstanceConsole :: "string \<Rightarrow> string \<Rightarrow> 's net_handler"
  si_ListSubnets :: "string \<Rightarrow> ListParams \<Rightarrow> 's net_handler"
  si_CreateSubnet :: "string \<Rightarrow> string option \<Rightarrow> 's net_handler"
  si_DeleteSubnet :: "string \<Rightarrow> string \<Rightarrow> 's net_handler"
  si_GetSubnet :: "string \<Rightarrow> string \<Rightarrow> 's net_handler"
  si_ListVpcs :: "string \<Rightarrow> ListParams \<Rightarrow> 's net_handler"
  si_CreateVpc :: "string \<Rightarrow> string option \<Rightarrow> 's net_handler"
  si_DeleteVpc :: "string \<Rightarrow> string \<Rightarrow> 's net_handler"
  si_GetVpc :: "string \<Rightarrow> string \<Rightarrow> 's net_handler"

record 's ServerInterfaceWrapper =
  siw_Handler :: "'s ServerInterface"
  siw_HandlerMiddlewares :: "('s net_handler \<Rightarrow> 's net_handler) list"
  siw_ErrorHandlerFunc :: "goerr \<Rightarrow> response"

section \<open>The wrappers\<close>

definition InvalidParamFormatError :: "string \<Rightarrow> goerr \<Rightarrow> goerr" where
  "InvalidParamFormatError name e = Wrapf (''Invalid format for parameter '' @ name) e"

definition RequiredParamError :: "string \<Rightarrow> goerr" where
  "RequiredParamError name = Errorf (''Query argument '' @ name @ '' is required, but not found'')"

definition TooManyValuesForParamError :: "string \<Rightarrow> nat \<Rightarrow> goerr" where
  "TooManyValuesForParamError name n = Errorf (''Expected one value for '' @ name @ '', got '' @ FormatInt (int n))"

text \<open>The steps that the wrappers share: a parameter is read, or the wrapper answers with an error.\<close>

definition bound :: "'s ServerInterfaceWrapper \<Rightarrow> (goerr \<Rightarrow> goerr) \<Rightarrow> 'a res \<Rightarrow> ('a \<Rightarrow> 's net_handler) \<Rightarrow> 's net_handler" where
  "bound siw failed m k r s = (case m of Inl e \<Rightarrow> (siw_ErrorHandlerFunc siw (failed e), s) | Inr x \<Rightarrow> k x r s)"

definition path_param :: "gen_runtime \<Rightarrow> 's ServerInterfaceWrapper \<Rightarrow> string \<Rightarrow> (string \<Rightarrow> string) \<Rightarrow> (string \<Rightarrow> 's net_handler) \<Rightarrow> 's net_handler" where
  "path_param rt siw name pathValue = bound siw (InvalidParamFormatError name) (rt_BindPath rt name (pathValue name))"

definition query_error :: "gen_runtime \<Rightarrow> string \<Rightarrow> goerr \<Rightarrow> goerr" where
  "query_error rt name e = (if rt_Required rt e then RequiredParamError name else InvalidParamFormatError name e)"

definition list_params :: "gen_runtime \<Rightarrow> 's ServerInterfaceWrapper \<Rightarrow> (ListParams \<Rightarrow> 's net_handler) \<Rightarrow> 's net_handler" where
  "list_params rt siw k r =
     bound siw (query_error rt ''limit'') (rt_BindQueryInt rt ''limit'' (ParseQuery (u_RawQuery (nr_URL r)))) (\<lambda>limit.
     bound siw (query_error rt ''page_token'') (rt_BindQuery rt ''page_token'' (ParseQuery (u_RawQuery (nr_URL r)))) (\<lambda>token.
     k \<lparr>lp_Limit = limit, lp_PageToken = token\<rparr>)) r"

definition header_param :: "gen_runtime \<Rightarrow> 's ServerInterfaceWrapper \<Rightarrow> string \<Rightarrow> (string option \<Rightarrow> 's net_handler) \<Rightarrow> 's net_handler" where
  "header_param rt siw name k r =
     (case Header_Values name r of
        [] \<Rightarrow> k None r
      | [v] \<Rightarrow> bound siw (InvalidParamFormatError name) (rt_BindHeader rt name v) (\<lambda>x. k (Some x)) r
      | vs \<Rightarrow> bound siw id (Inl (TooManyValuesForParamError name (length vs))) (\<lambda>_ :: unit. k None) r)"

definition through :: "'s ServerInterfaceWrapper \<Rightarrow> 's net_handler \<Rightarrow> 's net_handler" where
  "through siw handler = fold (\<lambda>middleware h. middleware h) (siw_HandlerMiddlewares siw) handler"

definition wrap_GetEvents :: "gen_runtime \<Rightarrow> 's ServerInterfaceWrapper \<Rightarrow> (string \<Rightarrow> string) \<Rightarrow> 's net_handler" where
  "wrap_GetEvents rt siw pathValue =
     header_param rt siw ''Last-Event-ID'' (\<lambda>lastEventID. through siw (si_GetEvents (siw_Handler siw) lastEventID))"

definition wrap_GetHealth :: "gen_runtime \<Rightarrow> 's ServerInterfaceWrapper \<Rightarrow> (string \<Rightarrow> string) \<Rightarrow> 's net_handler" where
  "wrap_GetHealth rt siw pathValue =
     through siw (si_GetHealth (siw_Handler siw))"

definition wrap_GetVersion :: "gen_runtime \<Rightarrow> 's ServerInterfaceWrapper \<Rightarrow> (string \<Rightarrow> string) \<Rightarrow> 's net_handler" where
  "wrap_GetVersion rt siw pathValue =
     through siw (si_GetVersion (siw_Handler siw))"

definition wrap_ListInstances :: "gen_runtime \<Rightarrow> 's ServerInterfaceWrapper \<Rightarrow> (string \<Rightarrow> string) \<Rightarrow> 's net_handler" where
  "wrap_ListInstances rt siw pathValue =
     path_param rt siw ''workspace'' pathValue (\<lambda>workspace.
     list_params rt siw (\<lambda>params. through siw (si_ListInstances (siw_Handler siw) workspace params)))"

definition wrap_RunInstance :: "gen_runtime \<Rightarrow> 's ServerInterfaceWrapper \<Rightarrow> (string \<Rightarrow> string) \<Rightarrow> 's net_handler" where
  "wrap_RunInstance rt siw pathValue =
     path_param rt siw ''workspace'' pathValue (\<lambda>workspace.
     header_param rt siw ''Idempotency-Key'' (\<lambda>key. through siw (si_RunInstance (siw_Handler siw) workspace key)))"

definition wrap_TerminateInstance :: "gen_runtime \<Rightarrow> 's ServerInterfaceWrapper \<Rightarrow> (string \<Rightarrow> string) \<Rightarrow> 's net_handler" where
  "wrap_TerminateInstance rt siw pathValue =
     path_param rt siw ''workspace'' pathValue (\<lambda>workspace.
     path_param rt siw ''id'' pathValue (\<lambda>i. through siw (si_TerminateInstance (siw_Handler siw) workspace i)))"

definition wrap_GetInstance :: "gen_runtime \<Rightarrow> 's ServerInterfaceWrapper \<Rightarrow> (string \<Rightarrow> string) \<Rightarrow> 's net_handler" where
  "wrap_GetInstance rt siw pathValue =
     path_param rt siw ''workspace'' pathValue (\<lambda>workspace.
     path_param rt siw ''id'' pathValue (\<lambda>i. through siw (si_GetInstance (siw_Handler siw) workspace i)))"

definition wrap_GetInstanceConsole :: "gen_runtime \<Rightarrow> 's ServerInterfaceWrapper \<Rightarrow> (string \<Rightarrow> string) \<Rightarrow> 's net_handler" where
  "wrap_GetInstanceConsole rt siw pathValue =
     path_param rt siw ''workspace'' pathValue (\<lambda>workspace.
     path_param rt siw ''id'' pathValue (\<lambda>i. through siw (si_GetInstanceConsole (siw_Handler siw) workspace i)))"

definition wrap_ListSubnets :: "gen_runtime \<Rightarrow> 's ServerInterfaceWrapper \<Rightarrow> (string \<Rightarrow> string) \<Rightarrow> 's net_handler" where
  "wrap_ListSubnets rt siw pathValue =
     path_param rt siw ''workspace'' pathValue (\<lambda>workspace.
     list_params rt siw (\<lambda>params. through siw (si_ListSubnets (siw_Handler siw) workspace params)))"

definition wrap_CreateSubnet :: "gen_runtime \<Rightarrow> 's ServerInterfaceWrapper \<Rightarrow> (string \<Rightarrow> string) \<Rightarrow> 's net_handler" where
  "wrap_CreateSubnet rt siw pathValue =
     path_param rt siw ''workspace'' pathValue (\<lambda>workspace.
     header_param rt siw ''Idempotency-Key'' (\<lambda>key. through siw (si_CreateSubnet (siw_Handler siw) workspace key)))"

definition wrap_DeleteSubnet :: "gen_runtime \<Rightarrow> 's ServerInterfaceWrapper \<Rightarrow> (string \<Rightarrow> string) \<Rightarrow> 's net_handler" where
  "wrap_DeleteSubnet rt siw pathValue =
     path_param rt siw ''workspace'' pathValue (\<lambda>workspace.
     path_param rt siw ''id'' pathValue (\<lambda>i. through siw (si_DeleteSubnet (siw_Handler siw) workspace i)))"

definition wrap_GetSubnet :: "gen_runtime \<Rightarrow> 's ServerInterfaceWrapper \<Rightarrow> (string \<Rightarrow> string) \<Rightarrow> 's net_handler" where
  "wrap_GetSubnet rt siw pathValue =
     path_param rt siw ''workspace'' pathValue (\<lambda>workspace.
     path_param rt siw ''id'' pathValue (\<lambda>i. through siw (si_GetSubnet (siw_Handler siw) workspace i)))"

definition wrap_ListVpcs :: "gen_runtime \<Rightarrow> 's ServerInterfaceWrapper \<Rightarrow> (string \<Rightarrow> string) \<Rightarrow> 's net_handler" where
  "wrap_ListVpcs rt siw pathValue =
     path_param rt siw ''workspace'' pathValue (\<lambda>workspace.
     list_params rt siw (\<lambda>params. through siw (si_ListVpcs (siw_Handler siw) workspace params)))"

definition wrap_CreateVpc :: "gen_runtime \<Rightarrow> 's ServerInterfaceWrapper \<Rightarrow> (string \<Rightarrow> string) \<Rightarrow> 's net_handler" where
  "wrap_CreateVpc rt siw pathValue =
     path_param rt siw ''workspace'' pathValue (\<lambda>workspace.
     header_param rt siw ''Idempotency-Key'' (\<lambda>key. through siw (si_CreateVpc (siw_Handler siw) workspace key)))"

definition wrap_DeleteVpc :: "gen_runtime \<Rightarrow> 's ServerInterfaceWrapper \<Rightarrow> (string \<Rightarrow> string) \<Rightarrow> 's net_handler" where
  "wrap_DeleteVpc rt siw pathValue =
     path_param rt siw ''workspace'' pathValue (\<lambda>workspace.
     path_param rt siw ''id'' pathValue (\<lambda>i. through siw (si_DeleteVpc (siw_Handler siw) workspace i)))"

definition wrap_GetVpc :: "gen_runtime \<Rightarrow> 's ServerInterfaceWrapper \<Rightarrow> (string \<Rightarrow> string) \<Rightarrow> 's net_handler" where
  "wrap_GetVpc rt siw pathValue =
     path_param rt siw ''workspace'' pathValue (\<lambda>workspace.
     path_param rt siw ''id'' pathValue (\<lambda>i. through siw (si_GetVpc (siw_Handler siw) workspace i)))"

section \<open>The routes\<close>

text \<open>The routes that \<open>HandlerWithOptions\<close> registers on a new multiplexer, without a base URL.\<close>

definition api_routes :: "gen_runtime \<Rightarrow> 's ServerInterfaceWrapper \<Rightarrow> ((string \<Rightarrow> string) \<Rightarrow> 's net_handler) route list" where
  "api_routes rt siw =
     [(''GET'', [Lit ''v1'', Lit ''health''], wrap_GetHealth rt siw),
      (''GET'', [Lit ''v1'', Lit ''version''], wrap_GetVersion rt siw),
      (''GET'', [Lit ''v1'', Lit ''workspaces'', Wild ''workspace'', Lit ''vpcs''], wrap_ListVpcs rt siw),
      (''POST'', [Lit ''v1'', Lit ''workspaces'', Wild ''workspace'', Lit ''vpcs''], wrap_CreateVpc rt siw),
      (''DELETE'', [Lit ''v1'', Lit ''workspaces'', Wild ''workspace'', Lit ''vpcs'', Wild ''id''], wrap_DeleteVpc rt siw),
      (''GET'', [Lit ''v1'', Lit ''workspaces'', Wild ''workspace'', Lit ''vpcs'', Wild ''id''], wrap_GetVpc rt siw),
      (''GET'', [Lit ''v1'', Lit ''workspaces'', Wild ''workspace'', Lit ''subnets''], wrap_ListSubnets rt siw),
      (''POST'', [Lit ''v1'', Lit ''workspaces'', Wild ''workspace'', Lit ''subnets''], wrap_CreateSubnet rt siw),
      (''DELETE'', [Lit ''v1'', Lit ''workspaces'', Wild ''workspace'', Lit ''subnets'', Wild ''id''], wrap_DeleteSubnet rt siw),
      (''GET'', [Lit ''v1'', Lit ''workspaces'', Wild ''workspace'', Lit ''subnets'', Wild ''id''], wrap_GetSubnet rt siw),
      (''GET'', [Lit ''v1'', Lit ''workspaces'', Wild ''workspace'', Lit ''instances''], wrap_ListInstances rt siw),
      (''POST'', [Lit ''v1'', Lit ''workspaces'', Wild ''workspace'', Lit ''instances''], wrap_RunInstance rt siw),
      (''DELETE'', [Lit ''v1'', Lit ''workspaces'', Wild ''workspace'', Lit ''instances'', Wild ''id''], wrap_TerminateInstance rt siw),
      (''GET'', [Lit ''v1'', Lit ''workspaces'', Wild ''workspace'', Lit ''instances'', Wild ''id''], wrap_GetInstance rt siw),
      (''GET'', [Lit ''v1'', Lit ''workspaces'', Wild ''workspace'', Lit ''instances'', Wild ''id'', Lit ''console''], wrap_GetInstanceConsole rt siw),
      (''GET'', [Lit ''v1'', Lit ''events''], wrap_GetEvents rt siw)]"

text \<open>
  \<open>text\<close> is the message of an error. Without an error handler in the options, the wrappers answer
  with the plain message.
\<close>

record 's StdHTTPServerOptions =
  so_Middlewares :: "('s net_handler \<Rightarrow> 's net_handler) list"
  so_ErrorHandlerFunc :: "(goerr \<Rightarrow> response) option"

definition HandlerWithOptions ::
  "gen_runtime \<Rightarrow> (goerr \<Rightarrow> string) \<Rightarrow> (string \<Rightarrow> response) \<Rightarrow> 's ServerInterface \<Rightarrow> 's StdHTTPServerOptions \<Rightarrow> 's net_handler" where
  "HandlerWithOptions rt message redirect si options =
     mux_ServeHTTP redirect
       (api_routes rt
          \<lparr>siw_Handler = si, siw_HandlerMiddlewares = so_Middlewares options,
           siw_ErrorHandlerFunc = (case so_ErrorHandlerFunc options of None \<Rightarrow> (\<lambda>e. text_error (message e) 400) | Some f \<Rightarrow> f)\<rparr>)"

section \<open>The server of the program\<close>

text \<open>
  \<open>apiserver.New\<close> around the handlers of the interface: the error handler, then the access checks
  in front, which pass the request on unchanged.
\<close>

definition api_handler ::
  "gen_runtime \<Rightarrow> (goerr \<Rightarrow> string) \<Rightarrow> (string \<Rightarrow> response) \<Rightarrow> string \<Rightarrow> 's ServerInterface \<Rightarrow> 's net_handler" where
  "api_handler rt message redirect token si r =
     api_New token
       (\<lambda>_. HandlerWithOptions rt message redirect si
          \<lparr>so_Middlewares = [],
           so_ErrorHandlerFunc = Some (\<lambda>e. writeAPIError 400 ''InvalidParameterValue'' (message e) [])\<rparr> r)
       (view r)"

text \<open>
  The methods of \<open>server\<close> that the interface gets. The handlers of the event stream and of the
  console, which keep the connection, are given.
\<close>

definition api_server ::
  "server \<Rightarrow> api_env \<Rightarrow> (string option \<Rightarrow> api_state net_handler) \<Rightarrow> (string \<Rightarrow> string \<Rightarrow> api_state net_handler) \<Rightarrow>
   api_state ServerInterface" where
  "api_server sv ev stream console =
     \<lparr>si_GetEvents = stream, si_GetHealth = (\<lambda>r s. (GetHealth sv, s)), si_GetVersion = (\<lambda>r s. (GetVersion sv, s)),
      si_ListInstances = (\<lambda>workspace params r. api_ListInstances sv ev workspace (lp_Limit params) (lp_PageToken params) (view r)),
      si_RunInstance = (\<lambda>workspace key r. api_RunInstance sv ev workspace key (view r)),
      si_TerminateInstance = (\<lambda>workspace i r. api_TerminateInstance sv ev workspace i (view r)),
      si_GetInstance = (\<lambda>workspace i r. api_GetInstance sv ev workspace i (view r)),
      si_GetInstanceConsole = console,
      si_ListSubnets = (\<lambda>workspace params r. api_ListSubnets sv workspace (lp_Limit params) (lp_PageToken params) (view r)),
      si_CreateSubnet = (\<lambda>workspace key r. api_CreateSubnet sv ev workspace key (view r)),
      si_DeleteSubnet = (\<lambda>workspace i r. api_DeleteSubnet sv ev workspace i (view r)),
      si_GetSubnet = (\<lambda>workspace i r. api_GetSubnet sv workspace i (view r)),
      si_ListVpcs = (\<lambda>workspace params r. api_ListVpcs sv workspace (lp_Limit params) (lp_PageToken params) (view r)),
      si_CreateVpc = (\<lambda>workspace key r. api_CreateVpc sv ev workspace key (view r)),
      si_DeleteVpc = (\<lambda>workspace i r. api_DeleteVpc sv ev workspace i (view r)),
      si_GetVpc = (\<lambda>workspace i r. api_GetVpc sv workspace i (view r))\<rparr>"

end
