(* ===== verification/GenClient.thy ===== *)
theory GenClient
  imports GenServer
begin

text \<open>
  The generated client of the API, \<open>pkg/client/client.gen.go\<close>: the bodies of requests and
  responses, one builder and one parser per operation, and the calls that put them together.
  The doer of the requests is a parameter of the client, as in the code.
\<close>

section \<open>Bodies\<close>

record client_Error =
  er_Code :: string
  er_DocsUrl :: "string option"
  er_Msg :: string
  er_ResourceId :: "string option"

definition zero_client_Error :: client_Error where
  "zero_client_Error = \<lparr>er_Code = [], er_DocsUrl = None, er_Msg = [], er_ResourceId = None\<rparr>"

definition read_str :: "json \<Rightarrow> string option" where
  "read_str j = (case j of JStr s \<Rightarrow> Some s | _ \<Rightarrow> None)"

definition client_error_fields :: "client_Error fields" where
  "client_error_fields =
     [(''code'', set_str (\<lambda>s x. x\<lparr>er_Code := s\<rparr>)), (''docs_url'', set_ptr read_str (\<lambda>s x. x\<lparr>er_DocsUrl := s\<rparr>)),
      (''message'', set_str (\<lambda>s x. x\<lparr>er_Msg := s\<rparr>)), (''resource_id'', set_ptr read_str (\<lambda>s x. x\<lparr>er_ResourceId := s\<rparr>))]"

record HealthResponse =
  hl_Status :: string

definition health_response_fields :: "HealthResponse fields" where
  "health_response_fields = [(''status'', set_str (\<lambda>s x. x\<lparr>hl_Status := s\<rparr>))]"

record VersionResponse =
  vn_ApiVersion :: string
  vn_BuildCommit :: string
  vn_BuildVersion :: string

definition version_response_fields :: "VersionResponse fields" where
  "version_response_fields =
     [(''api_version'', set_str (\<lambda>s x. x\<lparr>vn_ApiVersion := s\<rparr>)), (''build_commit'', set_str (\<lambda>s x. x\<lparr>vn_BuildCommit := s\<rparr>)),
      (''build_version'', set_str (\<lambda>s x. x\<lparr>vn_BuildVersion := s\<rparr>))]"

record client_Vpc =
  av_CidrBlock :: string
  av_Generation :: int
  av_Id :: string
  av_Name :: string
  av_ObservedGeneration :: int
  av_State :: string
  av_StateReason :: string

definition zero_client_Vpc :: client_Vpc where
  "zero_client_Vpc = \<lparr>av_CidrBlock = [], av_Generation = 0, av_Id = [], av_Name = [], av_ObservedGeneration = 0, av_State = [], av_StateReason = []\<rparr>"

definition client_Vpc_fields :: "client_Vpc fields" where
  "client_Vpc_fields =
     [(''cidr_block'', set_str (\<lambda>s x. x\<lparr>av_CidrBlock := s\<rparr>)), (''generation'', set_int (\<lambda>s x. x\<lparr>av_Generation := s\<rparr>)),
      (''id'', set_str (\<lambda>s x. x\<lparr>av_Id := s\<rparr>)), (''name'', set_str (\<lambda>s x. x\<lparr>av_Name := s\<rparr>)),
      (''observed_generation'', set_int (\<lambda>s x. x\<lparr>av_ObservedGeneration := s\<rparr>)), (''state'', set_str (\<lambda>s x. x\<lparr>av_State := s\<rparr>)),
      (''state_reason'', set_str (\<lambda>s x. x\<lparr>av_StateReason := s\<rparr>))]"

record client_Subnet =
  as_AvailabilityZone :: string
  as_CidrBlock :: string
  as_Generation :: int
  as_Id :: string
  as_Name :: string
  as_ObservedGeneration :: int
  as_State :: string
  as_StateReason :: string
  as_VpcId :: string

definition zero_client_Subnet :: client_Subnet where
  "zero_client_Subnet = \<lparr>as_AvailabilityZone = [], as_CidrBlock = [], as_Generation = 0, as_Id = [], as_Name = [], as_ObservedGeneration = 0, as_State = [], as_StateReason = [], as_VpcId = []\<rparr>"

definition client_Subnet_fields :: "client_Subnet fields" where
  "client_Subnet_fields =
     [(''availability_zone'', set_str (\<lambda>s x. x\<lparr>as_AvailabilityZone := s\<rparr>)), (''cidr_block'', set_str (\<lambda>s x. x\<lparr>as_CidrBlock := s\<rparr>)),
      (''generation'', set_int (\<lambda>s x. x\<lparr>as_Generation := s\<rparr>)), (''id'', set_str (\<lambda>s x. x\<lparr>as_Id := s\<rparr>)),
      (''name'', set_str (\<lambda>s x. x\<lparr>as_Name := s\<rparr>)), (''observed_generation'', set_int (\<lambda>s x. x\<lparr>as_ObservedGeneration := s\<rparr>)),
      (''state'', set_str (\<lambda>s x. x\<lparr>as_State := s\<rparr>)), (''state_reason'', set_str (\<lambda>s x. x\<lparr>as_StateReason := s\<rparr>)),
      (''vpc_id'', set_str (\<lambda>s x. x\<lparr>as_VpcId := s\<rparr>))]"

record client_Instance =
  ai_EniId :: string
  ai_Generation :: int
  ai_Id :: string
  ai_InstanceType :: string
  ai_Name :: string
  ai_ObservedGeneration :: int
  ai_PrivateIp :: string
  ai_State :: string
  ai_StateReason :: string
  ai_SubnetId :: string

definition zero_client_Instance :: client_Instance where
  "zero_client_Instance = \<lparr>ai_EniId = [], ai_Generation = 0, ai_Id = [], ai_InstanceType = [], ai_Name = [], ai_ObservedGeneration = 0, ai_PrivateIp = [], ai_State = [], ai_StateReason = [], ai_SubnetId = []\<rparr>"

definition client_Instance_fields :: "client_Instance fields" where
  "client_Instance_fields =
     [(''eni_id'', set_str (\<lambda>s x. x\<lparr>ai_EniId := s\<rparr>)), (''generation'', set_int (\<lambda>s x. x\<lparr>ai_Generation := s\<rparr>)),
      (''id'', set_str (\<lambda>s x. x\<lparr>ai_Id := s\<rparr>)), (''instance_type'', set_str (\<lambda>s x. x\<lparr>ai_InstanceType := s\<rparr>)),
      (''name'', set_str (\<lambda>s x. x\<lparr>ai_Name := s\<rparr>)), (''observed_generation'', set_int (\<lambda>s x. x\<lparr>ai_ObservedGeneration := s\<rparr>)),
      (''private_ip'', set_str (\<lambda>s x. x\<lparr>ai_PrivateIp := s\<rparr>)), (''state'', set_str (\<lambda>s x. x\<lparr>ai_State := s\<rparr>)),
      (''state_reason'', set_str (\<lambda>s x. x\<lparr>ai_StateReason := s\<rparr>)), (''subnet_id'', set_str (\<lambda>s x. x\<lparr>ai_SubnetId := s\<rparr>))]"

text \<open>The pages \<open>VpcsPage\<close>, \<open>SubnetsPage\<close> and \<open>InstancesPage\<close>.\<close>

record 'b client_Page =
  pg_Items :: "'b list \<times> 'b list"
  pg_NextPageToken :: "string option"

definition page_fields :: "'b \<Rightarrow> 'b fields \<Rightarrow> 'b client_Page fields" where
  "page_fields zero fs =
     [(''items'', \<lambda>j x. map_option (\<lambda>items. x\<lparr>pg_Items := items\<rparr>) (set_slice zero (set_struct fs) j (pg_Items x))),
      (''next_page_token'', set_ptr read_str (\<lambda>s x. x\<lparr>pg_NextPageToken := s\<rparr>))]"

definition create_vpc_json :: "create_vpc_body \<Rightarrow> json" where
  "create_vpc_json b = JObj [(''cidr_block'', JStr (cv_CidrBlock b)), (''name'', JStr (cv_Name b))]"

definition create_subnet_json :: "create_subnet_body \<Rightarrow> json" where
  "create_subnet_json b = JObj
     [(''availability_zone'', JStr (cs_AvailabilityZone b)), (''cidr_block'', JStr (cs_CidrBlock b)), (''name'', JStr (cs_Name b)),
      (''vpc_id'', JStr (cs_VpcId b))]"

definition run_instance_json :: "run_instance_body \<Rightarrow> json" where
  "run_instance_json b = JObj [(''name'', JStr (ri_Name b)), (''subnet_id'', JStr (ri_SubnetId b))]"

section \<open>The client\<close>

text \<open>What the doer returns: the response and whether its body can be read to the end.\<close>

type_synonym 's doer = "net_request \<Rightarrow> ('s, response \<times> bool) eff"

type_synonym editor = "net_request \<Rightarrow> net_request res"

record 's Client =
  cl_Server :: string
  cl_Client :: "'s doer option"
  cl_RequestEditors :: "editor list"

type_synonym 's client_option = "'s Client \<Rightarrow> 's Client res"

definition WithHTTPClient :: "'s doer \<Rightarrow> 's client_option" where
  "WithHTTPClient doer c = Inr (c\<lparr>cl_Client := Some doer\<rparr>)"

definition WithRequestEditorFn :: "editor \<Rightarrow> 's client_option" where
  "WithRequestEditorFn f c = Inr (c\<lparr>cl_RequestEditors := cl_RequestEditors c @ [f]\<rparr>)"

fun apply_options :: "'s client_option list \<Rightarrow> 's client_option" where
  "apply_options [] c = Inr c"
| "apply_options (opt # opts) c = res_bind (opt c) (apply_options opts)"

text \<open>\<open>http.Client\<close> with its zero value is the argument \<open>fallback\<close>.\<close>

definition NewClient :: "'s doer \<Rightarrow> string \<Rightarrow> 's client_option list \<Rightarrow> 's Client res" where
  "NewClient fallback server opts =
     res_bind (apply_options opts \<lparr>cl_Server = server, cl_Client = None, cl_RequestEditors = []\<rparr>) (\<lambda>c.
     let c = (if \<not> HasSuffix (cl_Server c) ''/'' then c\<lparr>cl_Server := cl_Server c @ ''/''\<rparr> else c) in
     Inr (case cl_Client c of None \<Rightarrow> c\<lparr>cl_Client := Some fallback\<rparr> | Some _ \<Rightarrow> c))"

fun run_editors :: "editor list \<Rightarrow> editor" where
  "run_editors [] r = Inr r"
| "run_editors (f # fs) r = res_bind (f r) (run_editors fs)"

definition applyEditors :: "'s Client \<Rightarrow> editor list \<Rightarrow> editor" where
  "applyEditors c additionalEditors r = res_bind (run_editors (cl_RequestEditors c) r) (run_editors additionalEditors)"

text \<open>What every method of the client does with the request that its builder makes.\<close>

definition client_call :: "'s Client \<Rightarrow> editor list \<Rightarrow> net_request res \<Rightarrow> ('s, response \<times> bool) eff" where
  "client_call c reqEditors m =
     (case res_bind m (applyEditors c reqEditors) of
        Inl e \<Rightarrow> eff_res (Inl e)
      | Inr req \<Rightarrow> (case cl_Client c of None \<Rightarrow> eff_res (Inl (Errorf ''nil pointer dereference'')) | Some doer \<Rightarrow> doer req))"

section \<open>Requests\<close>

text \<open>The URL of an operation: its path, relative, resolved against the server's URL.\<close>

definition operation_url :: "string \<Rightarrow> string \<Rightarrow> URL res" where
  "operation_url server operationPath =
     (case url_Parse server of
        None \<Rightarrow> Inl (Errorf (''parse '' @ Quote server))
      | Some serverURL \<Rightarrow>
          (let ref = (if hd operationPath = CHR ''/'' then CHR ''.'' # operationPath else operationPath) in
           case Option.bind (url_Parse ref) (ResolveReference serverURL) of
             None \<Rightarrow> Inl (Errorf (''parse '' @ Quote ref))
           | Some u \<Rightarrow> Inr u))"

definition query_fragments :: "string res option \<Rightarrow> string list res" where
  "query_fragments styled =
     (case styled of None \<Rightarrow> Inr [] | Some m \<Rightarrow> res_bind m (\<lambda>queryFrag. Inr (split_at (CHR ''&'') queryFrag)))"

definition list_query :: "gen_runtime \<Rightarrow> ListParams option \<Rightarrow> URL \<Rightarrow> URL res" where
  "list_query rt params queryURL =
     (case params of
        None \<Rightarrow> Inr queryURL
      | Some p \<Rightarrow>
          res_bind (query_fragments (map_option (rt_StyleQueryInt rt ''limit'') (lp_Limit p))) (\<lambda>limit.
          res_bind (query_fragments (map_option (rt_StyleQuery rt ''page_token'') (lp_PageToken p))) (\<lambda>token.
          let encoded = Values_Encode (ParseQuery (u_RawQuery queryURL)) in
          Inr (queryURL\<lparr>u_RawQuery := joined (CHR ''&'') (limit @ token @ (if encoded \<noteq> [] then [encoded] else []))\<rparr>))))"

definition optional_header :: "gen_runtime \<Rightarrow> string \<Rightarrow> string option option \<Rightarrow> net_request \<Rightarrow> net_request res" where
  "optional_header rt name params req =
     (case params of
        Some (Some v) \<Rightarrow> res_bind (rt_StyleHeader rt name v) (\<lambda>h. Inr (Header_Set name h req))
      | _ \<Rightarrow> Inr req)"

definition NewGetEventsRequest :: "gen_runtime \<Rightarrow> string \<Rightarrow> string option option \<Rightarrow> net_request res" where
  "NewGetEventsRequest rt server params =
     res_bind (operation_url server ''/v1/events'') (\<lambda>queryURL.
     res_bind (NewRequest ''GET'' (URL_String queryURL) []) (optional_header rt ''Last-Event-ID'' params))"

definition NewGetHealthRequest :: "string \<Rightarrow> net_request res" where
  "NewGetHealthRequest server =
     res_bind (operation_url server ''/v1/health'') (\<lambda>queryURL. NewRequest ''GET'' (URL_String queryURL) [])"

definition NewGetVersionRequest :: "string \<Rightarrow> net_request res" where
  "NewGetVersionRequest server =
     res_bind (operation_url server ''/v1/version'') (\<lambda>queryURL. NewRequest ''GET'' (URL_String queryURL) [])"

definition NewListInstancesRequest :: "gen_runtime \<Rightarrow> string \<Rightarrow> string \<Rightarrow> ListParams option \<Rightarrow> net_request res" where
  "NewListInstancesRequest rt server workspace params =
     res_bind (rt_StylePath rt ''workspace'' workspace) (\<lambda>pathParam0.
     res_bind (operation_url server (''/v1/workspaces/'' @ pathParam0 @ ''/instances'')) (\<lambda>queryURL.
     res_bind (list_query rt params queryURL) (\<lambda>queryURL.
     NewRequest ''GET'' (URL_String queryURL) [])))"

definition NewRunInstanceRequestWithBody ::
  "gen_runtime \<Rightarrow> string \<Rightarrow> string \<Rightarrow> string option option \<Rightarrow> string \<Rightarrow> string \<Rightarrow> net_request res" where
  "NewRunInstanceRequestWithBody rt server workspace params contentType body =
     res_bind (rt_StylePath rt ''workspace'' workspace) (\<lambda>pathParam0.
     res_bind (operation_url server (''/v1/workspaces/'' @ pathParam0 @ ''/instances'')) (\<lambda>queryURL.
     res_bind (NewRequest ''POST'' (URL_String queryURL) body) (\<lambda>req.
     optional_header rt ''Idempotency-Key'' params (Header_Add ''Content-Type'' contentType req))))"

definition NewRunInstanceRequest ::
  "gen_runtime \<Rightarrow> string \<Rightarrow> string \<Rightarrow> string option option \<Rightarrow> run_instance_body \<Rightarrow> net_request res" where
  "NewRunInstanceRequest rt server workspace params body =
     NewRunInstanceRequestWithBody rt server workspace params ''application/json'' (marshal (run_instance_json body))"

definition NewTerminateInstanceRequest :: "gen_runtime \<Rightarrow> string \<Rightarrow> string \<Rightarrow> string \<Rightarrow> net_request res" where
  "NewTerminateInstanceRequest rt server workspace i =
     res_bind (rt_StylePath rt ''workspace'' workspace) (\<lambda>pathParam0.
     res_bind (rt_StylePath rt ''id'' i) (\<lambda>pathParam1.
     res_bind (operation_url server (''/v1/workspaces/'' @ pathParam0 @ ''/instances/'' @ pathParam1)) (\<lambda>queryURL.
     NewRequest ''DELETE'' (URL_String queryURL) [])))"

definition NewGetInstanceRequest :: "gen_runtime \<Rightarrow> string \<Rightarrow> string \<Rightarrow> string \<Rightarrow> net_request res" where
  "NewGetInstanceRequest rt server workspace i =
     res_bind (rt_StylePath rt ''workspace'' workspace) (\<lambda>pathParam0.
     res_bind (rt_StylePath rt ''id'' i) (\<lambda>pathParam1.
     res_bind (operation_url server (''/v1/workspaces/'' @ pathParam0 @ ''/instances/'' @ pathParam1)) (\<lambda>queryURL.
     NewRequest ''GET'' (URL_String queryURL) [])))"

definition NewGetInstanceConsoleRequest :: "gen_runtime \<Rightarrow> string \<Rightarrow> string \<Rightarrow> string \<Rightarrow> net_request res" where
  "NewGetInstanceConsoleRequest rt server workspace i =
     res_bind (rt_StylePath rt ''workspace'' workspace) (\<lambda>pathParam0.
     res_bind (rt_StylePath rt ''id'' i) (\<lambda>pathParam1.
     res_bind (operation_url server (''/v1/workspaces/'' @ pathParam0 @ ''/instances/'' @ pathParam1 @ ''/console'')) (\<lambda>queryURL.
     NewRequest ''GET'' (URL_String queryURL) [])))"

definition NewListSubnetsRequest :: "gen_runtime \<Rightarrow> string \<Rightarrow> string \<Rightarrow> ListParams option \<Rightarrow> net_request res" where
  "NewListSubnetsRequest rt server workspace params =
     res_bind (rt_StylePath rt ''workspace'' workspace) (\<lambda>pathParam0.
     res_bind (operation_url server (''/v1/workspaces/'' @ pathParam0 @ ''/subnets'')) (\<lambda>queryURL.
     res_bind (list_query rt params queryURL) (\<lambda>queryURL.
     NewRequest ''GET'' (URL_String queryURL) [])))"

definition NewCreateSubnetRequestWithBody ::
  "gen_runtime \<Rightarrow> string \<Rightarrow> string \<Rightarrow> string option option \<Rightarrow> string \<Rightarrow> string \<Rightarrow> net_request res" where
  "NewCreateSubnetRequestWithBody rt server workspace params contentType body =
     res_bind (rt_StylePath rt ''workspace'' workspace) (\<lambda>pathParam0.
     res_bind (operation_url server (''/v1/workspaces/'' @ pathParam0 @ ''/subnets'')) (\<lambda>queryURL.
     res_bind (NewRequest ''POST'' (URL_String queryURL) body) (\<lambda>req.
     optional_header rt ''Idempotency-Key'' params (Header_Add ''Content-Type'' contentType req))))"

definition NewCreateSubnetRequest ::
  "gen_runtime \<Rightarrow> string \<Rightarrow> string \<Rightarrow> string option option \<Rightarrow> create_subnet_body \<Rightarrow> net_request res" where
  "NewCreateSubnetRequest rt server workspace params body =
     NewCreateSubnetRequestWithBody rt server workspace params ''application/json'' (marshal (create_subnet_json body))"

definition NewDeleteSubnetRequest :: "gen_runtime \<Rightarrow> string \<Rightarrow> string \<Rightarrow> string \<Rightarrow> net_request res" where
  "NewDeleteSubnetRequest rt server workspace i =
     res_bind (rt_StylePath rt ''workspace'' workspace) (\<lambda>pathParam0.
     res_bind (rt_StylePath rt ''id'' i) (\<lambda>pathParam1.
     res_bind (operation_url server (''/v1/workspaces/'' @ pathParam0 @ ''/subnets/'' @ pathParam1)) (\<lambda>queryURL.
     NewRequest ''DELETE'' (URL_String queryURL) [])))"

definition NewGetSubnetRequest :: "gen_runtime \<Rightarrow> string \<Rightarrow> string \<Rightarrow> string \<Rightarrow> net_request res" where
  "NewGetSubnetRequest rt server workspace i =
     res_bind (rt_StylePath rt ''workspace'' workspace) (\<lambda>pathParam0.
     res_bind (rt_StylePath rt ''id'' i) (\<lambda>pathParam1.
     res_bind (operation_url server (''/v1/workspaces/'' @ pathParam0 @ ''/subnets/'' @ pathParam1)) (\<lambda>queryURL.
     NewRequest ''GET'' (URL_String queryURL) [])))"

definition NewListVpcsRequest :: "gen_runtime \<Rightarrow> string \<Rightarrow> string \<Rightarrow> ListParams option \<Rightarrow> net_request res" where
  "NewListVpcsRequest rt server workspace params =
     res_bind (rt_StylePath rt ''workspace'' workspace) (\<lambda>pathParam0.
     res_bind (operation_url server (''/v1/workspaces/'' @ pathParam0 @ ''/vpcs'')) (\<lambda>queryURL.
     res_bind (list_query rt params queryURL) (\<lambda>queryURL.
     NewRequest ''GET'' (URL_String queryURL) [])))"

definition NewCreateVpcRequestWithBody ::
  "gen_runtime \<Rightarrow> string \<Rightarrow> string \<Rightarrow> string option option \<Rightarrow> string \<Rightarrow> string \<Rightarrow> net_request res" where
  "NewCreateVpcRequestWithBody rt server workspace params contentType body =
     res_bind (rt_StylePath rt ''workspace'' workspace) (\<lambda>pathParam0.
     res_bind (operation_url server (''/v1/workspaces/'' @ pathParam0 @ ''/vpcs'')) (\<lambda>queryURL.
     res_bind (NewRequest ''POST'' (URL_String queryURL) body) (\<lambda>req.
     optional_header rt ''Idempotency-Key'' params (Header_Add ''Content-Type'' contentType req))))"

definition NewCreateVpcRequest ::
  "gen_runtime \<Rightarrow> string \<Rightarrow> string \<Rightarrow> string option option \<Rightarrow> create_vpc_body \<Rightarrow> net_request res" where
  "NewCreateVpcRequest rt server workspace params body =
     NewCreateVpcRequestWithBody rt server workspace params ''application/json'' (marshal (create_vpc_json body))"

definition NewDeleteVpcRequest :: "gen_runtime \<Rightarrow> string \<Rightarrow> string \<Rightarrow> string \<Rightarrow> net_request res" where
  "NewDeleteVpcRequest rt server workspace i =
     res_bind (rt_StylePath rt ''workspace'' workspace) (\<lambda>pathParam0.
     res_bind (rt_StylePath rt ''id'' i) (\<lambda>pathParam1.
     res_bind (operation_url server (''/v1/workspaces/'' @ pathParam0 @ ''/vpcs/'' @ pathParam1)) (\<lambda>queryURL.
     NewRequest ''DELETE'' (URL_String queryURL) [])))"

definition NewGetVpcRequest :: "gen_runtime \<Rightarrow> string \<Rightarrow> string \<Rightarrow> string \<Rightarrow> net_request res" where
  "NewGetVpcRequest rt server workspace i =
     res_bind (rt_StylePath rt ''workspace'' workspace) (\<lambda>pathParam0.
     res_bind (rt_StylePath rt ''id'' i) (\<lambda>pathParam1.
     res_bind (operation_url server (''/v1/workspaces/'' @ pathParam0 @ ''/vpcs/'' @ pathParam1)) (\<lambda>queryURL.
     NewRequest ''GET'' (URL_String queryURL) [])))"

section \<open>Responses\<close>

text \<open>
  The structs of the responses: the body, what the HTTP response says, and the decoded body of
  the status that came, the one of success first. \<open>ar_JSON503\<close> is that of the health response.
\<close>

record 'a api_response =
  ar_Body :: string
  ar_StatusCode :: int
  ar_ContentType :: string
  ar_JSON2xx :: "'a option"
  ar_JSON400 :: "client_Error option"
  ar_JSON401 :: "client_Error option"
  ar_JSON404 :: "client_Error option"
  ar_JSON409 :: "client_Error option"
  ar_JSON503 :: "'a option"

type_synonym 'a parse_case = "int \<times> (json \<Rightarrow> 'a api_response \<Rightarrow> 'a api_response option)"

definition into_ok :: "int \<Rightarrow> 'a fields \<Rightarrow> 'a \<Rightarrow> 'a parse_case" where
  "into_ok code fs zero = (code, \<lambda>j r. map_option (\<lambda>x. r\<lparr>ar_JSON2xx := Some x\<rparr>) (set_struct fs j zero))"

definition into_error :: "int \<Rightarrow> (client_Error option \<Rightarrow> 'a api_response \<Rightarrow> 'a api_response) \<Rightarrow> 'a parse_case" where
  "into_error code f = (code, \<lambda>j r. map_option (\<lambda>x. f (Some x) r) (set_struct client_error_fields j zero_client_Error))"

definition error_cases :: "'a parse_case list" where
  "error_cases =
     [into_error 400 (\<lambda>e r. r\<lparr>ar_JSON400 := e\<rparr>), into_error 401 (\<lambda>e r. r\<lparr>ar_JSON401 := e\<rparr>),
      into_error 404 (\<lambda>e r. r\<lparr>ar_JSON404 := e\<rparr>), into_error 409 (\<lambda>e r. r\<lparr>ar_JSON409 := e\<rparr>)]"

text \<open>The body is read, and decoded by the case of the status if the content is JSON.\<close>

definition parse_response :: "'a parse_case list \<Rightarrow> response \<times> bool \<Rightarrow> 'a api_response res" where
  "parse_response cases rsp =
     (let (rp, complete) = rsp;
          response = \<lparr>ar_Body = rp_Body rp, ar_StatusCode = rp_Status rp, ar_ContentType = rp_ContentType rp, ar_JSON2xx = None,
            ar_JSON400 = None, ar_JSON401 = None, ar_JSON404 = None, ar_JSON409 = None, ar_JSON503 = None\<rparr> in
      if \<not> complete then Inl (Errorf ''unexpected EOF'')
      else
        (case (has_substring (rp_ContentType rp) ''json'', map_of cases (rp_Status rp)) of
           (True, Some dest) \<Rightarrow>
             (case Option.bind (unmarshal (rp_Body rp)) (\<lambda>j. dest j response) of
                None \<Rightarrow> Inl (Errorf ''cannot decode the response'')
              | Some r \<Rightarrow> Inr r)
         | _ \<Rightarrow> Inr response))"

definition ParseGetEventsResponse :: "response \<times> bool \<Rightarrow> unit api_response res" where
  "ParseGetEventsResponse = parse_response error_cases"

definition ParseGetHealthResponse :: "response \<times> bool \<Rightarrow> HealthResponse api_response res" where
  "ParseGetHealthResponse = parse_response
     [into_ok 200 health_response_fields \<lparr>hl_Status = []\<rparr>,
      (503, \<lambda>j r. map_option (\<lambda>x. r\<lparr>ar_JSON503 := Some x\<rparr>) (set_struct health_response_fields j \<lparr>hl_Status = []\<rparr>))]"

definition ParseGetVersionResponse :: "response \<times> bool \<Rightarrow> VersionResponse api_response res" where
  "ParseGetVersionResponse = parse_response
     [into_ok 200 version_response_fields \<lparr>vn_ApiVersion = [], vn_BuildCommit = [], vn_BuildVersion = []\<rparr>,
      into_error 401 (\<lambda>e r. r\<lparr>ar_JSON401 := e\<rparr>)]"

definition zero_Page :: "'b client_Page" where
  "zero_Page = \<lparr>pg_Items = ([], []), pg_NextPageToken = None\<rparr>"

definition ParseListInstancesResponse :: "response \<times> bool \<Rightarrow> client_Instance client_Page api_response res" where
  "ParseListInstancesResponse = parse_response (into_ok 200 (page_fields zero_client_Instance client_Instance_fields) zero_Page # error_cases)"

definition ParseRunInstanceResponse :: "response \<times> bool \<Rightarrow> client_Instance api_response res" where
  "ParseRunInstanceResponse = parse_response (into_ok 201 client_Instance_fields zero_client_Instance # error_cases)"

definition ParseTerminateInstanceResponse :: "response \<times> bool \<Rightarrow> client_Instance api_response res" where
  "ParseTerminateInstanceResponse = parse_response (into_ok 202 client_Instance_fields zero_client_Instance # error_cases)"

definition ParseGetInstanceResponse :: "response \<times> bool \<Rightarrow> client_Instance api_response res" where
  "ParseGetInstanceResponse = parse_response (into_ok 200 client_Instance_fields zero_client_Instance # error_cases)"

definition ParseGetInstanceConsoleResponse :: "response \<times> bool \<Rightarrow> unit api_response res" where
  "ParseGetInstanceConsoleResponse = parse_response error_cases"

definition ParseListSubnetsResponse :: "response \<times> bool \<Rightarrow> client_Subnet client_Page api_response res" where
  "ParseListSubnetsResponse = parse_response (into_ok 200 (page_fields zero_client_Subnet client_Subnet_fields) zero_Page # error_cases)"

definition ParseCreateSubnetResponse :: "response \<times> bool \<Rightarrow> client_Subnet api_response res" where
  "ParseCreateSubnetResponse = parse_response (into_ok 201 client_Subnet_fields zero_client_Subnet # error_cases)"

definition ParseDeleteSubnetResponse :: "response \<times> bool \<Rightarrow> client_Subnet api_response res" where
  "ParseDeleteSubnetResponse = parse_response (into_ok 202 client_Subnet_fields zero_client_Subnet # error_cases)"

definition ParseGetSubnetResponse :: "response \<times> bool \<Rightarrow> client_Subnet api_response res" where
  "ParseGetSubnetResponse = parse_response (into_ok 200 client_Subnet_fields zero_client_Subnet # error_cases)"

definition ParseListVpcsResponse :: "response \<times> bool \<Rightarrow> client_Vpc client_Page api_response res" where
  "ParseListVpcsResponse = parse_response (into_ok 200 (page_fields zero_client_Vpc client_Vpc_fields) zero_Page # error_cases)"

definition ParseCreateVpcResponse :: "response \<times> bool \<Rightarrow> client_Vpc api_response res" where
  "ParseCreateVpcResponse = parse_response (into_ok 201 client_Vpc_fields zero_client_Vpc # error_cases)"

definition ParseDeleteVpcResponse :: "response \<times> bool \<Rightarrow> client_Vpc api_response res" where
  "ParseDeleteVpcResponse = parse_response (into_ok 202 client_Vpc_fields zero_client_Vpc # error_cases)"

definition ParseGetVpcResponse :: "response \<times> bool \<Rightarrow> client_Vpc api_response res" where
  "ParseGetVpcResponse = parse_response (into_ok 200 client_Vpc_fields zero_client_Vpc # error_cases)"

section \<open>Calls\<close>

definition answered :: "('s, response \<times> bool) eff \<Rightarrow> (response \<times> bool \<Rightarrow> 'a res) \<Rightarrow> ('s, 'a) eff" where
  "answered call parse = eff_bind call (\<lambda>rsp. eff_res (parse rsp))"

definition GetEventsWithResponse ::
  "gen_runtime \<Rightarrow> 's Client \<Rightarrow> string option option \<Rightarrow> editor list \<Rightarrow> ('s, unit api_response) eff" where
  "GetEventsWithResponse rt c params reqEditors =
     answered (client_call c reqEditors (NewGetEventsRequest rt (cl_Server c) params)) ParseGetEventsResponse"

definition GetHealthWithResponse :: "'s Client \<Rightarrow> editor list \<Rightarrow> ('s, HealthResponse api_response) eff" where
  "GetHealthWithResponse c reqEditors =
     answered (client_call c reqEditors (NewGetHealthRequest (cl_Server c))) ParseGetHealthResponse"

definition GetVersionWithResponse :: "'s Client \<Rightarrow> editor list \<Rightarrow> ('s, VersionResponse api_response) eff" where
  "GetVersionWithResponse c reqEditors =
     answered (client_call c reqEditors (NewGetVersionRequest (cl_Server c))) ParseGetVersionResponse"

definition ListInstancesWithResponse ::
  "gen_runtime \<Rightarrow> 's Client \<Rightarrow> string \<Rightarrow> ListParams option \<Rightarrow> editor list \<Rightarrow> ('s, client_Instance client_Page api_response) eff" where
  "ListInstancesWithResponse rt c workspace params reqEditors =
     answered (client_call c reqEditors (NewListInstancesRequest rt (cl_Server c) workspace params)) ParseListInstancesResponse"

definition RunInstanceWithResponse ::
  "gen_runtime \<Rightarrow> 's Client \<Rightarrow> string \<Rightarrow> string option option \<Rightarrow> run_instance_body \<Rightarrow> editor list \<Rightarrow> ('s, client_Instance api_response) eff" where
  "RunInstanceWithResponse rt c workspace params body reqEditors =
     answered (client_call c reqEditors (NewRunInstanceRequest rt (cl_Server c) workspace params body)) ParseRunInstanceResponse"

definition TerminateInstanceWithResponse ::
  "gen_runtime \<Rightarrow> 's Client \<Rightarrow> string \<Rightarrow> string \<Rightarrow> editor list \<Rightarrow> ('s, client_Instance api_response) eff" where
  "TerminateInstanceWithResponse rt c workspace i reqEditors =
     answered (client_call c reqEditors (NewTerminateInstanceRequest rt (cl_Server c) workspace i)) ParseTerminateInstanceResponse"

definition GetInstanceWithResponse ::
  "gen_runtime \<Rightarrow> 's Client \<Rightarrow> string \<Rightarrow> string \<Rightarrow> editor list \<Rightarrow> ('s, client_Instance api_response) eff" where
  "GetInstanceWithResponse rt c workspace i reqEditors =
     answered (client_call c reqEditors (NewGetInstanceRequest rt (cl_Server c) workspace i)) ParseGetInstanceResponse"

definition GetInstanceConsoleWithResponse ::
  "gen_runtime \<Rightarrow> 's Client \<Rightarrow> string \<Rightarrow> string \<Rightarrow> editor list \<Rightarrow> ('s, unit api_response) eff" where
  "GetInstanceConsoleWithResponse rt c workspace i reqEditors =
     answered (client_call c reqEditors (NewGetInstanceConsoleRequest rt (cl_Server c) workspace i)) ParseGetInstanceConsoleResponse"

definition ListSubnetsWithResponse ::
  "gen_runtime \<Rightarrow> 's Client \<Rightarrow> string \<Rightarrow> ListParams option \<Rightarrow> editor list \<Rightarrow> ('s, client_Subnet client_Page api_response) eff" where
  "ListSubnetsWithResponse rt c workspace params reqEditors =
     answered (client_call c reqEditors (NewListSubnetsRequest rt (cl_Server c) workspace params)) ParseListSubnetsResponse"

definition CreateSubnetWithResponse ::
  "gen_runtime \<Rightarrow> 's Client \<Rightarrow> string \<Rightarrow> string option option \<Rightarrow> create_subnet_body \<Rightarrow> editor list \<Rightarrow> ('s, client_Subnet api_response) eff" where
  "CreateSubnetWithResponse rt c workspace params body reqEditors =
     answered (client_call c reqEditors (NewCreateSubnetRequest rt (cl_Server c) workspace params body)) ParseCreateSubnetResponse"

definition DeleteSubnetWithResponse ::
  "gen_runtime \<Rightarrow> 's Client \<Rightarrow> string \<Rightarrow> string \<Rightarrow> editor list \<Rightarrow> ('s, client_Subnet api_response) eff" where
  "DeleteSubnetWithResponse rt c workspace i reqEditors =
     answered (client_call c reqEditors (NewDeleteSubnetRequest rt (cl_Server c) workspace i)) ParseDeleteSubnetResponse"

definition GetSubnetWithResponse ::
  "gen_runtime \<Rightarrow> 's Client \<Rightarrow> string \<Rightarrow> string \<Rightarrow> editor list \<Rightarrow> ('s, client_Subnet api_response) eff" where
  "GetSubnetWithResponse rt c workspace i reqEditors =
     answered (client_call c reqEditors (NewGetSubnetRequest rt (cl_Server c) workspace i)) ParseGetSubnetResponse"

definition ListVpcsWithResponse ::
  "gen_runtime \<Rightarrow> 's Client \<Rightarrow> string \<Rightarrow> ListParams option \<Rightarrow> editor list \<Rightarrow> ('s, client_Vpc client_Page api_response) eff" where
  "ListVpcsWithResponse rt c workspace params reqEditors =
     answered (client_call c reqEditors (NewListVpcsRequest rt (cl_Server c) workspace params)) ParseListVpcsResponse"

definition CreateVpcWithResponse ::
  "gen_runtime \<Rightarrow> 's Client \<Rightarrow> string \<Rightarrow> string option option \<Rightarrow> create_vpc_body \<Rightarrow> editor list \<Rightarrow> ('s, client_Vpc api_response) eff" where
  "CreateVpcWithResponse rt c workspace params body reqEditors =
     answered (client_call c reqEditors (NewCreateVpcRequest rt (cl_Server c) workspace params body)) ParseCreateVpcResponse"

definition DeleteVpcWithResponse ::
  "gen_runtime \<Rightarrow> 's Client \<Rightarrow> string \<Rightarrow> string \<Rightarrow> editor list \<Rightarrow> ('s, client_Vpc api_response) eff" where
  "DeleteVpcWithResponse rt c workspace i reqEditors =
     answered (client_call c reqEditors (NewDeleteVpcRequest rt (cl_Server c) workspace i)) ParseDeleteVpcResponse"

definition GetVpcWithResponse ::
  "gen_runtime \<Rightarrow> 's Client \<Rightarrow> string \<Rightarrow> string \<Rightarrow> editor list \<Rightarrow> ('s, client_Vpc api_response) eff" where
  "GetVpcWithResponse rt c workspace i reqEditors =
     answered (client_call c reqEditors (NewGetVpcRequest rt (cl_Server c) workspace i)) ParseGetVpcResponse"

end
