(* ===== verification/LinkFacts.thy ===== *)
theory LinkFacts
  imports GenClient
begin

text \<open>
  The generated client and the generated server fit together: what a call of the client puts
  into a request, the wrapper of the same operation reads from it, behind the access checks.
\<close>

section \<open>What the two sides rely on of the runtime\<close>

text \<open>
  Values of paths are escaped on the way and arrive unescaped, values of headers are passed as
  they are, and a parameter of the query is written as a pair and read from its only value.
\<close>

definition values_of :: "string \<Rightarrow> values_ \<Rightarrow> string list" where
  "values_of n vs = map snd (filter (\<lambda>kv. fst kv = n) vs)"

definition codec :: "gen_runtime \<Rightarrow> bool" where
  "codec rt \<longleftrightarrow>
     (\<forall>n v. rt_StylePath rt n v = Inr (PathEscape v)) \<and> (\<forall>n v. v \<noteq> [] \<longrightarrow> rt_BindPath rt n v = Inr v) \<and>
     (\<forall>n v. rt_StyleHeader rt n v = Inr v) \<and> (\<forall>n v. v \<noteq> [] \<longrightarrow> rt_BindHeader rt n v = Inr v) \<and>
     (\<forall>n v. rt_StyleQuery rt n v = Inr (n @ ''='' @ QueryEscape v)) \<and>
     (\<forall>n i. rt_StyleQueryInt rt n i = Inr (n @ ''='' @ FormatInt i)) \<and>
     (\<forall>n vs. values_of n vs = [] \<longrightarrow> rt_BindQuery rt n vs = Inr None \<and> rt_BindQueryInt rt n vs = Inr None) \<and>
     (\<forall>n vs v. values_of n vs = [v] \<longrightarrow> rt_BindQuery rt n vs = Inr (Some v)) \<and>
     (\<forall>n vs v i. values_of n vs = [v] \<and> ParseInt v = Some i \<longrightarrow> rt_BindQueryInt rt n vs = Inr (Some i))"

section \<open>Requests\<close>

definition sent :: "string \<Rightarrow> string \<Rightarrow> string list \<Rightarrow> string \<Rightarrow> (string \<times> string) list \<Rightarrow> string \<Rightarrow> net_request" where
  "sent verb host xs q header raw =
     \<lparr>nr_Method = verb, nr_URL = path_url ''http'' host xs q, nr_Host = host, nr_Header = header, nr_Body = (raw, True)\<rparr>"

definition received :: "string \<Rightarrow> string \<Rightarrow> string list \<Rightarrow> string \<Rightarrow> (string \<times> string) list \<Rightarrow> string \<Rightarrow> net_request" where
  "received verb host xs q header raw =
     \<lparr>nr_Method = verb, nr_URL = path_url [] [] xs q, nr_Host = host, nr_Header = header, nr_Body = (raw, True)\<rparr>"

abbreviation server_of :: "string \<Rightarrow> string" where
  "server_of host \<equiv> ''http://'' @ host @ ''/''"

lemma operation_slashed:
  assumes "plain_host host" and "solid xs" and "p = slashed (map PathEscape xs)"
  shows "operation_url (server_of host) p = Inr (path_url ''http'' host xs [])"
proof -
  obtain y ys where "xs = y # ys" using assms(2) by (cases xs) (auto simp: solid_def)
  then have "hd p = CHR ''/''" "xs \<noteq> []" using assms(3) by auto
  then show ?thesis
    using resolve_operation [OF assms(1,2)] parse_relative [of xs] assms(3) by (simp add: operation_url_def)
qed

lemma NewRequest_sent:
  assumes "plain_host host" and "xs \<noteq> []" and "list_all query_char q" and "verb \<in> {''GET'', ''POST'', ''DELETE''}"
  shows "NewRequest verb (URL_String (path_url ''http'' host xs q)) raw = Inr (sent verb host xs q [] raw)"
proof -
  have "verb \<noteq> [] \<and> list_all isTokenChar verb" using assms(4) by (auto simp: isTokenChar_def isTSpecial_def)
  moreover have "removeEmptyPort host = host" using assms(1) by (simp add: removeEmptyPort_def plain_host_def)
  moreover have "u_Host (path_url ''http'' host xs q) = host" "(path_url ''http'' host xs q)\<lparr>u_Host := host\<rparr> = path_url ''http'' host xs q"
    by (simp_all add: path_url_def)
  ultimately show ?thesis using parse_http [OF assms(1-3)] by (simp add: NewRequest_def sent_def Let_def)
qed

text \<open>A header value that arrives as it was sent.\<close>

definition clean_value :: "string \<Rightarrow> bool" where
  "clean_value v \<longleftrightarrow> ValidHeaderFieldValue v \<and> TrimBlanks v = v"

lemma RoundTrip_sent:
  assumes "plain_host host" and "xs \<noteq> []" and "list_all query_char q" and "list_all (\<lambda>kv. clean_value (snd kv)) header"
  shows "RoundTrip server (sent verb host xs q header raw) s = apfst Inr (server (received verb host xs q header raw) s)"
proof -
  have "list_all (\<lambda>kv. ValidHeaderFieldValue (snd kv)) header" using assms(4) by (auto simp: list_all_iff clean_value_def)
  moreover have "map (\<lambda>(k, v). (k, TrimBlanks v)) header = header"
    using assms(4) by (intro map_idI) (auto simp: list_all_iff clean_value_def)
  moreover have "u_Scheme (path_url ''http'' host xs q) = ''http''" "u_Host (path_url ''http'' host xs q) = host" "host \<noteq> []"
    using assms(1) by (simp_all add: path_url_def plain_host_def)
  ultimately show ?thesis
    using parse_request [OF assms(2,3), of "''http''" host] by (simp add: RoundTrip_def sent_def received_def)
qed

section \<open>Behind the access checks\<close>

definition local_host :: "string \<Rightarrow> bool" where
  "local_host host \<longleftrightarrow> plain_host host \<and>
     (case SplitHostPort host of Some (parsed, port) \<Rightarrow> parsed | None \<Rightarrow> host) \<in> {''localhost'', ''127.0.0.1'', ''::1''}"

lemma canonical_names [simp]:
  "CanonicalHeaderKey ''Authorization'' = ''Authorization''" "CanonicalHeaderKey ''Origin'' = ''Origin''"
  "CanonicalHeaderKey ''Content-Type'' = ''Content-Type''" "CanonicalHeaderKey ''Idempotency-Key'' = ''Idempotency-Key''"
  "CanonicalHeaderKey ''Last-Event-ID'' = ''Last-Event-Id''"
  by code_simp+

text \<open>The headers of the program's client: those of the operation and the token behind them.\<close>

definition with_token :: "string \<Rightarrow> (string \<times> string) list \<Rightarrow> (string \<times> string) list" where
  "with_token token header = header @ [(''Authorization'', ''Bearer '' @ token)]"

lemma api_handler_passes:
  assumes "local_host host" and "token \<noteq> []" and "list_all (\<lambda>kv. fst kv \<noteq> ''Authorization'' \<and> fst kv \<noteq> ''Origin'') header"
  shows "api_handler rt message redirect token si (received verb host xs q (with_token token header) raw) s =
    HandlerWithOptions rt message redirect si
      \<lparr>so_Middlewares = [], so_ErrorHandlerFunc = Some (\<lambda>e. writeAPIError 400 ''InvalidParameterValue'' (message e) [])\<rparr>
      (received verb host xs q (with_token token header) raw) s"
proof -
  let ?r = "received verb host xs q (with_token token header) raw"
  have "Header_Values ''Authorization'' ?r = [''Bearer '' @ token]" "Header_Values ''Origin'' ?r = []"
    using assms(3) by (auto simp: Header_Values_def received_def with_token_def list_all_iff filter_empty_conv)
  then have "Header_Get ''Authorization'' ?r = ''Bearer '' @ token" "Header_Get ''Origin'' ?r = []"
    by (simp_all add: Header_Get_def)
  moreover have "nr_Host ?r = host" by (simp add: received_def)
  ultimately show ?thesis using assms(1,2) CutPrefix_append [of "''Bearer ''" token]
    by (cases "SplitHostPort host")
      (auto simp: api_handler_def api_New_def localOnly_def requireBearer_def view_def local_host_def Let_def simp del: append.simps)
qed

text \<open>The client that \<open>newResourceClient\<close> makes, connected to a server.\<close>

definition linked :: "'s net_handler \<Rightarrow> string \<Rightarrow> string \<Rightarrow> 's Client" where
  "linked server host token =
     \<lparr>cl_Server = server_of host, cl_Client = Some (\<lambda>r. eff_bind (RoundTrip server r) (\<lambda>rp. eff_return (rp, True))),
      cl_RequestEditors = [\<lambda>r. Inr (Header_Set ''Authorization'' (''Bearer '' @ token) r)]\<rparr>"

lemma Header_Set_token:
  "list_all (\<lambda>kv. fst kv \<noteq> ''Authorization'') header \<Longrightarrow>
   Header_Set ''Authorization'' (''Bearer '' @ token) (sent verb host xs q header raw) =
   sent verb host xs q (with_token token header) raw"
  by (auto simp: Header_Set_def Header_Add_def sent_def with_token_def list_all_iff filter_id_conv)

definition token_ok :: "string \<Rightarrow> bool" where
  "token_ok token \<longleftrightarrow> token \<noteq> [] \<and> clean_value (''Bearer '' @ token)"

definition own_header :: "(string \<times> string) list \<Rightarrow> bool" where
  "own_header header \<longleftrightarrow>
     list_all (\<lambda>kv. fst kv \<noteq> ''Authorization'' \<and> fst kv \<noteq> ''Origin'' \<and> clean_value (snd kv)) header"

abbreviation program_siw :: "(goerr \<Rightarrow> string) \<Rightarrow> 's ServerInterface \<Rightarrow> 's ServerInterfaceWrapper" where
  "program_siw message si \<equiv>
     \<lparr>siw_Handler = si, siw_HandlerMiddlewares = [],
      siw_ErrorHandlerFunc = \<lambda>e. writeAPIError 400 ''InvalidParameterValue'' (message e) []\<rparr>"

text \<open>A call of the client ends in the wrapper that the routes have for its verb and path.\<close>

lemma call_routed:
  assumes "local_host host" and "token_ok token" and "own_header header" and "solid xs" and "list_all query_char q"
    and "find_segs (api_routes rt (program_siw message si)) verb xs = Some (vs, h)"
  shows "client_call (linked (api_handler rt message redirect token si) host token) [] (Inr (sent verb host xs q header raw)) s =
    (case h (PathValue vs) (received verb host xs q (with_token token header) raw) s of (rp, s') \<Rightarrow> (Inr (rp, True), s'))"
proof -
  let ?c = "linked (api_handler rt message redirect token si) host token"
  let ?r = "received verb host xs q (with_token token header) raw"
  have h: "plain_host host" "xs \<noteq> []" "token \<noteq> []" using assms(1,2,4) by (simp_all add: local_host_def solid_def token_ok_def)
  have "list_all (\<lambda>kv. clean_value (snd kv)) (with_token token header)"
    using assms(2,3) by (auto simp: with_token_def own_header_def list_all_iff token_ok_def)
  note rt = RoundTrip_sent [OF h(1,2) assms(5) this, of "api_handler rt message redirect token si" verb raw s]
  have own: "list_all (\<lambda>kv. fst kv \<noteq> ''Authorization'') header" "list_all (\<lambda>kv. fst kv \<noteq> ''Authorization'' \<and> fst kv \<noteq> ''Origin'') header"
    using assms(3) by (auto simp: own_header_def list_all_iff)
  have "api_handler rt message redirect token si ?r s = h (PathValue vs) ?r s"
    unfolding api_handler_passes [OF assms(1) h(3) own(2)]
    using mux_slashed [OF assms(4), of ?r "[]" "[]" q "api_routes rt (program_siw message si)" vs h redirect s] assms(6)
    by (simp add: HandlerWithOptions_def received_def)
  moreover have "res_bind (Inr (sent verb host xs q header raw)) (applyEditors ?c []) =
      Inr (sent verb host xs q (with_token token header) raw)"
    using Header_Set_token [OF own(1)] by (simp add: applyEditors_def linked_def del: append.simps)
  ultimately show ?thesis
    by (simp add: client_call_def linked_def eff_bind_def rt eff_return_def del: append.simps split: prod.split)
qed

section \<open>The operations\<close>

text \<open>What the parser of a client makes of the answer of a handler.\<close>

definition read_by :: "(response \<times> bool \<Rightarrow> 'a res) \<Rightarrow> response \<times> 's \<Rightarrow> 'a res \<times> 's" where
  "read_by parse out = (parse (fst out, True), snd out)"

text \<open>A name that is a segment of a path.\<close>

definition segment :: "string \<Rightarrow> bool" where
  "segment x \<longleftrightarrow> x \<noteq> [] \<and> x \<noteq> ''.'' \<and> x \<noteq> ''..''"

lemma PathEscape_literals [simp]:
  "PathEscape ''v1'' = ''v1''" "PathEscape ''workspaces'' = ''workspaces''" "PathEscape ''vpcs'' = ''vpcs''"
  "PathEscape ''subnets'' = ''subnets''" "PathEscape ''instances'' = ''instances''" "PathEscape ''console'' = ''console''"
  "PathEscape ''health'' = ''health''" "PathEscape ''version'' = ''version''" "PathEscape ''events'' = ''events''"
  by code_simp+

lemma codec_path:
  assumes "codec rt" and "segment (pathValue n)"
  shows "path_param rt siw n pathValue k = k (pathValue n)"
  using assms by (simp add: path_param_def bound_def codec_def segment_def fun_eq_iff)

lemma codec_header:
  assumes "codec rt"
  shows "Header_Values n r = [] \<Longrightarrow> header_param rt siw n k r = k None r"
    "Header_Values n r = [v] \<Longrightarrow> v \<noteq> [] \<Longrightarrow> header_param rt siw n k r = k (Some v) r"
  using assms by (simp_all add: header_param_def bound_def codec_def fun_eq_iff)

lemma through_none [simp]: "through (program_siw message si) h = h"
  by (simp add: through_def)

text \<open>Operations on a collection and on one resource, over what their builder and their wrapper do.\<close>

lemma answered_routed:
  assumes "local_host host" and "token_ok token" and "own_header header" and "solid xs" and "list_all query_char q"
    and "find_segs (api_routes rt (program_siw message si)) verb xs = Some (vs, h)"
    and "m = Inr (sent verb host xs q header raw)"
    and "h (PathValue vs) (received verb host xs q (with_token token header) raw) = out"
  shows "answered (client_call (linked (api_handler rt message redirect token si) host token) [] m) parse s = read_by parse (out s)"
  unfolding assms(7) answered_def eff_bind_def call_routed [OF assms(1-6)] assms(8)
  by (simp add: read_by_def eff_res_def split: prod.split)

lemma build_id:
  assumes "plain_host host" and "segment w" and "segment i" and "codec rt" and "verb \<in> {''GET'', ''POST'', ''DELETE''}"
    and "tail = [] \<or> tail = [''console'']" and "res \<in> {''vpcs'', ''subnets'', ''instances''}"
  shows "res_bind (rt_StylePath rt ''workspace'' w) (\<lambda>pathParam0. res_bind (rt_StylePath rt ''id'' i) (\<lambda>pathParam1.
     res_bind (operation_url (server_of host) (''/v1/workspaces/'' @ pathParam0 @ CHR ''/'' # res @ CHR ''/'' # pathParam1 @ slashed tail)) (\<lambda>queryURL.
     NewRequest verb (URL_String queryURL) []))) = Inr (sent verb host ([''v1'', ''workspaces'', w, res, i] @ tail) [] [] [])"
proof -
  let ?xs = "[''v1'', ''workspaces'', w, res, i] @ tail"
  have s: "solid ?xs" using assms(2,3,6,7) by (auto simp: solid_def segment_def)
  have "''/v1/workspaces/'' @ PathEscape w @ CHR ''/'' # res @ CHR ''/'' # PathEscape i @ slashed tail = slashed (map PathEscape ?xs)"
    using assms(6,7) by auto
  then have "operation_url (server_of host) (''/v1/workspaces/'' @ PathEscape w @ CHR ''/'' # res @ CHR ''/'' # PathEscape i @ slashed tail) =
      Inr (path_url ''http'' host ?xs [])"
    by (rule operation_slashed [OF assms(1) s])
  then show ?thesis using assms(4) NewRequest_sent [OF assms(1) _ _ assms(5), of ?xs "[]"] by (simp add: codec_def)
qed

abbreviation id_path :: "string \<Rightarrow> string \<Rightarrow> string \<Rightarrow> string list" where
  "id_path w res i \<equiv> [''v1'', ''workspaces'', w, res, i]"

abbreviation dir_path :: "string \<Rightarrow> string \<Rightarrow> string list" where
  "dir_path w res \<equiv> [''v1'', ''workspaces'', w, res]"

abbreviation got :: "string \<Rightarrow> string \<Rightarrow> string list \<Rightarrow> string \<Rightarrow> string \<Rightarrow> net_request" where
  "got verb host xs q token \<equiv> received verb host xs q (with_token token []) []"

lemma call_ids:
  assumes "local_host host" and "token_ok token" and "codec rt" and "segment w" and "segment i"
    and "c = linked (api_handler rt message redirect token si) host token"
  shows "TerminateInstanceWithResponse rt c w i [] s = read_by ParseTerminateInstanceResponse (si_TerminateInstance si w i (got ''DELETE'' host (id_path w ''instances'' i) [] token) s)"
    "GetInstanceWithResponse rt c w i [] s = read_by ParseGetInstanceResponse (si_GetInstance si w i (got ''GET'' host (id_path w ''instances'' i) [] token) s)"
    "DeleteSubnetWithResponse rt c w i [] s = read_by ParseDeleteSubnetResponse (si_DeleteSubnet si w i (got ''DELETE'' host (id_path w ''subnets'' i) [] token) s)"
    "GetSubnetWithResponse rt c w i [] s = read_by ParseGetSubnetResponse (si_GetSubnet si w i (got ''GET'' host (id_path w ''subnets'' i) [] token) s)"
    "DeleteVpcWithResponse rt c w i [] s = read_by ParseDeleteVpcResponse (si_DeleteVpc si w i (got ''DELETE'' host (id_path w ''vpcs'' i) [] token) s)"
    "GetVpcWithResponse rt c w i [] s = read_by ParseGetVpcResponse (si_GetVpc si w i (got ''GET'' host (id_path w ''vpcs'' i) [] token) s)"
proof -
  have p: "plain_host host" using assms(1) by (simp add: local_host_def)
  have s: "solid (id_path w res i)" if "res \<in> {''vpcs'', ''subnets'', ''instances''}" for res
    using that assms(4,5) by (auto simp: solid_def segment_def)
  note b = build_id [OF p assms(4,5,3), of _ "[]"]
  note r = answered_routed [OF assms(1,2) _ s]
  have v: "PathValue [(''workspace'', w), (''id'', i)] ''workspace'' = w" "PathValue [(''workspace'', w), (''id'', i)] ''id'' = i"
    by (simp_all add: PathValue_def)
  note w = codec_path [OF assms(3)] v assms(4,5)
  show "TerminateInstanceWithResponse rt c w i [] s = read_by ParseTerminateInstanceResponse (si_TerminateInstance si w i (got ''DELETE'' host (id_path w ''instances'' i) [] token) s)"
    unfolding TerminateInstanceWithResponse_def assms(6)
    by (rule r [where header = "[]" and q = "[]" and raw = "[]" and h = "wrap_TerminateInstance rt (program_siw message si)" and verb = "''DELETE''"
        and vs = "[(''workspace'', w), (''id'', i)]"])
      (use assms(4,5) [unfolded segment_def] b [of "''DELETE''" "''instances''"] in \<open>simp_all add: own_header_def linked_def NewTerminateInstanceRequest_def api_routes_def match_method_def
        wrap_TerminateInstance_def w\<close>)
  show "GetInstanceWithResponse rt c w i [] s = read_by ParseGetInstanceResponse (si_GetInstance si w i (got ''GET'' host (id_path w ''instances'' i) [] token) s)"
    unfolding GetInstanceWithResponse_def assms(6)
    by (rule r [where header = "[]" and q = "[]" and raw = "[]" and h = "wrap_GetInstance rt (program_siw message si)" and verb = "''GET''"
        and vs = "[(''workspace'', w), (''id'', i)]"])
      (use assms(4,5) [unfolded segment_def] b [of "''GET''" "''instances''"] in \<open>simp_all add: own_header_def linked_def NewGetInstanceRequest_def api_routes_def match_method_def
        wrap_GetInstance_def w\<close>)
  show "DeleteSubnetWithResponse rt c w i [] s = read_by ParseDeleteSubnetResponse (si_DeleteSubnet si w i (got ''DELETE'' host (id_path w ''subnets'' i) [] token) s)"
    unfolding DeleteSubnetWithResponse_def assms(6)
    by (rule r [where header = "[]" and q = "[]" and raw = "[]" and h = "wrap_DeleteSubnet rt (program_siw message si)" and verb = "''DELETE''"
        and vs = "[(''workspace'', w), (''id'', i)]"])
      (use assms(4,5) [unfolded segment_def] b [of "''DELETE''" "''subnets''"] in \<open>simp_all add: own_header_def linked_def NewDeleteSubnetRequest_def api_routes_def match_method_def
        wrap_DeleteSubnet_def w\<close>)
  show "GetSubnetWithResponse rt c w i [] s = read_by ParseGetSubnetResponse (si_GetSubnet si w i (got ''GET'' host (id_path w ''subnets'' i) [] token) s)"
    unfolding GetSubnetWithResponse_def assms(6)
    by (rule r [where header = "[]" and q = "[]" and raw = "[]" and h = "wrap_GetSubnet rt (program_siw message si)" and verb = "''GET''"
        and vs = "[(''workspace'', w), (''id'', i)]"])
      (use assms(4,5) [unfolded segment_def] b [of "''GET''" "''subnets''"] in \<open>simp_all add: own_header_def linked_def NewGetSubnetRequest_def api_routes_def match_method_def
        wrap_GetSubnet_def w\<close>)
  show "DeleteVpcWithResponse rt c w i [] s = read_by ParseDeleteVpcResponse (si_DeleteVpc si w i (got ''DELETE'' host (id_path w ''vpcs'' i) [] token) s)"
    unfolding DeleteVpcWithResponse_def assms(6)
    by (rule r [where header = "[]" and q = "[]" and raw = "[]" and h = "wrap_DeleteVpc rt (program_siw message si)" and verb = "''DELETE''"
        and vs = "[(''workspace'', w), (''id'', i)]"])
      (use assms(4,5) [unfolded segment_def] b [of "''DELETE''" "''vpcs''"] in \<open>simp_all add: own_header_def linked_def NewDeleteVpcRequest_def api_routes_def match_method_def
        wrap_DeleteVpc_def w\<close>)
  show "GetVpcWithResponse rt c w i [] s = read_by ParseGetVpcResponse (si_GetVpc si w i (got ''GET'' host (id_path w ''vpcs'' i) [] token) s)"
    unfolding GetVpcWithResponse_def assms(6)
    by (rule r [where header = "[]" and q = "[]" and raw = "[]" and h = "wrap_GetVpc rt (program_siw message si)" and verb = "''GET''"
        and vs = "[(''workspace'', w), (''id'', i)]"])
      (use assms(4,5) [unfolded segment_def] b [of "''GET''" "''vpcs''"] in \<open>simp_all add: own_header_def linked_def NewGetVpcRequest_def api_routes_def match_method_def
        wrap_GetVpc_def w\<close>)
qed

subsection \<open>Listings\<close>

lemma QueryEscape_id: "list_all unreserved s \<Longrightarrow> QueryEscape s = s"
  by (induction s) (auto simp: QueryEscape_def escape_def escape_char_def shouldEscape_def)

lemma FormatInt_unreserved: "list_all unreserved (FormatInt i)"
proof -
  have "list_all unreserved (dec n)" for n
    using dec_digits [of n] by (rule list.pred_mono_strong) (simp add: unreserved_def)
  then show ?thesis by (simp add: FormatInt_def unreserved_def)
qed

lemma split_join:
  assumes "ss \<noteq> []" and "list_all (\<lambda>s. c \<notin> set s) ss" shows "split_at c (joined c ss) = ss"
proof -
  have *: "split_at c (s @ concat (map ((#) c) rest)) = s # rest" if "c \<notin> set s" "list_all (\<lambda>s. c \<notin> set s) rest" for s rest
    using that
  proof (induction rest arbitrary: s)
    case Nil
    then show ?case by (induction s) auto
  next
    case (Cons t rest)
    have "split_at c (c # t @ concat (map ((#) c) rest)) = [] # t # rest" using Cons by simp
    then show ?case using Cons.prems(1) by (induction s) auto
  qed
  obtain s rest where "ss = s # rest" using assms(1) by (cases ss) auto
  then show ?thesis using * [of s rest] assms(2) by (simp add: joined_def)
qed

text \<open>The pairs of a query whose names need no escaping.\<close>

definition plain_pairs :: "values_ \<Rightarrow> bool" where
  "plain_pairs kvs \<longleftrightarrow> list_all (\<lambda>(n, v). n \<noteq> [] \<and> list_all unreserved n) kvs"

abbreviation pair_text :: "string \<times> string \<Rightarrow> string" where
  "pair_text \<equiv> \<lambda>(n, v). n @ ''='' @ QueryEscape v"

lemma pair_chars:
  assumes "list_all unreserved n"
  shows "CHR ''&'' \<notin> set (pair_text (n, v))" "CHR '';'' \<notin> set (pair_text (n, v))" "CHR ''='' \<notin> set n"
    "list_all query_char (pair_text (n, v))"
proof -
  have "c \<notin> set ''/?#:&=;%+@$,''" if "c \<in> set n" for c using assms that unreserved_not by (simp add: list_all_iff)
  moreover have "unreserved c \<or> c = CHR ''%'' \<or> c = CHR ''+''" if "c \<in> set (QueryEscape v)" for c
    using QueryEscape_chars [of v] that by (simp add: list_all_iff)
  moreover have "\<not> unreserved (CHR ''&'')" "\<not> unreserved (CHR '';'')" using unreserved_not by fastforce+
  ultimately show "CHR ''&'' \<notin> set (pair_text (n, v))" "CHR '';'' \<notin> set (pair_text (n, v))" "CHR ''='' \<notin> set n" by fastforce+
  show "list_all query_char (pair_text (n, v))"
    using assms QueryEscape_chars [of v] by (auto simp: list_all_iff query_char_def)
qed

lemma query_pair_text: "n \<noteq> [] \<Longrightarrow> list_all unreserved n \<Longrightarrow> query_pair (pair_text (n, v)) = [(n, v)]"
proof -
  assume n: "n \<noteq> []" "list_all unreserved n"
  have "unescape encodeQueryComponent n = Some n"
    using unescape_escape [of encodeQueryComponent n] QueryEscape_id [OF n(2)] by (simp add: QueryEscape_def)
  moreover have "unescape encodeQueryComponent (QueryEscape v) = Some v" by (simp add: QueryEscape_def unescape_escape)
  moreover have "Cut (CHR ''='') (n @ CHR ''='' # QueryEscape v) = (n, QueryEscape v)"
    using pair_chars(3) [OF n(2)] by (rule Cut_simps)
  ultimately show ?thesis using n(1) pair_chars(2) [OF n(2), of v] by (simp add: query_pair_def)
qed

lemma ParseQuery_pairs: "plain_pairs kvs \<Longrightarrow> ParseQuery (joined (CHR ''&'') (map pair_text kvs)) = kvs"
proof (cases "kvs = []")
  case True
  then show ?thesis by (simp add: ParseQuery_def joined_def query_pair_def)
next
  case False
  assume p: "plain_pairs kvs"
  have "list_all (\<lambda>s. CHR ''&'' \<notin> set s) (map pair_text kvs)"
    using p pair_chars(1) by (fastforce simp: plain_pairs_def list_all_iff)
  then have "split_at (CHR ''&'') (joined (CHR ''&'') (map pair_text kvs)) = map pair_text kvs"
    using False split_join by blast
  moreover have "concat (map query_pair (map pair_text kvs)) = kvs"
    using p by (induction kvs) (auto simp: plain_pairs_def query_pair_text [simplified])
  ultimately show ?thesis by (simp add: ParseQuery_def del: map_map)
qed

lemma query_pairs_chars: "plain_pairs kvs \<Longrightarrow> list_all query_char (joined (CHR ''&'') (map pair_text kvs))"
proof (induction kvs)
  case (Cons kv kvs)
  have "list_all query_char (pair_text kv)" using Cons.prems pair_chars(4) by (cases kv) (auto simp: plain_pairs_def)
  moreover have "query_char (CHR ''&'')" by (simp add: query_char_def)
  moreover have "list_all query_char (concat (map ((#) (CHR ''&'')) (map pair_text kvs)))"
    using Cons.prems pair_chars(4) calculation(2) by (fastforce simp: plain_pairs_def list_all_iff)
  ultimately show ?case by (simp add: joined_def del: map_map)
qed (simp add: joined_def)

definition list_pairs :: "ListParams \<Rightarrow> values_" where
  "list_pairs p =
     (case lp_Limit p of None \<Rightarrow> [] | Some n \<Rightarrow> [(''limit'', FormatInt n)]) @
     (case lp_PageToken p of None \<Rightarrow> [] | Some t \<Rightarrow> [(''page_token'', t)])"

lemma list_pairs_plain: "plain_pairs (list_pairs p)"
  by (simp add: plain_pairs_def list_pairs_def unreserved_def is_letter_def split: option.split)

lemma fragment_single:
  assumes "list_all unreserved n"
  shows "query_fragments (Some (Inr (n @ ''='' @ QueryEscape v))) = Inr [n @ ''='' @ QueryEscape v]"
  using split_join [of "[n @ ''='' @ QueryEscape v]" "CHR ''&''"] pair_chars(1) [OF assms, of v]
  by (simp add: query_fragments_def joined_def)

lemma list_query_pairs:
  assumes "codec rt"
  shows "list_query rt (Some p) (path_url ''http'' host xs []) = Inr (path_url ''http'' host xs (joined (CHR ''&'') (map pair_text (list_pairs p))))"
proof -
  have l: "query_fragments (map_option (rt_StyleQueryInt rt ''limit'') (lp_Limit p)) =
      Inr (map pair_text (case lp_Limit p of None \<Rightarrow> [] | Some n \<Rightarrow> [(''limit'', FormatInt n)]))"
    using assms fragment_single [of "''limit''" "FormatInt n" for n]
    by (simp add: codec_def QueryEscape_id FormatInt_unreserved unreserved_def is_letter_def del: append.simps split: option.split)
      (simp add: query_fragments_def)
  have t: "query_fragments (map_option (rt_StyleQuery rt ''page_token'') (lp_PageToken p)) =
      Inr (map pair_text (case lp_PageToken p of None \<Rightarrow> [] | Some t \<Rightarrow> [(''page_token'', t)]))"
    using assms fragment_single [of "''page_token''"]
    by (simp add: codec_def unreserved_def is_letter_def del: append.simps split: option.split) (simp add: query_fragments_def)
  have "Values_Encode (ParseQuery []) = []" by (simp add: ParseQuery_def query_pair_def Values_Encode_def joined_def)
  then show ?thesis
    by (simp add: list_query_def l t path_url_def Let_def) (simp add: list_pairs_def)
qed

lemma build_list:
  assumes "plain_host host" and "segment w" and "codec rt" and "res \<in> {''vpcs'', ''subnets'', ''instances''}"
  shows "operation_url (server_of host) (''/v1/workspaces/'' @ PathEscape w @ CHR ''/'' # res) = Inr (path_url ''http'' host (dir_path w res) [])"
proof (rule operation_slashed [OF assms(1)])
  show "solid (dir_path w res)" using assms(2,4) by (auto simp: solid_def segment_def)
qed (use assms(4) in auto)

lemma codec_query:
  assumes "codec rt"
  shows "values_of n vs = [] \<Longrightarrow> rt_BindQuery rt n vs = Inr None" "values_of n vs = [v] \<Longrightarrow> rt_BindQuery rt n vs = Inr (Some v)"
    "values_of n vs = [] \<Longrightarrow> rt_BindQueryInt rt n vs = Inr None"
    "values_of n vs = [FormatInt i] \<Longrightarrow> int64 i \<Longrightarrow> rt_BindQueryInt rt n vs = Inr (Some i)"
  using assms ParseInt_FormatInt [of i] unfolding codec_def int64_def by (meson)+

lemma list_params_pairs:
  assumes "codec rt" and "u_RawQuery (nr_URL r) = joined (CHR ''&'') (map pair_text (list_pairs p))"
    and "case lp_Limit p of None \<Rightarrow> True | Some n \<Rightarrow> int64 n"
  shows "list_params rt siw k r = k p r"
proof -
  have "ParseQuery (u_RawQuery (nr_URL r)) = list_pairs p" using assms(2) ParseQuery_pairs [OF list_pairs_plain] by simp
  moreover have "rt_BindQueryInt rt ''limit'' (list_pairs p) = Inr (lp_Limit p)"
    "rt_BindQuery rt ''page_token'' (list_pairs p) = Inr (lp_PageToken p)"
    using assms(3) codec_query [OF assms(1)] by (simp_all add: values_of_def list_pairs_def split: option.splits)
  ultimately show ?thesis by (cases p) (simp add: list_params_def bound_def fun_eq_iff)
qed

lemma call_lists:
  assumes "local_host host" and "token_ok token" and "codec rt" and "segment w" and "case lp_Limit p of None \<Rightarrow> True | Some n \<Rightarrow> int64 n"
    and "c = linked (api_handler rt message redirect token si) host token" and "q = joined (CHR ''&'') (map pair_text (list_pairs p))"
  shows "ListInstancesWithResponse rt c w (Some p) [] s = read_by ParseListInstancesResponse (si_ListInstances si w p (got ''GET'' host (dir_path w ''instances'') q token) s)"
    "ListSubnetsWithResponse rt c w (Some p) [] s = read_by ParseListSubnetsResponse (si_ListSubnets si w p (got ''GET'' host (dir_path w ''subnets'') q token) s)"
    "ListVpcsWithResponse rt c w (Some p) [] s = read_by ParseListVpcsResponse (si_ListVpcs si w p (got ''GET'' host (dir_path w ''vpcs'') q token) s)"
proof -
  have pl: "plain_host host" using assms(1) by (simp add: local_host_def)
  have s: "solid (dir_path w res)" if "res \<in> {''vpcs'', ''subnets'', ''instances''}" for res
    using that assms(4) by (auto simp: solid_def segment_def)
  have q: "list_all query_char q" using query_pairs_chars [OF list_pairs_plain] assms(7) by simp
  have v: "PathValue [(''workspace'', w)] ''workspace'' = w" by (simp add: PathValue_def)
  have lp: "list_params rt siw k (got ''GET'' host xs q token) = k p (got ''GET'' host xs q token)" for siw k xs
    by (rule list_params_pairs [OF assms(3) _ assms(5)]) (simp add: received_def path_url_def assms(7))
  note w = codec_path [OF assms(3)] v assms(4) lp
  have lq: "list_query rt (Some p) (path_url ''http'' host xs []) = Inr (path_url ''http'' host xs q)" for xs
    using list_query_pairs [OF assms(3)] assms(7) by simp
  note r = answered_routed [OF assms(1,2) _ s q]
  show "ListInstancesWithResponse rt c w (Some p) [] s = read_by ParseListInstancesResponse (si_ListInstances si w p (got ''GET'' host (dir_path w ''instances'') q token) s)"
    unfolding ListInstancesWithResponse_def assms(6)
    by (rule r [where header = "[]" and raw = "[]" and h = "wrap_ListInstances rt (program_siw message si)" and verb = "''GET''" and vs = "[(''workspace'', w)]"])
      (use assms(3,4) [unfolded codec_def segment_def] build_list [OF pl assms(4,3), of "''instances''"] NewRequest_sent [OF pl _ q, of "dir_path w ''instances''" "''GET''"]
        in \<open>simp_all add: own_header_def linked_def NewListInstancesRequest_def api_routes_def match_method_def wrap_ListInstances_def w lq\<close>)
  show "ListSubnetsWithResponse rt c w (Some p) [] s = read_by ParseListSubnetsResponse (si_ListSubnets si w p (got ''GET'' host (dir_path w ''subnets'') q token) s)"
    unfolding ListSubnetsWithResponse_def assms(6)
    by (rule r [where header = "[]" and raw = "[]" and h = "wrap_ListSubnets rt (program_siw message si)" and verb = "''GET''" and vs = "[(''workspace'', w)]"])
      (use assms(3,4) [unfolded codec_def segment_def] build_list [OF pl assms(4,3), of "''subnets''"] NewRequest_sent [OF pl _ q, of "dir_path w ''subnets''" "''GET''"]
        in \<open>simp_all add: own_header_def linked_def NewListSubnetsRequest_def api_routes_def match_method_def wrap_ListSubnets_def w lq\<close>)
  show "ListVpcsWithResponse rt c w (Some p) [] s = read_by ParseListVpcsResponse (si_ListVpcs si w p (got ''GET'' host (dir_path w ''vpcs'') q token) s)"
    unfolding ListVpcsWithResponse_def assms(6)
    by (rule r [where header = "[]" and raw = "[]" and h = "wrap_ListVpcs rt (program_siw message si)" and verb = "''GET''" and vs = "[(''workspace'', w)]"])
      (use assms(3,4) [unfolded codec_def segment_def] build_list [OF pl assms(4,3), of "''vpcs''"] NewRequest_sent [OF pl _ q, of "dir_path w ''vpcs''" "''GET''"]
        in \<open>simp_all add: own_header_def linked_def NewListVpcsRequest_def api_routes_def match_method_def wrap_ListVpcs_def w lq\<close>)
qed

subsection \<open>Creations\<close>

definition create_header :: "string option \<Rightarrow> (string \<times> string) list" where
  "create_header key =
     (''Content-Type'', ''application/json'') # (case key of None \<Rightarrow> [] | Some k \<Rightarrow> [(''Idempotency-Key'', k)])"

abbreviation posted :: "string \<Rightarrow> string list \<Rightarrow> string \<Rightarrow> string option \<Rightarrow> json \<Rightarrow> net_request" where
  "posted host xs token key raw \<equiv> received ''POST'' host xs [] (with_token token (create_header key)) (marshal raw)"

lemma create_header_own: "case key of None \<Rightarrow> True | Some k \<Rightarrow> clean_value k \<Longrightarrow> own_header (create_header key)"
proof -
  have "clean_value ''application/json''" unfolding clean_value_def by code_simp
  then show "case key of None \<Rightarrow> True | Some k \<Rightarrow> clean_value k \<Longrightarrow> own_header (create_header key)"
    by (simp add: own_header_def create_header_def split: option.splits)
qed

lemma create_header_sent:
  assumes "codec rt"
  shows "optional_header rt ''Idempotency-Key'' (Some key) (Header_Add ''Content-Type'' ''application/json'' (sent ''POST'' host xs q [] raw)) =
    Inr (sent ''POST'' host xs q (create_header key) raw)"
  using assms by (simp add: optional_header_def codec_def Header_Add_def Header_Set_def sent_def create_header_def split: option.split)

lemma create_header_param:
  assumes "codec rt" and "key \<noteq> Some []"
  shows "header_param rt siw ''Idempotency-Key'' k (posted host xs token key raw) = k key (posted host xs token key raw)"
proof (cases key)
  case None
  then have "Header_Values ''Idempotency-Key'' (posted host xs token key raw) = []"
    by (simp add: Header_Values_def received_def with_token_def create_header_def)
  then show ?thesis using codec_header(1) [OF assms(1)] None by simp
next
  case (Some v)
  then have "Header_Values ''Idempotency-Key'' (posted host xs token key raw) = [v]"
    by (simp add: Header_Values_def received_def with_token_def create_header_def)
  then show ?thesis using codec_header(2) [OF assms(1)] Some assms(2) by simp
qed

lemma call_creates:
  assumes "local_host host" and "token_ok token" and "codec rt" and "segment w" and "case key of None \<Rightarrow> True | Some k \<Rightarrow> clean_value k"
    and "key \<noteq> Some []" and "c = linked (api_handler rt message redirect token si) host token"
  shows "RunInstanceWithResponse rt c w (Some key) run_instance [] s = read_by ParseRunInstanceResponse (si_RunInstance si w key (posted host (dir_path w ''instances'') token key (run_instance_json run_instance)) s)"
    "CreateSubnetWithResponse rt c w (Some key) create_subnet [] s = read_by ParseCreateSubnetResponse (si_CreateSubnet si w key (posted host (dir_path w ''subnets'') token key (create_subnet_json create_subnet)) s)"
    "CreateVpcWithResponse rt c w (Some key) create_vpc [] s = read_by ParseCreateVpcResponse (si_CreateVpc si w key (posted host (dir_path w ''vpcs'') token key (create_vpc_json create_vpc)) s)"
proof -
  have pl: "plain_host host" using assms(1) by (simp add: local_host_def)
  have s: "solid (dir_path w res)" if "res \<in> {''vpcs'', ''subnets'', ''instances''}" for res
    using that assms(4) by (auto simp: solid_def segment_def)
  have v: "PathValue [(''workspace'', w)] ''workspace'' = w" by (simp add: PathValue_def)
  note w = codec_path [OF assms(3)] v assms(4) create_header_param [OF assms(3,6)]
  note r = answered_routed [OF assms(1,2) create_header_own [OF assms(5)] s]
  show "RunInstanceWithResponse rt c w (Some key) run_instance [] s = read_by ParseRunInstanceResponse (si_RunInstance si w key (posted host (dir_path w ''instances'') token key (run_instance_json run_instance)) s)"
    unfolding RunInstanceWithResponse_def assms(7)
    by (rule r [where q = "[]" and raw = "marshal (run_instance_json run_instance)" and h = "wrap_RunInstance rt (program_siw message si)" and verb = "''POST''"
        and vs = "[(''workspace'', w)]"])
      (use assms(3,4) [unfolded codec_def segment_def] build_list [OF pl assms(4,3), of "''instances''"] NewRequest_sent [OF pl, of "dir_path w ''instances''" "[]" "''POST''"]
          create_header_sent [OF assms(3)]
        in \<open>simp_all add: linked_def NewRunInstanceRequest_def NewRunInstanceRequestWithBody_def api_routes_def match_method_def wrap_RunInstance_def w\<close>)
  show "CreateSubnetWithResponse rt c w (Some key) create_subnet [] s = read_by ParseCreateSubnetResponse (si_CreateSubnet si w key (posted host (dir_path w ''subnets'') token key (create_subnet_json create_subnet)) s)"
    unfolding CreateSubnetWithResponse_def assms(7)
    by (rule r [where q = "[]" and raw = "marshal (create_subnet_json create_subnet)" and h = "wrap_CreateSubnet rt (program_siw message si)" and verb = "''POST''"
        and vs = "[(''workspace'', w)]"])
      (use assms(3,4) [unfolded codec_def segment_def] build_list [OF pl assms(4,3), of "''subnets''"] NewRequest_sent [OF pl, of "dir_path w ''subnets''" "[]" "''POST''"]
          create_header_sent [OF assms(3)]
        in \<open>simp_all add: linked_def NewCreateSubnetRequest_def NewCreateSubnetRequestWithBody_def api_routes_def match_method_def wrap_CreateSubnet_def w\<close>)
  show "CreateVpcWithResponse rt c w (Some key) create_vpc [] s = read_by ParseCreateVpcResponse (si_CreateVpc si w key (posted host (dir_path w ''vpcs'') token key (create_vpc_json create_vpc)) s)"
    unfolding CreateVpcWithResponse_def assms(7)
    by (rule r [where q = "[]" and raw = "marshal (create_vpc_json create_vpc)" and h = "wrap_CreateVpc rt (program_siw message si)" and verb = "''POST''"
        and vs = "[(''workspace'', w)]"])
      (use assms(3,4) [unfolded codec_def segment_def] build_list [OF pl assms(4,3), of "''vpcs''"] NewRequest_sent [OF pl, of "dir_path w ''vpcs''" "[]" "''POST''"]
          create_header_sent [OF assms(3)]
        in \<open>simp_all add: linked_def NewCreateVpcRequest_def NewCreateVpcRequestWithBody_def api_routes_def match_method_def wrap_CreateVpc_def w\<close>)
qed

end
