(* ===== verification/BodyFacts.thy ===== *)
theory BodyFacts
  imports GenClient
begin

text \<open>
  The bodies of the API: what the server writes, the generated client reads back, for the
  resources, their pages and the requests that create them.
\<close>

section \<open>Objects on a line\<close>

lemma unmarshal_line:
  assumes "jwf 10000 (JObj kvs)" shows "unmarshal (marshal (JObj kvs) @ [CHR 0x0A]) = Some (JObj kvs)"
proof -
  have k: "list_all (\<lambda>kv. ValidString (fst kv) \<and> jwf 9999 (snd kv)) kvs" using assms by (simp add: jwf_JObj)
  have "tokenize [CHR 0x0A] = Some []" by (simp add: tokenize.simps is_ws_def)
  then have "tokenize (marshal (JObj kvs) @ [CHR 0x0A]) = Some (toks (JObj kvs))"
    using lex_marshal(3) [OF k, of "CHR ''}'' # [CHR 0x0A]"] by (simp add: ltok_def)
  moreover have "run_json PValue [] (toks (JObj kvs)) = Some (JObj kvs)"
    using run_toks [OF assms, of "[]" "[]"] by (simp add: resume_def)
  ultimately show ?thesis by (simp add: unmarshal_def)
qed

section \<open>Structs whose members are in order\<close>

fun set_all :: "((json \<Rightarrow> 'a \<Rightarrow> 'a option) \<times> json) list \<Rightarrow> 'a \<Rightarrow> 'a option" where
  "set_all [] x = Some x"
| "set_all ((g, j) # gjs) x = Option.bind (g j x) (set_all gjs)"

lemma set_members_in_order:
  assumes "distinct (map fold_key (map fst fs))" and "set (map fst gjs) \<subseteq> set fs"
  shows "set_members fs (map (\<lambda>((k, g), j). (k, j)) gjs) x = set_all (map (\<lambda>((k, g), j). (g, j)) gjs) x"
  using assms(2)
proof (induction gjs arbitrary: x)
  case (Cons a gjs)
  obtain k g j where a: "a = ((k, g), j)" by (metis surj_pair)
  then have "set_member fs (k, j) y = g j y" for y using set_member_field [OF assms(1)] Cons.prems by simp
  then show ?case using Cons a by (simp split: option.split Option.bind_split)
qed simp

lemma set_struct_zip:
  assumes "distinct (map fold_key (map fst fs))"
  shows "set_struct fs (JObj (map (\<lambda>((k, g), j). (k, j)) (zip fs js))) x = set_all (map (\<lambda>((k, g), j). (g, j)) (zip fs js)) x"
  using set_members_in_order [OF assms, of "zip fs js"] set_zip_leftD by (fastforce simp: set_struct_def)

lemma distinct_client_fields:
  "distinct (map fold_key (map fst client_Vpc_fields))" "distinct (map fold_key (map fst client_Subnet_fields))"
  "distinct (map fold_key (map fst client_Instance_fields))"
proof -
  have "distinct (map fold_key [''cidr_block'', ''generation'', ''id'', ''name'', ''observed_generation'', ''state'', ''state_reason''])"
    by code_simp
  then show "distinct (map fold_key (map fst client_Vpc_fields))" by (simp only: client_Vpc_fields_def list.map fst_conv)
  have "distinct (map fold_key [''availability_zone'', ''cidr_block'', ''generation'', ''id'', ''name'', ''observed_generation'', ''state'',
      ''state_reason'', ''vpc_id''])" by code_simp
  then show "distinct (map fold_key (map fst client_Subnet_fields))" by (simp only: client_Subnet_fields_def list.map fst_conv)
  have "distinct (map fold_key [''eni_id'', ''generation'', ''id'', ''instance_type'', ''name'', ''observed_generation'', ''private_ip'',
      ''state'', ''state_reason'', ''subnet_id''])" by code_simp
  then show "distinct (map fold_key (map fst client_Instance_fields))" by (simp only: client_Instance_fields_def list.map fst_conv)
qed

section \<open>Resources\<close>

definition seen_vpc :: "VPC \<Rightarrow> client_Vpc" where
  "seen_vpc v =
     \<lparr>av_CidrBlock = prefix_string (vpc_CIDRBlock v), av_Generation = vpc_Generation v, av_Id = vpc_ID v, av_Name = vpc_Name v,
      av_ObservedGeneration = vpc_ObservedGeneration v, av_State = vpc_State v, av_StateReason = vpc_StateReason v\<rparr>"

definition seen_subnet :: "Subnet \<Rightarrow> client_Subnet" where
  "seen_subnet s =
     \<lparr>as_AvailabilityZone = sub_AvailabilityZone s, as_CidrBlock = prefix_string (sub_CIDRBlock s), as_Generation = sub_Generation s,
      as_Id = sub_ID s, as_Name = sub_Name s, as_ObservedGeneration = sub_ObservedGeneration s, as_State = sub_State s,
      as_StateReason = sub_StateReason s, as_VpcId = sub_VPCID s\<rparr>"

definition seen_instance :: "Instance \<Rightarrow> client_Instance" where
  "seen_instance i =
     \<lparr>ai_EniId = eni_ID (inst_ENI i), ai_Generation = inst_Generation i, ai_Id = inst_ID i, ai_InstanceType = inst_InstanceType i,
      ai_Name = inst_Name i, ai_ObservedGeneration = inst_ObservedGeneration i, ai_PrivateIp = addr_string (eni_PrivateIP (inst_ENI i)),
      ai_State = inst_State i, ai_StateReason = inst_StateReason i, ai_SubnetId = inst_SubnetID i\<rparr>"

lemma set_int_jint [simp]: "int64 i \<Longrightarrow> set_int f (jint i) x = Some (f i x)"
  by (simp add: set_int_def int64_def ParseInt_FormatInt)

lemma set_str_JStr [simp]: "set_str f (JStr s) x = Some (f s x)"
  by (simp add: set_str_def)

lemma seen_decoded:
  "vpc_printable v \<Longrightarrow> set_struct client_Vpc_fields (vpcResponse v) zero_client_Vpc = Some (seen_vpc v)"
  "subnet_printable s \<Longrightarrow> set_struct client_Subnet_fields (subnetResponse s) zero_client_Subnet = Some (seen_subnet s)"
  "instance_printable i \<Longrightarrow> set_struct client_Instance_fields (instanceResponse i) zero_client_Instance = Some (seen_instance i)"
  using set_struct_zip [OF distinct_client_fields(1), of
      "[JStr (prefix_string (vpc_CIDRBlock v)), jint (vpc_Generation v), JStr (vpc_ID v), JStr (vpc_Name v), jint (vpc_ObservedGeneration v),
        JStr (vpc_State v), JStr (vpc_StateReason v)]" zero_client_Vpc]
    set_struct_zip [OF distinct_client_fields(2), of
      "[JStr (sub_AvailabilityZone s), JStr (prefix_string (sub_CIDRBlock s)), jint (sub_Generation s), JStr (sub_ID s), JStr (sub_Name s),
        jint (sub_ObservedGeneration s), JStr (sub_State s), JStr (sub_StateReason s), JStr (sub_VPCID s)]" zero_client_Subnet]
    set_struct_zip [OF distinct_client_fields(3), of
      "[JStr (eni_ID (inst_ENI i)), jint (inst_Generation i), JStr (inst_ID i), JStr (inst_InstanceType i), JStr (inst_Name i),
        jint (inst_ObservedGeneration i), JStr (addr_string (eni_PrivateIP (inst_ENI i))), JStr (inst_State i), JStr (inst_StateReason i),
        JStr (inst_SubnetID i)]" zero_client_Instance]
  by (simp_all add: client_Vpc_fields_def vpcResponse_def vpc_printable_def seen_vpc_def zero_client_Vpc_def
      client_Subnet_fields_def subnetResponse_def subnet_printable_def seen_subnet_def zero_client_Subnet_def
      client_Instance_fields_def instanceResponse_def instance_printable_def seen_instance_def zero_client_Instance_def)

section \<open>Answers\<close>

lemma ValidString_cidr: "prefix4 p \<Longrightarrow> ValidString (prefix_string p)"
  using ValidString_prefix [of p] by (cases "p = PrefixZero") (auto simp: prefix_text_def prefix4_def)

lemma jwf_responses:
  "vpc_printable v \<Longrightarrow> 0 < n \<Longrightarrow> jwf n (vpcResponse v)" "subnet_printable s \<Longrightarrow> 0 < n \<Longrightarrow> jwf n (subnetResponse s)"
  "instance_printable i \<Longrightarrow> 0 < n \<Longrightarrow> jwf n (instanceResponse i)"
proof -
  show "vpc_printable v \<Longrightarrow> 0 < n \<Longrightarrow> jwf n (vpcResponse v)"
    by (simp add: vpc_printable_def vpcResponse_def jwf_JObj ValidString_ascii ValidString_cidr)
  show "subnet_printable s \<Longrightarrow> 0 < n \<Longrightarrow> jwf n (subnetResponse s)"
    by (simp add: subnet_printable_def subnetResponse_def jwf_JObj ValidString_ascii ValidString_cidr)
  show "instance_printable i \<Longrightarrow> 0 < n \<Longrightarrow> jwf n (instanceResponse i)"
    using ascii_addr [of "eni_PrivateIP (inst_ENI i)"]
    by (simp add: instance_printable_def eni_printable_def instanceResponse_def jwf_JObj ValidString_ascii)
qed

lemma json_content: "has_substring ''application/json'' ''json''"
  by code_simp

text \<open>The payload of a response that has one.\<close>

definition payload :: "'a api_response res \<Rightarrow> 'a option" where
  "payload r = (case r of Inl e \<Rightarrow> None | Inr response \<Rightarrow> ar_JSON2xx response)"

lemma parse_ok:
  assumes "unmarshal (marshal j @ [CHR 0x0A]) = Some j" and "set_struct fs j zero = Some x"
  shows "\<exists>r. parse_response (into_ok code fs zero # cases) (writeJSON code j, True) = Inr r \<and>
    ar_JSON2xx r = Some x \<and> ar_StatusCode r = code"
  using assms by (simp add: parse_response_def writeJSON_def json_content into_ok_def Let_def del: has_substring.simps)

lemma error_case_keeps:
  assumes "map_of error_cases st = Some dest" and "dest j r = Some r'"
  shows "ar_StatusCode r' = ar_StatusCode r \<and> ar_JSON2xx r' = ar_JSON2xx r"
proof -
  have "(st, dest) \<in> set error_cases" by (rule map_of_SomeD [OF assms(1)])
  then consider "dest = snd (into_error 400 (\<lambda>e r. r\<lparr>ar_JSON400 := e\<rparr>))" | "dest = snd (into_error 401 (\<lambda>e r. r\<lparr>ar_JSON401 := e\<rparr>))"
    | "dest = snd (into_error 404 (\<lambda>e r. r\<lparr>ar_JSON404 := e\<rparr>))" | "dest = snd (into_error 409 (\<lambda>e r. r\<lparr>ar_JSON409 := e\<rparr>))"
    unfolding error_cases_def by (simp, metis snd_conv)
  then show ?thesis using assms(2) by cases (auto simp: into_error_def)
qed

lemma ok_case_keeps:
  "map_of (into_ok code fs zero # error_cases) st = Some dest \<Longrightarrow> dest j r = Some r' \<Longrightarrow>
   ar_StatusCode r' = ar_StatusCode r \<and> (st = code \<or> ar_JSON2xx r' = ar_JSON2xx r)"
  using error_case_keeps [of st dest j r r'] by (auto simp: into_ok_def split: if_splits)

lemma parse_keeps:
  assumes "parse_response (into_ok code fs zero # error_cases) rsp = Inr r"
  shows "ar_StatusCode r = rp_Status (fst rsp) \<and> (rp_Status (fst rsp) = code \<or> ar_JSON2xx r = None)"
proof -
  obtain rp complete where p: "rsp = (rp, complete)" by (cases rsp) auto
  let ?cases = "into_ok code fs zero # error_cases"
  let ?zero = "\<lparr>ar_Body = rp_Body rp, ar_StatusCode = rp_Status rp, ar_ContentType = rp_ContentType rp, ar_JSON2xx = None,
    ar_JSON400 = None, ar_JSON401 = None, ar_JSON404 = None, ar_JSON409 = None, ar_JSON503 = None\<rparr>"
  show ?thesis
  proof (cases "has_substring (rp_ContentType rp) ''json'' \<and> map_of ?cases (rp_Status rp) \<noteq> None")
    case True
    then obtain dest where d: "map_of ?cases (rp_Status rp) = Some dest" by blast
    then obtain j where "dest j ?zero = Some r"
      using assms True by (auto simp: parse_response_def p Let_def bind_eq_Some_conv simp del: map_of.simps split: if_splits option.splits)
    from ok_case_keeps [OF d this] show ?thesis by (simp add: p)
  next
    case False
    then have "r = ?zero"
      using assms by (auto simp: parse_response_def p Let_def simp del: map_of.simps split: if_splits bool.splits option.splits)
    then show ?thesis by (simp add: p)
  qed
qed

lemma parse_refused:
  "rp_Status (fst rsp) \<noteq> code \<Longrightarrow> payload (parse_response (into_ok code fs zero # error_cases) rsp) = None"
  using parse_keeps [of code fs zero rsp] by (auto simp: payload_def split: sum.split)

section \<open>Pages\<close>

lemma those_zip_replicate:
  assumes "list_all2 (\<lambda>j x. elem j zero = Some x) js xs"
  shows "those (map (\<lambda>(j, x). elem j x) (zip js (replicate (length js) zero))) = Some xs"
  using assms by (induction rule: list_all2_induct) auto

lemma page_decoded:
  assumes "list_all2 (\<lambda>j x. set_struct fs j zero = Some x) js xs"
  shows "set_struct (page_fields zero fs) (page_json js next) zero_Page =
    Some \<lparr>pg_Items = (xs, []), pg_NextPageToken = (if next = [] then None else Some next)\<rparr>"
proof -
  have d: "distinct (map fold_key (map fst (page_fields zero fs)))"
  proof -
    have "distinct (map fold_key [''items'', ''next_page_token''])" by code_simp
    then show ?thesis by (simp only: page_fields_def list.map fst_conv)
  qed
  have "set_slice zero (set_struct fs) (JArr js) ([], []) = Some (xs, [])"
    using assms those_zip_replicate [where elem = "set_struct fs", OF assms] by (cases js) (auto simp: set_slice_def)
  then show ?thesis
    using set_member_field [OF d, of "''items''"] set_member_field [OF d, of "''next_page_token''"]
    by (simp add: set_struct_def page_json_def page_fields_def zero_Page_def set_ptr_def read_str_def)
qed

lemma jwf_page:
  assumes "\<And>j. j \<in> set js \<Longrightarrow> jwf 9998 j" and "ValidString next"
  shows "jwf 10000 (page_json js next)"
  using assms by (auto simp: page_json_def jwf_JObj jwf_JArr list_all_iff ValidString_ascii)

section \<open>Requests\<close>

lemma decoded_body:
  assumes "Header_Get ''Content-Type'' r = ''application/json''" and "nr_Body r = (marshal (JObj kvs), True)" and "jwf 10000 (JObj kvs)"
    and "length (marshal (JObj kvs)) \<le> 2 ^ 20" and "set_strict fs (JObj kvs) zero = Some x"
  shows "decodeBody ev (view r) fs zero = Inr x"
proof -
  have "ParseMediaType ''application/json'' = Some ''application/json''" by code_simp
  moreover have "unmarshal (marshal (JObj kvs)) = Some (JObj kvs)" by (rule unmarshal_marshal [OF assms(3)])
  then have "decode_single True (\<lambda>j. set_strict fs j zero) bad trailing (marshal (JObj kvs)) = Inr x" for bad trailing :: response
    unfolding decode_single_Inr using assms(5) by blast
  ultimately show ?thesis using assms(1,2,4) by (simp add: decodeBody_def view_def limited_body_def)
qed

lemma create_vpc_strict: "set_strict create_vpc_fields (create_vpc_json b) \<lparr>cv_CidrBlock = [], cv_Name = []\<rparr> = Some b"
proof -
  have "distinct (map fold_key [''cidr_block'', ''name''])" by code_simp
  then have d: "distinct (map fold_key (map fst create_vpc_fields))" by (simp only: create_vpc_fields_def list.map fst_conv)
  have "set_known create_vpc_fields ((''cidr_block'', j) # kvs) x =
      (case set_str (\<lambda>s x. x\<lparr>cv_CidrBlock := s\<rparr>) j x of None \<Rightarrow> None | Some y \<Rightarrow> set_known create_vpc_fields kvs y)"
    "set_known create_vpc_fields ((''name'', j) # kvs) x =
      (case set_str (\<lambda>s x. x\<lparr>cv_Name := s\<rparr>) j x of None \<Rightarrow> None | Some y \<Rightarrow> set_known create_vpc_fields kvs y)" for j kvs x
    by (rule set_known_field [OF d], simp add: create_vpc_fields_def)+
  then show ?thesis by (simp add: set_strict_def create_vpc_json_def del: set_known.simps(2))
qed

end
