(* ===== verification/Cli.thy ===== *)
theory Cli
  imports GenClient Credentials
begin

text \<open>
  The resource commands of the command line, \<open>cmd/nephos\<close>: making the client, resolving names,
  waiting for a state, retrying creations and printing, over the generated client. The flags
  are parsed by the standard library; the model starts with their values.
\<close>

section \<open>network_client.go\<close>

definition defaultEndpoint :: string where
  "defaultEndpoint = ''http://127.0.0.1:7788''"

record resourceConfig =
  rc_endpoint :: string
  rc_credentialPath :: string
  rc_pollInterval :: int

text \<open>\<open>path\<close> is where the credential lies below the home directory, or the error of finding it.\<close>

definition normalized :: "string res \<Rightarrow> resourceConfig \<Rightarrow> resourceConfig res" where
  "normalized path cfg =
     (let cfg = (if rc_endpoint cfg = [] then cfg\<lparr>rc_endpoint := defaultEndpoint\<rparr> else cfg) in
      case url_Parse (rc_endpoint cfg) of
        None \<Rightarrow> Inl (Errorf ''API endpoint must be an HTTP loopback address'')
      | Some parsed \<Rightarrow>
          if u_Scheme parsed \<noteq> ''http'' \<or> u_RawQuery parsed \<noteq> [] \<or> u_Fragment parsed \<noteq> [] \<or> u_Path parsed \<noteq> [] \<or>
             Hostname parsed \<notin> {''localhost'', ''127.0.0.1'', ''::1''}
          then Inl (Errorf ''API endpoint must be an HTTP loopback address'')
          else
            res_bind (if rc_credentialPath cfg = [] then res_wrap ''find home directory'' path else Inr (rc_credentialPath cfg)) (\<lambda>path.
            Inr (cfg\<lparr>rc_credentialPath := path,
              rc_pollInterval := (if rc_pollInterval cfg \<le> 0 then 500000000 else rc_pollInterval cfg)\<rparr>)))"

text \<open>The requests are done by an \<open>http.Client\<close> that follows no redirect.\<close>

definition newResourceClient ::
  "'s doer \<Rightarrow> file_io \<Rightarrow> host_file option \<Rightarrow> string res \<Rightarrow> resourceConfig \<Rightarrow> ('s Client \<times> resourceConfig) res" where
  "newResourceClient httpClient io file path cfg =
     res_bind (normalized path cfg) (\<lambda>cfg.
     res_bind (loadCredential io file) (\<lambda>token.
     res_bind (res_wrap ''create API client''
       (NewClient httpClient (rc_endpoint cfg)
          [WithHTTPClient httpClient, WithRequestEditorFn (\<lambda>r. Inr (Header_Set ''Authorization'' (''Bearer '' @ token) r))])) (\<lambda>api.
     Inr (api, cfg))))"

definition responseError :: "string \<Rightarrow> 'a api_response option \<Rightarrow> goerr" where
  "responseError operation response =
     (case response of
        None \<Rightarrow> Errorf (operation @ '': no API response'')
      | Some r \<Rightarrow>
          (case Option.bind (unmarshal (ar_Body r)) (\<lambda>j. set_struct client_error_fields j zero_client_Error) of
             Some body \<Rightarrow>
               if er_Code body \<noteq> [] then Errorf (operation @ '': '' @ er_Code body @ '': '' @ er_Msg body)
               else Errorf (operation @ '': HTTP '' @ FormatInt (ar_StatusCode r))
           | None \<Rightarrow> Errorf (operation @ '': HTTP '' @ FormatInt (ar_StatusCode r))))"

definition newIdempotencyKey :: "bytes res \<Rightarrow> string res" where
  "newIdempotencyKey random = res_bind (res_wrap ''generate request idempotency key'' random) (\<lambda>bs. Inr (b64Encode bs))"

definition looksLikeID :: "string \<Rightarrow> string \<Rightarrow> bool" where
  "looksLikeID value prefix \<longleftrightarrow>
     HasPrefix value prefix \<and> length value = length prefix + 17 \<and> list_all is_lower_hex (drop (length prefix) value)"

text \<open>
  Names are resolved the same way for the three kinds of resources: an argument that looks like
  an identifier is looked up; otherwise, or when there is none, the pages of the listing are
  searched until they end. \<open>fuel\<close> bounds the pages.
\<close>

fun match_items :: "goerr \<Rightarrow> string \<Rightarrow> (string \<times> string) list \<Rightarrow> string \<Rightarrow> string res" where
  "match_items ambiguous reference [] match = Inr match"
| "match_items ambiguous reference ((name, i) # items) match =
     (if name = reference then if match \<noteq> [] then Inl ambiguous else match_items ambiguous reference items i
      else match_items ambiguous reference items match)"

definition page_params :: "string option \<Rightarrow> ListParams option" where
  "page_params token = Some \<lparr>lp_Limit = Some 100, lp_PageToken = token\<rparr>"

fun search_pages ::
  "string \<Rightarrow> ('b \<Rightarrow> string \<times> string) \<Rightarrow> (ListParams option \<Rightarrow> ('s, 'b client_Page api_response) eff) \<Rightarrow> string \<Rightarrow>
   nat \<Rightarrow> string option \<Rightarrow> string list \<Rightarrow> string \<Rightarrow> ('s, string) eff" where
  "search_pages noun name_id lister reference 0 token seen match = eff_res (Inl OutOfFuel)"
| "search_pages noun name_id lister reference (Suc fuel) token seen match =
     eff_bind (eff_wrap (''resolve '' @ noun @ '' name'') (lister (page_params token))) (\<lambda>response.
     case ar_JSON2xx response of
       None \<Rightarrow> eff_res (Inl (responseError (''resolve '' @ noun @ '' name'') (Some response)))
     | Some page \<Rightarrow>
         eff_bind (eff_res (match_items (Errorf (noun @ '' name '' @ Quote reference @ '' is ambiguous'')) reference
           (map name_id (fst (pg_Items page))) match)) (\<lambda>match.
         case pg_NextPageToken page of
           Some (c # cs) \<Rightarrow>
             if c # cs \<in> set seen then eff_res (Inl (Errorf (noun @ '' list repeated a page token'')))
             else search_pages noun name_id lister reference fuel (Some (c # cs)) ((c # cs) # seen) match
         | _ \<Rightarrow>
             if match = [] then eff_res (Inl (Errorf (noun @ '' name '' @ Quote reference @ '' not found''))) else eff_return match))"

definition lookup_id ::
  "string \<Rightarrow> string \<Rightarrow> (string \<Rightarrow> ('s, 'b api_response) eff) \<Rightarrow> string \<Rightarrow> ('s, string option) eff" where
  "lookup_id noun prefix get reference =
     (if \<not> looksLikeID reference prefix then eff_return None
      else
        eff_bind (eff_wrap (''resolve '' @ noun @ '' ID'') (get reference)) (\<lambda>response.
        if ar_JSON2xx response \<noteq> None then eff_return (Some reference)
        else if ar_StatusCode response \<noteq> 404 then eff_res (Inl (responseError (''resolve '' @ noun @ '' ID'') (Some response)))
        else eff_return None))"

definition resolveVPC :: "gen_runtime \<Rightarrow> 's Client \<Rightarrow> nat \<Rightarrow> string \<Rightarrow> ('s, string) eff" where
  "resolveVPC rt api fuel reference =
     eff_bind (lookup_id ''VPC'' ''vpc-'' (\<lambda>i. GetVpcWithResponse rt api ''default'' i []) reference) (\<lambda>found.
     case found of
       Some i \<Rightarrow> eff_return i
     | None \<Rightarrow> search_pages ''VPC'' (\<lambda>v. (av_Name v, av_Id v)) (\<lambda>p. ListVpcsWithResponse rt api ''default'' p []) reference fuel None [] [])"

definition resolveSubnet :: "gen_runtime \<Rightarrow> 's Client \<Rightarrow> nat \<Rightarrow> string \<Rightarrow> ('s, string) eff" where
  "resolveSubnet rt api fuel reference =
     eff_bind (lookup_id ''subnet'' ''subnet-'' (\<lambda>i. GetSubnetWithResponse rt api ''default'' i []) reference) (\<lambda>found.
     case found of
       Some i \<Rightarrow> eff_return i
     | None \<Rightarrow> search_pages ''subnet'' (\<lambda>v. (as_Name v, as_Id v)) (\<lambda>p. ListSubnetsWithResponse rt api ''default'' p []) reference fuel None [] [])"

section \<open>instance_client.go\<close>

definition resolveInstance :: "gen_runtime \<Rightarrow> 's Client \<Rightarrow> nat \<Rightarrow> string \<Rightarrow> ('s, string) eff" where
  "resolveInstance rt api fuel reference =
     eff_bind (lookup_id ''instance'' ''i-'' (\<lambda>i. GetInstanceWithResponse rt api ''default'' i []) reference) (\<lambda>found.
     case found of
       Some i \<Rightarrow> eff_return i
     | None \<Rightarrow>
         search_pages ''instance'' (\<lambda>v. (ai_Name v, ai_Id v)) (\<lambda>p. ListInstancesWithResponse rt api ''default'' p []) reference fuel None [] [])"

section \<open>network_wait.go\<close>

text \<open>
  The contexts at a point of the wait: alive, or done with the error of the caller's context, if
  that one is done, and of the context with the timeout.
\<close>

type_synonym ctx_state = "(goerr option \<times> goerr) option"

definition ErrDeadlineExceeded :: goerr where
  "ErrDeadlineExceeded = ErrSentinel ''context deadline exceeded''"

definition waitError :: "goerr option \<Rightarrow> goerr \<Rightarrow> string \<Rightarrow> string \<Rightarrow> goerr" where
  "waitError parent wait i timeout =
     (case parent of
        Some e \<Rightarrow> Wrapf (''waiting for '' @ i) e
      | None \<Rightarrow>
          if wait = ErrDeadlineExceeded then Errorf (''waiting for '' @ i @ '' timed out after '' @ timeout)
          else Wrapf (''waiting for '' @ i) wait)"

text \<open>The loop of the waits: the contexts before each request and at each pause.\<close>

fun wait_loop ::
  "string \<Rightarrow> (string \<Rightarrow> string \<Rightarrow> goerr) \<Rightarrow> string \<Rightarrow> ('b \<Rightarrow> string \<times> string) \<Rightarrow> ('s, 'b api_response) eff \<Rightarrow> 'b \<Rightarrow> string \<Rightarrow> bool \<Rightarrow> string \<Rightarrow>
   (ctx_state \<times> ctx_state) list \<Rightarrow> ('s, 'b) eff" where
  "wait_loop noun failed ready state_reason get zero i deleting timeout [] = eff_res (Inl OutOfFuel)"
| "wait_loop noun failed ready state_reason get zero i deleting timeout ((before, pause) # ticks) =
     (case before of
        Some (parent, wait) \<Rightarrow> eff_res (Inl (waitError parent wait i timeout))
      | None \<Rightarrow>
          eff_bind (eff_try get) (\<lambda>got.
          let next = (case pause of
                        Some (parent, wait) \<Rightarrow> eff_res (Inl (waitError parent wait i timeout))
                      | None \<Rightarrow> wait_loop noun failed ready state_reason get zero i deleting timeout ticks) in
          case got of
            Inl e \<Rightarrow> next
          | Inr response \<Rightarrow>
              if deleting \<and> ar_StatusCode response = 404 then eff_return zero
              else
                (case ar_JSON2xx response of
                   None \<Rightarrow> eff_res (Inl (responseError (''wait for '' @ noun) (Some response)))
                 | Some x \<Rightarrow>
                     if fst (state_reason x) = StateFailed then eff_res (Inl (failed i (snd (state_reason x))))
                     else if \<not> deleting \<and> fst (state_reason x) = ready then eff_return x
                     else next)))"

definition failed_with :: "string \<Rightarrow> string \<Rightarrow> string \<Rightarrow> goerr" where
  "failed_with noun i reason = Errorf (noun @ '' '' @ i @ '' failed: '' @ reason)"

definition waitVPC ::
  "gen_runtime \<Rightarrow> 's Client \<Rightarrow> string \<Rightarrow> bool \<Rightarrow> string \<Rightarrow> (ctx_state \<times> ctx_state) list \<Rightarrow> ('s, client_Vpc) eff" where
  "waitVPC rt api i deleting timeout =
     wait_loop ''VPC'' (failed_with ''VPC'') StateAvailable (\<lambda>v. (av_State v, av_StateReason v))
       (GetVpcWithResponse rt api ''default'' i []) zero_client_Vpc i deleting timeout"

definition waitSubnet ::
  "gen_runtime \<Rightarrow> 's Client \<Rightarrow> string \<Rightarrow> bool \<Rightarrow> string \<Rightarrow> (ctx_state \<times> ctx_state) list \<Rightarrow> ('s, client_Subnet) eff" where
  "waitSubnet rt api i deleting timeout =
     wait_loop ''subnet'' (failed_with ''subnet'') StateAvailable (\<lambda>v. (as_State v, as_StateReason v))
       (GetSubnetWithResponse rt api ''default'' i []) zero_client_Subnet i deleting timeout"

definition waitInstance ::
  "gen_runtime \<Rightarrow> 's Client \<Rightarrow> string \<Rightarrow> bool \<Rightarrow> string \<Rightarrow> (ctx_state \<times> ctx_state) list \<Rightarrow> ('s, client_Instance) eff" where
  "waitInstance rt api i deleting timeout =
     wait_loop ''instance'' (failed_with ''instance'') InstanceRunning (\<lambda>v. (ai_State v, ai_StateReason v))
       (GetInstanceWithResponse rt api ''default'' i []) zero_client_Instance i deleting timeout"

section \<open>network.go and instance.go\<close>

record resourceOptions =
  ro_reference :: string
  ro_cidr :: string
  ro_vpc :: string
  ro_zone :: string
  ro_subnet :: string
  ro_output :: string
  ro_wait :: bool
  ro_timeout :: int
  ro_limit :: int
  ro_pageToken :: string

text \<open>
  The name of the resource that the commands other than list take first; a name that begins
  with a dash is given behind two dashes.
\<close>

definition split_reference :: "string \<Rightarrow> string \<Rightarrow> string list \<Rightarrow> (string \<times> string list) res" where
  "split_reference kind verb args =
     (let allowDash = (case args of a # _ \<Rightarrow> a = ''--'' | [] \<Rightarrow> False);
          args = (if allowDash then tl args else args) in
      case args of
        [] \<Rightarrow> Inl (Errorf (kind @ '' '' @ verb @ '' requires a name or ID''))
      | a # rest \<Rightarrow>
          if a = [] \<or> \<not> allowDash \<and> hd a = CHR ''-'' then Inl (Errorf (kind @ '' '' @ verb @ '' requires a name or ID''))
          else Inr (a, rest))"

text \<open>
  The checks behind the parsing of the flags: how many arguments are left, and whether the limit
  was given.
\<close>

definition checkResourceOptions :: "string \<Rightarrow> string \<Rightarrow> nat \<Rightarrow> bool \<Rightarrow> resourceOptions \<Rightarrow> unit res" where
  "checkResourceOptions kind verb nargs explicitLimit opts =
     (if nargs \<noteq> 0 then Inl (Errorf ''unexpected positional arguments'')
      else if ro_output opts \<noteq> ''human'' \<and> ro_output opts \<noteq> ''json'' then Inl (Errorf ''output format must be human or json'')
      else if (verb = ''create'' \<or> verb = ''delete'') \<and> ro_timeout opts \<le> 0 then Inl (Errorf ''timeout must be positive'')
      else if verb = ''create'' \<and> ro_cidr opts = [] then Inl (Errorf ''--cidr-block is required'')
      else if verb = ''create'' \<and> kind = ''subnet'' \<and> (ro_vpc opts = [] \<or> ro_zone opts = []) then Inl (Errorf ''--vpc and --availability-zone are required'')
      else if verb = ''list'' \<and> (explicitLimit \<and> ro_limit opts < 1 \<or> ro_limit opts > 100) then Inl (Errorf ''--limit must be 1-100'')
      else Inr ())"

definition checkInstanceOptions :: "string \<Rightarrow> nat \<Rightarrow> bool \<Rightarrow> resourceOptions \<Rightarrow> unit res" where
  "checkInstanceOptions verb nargs explicitLimit opts =
     (if nargs \<noteq> 0 then Inl (Errorf ''unexpected positional arguments'')
      else if ro_output opts \<noteq> ''json'' \<and> ro_output opts \<noteq> ''human'' then Inl (Errorf ''output format must be human or json'')
      else if ro_timeout opts \<le> 0 then Inl (Errorf ''timeout must be positive'')
      else if verb = ''run'' \<and> ro_subnet opts = [] then Inl (Errorf ''--subnet is required'')
      else if verb = ''list'' \<and> (explicitLimit \<and> ro_limit opts < 1 \<or> ro_limit opts > 100) then Inl (Errorf ''--limit must be 1-100'')
      else Inr ())"

subsection \<open>Output\<close>

datatype resource_value =
    OneVpc client_Vpc
  | OneSubnet client_Subnet
  | OneInstance client_Instance
  | ManyVpcs "client_Vpc client_Page"
  | ManySubnets "client_Subnet client_Page"
  | ManyInstances "client_Instance client_Page"

definition client_vpc_json :: "client_Vpc \<Rightarrow> json" where
  "client_vpc_json v = JObj
     [(''cidr_block'', JStr (av_CidrBlock v)), (''generation'', jint (av_Generation v)), (''id'', JStr (av_Id v)), (''name'', JStr (av_Name v)),
      (''observed_generation'', jint (av_ObservedGeneration v)), (''state'', JStr (av_State v)), (''state_reason'', JStr (av_StateReason v))]"

definition client_subnet_json :: "client_Subnet \<Rightarrow> json" where
  "client_subnet_json v = JObj
     [(''availability_zone'', JStr (as_AvailabilityZone v)), (''cidr_block'', JStr (as_CidrBlock v)), (''generation'', jint (as_Generation v)),
      (''id'', JStr (as_Id v)), (''name'', JStr (as_Name v)), (''observed_generation'', jint (as_ObservedGeneration v)),
      (''state'', JStr (as_State v)), (''state_reason'', JStr (as_StateReason v)), (''vpc_id'', JStr (as_VpcId v))]"

definition client_instance_json :: "client_Instance \<Rightarrow> json" where
  "client_instance_json v = JObj
     [(''eni_id'', JStr (ai_EniId v)), (''generation'', jint (ai_Generation v)), (''id'', JStr (ai_Id v)),
      (''instance_type'', JStr (ai_InstanceType v)), (''name'', JStr (ai_Name v)), (''observed_generation'', jint (ai_ObservedGeneration v)),
      (''private_ip'', JStr (ai_PrivateIp v)), (''state'', JStr (ai_State v)), (''state_reason'', JStr (ai_StateReason v)),
      (''subnet_id'', JStr (ai_SubnetId v))]"

definition client_page_json :: "('b \<Rightarrow> json) \<Rightarrow> 'b client_Page \<Rightarrow> json" where
  "client_page_json item p =
     JObj ((''items'', JArr (map item (fst (pg_Items p)))) #
       (case pg_NextPageToken p of None \<Rightarrow> [] | Some t \<Rightarrow> [(''next_page_token'', JStr t)]))"

fun value_json :: "resource_value \<Rightarrow> json" where
  "value_json (OneVpc v) = client_vpc_json v"
| "value_json (OneSubnet v) = client_subnet_json v"
| "value_json (OneInstance v) = client_instance_json v"
| "value_json (ManyVpcs p) = client_page_json client_vpc_json p"
| "value_json (ManySubnets p) = client_page_json client_subnet_json p"
| "value_json (ManyInstances p) = client_page_json client_instance_json p"

definition row_line :: "string list \<Rightarrow> string" where
  "row_line cells = joined (CHR 0x09) cells @ [CHR 0x0A]"

definition vpc_line :: "client_Vpc \<Rightarrow> string" where
  "vpc_line v = row_line [av_Id v, av_Name v, av_CidrBlock v, av_State v]"

definition subnet_line :: "client_Subnet \<Rightarrow> string" where
  "subnet_line v = row_line [as_Id v, as_Name v, as_VpcId v, as_CidrBlock v, as_State v]"

definition instance_line :: "client_Instance \<Rightarrow> string" where
  "instance_line v = row_line [ai_Id v, ai_Name v, ai_SubnetId v, ai_PrivateIp v, ai_State v]"

definition page_lines :: "('b \<Rightarrow> string) \<Rightarrow> 'b client_Page \<Rightarrow> string" where
  "page_lines line p =
     concat (map line (fst (pg_Items p))) @
     (case pg_NextPageToken p of None \<Rightarrow> [] | Some t \<Rightarrow> ''Next page: '' @ t @ [CHR 0x0A])"

text \<open>What is written to the standard output.\<close>

definition writeResource :: "resource_value \<Rightarrow> string \<Rightarrow> string" where
  "writeResource value output =
     (if output = ''json'' then marshal (value_json value) @ [CHR 0x0A]
      else
        (case value of
           OneVpc v \<Rightarrow> vpc_line v
         | OneSubnet v \<Rightarrow> subnet_line v
         | OneInstance v \<Rightarrow> instance_line v
         | ManyVpcs p \<Rightarrow> page_lines vpc_line p
         | ManySubnets p \<Rightarrow> page_lines subnet_line p
         | ManyInstances p \<Rightarrow> page_lines instance_line p))"

subsection \<open>Commands\<close>

text \<open>
  What the surroundings give a command: random bytes, what ends the delays between attempts, the
  contexts of a wait, the text of a duration, and a bound on the pages of a listing.
\<close>

record cli_env =
  le_random :: "bytes res"
  le_delays :: "goerr option list"
  le_ticks :: "(ctx_state \<times> ctx_state) list"
  le_duration :: "int \<Rightarrow> string"
  le_fuel :: nat

definition unavailable :: "'a api_response \<Rightarrow> bool" where
  "unavailable response \<longleftrightarrow> ar_StatusCode response \<in> {502, 503, 504}"

text \<open>
  The attempts of a creation: \<open>k\<close> more after the next one. The result is the response or the
  error of the last attempt; the error of a delay ends the command.
\<close>

fun attempts :: "nat \<Rightarrow> goerr option list \<Rightarrow> ('s, 'a api_response) eff \<Rightarrow> ('s, 'a api_response res) eff" where
  "attempts 0 delays call = eff_try call"
| "attempts (Suc k) delays call =
     eff_bind (eff_try call) (\<lambda>r.
     if (case r of Inr response \<Rightarrow> \<not> unavailable response | Inl e \<Rightarrow> False) then eff_return r
     else
       (case delays of
          Some e # rest \<Rightarrow> eff_res (Inl e)
        | None # rest \<Rightarrow> attempts k rest call
        | [] \<Rightarrow> attempts k [] call))"

text \<open>The payload of a response, or the error of the operation.\<close>

definition expect :: "string \<Rightarrow> 'a api_response \<Rightarrow> ('s, 'a) eff" where
  "expect operation response =
     (case ar_JSON2xx response of Some x \<Rightarrow> eff_return x | None \<Rightarrow> eff_res (Inl (responseError operation (Some response))))"

definition list_options :: "resourceOptions \<Rightarrow> ListParams" where
  "list_options opts =
     \<lparr>lp_Limit = (if ro_limit opts > 0 then Some (ro_limit opts) else None),
      lp_PageToken = (if ro_pageToken opts \<noteq> [] then Some (ro_pageToken opts) else None)\<rparr>"

definition created ::
  "cli_env \<Rightarrow> string \<Rightarrow> (string \<Rightarrow> ('s, 'b api_response) eff) \<Rightarrow> ('b \<Rightarrow> ('s, 'b) eff) \<Rightarrow> ('b \<Rightarrow> resource_value) \<Rightarrow> resourceOptions \<Rightarrow> ('s, string) eff" where
  "created le operation call wait value opts =
     eff_bind (eff_res (newIdempotencyKey (le_random le))) (\<lambda>key.
     eff_bind (attempts 2 (le_delays le) (call key)) (\<lambda>last.
     eff_bind (eff_wrap (operation @ '' request'') (eff_res last)) (\<lambda>response.
     eff_bind (expect operation response) (\<lambda>x.
     eff_bind (if ro_wait opts then wait x else eff_return x) (\<lambda>x.
     eff_return (writeResource (value x) (ro_output opts)))))))"

definition listed ::
  "string \<Rightarrow> ('s, 'b api_response) eff \<Rightarrow> ('b \<Rightarrow> resource_value) \<Rightarrow> resourceOptions \<Rightarrow> ('s, string) eff" where
  "listed operation call value opts =
     eff_bind (eff_wrap operation call) (\<lambda>response.
     eff_bind (expect operation response) (\<lambda>x. eff_return (writeResource (value x) (ro_output opts))))"

definition removed ::
  "string \<Rightarrow> string \<Rightarrow> ('s, 'b api_response) eff \<Rightarrow> ('s, 'b) eff \<Rightarrow> ('b \<Rightarrow> resource_value) \<Rightarrow> string \<Rightarrow> resourceOptions \<Rightarrow> ('s, string) eff" where
  "removed operation past call wait value i opts =
     eff_bind (eff_wrap operation call) (\<lambda>response.
     eff_bind (expect operation response) (\<lambda>x.
     if ro_wait opts then
       eff_bind wait (\<lambda>_.
       if ro_output opts = ''human'' then eff_return (i @ '' '' @ past @ [CHR 0x0A])
       else eff_return (writeResource (value x) (ro_output opts)))
     else eff_return (writeResource (value x) (ro_output opts))))"

definition runVPC :: "gen_runtime \<Rightarrow> 's Client \<Rightarrow> cli_env \<Rightarrow> string \<Rightarrow> resourceOptions \<Rightarrow> ('s, string) eff" where
  "runVPC rt api le verb opts =
     (let wait = (\<lambda>i deleting. waitVPC rt api i deleting (le_duration le (ro_timeout opts)) (le_ticks le)) in
      if verb = ''create'' then
        created le ''create VPC''
          (\<lambda>key. CreateVpcWithResponse rt api ''default'' (Some (Some key)) \<lparr>cv_CidrBlock = ro_cidr opts, cv_Name = ro_reference opts\<rparr> [])
          (\<lambda>v. wait (av_Id v) False) OneVpc opts
      else if verb = ''list'' then
        listed ''list VPCs'' (ListVpcsWithResponse rt api ''default'' (Some (list_options opts)) []) ManyVpcs opts
      else if verb = ''describe'' \<or> verb = ''delete'' then
        eff_bind (resolveVPC rt api (le_fuel le) (ro_reference opts)) (\<lambda>i.
        if verb = ''describe'' then listed ''describe VPC'' (GetVpcWithResponse rt api ''default'' i []) OneVpc opts
        else removed ''delete VPC'' ''deleted'' (DeleteVpcWithResponse rt api ''default'' i []) (wait i True) OneVpc i opts)
      else eff_res (Inl (Errorf (''unsupported VPC verb '' @ Quote verb))))"

definition runSubnet :: "gen_runtime \<Rightarrow> 's Client \<Rightarrow> cli_env \<Rightarrow> string \<Rightarrow> resourceOptions \<Rightarrow> ('s, string) eff" where
  "runSubnet rt api le verb opts =
     (let wait = (\<lambda>i deleting. waitSubnet rt api i deleting (le_duration le (ro_timeout opts)) (le_ticks le)) in
      if verb = ''create'' then
        eff_bind (resolveVPC rt api (le_fuel le) (ro_vpc opts)) (\<lambda>vpcID.
        created le ''create subnet''
          (\<lambda>key. CreateSubnetWithResponse rt api ''default'' (Some (Some key))
             \<lparr>cs_AvailabilityZone = ro_zone opts, cs_CidrBlock = ro_cidr opts, cs_Name = ro_reference opts, cs_VpcId = vpcID\<rparr> [])
          (\<lambda>v. wait (as_Id v) False) OneSubnet opts)
      else if verb = ''list'' then
        listed ''list subnets'' (ListSubnetsWithResponse rt api ''default'' (Some (list_options opts)) []) ManySubnets opts
      else if verb = ''describe'' \<or> verb = ''delete'' then
        eff_bind (resolveSubnet rt api (le_fuel le) (ro_reference opts)) (\<lambda>i.
        if verb = ''describe'' then listed ''describe subnet'' (GetSubnetWithResponse rt api ''default'' i []) OneSubnet opts
        else removed ''delete subnet'' ''deleted'' (DeleteSubnetWithResponse rt api ''default'' i []) (wait i True) OneSubnet i opts)
      else eff_res (Inl (Errorf (''unsupported subnet verb '' @ Quote verb))))"

definition instanceCommand :: "gen_runtime \<Rightarrow> 's Client \<Rightarrow> cli_env \<Rightarrow> string \<Rightarrow> resourceOptions \<Rightarrow> ('s, string) eff" where
  "instanceCommand rt api le verb opts =
     (let wait = (\<lambda>i deleting. waitInstance rt api i deleting (le_duration le (ro_timeout opts)) (le_ticks le)) in
      if verb = ''run'' then
        eff_bind (resolveSubnet rt api (le_fuel le) (ro_subnet opts)) (\<lambda>subnetID.
        created le ''run instance''
          (\<lambda>key. RunInstanceWithResponse rt api ''default'' (Some (Some key)) \<lparr>ri_Name = ro_reference opts, ri_SubnetId = subnetID\<rparr> [])
          (\<lambda>v. wait (ai_Id v) False) OneInstance opts)
      else if verb = ''list'' then
        listed ''list instances'' (ListInstancesWithResponse rt api ''default'' (Some (list_options opts)) []) ManyInstances opts
      else if verb = ''describe'' \<or> verb = ''terminate'' then
        eff_bind (resolveInstance rt api (le_fuel le) (ro_reference opts)) (\<lambda>i.
        if verb = ''describe'' then listed ''describe instance'' (GetInstanceWithResponse rt api ''default'' i []) OneInstance opts
        else removed ''terminate instance'' ''terminated'' (TerminateInstanceWithResponse rt api ''default'' i []) (wait i True) OneInstance i opts)
      else eff_res (Inl (Errorf (''unknown instance command '' @ Quote verb))))"

end
