(* ===== verification/Spec2Isabelle.thy ===== *)
theory Spec2Isabelle
  imports ServiceProps NetworkProps ComputeProps ApiProps Plan ClientProps LinkFacts BodyFacts Cli
begin

text \<open>
  A verification development for nephos, a local cloud control plane written in Go.
\<close>

section \<open>Consistency of the control plane\<close>

text \<open>
  C1: In every state that any sequence of requests and controller writes reaches, with any
  clocks, random bytes and transaction faults, the tables are consistent: keys and names
  are unique, references lead to live rows, CIDR blocks are canonical, nested in their
  VPC's and disjoint from their siblings', interface addresses are free, inside the subnet
  and not reserved, and idempotency records decode.
\<close>

theorem reachable_consistent: "reachable d \<Longrightarrow> db_inv d"
  by (rule reachable_inv)

theorem reachable_consistent_witness: "db_inv db4 \<and> length (instances db4) = 1 \<and> length (subnets db4) = 2"
  using reachable_consistent [OF db_reachable(4)] by (simp add: db4_def db3_def db2_def)



end
